(* ===== verification/Prelude.thy ===== *)
theory Prelude
  imports
    Complex_Main
    "HOL-Library.Word"
    "HOL-Library.AList"
    "HOL-Library.Char_ord"
    "HOL-Library.List_Lexorder"
    "HOL-Library.Monad_Syntax"
begin

text \<open>
  Shared vocabulary of the development: the machine types of the C++ sources, the
  partial memory accesses of byte buffers (an access out of range is undefined
  behaviour in C++ and is the value \<open>None\<close> here), the association lists that stand for
  \<^verbatim>\<open>std::unordered_map\<close>, and a comparator sort that stands for \<^verbatim>\<open>std::sort\<close>.
  The named collections \<open>byte_simps\<close>, \<open>map_simps\<close> and \<open>inv_intros\<close> are filled by the
  component theories.
\<close>

unbundle bit_operations_syntax

named_theorems byte_simps "reading back what was written into a packet"
named_theorems map_simps "lookups in updated association lists"
named_theorems inv_intros "operations that keep a component's invariant"

section \<open>Types\<close>

type_synonym byte = "8 word"
type_synonym u16 = "16 word"
type_synonym u32 = "32 word"
type_synonym u64 = "64 word"

text \<open>\<^verbatim>\<open>rtc::binary\<close> is \<^verbatim>\<open>std::vector<std::byte>\<close>.\<close>

type_synonym packet = "byte list"

text \<open>
  \<^verbatim>\<open>PeerId\<close>, \<^verbatim>\<open>RoomId\<close> and \<^verbatim>\<open>Username\<close> of \<^verbatim>\<open>core/src/identity.hpp\<close> wrap one
  \<^verbatim>\<open>std::string\<close> and compare by it.
\<close>

type_synonym peer_id = string
type_synonym room_id = string
type_synonym username = string

section \<open>Byte buffers\<close>

definition byte_at :: "packet \<Rightarrow> nat \<Rightarrow> byte option" where
  "byte_at p i = (if i < length p then Some (p ! i) else None)"

definition set_byte :: "packet \<Rightarrow> nat \<Rightarrow> byte \<Rightarrow> packet option" where
  "set_byte p i v = (if i < length p then Some (p[i := v]) else None)"

definition fill_zero :: "packet \<Rightarrow> nat \<Rightarrow> nat \<Rightarrow> packet option" where
  "fill_zero p from till =
     (if from \<le> till \<and> till \<le> length p
      then Some (take from p @ replicate (till - from) 0 @ drop till p)
      else None)"

lemma byte_at_in_range [simp]: "i < length p \<Longrightarrow> byte_at p i = Some (p ! i)"
  by (simp add: byte_at_def)

lemma byte_at_eq_Some: "byte_at p i = Some b \<longleftrightarrow> i < length p \<and> b = p ! i"
  by (auto simp: byte_at_def)

lemma set_byte_in_range [simp]: "i < length p \<Longrightarrow> set_byte p i v = Some (p[i := v])"
  by (simp add: set_byte_def)

lemma set_byte_eq_Some: "set_byte p i v = Some q \<longleftrightarrow> i < length p \<and> q = p[i := v]"
  by (auto simp: set_byte_def)

lemma fill_zero_eq_Some:
  "fill_zero p a b = Some q \<longleftrightarrow>
     a \<le> b \<and> b \<le> length p \<and> q = take a p @ replicate (b - a) 0 @ drop b p"
  by (auto simp: fill_zero_def)

lemma length_fill_zero: "fill_zero p a b = Some q \<Longrightarrow> length q = length p"
  by (auto simp: fill_zero_eq_Some)

lemma nth_fill_zero:
  assumes "fill_zero p a b = Some q" and "i < length p"
  shows "q ! i = (if a \<le> i \<and> i < b then 0 else p ! i)"
  using assms by (auto simp: fill_zero_eq_Some nth_append)

section \<open>Association lists\<close>

text \<open>
  A \<^verbatim>\<open>std::unordered_map\<close> is an association list with distinct keys. Its iteration order
  is unspecified in C++; the list is one such order (a new key goes to the end), and
  theorems speak about every list with distinct keys, so about every order.
\<close>

abbreviation keys :: "('k \<times> 'v) list \<Rightarrow> 'k list" where
  "keys m \<equiv> map fst m"

definition adjust :: "'k \<Rightarrow> ('v \<Rightarrow> 'v) \<Rightarrow> ('k \<times> 'v) list \<Rightarrow> ('k \<times> 'v) list" where
  "adjust k f m = map (\<lambda>(k', v). if k' = k then (k', f v) else (k', v)) m"

definition map_vals :: "('v \<Rightarrow> 'w) \<Rightarrow> ('k \<times> 'v) list \<Rightarrow> ('k \<times> 'w) list" where
  "map_vals f m = map (\<lambda>(k, v). (k, f v)) m"

lemma keys_adjust [simp, map_simps]: "keys (adjust k f m) = keys m"
  by (induction m) (auto simp: adjust_def)

lemma map_of_adjust [map_simps]:
  "map_of (adjust k f m) k' = (if k' = k then map_option f (map_of m k) else map_of m k')"
  by (induction m) (auto simp: adjust_def)

lemma keys_map_vals [simp, map_simps]: "keys (map_vals f m) = keys m"
  by (induction m) (auto simp: map_vals_def)

lemma map_of_map_vals [map_simps]: "map_of (map_vals f m) k = map_option f (map_of m k)"
  by (induction m) (auto simp: map_vals_def)

lemma in_set_adjust:
  "(k', v') \<in> set (adjust k f m) \<longleftrightarrow>
     (\<exists>v. (k', v) \<in> set m \<and> v' = (if k' = k then f v else v))"
  by (auto simp: adjust_def image_iff split: if_splits) force+

lemma in_set_map_vals: "(k, w) \<in> set (map_vals f m) \<longleftrightarrow> (\<exists>v. (k, v) \<in> set m \<and> w = f v)"
  by (auto simp: map_vals_def image_iff) force

lemma map_of_eq_Some_iff_in:
  "distinct (keys m) \<Longrightarrow> map_of m k = Some v \<longleftrightarrow> (k, v) \<in> set m"
  by simp

lemma map_of_None_keys: "map_of m k = None \<longleftrightarrow> k \<notin> set (keys m)"
  by (simp add: map_of_eq_None_iff)

lemma map_of_update [map_simps]:
  "map_of (AList.update k v m) k' = (if k' = k then Some v else map_of m k')"
  by (simp add: update_conv')

lemma map_of_delete [map_simps]:
  "map_of (AList.delete k m) k' = (if k' = k then None else map_of m k')"
  by (simp add: delete_conv')

lemma keys_delete: "keys (AList.delete k m) = filter (\<lambda>x. x \<noteq> k) (keys m)"
  by (induction m) auto

lemma in_set_delete [simp]: "(k', v) \<in> set (AList.delete k m) \<longleftrightarrow> k' \<noteq> k \<and> (k', v) \<in> set m"
  by (induction m) auto

lemma distinct_keys_delete [simp]: "distinct (keys m) \<Longrightarrow> distinct (keys (AList.delete k m))"
  by (simp add: keys_delete)

lemma distinct_keys_update [simp]:
  "distinct (keys m) \<Longrightarrow> distinct (keys (AList.update k v m))"
  by (rule distinct_update)

lemma set_keys_update [simp]: "set (keys (AList.update k v m)) = insert k (set (keys m))"
  by (induction m) auto

text \<open>A \<^verbatim>\<open>std::unordered_set\<close> is a list without repetitions.\<close>

definition set_insert :: "'a \<Rightarrow> 'a list \<Rightarrow> 'a list" where
  "set_insert x xs = (if x \<in> set xs then xs else xs @ [x])"

definition set_erase :: "'a \<Rightarrow> 'a list \<Rightarrow> 'a list" where
  "set_erase x xs = filter (\<lambda>y. y \<noteq> x) xs"

lemma set_set_insert [simp]: "set (set_insert x xs) = insert x (set xs)"
  by (auto simp: set_insert_def)

lemma distinct_set_insert [simp]: "distinct (set_insert x xs) = distinct xs"
  by (auto simp: set_insert_def)

lemma set_set_erase [simp]: "set (set_erase x xs) = set xs - {x}"
  by (auto simp: set_erase_def)

lemma distinct_set_erase [simp]: "distinct xs \<Longrightarrow> distinct (set_erase x xs)"
  by (simp add: set_erase_def)

section \<open>Sorting with a comparator\<close>

text \<open>
  \<^verbatim>\<open>std::sort\<close> with a comparator. On a strict total order its result is the one sorted
  permutation, which insertion computes.
\<close>

fun insort_by :: "('a \<Rightarrow> 'a \<Rightarrow> bool) \<Rightarrow> 'a \<Rightarrow> 'a list \<Rightarrow> 'a list" where
  "insort_by lt x [] = [x]"
| "insort_by lt x (y # ys) = (if lt x y then x # y # ys else y # insort_by lt x ys)"

fun sort_by :: "('a \<Rightarrow> 'a \<Rightarrow> bool) \<Rightarrow> 'a list \<Rightarrow> 'a list" where
  "sort_by lt [] = []"
| "sort_by lt (x # xs) = insort_by lt x (sort_by lt xs)"

lemma set_insort_by [simp]: "set (insort_by lt x xs) = insert x (set xs)"
  by (induction xs) auto

lemma set_sort_by [simp]: "set (sort_by lt xs) = set xs"
  by (induction xs) auto

lemma distinct_insort_by [simp]: "distinct (insort_by lt x xs) \<longleftrightarrow> x \<notin> set xs \<and> distinct xs"
  by (induction xs) auto

lemma distinct_sort_by [simp]: "distinct (sort_by lt xs) \<longleftrightarrow> distinct xs"
  by (induction xs) auto

lemma length_insort_by [simp]: "length (insort_by lt x xs) = Suc (length xs)"
  by (induction xs) auto

lemma length_sort_by [simp]: "length (sort_by lt xs) = length xs"
  by (induction xs) auto

lemma sorted_wrt_insort_by:
  assumes "transp lt" and "totalp_on (insert x (set xs)) lt" and "x \<notin> set xs"
    and "sorted_wrt lt xs"
  shows "sorted_wrt lt (insort_by lt x xs)"
  using assms
proof (induction xs)
  case Nil
  then show ?case by simp
next
  case (Cons y ys)
  show ?case
  proof (cases "lt x y")
    case True
    with Cons.prems show ?thesis by (auto dest: transpD)
  next
    case False
    with Cons.prems have "lt y x" by (auto simp: totalp_on_def)
    moreover from Cons.prems have "sorted_wrt lt (insort_by lt x ys)"
      by (intro Cons.IH) (auto simp: totalp_on_def)
    ultimately show ?thesis using False Cons.prems by auto
  qed
qed

lemma sorted_wrt_sort_by:
  assumes "transp lt" and "totalp_on (set xs) lt" and "distinct xs"
  shows "sorted_wrt lt (sort_by lt xs)"
  using assms
proof (induction xs)
  case Nil
  then show ?case by simp
next
  case (Cons x xs)
  then have "sorted_wrt lt (sort_by lt xs)" by (auto simp: totalp_on_def)
  with Cons.prems show ?case by (simp add: sorted_wrt_insort_by)
qed

section \<open>Splitting words into bytes\<close>

lemma bit_255: "bit (0xff :: 'a::len word) n \<longleftrightarrow> n < LENGTH('a) \<and> n < 8"
proof -
  have "(0xff :: 'a word) = mask 8" by (simp add: mask_eq_decr_exp)
  then show ?thesis by (simp only: bit_mask_iff possible_bit_word)
qed

lemma ucast_byte_and_255 [byte_simps]: "(ucast (v AND 0xff) :: byte) = ucast (v :: 'a::len word)"
proof (rule bit_word_eqI)
  fix n assume "n < LENGTH(8)"
  then show "bit (ucast (v AND 0xff) :: byte) n = bit (ucast v :: byte) n"
    by (simp only: bit_ucast_iff bit_and_iff bit_255) (auto dest: bit_imp_le_length)
qed

lemma u16_of_bytes [byte_simps]:
  "push_bit 8 (ucast (ucast (drop_bit 8 v) :: byte)) OR ucast (ucast v :: byte) = (v :: u16)"
  by (rule bit_word_eqI) (auto simp: bit_simps)

lemma u32_of_bytes [byte_simps]:
  "push_bit 24 (ucast (ucast (drop_bit 24 v) :: byte))
     OR push_bit 16 (ucast (ucast (drop_bit 16 v) :: byte))
     OR push_bit 8 (ucast (ucast (drop_bit 8 v) :: byte))
     OR ucast (ucast v :: byte) = (v :: u32)" (is "?l = _")
proof (rule bit_word_eqI)
  fix n assume "n < LENGTH(32)"
  then consider "n < 8" | "8 \<le> n" "n < 16" | "16 \<le> n" "n < 24" | "24 \<le> n" "n < 32"
    by fastforce
  then show "bit ?l n = bit v n"
    by cases (auto simp: bit_simps)
qed

section \<open>Decimal numbers\<close>

text \<open>\<^verbatim>\<open>std::to_string\<close> of an unsigned number.\<close>

definition digit_char :: "nat \<Rightarrow> char" where
  "digit_char d = char_of (48 + d)"

fun to_string :: "nat \<Rightarrow> string" where
  "to_string n = (if n < 10 then [digit_char n] else to_string (n div 10) @ [digit_char (n mod 10)])"

declare to_string.simps [simp del]

lemma to_string_not_empty [simp]: "to_string n \<noteq> []"
  by (subst to_string.simps) simp

section \<open>Runs of a component\<close>

text \<open>A component whose events all keep an invariant keeps it in every run.\<close>

locale kept_by_steps =
  fixes step :: "'e \<Rightarrow> 's \<Rightarrow> 's" and inv :: "'s \<Rightarrow> bool"
  assumes keeps: "inv s \<Longrightarrow> inv (step e s)"
begin

lemma run: "inv s \<Longrightarrow> inv (fold step events s)"
  by (induction events arbitrary: s) (simp_all add: keeps)

end

end
