(* ===== verification/Rtp_Slot_Rewriter.thy ===== *)
theory Rtp_Slot_Rewriter
  imports Prelude
begin

text \<open>
  The RTP header rewriting of \<^verbatim>\<open>backend/signaling_server/src/rtp_slot_rewriter.cpp\<close>.
  The first half is the byte-level routine \<open>rewrite_rtp_for_slot\<close>: every access to the
  packet is checked, and \<open>None\<close> is an access out of range (undefined behaviour in C++);
  the lemmas show that no input reaches it. The second half is the class
  \<open>RtpSlotRewriter\<close>, which keeps one output timeline while publishers change.
  \<open>is_rtcp\<close> stands for \<^verbatim>\<open>rtc::IsRtcp\<close> of libdatachannel.
\<close>

section \<open>Network byte order\<close>

definition network_u16 :: "packet \<Rightarrow> nat \<Rightarrow> u16 option" where
  "network_u16 p off =
     do {
       a \<leftarrow> byte_at p off;
       b \<leftarrow> byte_at p (off + 1);
       Some (push_bit 8 (ucast a) OR ucast b)
     }"

definition network_u32 :: "packet \<Rightarrow> nat \<Rightarrow> u32 option" where
  "network_u32 p off =
     do {
       a \<leftarrow> byte_at p off;
       b \<leftarrow> byte_at p (off + 1);
       c \<leftarrow> byte_at p (off + 2);
       d \<leftarrow> byte_at p (off + 3);
       Some (push_bit 24 (ucast a) OR push_bit 16 (ucast b) OR push_bit 8 (ucast c) OR ucast d)
     }"

definition set_network_u16 :: "packet \<Rightarrow> nat \<Rightarrow> u16 \<Rightarrow> packet option" where
  "set_network_u16 p off v =
     do {
       p1 \<leftarrow> set_byte p off (ucast (drop_bit 8 v AND 0xff));
       set_byte p1 (off + 1) (ucast (v AND 0xff))
     }"

definition set_network_u32 :: "packet \<Rightarrow> nat \<Rightarrow> u32 \<Rightarrow> packet option" where
  "set_network_u32 p off v =
     do {
       p1 \<leftarrow> set_byte p off (ucast (drop_bit 24 v AND 0xff));
       p2 \<leftarrow> set_byte p1 (off + 1) (ucast (drop_bit 16 v AND 0xff));
       p3 \<leftarrow> set_byte p2 (off + 2) (ucast (drop_bit 8 v AND 0xff));
       set_byte p3 (off + 3) (ucast (v AND 0xff))
     }"

text \<open>\<^verbatim>\<open>static_cast<int16_t>(value - reference) > 0\<close>\<close>

definition sequence_is_newer :: "u16 \<Rightarrow> u16 \<Rightarrow> bool" where
  "sequence_is_newer v reference \<longleftrightarrow> 0 < sint (v - reference)"

section \<open>Clearing the MID header extension\<close>

text \<open>
  The two loops return the C++ result and the buffer. Each round advances the cursor,
  so \<open>stop - cursor\<close> decreases.
\<close>

function clear_one_byte_mid :: "packet \<Rightarrow> nat \<Rightarrow> nat \<Rightarrow> byte \<Rightarrow> (bool \<times> packet) option" where
  "clear_one_byte_mid p cursor stop mid_id =
     (if cursor < stop then
        (case byte_at p cursor of
           None \<Rightarrow> None
         | Some descriptor \<Rightarrow>
             if descriptor = 0 then clear_one_byte_mid p (cursor + 1) stop mid_id
             else let ext_id = drop_bit 4 descriptor in
               if ext_id = 15 then Some (True, p)
               else let value_size = unat (descriptor AND 0x0f) + 1 in
                 if cursor + 1 + value_size > stop then Some (False, p)
                 else if ext_id = mid_id then
                   map_option (Pair True) (fill_zero p cursor (cursor + 1 + value_size))
                 else clear_one_byte_mid p (cursor + (1 + value_size)) stop mid_id)
      else Some (True, p))"
  by pat_completeness auto
termination
  by (relation "measure (\<lambda>(p, cursor, stop, mid_id). stop - cursor)") auto

function clear_two_byte_mid :: "packet \<Rightarrow> nat \<Rightarrow> nat \<Rightarrow> byte \<Rightarrow> (bool \<times> packet) option" where
  "clear_two_byte_mid p cursor stop mid_id =
     (if cursor < stop then
        (case byte_at p cursor of
           None \<Rightarrow> None
         | Some ext_id \<Rightarrow>
             if ext_id = 0 then clear_two_byte_mid p (cursor + 1) stop mid_id
             else if cursor + 2 > stop then Some (False, p)
             else
               (case byte_at p (cursor + 1) of
                  None \<Rightarrow> None
                | Some size_byte \<Rightarrow>
                    let value_size = unat size_byte in
                    if cursor + 2 + value_size > stop then Some (False, p)
                    else if ext_id = mid_id then
                      map_option (Pair True) (fill_zero p cursor (cursor + 2 + value_size))
                    else clear_two_byte_mid p (cursor + (2 + value_size)) stop mid_id))
      else Some (True, p))"
  by pat_completeness auto
termination
  by (relation "measure (\<lambda>(p, cursor, stop, mid_id). stop - cursor)") auto

declare clear_one_byte_mid.simps [simp del]
declare clear_two_byte_mid.simps [simp del]

section \<open>The stateless header rewrite\<close>

text \<open>
  The extension block: where the payload starts and the buffer with the MID element
  cleared. The outer option is undefined behaviour, the inner flag is the early
  \<^verbatim>\<open>return false\<close>.
\<close>

definition clear_mid_extension ::
  "packet \<Rightarrow> nat \<Rightarrow> byte option \<Rightarrow> (bool \<times> packet \<times> nat) option" where
  "clear_mid_extension p header_size mid_id =
     (if header_size + 4 > length p then Some (False, p, header_size)
      else do {
        profile \<leftarrow> network_u16 p header_size;
        words \<leftarrow> network_u16 p (header_size + 2);
        let extension_size = unat words * 4;
        let body_begin = header_size + 4;
        if extension_size > length p - body_begin then Some (False, p, header_size)
        else do {
          let body_end = body_begin + extension_size;
          (case mid_id of
             None \<Rightarrow> Some (True, p, body_end)
           | Some m \<Rightarrow>
               map_option (\<lambda>(valid, q). (valid, q, body_end))
                 (if profile = 0xbede then clear_one_byte_mid p body_begin body_end m
                  else if profile AND 0xfff0 = 0x1000 then clear_two_byte_mid p body_begin body_end m
                  else Some (True, p)))
        }
      })"

definition strip_padding :: "packet \<Rightarrow> nat \<Rightarrow> (bool \<times> packet) option" where
  "strip_padding p payload_begin =
     do {
       flags \<leftarrow> byte_at p 0;
       if flags AND 0x20 \<noteq> 0 then
         if length p \<le> payload_begin then Some (False, p)
         else do {
           last_byte \<leftarrow> byte_at p (length p - 1);
           let padding_size = unat last_byte;
           if padding_size = 0 \<or> padding_size > length p - payload_begin then Some (False, p)
           else do {
             let p1 = take (length p - padding_size) p;
             flags1 \<leftarrow> byte_at p1 0;
             map_option (Pair True) (set_byte p1 0 (flags1 AND NOT 0x20))
           }
         }
       else Some (True, p)
     }"

definition rewrite_rtp_for_slot ::
  "(packet \<Rightarrow> bool) \<Rightarrow> packet \<Rightarrow> u32 \<Rightarrow> byte option \<Rightarrow> (bool \<times> packet) option" where
  "rewrite_rtp_for_slot is_rtcp p output_ssrc mid_id =
     (if length p < 12 then Some (False, p)
      else do {
        flags \<leftarrow> byte_at p 0;
        if drop_bit 6 flags \<noteq> 2 \<or> is_rtcp p then Some (False, p)
        else do {
          let header_size = 12 + unat (flags AND 0x0f) * 4;
          if header_size > length p then Some (False, p)
          else do {
            (ok, p1, payload_begin) \<leftarrow>
              (if flags AND 0x10 \<noteq> 0 then clear_mid_extension p header_size mid_id
               else Some (True, p, header_size));
            if \<not> ok then Some (False, p1)
            else do {
              (ok2, p2) \<leftarrow> strip_padding p1 payload_begin;
              if \<not> ok2 then Some (False, p2)
              else map_option (Pair True) (set_network_u32 p2 8 output_ssrc)
            }
          }
        }
      })"

section \<open>The rewriter's state\<close>

record rtp_slot_rewriter =
  clock_rate :: u32
  timestamp_step :: u32
  generation :: u64
  source_initialized :: bool
  output_initialized :: bool
  source_anchor_sequence :: u16
  latest_input_sequence :: u16
  latest_output_sequence :: u16
  sequence_offset :: u16
  latest_input_timestamp :: u32
  latest_output_timestamp :: u32
  timestamp_offset :: u32

definition new_rewriter :: "u32 \<Rightarrow> u32 \<Rightarrow> rtp_slot_rewriter" where
  "new_rewriter rate step =
     \<lparr>clock_rate = rate, timestamp_step = step, generation = 0,
      source_initialized = False, output_initialized = False,
      source_anchor_sequence = 0, latest_input_sequence = 0, latest_output_sequence = 0,
      sequence_offset = 0, latest_input_timestamp = 0, latest_output_timestamp = 0,
      timestamp_offset = 0\<rparr>"

definition begin_source :: "rtp_slot_rewriter \<Rightarrow> u64 \<times> rtp_slot_rewriter" where
  "begin_source r =
     (let r1 = r\<lparr>generation := generation r + 1, source_initialized := False\<rparr>
      in (generation r1, r1))"

definition end_source :: "rtp_slot_rewriter \<Rightarrow> rtp_slot_rewriter" where
  "end_source r = r\<lparr>generation := generation r + 1, source_initialized := False\<rparr>"

text \<open>
  The timeline part of \<^verbatim>\<open>rewrite\<close>, between the header rewrite and the write-back: given
  the input sequence number and timestamp it returns \<open>None\<close> for the early
  \<^verbatim>\<open>return false\<close>, or the output pair and the new state. \<open>anchor_source\<close> is the first
  packet of a source, \<open>advance_timeline\<close> the update of the newest packet seen.
\<close>

definition anchor_source :: "rtp_slot_rewriter \<Rightarrow> u16 \<Rightarrow> u32 \<Rightarrow> rtp_slot_rewriter" where
  "anchor_source r input_sequence input_timestamp =
     (let r1 = r\<lparr>source_anchor_sequence := input_sequence\<rparr>;
          r2 = (if output_initialized r1 then
                  r1\<lparr>sequence_offset := (latest_output_sequence r1 + 1) - input_sequence,
                     timestamp_offset :=
                       (latest_output_timestamp r1 + timestamp_step r1) - input_timestamp\<rparr>
                else r1\<lparr>sequence_offset := 0, timestamp_offset := 0\<rparr>)
      in r2\<lparr>source_initialized := True,
            latest_input_sequence := input_sequence,
            latest_input_timestamp := input_timestamp\<rparr>)"

definition advance_timeline ::
  "rtp_slot_rewriter \<Rightarrow> u16 \<Rightarrow> u32 \<Rightarrow> u16 \<Rightarrow> u32 \<Rightarrow> rtp_slot_rewriter" where
  "advance_timeline r input_sequence input_timestamp output_sequence output_timestamp =
     (let input_delta = input_timestamp - latest_input_timestamp r;
          r1 = (if 0 < input_delta \<and> input_delta \<le> clock_rate r * 10
                then r\<lparr>timestamp_step := input_delta\<rparr> else r)
      in r1\<lparr>latest_input_sequence := input_sequence,
            latest_input_timestamp := input_timestamp,
            latest_output_sequence := output_sequence,
            latest_output_timestamp := output_timestamp,
            output_initialized := True\<rparr>)"

definition map_timeline ::
  "rtp_slot_rewriter \<Rightarrow> u16 \<Rightarrow> u32 \<Rightarrow> ((u16 \<times> u32) \<times> rtp_slot_rewriter) option" where
  "map_timeline r input_sequence input_timestamp =
     (let first_for_source = \<not> source_initialized r;
          r1 = (if first_for_source then anchor_source r input_sequence input_timestamp else r)
      in if \<not> first_for_source \<and> sint (input_sequence - source_anchor_sequence r) < 0 then None
         else
           (let output_sequence = input_sequence + sequence_offset r1;
                output_timestamp = input_timestamp + timestamp_offset r1;
                r2 = (if first_for_source \<or> \<not> output_initialized r1
                        \<or> sequence_is_newer input_sequence (latest_input_sequence r1)
                      then advance_timeline r1 input_sequence input_timestamp
                             output_sequence output_timestamp
                      else r1)
            in Some ((output_sequence, output_timestamp), r2)))"

definition rewrite ::
  "(packet \<Rightarrow> bool) \<Rightarrow> rtp_slot_rewriter \<Rightarrow> packet \<Rightarrow> u64 \<Rightarrow> u32 \<Rightarrow> byte option
     \<Rightarrow> (bool \<times> packet \<times> rtp_slot_rewriter) option" where
  "rewrite is_rtcp r p source_generation output_ssrc mid_id =
     do {
       (ok, p1) \<leftarrow> rewrite_rtp_for_slot is_rtcp p output_ssrc mid_id;
       if \<not> ok then Some (False, p1, r)
       else do {
         input_sequence \<leftarrow> network_u16 p1 2;
         input_timestamp \<leftarrow> network_u32 p1 4;
         if source_generation \<noteq> generation r then Some (False, p1, r)
         else
           (case map_timeline r input_sequence input_timestamp of
              None \<Rightarrow> Some (False, p1, r)
            | Some ((output_sequence, output_timestamp), r1) \<Rightarrow>
                do {
                  p2 \<leftarrow> set_network_u16 p1 2 output_sequence;
                  p3 \<leftarrow> set_network_u32 p2 4 output_timestamp;
                  Some (True, p3, r1)
                })
       }
     }"

section \<open>Byte-order lemmas\<close>

lemma network_u16_eq_Some [byte_simps]:
  "network_u16 p off = Some v \<longleftrightarrow>
     off + 1 < length p \<and> v = push_bit 8 (ucast (p ! off)) OR ucast (p ! (off + 1))"
  by (auto simp: network_u16_def byte_at_def bind_eq_Some_conv)

lemma network_u32_eq_Some [byte_simps]:
  "network_u32 p off = Some v \<longleftrightarrow>
     off + 3 < length p \<and>
     v = push_bit 24 (ucast (p ! off)) OR push_bit 16 (ucast (p ! (off + 1)))
           OR push_bit 8 (ucast (p ! (off + 2))) OR ucast (p ! (off + 3))"
  by (auto simp: network_u32_def byte_at_def bind_eq_Some_conv)

lemma set_network_u16_eq_Some [byte_simps]:
  "set_network_u16 p off v = Some q \<longleftrightarrow>
     off + 1 < length p \<and>
     q = p[off := ucast (drop_bit 8 v AND 0xff), off + 1 := ucast (v AND 0xff)]"
  by (auto simp: set_network_u16_def set_byte_def bind_eq_Some_conv)

lemma set_network_u32_eq_Some [byte_simps]:
  "set_network_u32 p off v = Some q \<longleftrightarrow>
     off + 3 < length p \<and>
     q = p[off := ucast (drop_bit 24 v AND 0xff), off + 1 := ucast (drop_bit 16 v AND 0xff),
           off + 2 := ucast (drop_bit 8 v AND 0xff), off + 3 := ucast (v AND 0xff)]"
  by (auto simp: set_network_u32_def set_byte_def bind_eq_Some_conv)

lemma length_set_network_u16: "set_network_u16 p off v = Some q \<Longrightarrow> length q = length p"
  by (auto simp: byte_simps)

lemma length_set_network_u32: "set_network_u32 p off v = Some q \<Longrightarrow> length q = length p"
  by (auto simp: byte_simps)

lemma network_u16_set: "set_network_u16 p off v = Some q \<Longrightarrow> network_u16 q off = Some v"
  by (auto simp: byte_simps)

lemma network_u32_set: "set_network_u32 p off v = Some q \<Longrightarrow> network_u32 q off = Some v"
  by (auto simp: byte_simps)

lemma nth_set_network_u16:
  "set_network_u16 p off v = Some q \<Longrightarrow> i < off \<or> off + 2 \<le> i \<Longrightarrow> q ! i = p ! i"
  by (auto simp: byte_simps nth_list_update)

lemma nth_set_network_u32:
  "set_network_u32 p off v = Some q \<Longrightarrow> i < off \<or> off + 4 \<le> i \<Longrightarrow> q ! i = p ! i"
  by (auto simp: byte_simps nth_list_update)

section \<open>The MID loops are safe and touch nothing outside the extension body\<close>

text \<open>
  \<open>zeroed p q a b\<close>: the buffer \<open>q\<close> is \<open>p\<close> with some bytes of \<open>[a, b)\<close> set to zero.
\<close>

definition zeroed :: "packet \<Rightarrow> packet \<Rightarrow> nat \<Rightarrow> nat \<Rightarrow> bool" where
  "zeroed p q a b \<longleftrightarrow> length q = length p \<and>
     (\<forall>i < length p. q ! i = p ! i \<or> a \<le> i \<and> i < b \<and> q ! i = 0)"

lemma zeroed_refl [simp]: "zeroed p p a b"
  by (simp add: zeroed_def)

lemma zeroed_mono: "zeroed p q a' b \<Longrightarrow> a \<le> a' \<Longrightarrow> zeroed p q a b"
  by (force simp: zeroed_def)

lemma zeroed_Suc [dest]: "zeroed p q (Suc a) b \<Longrightarrow> zeroed p q a b"
  by (erule zeroed_mono) simp

lemma zeroed_add [dest]: "zeroed p q (a + n) b \<Longrightarrow> zeroed p q a b"
  by (erule zeroed_mono) simp

lemma zeroed_fill: "fill_zero p a b' = Some q \<Longrightarrow> b' \<le> b \<Longrightarrow> zeroed p q a b"
  by (auto simp: zeroed_def length_fill_zero nth_fill_zero)

lemma clear_one_byte_mid_safe:
  "stop \<le> length p \<Longrightarrow>
     \<exists>ok q. clear_one_byte_mid p cursor stop mid_id = Some (ok, q) \<and> zeroed p q cursor stop"
proof (induction p cursor stop mid_id rule: clear_one_byte_mid.induct)
  case (1 p cursor stop mid_id)
  show ?case
  proof (cases "cursor < stop")
    case False
    then show ?thesis by (subst clear_one_byte_mid.simps) auto
  next
    case True
    let ?d = "p ! cursor"
    let ?n = "unat (?d AND 0x0f) + 1"
    from True "1.prems" have d: "byte_at p cursor = Some ?d" by simp
    consider (pad) "?d = 0" | (stop) "?d \<noteq> 0" "drop_bit 4 ?d = 15"
      | (short) "?d \<noteq> 0" "drop_bit 4 ?d \<noteq> 15" "cursor + 1 + ?n > stop"
      | (hit) "?d \<noteq> 0" "drop_bit 4 ?d \<noteq> 15" "cursor + 1 + ?n \<le> stop" "drop_bit 4 ?d = mid_id"
      | (skip) "?d \<noteq> 0" "drop_bit 4 ?d \<noteq> 15" "cursor + 1 + ?n \<le> stop" "drop_bit 4 ?d \<noteq> mid_id"
      by linarith
    then show ?thesis
    proof cases
      case pad
      with True d "1.IH"(1) [OF True d] "1.prems" show ?thesis
        by (subst clear_one_byte_mid.simps) auto
    next
      case stop
      with True d show ?thesis by (subst clear_one_byte_mid.simps) auto
    next
      case short
      with True d show ?thesis by (subst clear_one_byte_mid.simps) auto
    next
      case hit
      with "1.prems" obtain q where "fill_zero p cursor (cursor + 1 + ?n) = Some q"
        by (auto simp: fill_zero_def)
      with True d hit show ?thesis
        by (subst clear_one_byte_mid.simps) (auto simp: zeroed_fill)
    next
      case skip
      with "1.IH"(2) [OF True d _ refl _ refl] "1.prems" obtain ok q where
          "clear_one_byte_mid p (cursor + (1 + ?n)) stop mid_id = Some (ok, q)"
          "zeroed p q (cursor + (1 + ?n)) stop"
        by auto
      with True d skip show ?thesis
        by (subst clear_one_byte_mid.simps) (auto simp: Let_def elim: zeroed_add [of p q])
    qed
  qed
qed

lemma clear_two_byte_mid_safe:
  "stop \<le> length p \<Longrightarrow>
     \<exists>ok q. clear_two_byte_mid p cursor stop mid_id = Some (ok, q) \<and> zeroed p q cursor stop"
proof (induction p cursor stop mid_id rule: clear_two_byte_mid.induct)
  case (1 p cursor stop mid_id)
  show ?case
  proof (cases "cursor < stop")
    case False
    then show ?thesis by (subst clear_two_byte_mid.simps) auto
  next
    case True
    let ?d = "p ! cursor"
    let ?n = "unat (p ! Suc cursor)"
    from True "1.prems" have d: "byte_at p cursor = Some ?d" by simp
    consider (pad) "?d = 0" | (cut) "?d \<noteq> 0" "cursor + 2 > stop"
      | (short) "?d \<noteq> 0" "cursor + 2 \<le> stop" "cursor + 2 + ?n > stop"
      | (hit) "?d \<noteq> 0" "cursor + 2 + ?n \<le> stop" "?d = mid_id"
      | (skip) "?d \<noteq> 0" "cursor + 2 + ?n \<le> stop" "?d \<noteq> mid_id"
      by linarith
    then show ?thesis
    proof cases
      case pad
      with True d "1.IH"(1) [OF True d] "1.prems" show ?thesis
        by (subst clear_two_byte_mid.simps) auto
    next
      case cut
      with True d show ?thesis by (subst clear_two_byte_mid.simps) auto
    next
      case short
      with True d "1.prems" show ?thesis by (subst clear_two_byte_mid.simps) auto
    next
      case hit
      with "1.prems" obtain q where "fill_zero p cursor (cursor + 2 + ?n) = Some q"
        by (auto simp: fill_zero_def)
      with True d hit "1.prems" show ?thesis
        by (subst clear_two_byte_mid.simps) (auto simp: zeroed_fill)
    next
      case skip
      with "1.prems" have e: "byte_at p (cursor + 1) = Some (p ! Suc cursor)" by simp
      with skip "1.IH"(2) [OF True d _ _ e] "1.prems" obtain ok q where
          "clear_two_byte_mid p (cursor + (2 + ?n)) stop mid_id = Some (ok, q)"
          "zeroed p q (cursor + (2 + ?n)) stop"
        by auto
      with True d skip e show ?thesis
        by (subst clear_two_byte_mid.simps) (auto simp: Let_def elim: zeroed_add [of p q])
    qed
  qed
qed

section \<open>The header rewrite is total and keeps the RTP header\<close>

definition rtp_header_size :: "packet \<Rightarrow> nat" where
  "rtp_header_size p = 12 + unat (p ! 0 AND 0x0f) * 4"

definition rtp_payload_offset :: "packet \<Rightarrow> nat" where
  "rtp_payload_offset p =
     (if p ! 0 AND 0x10 = 0 then rtp_header_size p
      else (case network_u16 p (rtp_header_size p + 2) of
              None \<Rightarrow> rtp_header_size p
            | Some w \<Rightarrow> rtp_header_size p + 4 + unat w * 4))"

definition rtp_padding :: "packet \<Rightarrow> nat" where
  "rtp_padding p = (if p ! 0 AND 0x20 = 0 then 0 else unat (p ! (length p - 1)))"

definition rtp_payload :: "packet \<Rightarrow> packet" where
  "rtp_payload p =
     take (length p - rtp_padding p - rtp_payload_offset p) (drop (rtp_payload_offset p) p)"

lemma clear_mid_extension_safe:
  assumes "header_size \<le> length p"
  shows "\<exists>ok q b. clear_mid_extension p header_size mid_id = Some (ok, q, b) \<and>
           zeroed p q (header_size + 4) b \<and>
           (ok \<longrightarrow> b \<le> length p \<and>
              (\<exists>w. network_u16 p (header_size + 2) = Some w \<and> b = header_size + 4 + unat w * 4))"
proof (cases "header_size + 4 > length p")
  case True
  then show ?thesis by (auto simp: clear_mid_extension_def)
next
  case False
  then obtain pr w where w: "network_u16 p header_size = Some pr"
      "network_u16 p (header_size + 2) = Some w"
    by (auto simp: byte_simps)
  let ?e = "header_size + 4 + unat w * 4"
  show ?thesis
  proof (cases "?e \<le> length p")
    case False
    with w \<open>\<not> header_size + 4 > length p\<close> show ?thesis
      by (auto simp: clear_mid_extension_def Let_def)
  next
    case True
    with w clear_one_byte_mid_safe [OF True, of "header_size + 4" "the mid_id"]
      clear_two_byte_mid_safe [OF True, of "header_size + 4" "the mid_id"]
    show ?thesis by (cases mid_id) (auto simp: clear_mid_extension_def Let_def)
  qed
qed

lemma byte_at_first: "12 \<le> length p \<Longrightarrow> byte_at p 0 = Some (p ! 0)"
  by (rule byte_at_in_range) linarith

lemma byte_clear_bit: "(x :: byte) AND 0x20 = 0 \<Longrightarrow> x AND NOT 0x20 = x"
  by (metis and.right_neutral bit.conj_disj_distrib bit.disj_cancel_right or.left_neutral)

lemma strip_padding_safe:
  assumes "12 \<le> payload_begin" and "12 \<le> length p"
  shows "\<exists>ok q. strip_padding p payload_begin = Some (ok, q) \<and>
           (ok \<and> payload_begin \<le> length p \<longrightarrow>
              payload_begin + rtp_padding p \<le> length p \<and>
              (p ! 0 AND 0x20 \<noteq> 0 \<longrightarrow> rtp_padding p \<noteq> 0) \<and>
              q = (take (length p - rtp_padding p) p)[0 := (p ! 0) AND NOT 0x20])"
proof (cases "p ! 0 AND 0x20 = 0")
  case True
  moreover have "byte_at p 0 = Some (p ! 0)" using assms by (simp add: byte_at_first)
  ultimately show ?thesis using byte_clear_bit by (auto simp: strip_padding_def rtp_padding_def)
next
  case False
  let ?n = "unat (p ! (length p - 1))"
  have b: "byte_at p 0 = Some (p ! 0)" "byte_at p (length p - 1) = Some (p ! (length p - 1))"
    using assms by (auto intro!: byte_at_in_range)
  show ?thesis
  proof (cases "payload_begin < length p \<and> ?n \<noteq> 0 \<and> ?n \<le> length p - payload_begin")
    case True
    let ?q = "take (length p - ?n) p"
    from True assms have "0 < length ?q" "?q ! 0 = p ! 0" by auto
    moreover from this have "byte_at ?q 0 = Some (p ! 0)" by (subst byte_at_in_range) auto
    ultimately have "strip_padding p payload_begin = Some (True, ?q[0 := (p ! 0) AND NOT 0x20])"
      using True False b by (simp add: strip_padding_def Let_def)
    moreover have "rtp_padding p = ?n" using False by (simp add: rtp_padding_def)
    moreover have "payload_begin + ?n \<le> length p" "?n \<noteq> 0" using True by linarith+
    ultimately show ?thesis by (metis (no_types))
  next
    case False': False
    then have "strip_padding p payload_begin = Some (False, p)"
      using False b by (auto simp: strip_padding_def Let_def)
    then show ?thesis by auto
  qed
qed

lemma rewrite_rtp_for_slot_cases:
  obtains (reject) q where "rewrite_rtp_for_slot is_rtcp p ssrc mid_id = Some (False, q)"
  | (accept) p1 p2 q where
      "rewrite_rtp_for_slot is_rtcp p ssrc mid_id = Some (True, q)"
      "rtp_header_size p \<le> length p" "12 \<le> length p" "drop_bit 6 (p ! 0) = 2" "\<not> is_rtcp p"
      "rtp_payload_offset p + rtp_padding p1 \<le> length p"
      "p1 ! 0 AND 0x20 \<noteq> 0 \<Longrightarrow> rtp_padding p1 \<noteq> 0"
      "p ! 0 AND 0x10 \<noteq> 0 \<Longrightarrow> rtp_header_size p + 4 \<le> rtp_payload_offset p"
      "zeroed p p1 (rtp_header_size p + 4) (rtp_payload_offset p)"
      "p2 = (take (length p1 - rtp_padding p1) p1)[0 := (p1 ! 0) AND NOT 0x20]"
      "set_network_u32 p2 8 ssrc = Some q"
proof -
  let ?r = "rewrite_rtp_for_slot is_rtcp p ssrc mid_id"
  let ?hs = "rtp_header_size p"
  show ?thesis
  proof (cases "12 \<le> length p \<and> drop_bit 6 (p ! 0) = 2 \<and> \<not> is_rtcp p \<and> ?hs \<le> length p")
    case False
    then consider "length p < 12" | "12 \<le> length p" "drop_bit 6 (p ! 0) \<noteq> 2 \<or> is_rtcp p"
      | "12 \<le> length p" "drop_bit 6 (p ! 0) = 2" "\<not> is_rtcp p" "?hs > length p"
      by linarith
    then have "?r = Some (False, p)"
    proof cases
      case 1
      then show ?thesis by (simp add: rewrite_rtp_for_slot_def)
    next
      case 2
      from byte_at_first [OF 2(1)] 2 show ?thesis by (auto simp: rewrite_rtp_for_slot_def)
    next
      case 3
      from byte_at_first [OF 3(1)] 3 show ?thesis by (simp add: rewrite_rtp_for_slot_def rtp_header_size_def)
    qed
    then show ?thesis by (rule reject)
  next
    case True
    then have flags: "byte_at p 0 = Some (p ! 0)" by (simp add: byte_at_first)
    define ext where "ext = (if p ! 0 AND 0x10 \<noteq> 0 then clear_mid_extension p ?hs mid_id
                             else Some (True, p, ?hs))"
    have "\<exists>ok p1 b. ext = Some (ok, p1, b) \<and> zeroed p p1 (?hs + 4) b \<and>
            (ok \<longrightarrow> b \<le> length p \<and> b = rtp_payload_offset p \<and>
              (p ! 0 AND 0x10 \<noteq> 0 \<longrightarrow> ?hs + 4 \<le> b))"
      using True clear_mid_extension_safe [of ?hs p mid_id]
      by (auto simp: ext_def rtp_payload_offset_def)
    then obtain ok p1 b where ext: "ext = Some (ok, p1, b)" "zeroed p p1 (?hs + 4) b"
        "ok \<Longrightarrow> b \<le> length p \<and> b = rtp_payload_offset p \<and>
           (p ! 0 AND 0x10 \<noteq> 0 \<longrightarrow> ?hs + 4 \<le> b)" by blast
    have r: "?r = do { (ok, p1, b) \<leftarrow> ext; if \<not> ok then Some (False, p1)
            else do { (ok2, p2) \<leftarrow> strip_padding p1 b;
              if \<not> ok2 then Some (False, p2)
              else map_option (Pair True) (set_network_u32 p2 8 ssrc) } }"
      using True flags
      by (simp add: rewrite_rtp_for_slot_def rtp_header_size_def ext_def)
    show ?thesis
    proof (cases ok)
      case False
      with ext r show ?thesis by (auto intro: reject)
    next
      case ok: True
      have len: "length p1 = length p" using ext(2) by (simp add: zeroed_def)
      have b: "b \<le> length p1" "b = rtp_payload_offset p" "12 \<le> b"
        using ext(3) ok len
        by (auto simp: rtp_payload_offset_def rtp_header_size_def split: option.splits)
      from strip_padding_safe [of b p1] b True len
      obtain ok2 p2 where st: "strip_padding p1 b = Some (ok2, p2)"
          "ok2 \<Longrightarrow> b + rtp_padding p1 \<le> length p1 \<and>
             (p1 ! 0 AND 0x20 \<noteq> 0 \<longrightarrow> rtp_padding p1 \<noteq> 0) \<and>
             p2 = (take (length p1 - rtp_padding p1) p1)[0 := (p1 ! 0) AND NOT 0x20]"
        by auto
      show ?thesis
      proof (cases ok2)
        case False
        with ok ext r st show ?thesis by (auto intro: reject)
      next
        case ok2: True
        with st(2) b have "12 \<le> length p2" by auto
        then obtain q where q: "set_network_u32 p2 8 ssrc = Some q"
          by (auto simp: byte_simps)
        from r ext(1) ok st(1) ok2 q have "?r = Some (True, q)" by simp
        then show ?thesis
          using True ext(2,3) ok b st(2) ok2 q len by (intro accept [of q p1 p2]) auto
      qed
    qed
  qed
qed

lemma byte_flag_lemmas:
  fixes x :: byte
  shows "(x AND NOT 0x20) AND 0x20 = 0" "(x AND NOT 0x20) AND 0x10 = x AND 0x10"
    "(x AND NOT 0x20) AND 0x0f = x AND 0x0f" "drop_bit 6 (x AND NOT 0x20) = drop_bit 6 x"
proof -
  show "(x AND NOT 0x20) AND 0x20 = 0" "(x AND NOT 0x20) AND 0x10 = x AND 0x10"
    "(x AND NOT 0x20) AND 0x0f = x AND 0x0f"
    by (simp_all add: and.assoc)
  have "bit (NOT (0x20 :: byte)) n" if "6 \<le> n" "n < 8" for n
  proof -
    from that consider "n = 6" | "n = 7" by linarith
    then show ?thesis by cases simp_all
  qed
  then have "bit (drop_bit 6 (x AND NOT 0x20)) n = bit (drop_bit 6 x) n" for n
    by (simp only: bit_drop_bit_eq bit_and_iff o_def) (auto dest: bit_imp_le_length)
  then show "drop_bit 6 (x AND NOT 0x20) = drop_bit 6 x"
    by (intro bit_eqI)
qed

lemma rewrite_rtp_for_slot_accept:
  assumes "rewrite_rtp_for_slot is_rtcp p ssrc mid_id = Some (True, q)"
  shows "12 \<le> length q \<and> length q \<le> length p \<and> drop_bit 6 (q ! 0) = (2 :: byte) \<and>
         (\<forall>i. 1 \<le> i \<and> i < 8 \<longrightarrow> q ! i = p ! i) \<and>
         network_u32 q 8 = Some ssrc \<and> rtp_padding q = 0 \<and>
         rtp_payload q = rtp_payload p"
  using rewrite_rtp_for_slot_cases [of is_rtcp p ssrc mid_id]
proof cases
  case (reject q')
  with assms show ?thesis by simp
next
  case (accept p1 p2 q')
  let ?hs = "rtp_header_size p" and ?b = "rtp_payload_offset p"
  let ?n = "length p - rtp_padding p1"
  from accept(1) assms have [simp]: "q' = q" by simp
  have hs: "12 \<le> ?hs" by (simp add: rtp_header_size_def)
  have off: "?hs \<le> ?b" by (auto simp: rtp_payload_offset_def split: option.splits)
  from accept(9) have len: "length p1 = length p"
    and p1: "\<And>i. i < length p \<Longrightarrow> i < ?hs + 4 \<or> ?b \<le> i \<Longrightarrow> p1 ! i = p ! i"
    by (auto simp: zeroed_def)
  have n: "12 \<le> ?n" "?b \<le> ?n" using accept(6) hs off by auto
  have lq: "length q = ?n"
    using accept(10,11) len by (auto dest: length_set_network_u32)
  have q: "q ! i = p1 ! i" if "i < ?n" "i \<noteq> 0" "i < 8 \<or> 12 \<le> i" for i
    using that accept(10) len nth_set_network_u32 [OF accept(11), of i] by auto
  have p10: "p1 ! 0 = p ! 0" using accept(3) hs by (intro p1) linarith+
  define c where "c = p ! 0 AND NOT (0x20 :: byte)"
  have c: "c AND 0x20 = 0" "c AND 0x10 = p ! 0 AND 0x10" "c AND 0x0f = p ! 0 AND 0x0f"
    "drop_bit 6 c = drop_bit 6 (p ! 0)"
    unfolding c_def by (rule byte_flag_lemmas)+
  have q0: "q ! 0 = c"
    unfolding c_def using n accept(10) len nth_set_network_u32 [OF accept(11), of 0] p10 by auto
  have pad: "rtp_padding p1 = rtp_padding p"
  proof (cases "p ! 0 AND 0x20 = 0")
    case True
    then show ?thesis by (simp add: rtp_padding_def p10)
  next
    case False
    with accept(6,7) p10 have "?b \<le> length p - 1" "length p - 1 < length p"
      by auto
    then have "p1 ! (length p - 1) = p ! (length p - 1)" using p1 by blast
    with False show ?thesis by (simp add: rtp_padding_def p10 len)
  qed
  have hq: "rtp_header_size q = ?hs"
    by (simp add: rtp_header_size_def q0 c)
  have bq: "rtp_payload_offset q = ?b"
  proof (cases "p ! 0 AND 0x10 = 0")
    case True
    then show ?thesis by (simp add: rtp_payload_offset_def q0 c hq)
  next
    case False
    with accept(8) have "?hs + 4 \<le> ?n" using n by linarith
    then have in_range: "?hs + 3 < ?n" by linarith
    then have "q ! (?hs + 2) = p ! (?hs + 2)" "q ! (?hs + 3) = p ! (?hs + 3)"
      using hs q [of "?hs + 2"] q [of "?hs + 3"] p1 [of "?hs + 2"] p1 [of "?hs + 3"] by auto
    moreover have "?hs + 2 + 1 = ?hs + 3" by simp
    ultimately have "network_u16 q (?hs + 2) = network_u16 p (?hs + 2)"
      using in_range lq by (simp only: network_u16_def byte_at_def) simp
    then show ?thesis unfolding rtp_payload_offset_def q0 c hq by simp
  qed
  have zero: "rtp_padding q = 0" by (simp add: rtp_padding_def q0 c)
  have pay: "rtp_payload q = rtp_payload p"
  proof (rule nth_equalityI)
    show "length (rtp_payload q) = length (rtp_payload p)"
      by (simp add: rtp_payload_def zero bq lq pad)
    fix i assume "i < length (rtp_payload q)"
    then have "?b + i < ?n" by (simp add: rtp_payload_def zero bq lq)
    then show "rtp_payload q ! i = rtp_payload p ! i"
      using hs off p1 [of "?b + i"] q [of "?b + i"] pad
      by (simp add: rtp_payload_def zero bq lq)
  qed
  have "q ! i = p ! i" if "1 \<le> i" "i < 8" for i
    using that n hs q [of i] p1 [of i] by auto
  then show ?thesis
    using lq n zero pay accept(4) q0 network_u32_set [OF accept(11)]
    by (simp add: c)
qed

section \<open>The rewriter accepts what the header rewrite accepts\<close>

lemma rtp_payload_cong:
  assumes "length q = length p" and "\<And>i. i < length p \<Longrightarrow> i < 2 \<or> 8 \<le> i \<Longrightarrow> q ! i = p ! i"
    and "12 \<le> length p"
  shows "rtp_payload q = rtp_payload p" and "rtp_padding q = rtp_padding p"
proof -
  from assms have q0: "q ! 0 = p ! 0" by (intro assms(2)) auto
  have hs: "rtp_header_size q = rtp_header_size p" "12 \<le> rtp_header_size p"
    by (simp_all add: rtp_header_size_def q0)
  have "network_u16 q i = network_u16 p i" if "12 \<le> i" for i
    using that assms(1) assms(2) [of i] assms(2) [of "i + 1"]
    by (auto simp: network_u16_def byte_at_def)
  then have off: "rtp_payload_offset q = rtp_payload_offset p"
    using hs(2) unfolding rtp_payload_offset_def q0 hs(1) by simp
  have off12: "12 \<le> rtp_payload_offset p"
    using hs(2) by (auto simp: rtp_payload_offset_def split: option.splits)
  show pad: "rtp_padding q = rtp_padding p"
  proof -
    have "q ! (length p - 1) = p ! (length p - 1)" using assms(3) by (intro assms(2)) auto
    then show ?thesis by (simp add: rtp_padding_def q0 assms(1))
  qed
  show "rtp_payload q = rtp_payload p"
    by (rule nth_equalityI) (use off12 assms(1,2) in \<open>auto simp: rtp_payload_def off pad\<close>)
qed

lemma rewrite_accepted:
  assumes "rewrite is_rtcp r p g ssrc mid_id = Some (True, q, r')"
  obtains p1 i t out ts where
    "rewrite_rtp_for_slot is_rtcp p ssrc mid_id = Some (True, p1)" "g = generation r"
    "network_u16 p1 2 = Some i" "network_u32 p1 4 = Some t"
    "map_timeline r i t = Some ((out, ts), r')"
    "network_u16 q 2 = Some out" "network_u32 q 4 = Some ts"
    "length q = length p1" "\<And>j. j < 2 \<or> 8 \<le> j \<Longrightarrow> q ! j = p1 ! j"
proof -
  from assms obtain p1 i t out ts p2 where *:
    "rewrite_rtp_for_slot is_rtcp p ssrc mid_id = Some (True, p1)" "g = generation r"
    "network_u16 p1 2 = Some i" "network_u32 p1 4 = Some t"
    "map_timeline r i t = Some ((out, ts), r')"
    "set_network_u16 p1 2 out = Some p2" "set_network_u32 p2 4 ts = Some q"
    by (auto simp: rewrite_def bind_eq_Some_conv split: if_splits option.splits prod.splits)
  moreover have "network_u16 q 2 = Some out"
  proof -
    from *(6) have "network_u16 p2 2 = Some out" by (rule network_u16_set)
    with nth_set_network_u32 [OF *(7), of 2] nth_set_network_u32 [OF *(7), of 3]
      length_set_network_u32 [OF *(7)]
    show ?thesis by (auto simp: network_u16_def byte_at_def split: if_splits)
  qed
  moreover have "network_u32 q 4 = Some ts" by (rule network_u32_set [OF *(7)])
  moreover have "length q = length p1"
    using length_set_network_u16 [OF *(6)] length_set_network_u32 [OF *(7)] by simp
  moreover have "q ! j = p1 ! j" if "j < 2 \<or> 8 \<le> j" for j
    using that nth_set_network_u16 [OF *(6), of j] nth_set_network_u32 [OF *(7), of j] by auto
  ultimately show thesis using that by metis
qed

lemma rewrite_rtp_for_slot_not_None: "rewrite_rtp_for_slot is_rtcp p ssrc mid_id \<noteq> None"
  by (rule rewrite_rtp_for_slot_cases [of is_rtcp p ssrc mid_id]) auto

section \<open>The output timeline\<close>

text \<open>\<open>feed\<close> runs the timeline over the (sequence, timestamp) pairs of consecutive packets.\<close>

primrec feed ::
  "rtp_slot_rewriter \<Rightarrow> (u16 \<times> u32) list \<Rightarrow> (u16 \<times> u32) option list \<times> rtp_slot_rewriter" where
  "feed r [] = ([], r)"
| "feed r (x # xs) =
     (case map_timeline r (fst x) (snd x) of
        None \<Rightarrow> (let (ys, r') = feed r xs in (None # ys, r'))
      | Some (y, r1) \<Rightarrow> (let (ys, r') = feed r1 xs in (Some y # ys, r')))"

lemma sint_negative_iff: "sint (w :: u16) < 0 \<longleftrightarrow> 32768 \<le> unat w"
proof -
  have lt: "unat w < 65536" using unsigned_less [of w, where ?'a = nat] by simp
  have "sint w < 0 \<longleftrightarrow> bit (uint w) 15"
    by (simp add: sint_uint signed_take_bit_negative_iff)
  also have "\<dots> \<longleftrightarrow> bit (unat w) 15"
    by (simp add: bit_unsigned_iff)
  also have "\<dots> \<longleftrightarrow> odd (unat w div 32768)"
    by (simp add: bit_iff_odd)
  also have "unat w div 32768 = (if 32768 \<le> unat w then 1 else 0)"
    using lt by (auto intro: div_nat_eqI)
  also have "odd (if 32768 \<le> unat w then 1 else 0 :: nat) \<longleftrightarrow> 32768 \<le> unat w"
    by simp
  finally show ?thesis .
qed

lemma advance_timeline_fields [simp]:
  "source_initialized (advance_timeline r i t out ts) = source_initialized r"
  "source_anchor_sequence (advance_timeline r i t out ts) = source_anchor_sequence r"
  "sequence_offset (advance_timeline r i t out ts) = sequence_offset r"
  "timestamp_offset (advance_timeline r i t out ts) = timestamp_offset r"
  "generation (advance_timeline r i t out ts) = generation r"
  "output_initialized (advance_timeline r i t out ts)"
  by (simp_all add: advance_timeline_def Let_def)

lemma anchor_source_fields [simp]:
  "source_initialized (anchor_source r i t)"
  "source_anchor_sequence (anchor_source r i t) = i"
  "generation (anchor_source r i t) = generation r"
  by (simp_all add: anchor_source_def Let_def)

text \<open>Once a source is anchored, the timeline is a fixed shift of its input.\<close>

lemma map_timeline_same_source:
  assumes "source_initialized r"
  shows "map_timeline r i t =
    (if 32768 \<le> unat (i - source_anchor_sequence r) then None
     else Some ((i + sequence_offset r, t + timestamp_offset r),
       if \<not> output_initialized r \<or> sequence_is_newer i (latest_input_sequence r)
       then advance_timeline r i t (i + sequence_offset r) (t + timestamp_offset r) else r))"
  using assms by (simp add: map_timeline_def sint_negative_iff Let_def)

lemma map_timeline_first:
  assumes "\<not> source_initialized r"
  shows "map_timeline r i t =
    Some ((i + sequence_offset (anchor_source r i t), t + timestamp_offset (anchor_source r i t)),
      advance_timeline (anchor_source r i t) i t
        (i + sequence_offset (anchor_source r i t)) (t + timestamp_offset (anchor_source r i t)))"
  using assms by (simp add: map_timeline_def Let_def)

lemma feed_same_source:
  "source_initialized r \<Longrightarrow>
   fst (feed r xs) =
     map (\<lambda>(i, t). if 32768 \<le> unat (i - source_anchor_sequence r) then None
                   else Some (i + sequence_offset r, t + timestamp_offset r)) xs"
proof (induction xs arbitrary: r)
  case Nil
  then show ?case by simp
next
  case (Cons x xs)
  then show ?case
    by (cases x) (simp add: map_timeline_same_source case_prod_beta Let_def)
qed

lemma feed_first_source:
  assumes "\<not> source_initialized r"
  shows "fst (feed r ((i, t) # xs)) =
     map (\<lambda>(j, u). if 32768 \<le> unat (j - i) then None
                   else Some (j + sequence_offset (anchor_source r i t),
                              u + timestamp_offset (anchor_source r i t))) ((i, t) # xs)"
  using assms by (simp add: map_timeline_first case_prod_beta Let_def feed_same_source)

lemma generation_map_timeline: "map_timeline r i t = Some (y, r') \<Longrightarrow> generation r' = generation r"
  by (cases "source_initialized r")
    (auto simp: map_timeline_same_source map_timeline_first split: if_splits)

text \<open>
  Everything that can happen to a rewriter: a publisher is bound, released, or one of
  its packets reaches the timeline.
\<close>

inductive timeline_step :: "rtp_slot_rewriter \<Rightarrow> rtp_slot_rewriter \<Rightarrow> bool" where
  begin_step: "timeline_step r (snd (begin_source r))"
| end_step: "timeline_step r (end_source r)"
| packet_step: "map_timeline r i t = Some (y, r') \<Longrightarrow> timeline_step r r'"

inductive_cases timeline_step_cases: "timeline_step r r'"

definition timeline_inv :: "rtp_slot_rewriter \<Rightarrow> bool" where
  "timeline_inv r \<longleftrightarrow>
     (source_initialized r \<longrightarrow>
        output_initialized r \<and>
        latest_output_sequence r = latest_input_sequence r + sequence_offset r \<and>
        latest_output_timestamp r = latest_input_timestamp r + timestamp_offset r \<and>
        unat (latest_input_sequence r - source_anchor_sequence r) < 32768)"

lemma timeline_inv_packet:
  assumes "timeline_inv r" and "map_timeline r i t = Some (y, r')"
  shows "timeline_inv r'"
proof (cases "source_initialized r")
  case True
  with assms show ?thesis
    by (auto simp: map_timeline_same_source timeline_inv_def split: if_splits)
      (auto simp: advance_timeline_def Let_def)
next
  case False
  with assms show ?thesis
    by (auto simp: map_timeline_first timeline_inv_def) (auto simp: advance_timeline_def Let_def)
qed

lemma timeline_inv_step [inv_intros]: "timeline_step r r' \<Longrightarrow> timeline_inv r \<Longrightarrow> timeline_inv r'"
  by (erule timeline_step_cases)
    (simp_all add: begin_source_def end_source_def timeline_inv_def Let_def,
     metis timeline_inv_packet timeline_inv_def)

primrec rebind :: "bool list \<Rightarrow> rtp_slot_rewriter \<Rightarrow> rtp_slot_rewriter" where
  "rebind [] r = r"
| "rebind (b # bs) r = rebind bs (if b then snd (begin_source r) else end_source r)"

lemma generation_rebind: "generation (rebind bs r) = generation r + of_nat (length bs)"
  by (induction bs arbitrary: r) (auto simp: begin_source_def end_source_def Let_def)

lemma rewrite_accept_facts:
  assumes "rewrite is_rtcp r p g ssrc mid_id = Some (True, q, r')"
  shows "12 \<le> length q \<and> length q \<le> length p \<and> drop_bit 6 (q ! 0) = (2 :: byte) \<and>
         q ! 1 = p ! 1 \<and> network_u32 q 8 = Some ssrc \<and> rtp_padding q = 0 \<and>
         rtp_payload q = rtp_payload p \<and> g = generation r \<and>
         (\<exists>i t out ts. network_u16 p 2 = Some i \<and> network_u32 p 4 = Some t \<and>
            map_timeline r i t = Some ((out, ts), r') \<and>
            network_u16 q 2 = Some out \<and> network_u32 q 4 = Some ts)"
proof -
  from assms obtain p1 i t out ts where *:
    "rewrite_rtp_for_slot is_rtcp p ssrc mid_id = Some (True, p1)" "g = generation r"
    "network_u16 p1 2 = Some i" "network_u32 p1 4 = Some t"
    "map_timeline r i t = Some ((out, ts), r')"
    "network_u16 q 2 = Some out" "network_u32 q 4 = Some ts"
    "length q = length p1" "\<And>j. j < 2 \<or> 8 \<le> j \<Longrightarrow> q ! j = p1 ! j"
    by (rule rewrite_accepted) blast
  note acc = rewrite_rtp_for_slot_accept [OF *(1)]
  have "p1 ! j = p ! j" if "1 \<le> j" "j < 8" for j using acc that by blast
  then have "p1 ! 2 = p ! 2" "p1 ! 3 = p ! 3" "p1 ! 4 = p ! 4" "p1 ! 5 = p ! 5"
    "p1 ! 6 = p ! 6" "p1 ! 7 = p ! 7" "p1 ! 1 = p ! 1" by simp_all
  then have "network_u16 p 2 = Some i" "network_u32 p 4 = Some t" "q ! 1 = p ! 1"
    using acc *(3,4) *(9) [of 1] by (auto simp: network_u16_def network_u32_def byte_at_def split: if_splits)
  moreover have "rtp_payload q = rtp_payload p1" "rtp_padding q = rtp_padding p1"
    by (rule rtp_payload_cong; use * acc in auto)+
  moreover have "network_u32 q 8 = network_u32 p1 8" "q ! 0 = p1 ! 0"
    using *(8,9) by (auto simp: network_u32_def byte_at_def)
  ultimately show ?thesis using acc * by auto
qed

section \<open>Properties\<close>

text \<open>C37: no packet makes \<open>RtpSlotRewriter::rewrite\<close> read or write outside its buffer.\<close>

theorem rewrite_memory_safe: "rewrite is_rtcp r p g ssrc mid_id \<noteq> None"
proof -
  obtain ok p1 where r: "rewrite_rtp_for_slot is_rtcp p ssrc mid_id = Some (ok, p1)"
    using rewrite_rtp_for_slot_not_None [of is_rtcp p ssrc mid_id] by auto
  show ?thesis
  proof (cases ok)
    case True
    with r have "rewrite_rtp_for_slot is_rtcp p ssrc mid_id = Some (True, p1)" by simp
    then have "12 \<le> length p1" using rewrite_rtp_for_slot_accept by blast
    then show ?thesis
      using r by (auto simp: rewrite_def network_u16_def network_u32_def set_network_u16_def
          set_network_u32_def set_byte_def byte_at_def Let_def split: option.splits)
  qed (simp add: r rewrite_def)
qed

text \<open>
  An accepted packet leaves with the slot's SSRC, without padding, with its version,
  marker, payload type and payload untouched, and with the sequence number and timestamp
  that the timeline assigns; it carried the current generation.
\<close>

theorem rewrite_accept:
  assumes "rewrite is_rtcp r p g ssrc mid_id = Some (True, q, r')"
  shows "12 \<le> length q \<and> length q \<le> length p \<and> drop_bit 6 (q ! 0) = (2 :: byte) \<and>
         q ! 1 = p ! 1 \<and> network_u32 q 8 = Some ssrc \<and> rtp_padding q = 0 \<and>
         rtp_payload q = rtp_payload p \<and> g = generation r \<and>
         (\<exists>i t out ts. network_u16 p 2 = Some i \<and> network_u32 p 4 = Some t \<and>
            map_timeline r i t = Some ((out, ts), r') \<and>
            network_u16 q 2 = Some out \<and> network_u32 q 4 = Some ts)"
  using assms by (rule rewrite_accept_facts)

definition sample_packet :: packet where
  "sample_packet = [0x80, 0x6f, 0x00, 0x05, 0, 0, 1, 0, 9, 9, 9, 9, 0xaa, 0xbb]"

lemma rewrite_rtp_for_slot_sample:
  "rewrite_rtp_for_slot (\<lambda>_. False) sample_packet 7 None =
     Some (True, [0x80, 0x6f, 0, 5, 0, 0, 1, 0, 0, 0, 0, 7, 0xaa, 0xbb])"
  by code_simp

lemma rewrite_sample:
  "rewrite (\<lambda>_. False) (snd (begin_source (new_rewriter 48000 960))) sample_packet 1 7 None =
     Some (True, [0x80, 0x6f, 0, 5, 0, 0, 1, 0, 0, 0, 0, 7, 0xaa, 0xbb],
       snd (the (map_timeline (snd (begin_source (new_rewriter 48000 960))) 5 256)))"
  by (simp add: rewrite_def rewrite_rtp_for_slot_sample map_timeline_first anchor_source_def
      begin_source_def new_rewriter_def network_u16_def network_u32_def set_network_u16_def
      set_network_u32_def drop_bit_eq_div Let_def)

lemma rewrite_accept_witness:
  "let q = [0x80, 0x6f, 0, 5, 0, 0, 1, 0, 0, 0, 0, 7, 0xaa, 0xbb]
   in network_u32 q 8 = Some 7 \<and> rtp_padding q = 0 \<and> rtp_payload q = rtp_payload sample_packet"
  unfolding Let_def using rewrite_accept [OF rewrite_sample] by blast

text \<open>
  C16: the generation protocol. A packet that was admitted under one binding of the slot is
  refused after any further bindings and releases, and it leaves the timeline alone.
\<close>

theorem stale_generation_rejected:
  assumes "bs \<noteq> []" and "length bs < 2 ^ 64"
  shows "\<exists>p1. rewrite is_rtcp (rebind bs r) p (generation r) ssrc mid_id = Some (False, p1, rebind bs r)"
proof -
  have "(of_nat (length bs) :: u64) \<noteq> 0"
    using assms by (simp add: word_of_nat_eq_0_iff nat_dvd_not_less)
  then have stale: "generation r \<noteq> generation (rebind bs r)"
    by (simp add: generation_rebind)
  obtain ok p1 where r: "rewrite_rtp_for_slot is_rtcp p ssrc mid_id = Some (ok, p1)"
    using rewrite_rtp_for_slot_not_None [of is_rtcp p ssrc mid_id] by auto
  show ?thesis
  proof (cases ok)
    case True
    with r have "rewrite_rtp_for_slot is_rtcp p ssrc mid_id = Some (True, p1)" by simp
    then have "12 \<le> length p1" using rewrite_rtp_for_slot_accept by blast
    then have "\<exists>i. network_u16 p1 2 = Some i" "\<exists>t. network_u32 p1 4 = Some t"
      by (auto simp: network_u16_def network_u32_def byte_at_def)
    with r True stale show ?thesis by (auto simp: rewrite_def)
  qed (simp add: r rewrite_def)
qed

lemma stale_generation_rejected_witness:
  "\<exists>p1. rewrite (\<lambda>_. False) (rebind [False, True] (new_rewriter 48000 960)) sample_packet 0 7 None =
     Some (False, p1, rebind [False, True] (new_rewriter 48000 960))"
  using stale_generation_rejected [of "[False, True]" "\<lambda>_. False" "new_rewriter 48000 960"
      sample_packet 7 None]
  by (simp add: new_rewriter_def)

text \<open>
  C19: in every reachable state of a rewriter, an anchored source has produced output, and the
  newest output is the newest input shifted by the two offsets, at most half the sequence
  space after the anchor.
\<close>

theorem timeline_invariant:
  assumes "timeline_step\<^sup>*\<^sup>* (new_rewriter rate step) r"
  shows "timeline_inv r"
  using assms
  by (induction rule: rtranclp_induct)
    (simp add: timeline_inv_def new_rewriter_def, blast intro: timeline_inv_step)

lemma timeline_invariant_witness: "timeline_inv (snd (begin_source (new_rewriter 48000 960)))"
  by (rule timeline_invariant [of 48000 960]) (blast intro: timeline_step.begin_step)

text \<open>
  Switching publishers is seamless. When a slot that has already sent output is bound to a
  new source, the first packet continues one sequence number and one timestamp step after the
  newest output, and every later packet within half the sequence space keeps its distance
  from the first.
\<close>

theorem source_switch_continues_timeline:
  assumes "\<not> source_initialized r" and "output_initialized r"
  shows "fst (feed r ((i, t) # xs)) =
     map (\<lambda>(j, u). if unat (j - i) < 32768
                   then Some (latest_output_sequence r + 1 + (j - i),
                              latest_output_timestamp r + timestamp_step r + (u - t))
                   else None) ((i, t) # xs)"
  unfolding feed_first_source [OF assms(1)]
  using assms by (intro map_cong refl) (auto simp: anchor_source_def Let_def)

definition switched_rewriter :: rtp_slot_rewriter where
  "switched_rewriter =
     (new_rewriter 48000 960)\<lparr>output_initialized := True, latest_output_sequence := 65535,
        latest_output_timestamp := 100\<rparr>"

lemma source_switch_continues_timeline_witness:
  "fst (feed switched_rewriter [(7, 1), (8, 961)]) = [Some (0, 1060), Some (1, 2020)]"
proof -
  have "\<not> source_initialized switched_rewriter" "output_initialized switched_rewriter"
    by (simp_all add: switched_rewriter_def new_rewriter_def)
  from source_switch_continues_timeline [OF this, of 7 1 "[(8, 961)]"] show ?thesis
    by (simp add: switched_rewriter_def new_rewriter_def)
qed

text \<open>
  C40: the anchor of a source never moves, so a long stream stalls. Of an in-order stream of one
  publisher the rewriter accepts exactly the packets whose index modulo 65536 is below 32768:
  after 32768 packets it drops the next 32768, and so on.
\<close>

theorem long_stream_stalls:
  assumes "\<not> source_initialized r" and "k < n"
  shows "fst (feed r (map (\<lambda>j. (start + of_nat j, ts j)) [0..<n])) ! k = None \<longleftrightarrow>
           32768 \<le> k mod 65536"
proof -
  obtain m where n: "n = Suc m" using assms(2) by (cases n) auto
  have xs: "map (\<lambda>j. (start + of_nat j, ts j)) [0..<n] =
      (start, ts 0) # map (\<lambda>j. (start + of_nat j, ts j)) [Suc 0..<n]"
    unfolding n by (simp add: upt_conv_Cons del: upt_Suc)
  have k: "((start, ts 0) # map (\<lambda>j. (start + of_nat j, ts j)) [Suc 0..<n]) ! k = (start + of_nat k, ts k)"
    unfolding xs [symmetric] using assms(2) by simp
  have "unat (start + of_nat k - start) = k mod 65536"
    by (simp add: unat_of_nat)
  then show ?thesis
    unfolding xs feed_first_source [OF assms(1)]
    using assms(2) k by (subst nth_map) (simp_all add: n)
qed

lemma long_stream_stalls_witness:
  "fst (feed (new_rewriter 48000 960) (map (\<lambda>j. (0 + of_nat j, of_nat (960 * j))) [0..<40000])) ! 32768 = None"
  using long_stream_stalls [of "new_rewriter 48000 960" 32768 40000 0 "\<lambda>j. of_nat (960 * j)"]
  by (simp add: new_rewriter_def)

end
