(* ===== verification/Sfu_Media_Utils.thy ===== *)
theory Sfu_Media_Utils
  imports Prelude "HOL-Library.Multiset"
begin

text \<open>
  The shared media helpers of the SFU, \<^verbatim>\<open>backend/signaling_server/src/sfu_media_utils.cpp\<close>:
  the deterministic random numbers, the burst-loss and link models of the fault injection,
  SSRC allocation and the inspection of media descriptions.

  The C++ \<^verbatim>\<open>double\<close> is \<^typ>\<open>real\<close> here. \<open>next_unit\<close> is exact (53 bits over a power of two)
  and so are its comparisons; the rounding inside \<open>next_gaussian\<close> is not modelled.
  \<^verbatim>\<open>int64_t\<close> times in microseconds are \<^typ>\<open>int\<close>. \<^verbatim>\<open>rtc::Description::Media\<close> belongs to
  libdatachannel: the record \<open>media_description\<close> holds what its accessors return, and the
  calls that change a description are returned as a list.
\<close>

section \<open>Random numbers\<close>

definition next_random :: "u64 \<Rightarrow> u64 \<times> u64" where
  "next_random state =
     (let state1 = state + 0x9E3779B97F4A7C15;
          z0 = state1;
          z1 = (z0 XOR drop_bit 30 z0) * 0xBF58476D1CE4E5B9;
          z2 = (z1 XOR drop_bit 27 z1) * 0x94D049BB133111EB
      in (z2 XOR drop_bit 31 z2, state1))"

definition next_unit :: "u64 \<Rightarrow> real \<times> u64" where
  "next_unit state =
     (let (z, state1) = next_random state
      in (real (unat (drop_bit 11 z)) / 2 ^ 53, state1))"

definition next_gaussian :: "u64 \<Rightarrow> real \<times> u64" where
  "next_gaussian state =
     (let (v1, state1) = next_unit state;
          u1 = max v1 (1 / 10 ^ 12);
          (u2, state2) = next_unit state1
      in (sqrt (- 2 * ln u1) * cos (2 * (314159265358979323846 / 10 ^ 20) * u2), state2))"

section \<open>The link model\<close>

record link_model_config =
  queue_delay_ms :: int
  delay_standard_deviation_ms :: int
  queue_length_packets :: nat
  link_capacity_kbps :: u32
  allow_reordering :: bool
  duplicate_every_nth :: u32
  link_seed :: u64

definition link_enabled :: "link_model_config \<Rightarrow> bool" where
  "link_enabled config \<longleftrightarrow>
     0 < queue_delay_ms config \<or> 0 < delay_standard_deviation_ms config
     \<or> 0 < link_capacity_kbps config \<or> 0 < duplicate_every_nth config"

record link_model_state =
  link_initialized :: bool
  link_rng :: u64
  link_packets_seen :: u64
  capacity_busy_until_us :: int
  last_departure_us :: int
  queued_packets :: nat

definition new_link_state :: link_model_state where
  "new_link_state =
     \<lparr>link_initialized = False, link_rng = 0, link_packets_seen = 0,
      capacity_busy_until_us = 0, last_departure_us = 0, queued_packets = 0\<rparr>"

record link_schedule_result =
  departure_us :: int
  is_duplicate :: bool

definition serialization_us :: "link_model_config \<Rightarrow> nat \<Rightarrow> int" where
  "serialization_us config packet_bytes =
     (if link_capacity_kbps config = 0 then 0
      else (int packet_bytes * 8000) div uint (link_capacity_kbps config))"

text \<open>The delay drawn for a packet, in microseconds, and the generator after it.\<close>

definition queue_delay_us :: "link_model_config \<Rightarrow> u64 \<Rightarrow> int \<times> u64" where
  "queue_delay_us config rng =
     (let (jitter_ms, rng1) =
            (if 0 < delay_standard_deviation_ms config
             then (let (g, s) = next_gaussian rng
                   in (g * of_int (delay_standard_deviation_ms config), s))
             else (0, rng));
          delay_ms = max 0 (of_int (queue_delay_ms config) + jitter_ms)
      in (\<lfloor>delay_ms * 1000\<rfloor>, rng1))"

text \<open>
  The head of \<open>schedule_packet_departure\<close>: the state is seeded and counts the packet, and the
  departure follows from the serialization, the delay and the order.
\<close>

definition seed_link_state :: "link_model_config \<Rightarrow> link_model_state \<Rightarrow> link_model_state" where
  "seed_link_state config state =
     (let state1 = (if link_initialized state then state
                    else state\<lparr>link_rng := link_seed config + 0x9E3779B97F4A7C15,
                               link_initialized := True\<rparr>)
      in state1\<lparr>link_packets_seen := link_packets_seen state1 + 1\<rparr>)"

definition planned_departure ::
  "link_model_config \<Rightarrow> link_model_state \<Rightarrow> int \<Rightarrow> nat \<Rightarrow> int \<times> link_model_state" where
  "planned_departure config state arrival_us packet_bytes =
     (let start = max arrival_us (capacity_busy_until_us state);
          departure1 = start + serialization_us config packet_bytes;
          (departure2, state1) =
            (if 0 < queue_delay_ms config \<or> 0 < delay_standard_deviation_ms config
             then (let (d, rng) = queue_delay_us config (link_rng state)
                   in (departure1 + d, state\<lparr>link_rng := rng\<rparr>))
             else (departure1, state))
      in (if allow_reordering config then departure2
          else max departure2 (last_departure_us state1), state1))"

definition schedule_packet_departure ::
  "link_model_config \<Rightarrow> link_model_state \<Rightarrow> int \<Rightarrow> nat
     \<Rightarrow> link_schedule_result option \<times> link_model_state" where
  "schedule_packet_departure config state arrival_us packet_bytes =
     (if \<not> link_enabled config
      then (Some \<lparr>departure_us = arrival_us, is_duplicate = False\<rparr>, state)
      else
        (let state2 = seed_link_state config state;
             start = max arrival_us (capacity_busy_until_us state2);
             (departure, state3) = planned_departure config state2 arrival_us packet_bytes
         in if arrival_us < departure \<and> queue_length_packets config \<noteq> 0
               \<and> queue_length_packets config \<le> queued_packets state3
            then (None, state3)
            else
              (let state4 = state3\<lparr>capacity_busy_until_us :=
                                start + serialization_us config packet_bytes,
                              last_departure_us := departure\<rparr>;
                   state5 = (if arrival_us < departure
                             then state4\<lparr>queued_packets := queued_packets state4 + 1\<rparr>
                             else state4)
               in (Some \<lparr>departure_us = departure,
                         is_duplicate = (duplicate_every_nth config \<noteq> 0 \<and>
                           unat (link_packets_seen state5) mod unat (duplicate_every_nth config) = 0)\<rparr>,
                   state5))))"

section \<open>Faults\<close>

record burst_loss_config =
  good_to_bad :: real
  bad_to_good :: real
  loss_in_good :: real
  loss_in_bad :: real
  burst_seed :: u64

definition burst_enabled :: "burst_loss_config \<Rightarrow> bool" where
  "burst_enabled config \<longleftrightarrow> 0 < good_to_bad config \<or> 0 < loss_in_good config"

text \<open>
  \<open>packet_tap\<close> tells whether a tap is installed; the tapped packet is part of the result.
\<close>

record rtp_fault_config =
  drop_every_nth :: u32
  reorder_every_nth :: u32
  burst :: burst_loss_config
  link_model :: link_model_config
  link_down :: bool
  packet_tap :: bool

record rtp_fault_state =
  fault_packets_seen :: u64
  delayed_packet :: "packet option"
  burst_initialized :: bool
  in_bad_state :: bool
  fault_rng :: u64

definition new_fault_state :: rtp_fault_state where
  "new_fault_state =
     \<lparr>fault_packets_seen = 0, delayed_packet = None, burst_initialized = False,
      in_bad_state = False, fault_rng = 0\<rparr>"

record rtp_fault_result =
  tapped :: "packet option"
  first_packet :: "packet option"
  second_packet :: "packet option"

definition burst_should_drop ::
  "burst_loss_config \<Rightarrow> rtp_fault_state \<Rightarrow> bool \<times> rtp_fault_state" where
  "burst_should_drop config state =
     (let state1 = (if burst_initialized state then state
                    else state\<lparr>fault_rng := burst_seed config + 0xD1B54A32D192ED03,
                               in_bad_state := False, burst_initialized := True\<rparr>);
          loss_probability = (if in_bad_state state1 then loss_in_bad config else loss_in_good config);
          (v1, rng1) = next_unit (fault_rng state1);
          lost = (v1 < loss_probability);
          transition = (if in_bad_state state1 then bad_to_good config else good_to_bad config);
          (v2, rng2) = next_unit rng1;
          state2 = state1\<lparr>fault_rng := rng2\<rparr>
      in (lost, if v2 < transition then state2\<lparr>in_bad_state := \<not> in_bad_state state2\<rparr> else state2))"

definition every_nth :: "u32 \<Rightarrow> u64 \<Rightarrow> bool" where
  "every_nth n seen \<longleftrightarrow> n \<noteq> 0 \<and> unat seen mod unat n = 0"

definition apply_rtp_faults ::
  "(packet \<Rightarrow> bool) \<Rightarrow> rtp_fault_config \<Rightarrow> rtp_fault_state \<Rightarrow> packet
     \<Rightarrow> rtp_fault_result \<times> rtp_fault_state" where
  "apply_rtp_faults is_rtcp config state packet =
     (let tap = (if packet_tap config then Some packet else None)
      in if is_rtcp packet
            \<or> (drop_every_nth config = 0 \<and> reorder_every_nth config = 0
                \<and> \<not> burst_enabled (burst config))
         then (\<lparr>tapped = tap, first_packet = Some packet, second_packet = None\<rparr>, state)
         else
           (let state1 = state\<lparr>fault_packets_seen := fault_packets_seen state + 1\<rparr>;
                (burst_drop, state2) =
                  (if burst_enabled (burst config) then burst_should_drop (burst config) state1
                   else (False, state1))
            in if burst_drop \<or> every_nth (drop_every_nth config) (fault_packets_seen state2)
               then (\<lparr>tapped = tap, first_packet = None, second_packet = None\<rparr>, state2)
               else
                 (case delayed_packet state2 of
                    Some held \<Rightarrow>
                      (\<lparr>tapped = tap, first_packet = Some packet, second_packet = Some held\<rparr>,
                       state2\<lparr>delayed_packet := None\<rparr>)
                  | None \<Rightarrow>
                      if every_nth (reorder_every_nth config) (fault_packets_seen state2)
                      then (\<lparr>tapped = tap, first_packet = None, second_packet = None\<rparr>,
                            state2\<lparr>delayed_packet := Some packet\<rparr>)
                      else (\<lparr>tapped = tap, first_packet = Some packet, second_packet = None\<rparr>, state2))))"

section \<open>SSRC allocation\<close>

text \<open>The argument is the process-wide atomic counter.\<close>

definition first_slot_ssrc :: u32 where
  "first_slot_ssrc = 0x44520001"

definition allocate_slot_ssrc :: "u32 \<Rightarrow> u32 \<times> u32" where
  "allocate_slot_ssrc counter =
     (let (v, counter1) = (counter, counter + 1)
      in if v = 0 then (counter1, counter1 + 1) else (v, counter1))"

section \<open>Media descriptions\<close>

record rtp_format_entry =
  entry_format :: string
  entry_clock_rate :: int

record media_description =
  md_mid :: string
  payload_types :: "int list"
  rtp_map :: "int \<Rightarrow> rtp_format_entry option"
  ext_ids :: "int list"
  ext_map :: "int \<Rightarrow> string option"

text \<open>
  \<open>rtp_map d pt = None\<close> is the \<^verbatim>\<open>std::invalid_argument\<close> that \<^verbatim>\<open>rtpMap\<close> throws for an unknown
  payload type, which \<open>try_rtp_map\<close> turns into a null pointer.
\<close>

definition try_rtp_map :: "media_description \<Rightarrow> int \<Rightarrow> rtp_format_entry option" where
  "try_rtp_map description payload_type = rtp_map description payload_type"

definition kMidExtensionUri :: string where
  "kMidExtensionUri = ''urn:ietf:params:rtp-hdrext:sdes:mid''"

definition kTransportSequenceNumberUri :: string where
  "kTransportSequenceNumberUri =
     ''http://www.ietf.org/id/draft-holmer-rmcat-transport-wide-cc-extensions-01''"

definition kTransportSequenceNumberV2Uri :: string where
  "kTransportSequenceNumberV2Uri =
     ''http://www.webrtc.org/experiments/rtp-hdrext/transport-wide-cc-02''"

definition lower_char :: "char \<Rightarrow> char" where
  "lower_char c = (if 65 \<le> (of_char c :: nat) \<and> (of_char c :: nat) \<le> 90
                   then char_of ((of_char c :: nat) + 32) else c)"

definition lowercase :: "string \<Rightarrow> string" where
  "lowercase v = map lower_char v"

definition is_auxiliary_video_format :: "string \<Rightarrow> bool" where
  "is_auxiliary_video_format format \<longleftrightarrow>
     format \<in> {''red'', ''rtx'', ''ulpfec'', ''flexfec-03''}"

datatype description_edit =
    RemoveFeedback int string
  | RemoveExtMap int
  | RemoveFormat string

definition apply_forwarding_feedback_policy :: "media_description \<Rightarrow> description_edit list" where
  "apply_forwarding_feedback_policy description =
     concat (map (\<lambda>payload_type.
         (case try_rtp_map description payload_type of
            Some _ \<Rightarrow> [RemoveFeedback payload_type ''transport-cc'', RemoveFeedback payload_type ''goog-remb'']
          | None \<Rightarrow> [])) (payload_types description))
     @ concat (map (\<lambda>i.
         (case ext_map description i of
            Some uri \<Rightarrow>
              if uri = kTransportSequenceNumberUri \<or> uri = kTransportSequenceNumberV2Uri
              then [RemoveExtMap i] else []
          | None \<Rightarrow> [])) (ext_ids description))"

definition remove_auxiliary_video_codecs :: "description_edit list" where
  "remove_auxiliary_video_codecs =
     [RemoveFormat ''rtx'', RemoveFormat ''red'', RemoveFormat ''ulpfec'', RemoveFormat ''flexfec-03'']"

definition mid_extension_id :: "media_description \<Rightarrow> byte option" where
  "mid_extension_id description =
     map_option of_int
       (find (\<lambda>i. 0 < i \<and> i \<le> 255 \<and> ext_map description i = Some kMidExtensionUri)
          (ext_ids description))"

record rtp_format =
  payload_type :: byte
  format_clock_rate :: u32

text \<open>The test of the loop body of \<open>primary_rtp_format\<close>: no \<^verbatim>\<open>continue\<close> is taken.\<close>

definition is_primary :: "media_description \<Rightarrow> string \<Rightarrow> int \<Rightarrow> bool" where
  "is_primary description media_type pt =
     (case try_rtp_map description pt of
        None \<Rightarrow> False
      | Some mapping \<Rightarrow>
          0 \<le> pt \<and> pt \<le> 127
          \<and> \<not> (media_type = ''audio'' \<and> lowercase (entry_format mapping) \<noteq> ''opus'')
          \<and> \<not> (media_type = ''video'' \<and> is_auxiliary_video_format (lowercase (entry_format mapping))))"

definition primary_rtp_format :: "media_description \<Rightarrow> string \<Rightarrow> rtp_format" where
  "primary_rtp_format description media_type =
     (case find (is_primary description media_type) (payload_types description) of
        Some pt \<Rightarrow>
          \<lparr>payload_type = of_int pt,
           format_clock_rate =
             (case try_rtp_map description pt of Some mapping \<Rightarrow> of_int (entry_clock_rate mapping) | None \<Rightarrow> 0)\<rparr>
      | None \<Rightarrow>
          if media_type = ''audio'' then \<lparr>payload_type = 111, format_clock_rate = 48000\<rparr>
          else \<lparr>payload_type = 96, format_clock_rate = 90000\<rparr>)"

section \<open>Random numbers stay in the unit interval\<close>

lemma next_unit_range: "0 \<le> fst (next_unit s)" "fst (next_unit s) < 1"
proof -
  have *: "unat (drop_bit 11 (z :: u64)) < 2 ^ 53" for z
  proof -
    have "unat z < 2 ^ 64" using unsigned_less [of z, where ?'a = nat] by simp
    then have "unat z div 2 ^ 11 < 2 ^ 53" by (simp add: less_mult_imp_div_less)
    moreover have "take_bit 64 (unat z) = unat z"
      using \<open>unat z < 2 ^ 64\<close> by (rule take_bit_nat_eq_self)
    ultimately show ?thesis unfolding unsigned_drop_bit_eq by (simp add: drop_bit_eq_div)
  qed
  define n where "n = unat (drop_bit 11 (fst (next_random s)))"
  have eq: "fst (next_unit s) = real n / 2 ^ 53"
    unfolding next_unit_def case_prod_beta n_def Let_def by simp
  have "n < 2 ^ 53" unfolding n_def by (rule *)
  then have "real n < 2 ^ 53" by (metis of_nat_less_iff of_nat_numeral of_nat_power)
  then show "fst (next_unit s) < 1" "0 \<le> fst (next_unit s)" by (simp_all add: eq)
qed

section \<open>The link model\<close>

lemma serialization_nonneg [simp]: "0 \<le> serialization_us config n"
  by (simp add: serialization_us_def div_int_pos_iff)

lemma queue_delay_nonneg: "0 \<le> fst (queue_delay_us config rng)"
  by (auto simp: queue_delay_us_def case_prod_beta)

lemma seed_link_state_fields [simp]:
  "capacity_busy_until_us (seed_link_state config s) = capacity_busy_until_us s"
  "last_departure_us (seed_link_state config s) = last_departure_us s"
  "queued_packets (seed_link_state config s) = queued_packets s"
  by (simp_all add: seed_link_state_def Let_def)

lemma planned_departure_facts:
  assumes "planned_departure config s arrival bytes = (d, s')"
  shows "capacity_busy_until_us s' = capacity_busy_until_us s"
    and "last_departure_us s' = last_departure_us s"
    and "queued_packets s' = queued_packets s"
    and "max arrival (capacity_busy_until_us s) + serialization_us config bytes \<le> d"
    and "\<not> allow_reordering config \<Longrightarrow> last_departure_us s \<le> d"
  using assms queue_delay_nonneg [of config "link_rng s"]
  by (auto simp: planned_departure_def Let_def case_prod_beta split: if_splits)

lemma schedule_facts:
  assumes "link_enabled config"
    and "schedule_packet_departure config s arrival bytes = (r, s')"
  shows "r = None \<Longrightarrow> capacity_busy_until_us s' = capacity_busy_until_us s \<and>
           last_departure_us s' = last_departure_us s \<and> queued_packets s' = queued_packets s \<and>
           queue_length_packets config \<noteq> 0 \<and> queue_length_packets config \<le> queued_packets s"
    and "r = Some x \<Longrightarrow>
           capacity_busy_until_us s' =
             max arrival (capacity_busy_until_us s) + serialization_us config bytes \<and>
           last_departure_us s' = departure_us x \<and>
           capacity_busy_until_us s' \<le> departure_us x \<and>
           (\<not> allow_reordering config \<longrightarrow> last_departure_us s \<le> departure_us x) \<and>
           queued_packets s' = queued_packets s + (if arrival < departure_us x then 1 else 0) \<and>
           (queue_length_packets config \<noteq> 0 \<longrightarrow> arrival < departure_us x \<longrightarrow>
              queued_packets s < queue_length_packets config)"
proof -
  obtain d s3 where d: "planned_departure config (seed_link_state config s) arrival bytes = (d, s3)"
    by fastforce
  note facts = planned_departure_facts [OF d, simplified]
  show "r = None \<Longrightarrow> capacity_busy_until_us s' = capacity_busy_until_us s \<and>
           last_departure_us s' = last_departure_us s \<and> queued_packets s' = queued_packets s \<and>
           queue_length_packets config \<noteq> 0 \<and> queue_length_packets config \<le> queued_packets s"
    using assms d facts(1-3) by (auto simp: schedule_packet_departure_def Let_def split: if_splits)
  assume "r = Some x"
  with assms d facts show "capacity_busy_until_us s' =
             max arrival (capacity_busy_until_us s) + serialization_us config bytes \<and>
           last_departure_us s' = departure_us x \<and>
           capacity_busy_until_us s' \<le> departure_us x \<and>
           (\<not> allow_reordering config \<longrightarrow> last_departure_us s \<le> departure_us x) \<and>
           queued_packets s' = queued_packets s + (if arrival < departure_us x then 1 else 0) \<and>
           (queue_length_packets config \<noteq> 0 \<longrightarrow> arrival < departure_us x \<longrightarrow>
              queued_packets s < queue_length_packets config)"
    unfolding schedule_packet_departure_def
    by (cases "arrival < d") (auto simp: Let_def split: if_splits)
qed

primrec link_run ::
  "link_model_config \<Rightarrow> link_model_state \<Rightarrow> (int \<times> nat) list
     \<Rightarrow> link_schedule_result option list \<times> link_model_state" where
  "link_run config s [] = ([], s)"
| "link_run config s (x # xs) =
     (let (r, s1) = schedule_packet_departure config s (fst x) (snd x);
          (rs, s2) = link_run config s1 xs
      in (r # rs, s2))"

definition departures :: "link_schedule_result option list \<Rightarrow> int list" where
  "departures rs = map departure_us (List.map_filter (\<lambda>r. r) rs)"

lemma departures_simps [simp]:
  "departures [] = []" "departures (None # rs) = departures rs"
  "departures (Some x # rs) = departure_us x # departures rs"
  by (simp_all add: departures_def map_filter_simps)

lemma link_run_Cons:
  assumes "schedule_packet_departure config s (fst x) (snd x) = (r, s1)"
  shows "link_run config s (x # xs) = (r # fst (link_run config s1 xs), snd (link_run config s1 xs))"
  using assms by (simp add: case_prod_beta)

declare link_run.simps(2) [simp del]

lemma link_run_fifo:
  assumes "link_enabled config" and "\<not> allow_reordering config"
  shows "sorted (last_departure_us s # departures (fst (link_run config s xs)))"
proof (induction xs arbitrary: s)
  case Nil
  then show ?case by simp
next
  case (Cons x xs)
  obtain r s1 where r: "schedule_packet_departure config s (fst x) (snd x) = (r, s1)"
    by fastforce
  show ?case
    using Cons.IH [of s1] schedule_facts [OF assms(1) r] assms(2)
    by (cases r) (auto simp: link_run_Cons [OF r])
qed

lemma link_run_queue:
  assumes "link_enabled config" and "queue_length_packets config \<noteq> 0"
    and "queued_packets s \<le> queue_length_packets config"
  shows "queued_packets (snd (link_run config s xs)) \<le> queue_length_packets config"
  using assms(3)
proof (induction xs arbitrary: s)
  case Nil
  then show ?case by simp
next
  case (Cons x xs)
  obtain r s1 where r: "schedule_packet_departure config s (fst x) (snd x) = (r, s1)"
    by fastforce
  have "queued_packets s1 \<le> queue_length_packets config"
    using schedule_facts [OF assms(1) r] assms(2) Cons.prems by (cases r) auto
  then show ?case by (simp add: link_run_Cons [OF r] Cons.IH)
qed

definition accepted_load :: "link_model_config \<Rightarrow> (int \<times> nat) list \<Rightarrow> link_schedule_result option list \<Rightarrow> int" where
  "accepted_load config xs rs =
     sum_list (map (\<lambda>(x, r). if r = None then 0 else serialization_us config (snd x)) (zip xs rs))"

lemma link_run_capacity:
  assumes "link_enabled config"
  shows "capacity_busy_until_us s + accepted_load config xs (fst (link_run config s xs))
           \<le> capacity_busy_until_us (snd (link_run config s xs))"
proof (induction xs arbitrary: s)
  case Nil
  then show ?case by (simp add: accepted_load_def)
next
  case (Cons x xs)
  obtain r s1 where r: "schedule_packet_departure config s (fst x) (snd x) = (r, s1)"
    by fastforce
  show ?case
    using Cons.IH [of s1] schedule_facts [OF assms r]
    by (cases r) (auto simp: link_run_Cons [OF r] accepted_load_def)
qed

section \<open>Faults\<close>

definition held :: "rtp_fault_state \<Rightarrow> packet list" where
  "held s = (case delayed_packet s of None \<Rightarrow> [] | Some p \<Rightarrow> [p])"

definition delivered :: "rtp_fault_result \<Rightarrow> packet list" where
  "delivered r = (case first_packet r of None \<Rightarrow> [] | Some p \<Rightarrow> [p])
     @ (case second_packet r of None \<Rightarrow> [] | Some p \<Rightarrow> [p])"

primrec fault_run ::
  "(packet \<Rightarrow> bool) \<Rightarrow> rtp_fault_config \<Rightarrow> rtp_fault_state \<Rightarrow> packet list
     \<Rightarrow> packet list \<times> rtp_fault_state" where
  "fault_run is_rtcp config s [] = ([], s)"
| "fault_run is_rtcp config s (p # ps) =
     (let (r, s1) = apply_rtp_faults is_rtcp config s p;
          (out, s2) = fault_run is_rtcp config s1 ps
      in (delivered r @ out, s2))"

lemma burst_should_drop_delayed: "delayed_packet (snd (burst_should_drop c s)) = delayed_packet s"
  by (simp add: burst_should_drop_def case_prod_beta Let_def)

lemma apply_rtp_faults_conserves:
  assumes "apply_rtp_faults is_rtcp config s p = (r, s')"
  shows "mset (delivered r) + mset (held s') = add_mset p (mset (held s)) \<or>
         delivered r = [] \<and> held s' = held s"
    and "drop_every_nth config = 0 \<Longrightarrow> \<not> burst_enabled (burst config) \<Longrightarrow>
           mset (delivered r) + mset (held s') = add_mset p (mset (held s))"
proof -
  define s1 where "s1 = s\<lparr>fault_packets_seen := fault_packets_seen s + 1\<rparr>"
  obtain bd s2 where b: "(if burst_enabled (burst config) then burst_should_drop (burst config) s1
      else (False, s1)) = (bd, s2)" by fastforce
  have held: "delayed_packet s2 = delayed_packet s"
    using b burst_should_drop_delayed [of "burst config" s1] by (auto simp: s1_def split: if_splits)
  have bd: "\<not> bd" if "\<not> burst_enabled (burst config)" using b that by simp
  note r = assms [unfolded apply_rtp_faults_def Let_def, folded s1_def, unfolded b, simplified]
  show "mset (delivered r) + mset (held s') = add_mset p (mset (held s)) \<or>
         delivered r = [] \<and> held s' = held s"
    using r held by (cases "delayed_packet s") (auto simp: delivered_def held_def split: if_splits)
  show "drop_every_nth config = 0 \<Longrightarrow> \<not> burst_enabled (burst config) \<Longrightarrow>
           mset (delivered r) + mset (held s') = add_mset p (mset (held s))"
    using r held bd
    by (cases "delayed_packet s") (auto simp: delivered_def held_def every_nth_def split: if_splits)
qed

lemma fault_run_Cons:
  assumes "apply_rtp_faults is_rtcp config s p = (r, s1)"
  shows "fault_run is_rtcp config s (p # ps) =
    (delivered r @ fst (fault_run is_rtcp config s1 ps), snd (fault_run is_rtcp config s1 ps))"
  using assms by (simp add: case_prod_beta)

declare fault_run.simps(2) [simp del]

lemma fault_run_at_most_once:
  "mset (fst (fault_run is_rtcp config s ps)) + mset (held (snd (fault_run is_rtcp config s ps)))
     \<subseteq># mset ps + mset (held s)"
proof (induction ps arbitrary: s)
  case Nil
  then show ?case by simp
next
  case (Cons p ps)
  obtain r s1 where r: "apply_rtp_faults is_rtcp config s p = (r, s1)" by fastforce
  let ?out = "mset (fst (fault_run is_rtcp config s1 ps))"
  let ?rest = "mset (held (snd (fault_run is_rtcp config s1 ps)))"
  from apply_rtp_faults_conserves(1) [OF r]
  have "mset (delivered r) + mset (held s1) \<subseteq># add_mset p (mset (held s))" by auto
  moreover from Cons.IH [of s1] have "mset (delivered r) + (?out + ?rest)
      \<subseteq># mset (delivered r) + (mset ps + mset (held s1))"
    by (rule subset_mset.add_left_mono)
  ultimately have "mset (delivered r) + (?out + ?rest) \<subseteq># mset ps + add_mset p (mset (held s))"
    by (metis (no_types) subset_mset.add_left_mono subset_mset.order_trans union_lcomm)
  then show ?case by (simp add: fault_run_Cons [OF r] ac_simps)
qed

lemma fault_run_lossless:
  assumes "drop_every_nth config = 0" and "\<not> burst_enabled (burst config)"
  shows "mset (fst (fault_run is_rtcp config s ps)) + mset (held (snd (fault_run is_rtcp config s ps)))
     = mset ps + mset (held s)"
proof (induction ps arbitrary: s)
  case Nil
  then show ?case by simp
next
  case (Cons p ps)
  obtain r s1 where r: "apply_rtp_faults is_rtcp config s p = (r, s1)" by fastforce
  show ?case
    using Cons.IH [of s1] apply_rtp_faults_conserves(2) [OF r assms]
    by (simp add: fault_run_Cons [OF r] ac_simps)
qed

section \<open>SSRC allocation\<close>

primrec allocate_slot_ssrcs :: "nat \<Rightarrow> u32 \<Rightarrow> u32 list" where
  "allocate_slot_ssrcs 0 c = []"
| "allocate_slot_ssrcs (Suc n) c =
     (let (v, c1) = allocate_slot_ssrc c in v # allocate_slot_ssrcs n c1)"

lemma allocate_slot_ssrcs_ranks:
  assumes "j + n + (if j \<le> unat (0 - c) then 1 else 0) \<le> 2 ^ 32"
  shows "\<exists>ks. allocate_slot_ssrcs n (c + of_nat j) = map (\<lambda>k. c + of_nat k) ks \<and>
           sorted_wrt (<) ks \<and> set ks \<subseteq> {j..<2 ^ 32} \<and>
           0 \<notin> set (allocate_slot_ssrcs n (c + of_nat j))"
  using assms
proof (induction n arbitrary: j)
  case 0
  then show ?case by simp
next
  case (Suc n)
  show ?case
  proof (cases "c + of_nat j = 0")
    case True
    then have j: "of_nat j = 0 - c" by (simp add: eq_neg_iff_add_eq_0 add.commute)
    have "j < 2 ^ 32" using Suc.prems by (simp split: if_splits)
    then have "j = unat (0 - c)" unfolding j [symmetric] by (simp add: unat_of_nat)
    then obtain ks where ks: "allocate_slot_ssrcs n (c + of_nat (j + 2)) = map (\<lambda>k. c + of_nat k) ks"
        "sorted_wrt (<) ks" "set ks \<subseteq> {j + 2..<2 ^ 32}"
        "0 \<notin> set (allocate_slot_ssrcs n (c + of_nat (j + 2)))"
      using Suc.IH [of "j + 2"] Suc.prems by (auto split: if_splits)
    have "c + of_nat (j + 1) = (c + of_nat j) + 1" "c + of_nat (j + 2) = (c + of_nat j) + 2"
      by (simp_all add: ac_simps)
    then have c: "c + of_nat (j + 1) = 1" "c + of_nat (j + 2) = 2"
      using True by simp_all
    have alloc: "allocate_slot_ssrcs (Suc n) (c + of_nat j) = 1 # allocate_slot_ssrcs n 2"
      by (simp only: True) (simp add: allocate_slot_ssrc_def)
    have bound: "j + 2 \<le> 2 ^ 32" using Suc.prems \<open>j = unat (0 - c)\<close> by simp
    show ?thesis
    proof (intro exI conjI)
      show "allocate_slot_ssrcs (Suc n) (c + of_nat j) = map (\<lambda>k. c + of_nat k) ((j + 1) # ks)"
        using ks(1) alloc c by (simp del: of_nat_add of_nat_Suc)
      show "sorted_wrt (<) ((j + 1) # ks)" "set ((j + 1) # ks) \<subseteq> {j..<2 ^ 32}"
        using ks(2,3) bound by auto
      show "0 \<notin> set (allocate_slot_ssrcs (Suc n) (c + of_nat j))"
        using ks(4) alloc c by (simp del: of_nat_add of_nat_Suc)
    qed
  next
    case False
    from Suc.prems have "Suc j + n + (if Suc j \<le> unat (0 - c) then 1 else 0) \<le> 2 ^ 32"
      by (auto split: if_splits)
    from Suc.IH [OF this] obtain ks where ks:
        "allocate_slot_ssrcs n (c + of_nat (Suc j)) = map (\<lambda>k. c + of_nat k) ks"
        "sorted_wrt (<) ks" "set ks \<subseteq> {Suc j..<2 ^ 32}"
        "0 \<notin> set (allocate_slot_ssrcs n (c + of_nat (Suc j)))" by auto
    show ?thesis
      using ks False Suc.prems
      by (intro exI [of _ "j # ks"])
        (auto simp: allocate_slot_ssrc_def Let_def ac_simps split: if_splits)
  qed
qed

section \<open>Properties\<close>

text \<open>
  The fault injection delivers every packet at most once, and with neither loss model
  switched on it only permutes: what came in is what went out or is still held back.
\<close>

theorem fault_injection_conserves_packets:
  "mset (fst (fault_run is_rtcp config s ps)) + mset (held (snd (fault_run is_rtcp config s ps)))
     \<subseteq># mset ps + mset (held s) \<and>
   (drop_every_nth config = 0 \<and> \<not> burst_enabled (burst config) \<longrightarrow>
    mset (fst (fault_run is_rtcp config s ps)) + mset (held (snd (fault_run is_rtcp config s ps)))
      = mset ps + mset (held s))"
  using fault_run_at_most_once [of is_rtcp config s ps]
    fault_run_lossless [of config is_rtcp s ps] by blast

definition reorder_config :: rtp_fault_config where
  "reorder_config =
     \<lparr>drop_every_nth = 0, reorder_every_nth = 2,
      burst = \<lparr>good_to_bad = 0, bad_to_good = 1, loss_in_good = 0, loss_in_bad = 1, burst_seed = 0\<rparr>,
      link_model = \<lparr>queue_delay_ms = 0, delay_standard_deviation_ms = 0, queue_length_packets = 0,
        link_capacity_kbps = 8, allow_reordering = False, duplicate_every_nth = 0, link_seed = 0\<rparr>,
      link_down = False, packet_tap = False\<rparr>"

lemma fault_injection_conserves_packets_witness:
  "mset (fst (fault_run (\<lambda>_. False) reorder_config new_fault_state [[1], [2], [3]]))
     + mset (held (snd (fault_run (\<lambda>_. False) reorder_config new_fault_state [[1], [2], [3]])))
   = {# [1], [2], [3] #}"
  using fault_injection_conserves_packets
    [of "\<lambda>_. False" reorder_config new_fault_state "[[1], [2], [3]]"]
  by (simp add: reorder_config_def burst_enabled_def new_fault_state_def held_def)

text \<open>
  The link model is a bounded first-in first-out link. Without reordering the departures of
  a run are sorted and none precedes an earlier one; the link is never busy for less time than
  the serialization of what it accepted; and its queue never exceeds its length.
\<close>

theorem link_model_fifo_bounded:
  assumes "link_enabled config" and "\<not> allow_reordering config"
    and "queue_length_packets config \<noteq> 0" and "queued_packets s \<le> queue_length_packets config"
  shows "sorted (last_departure_us s # departures (fst (link_run config s xs))) \<and>
         capacity_busy_until_us s + accepted_load config xs (fst (link_run config s xs))
           \<le> capacity_busy_until_us (snd (link_run config s xs)) \<and>
         queued_packets (snd (link_run config s xs)) \<le> queue_length_packets config"
  using assms by (intro conjI link_run_fifo link_run_capacity link_run_queue)

definition slow_link :: link_model_config where
  "slow_link = (link_model reorder_config)\<lparr>queue_length_packets := 2\<rparr>"

lemma link_model_fifo_bounded_witness:
  "queued_packets (snd (link_run slow_link new_link_state [(0, 100), (0, 100), (0, 100)])) \<le> 2"
  using link_model_fifo_bounded [of slow_link new_link_state "[(0, 100), (0, 100), (0, 100)]"]
  by (simp add: slow_link_def reorder_config_def new_link_state_def link_enabled_def)

text \<open>
  Fewer than \<open>2 ^ 32\<close> consecutive allocations from any counter value are pairwise distinct
  and never zero, across the wrap-around of the counter.
\<close>

theorem slot_ssrcs_distinct:
  assumes "n < 2 ^ 32"
  shows "distinct (allocate_slot_ssrcs n c) \<and> 0 \<notin> set (allocate_slot_ssrcs n c)"
proof -
  from assms allocate_slot_ssrcs_ranks [of 0 n c] obtain ks where ks:
      "allocate_slot_ssrcs n c = map (\<lambda>k. c + of_nat k) ks" "sorted_wrt (<) ks"
      "set ks \<subseteq> {0..<2 ^ 32}" "0 \<notin> set (allocate_slot_ssrcs n c)" by auto
  have "inj_on (\<lambda>k. c + of_nat k) (set ks)"
  proof (rule inj_onI)
    fix x y assume xy: "x \<in> set ks" "y \<in> set ks" "c + of_nat x = c + of_nat y"
    then have "x < 2 ^ 32" "y < 2 ^ 32" using ks(3) by auto
    then have "unat (of_nat x :: u32) = x" "unat (of_nat y :: u32) = y" by (simp_all add: unat_of_nat)
    with xy(3) show "x = y" by (metis add_left_imp_eq)
  qed
  moreover have "distinct ks" using ks(2) by (simp add: strict_sorted_iff)
  ultimately show ?thesis using ks by (simp add: distinct_map)
qed

lemma slot_ssrcs_distinct_witness: "distinct (allocate_slot_ssrcs 100 0xffffffff)"
  using slot_ssrcs_distinct [of 100 "0xffffffff"] by simp

end
