(* ===== verification/Sfu_Slots.thy ===== *)
theory Sfu_Slots
  imports Rtp_Slot_Rewriter Sfu_Media_Utils
begin

text \<open>
  What the voice and the screen router share (\<^verbatim>\<open>voice_router.cpp\<close> and \<^verbatim>\<open>screen_router.cpp\<close>
  repeat this code): the view of libdatachannel's tracks, the ranking of peers, the loops over
  output slots, the delay queue, and the slot protocol.

  A rewriter is shared between the slot that owns it and the \<open>Target\<close>s collected for packets in
  flight, so rewriters live in a heap \<open>nat \<Rightarrow> rtp_slot_rewriter\<close> and slots and targets hold
  references. The locales state what an operation on slots has to guarantee (it touches only the
  rewriters of its slot, and it advances a generation whenever it changes a binding) and derive
  what the loops and any number of operations then guarantee.
\<close>

section \<open>Tracks\<close>

type_synonym track_id = nat

datatype direction = RecvOnly | SendOnly | SendRecv | Inactive

text \<open>
  The answers of libdatachannel and of the clock during one operation. A \<^verbatim>\<open>weak_ptr<Track>\<close> is a
  \<open>track_id option\<close>; \<open>te_alive\<close> tells which tracks still exist.
\<close>

record track_env =
  te_alive :: "track_id \<Rightarrow> bool"
  te_open :: "track_id \<Rightarrow> bool"
  te_direction :: "track_id \<Rightarrow> direction"
  te_media_type :: "track_id \<Rightarrow> string"
  te_mid :: "track_id \<Rightarrow> string"
  te_description :: "track_id \<Rightarrow> media_description"
  te_send_ok :: "track_id \<Rightarrow> packet \<Rightarrow> bool"
  te_keyframe_ok :: "track_id \<Rightarrow> bool"
  te_is_rtcp :: "packet \<Rightarrow> bool"
  te_now_us :: int

definition lock_track :: "track_env \<Rightarrow> track_id option \<Rightarrow> track_id option" where
  "lock_track e w = (case w of Some t \<Rightarrow> if te_alive e t then Some t else None | None \<Rightarrow> None)"

abbreviation expired :: "track_env \<Rightarrow> track_id option \<Rightarrow> bool" where
  "expired e w \<equiv> lock_track e w = None"

lemma lock_track_eq_Some: "lock_track e w = Some t \<longleftrightarrow> w = Some t \<and> te_alive e t"
  by (auto simp: lock_track_def split: option.splits)

text \<open>
  Calls on tracks and on the signaling channel, in program order. A \<^verbatim>\<open>BindingSender\<close> is an
  opaque handle, or nothing when the \<^verbatim>\<open>std::function\<close> is empty.
\<close>

type_synonym binding_sender = "nat option"

datatype sfu_effect =
    SetDescription track_id "description_edit list" "(u32 \<times> string \<times> string \<times> string) option"
  | SetReceivingSession track_id
  | OnMessageRoute track_id peer_id string
  | OnMessageIgnore track_id
  | OnOpenRequestKeyframe track_id
  | SetSrReporter track_id u32 string rtp_format "track_id option option"
  | ClearMediaHandler track_id
  | ClearOnMessage track_id
  | SendBinding nat string "peer_id option"
  | RequestKeyframe track_id
  | SendPacket track_id packet
  | TapPacket packet

section \<open>Ranking of peers\<close>

text \<open>
  The comparator of \<open>ordered_peers_locked\<close>: by \<open>order\<close>, then by the peer id.
\<close>

datatype peer_rank = PeerRank (rank_order: u64) (rank_id: peer_id)

definition ranks_before :: "peer_rank \<Rightarrow> peer_rank \<Rightarrow> bool" where
  "ranks_before left right \<longleftrightarrow>
     (if rank_order left \<noteq> rank_order right then rank_order left < rank_order right
      else rank_id left < rank_id right)"

instantiation peer_rank :: linorder
begin

definition less_peer_rank :: "peer_rank \<Rightarrow> peer_rank \<Rightarrow> bool" where
  "less_peer_rank = ranks_before"

definition less_eq_peer_rank :: "peer_rank \<Rightarrow> peer_rank \<Rightarrow> bool" where
  "less_eq_peer_rank left right \<longleftrightarrow> left = right \<or> left < right"

instance
proof
  fix x y z :: peer_rank
  show "(x < y) = (x \<le> y \<and> \<not> y \<le> x)"
    by (auto simp: less_peer_rank_def ranks_before_def less_eq_peer_rank_def split: if_splits)
  show "x \<le> x" by (simp add: less_eq_peer_rank_def)
  show "x \<le> y \<Longrightarrow> y \<le> z \<Longrightarrow> x \<le> z"
    by (auto simp: less_peer_rank_def ranks_before_def less_eq_peer_rank_def split: if_splits)
  show "x \<le> y \<Longrightarrow> y \<le> x \<Longrightarrow> x = y"
    by (auto simp: less_peer_rank_def ranks_before_def less_eq_peer_rank_def split: if_splits)
  show "x \<le> y \<or> y \<le> x"
    by (cases x; cases y) (auto simp: less_peer_rank_def ranks_before_def less_eq_peer_rank_def)
qed

end

section \<open>The rewriter heap and loops over slots\<close>

type_synonym heap = "nat \<Rightarrow> rtp_slot_rewriter"

text \<open>A loop that updates every slot of a list and the rewriters they refer to.\<close>

fun update_slots :: "('x \<Rightarrow> heap \<Rightarrow> 'x \<times> heap) \<Rightarrow> 'x list \<Rightarrow> heap \<Rightarrow> 'x list \<times> heap" where
  "update_slots f [] h = ([], h)"
| "update_slots f (x # xs) h =
     (let (x', h1) = f x h; (xs', h2) = update_slots f xs h1 in (x' # xs', h2))"

text \<open>
  The inner loop of \<open>assign_available_locked\<close>: the publishers in order, each taking the first free
  slot, until a publisher finds none. It returns the claims as well.
\<close>

fun fill_slots ::
  "(peer_id \<Rightarrow> bool) \<Rightarrow> ('x \<Rightarrow> bool) \<Rightarrow> (peer_id \<Rightarrow> 'x \<Rightarrow> heap \<Rightarrow> 'x \<times> heap)
     \<Rightarrow> peer_id list \<Rightarrow> peer_id list \<Rightarrow> 'x list \<Rightarrow> heap
     \<Rightarrow> 'x list \<times> heap \<times> (peer_id \<times> 'x) list" where
  "fill_slots eligible free claim [] assigned xs h = (xs, h, [])"
| "fill_slots eligible free claim (p # ps) assigned xs h =
     (if \<not> eligible p \<or> p \<in> set assigned then fill_slots eligible free claim ps assigned xs h
      else
        (case List.extract free xs of
           None \<Rightarrow> (xs, h, [])
         | Some (before, x, after) \<Rightarrow>
             let (x', h1) = claim p x h;
                 (xs', h2, claims) =
                   fill_slots eligible free claim ps (set_insert p assigned) (before @ x' # after) h1
             in (xs', h2, (p, x') # claims)))"

lemma fill_slots_claimE:
  assumes "fill_slots eligible free claim (p # ps) assigned xs h = (ys, h', claims)"
    and "eligible p" "p \<notin> set assigned" "List.extract free xs = Some (before, x, after)"
  obtains claims1 where
    "fill_slots eligible free claim ps (set_insert p assigned)
       (before @ fst (claim p x h) # after) (snd (claim p x h)) = (ys, h', claims1)"
    "claims = (p, fst (claim p x h)) # claims1"
    "xs = before @ x # after" "free x" "\<forall>y\<in>set before. \<not> free y"
  using assms by (auto simp: Let_def case_prod_beta prod_eq_iff extract_Some_iff)

definition pairwise_disjoint :: "('x \<Rightarrow> nat set) \<Rightarrow> 'x list \<Rightarrow> bool" where
  "pairwise_disjoint refs xs \<longleftrightarrow> sorted_wrt (\<lambda>x y. refs x \<inter> refs y = {}) xs"

lemma pairwise_disjoint_simps [simp]:
  "pairwise_disjoint refs []"
  "pairwise_disjoint refs (x # xs) \<longleftrightarrow>
     (\<forall>y\<in>set xs. refs x \<inter> refs y = {}) \<and> pairwise_disjoint refs xs"
  "pairwise_disjoint refs (xs @ ys) \<longleftrightarrow>
     pairwise_disjoint refs xs \<and> pairwise_disjoint refs ys \<and>
     (\<forall>x\<in>set xs. \<forall>y\<in>set ys. refs x \<inter> refs y = {})"
  by (auto simp: pairwise_disjoint_def sorted_wrt_append)

lemma pairwise_disjoint_cong:
  "list_all2 (\<lambda>x y. refs y = refs x) xs ys \<Longrightarrow> pairwise_disjoint refs ys = pairwise_disjoint refs xs"
proof (induction rule: list_all2_induct)
  case (Cons x xs y ys)
  have "(\<forall>z\<in>set ys. refs x \<inter> refs z = {}) = (\<forall>z\<in>set xs. refs x \<inter> refs z = {})"
    using Cons.hyps(2) by (induction rule: list_all2_induct) auto
  with Cons show ?case by simp
qed simp

text \<open>An operation on one slot: it keeps the slot's references and works on those only.\<close>

locale slot_operation =
  fixes refs :: "'x \<Rightarrow> nat set"
    and f :: "'x \<Rightarrow> heap \<Rightarrow> 'x \<times> heap"
  assumes same_refs: "refs (fst (f x h)) = refs x"
    and frame: "r \<notin> refs x \<Longrightarrow> snd (f x h) r = h r"
    and reads: "(\<And>r. r \<in> refs x \<Longrightarrow> h r = g r) \<Longrightarrow>
                  fst (f x h) = fst (f x g) \<and> (\<forall>r\<in>refs x. snd (f x h) r = snd (f x g) r)"
begin

lemma update_slots_frame:
  "r \<notin> \<Union> (refs ` set xs) \<Longrightarrow> snd (update_slots f xs h) r = h r"
proof (induction xs arbitrary: h)
  case (Cons x xs)
  then show ?case by (simp add: case_prod_beta frame Let_def)
qed simp

lemma update_slots_map:
  "pairwise_disjoint refs xs \<Longrightarrow>
   fst (update_slots f xs h) = map (\<lambda>x. fst (f x h)) xs \<and>
   (\<forall>x\<in>set xs. \<forall>r\<in>refs x. snd (update_slots f xs h) r = snd (f x h) r)"
proof (induction xs arbitrary: h)
  case Nil
  then show ?case by simp
next
  case (Cons a xs)
  have later: "fst (f y (snd (f a h))) = fst (f y h) \<and>
      (\<forall>r\<in>refs y. snd (f y (snd (f a h))) r = snd (f y h) r)" if "y \<in> set xs" for y
  proof (rule reads)
    fix r assume "r \<in> refs y"
    with that Cons.prems show "snd (f a h) r = h r" by (intro frame) auto
  qed
  have "snd (update_slots f xs (snd (f a h))) r = snd (f a h) r" if "r \<in> refs a" for r
    using that Cons.prems by (intro update_slots_frame) auto
  moreover have "pairwise_disjoint refs xs" using Cons.prems by simp
  ultimately show ?case using Cons.IH [of "snd (f a h)"] later
    by (auto simp: case_prod_beta Let_def)
qed

end

text \<open>
  A bump advances the generation of a rewriter. An operation is lawful with \<open>K\<close> bumps when every
  reference of the slot is bumped at most \<open>K\<close> times, and is bumped whenever what the slot says
  about it changes. \<open>view x r\<close> is what \<open>collect_targets_locked\<close> reads for the reference \<open>r\<close>:
  nothing when the slot is not bound.
\<close>

definition bumped :: "nat \<Rightarrow> heap \<Rightarrow> heap \<Rightarrow> nat \<Rightarrow> bool" where
  "bumped k h h' r \<longleftrightarrow> generation (h' r) = generation (h r) + of_nat k"

lemma bumped_0: "h' r = h r \<Longrightarrow> bumped 0 h h' r"
  by (simp add: bumped_def)

lemma bumped_trans: "bumped j h h1 r \<Longrightarrow> bumped k h1 h2 r \<Longrightarrow> bumped (j + k) h h2 r"
  by (simp add: bumped_def add.assoc)

definition lawful ::
  "('x \<Rightarrow> nat set) \<Rightarrow> ('x \<Rightarrow> nat \<Rightarrow> 'v option) \<Rightarrow> nat \<Rightarrow> 'x \<Rightarrow> heap \<Rightarrow> 'x \<Rightarrow> heap \<Rightarrow> bool" where
  "lawful refs view K x h y h' \<longleftrightarrow>
     refs y = refs x \<and>
     (\<forall>r\<in>refs x. \<exists>k\<le>K. bumped k h h' r \<and> (k = 0 \<longrightarrow> view y r = view x r))"

lemma lawful_refl: "(\<And>r. r \<in> refs x \<Longrightarrow> h' r = h r) \<Longrightarrow> lawful refs view K x h x h'"
  by (auto simp: lawful_def intro: bumped_0)

lemma lawful_trans:
  assumes "lawful refs view J x h y h1" and "lawful refs view K y h1 z h2"
  shows "lawful refs view (J + K) x h z h2"
  unfolding lawful_def
proof (intro conjI ballI)
  show "refs z = refs x" using assms by (simp add: lawful_def)
  fix r assume "r \<in> refs x"
  with assms obtain j k where "j \<le> J" "bumped j h h1 r" "j = 0 \<longrightarrow> view y r = view x r"
      "k \<le> K" "bumped k h1 h2 r" "k = 0 \<longrightarrow> view z r = view y r"
    unfolding lawful_def by metis
  then show "\<exists>k\<le>J + K. bumped k h h2 r \<and> (k = 0 \<longrightarrow> view z r = view x r)"
    by (intro exI [of _ "j + k"]) (auto intro: bumped_trans)
qed

lemma lawful_mono: "lawful refs view J x h y h' \<Longrightarrow> J \<le> K \<Longrightarrow> lawful refs view K x h y h'"
  unfolding lawful_def by (meson order_trans)

lemma lawful_cong:
  assumes "lawful refs view K x h y h'" and "\<And>r. r \<in> refs x \<Longrightarrow> h'' r = h' r"
  shows "lawful refs view K x h y h''"
  using assms by (simp add: lawful_def bumped_def)

text \<open>What is bound, over a list of slots.\<close>

definition bound_view ::
  "('x \<Rightarrow> nat set) \<Rightarrow> ('x \<Rightarrow> nat \<Rightarrow> 'v option) \<Rightarrow> 'x list \<Rightarrow> nat \<Rightarrow> 'v \<Rightarrow> bool" where
  "bound_view refs view xs r v \<longleftrightarrow> (\<exists>x\<in>set xs. r \<in> refs x \<and> view x r = Some v)"

lemma lawful_slots:
  assumes "list_all2 (\<lambda>x y. lawful refs view K x h y h') xs ys" and "pairwise_disjoint refs xs"
    and "r \<in> \<Union> (refs ` set xs)"
  shows "\<exists>k\<le>K. bumped k h h' r \<and> (k = 0 \<longrightarrow> bound_view refs view ys r = bound_view refs view xs r)"
  using assms
proof (induction rule: list_all2_induct)
  case Nil
  then show ?case by simp
next
  case (Cons x xs y ys)
  have refs: "refs y = refs x" using Cons.hyps(1) by (simp add: lawful_def)
  have all: "\<Union> (refs ` set ys) = \<Union> (refs ` set xs)"
    using Cons.hyps(2) by (induction rule: list_all2_induct) (auto simp: lawful_def)
  show ?case
  proof (cases "r \<in> refs x")
    case True
    then have "bound_view refs view (x # xs) r v \<longleftrightarrow> view x r = Some v"
        "bound_view refs view (y # ys) r v \<longleftrightarrow> view y r = Some v" for v
      using Cons.prems(1) all refs by (auto simp: bound_view_def)
    with True Cons.hyps(1) show ?thesis unfolding lawful_def by (metis ext)
  next
    case False
    with Cons show ?thesis by (simp add: bound_view_def refs)
  qed
qed

text \<open>Claiming a free slot for a publisher.\<close>

locale slot_claim =
  fixes refs :: "'x \<Rightarrow> nat set"
    and free :: "'x \<Rightarrow> bool"
    and publisher_of :: "'x \<Rightarrow> peer_id option"
    and claim :: "peer_id \<Rightarrow> 'x \<Rightarrow> heap \<Rightarrow> 'x \<times> heap"
  assumes claim_operation: "slot_operation refs (claim p)"
    and claim_publisher: "publisher_of (fst (claim p x h)) = Some p"
    and free_unbound: "free x \<Longrightarrow> publisher_of x = None"
begin

lemmas claim_refs = slot_operation.same_refs [OF claim_operation]
lemmas claim_frame = slot_operation.frame [OF claim_operation]
lemmas claim_reads = slot_operation.reads [OF claim_operation]

definition kept_or_claimed :: "(peer_id \<Rightarrow> bool) \<Rightarrow> 'x \<Rightarrow> heap \<Rightarrow> 'x \<Rightarrow> heap \<Rightarrow> bool" where
  "kept_or_claimed eligible x h y h' \<longleftrightarrow>
     y = x \<and> (\<forall>r\<in>refs x. h' r = h r) \<or>
     free x \<and> (\<exists>p. eligible p \<and> y = fst (claim p x h) \<and> (\<forall>r\<in>refs x. h' r = snd (claim p x h) r))"

lemma kept_or_claimed_refs: "kept_or_claimed eligible x h y h' \<Longrightarrow> refs y = refs x"
  by (auto simp: kept_or_claimed_def claim_refs)

lemma claimed_not_free: "\<not> free (fst (claim p x h))"
  using claim_publisher [of p x h] free_unbound by force

lemma kept_or_claimed_trans:
  assumes "kept_or_claimed eligible x h y h1" and "kept_or_claimed eligible y h1 z h2"
  shows "kept_or_claimed eligible x h z h2"
proof (cases "y = x \<and> (\<forall>r\<in>refs x. h1 r = h r)")
  case True
  then have "fst (claim p x h1) = fst (claim p x h) \<and>
      (\<forall>r\<in>refs x. snd (claim p x h1) r = snd (claim p x h) r)" for p
    by (intro claim_reads) auto
  with True assms(2) show ?thesis by (auto simp: kept_or_claimed_def)
next
  case False
  with assms(1) obtain p where p: "free x" "eligible p" "y = fst (claim p x h)"
      "\<forall>r\<in>refs x. h1 r = snd (claim p x h) r"
    by (auto simp: kept_or_claimed_def)
  with assms(2) have "z = y" "\<forall>r\<in>refs x. h2 r = h1 r"
    using claimed_not_free by (auto simp: kept_or_claimed_def claim_refs)
  with p show ?thesis by (auto simp: kept_or_claimed_def)
qed

lemma list_all2_kept:
  assumes "\<And>x r. x \<in> set xs \<Longrightarrow> r \<in> refs x \<Longrightarrow> h' r = h r"
  shows "list_all2 (\<lambda>x y. kept_or_claimed eligible x h y h') xs xs"
  using assms by (intro list.rel_refl_strong) (auto simp: kept_or_claimed_def)

lemma fill_slots_kept_or_claimed:
  assumes "fill_slots eligible free claim ps assigned xs h = (ys, h', claims)"
    and "pairwise_disjoint refs xs"
  shows "list_all2 (\<lambda>x y. kept_or_claimed eligible x h y h') xs ys \<and>
         (\<forall>r. r \<notin> \<Union> (refs ` set xs) \<longrightarrow> h' r = h r)"
  using assms
proof (induction ps arbitrary: assigned xs h ys h' claims)
  case Nil
  then show ?case by (auto intro: list_all2_kept)
next
  case (Cons p ps)
  show ?case
  proof (cases "\<not> eligible p \<or> p \<in> set assigned")
    case True
    with Cons show ?thesis by auto
  next
    case eligible: False
    show ?thesis
    proof (cases "List.extract free xs")
      case None
      with Cons.prems eligible show ?thesis by (auto intro: list_all2_kept)
    next
      case (Some split)
      then obtain before x after where split: "List.extract free xs = Some (before, x, after)"
        by (cases split) auto
      let ?x = "fst (claim p x h)" and ?h = "snd (claim p x h)"
      from eligible split obtain claims1 where
        rest: "fill_slots eligible free claim ps (set_insert p assigned) (before @ ?x # after) ?h
           = (ys, h', claims1)"
        and xs: "xs = before @ x # after" and x: "free x"
        by (elim fill_slots_claimE [OF Cons.prems(1), rotated 2]) auto
      have refs: "\<Union> (refs ` set (before @ ?x # after)) = \<Union> (refs ` set xs)"
        by (simp add: xs claim_refs)
      have "pairwise_disjoint refs (before @ ?x # after)"
        using Cons.prems(2) by (simp add: xs claim_refs)
      note IH = Cons.IH [OF rest this, unfolded refs]
      then have later: "list_all2 (\<lambda>x y. kept_or_claimed eligible x ?h y h') (before @ ?x # after) ys"
          "\<And>r. r \<notin> \<Union> (refs ` set xs) \<Longrightarrow> h' r = ?h r"
        by simp_all
      have "list_all2 (\<lambda>x y. kept_or_claimed eligible x h y ?h) xs (before @ ?x # after)"
        unfolding xs
      proof (intro list_all2_appendI list.rel_intros)
        show "list_all2 (\<lambda>x y. kept_or_claimed eligible x h y ?h) before before"
          "list_all2 (\<lambda>x y. kept_or_claimed eligible x h y ?h) after after"
          using Cons.prems(2) by (auto simp: xs intro!: list_all2_kept claim_frame)
        show "kept_or_claimed eligible x h ?x ?h"
          using x eligible by (auto simp: kept_or_claimed_def)
      qed
      then have "list_all2 (\<lambda>x y. kept_or_claimed eligible x h y h') xs ys"
        using later(1) by (rule list_all2_trans [rotated]) (rule kept_or_claimed_trans)
      moreover have "h' r = h r" if "r \<notin> \<Union> (refs ` set xs)" for r
        using later(2) [OF that] that by (simp add: xs claim_frame)
      ultimately show ?thesis by blast
    qed
  qed
qed

text \<open>No publisher takes two slots of a subscriber.\<close>

definition publishers :: "'x list \<Rightarrow> peer_id list" where
  "publishers xs = List.map_filter publisher_of xs"

lemma publishers_simps [simp]:
  "publishers [] = []"
  "publishers (x # xs) = (case publisher_of x of None \<Rightarrow> publishers xs | Some p \<Rightarrow> p # publishers xs)"
  "publishers (xs @ ys) = publishers xs @ publishers ys"
  by (auto simp: publishers_def map_filter_def split: option.splits)

lemma fill_slots_publishers:
  assumes "fill_slots eligible free claim ps assigned xs h = (ys, h', claims)"
    and "distinct (publishers xs)" and "set assigned = set (publishers xs)"
  shows "distinct (publishers ys) \<and> set (publishers ys) = set (publishers xs) \<union> fst ` set claims \<and>
         (\<forall>p\<in>set ps. eligible p \<longrightarrow> p \<in> set (publishers ys) \<or> (\<forall>y\<in>set ys. \<not> free y)) \<and>
         set (publishers ys) \<subseteq> set (publishers xs) \<union> {p \<in> set ps. eligible p}"
  using assms
proof (induction ps arbitrary: assigned xs h ys h' claims)
  case Nil
  then show ?case by auto
next
  case (Cons p ps)
  show ?case
  proof (cases "\<not> eligible p \<or> p \<in> set assigned")
    case True
    with Cons.prems have "fill_slots eligible free claim ps assigned xs h = (ys, h', claims)" by auto
    from Cons.IH [OF this Cons.prems(2,3)] True Cons.prems(3) show ?thesis by auto
  next
    case eligible: False
    show ?thesis
    proof (cases "List.extract free xs")
      case None
      with Cons.prems(1) eligible have "ys = xs" "claims = []" by auto
      moreover have "\<forall>x\<in>set xs. \<not> free x" using None by (simp add: extract_None_iff)
      ultimately show ?thesis using Cons.prems(2) by auto
    next
      case (Some split)
      then obtain before x after where split: "List.extract free xs = Some (before, x, after)"
        by (cases split) auto
      let ?x = "fst (claim p x h)" and ?h = "snd (claim p x h)"
      from eligible split obtain claims1 where fill:
        "fill_slots eligible free claim ps (set_insert p assigned) (before @ ?x # after) ?h
           = (ys, h', claims1)" "claims = (p, ?x) # claims1"
        and xs: "xs = before @ x # after" and x: "free x"
        by (elim fill_slots_claimE [OF Cons.prems(1), rotated 2]) auto
      have "distinct (publishers (before @ ?x # after))"
          "set (set_insert p assigned) = set (publishers (before @ ?x # after))"
        using Cons.prems eligible x by (auto simp: xs claim_publisher free_unbound)
      from Cons.IH [OF fill(1) this] eligible x show ?thesis
        by (auto simp: fill(2) xs claim_publisher free_unbound)
    qed
  qed
qed

end

section \<open>Loops over peers\<close>

text \<open>
  A router keeps a list of outputs per peer; \<open>get\<close> and \<open>put\<close> read and replace it.
  \<open>update_peers\<close> is the pair of nested loops over all outputs of all peers; \<open>assign_peers\<close> is
  \<open>assign_available_locked\<close>, where \<open>order\<close> lists a subscriber's candidates and \<open>eligible\<close> is the
  test of the inner loop. The claims are returned for the notices.
\<close>

fun update_peers ::
  "('p \<Rightarrow> 'x list) \<Rightarrow> ('x list \<Rightarrow> 'p \<Rightarrow> 'p) \<Rightarrow> ('x \<Rightarrow> heap \<Rightarrow> 'x \<times> heap)
     \<Rightarrow> (peer_id \<times> 'p) list \<Rightarrow> heap \<Rightarrow> (peer_id \<times> 'p) list \<times> heap" where
  "update_peers get put f [] h = ([], h)"
| "update_peers get put f ((k, p) # ps) h =
     (let (xs, h1) = update_slots f (get p) h;
          (ps', h2) = update_peers get put f ps h1
      in ((k, put xs p) # ps', h2))"

fun assign_peers ::
  "('p \<Rightarrow> 'x list) \<Rightarrow> ('x list \<Rightarrow> 'p \<Rightarrow> 'p) \<Rightarrow> ('x \<Rightarrow> peer_id option) \<Rightarrow> ('x \<Rightarrow> bool)
     \<Rightarrow> (peer_id \<Rightarrow> 'x \<Rightarrow> heap \<Rightarrow> 'x \<times> heap) \<Rightarrow> ('p \<Rightarrow> peer_id list) \<Rightarrow> (peer_id \<Rightarrow> peer_id \<Rightarrow> bool)
     \<Rightarrow> peer_id list \<Rightarrow> (peer_id \<times> 'p) list \<Rightarrow> heap
     \<Rightarrow> (peer_id \<times> 'p) list \<times> heap \<times> (peer_id \<times> peer_id \<times> 'x) list" where
  "assign_peers get put publisher_of free claim order eligible [] peers h = (peers, h, [])"
| "assign_peers get put publisher_of free claim order eligible (sid # subs) peers h =
     (case map_of peers sid of
        None \<Rightarrow> assign_peers get put publisher_of free claim order eligible subs peers h
      | Some p \<Rightarrow>
          let (xs, h1, claims) =
                fill_slots (eligible sid) free claim (order p)
                  (List.map_filter publisher_of (get p)) (get p) h;
              (peers', h2, later) =
                assign_peers get put publisher_of free claim order eligible subs
                  (adjust sid (put xs) peers) h1
          in (peers', h2, map (\<lambda>(pid, x). (sid, pid, x)) claims @ later))"

definition slots :: "('p \<Rightarrow> 'x list) \<Rightarrow> (peer_id \<times> 'p) list \<Rightarrow> 'x list" where
  "slots get peers = concat (map (\<lambda>(k, p). get p) peers)"

lemma slots_simps [simp]:
  "slots get [] = []" "slots get ((k, p) # ps) = get p @ slots get ps"
  by (simp_all add: slots_def)

lemma in_slots: "x \<in> set (slots get peers) \<longleftrightarrow> (\<exists>k p. (k, p) \<in> set peers \<and> x \<in> set (get p))"
  by (force simp: slots_def)

text \<open>Two tables of the same peers, related peer by peer.\<close>

definition peers_related ::
  "(peer_id \<Rightarrow> 'p \<Rightarrow> 'p \<Rightarrow> bool) \<Rightarrow> (peer_id \<times> 'p) list \<Rightarrow> (peer_id \<times> 'p) list \<Rightarrow> bool" where
  "peers_related R peers peers' \<longleftrightarrow>
     list_all2 (\<lambda>(k, p) (k', p'). k' = k \<and> R k p p') peers peers'"

lemma peers_related_keys: "peers_related R peers peers' \<Longrightarrow> keys peers' = keys peers"
  unfolding peers_related_def by (induction rule: list_all2_induct) auto

lemma peers_related_map_of:
  assumes "peers_related R peers peers'"
  shows "map_of peers k = Some p \<Longrightarrow> \<exists>p'. map_of peers' k = Some p' \<and> R k p p'"
    and "map_of peers' k = Some p' \<Longrightarrow> \<exists>p. map_of peers k = Some p \<and> R k p p'"
    and "map_of peers k = None \<longleftrightarrow> map_of peers' k = None"
  using assms unfolding peers_related_def
  by (induction rule: list_all2_induct) (auto split: if_splits)

lemma peers_related_trans:
  assumes "peers_related R peers peers1" and "peers_related S peers1 peers2"
    and "\<And>k p p1 p2. R k p p1 \<Longrightarrow> S k p1 p2 \<Longrightarrow> T k p p2"
  shows "peers_related T peers peers2"
  using assms(1,2) unfolding peers_related_def
  by (rule list_all2_trans [rotated]) (use assms(3) in auto)

lemma peers_related_mono:
  assumes "peers_related R peers peers'"
    and "\<And>k p p'. (k, p) \<in> set peers \<Longrightarrow> R k p p' \<Longrightarrow> S k p p'"
  shows "peers_related S peers peers'"
  using assms unfolding peers_related_def by (auto elim!: list.rel_mono_strong)

lemma peers_related_adjust:
  assumes "distinct (keys peers)" and "map_of peers k = Some p" and "R k p (f p)"
    and "\<And>k' p'. (k', p') \<in> set peers \<Longrightarrow> k' \<noteq> k \<Longrightarrow> R k' p' p'"
  shows "peers_related R peers (adjust k f peers)"
proof -
  have R: "R a b (if a = k then f b else b)" if "(a, b) \<in> set peers" for a b
    using that assms by (cases "a = k") auto
  have "(case z of (k', p') \<Rightarrow> \<lambda>(k'', p''). k'' = k' \<and> R k' p' p'')
      (case z of (k', v) \<Rightarrow> if k' = k then (k', f v) else (k', v))" if "z \<in> set peers" for z
  proof -
    obtain a b where z: "z = (a, b)" by (cases z)
    with that R show ?thesis by (cases "a = k") (force simp: z)+
  qed
  then show ?thesis
    unfolding peers_related_def adjust_def list_all2_map2 by (intro list.rel_refl_strong)
qed

lemma peers_related_slots:
  assumes "peers_related R peers peers'" and "\<And>k p p'. R k p p' \<Longrightarrow> list_all2 Q (get p) (get p')"
  shows "list_all2 Q (slots get peers) (slots get peers')"
  using assms(1) unfolding peers_related_def
  by (induction rule: list_all2_induct) (auto intro!: list_all2_appendI dest: assms(2))

lemma disjoint_peers:
  assumes "(k, p) \<in> set peers" "(k', p') \<in> set peers" "k' \<noteq> k"
    "pairwise_disjoint refs (slots get peers)" "x \<in> set (get p)" "y \<in> set (get p')"
  shows "refs x \<inter> refs y = {}"
  using assms
proof (induction peers)
  case (Cons a peers)
  obtain j q where a: "a = (j, q)" by (cases a)
  from Cons.prems consider "(k, p) = a" "(k', p') \<in> set peers" | "(k, p) \<in> set peers" "(k', p') = a"
    | "(k, p) \<in> set peers" "(k', p') \<in> set peers" by auto
  then show ?case
  proof cases
    case 1
    with Cons.prems have "y \<in> set (slots get peers)" by (auto simp: in_slots)
    with 1 Cons.prems a show ?thesis by auto
  next
    case 2
    with Cons.prems have "x \<in> set (slots get peers)" by (auto simp: in_slots)
    with 2 Cons.prems a show ?thesis by fastforce
  next
    case 3
    with Cons a show ?thesis by simp
  qed
qed simp

lemma pairwise_disjoint_get:
  "(k, p) \<in> set peers \<Longrightarrow> pairwise_disjoint refs (slots get peers) \<Longrightarrow> pairwise_disjoint refs (get p)"
  by (induction peers) auto

context slot_operation
begin

lemma update_peers_frame:
  "r \<notin> \<Union> (refs ` set (slots get peers)) \<Longrightarrow> snd (update_peers get put f peers h) r = h r"
  by (induction peers arbitrary: h) (auto simp: case_prod_beta update_slots_frame Let_def)

lemma update_peers_map:
  "pairwise_disjoint refs (slots get peers) \<Longrightarrow>
   fst (update_peers get put f peers h) =
     map (\<lambda>(k, p). (k, put (map (\<lambda>x. fst (f x h)) (get p)) p)) peers \<and>
   (\<forall>x\<in>set (slots get peers). \<forall>r\<in>refs x.
      snd (update_peers get put f peers h) r = snd (f x h) r)"
proof (induction peers arbitrary: h)
  case Nil
  then show ?case by simp
next
  case (Cons a peers)
  obtain k p where a: "a = (k, p)" by (cases a)
  let ?h = "snd (update_slots f (get p) h)"
  have later: "fst (f y ?h) = fst (f y h) \<and> (\<forall>r\<in>refs y. snd (f y ?h) r = snd (f y h) r)"
    if "y \<in> set (slots get peers)" for y
    by (rule reads, rule update_slots_frame) (use that Cons.prems a in auto)
  have rest: "snd (update_peers get put f peers ?h) r = ?h r" if "x \<in> set (get p)" "r \<in> refs x" for x r
    by (rule update_peers_frame) (use that Cons.prems a in auto)
  have "pairwise_disjoint refs (get p)" "pairwise_disjoint refs (slots get peers)"
    using Cons.prems a by simp_all
  note here = update_slots_map [OF this(1), of h] and IH = Cons.IH [OF this(2), of ?h]
  have unfold: "update_peers get put f (a # peers) h =
      ((k, put (fst (update_slots f (get p) h)) p) # fst (update_peers get put f peers ?h),
       snd (update_peers get put f peers ?h))"
    by (simp add: a case_prod_beta Let_def)
  have "put (map (\<lambda>x. fst (f x ?h)) (get q)) q = put (map (\<lambda>x. fst (f x h)) (get q)) q"
    if "(k', q) \<in> set peers" for k' q
    by (rule arg_cong [where f = "\<lambda>ys. put ys q"], rule map_cong [OF refl])
      (use that later in \<open>auto simp: in_slots\<close>)
  then have "map (\<lambda>(k, p). (k, put (map (\<lambda>x. fst (f x ?h)) (get p)) p)) peers =
      map (\<lambda>(k, p). (k, put (map (\<lambda>x. fst (f x h)) (get p)) p)) peers"
    by (intro map_cong) (auto split: prod.splits)
  then have "fst (update_peers get put f (a # peers) h) =
      map (\<lambda>(k, p). (k, put (map (\<lambda>x. fst (f x h)) (get p)) p)) (a # peers)"
    unfolding unfold fst_conv conjunct1 [OF here] conjunct1 [OF IH]
    by (simp only: a list.map prod.case)
  moreover have "\<forall>x\<in>set (slots get (a # peers)). \<forall>r\<in>refs x.
      snd (update_peers get put f (a # peers) h) r = snd (f x h) r"
    unfolding unfold using here IH rest later by (auto simp: a)
  ultimately show ?case by blast
qed

end

locale slot_table = slot_claim refs free publisher_of claim
  for refs :: "'x \<Rightarrow> nat set" and free :: "'x \<Rightarrow> bool" and publisher_of :: "'x \<Rightarrow> peer_id option"
    and claim :: "peer_id \<Rightarrow> 'x \<Rightarrow> heap \<Rightarrow> 'x \<times> heap" +
  fixes get :: "'p \<Rightarrow> 'x list"
    and put :: "'x list \<Rightarrow> 'p \<Rightarrow> 'p"
    and order :: "'p \<Rightarrow> peer_id list"
  assumes get_put: "get (put xs p) = xs"
    and put_put: "put xs (put ys p) = put xs p"
    and put_get: "put (get p) p = p"
    and order_put: "order (put xs p) = order p"
begin

definition assigned_peer ::
  "(peer_id \<Rightarrow> peer_id \<Rightarrow> bool) \<Rightarrow> heap \<Rightarrow> heap \<Rightarrow> peer_id \<Rightarrow> 'p \<Rightarrow> 'p \<Rightarrow> bool" where
  "assigned_peer eligible h h' k p p' \<longleftrightarrow>
     p' = put (get p') p \<and>
     list_all2 (\<lambda>x y. kept_or_claimed (eligible k) x h y h') (get p) (get p') \<and>
     (distinct (publishers (get p)) \<longrightarrow> distinct (publishers (get p')) \<and>
        set (publishers (get p)) \<subseteq> set (publishers (get p')) \<and>
        set (publishers (get p')) \<subseteq> set (publishers (get p)) \<union> {q \<in> set (order p). eligible k q})"

lemma assigned_peer_refl:
  assumes "\<And>x r. x \<in> set (get p) \<Longrightarrow> r \<in> refs x \<Longrightarrow> h' r = h r"
  shows "assigned_peer eligible h h' k p p"
  using assms by (auto simp: assigned_peer_def put_get intro: list_all2_kept)

lemma assigned_peer_trans:
  assumes "assigned_peer eligible h h1 k p p1" and "assigned_peer eligible h1 h2 k p1 p2"
  shows "assigned_peer eligible h h2 k p p2"
proof -
  from assms have p1: "p1 = put (get p1) p" and p2: "p2 = put (get p2) p1"
    by (simp_all add: assigned_peer_def)
  have "order p1 = order p" by (subst p1) (rule order_put)
  moreover have "p2 = put (get p2) p" using p2 by (subst (asm) p1) (simp only: put_put)
  moreover have "list_all2 (\<lambda>x y. kept_or_claimed (eligible k) x h y h2) (get p) (get p2)"
    using assms unfolding assigned_peer_def
    by (blast intro: list_all2_trans [of _ _ _ "get p" "get p1" "get p2", rotated] kept_or_claimed_trans)
  ultimately show ?thesis using assms unfolding assigned_peer_def by auto
qed

lemma assign_step:
  assumes "map_of peers sid = Some p" and "distinct (keys peers)"
    and "pairwise_disjoint refs (slots get peers)"
    and fill: "fill_slots (eligible sid) free claim (order p) (publishers (get p)) (get p) h
      = (xs, h1, claims)"
  shows "peers_related (assigned_peer eligible h h1) peers (adjust sid (put xs) peers)"
    and "r \<notin> \<Union> (refs ` set (slots get peers)) \<Longrightarrow> h1 r = h r"
    and "distinct (publishers (get p)) \<Longrightarrow> q \<in> set (order p) \<Longrightarrow> eligible sid q \<Longrightarrow>
           q \<in> set (publishers xs) \<or> (\<forall>x\<in>set xs. \<not> free x)"
proof -
  have p: "(sid, p) \<in> set peers" using assms(1) by (rule map_of_SomeD)
  then have subset: "set (get p) \<subseteq> set (slots get peers)" by (force simp: in_slots)
  note kept = fill_slots_kept_or_claimed [OF fill pairwise_disjoint_get [OF p assms(3)]]
  note pubs = fill_slots_publishers [OF fill _ refl]
  show "peers_related (assigned_peer eligible h h1) peers (adjust sid (put xs) peers)"
  proof (rule peers_related_adjust [OF assms(2,1)])
    show "assigned_peer eligible h h1 sid p (put xs p)"
      unfolding assigned_peer_def get_put using kept pubs by (intro conjI impI) blast+
    fix k' p' assume "(k', p') \<in> set peers" "k' \<noteq> sid"
    then show "assigned_peer eligible h h1 k' p' p'"
      using kept disjoint_peers [OF p _ _ assms(3)] by (intro assigned_peer_refl) blast
  qed
  show "r \<notin> \<Union> (refs ` set (slots get peers)) \<Longrightarrow> h1 r = h r"
    using kept subset by blast
  show "distinct (publishers (get p)) \<Longrightarrow> q \<in> set (order p) \<Longrightarrow> eligible sid q \<Longrightarrow>
           q \<in> set (publishers xs) \<or> (\<forall>x\<in>set xs. \<not> free x)"
    using pubs by blast
qed

lemma assigned_slots_refs:
  assumes "peers_related (assigned_peer eligible h h1) peers peers1"
  shows "list_all2 (\<lambda>x y. refs y = refs x) (slots get peers) (slots get peers1)"
proof (rule peers_related_slots [OF assms])
  fix k p p' assume "assigned_peer eligible h h1 k p p'"
  then have "list_all2 (\<lambda>x y. kept_or_claimed (eligible k) x h y h1) (get p) (get p')"
    by (simp add: assigned_peer_def)
  then show "list_all2 (\<lambda>x y. refs y = refs x) (get p) (get p')"
    by (rule list.rel_mono_strong) (rule kept_or_claimed_refs)
qed

lemma refs_slots_cong:
  "list_all2 (\<lambda>x y. refs y = refs x) xs ys \<Longrightarrow> \<Union> (refs ` set ys) = \<Union> (refs ` set xs)"
  by (induction rule: list_all2_induct) auto

lemma assign_peers_related:
  assumes "assign_peers get put publisher_of free claim order eligible subs peers h = (peers', h', claims)"
    and "distinct (keys peers)" and "pairwise_disjoint refs (slots get peers)"
  shows "peers_related (assigned_peer eligible h h') peers peers' \<and>
         (\<forall>r. r \<notin> \<Union> (refs ` set (slots get peers)) \<longrightarrow> h' r = h r) \<and>
         (\<forall>k. k \<notin> set subs \<longrightarrow> map_of peers' k = map_of peers k)"
  using assms
proof (induction subs arbitrary: peers h peers' h' claims)
  case Nil
  then show ?case
    by (auto simp: peers_related_def intro!: list.rel_refl_strong assigned_peer_refl)
next
  case (Cons sid subs)
  show ?case
  proof (cases "map_of peers sid")
    case None
    with Cons show ?thesis by auto
  next
    case (Some p)
    obtain xs h1 claims1 where fill:
      "fill_slots (eligible sid) free claim (order p) (publishers (get p)) (get p) h = (xs, h1, claims1)"
      by (cases "fill_slots (eligible sid) free claim (order p) (publishers (get p)) (get p) h")
    note step = assign_step [where eligible = eligible, OF Some Cons.prems(2,3) fill]
    let ?peers = "adjust sid (put xs) peers"
    from Cons.prems(1) Some fill obtain later where rest:
      "assign_peers get put publisher_of free claim order eligible subs ?peers h1 = (peers', h', later)"
      by (auto simp: publishers_def Let_def split: prod.splits)
    note refs = assigned_slots_refs [OF step(1)]
    have "distinct (keys ?peers)" "pairwise_disjoint refs (slots get ?peers)"
      using Cons.prems(2,3) pairwise_disjoint_cong [OF refs] by simp_all
    note IH = Cons.IH [OF rest this]
    have "peers_related (assigned_peer eligible h h') peers peers'"
      by (rule peers_related_trans [OF step(1) conjunct1 [OF IH]]) (rule assigned_peer_trans)
    moreover have "h' r = h r" if "r \<notin> \<Union> (refs ` set (slots get peers))" for r
      using that step(2) IH refs_slots_cong [OF refs] by metis
    moreover have "map_of peers' k = map_of peers k" if "k \<notin> set (sid # subs)" for k
      using that IH by (auto simp: map_of_adjust)
    ultimately show ?thesis by blast
  qed
qed

lemma assign_peers_work_conserving:
  assumes "assign_peers get put publisher_of free claim order eligible subs peers h = (peers', h', claims)"
    and "distinct (keys peers)" and "pairwise_disjoint refs (slots get peers)" and "distinct subs"
    and "\<And>k p. (k, p) \<in> set peers \<Longrightarrow> distinct (publishers (get p))"
    and "k \<in> set subs" and "map_of peers' k = Some p'"
    and "q \<in> set (order p')" and "eligible k q"
  shows "q \<in> set (publishers (get p')) \<or> (\<forall>x\<in>set (get p'). \<not> free x)"
  using assms
proof (induction subs arbitrary: peers h claims)
  case Nil
  then show ?case by simp
next
  case (Cons sid subs)
  show ?case
  proof (cases "map_of peers sid")
    case None
    have "map_of peers' sid = None" if "sid = k"
    proof -
      from Cons.prems(1) None have "assign_peers get put publisher_of free claim order eligible subs
          peers h = (peers', h', claims)" by simp
      from assign_peers_related [OF this Cons.prems(2,3)] None show ?thesis
        using peers_related_map_of(3) by blast
    qed
    with Cons None show ?thesis by auto
  next
    case (Some p)
    obtain xs h1 claims1 where fill:
      "fill_slots (eligible sid) free claim (order p) (publishers (get p)) (get p) h = (xs, h1, claims1)"
      by (cases "fill_slots (eligible sid) free claim (order p) (publishers (get p)) (get p) h")
    note step = assign_step [where eligible = eligible, OF Some Cons.prems(2,3) fill]
    let ?peers = "adjust sid (put xs) peers"
    from Cons.prems(1) Some fill obtain later where rest:
      "assign_peers get put publisher_of free claim order eligible subs ?peers h1 = (peers', h', later)"
      by (auto simp: publishers_def Let_def split: prod.splits)
    have wf: "distinct (keys ?peers)" "pairwise_disjoint refs (slots get ?peers)"
      using Cons.prems(2,3) pairwise_disjoint_cong [OF assigned_slots_refs [OF step(1)]] by simp_all
    have p: "(sid, p) \<in> set peers" using Some by (rule map_of_SomeD)
    show ?thesis
    proof (cases "k = sid")
      case True
      then have "map_of peers' k = map_of ?peers k"
        using assign_peers_related [OF rest wf] Cons.prems(4) by auto
      with Some True Cons.prems(7) have p': "p' = put xs p" by (simp add: map_of_adjust)
      with step(3) Cons.prems(5) [OF p] Cons.prems(8,9) True show ?thesis
        by (simp add: get_put order_put)
    next
      case False
      have "distinct (publishers (get q))" if q: "(k', q) \<in> set ?peers" for k' q
      proof -
        from q wf(1) have "map_of ?peers k' = Some q" by simp
        from peers_related_map_of(2) [OF step(1) this] obtain q0 where
          "map_of peers k' = Some q0" "assigned_peer eligible h h1 k' q0 q" by blast
        with Cons.prems(5) [OF map_of_SomeD] show ?thesis by (auto simp: assigned_peer_def)
      qed
      with False show ?thesis
        using Cons.IH [OF rest wf] Cons.prems by auto
    qed
  qed
qed

end

text \<open>When claiming a slot bumps its rewriters, a whole assignment bumps each as often as one claim does.\<close>

locale lawful_slot_table = slot_table refs free publisher_of claim get put order
  for refs :: "'x \<Rightarrow> nat set" and free :: "'x \<Rightarrow> bool" and publisher_of :: "'x \<Rightarrow> peer_id option"
    and claim :: "peer_id \<Rightarrow> 'x \<Rightarrow> heap \<Rightarrow> 'x \<times> heap" and get :: "'p \<Rightarrow> 'x list"
    and put :: "'x list \<Rightarrow> 'p \<Rightarrow> 'p" and order :: "'p \<Rightarrow> peer_id list" +
  fixes view :: "'x \<Rightarrow> nat \<Rightarrow> 'v option"
    and bumps :: nat
  assumes claim_lawful: "lawful refs view bumps x h (fst (claim p x h)) (snd (claim p x h))"
begin

lemma kept_or_claimed_lawful:
  assumes "kept_or_claimed eligible x h y h'"
  shows "lawful refs view bumps x h y h'"
proof (cases "y = x \<and> (\<forall>r\<in>refs x. h' r = h r)")
  case True
  then show ?thesis by (auto intro: lawful_refl)
next
  case False
  with assms obtain p where "y = fst (claim p x h)" "\<forall>r\<in>refs x. h' r = snd (claim p x h) r"
    by (auto simp: kept_or_claimed_def)
  then show ?thesis using claim_lawful by (metis lawful_cong)
qed

lemma assign_peers_lawful:
  assumes "assign_peers get put publisher_of free claim order eligible subs peers h = (peers', h', claims)"
    and "distinct (keys peers)" and "pairwise_disjoint refs (slots get peers)"
  shows "list_all2 (\<lambda>x y. lawful refs view bumps x h y h') (slots get peers) (slots get peers')"
proof (rule peers_related_slots)
  show "peers_related (assigned_peer eligible h h') peers peers'"
    using assign_peers_related [OF assms] by blast
  fix k p p' assume "assigned_peer eligible h h' k p p'"
  then have "list_all2 (\<lambda>x y. kept_or_claimed (eligible k) x h y h') (get p) (get p')"
    by (simp add: assigned_peer_def)
  then show "list_all2 (\<lambda>x y. lawful refs view bumps x h y h') (get p) (get p')"
    by (rule list.rel_mono_strong) (rule kept_or_claimed_lawful)
qed

end

text \<open>Bumps and bindings of a whole table, for the references below \<open>n\<close>.\<close>

definition table_lawful ::
  "('x \<Rightarrow> nat set) \<Rightarrow> ('x \<Rightarrow> nat \<Rightarrow> 'v option) \<Rightarrow> nat \<Rightarrow> nat
     \<Rightarrow> 'x list \<Rightarrow> heap \<Rightarrow> 'x list \<Rightarrow> heap \<Rightarrow> bool" where
  "table_lawful refs view K n xs h ys h' \<longleftrightarrow>
     (\<forall>r<n. r \<in> \<Union> (refs ` set ys) \<longrightarrow>
        r \<in> \<Union> (refs ` set xs) \<and>
        (\<exists>k\<le>K. bumped k h h' r \<and> (k = 0 \<longrightarrow> bound_view refs view ys r = bound_view refs view xs r)))"

lemma table_lawful_trans:
  assumes "table_lawful refs view J n xs h ys h1" and "table_lawful refs view K n ys h1 zs h2"
  shows "table_lawful refs view (J + K) n xs h zs h2"
  unfolding table_lawful_def
proof (intro allI impI conjI)
  fix r assume r: "r < n" "r \<in> \<Union> (refs ` set zs)"
  then obtain k where k: "r \<in> \<Union> (refs ` set ys)" "k \<le> K" "bumped k h1 h2 r"
      "k = 0 \<longrightarrow> bound_view refs view zs r = bound_view refs view ys r"
    using assms(2) unfolding table_lawful_def by blast
  then obtain j where j: "r \<in> \<Union> (refs ` set xs)" "j \<le> J" "bumped j h h1 r"
      "j = 0 \<longrightarrow> bound_view refs view ys r = bound_view refs view xs r"
    using assms(1) r(1) unfolding table_lawful_def by blast
  then show "r \<in> \<Union> (refs ` set xs)" by blast
  show "\<exists>k\<le>J + K. bumped k h h2 r \<and> (k = 0 \<longrightarrow> bound_view refs view zs r = bound_view refs view xs r)"
    using j k by (intro exI [of _ "j + k"]) (auto intro: bumped_trans)
qed

lemma table_lawful_same: "(\<And>r. generation (h' r) = generation (h r)) \<Longrightarrow> table_lawful refs view 0 n xs h xs h'"
  by (auto simp: table_lawful_def bumped_def)

lemma table_lawful_mono: "table_lawful refs view J n xs h ys h' \<Longrightarrow> J \<le> K \<Longrightarrow> table_lawful refs view K n xs h ys h'"
  unfolding table_lawful_def by (meson order_trans)

lemma table_lawful_list_all2:
  assumes all: "list_all2 (\<lambda>x y. lawful refs view K x h y h') xs ys" and "pairwise_disjoint refs xs"
  shows "table_lawful refs view K n xs h ys h'"
proof -
  have "\<Union> (refs ` set ys) = \<Union> (refs ` set xs)"
    using all by (induction rule: list_all2_induct) (auto simp: lawful_def)
  then show ?thesis
    using lawful_slots [OF assms] unfolding table_lawful_def by blast
qed

text \<open>Dropping slots and adding slots with new references changes nothing for the others.\<close>

lemma table_lawful_subset:
  assumes "\<And>y. y \<in> set ys \<Longrightarrow> y \<in> set xs \<or> refs y \<inter> {..<n} = {}" and "pairwise_disjoint refs xs"
    and "\<And>y r. y \<in> set ys \<Longrightarrow> r \<in> refs y \<Longrightarrow> r < n \<Longrightarrow> generation (h' r) = generation (h r)"
  shows "table_lawful refs view 0 n xs h ys h'"
  unfolding table_lawful_def
proof (intro allI impI conjI)
  fix r assume "r < n" "r \<in> \<Union> (refs ` set ys)"
  then obtain y where y: "y \<in> set ys" "r \<in> refs y" "y \<in> set xs"
    using assms(1) by blast
  then show "r \<in> \<Union> (refs ` set xs)" by blast
  have unique: "x = y" if "x \<in> set xs" "y \<in> set xs" "r \<in> refs x" "r \<in> refs y" for x y
    using assms(2) that by (induction xs) auto
  have "z = y" if "z \<in> set ys" "r \<in> refs z" for z
    using unique [of z y] assms(1) [OF that(1)] that y \<open>r < n\<close> by blast
  with unique y have "bound_view refs view ys r = bound_view refs view xs r"
    unfolding bound_view_def by blast
  moreover have "bumped 0 h h' r" using assms(3) [OF y(1,2) \<open>r < n\<close>] by (simp add: bumped_def)
  ultimately show "\<exists>k\<le>0. bumped k h h' r \<and> (k = 0 \<longrightarrow> bound_view refs view ys r = bound_view refs view xs r)"
    by blast
qed

context slot_operation
begin

lemma update_peers_lawful:
  assumes "update_peers get put f peers h = (peers', h')" and "pairwise_disjoint refs (slots get peers)"
    and "\<And>xs p. get (put xs p) = xs" and "\<And>x. lawful refs view K x h (fst (f x h)) (snd (f x h))"
  shows "list_all2 (\<lambda>x y. lawful refs view K x h y h') (slots get peers) (slots get peers')"
proof -
  note upd = update_peers_map [OF assms(2), of put h, unfolded assms(1) fst_conv snd_conv]
  have "slots get peers' = map (\<lambda>x. fst (f x h)) (slots get peers)"
    unfolding conjunct1 [OF upd] by (induction peers) (auto simp: assms(3))
  moreover have "lawful refs view K x h (fst (f x h)) h'" if "x \<in> set (slots get peers)" for x
    using upd that by (intro lawful_cong [OF assms(4)]) auto
  ultimately show ?thesis by (auto simp: list_all2_map2 intro!: list.rel_refl_strong)
qed

end

section \<open>The slot protocol over many operations\<close>

text \<open>
  Between collecting targets and sending to them the router's lock is released and any operations
  may run. The protocol says why that is safe: if each operation bumps a rewriter at most \<open>per_step\<close>
  times and never changes a binding without a bump, then after \<open>n\<close> operations an unchanged generation
  means an unchanged binding.
\<close>

locale slot_protocol =
  fixes step :: "'s \<Rightarrow> 's \<Rightarrow> bool"
    and inv :: "'s \<Rightarrow> bool"
    and gen :: "'s \<Rightarrow> nat \<Rightarrow> u64"
    and limit :: "'s \<Rightarrow> nat"
    and present :: "'s \<Rightarrow> nat \<Rightarrow> bool"
    and bound :: "'s \<Rightarrow> nat \<Rightarrow> 'v \<Rightarrow> bool"
    and per_step :: nat
  assumes inv_step: "inv s \<Longrightarrow> step s s' \<Longrightarrow> inv s'"
    and step_limit: "inv s \<Longrightarrow> step s s' \<Longrightarrow> limit s \<le> limit s'"
    and step_present: "inv s \<Longrightarrow> step s s' \<Longrightarrow> r < limit s \<Longrightarrow> present s' r \<Longrightarrow> present s r"
    and step_bump: "inv s \<Longrightarrow> step s s' \<Longrightarrow> r < limit s \<Longrightarrow> present s' r \<Longrightarrow>
          \<exists>k\<le>per_step. gen s' r = gen s r + of_nat k \<and> (k = 0 \<longrightarrow> bound s' r = bound s r)"
begin

lemma inv_steps: "(step ^^ n) s s' \<Longrightarrow> inv s \<Longrightarrow> inv s'"
  by (induction n arbitrary: s') (auto intro: inv_step)

lemma inv_reachable: "step\<^sup>*\<^sup>* s s' \<Longrightarrow> inv s \<Longrightarrow> inv s'"
  by (induction rule: rtranclp_induct) (auto intro: inv_step)

lemma limit_steps: "(step ^^ n) s s' \<Longrightarrow> inv s \<Longrightarrow> limit s \<le> limit s'"
  by (induction n arbitrary: s') (auto, meson step_limit inv_steps order_trans)

lemma bumps_after_steps:
  assumes "(step ^^ n) s s'" and "inv s" and "r < limit s" and "present s' r"
  shows "\<exists>k\<le>per_step * n. gen s' r = gen s r + of_nat k \<and> (k = 0 \<longrightarrow> bound s' r = bound s r)"
  using assms
proof (induction n arbitrary: s')
  case 0
  then show ?case by auto
next
  case (Suc n)
  then obtain s1 where s1: "(step ^^ n) s s1" "step s1 s'" by auto
  have inv: "inv s1" and r: "r < limit s1"
    using inv_steps [OF s1(1)] limit_steps [OF s1(1)] Suc.prems by auto
  have "present s1 r" using step_present [OF inv s1(2) r] Suc.prems(4) .
  from Suc.IH [OF s1(1) Suc.prems(2,3) this] obtain j where
    j: "j \<le> per_step * n" "gen s1 r = gen s r + of_nat j" "j = 0 \<longrightarrow> bound s1 r = bound s r" by blast
  from step_bump [OF inv s1(2) r Suc.prems(4)] obtain k where
    k: "k \<le> per_step" "gen s' r = gen s1 r + of_nat k" "k = 0 \<longrightarrow> bound s' r = bound s1 r" by blast
  from j k show ?case by (intro exI [of _ "j + k"]) (auto simp: ac_simps)
qed

lemma same_generation_same_binding:
  assumes "(step ^^ n) s s'" and "inv s" and "r < limit s" and "present s' r"
    and "per_step * n < 2 ^ 64" and "gen s' r = gen s r"
  shows "bound s' r = bound s r"
proof -
  from bumps_after_steps [OF assms(1-4)] obtain k where
    k: "k \<le> per_step * n" "gen s' r = gen s r + of_nat k" "k = 0 \<longrightarrow> bound s' r = bound s r" by blast
  with assms(6) have "(of_nat k :: u64) = 0" by simp
  moreover have "k < 2 ^ 64" using k(1) assms(5) by simp
  ultimately have "k = 0" by (auto simp: word_of_nat_eq_0_iff dest!: nat_dvd_not_less [rotated])
  with k show ?thesis by blast
qed

end

end
