(* ===== verification/Sfu_Forwarding.thy ===== *)
theory Sfu_Forwarding
  imports Sfu_Slots
begin

text \<open>
  The packet path the voice and the screen router share: the loop of \<open>send_packets\<close> over packets
  and targets, the scheduling of faulted packets on the simulated link, and the delay queue with
  its timer (\<^verbatim>\<open>std::multimap\<close>, sorted by departure time). A rewriter access out of range cannot
  happen, so the \<open>None\<close> of \<open>rewrite\<close> is treated like a refused packet.
\<close>

section \<open>Sending to targets\<close>

record target =
  tg_track :: "track_id option"
  tg_ssrc :: u32
  tg_rewriter :: nat
  tg_generation :: u64

text \<open>One round of the inner loop; the list holds the sizes of the packets sent.\<close>

definition send_to_target ::
  "track_env \<Rightarrow> byte option \<Rightarrow> packet \<Rightarrow> target \<Rightarrow> heap \<Rightarrow> sfu_effect list \<times> heap \<times> nat list" where
  "send_to_target e mid_id routed_packet tg h =
     (case lock_track e (tg_track tg) of
        None \<Rightarrow> ([], h, [])
      | Some output \<Rightarrow>
          if \<not> te_open e output then ([], h, [])
          else
            (case rewrite (te_is_rtcp e) (h (tg_rewriter tg)) routed_packet (tg_generation tg)
                    (tg_ssrc tg) mid_id of
               None \<Rightarrow> ([], h, [])
             | Some (ok, rewritten, r) \<Rightarrow>
                 let h1 = h(tg_rewriter tg := r)
                 in if ok \<and> te_send_ok e output rewritten
                    then ([SendPacket output rewritten], h1, [length rewritten])
                    else ([], h1, [])))"

fun send_to_targets ::
  "track_env \<Rightarrow> byte option \<Rightarrow> packet \<Rightarrow> target list \<Rightarrow> heap \<Rightarrow> sfu_effect list \<times> heap \<times> nat list" where
  "send_to_targets e mid_id packet [] h = ([], h, [])"
| "send_to_targets e mid_id packet (tg # tgs) h =
     (let (es, h1, sizes) = send_to_target e mid_id packet tg h;
          (es', h2, sizes') = send_to_targets e mid_id packet tgs h1
      in (es @ es', h2, sizes @ sizes'))"

fun send_packets_loop ::
  "track_env \<Rightarrow> byte option \<Rightarrow> target list \<Rightarrow> packet list \<Rightarrow> heap \<Rightarrow> sfu_effect list \<times> heap \<times> nat list" where
  "send_packets_loop e mid_id tgs [] h = ([], h, [])"
| "send_packets_loop e mid_id tgs (packet # packets) h =
     (let (es, h1, sizes) = send_to_targets e mid_id packet tgs h;
          (es', h2, sizes') = send_packets_loop e mid_id tgs packets h1
      in (es @ es', h2, sizes @ sizes'))"

text \<open>What a sent packet is: the routed packet with the header of the slot.\<close>

definition rewritten_for :: "track_env \<Rightarrow> target \<Rightarrow> packet \<Rightarrow> packet \<Rightarrow> bool" where
  "rewritten_for e tg packet q \<longleftrightarrow>
     network_u32 q 8 = Some (tg_ssrc tg) \<and> rtp_payload q = rtp_payload packet \<and> q ! 1 = packet ! 1"

definition delivers :: "track_env \<Rightarrow> heap \<Rightarrow> target list \<Rightarrow> packet list \<Rightarrow> sfu_effect \<Rightarrow> bool" where
  "delivers e h tgs packets eff \<longleftrightarrow>
     (\<exists>tg\<in>set tgs. \<exists>packet\<in>set packets. \<exists>t q.
        eff = SendPacket t q \<and> lock_track e (tg_track tg) = Some t \<and> te_open e t \<and>
        generation (h (tg_rewriter tg)) = tg_generation tg \<and> rewritten_for e tg packet q)"

lemma rewrite_generation:
  assumes "rewrite is_rtcp r p g ssrc mid_id = Some (ok, q, r')"
  shows "generation r' = generation r"
  using assms generation_map_timeline
  by (fastforce simp: rewrite_def bind_eq_Some_conv split: if_splits option.splits prod.splits)

lemma send_to_target_generation:
  assumes "send_to_target e mid_id p tg h = (es, h', sizes)"
  shows "generation (h' r) = generation (h r)" and "r \<noteq> tg_rewriter tg \<Longrightarrow> h' r = h r"
  using assms
  by (auto simp: send_to_target_def Let_def dest!: rewrite_generation
      split: option.splits if_splits prod.splits)

lemma send_to_target_delivers:
  assumes "send_to_target e mid_id p tg h = (es, h', sizes)" and "eff \<in> set es"
  shows "delivers e h [tg] [p] eff"
proof -
  from assms obtain t q r where t: "lock_track e (tg_track tg) = Some t" "te_open e t"
      "rewrite (te_is_rtcp e) (h (tg_rewriter tg)) p (tg_generation tg) (tg_ssrc tg) mid_id
         = Some (True, q, r)" "eff = SendPacket t q"
    by (auto simp: send_to_target_def Let_def split: option.splits if_splits prod.splits)
  with rewrite_accept_facts [OF t(3)] show ?thesis
    by (auto simp: delivers_def rewritten_for_def)
qed

lemma delivers_cong:
  "delivers e h tgs packets eff \<Longrightarrow> (\<And>r. generation (h' r) = generation (h r)) \<Longrightarrow>
   set tgs \<subseteq> set tgs' \<Longrightarrow> set packets \<subseteq> set packets' \<Longrightarrow> delivers e h' tgs' packets' eff"
  unfolding delivers_def by (metis (no_types, lifting) subset_iff)

lemma send_to_targets_sound:
  assumes "send_to_targets e mid_id p tgs h = (es, h', sizes)"
  shows "generation (h' r) = generation (h r) \<and> (r \<notin> tg_rewriter ` set tgs \<longrightarrow> h' r = h r) \<and>
         (\<forall>eff\<in>set es. delivers e h tgs [p] eff) \<and> length es = length sizes"
  using assms
proof (induction tgs arbitrary: h es sizes r)
  case Nil
  then show ?case by simp
next
  case (Cons tg tgs)
  obtain es1 h1 sizes1 where one: "send_to_target e mid_id p tg h = (es1, h1, sizes1)"
    by (cases "send_to_target e mid_id p tg h")
  with Cons.prems obtain es2 sizes2 where
    rest: "send_to_targets e mid_id p tgs h1 = (es2, h', sizes2)" and es: "es = es1 @ es2" "sizes = sizes1 @ sizes2"
    by (auto simp: Let_def split: prod.splits)
  have gen: "generation (h r) = generation (h1 r)" for r
    using send_to_target_generation(1) [OF one] by simp
  have "length es1 = length sizes1"
    using one by (auto simp: send_to_target_def Let_def split: option.splits if_splits prod.splits)
  moreover have "delivers e h (tg # tgs) [p] eff" if "eff \<in> set es1" for eff
    using send_to_target_delivers [OF one that] by (rule delivers_cong) auto
  moreover have "delivers e h (tg # tgs) [p] eff" if "eff \<in> set es2" for eff
  proof (rule delivers_cong)
    show "delivers e h1 tgs [p] eff" using Cons.IH [OF rest] that by blast
  qed (auto simp: gen)
  ultimately show ?case
    using Cons.IH [OF rest] send_to_target_generation [OF one] es by auto
qed

lemma send_packets_loop_sound:
  assumes "send_packets_loop e mid_id tgs packets h = (es, h', sizes)"
  shows "generation (h' r) = generation (h r) \<and> (r \<notin> tg_rewriter ` set tgs \<longrightarrow> h' r = h r) \<and>
         (\<forall>eff\<in>set es. delivers e h tgs packets eff) \<and> length es = length sizes"
  using assms
proof (induction packets arbitrary: h es sizes r)
  case Nil
  then show ?case by simp
next
  case (Cons p packets)
  obtain es1 h1 sizes1 where one: "send_to_targets e mid_id p tgs h = (es1, h1, sizes1)"
    by (cases "send_to_targets e mid_id p tgs h")
  with Cons.prems obtain es2 sizes2 where
    rest: "send_packets_loop e mid_id tgs packets h1 = (es2, h', sizes2)"
    and es: "es = es1 @ es2" "sizes = sizes1 @ sizes2"
    by (auto simp: Let_def split: prod.splits)
  have gen: "generation (h r) = generation (h1 r)" for r
    using send_to_targets_sound [OF one] by simp
  have "delivers e h tgs (p # packets) eff" if "eff \<in> set es1" for eff
  proof (rule delivers_cong)
    show "delivers e h tgs [p] eff" using send_to_targets_sound [OF one] that by blast
  qed auto
  moreover have "delivers e h tgs (p # packets) eff" if "eff \<in> set es2" for eff
  proof (rule delivers_cong)
    show "delivers e h1 tgs packets eff" using Cons.IH [OF rest] that by blast
  qed (auto simp: gen)
  ultimately show ?case
    using Cons.IH [OF rest] send_to_targets_sound [OF one] es by auto
qed

section \<open>The delay queue\<close>

type_synonym 'd delay_queue = "(int \<times> 'd) list"

text \<open>\<^verbatim>\<open>multimap::emplace\<close> inserts after the entries with an equal key.\<close>

fun multimap_emplace :: "int \<Rightarrow> 'd \<Rightarrow> 'd delay_queue \<Rightarrow> 'd delay_queue" where
  "multimap_emplace k v [] = [(k, v)]"
| "multimap_emplace k v ((k', v') # q) =
     (if k < k' then (k, v) # (k', v') # q else (k', v') # multimap_emplace k v q)"

definition take_due :: "int \<Rightarrow> 'd delay_queue \<Rightarrow> 'd list \<times> 'd delay_queue" where
  "take_due now q = (map snd (takeWhile (\<lambda>(k, _). k \<le> now) q), dropWhile (\<lambda>(k, _). k \<le> now) q)"

text \<open>
  \<open>arm_delay_timer_locked\<close>: the deadline the timer waits for, if any. \<open>expires_at\<close> cancels an
  earlier wait.
\<close>

definition arm_delay_timer :: "bool \<Rightarrow> 'd delay_queue \<Rightarrow> int option \<Rightarrow> int option" where
  "arm_delay_timer has_executor queue timer =
     (if \<not> has_executor then timer
      else (case queue of [] \<Rightarrow> None | (departure, _) # _ \<Rightarrow> Some departure))"

definition queue_sorted :: "'d delay_queue \<Rightarrow> bool" where
  "queue_sorted q \<longleftrightarrow> sorted (map fst q)"

lemma set_multimap_emplace [simp]: "set (multimap_emplace k v q) = insert (k, v) (set q)"
  by (induction q) (auto split: if_splits)

lemma queue_sorted_emplace: "queue_sorted q \<Longrightarrow> queue_sorted (multimap_emplace k v q)"
  unfolding queue_sorted_def by (induction q rule: multimap_emplace.induct [of _ k v]) auto

lemma take_due_sound:
  assumes "queue_sorted q" and "take_due now q = (due, q')"
  shows "due = map snd (filter (\<lambda>(k, _). k \<le> now) q) \<and> q' = filter (\<lambda>(k, _). now < k) q \<and> queue_sorted q'"
  using assms
proof (induction q arbitrary: due)
  case Nil
  then show ?case by (simp add: take_due_def)
next
  case (Cons a q)
  obtain k v where a: "a = (k, v)" by (cases a)
  have sorted: "queue_sorted q" "\<forall>b\<in>set q. k \<le> fst b"
    using Cons.prems(1) by (auto simp: queue_sorted_def a)
  show ?case
  proof (cases "k \<le> now")
    case True
    with Cons.prems(2) have "take_due now q = (tl due, q')" "due = v # tl due"
      by (auto simp: take_due_def a)
    with Cons.IH [OF sorted(1)] True show ?thesis by (auto simp: a)
  next
    case False
    then have "filter (\<lambda>(k, _). k \<le> now) q = []" "filter (\<lambda>(k, _). now < k) q = q"
      using sorted(2) by (auto simp: filter_empty_conv filter_id_conv)
    with False Cons.prems show ?thesis by (auto simp: take_due_def a)
  qed
qed

section \<open>Scheduling a packet after the fault model\<close>

text \<open>
  The loop body of \<open>route\<close> over the packets that the fault model lets through: what goes out at
  once, and the queue and timer afterwards. \<open>delay\<close> wraps a packet for the queue.
\<close>

definition schedule_faulted ::
  "track_env \<Rightarrow> rtp_fault_config \<Rightarrow> bool \<Rightarrow> bool \<Rightarrow> (packet \<Rightarrow> 'd) \<Rightarrow> packet
     \<Rightarrow> link_model_state \<Rightarrow> 'd delay_queue \<Rightarrow> int option
     \<Rightarrow> packet list \<times> link_model_state \<times> 'd delay_queue \<times> int option" where
  "schedule_faulted e config has_executor rtcp delay packet link_state queue timer =
     (if rtcp \<or> \<not> link_enabled (link_model config) then ([packet], link_state, queue, timer)
      else
        (case schedule_packet_departure (link_model config) link_state (te_now_us e) (length packet) of
           (None, link_state1) \<Rightarrow> ([], link_state1, queue, timer)
         | (Some scheduled, link_state1) \<Rightarrow>
             let copies = (if is_duplicate scheduled then 2 else 1)
             in if departure_us scheduled \<le> te_now_us e \<or> \<not> has_executor
                then (replicate copies packet, link_state1, queue, timer)
                else
                  (let queue1 = ((multimap_emplace (departure_us scheduled) (delay packet)) ^^ copies) queue
                   in ([], link_state1, queue1, arm_delay_timer has_executor queue1 timer))))"

fun schedule_all ::
  "track_env \<Rightarrow> rtp_fault_config \<Rightarrow> bool \<Rightarrow> bool \<Rightarrow> (packet \<Rightarrow> 'd) \<Rightarrow> packet list
     \<Rightarrow> link_model_state \<Rightarrow> 'd delay_queue \<Rightarrow> int option
     \<Rightarrow> packet list \<times> link_model_state \<times> 'd delay_queue \<times> int option" where
  "schedule_all e config has_executor rtcp delay [] link_state queue timer = ([], link_state, queue, timer)"
| "schedule_all e config has_executor rtcp delay (packet # packets) link_state queue timer =
     (let (immediate, link_state1, queue1, timer1) =
            schedule_faulted e config has_executor rtcp delay packet link_state queue timer;
          (immediate', link_state2, queue2, timer2) =
            schedule_all e config has_executor rtcp delay packets link_state1 queue1 timer1
      in (immediate @ immediate', link_state2, queue2, timer2))"

definition faulted_packets :: "rtp_fault_result \<Rightarrow> packet list" where
  "faulted_packets r = List.map_filter (\<lambda>p. p) [first_packet r, second_packet r]"

lemma queue_sorted_emplace_n: "queue_sorted q \<Longrightarrow> queue_sorted ((multimap_emplace k v ^^ n) q)"
  by (induction n) (auto intro: queue_sorted_emplace)

lemma schedule_all_sorted:
  assumes "schedule_all e config ex rtcp delay packets ls queue timer = (imm, ls', queue', timer')"
    and "queue_sorted queue"
  shows "queue_sorted queue'"
  using assms
proof (induction packets arbitrary: ls queue timer imm)
  case Nil
  then show ?case by simp
next
  case (Cons p packets)
  obtain i ls1 q1 t1 where one: "schedule_faulted e config ex rtcp delay p ls queue timer = (i, ls1, q1, t1)"
    by (metis prod_cases4)
  have "queue_sorted q1"
    using one Cons.prems(2)
    by (auto simp: schedule_faulted_def Let_def intro: queue_sorted_emplace_n queue_sorted_emplace
        split: if_splits prod.splits option.splits)
  with Cons one show ?case by (auto simp: Let_def split: prod.splits)
qed

end
