(* ===== verification/Voice_Router.thy ===== *)
theory Voice_Router
  imports Sfu_Forwarding
begin

text \<open>
  The voice SFU, \<^verbatim>\<open>backend/signaling_server/src/voice_router.cpp\<close>: every peer publishes at most
  one audio track and has output slots, and every publisher is bound to a slot of every other
  peer as long as slots are free. The operations take the answers of the tracks and the clock
  (\<open>track_env\<close>) and return the calls they make. \<open>publish_mutex\<close> serialises the operations that
  publish bindings; \<open>mutex\<close> is released before packets are sent, so \<open>route\<close> and
  \<open>forward_delayed\<close> are split into the locked part, which collects targets, and the sending.
\<close>

section \<open>State\<close>

record output_slot =
  slot_mid :: string
  slot_ssrc :: u32
  slot_track :: "track_id option"
  slot_publisher :: "peer_id option"
  slot_rewriter :: nat
  slot_generation :: u64

record voice_peer =
  vp_order :: u64
  vp_input :: "track_id option"
  vp_input_mid_extension_id :: "byte option"
  vp_fault_state :: rtp_fault_state
  vp_link_state :: link_model_state
  vp_outputs :: "output_slot list"
  vp_send_binding :: binding_sender

record voice_delayed =
  vd_publisher :: peer_id
  vd_expected_input :: "track_id option"
  vd_packet :: packet

record voice_notice =
  vn_send :: binding_sender
  vn_mid :: string
  vn_publisher :: "peer_id option"
  vn_output :: "track_id option"
  vn_ssrc :: u32

record voice_router =
  vr_peers :: "(peer_id \<times> voice_peer) list"
  vr_fault_config :: rtp_fault_config
  vr_next_peer_order :: u64
  vr_closed :: bool
  vr_executor :: bool
  vr_delay_timer :: "int option"
  vr_delay_queue :: "voice_delayed delay_queue"
  vr_packets_in :: u64
  vr_packets_out :: u64
  vr_bytes_out :: u64
  vr_rewriters :: heap
  vr_next_rewriter :: nat

definition new_voice_router :: "rtp_fault_config \<Rightarrow> bool \<Rightarrow> voice_router" where
  "new_voice_router config executor =
     \<lparr>vr_peers = [], vr_fault_config = config, vr_next_peer_order = 0, vr_closed = False,
      vr_executor = executor, vr_delay_timer = None, vr_delay_queue = [],
      vr_packets_in = 0, vr_packets_out = 0, vr_bytes_out = 0,
      vr_rewriters = (\<lambda>_. new_rewriter 48000 960), vr_next_rewriter = 0\<rparr>"

definition new_voice_peer :: "u64 \<Rightarrow> voice_peer" where
  "new_voice_peer order =
     \<lparr>vp_order = order, vp_input = None, vp_input_mid_extension_id = None,
      vp_fault_state = new_fault_state, vp_link_state = new_link_state, vp_outputs = [],
      vp_send_binding = None\<rparr>"

definition voice_peer_for :: "peer_id \<Rightarrow> voice_router \<Rightarrow> voice_router" where
  "voice_peer_for pid s =
     (case map_of (vr_peers s) pid of
        Some _ \<Rightarrow> s
      | None \<Rightarrow> s\<lparr>vr_peers := vr_peers s @ [(pid, new_voice_peer (vr_next_peer_order s))],
                  vr_next_peer_order := vr_next_peer_order s + 1\<rparr>)"

definition ordered_voice_peers :: "voice_router \<Rightarrow> peer_id list" where
  "ordered_voice_peers s =
     map rank_id (sort (map (\<lambda>(pid, p). PeerRank (vp_order p) pid) (vr_peers s)))"

section \<open>Assigning publishers to slots\<close>

abbreviation put_outputs :: "output_slot list \<Rightarrow> voice_peer \<Rightarrow> voice_peer" where
  "put_outputs xs p \<equiv> p\<lparr>vp_outputs := xs\<rparr>"

definition free_slot :: "track_env \<Rightarrow> output_slot \<Rightarrow> bool" where
  "free_slot e x \<longleftrightarrow> slot_publisher x = None \<and> \<not> expired e (slot_track x)"

definition claim_slot :: "peer_id \<Rightarrow> output_slot \<Rightarrow> heap \<Rightarrow> output_slot \<times> heap" where
  "claim_slot pid x h =
     (let (g, r) = begin_source (h (slot_rewriter x))
      in (x\<lparr>slot_publisher := Some pid, slot_generation := g\<rparr>, h(slot_rewriter x := r)))"

definition voice_eligible :: "track_env \<Rightarrow> (peer_id \<times> voice_peer) list \<Rightarrow> peer_id \<Rightarrow> peer_id \<Rightarrow> bool" where
  "voice_eligible e peers sid pid \<longleftrightarrow>
     pid \<noteq> sid \<and> (case map_of peers pid of None \<Rightarrow> False | Some p \<Rightarrow> \<not> expired e (vp_input p))"

definition slot_notice :: "voice_peer \<Rightarrow> output_slot \<Rightarrow> peer_id option \<Rightarrow> voice_notice" where
  "slot_notice subscriber x publisher =
     \<lparr>vn_send = vp_send_binding subscriber, vn_mid = slot_mid x, vn_publisher = publisher,
      vn_output = slot_track x, vn_ssrc = slot_ssrc x\<rparr>"

definition claim_notice ::
  "(peer_id \<times> voice_peer) list \<Rightarrow> peer_id \<times> peer_id \<times> output_slot \<Rightarrow> voice_notice list" where
  "claim_notice peers c =
     (case c of (sid, pid, x) \<Rightarrow>
        (case map_of peers sid of None \<Rightarrow> [] | Some p \<Rightarrow> [slot_notice p x (Some pid)]))"

definition assign_voice :: "track_env \<Rightarrow> voice_router \<Rightarrow> voice_router \<times> voice_notice list" where
  "assign_voice e s =
     (let ordered = ordered_voice_peers s;
          (peers, h, claims) =
            assign_peers vp_outputs put_outputs slot_publisher (free_slot e) claim_slot
              (\<lambda>_. ordered) (voice_eligible e (vr_peers s)) ordered (vr_peers s) (vr_rewriters s)
      in (s\<lparr>vr_peers := peers, vr_rewriters := h\<rparr>,
          concat (map (claim_notice (vr_peers s)) claims)))"

section \<open>Publishing bindings\<close>

definition slot_cname :: "u32 \<Rightarrow> string" where
  "slot_cname ssrc = ''driscord-voice-slot-'' @ to_string (unat ssrc)"

definition publish_voice_notice :: "track_env \<Rightarrow> voice_notice \<Rightarrow> sfu_effect list" where
  "publish_voice_notice e n =
     (case lock_track e (vn_output n) of
        None \<Rightarrow> []
      | Some output \<Rightarrow>
          (case vn_publisher n of
             Some _ \<Rightarrow>
               [SetSrReporter output (vn_ssrc n) (slot_cname (vn_ssrc n))
                  (primary_rtp_format (te_description e output) ''audio'') None]
           | None \<Rightarrow> [ClearMediaHandler output]))
     @ (case vn_send n of None \<Rightarrow> [] | Some send \<Rightarrow> [SendBinding send (vn_mid n) (vn_publisher n)])"

definition publish_voice :: "track_env \<Rightarrow> voice_notice list \<Rightarrow> sfu_effect list" where
  "publish_voice e notices = concat (map (publish_voice_notice e) notices)"

section \<open>Registering tracks\<close>

text \<open>\<open>begin_source\<close> for the slots of \<open>owner\<close>, and \<open>end_source\<close> with a reset.\<close>

definition restart_slot :: "peer_id \<Rightarrow> output_slot \<Rightarrow> heap \<Rightarrow> output_slot \<times> heap" where
  "restart_slot owner x h =
     (if slot_publisher x = Some owner then
        (let (g, r) = begin_source (h (slot_rewriter x))
         in (x\<lparr>slot_generation := g\<rparr>, h(slot_rewriter x := r)))
      else (x, h))"

definition release_slot :: "peer_id \<Rightarrow> output_slot \<Rightarrow> heap \<Rightarrow> output_slot \<times> heap" where
  "release_slot pid x h =
     (if slot_publisher x = Some pid then
        (x\<lparr>slot_generation := 0, slot_publisher := None\<rparr>,
         h(slot_rewriter x := end_source (h (slot_rewriter x))))
      else (x, h))"

definition notices_for :: "peer_id \<Rightarrow> peer_id option \<Rightarrow> (peer_id \<times> voice_peer) list \<Rightarrow> voice_notice list" where
  "notices_for owner publisher peers =
     concat (map (\<lambda>(k, p). map (\<lambda>x. slot_notice p x publisher)
                   (filter (\<lambda>x. slot_publisher x = Some owner) (vp_outputs p))) peers)"

text \<open>The owner's entry after a new input: a changed source starts with fresh fault and link state.\<close>

definition voice_source_changed ::
  "track_env \<Rightarrow> (peer_id \<times> voice_peer) list \<Rightarrow> peer_id \<Rightarrow> track_id \<Rightarrow> bool" where
  "voice_source_changed e peers owner track \<longleftrightarrow>
     (case map_of peers owner of
        None \<Rightarrow> True | Some p \<Rightarrow> lock_track e (vp_input p) \<noteq> Some track)"

definition set_voice_input ::
  "bool \<Rightarrow> track_id \<Rightarrow> byte option \<Rightarrow> binding_sender \<Rightarrow> voice_peer \<Rightarrow> voice_peer" where
  "set_voice_input source_changed track mid_id send_binding p =
     (if source_changed
      then p\<lparr>vp_fault_state := new_fault_state, vp_link_state := new_link_state\<rparr> else p)
     \<lparr>vp_input := Some track, vp_input_mid_extension_id := mid_id, vp_send_binding := send_binding\<rparr>"

definition register_voice_input ::
  "track_env \<Rightarrow> voice_router \<Rightarrow> peer_id \<Rightarrow> track_id \<Rightarrow> binding_sender
     \<Rightarrow> sfu_effect list \<times> voice_router" where
  "register_voice_input e s owner track send_binding =
     (let description = te_description e track;
          setup = [SetDescription track (apply_forwarding_feedback_policy description) None,
                   SetReceivingSession track, OnMessageRoute track owner ''audio'']
      in if vr_closed s then (setup, s)
         else
           (let s1 = voice_peer_for owner s;
                source_changed = voice_source_changed e (vr_peers s1) owner track;
                peers1 =
                  adjust owner (set_voice_input source_changed track (mid_extension_id description)
                    send_binding) (vr_peers s1);
                (peers2, h) =
                  (if source_changed
                   then update_peers vp_outputs put_outputs (restart_slot owner) peers1 (vr_rewriters s1)
                   else (peers1, vr_rewriters s1));
                notices = (if source_changed then notices_for owner (Some owner) peers1 else []);
                (s2, assigned) = assign_voice e (s1\<lparr>vr_peers := peers2, vr_rewriters := h\<rparr>)
            in (setup @ publish_voice e (notices @ assigned), s2)))"

text \<open>A new slot, with a new rewriter at the reference \<open>ref\<close>.\<close>

definition new_output_slot :: "string \<Rightarrow> u32 \<Rightarrow> track_id \<Rightarrow> nat \<Rightarrow> output_slot" where
  "new_output_slot mid ssrc track ref =
     \<lparr>slot_mid = mid, slot_ssrc = ssrc, slot_track = Some track, slot_publisher = None,
      slot_rewriter = ref, slot_generation = 0\<rparr>"

text \<open>
  Placing the output of a peer: a slot with the same mid is released and replaced, otherwise a
  slot is added. The list holds the slot that was released while bound.
\<close>

fun place_output ::
  "string \<Rightarrow> u32 \<Rightarrow> track_id \<Rightarrow> nat \<Rightarrow> output_slot list \<Rightarrow> heap
     \<Rightarrow> output_slot list \<times> heap \<times> output_slot list" where
  "place_output mid ssrc track ref [] h = ([new_output_slot mid ssrc track ref], h, [])"
| "place_output mid ssrc track ref (x # xs) h =
     (if slot_mid x = mid then
        (if slot_publisher x \<noteq> None
         then (new_output_slot mid ssrc track ref # xs,
               h(slot_rewriter x := end_source (h (slot_rewriter x))), [x])
         else (new_output_slot mid ssrc track ref # xs, h, []))
      else
        (let (xs', h', released) = place_output mid ssrc track ref xs h
         in (x # xs', h', released)))"

definition register_voice_output ::
  "track_env \<Rightarrow> u32 \<Rightarrow> voice_router \<Rightarrow> peer_id \<Rightarrow> track_id \<Rightarrow> binding_sender
     \<Rightarrow> sfu_effect list \<times> u32 \<times> voice_router" where
  "register_voice_output e counter s owner track send_binding =
     (let description = te_description e track;
          (ssrc, counter1) = allocate_slot_ssrc counter;
          mid = te_mid e track;
          cname = slot_cname ssrc;
          setup = [SetDescription track (apply_forwarding_feedback_policy description)
                     (Some (ssrc, cname, ''driscord-voice'', cname)),
                   OnMessageIgnore track]
      in if vr_closed s then (setup, counter1, s)
         else
           (let s1 = voice_peer_for owner s;
                peers1 = adjust owner (\<lambda>p. p\<lparr>vp_send_binding := send_binding\<rparr>) (vr_peers s1);
                ref = vr_next_rewriter s1;
                outputs = (case map_of peers1 owner of None \<Rightarrow> [] | Some p \<Rightarrow> vp_outputs p);
                (outputs1, h, released) = place_output mid ssrc track ref outputs (vr_rewriters s1);
                notices = concat (map (\<lambda>x. case map_of peers1 owner of
                                              None \<Rightarrow> [] | Some p \<Rightarrow> [slot_notice p x None]) released);
                s2 = s1\<lparr>vr_peers := adjust owner (put_outputs outputs1) peers1,
                        vr_rewriters := h(ref := new_rewriter 48000 960),
                        vr_next_rewriter := ref + 1\<rparr>;
                (s3, assigned) = assign_voice e s2
            in (setup @ publish_voice e (notices @ assigned), counter1, s3)))"

text \<open>\<open>register_track\<close> with a non-null track.\<close>

definition register_voice_track ::
  "track_env \<Rightarrow> u32 \<Rightarrow> voice_router \<Rightarrow> peer_id \<Rightarrow> track_id option \<Rightarrow> binding_sender
     \<Rightarrow> sfu_effect list \<times> u32 \<times> voice_router" where
  "register_voice_track e counter s owner track send_binding =
     (case track of
        None \<Rightarrow> ([], counter, s)
      | Some t \<Rightarrow>
          if te_media_type e t \<noteq> ''audio'' then ([], counter, s)
          else
            (case te_direction e t of
               RecvOnly \<Rightarrow>
                 (let (es, s1) = register_voice_input e s owner t send_binding in (es, counter, s1))
             | SendOnly \<Rightarrow> register_voice_output e counter s owner t send_binding
             | _ \<Rightarrow> ([], counter, s)))"

section \<open>Removing a peer, closing, statistics\<close>

definition remove_voice_peer :: "track_env \<Rightarrow> voice_router \<Rightarrow> peer_id \<Rightarrow> sfu_effect list \<times> voice_router" where
  "remove_voice_peer e s pid =
     (if vr_closed s then ([], s)
      else
        (let peers1 = AList.delete pid (vr_peers s);
             notices = notices_for pid None peers1;
             (peers2, h) = update_peers vp_outputs put_outputs (release_slot pid) peers1 (vr_rewriters s);
             (s1, reassigned) = assign_voice e (s\<lparr>vr_peers := peers2, vr_rewriters := h\<rparr>)
         in (publish_voice e (notices @ reassigned), s1)))"

definition update_voice_fault_config :: "rtp_fault_config \<Rightarrow> voice_router \<Rightarrow> voice_router" where
  "update_voice_fault_config config s = s\<lparr>vr_fault_config := config\<rparr>"

definition voice_tracks :: "track_env \<Rightarrow> (peer_id \<times> voice_peer) list \<Rightarrow> track_id list" where
  "voice_tracks e peers =
     concat (map (\<lambda>(k, p). List.map_filter (lock_track e)
                    (vp_input p # map slot_track (vp_outputs p))) peers)"

definition close_voice :: "track_env \<Rightarrow> voice_router \<Rightarrow> sfu_effect list \<times> voice_router" where
  "close_voice e s =
     (if vr_closed s then ([], s)
      else
        (concat (map (\<lambda>t. [ClearOnMessage t, ClearMediaHandler t]) (voice_tracks e (vr_peers s))),
         s\<lparr>vr_closed := True, vr_delay_queue := [], vr_delay_timer := None, vr_peers := []\<rparr>))"

record voice_stats =
  vs_publishers :: nat
  vs_bound_slots :: nat
  vs_packets_in :: u64
  vs_packets_out :: u64
  vs_bytes_out :: u64

definition voice_router_stats :: "track_env \<Rightarrow> voice_router \<Rightarrow> voice_stats" where
  "voice_router_stats e s =
     \<lparr>vs_publishers = length (filter (\<lambda>(k, p). \<not> expired e (vp_input p)) (vr_peers s)),
      vs_bound_slots =
        sum_list (map (\<lambda>(k, p). length (filter (\<lambda>x. slot_publisher x \<noteq> None) (vp_outputs p))) (vr_peers s)),
      vs_packets_in = vr_packets_in s, vs_packets_out = vr_packets_out s,
      vs_bytes_out = vr_bytes_out s\<rparr>"

section \<open>Routing packets\<close>

definition slot_target :: "output_slot \<Rightarrow> target" where
  "slot_target x =
     \<lparr>tg_track = slot_track x, tg_ssrc = slot_ssrc x, tg_rewriter = slot_rewriter x,
      tg_generation = slot_generation x\<rparr>"

definition collect_voice_targets :: "voice_router \<Rightarrow> peer_id \<Rightarrow> target list" where
  "collect_voice_targets s publisher =
     map slot_target (filter (\<lambda>x. slot_publisher x = Some publisher) (slots vp_outputs (vr_peers s)))"

text \<open>What the locked part leaves to be sent: targets, MID extension and packets.\<close>

type_synonym pending = "(target list \<times> byte option \<times> packet list) option"

definition route_voice_locked ::
  "track_env \<Rightarrow> voice_router \<Rightarrow> peer_id \<Rightarrow> track_id option \<Rightarrow> packet
     \<Rightarrow> sfu_effect list \<times> pending \<times> voice_router" where
  "route_voice_locked e s publisher expected_input packet =
     (if vr_closed s then ([], None, s)
      else
        (case map_of (vr_peers s) publisher of
           None \<Rightarrow> ([], None, s)
         | Some source \<Rightarrow>
             if lock_track e (vp_input source) \<noteq> lock_track e expected_input then ([], None, s)
             else
               (let rtcp = te_is_rtcp e packet;
                    s1 = (if rtcp then s else s\<lparr>vr_packets_in := vr_packets_in s + 1\<rparr>)
                in if \<not> rtcp \<and> link_down (vr_fault_config s1) then ([], None, s1)
                   else
                     (let (faulted, fault_state) =
                            apply_rtp_faults (te_is_rtcp e) (vr_fault_config s1) (vp_fault_state source) packet;
                          (immediate, link_state, queue, timer) =
                            schedule_all e (vr_fault_config s1) (vr_executor s1) rtcp
                              (\<lambda>pk. \<lparr>vd_publisher = publisher, vd_expected_input = expected_input,
                                    vd_packet = pk\<rparr>)
                              (faulted_packets faulted) (vp_link_state source)
                              (vr_delay_queue s1) (vr_delay_timer s1);
                          s2 = s1\<lparr>vr_peers := adjust publisher
                                    (\<lambda>p. p\<lparr>vp_fault_state := fault_state, vp_link_state := link_state\<rparr>)
                                    (vr_peers s1),
                                  vr_delay_queue := queue, vr_delay_timer := timer\<rparr>;
                          taps = (case tapped faulted of None \<Rightarrow> [] | Some p \<Rightarrow> [TapPacket p])
                      in if immediate = [] then (taps, None, s2)
                         else (taps,
                               Some (collect_voice_targets s2 publisher,
                                     vp_input_mid_extension_id source, immediate), s2)))))"

definition send_voice_packets ::
  "track_env \<Rightarrow> voice_router \<Rightarrow> pending \<Rightarrow> sfu_effect list \<times> voice_router" where
  "send_voice_packets e s pend =
     (case pend of
        None \<Rightarrow> ([], s)
      | Some (targets, mid_id, outgoing) \<Rightarrow>
          (let (es, h, sizes) = send_packets_loop e mid_id targets outgoing (vr_rewriters s)
           in (es, s\<lparr>vr_rewriters := h,
                     vr_packets_out := vr_packets_out s + of_nat (length sizes),
                     vr_bytes_out := vr_bytes_out s + of_nat (sum_list sizes)\<rparr>)))"

definition route_voice ::
  "track_env \<Rightarrow> voice_router \<Rightarrow> peer_id \<Rightarrow> track_id option \<Rightarrow> packet \<Rightarrow> sfu_effect list \<times> voice_router" where
  "route_voice e s publisher expected_input packet =
     (let (es, pend, s1) = route_voice_locked e s publisher expected_input packet;
          (es', s2) = send_voice_packets e s1 pend
      in (es @ es', s2))"

text \<open>The timer's callback: the due packets are taken under the lock and forwarded one by one.\<close>

definition flush_voice_locked :: "track_env \<Rightarrow> voice_router \<Rightarrow> voice_delayed list \<times> voice_router" where
  "flush_voice_locked e s =
     (if vr_closed s then ([], s)
      else
        (let (due, queue) = take_due (te_now_us e) (vr_delay_queue s)
         in (due, s\<lparr>vr_delay_queue := queue,
                    vr_delay_timer := arm_delay_timer (vr_executor s) queue (vr_delay_timer s)\<rparr>)))"

definition forward_voice_locked :: "track_env \<Rightarrow> voice_router \<Rightarrow> voice_delayed \<Rightarrow> pending \<times> voice_router" where
  "forward_voice_locked e s item =
     (if vr_closed s then (None, s)
      else
        (case map_of (vr_peers s) (vd_publisher item) of
           None \<Rightarrow> (None, s)
         | Some source \<Rightarrow>
             if lock_track e (vp_input source) \<noteq> lock_track e (vd_expected_input item) then (None, s)
             else
               (let queued = queued_packets (vp_link_state source);
                    s1 = (if 0 < queued
                          then s\<lparr>vr_peers := adjust (vd_publisher item)
                                   (\<lambda>p. p\<lparr>vp_link_state := (vp_link_state p)\<lparr>queued_packets := queued - 1\<rparr>\<rparr>)
                                   (vr_peers s)\<rparr>
                          else s)
                in (Some (collect_voice_targets s1 (vd_publisher item),
                          vp_input_mid_extension_id source, [vd_packet item]), s1))))"

fun forward_voice_all :: "track_env \<Rightarrow> voice_router \<Rightarrow> voice_delayed list \<Rightarrow> sfu_effect list \<times> voice_router" where
  "forward_voice_all e s [] = ([], s)"
| "forward_voice_all e s (item # items) =
     (let (pend, s1) = forward_voice_locked e s item;
          (es, s2) = send_voice_packets e s1 pend;
          (es', s3) = forward_voice_all e s2 items
      in (es @ es', s3))"

definition flush_voice_delayed :: "track_env \<Rightarrow> voice_router \<Rightarrow> sfu_effect list \<times> voice_router" where
  "flush_voice_delayed e s =
     (let (due, s1) = flush_voice_locked e s in forward_voice_all e s1 due)"

section \<open>The slot operations of the router obey the slot contracts\<close>

abbreviation slot_refs :: "output_slot \<Rightarrow> nat set" where
  "slot_refs x \<equiv> {slot_rewriter x}"

text \<open>What a target collected for the slot holds, besides the reference: who is bound and how.\<close>

definition slot_view :: "output_slot \<Rightarrow> nat \<Rightarrow> (peer_id \<times> target) option" where
  "slot_view x r = map_option (\<lambda>p. (p, slot_target x)) (slot_publisher x)"

lemma begin_source_generation:
  "begin_source r = (generation r + 1, r\<lparr>generation := generation r + 1, source_initialized := False\<rparr>)"
  by (simp add: begin_source_def)

interpretation restart: slot_operation slot_refs "restart_slot owner" for owner
  by unfold_locales (auto simp: restart_slot_def begin_source_generation Let_def)

interpretation release: slot_operation slot_refs "release_slot pid" for pid
  by unfold_locales (auto simp: release_slot_def Let_def)

interpretation vt: lawful_slot_table slot_refs "free_slot e" slot_publisher claim_slot vp_outputs
  put_outputs "\<lambda>_. ordered" slot_view 1 for e ordered
  by unfold_locales
    (auto simp: claim_slot_def begin_source_generation free_slot_def lawful_def bumped_def Let_def)

lemma claim_slot_fields [simp]:
  "slot_mid (fst (claim_slot p x h)) = slot_mid x"
  "slot_rewriter (fst (claim_slot p x h)) = slot_rewriter x"
  "slot_publisher (fst (claim_slot p x h)) = Some p"
  "slot_generation (fst (claim_slot p x h)) = generation (snd (claim_slot p x h) (slot_rewriter x))"
  by (simp_all add: claim_slot_def begin_source_generation)

lemma restart_slot_fields [simp]:
  "slot_mid (fst (restart_slot p x h)) = slot_mid x"
  "slot_rewriter (fst (restart_slot p x h)) = slot_rewriter x"
  "slot_publisher (fst (restart_slot p x h)) = slot_publisher x"
  by (simp_all add: restart_slot_def begin_source_generation)

lemma release_slot_fields [simp]:
  "slot_mid (fst (release_slot p x h)) = slot_mid x"
  "slot_rewriter (fst (release_slot p x h)) = slot_rewriter x"
  "slot_publisher (fst (release_slot p x h)) = (if slot_publisher x = Some p then None else slot_publisher x)"
  by (simp_all add: release_slot_def)

lemma restart_slot_lawful: "lawful slot_refs slot_view 1 x h (fst (restart_slot p x h)) (snd (restart_slot p x h))"
  by (auto simp: restart_slot_def begin_source_generation lawful_def bumped_def)

lemma release_slot_lawful: "lawful slot_refs slot_view 1 x h (fst (release_slot p x h)) (snd (release_slot p x h))"
  by (auto simp: release_slot_def end_source_def lawful_def bumped_def)

section \<open>The invariant of the binding table\<close>

text \<open>
  \<open>P\<close> is the set of peers that have published an input. A bound slot names one of them, never
  its own peer, and carries the current generation of its rewriter; a peer's slots have distinct
  mids and distinct publishers; rewriters are not shared between slots.
\<close>

definition voice_slot_ok :: "peer_id set \<Rightarrow> heap \<Rightarrow> peer_id \<Rightarrow> output_slot \<Rightarrow> bool" where
  "voice_slot_ok P h k x \<longleftrightarrow>
     (case slot_publisher x of
        None \<Rightarrow> True
      | Some q \<Rightarrow> q \<noteq> k \<and> q \<in> P \<and> slot_generation x = generation (h (slot_rewriter x)))"

definition slot_publishers :: "output_slot list \<Rightarrow> peer_id list" where
  "slot_publishers xs = List.map_filter slot_publisher xs"

definition voice_outputs_ok :: "peer_id set \<Rightarrow> heap \<Rightarrow> peer_id \<Rightarrow> output_slot list \<Rightarrow> bool" where
  "voice_outputs_ok P h k xs \<longleftrightarrow>
     distinct (map slot_mid xs) \<and> distinct (slot_publishers xs) \<and> (\<forall>x\<in>set xs. voice_slot_ok P h k x)"

definition voice_table_ok :: "peer_id set \<Rightarrow> (peer_id \<times> voice_peer) list \<Rightarrow> heap \<Rightarrow> nat \<Rightarrow> bool" where
  "voice_table_ok P peers h n \<longleftrightarrow>
     distinct (keys peers) \<and> pairwise_disjoint slot_refs (slots vp_outputs peers) \<and>
     (\<forall>x\<in>set (slots vp_outputs peers). slot_rewriter x < n) \<and>
     (\<forall>(k, p)\<in>set peers. voice_outputs_ok P h k (vp_outputs p))"

lemma publishers_voice: "vt.publishers = slot_publishers"
  by (simp add: fun_eq_iff vt.publishers_def slot_publishers_def)

lemma list_all2_mids:
  assumes "list_all2 R xs ys" and "\<And>x y. R x y \<Longrightarrow> slot_mid y = slot_mid x"
  shows "map slot_mid ys = map slot_mid xs"
  using assms(1) by (induction rule: list_all2_induct) (simp_all add: assms(2))

lemma kept_or_claimed_ok:
  assumes "vt.kept_or_claimed e eligible x h y h'" and "voice_slot_ok P h k x"
    and "\<And>q. eligible q \<Longrightarrow> q \<noteq> k \<and> q \<in> P"
  shows "voice_slot_ok P h' k y" and "slot_mid y = slot_mid x" and "slot_rewriter y = slot_rewriter x"
  using assms by (auto simp: vt.kept_or_claimed_def voice_slot_ok_def split: option.splits)

lemma assign_peers_ok:
  assumes ok: "voice_table_ok P peers h n"
    and run: "assign_peers vp_outputs put_outputs slot_publisher (free_slot e) claim_slot (\<lambda>_. ordered)
           eligible subs peers h = (peers', h', claims)"
    and eligible: "\<And>k q. eligible k q \<Longrightarrow> q \<noteq> k \<and> q \<in> P"
  shows "voice_table_ok P peers' h' n"
proof -
  have wf: "distinct (keys peers)" "pairwise_disjoint slot_refs (slots vp_outputs peers)"
    using ok by (simp_all add: voice_table_ok_def)
  note rel = conjunct1 [OF vt.assign_peers_related [OF run wf]]
  note refs = vt.assigned_slots_refs [OF rel]
  have outputs: "voice_outputs_ok P h' k (vp_outputs p')" if in_peers': "(k, p') \<in> set peers'" for k p'
  proof -
    have "map_of peers' k = Some p'"
      using in_peers' wf(1) peers_related_keys [OF rel] by simp
    then obtain p where p: "map_of peers k = Some p"
        "vt.assigned_peer e ordered eligible h h' k p p'"
      using peers_related_map_of(2) [OF rel] by blast
    then have "voice_outputs_ok P h k (vp_outputs p)"
      using ok map_of_SomeD [OF p(1)] by (auto simp: voice_table_ok_def)
    moreover have all: "list_all2 (\<lambda>x y. vt.kept_or_claimed e (eligible k) x h y h') (vp_outputs p) (vp_outputs p')"
      and "distinct (slot_publishers (vp_outputs p)) \<longrightarrow> distinct (slot_publishers (vp_outputs p'))"
      using p(2) by (simp_all add: vt.assigned_peer_def publishers_voice)
    moreover have "map slot_mid (vp_outputs p') = map slot_mid (vp_outputs p)"
      using all by (rule list_all2_mids) (auto simp: vt.kept_or_claimed_def)
    ultimately show ?thesis
      unfolding voice_outputs_ok_def
      using kept_or_claimed_ok(1) [of e "eligible k"] eligible
      by (metis (no_types, lifting) list_all2_conv_all_nth in_set_conv_nth nth_mem)
  qed
  moreover have "slot_rewriter ` set (slots vp_outputs peers') = slot_rewriter ` set (slots vp_outputs peers)"
    using vt.refs_slots_cong [OF refs] by auto
  ultimately show ?thesis
    using ok pairwise_disjoint_cong [OF refs] peers_related_keys [OF rel]
    unfolding voice_table_ok_def by (auto simp: image_iff) (metis imageI image_iff)
qed

lemma slot_publishers_simps [simp]:
  "slot_publishers [] = []"
  "slot_publishers (x # xs) =
     (case slot_publisher x of None \<Rightarrow> slot_publishers xs | Some p \<Rightarrow> p # slot_publishers xs)"
  "slot_publishers (xs @ ys) = slot_publishers xs @ slot_publishers ys"
  by (auto simp: slot_publishers_def map_filter_def split: option.splits)

lemma in_slot_publishers: "p \<in> set (slot_publishers xs) \<longleftrightarrow> (\<exists>x\<in>set xs. slot_publisher x = Some p)"
  by (induction xs) (auto split: option.splits)

lemma slot_publishers_map:
  assumes "\<And>x. slot_publisher (g x) = slot_publisher x \<or> slot_publisher (g x) = None"
    and "distinct (slot_publishers xs)"
  shows "distinct (slot_publishers (map g xs)) \<and> set (slot_publishers (map g xs)) \<subseteq> set (slot_publishers xs)"
  using assms(2)
proof (induction xs)
  case (Cons x xs)
  then show ?case using assms(1) [of x] by (auto split: option.splits)
qed simp

lemma update_peers_ok:
  assumes op: "slot_operation slot_refs f"
    and ok: "voice_table_ok P peers h n"
    and run: "update_peers vp_outputs put_outputs f peers h = (peers', h')"
    and fields: "\<And>x h. slot_mid (fst (f x h)) = slot_mid x \<and> slot_rewriter (fst (f x h)) = slot_rewriter x \<and>
           (slot_publisher (fst (f x h)) = slot_publisher x \<or> slot_publisher (fst (f x h)) = None)"
    and slot: "\<And>k x. voice_slot_ok P h k x \<Longrightarrow> voice_slot_ok P' (snd (f x h)) k (fst (f x h))"
  shows "voice_table_ok P' peers' h' n"
proof -
  have wf: "pairwise_disjoint slot_refs (slots vp_outputs peers)"
    using ok by (simp add: voice_table_ok_def)
  note upd = slot_operation.update_peers_map [OF op wf, of put_outputs h, unfolded run fst_conv snd_conv]
  let ?g = "\<lambda>x. fst (f x h)"
  have peers': "peers' = map (\<lambda>(k, p). (k, put_outputs (map ?g (vp_outputs p)) p)) peers"
    using upd by blast
  have slots: "slots vp_outputs peers' = map ?g (slots vp_outputs peers)"
    unfolding peers' by (induction peers) auto
  have "voice_outputs_ok P' h' k (map ?g (vp_outputs p))" if p: "(k, p) \<in> set peers" for k p
  proof -
    have out: "voice_outputs_ok P h k (vp_outputs p)" using ok p by (auto simp: voice_table_ok_def)
    have "voice_slot_ok P' h' k (?g x)" if x: "x \<in> set (vp_outputs p)" for x
    proof -
      have "voice_slot_ok P' (snd (f x h)) k (?g x)"
        using out x slot by (auto simp: voice_outputs_ok_def)
      moreover have "h' (slot_rewriter x) = snd (f x h) (slot_rewriter x)"
        using upd p x by (auto simp: in_slots)
      ultimately show ?thesis using fields [of x h] by (auto simp: voice_slot_ok_def split: option.splits)
    qed
    moreover have "slot_mid \<circ> ?g = slot_mid" using fields by auto
    moreover have "distinct (slot_publishers (map ?g (vp_outputs p)))"
      using slot_publishers_map [of ?g] fields out by (simp add: voice_outputs_ok_def)
    ultimately show ?thesis using out by (simp add: voice_outputs_ok_def)
  qed
  then have "\<forall>(k, p')\<in>set peers'. voice_outputs_ok P' h' k (vp_outputs p')"
    by (auto simp: peers')
  moreover have keys: "keys peers' = keys peers" unfolding peers' by (induction peers) auto
  moreover have "pairwise_disjoint slot_refs (map ?g (slots vp_outputs peers))"
    using wf by (subst pairwise_disjoint_cong [of _ "slots vp_outputs peers"])
      (auto simp: list_all2_map2 fields intro!: list.rel_refl_strong)
  ultimately show ?thesis
    using ok fields unfolding voice_table_ok_def slots keys by auto
qed

lemma restart_peers_ok:
  assumes "voice_table_ok P peers h n"
    and "update_peers vp_outputs put_outputs (restart_slot owner) peers h = (peers', h')"
  shows "voice_table_ok P peers' h' n"
  by (rule update_peers_ok [OF restart.slot_operation_axioms assms])
    (auto simp: voice_slot_ok_def restart_slot_def begin_source_generation split: option.splits)

lemma release_peers_ok:
  assumes "voice_table_ok P peers h n"
    and "update_peers vp_outputs put_outputs (release_slot pid) peers h = (peers', h')"
  shows "voice_table_ok (P - {pid}) peers' h' n"
  by (rule update_peers_ok [OF release.slot_operation_axioms assms])
    (auto simp: voice_slot_ok_def release_slot_def split: option.splits)

lemma voice_table_mono: "voice_table_ok P peers h n \<Longrightarrow> P \<subseteq> Q \<Longrightarrow> voice_table_ok Q peers h n"
  unfolding voice_table_ok_def voice_outputs_ok_def voice_slot_ok_def
  by (fastforce split: option.splits)

lemma voice_table_cong:
  assumes "map_vals vp_outputs peers' = map_vals vp_outputs peers"
  shows "voice_table_ok P peers' h n = voice_table_ok P peers h n"
proof -
  have all: "(\<forall>(k, p)\<in>set ps. Q k (vp_outputs p)) \<longleftrightarrow> (\<forall>(k, xs)\<in>set (map_vals vp_outputs ps). Q k xs)"
    for Q and ps :: "(peer_id \<times> voice_peer) list"
    by (auto simp: map_vals_def)
  have slots: "slots vp_outputs ps = concat (map snd (map_vals vp_outputs ps))" for ps
    by (induction ps) (auto simp: map_vals_def)
  have keys: "keys ps = keys (map_vals vp_outputs ps)" for ps :: "(peer_id \<times> voice_peer) list"
    by simp
  show ?thesis
    unfolding voice_table_ok_def all slots by (subst (1 2) keys) (simp only: assms)
qed

lemma map_vals_adjust:
  "(\<And>p. get (f p) = get p) \<Longrightarrow> map_vals get (adjust k f peers) = map_vals get peers"
  by (induction peers) (auto simp: adjust_def map_vals_def)

lemma voice_table_adjust:
  "(\<And>p. vp_outputs (f p) = vp_outputs p) \<Longrightarrow>
   voice_table_ok P (adjust k f peers) h n = voice_table_ok P peers h n"
  by (intro voice_table_cong map_vals_adjust)

lemma slots_append [simp]: "slots get (ps @ qs) = slots get ps @ slots get qs"
  by (simp add: slots_def)

lemma voice_table_append:
  assumes "voice_table_ok P peers h n" and "k \<notin> set (keys peers)" and "vp_outputs p = []"
  shows "voice_table_ok P (peers @ [(k, p)]) h n"
  using assms by (auto simp: voice_table_ok_def voice_outputs_ok_def)

lemma slots_delete_subset: "set (slots get (AList.delete k peers)) \<subseteq> set (slots get peers)"
  by (induction peers) auto

lemma pairwise_disjoint_delete:
  "pairwise_disjoint refs (slots get peers) \<Longrightarrow> pairwise_disjoint refs (slots get (AList.delete k peers))"
proof (induction peers)
  case (Cons a peers)
  then show ?case using slots_delete_subset [of get k peers] by (cases a) auto
qed simp

lemma voice_table_delete:
  assumes "voice_table_ok P peers h n"
  shows "voice_table_ok P (AList.delete k peers) h n"
  using assms pairwise_disjoint_delete [of slot_refs vp_outputs peers k]
    slots_delete_subset [of vp_outputs k peers] distinct_keys_delete [of peers k]
  unfolding voice_table_ok_def by auto

text \<open>Placing an output.\<close>

lemma place_output_cases:
  assumes "place_output mid ssrc track ref xs h = (ys, h', released)"
  shows "(\<exists>before x after. xs = before @ x # after \<and> mid \<notin> slot_mid ` set before \<and> slot_mid x = mid \<and>
            ys = before @ new_output_slot mid ssrc track ref # after \<and>
            (if slot_publisher x = None then h' = h \<and> released = []
             else h' = h(slot_rewriter x := end_source (h (slot_rewriter x))) \<and> released = [x])) \<or>
         (mid \<notin> slot_mid ` set xs \<and> ys = xs @ [new_output_slot mid ssrc track ref] \<and> h' = h \<and> released = [])"
  using assms
proof (induction xs arbitrary: ys)
  case Nil
  then show ?case by simp
next
  case (Cons a xs)
  show ?case
  proof (cases "slot_mid a = mid")
    case True
    with Cons.prems show ?thesis
      by (intro disjI1 exI [of _ "[]"] exI [of _ a] exI [of _ xs]) (auto split: if_splits)
  next
    case False
    with Cons.prems obtain ys1 where
      rest: "place_output mid ssrc track ref xs h = (ys1, h', released)" and ys: "ys = a # ys1"
      by (auto simp: Let_def split: prod.splits)
    from Cons.IH [OF rest] show ?thesis
    proof (elim disjE exE conjE)
      fix before x after
      assume *: "xs = before @ x # after" "mid \<notin> slot_mid ` set before" "slot_mid x = mid"
        "ys1 = before @ new_output_slot mid ssrc track ref # after"
        "if slot_publisher x = None then h' = h \<and> released = []
         else h' = h(slot_rewriter x := end_source (h (slot_rewriter x))) \<and> released = [x]"
      then show ?thesis
        using False ys by (intro disjI1 exI [of _ "a # before"] exI [of _ x] exI [of _ after]) auto
    qed (use False ys in auto)
  qed
qed

lemma new_output_slot_fields [simp]:
  "slot_mid (new_output_slot mid ssrc track ref) = mid"
  "slot_publisher (new_output_slot mid ssrc track ref) = None"
  "slot_rewriter (new_output_slot mid ssrc track ref) = ref"
  by (simp_all add: new_output_slot_def)

lemma place_output_outputs_ok:
  assumes place: "place_output mid ssrc track ref xs h = (ys, h', released)"
    and ok: "voice_outputs_ok P h k xs"
    and refs: "pairwise_disjoint slot_refs xs" "\<forall>x\<in>set xs. slot_rewriter x < ref"
  shows "voice_outputs_ok P (h'(ref := r)) k ys" and "pairwise_disjoint slot_refs ys"
    and "\<forall>y\<in>set ys. slot_rewriter y \<in> insert ref (slot_rewriter ` set xs)"
    and "\<And>i. i \<notin> slot_rewriter ` set xs \<Longrightarrow> h' i = h i"
proof -
  note cases = place_output_cases [OF place]
  have "voice_outputs_ok P (h'(ref := r)) k ys \<and> pairwise_disjoint slot_refs ys \<and>
    (\<forall>y\<in>set ys. slot_rewriter y \<in> insert ref (slot_rewriter ` set xs)) \<and>
    (\<forall>i. i \<notin> slot_rewriter ` set xs \<longrightarrow> h' i = h i)"
    using cases
  proof (elim disjE exE conjE)
    fix before x after
    assume *: "xs = before @ x # after" "mid \<notin> slot_mid ` set before" "slot_mid x = mid"
      "ys = before @ new_output_slot mid ssrc track ref # after"
      "if slot_publisher x = None then h' = h \<and> released = []
       else h' = h(slot_rewriter x := end_source (h (slot_rewriter x))) \<and> released = [x]"
    have same: "(h'(ref := r)) (slot_rewriter y) = h (slot_rewriter y)"
      if "y \<in> set before \<union> set after" for y
    proof -
      have "slot_rewriter y \<noteq> slot_rewriter x" "slot_rewriter y \<noteq> ref"
        using that refs by (auto simp: *(1))
      with *(5) show ?thesis by (auto split: if_splits)
    qed
    have "voice_slot_ok P (h'(ref := r)) k y" if "y \<in> set ys" for y
    proof (cases "y = new_output_slot mid ssrc track ref")
      case True
      then show ?thesis by (simp add: voice_slot_ok_def)
    next
      case False
      with that *(4) have "y \<in> set before \<union> set after" by auto
      with same [OF this] ok *(1) show ?thesis
        by (auto simp: voice_outputs_ok_def voice_slot_ok_def split: option.splits)
    qed
    moreover have "distinct (slot_publishers ys)"
      using ok *(1,4) by (auto simp: voice_outputs_ok_def split: option.splits)
    moreover have "distinct (map slot_mid ys)" using ok * by (auto simp: voice_outputs_ok_def)
    moreover have "pairwise_disjoint slot_refs ys" using refs *(1,4) by auto
    ultimately show ?thesis using *(1,4,5) by (auto simp: voice_outputs_ok_def split: if_splits)
  next
    assume *: "mid \<notin> slot_mid ` set xs" "ys = xs @ [new_output_slot mid ssrc track ref]" "h' = h"
    have "voice_slot_ok P (h'(ref := r)) k y" if "y \<in> set xs" for y
      using ok that refs(2) *(3) by (auto simp: voice_outputs_ok_def voice_slot_ok_def split: option.splits)
    then show ?thesis
      using ok refs * by (auto simp: voice_outputs_ok_def voice_slot_ok_def)
  qed
  then show "voice_outputs_ok P (h'(ref := r)) k ys" "pairwise_disjoint slot_refs ys"
    "\<forall>y\<in>set ys. slot_rewriter y \<in> insert ref (slot_rewriter ` set xs)"
    "\<And>i. i \<notin> slot_rewriter ` set xs \<Longrightarrow> h' i = h i" by blast+
qed

lemma slots_split:
  assumes "map_of peers k = Some p"
  obtains before after where "peers = before @ (k, p) # after"
  using split_list [OF map_of_SomeD [OF assms]] that by blast

lemma adjust_split:
  assumes "distinct (keys (before @ (k, p) # after))"
  shows "adjust k f (before @ (k, p) # after) = before @ (k, f p) # after"
proof -
  have "adjust k f ps = ps" if "k \<notin> set (keys ps)" for ps
    using that by (induction ps) (auto simp: adjust_def)
  with assms show ?thesis by (auto simp: adjust_def)
qed

lemma place_output_table:
  assumes ok: "voice_table_ok P peers h ref" and k: "map_of peers k = Some p"
    and place: "place_output mid ssrc track ref (vp_outputs p) h = (ys, h', released)"
  shows "voice_table_ok P (adjust k (put_outputs ys) peers) (h'(ref := r)) (ref + 1)"
proof -
  obtain before after where peers: "peers = before @ (k, p) # after"
    using k by (rule slots_split)
  have dist: "distinct (keys (before @ (k, p) # after))" using ok by (simp add: voice_table_ok_def peers)
  have out: "voice_outputs_ok P h k (vp_outputs p)" "pairwise_disjoint slot_refs (vp_outputs p)"
      "\<forall>x\<in>set (vp_outputs p). slot_rewriter x < ref"
    using ok by (auto simp: voice_table_ok_def peers)
  note placed = place_output_outputs_ok [OF place out]
  have "pairwise_disjoint slot_refs (slots vp_outputs before @ vp_outputs p @ slots vp_outputs after)"
    using ok by (simp add: voice_table_ok_def peers)
  then have apart: "\<forall>y\<in>set (vp_outputs p). slot_rewriter x \<noteq> slot_rewriter y"
    if "x \<in> set (slots vp_outputs before) \<union> set (slots vp_outputs after)" for x
    using that unfolding pairwise_disjoint_simps set_append by blast
  have others: "(h'(ref := r)) (slot_rewriter x) = h (slot_rewriter x)"
    if "x \<in> set (slots vp_outputs (before @ after))" for x
  proof -
    have "slot_rewriter x < ref" using that ok by (auto simp: voice_table_ok_def peers)
    moreover have "slot_rewriter x \<notin> slot_rewriter ` set (vp_outputs p)"
      using that apart by force
    ultimately show ?thesis using placed(4) by auto
  qed
  have "voice_outputs_ok P (h'(ref := r)) k' (vp_outputs p')" if p': "(k', p') \<in> set (before @ after)" for k' p'
  proof -
    have "voice_outputs_ok P h k' (vp_outputs p')" using p' ok by (auto simp: voice_table_ok_def peers)
    moreover have "\<forall>x\<in>set (vp_outputs p'). (h'(ref := r)) (slot_rewriter x) = h (slot_rewriter x)"
      using p' others unfolding in_slots by blast
    ultimately show ?thesis
      unfolding voice_outputs_ok_def voice_slot_ok_def by (auto split: option.splits)
  qed
  moreover have "pairwise_disjoint slot_refs (slots vp_outputs (before @ (k, put_outputs ys p) # after))"
  proof -
    have fresh: "slot_rewriter x \<noteq> slot_rewriter y"
      if "x \<in> set (slots vp_outputs before) \<union> set (slots vp_outputs after)" "y \<in> set ys" for x y
    proof -
      from that(1) ok have "slot_rewriter x < ref" by (auto simp: voice_table_ok_def peers)
      moreover from that(2) placed(3) have "slot_rewriter y = ref \<or> slot_rewriter y \<in> slot_rewriter ` set (vp_outputs p)"
        by blast
      ultimately show ?thesis using apart [OF that(1)] by auto
    qed
    have "pairwise_disjoint slot_refs (slots vp_outputs before)"
      "pairwise_disjoint slot_refs (slots vp_outputs after)"
      "\<forall>x\<in>set (slots vp_outputs before). \<forall>y\<in>set (slots vp_outputs after). slot_refs x \<inter> slot_refs y = {}"
      using ok by (simp_all add: voice_table_ok_def peers)
    then show ?thesis using placed(2) fresh by (simp add: ball_Un) (metis UnI1 UnI2)
  qed
  moreover have "\<forall>x\<in>set ys. slot_rewriter x < ref + 1"
    using placed(3) out(3) by fastforce
  ultimately show ?thesis
    using ok placed(1) unfolding voice_table_ok_def peers adjust_split [OF dist]
    by (auto simp: less_Suc_eq)
qed

section \<open>The invariant of the router\<close>

definition voice_publishers :: "(peer_id \<times> voice_peer) list \<Rightarrow> peer_id set" where
  "voice_publishers peers = {q. \<exists>p. map_of peers q = Some p \<and> vp_input p \<noteq> None}"

definition voice_inv :: "voice_router \<Rightarrow> bool" where
  "voice_inv s \<longleftrightarrow>
     voice_table_ok (voice_publishers (vr_peers s)) (vr_peers s) (vr_rewriters s) (vr_next_rewriter s) \<and>
     (vr_closed s \<longrightarrow> vr_peers s = [] \<and> vr_delay_queue s = []) \<and>
     queue_sorted (vr_delay_queue s)"

lemma voice_publishers_adjust:
  assumes "\<And>p. vp_input p \<noteq> None \<Longrightarrow> vp_input (f p) \<noteq> None"
  shows "voice_publishers peers \<subseteq> voice_publishers (adjust k f peers)"
  using assms by (auto simp: voice_publishers_def map_of_adjust)

lemma voice_publishers_related:
  assumes "peers_related R peers peers'" and "\<And>k p p'. R k p p' \<Longrightarrow> vp_input p' = vp_input p"
  shows "voice_publishers peers' = voice_publishers peers"
  unfolding voice_publishers_def using peers_related_map_of [OF assms(1)] assms(2)
  by (metis (mono_tags, lifting))

lemma voice_publishers_cong:
  assumes "map_vals vp_input peers' = map_vals vp_input peers"
  shows "voice_publishers peers' = voice_publishers peers"
proof -
  have "voice_publishers ps = {q. \<exists>t. map_of (map_vals vp_input ps) q = Some (Some t)}" for ps
    by (auto simp: voice_publishers_def map_of_map_vals)
  with assms show ?thesis by simp
qed

lemma update_peers_inputs:
  "update_peers vp_outputs put_outputs f peers h = (peers', h') \<Longrightarrow>
   map_vals vp_input peers' = map_vals vp_input peers"
proof (induction peers arbitrary: h peers' h')
  case (Cons a peers)
  then show ?case by (cases a) (auto simp: map_vals_def Let_def split: prod.splits)
qed (simp add: map_vals_def)

lemma set_ordered_voice_peers: "set (ordered_voice_peers s) = set (keys (vr_peers s))"
  by (force simp: ordered_voice_peers_def)

lemma distinct_ordered_voice_peers:
  assumes "distinct (keys (vr_peers s))"
  shows "distinct (ordered_voice_peers s)"
proof -
  have "distinct (map (\<lambda>(pid, p). PeerRank (vp_order p) pid) (vr_peers s))" (is "distinct (map ?f _)")
  proof (unfold distinct_map, intro conjI inj_onI)
    show "distinct (vr_peers s)" using assms by (simp add: distinct_map)
    fix x y assume "x \<in> set (vr_peers s)" "y \<in> set (vr_peers s)" "?f x = ?f y"
    then show "x = y" using assms by (auto split: prod.splits dest: eq_key_imp_eq_value)
  qed
  moreover have "inj_on rank_id (?f ` set (vr_peers s))"
    using assms by (auto intro!: inj_onI dest: eq_key_imp_eq_value)
  ultimately show ?thesis by (simp add: ordered_voice_peers_def distinct_map)
qed

lemma voice_eligible_publisher:
  "voice_eligible e peers k q \<Longrightarrow> q \<noteq> k \<and> q \<in> voice_publishers peers"
  by (auto simp: voice_eligible_def voice_publishers_def lock_track_def split: option.splits)

lemma assign_voice_ok:
  assumes run: "assign_voice e s = (s', notices)"
    and ok: "voice_table_ok (voice_publishers (vr_peers s)) (vr_peers s) (vr_rewriters s) n"
  obtains peers h claims where
    "s' = s\<lparr>vr_peers := peers, vr_rewriters := h\<rparr>"
    "assign_peers vp_outputs put_outputs slot_publisher (free_slot e) claim_slot
       (\<lambda>_. ordered_voice_peers s) (voice_eligible e (vr_peers s)) (ordered_voice_peers s)
       (vr_peers s) (vr_rewriters s) = (peers, h, claims)"
    "voice_publishers peers = voice_publishers (vr_peers s)"
    "voice_table_ok (voice_publishers (vr_peers s)) peers h n"
    "map_vals vp_input peers = map_vals vp_input (vr_peers s)"
proof -
  obtain peers h claims where a: "assign_peers vp_outputs put_outputs slot_publisher (free_slot e)
      claim_slot (\<lambda>_. ordered_voice_peers s) (voice_eligible e (vr_peers s)) (ordered_voice_peers s)
      (vr_peers s) (vr_rewriters s) = (peers, h, claims)"
    by (metis prod_cases3)
  have "distinct (keys (vr_peers s))" "pairwise_disjoint slot_refs (slots vp_outputs (vr_peers s))"
    using ok by (simp_all add: voice_table_ok_def)
  from vt.assign_peers_related [OF a this]
  have rel: "peers_related (vt.assigned_peer e (ordered_voice_peers s) (voice_eligible e (vr_peers s))
      (vr_rewriters s) h) (vr_peers s) peers" by blast
  have same: "vp_input p' = vp_input p" if "vt.assigned_peer e ordered eligible h1 h2 k p p'"
    for ordered eligible h1 h2 k p p'
  proof -
    from that have "p' = put_outputs (vp_outputs p') p" by (simp add: vt.assigned_peer_def)
    then show ?thesis by (metis voice_peer.select_convs(2) voice_peer.surjective voice_peer.update_convs(6))
  qed
  show ?thesis
  proof (rule that [OF _ a])
    show "s' = s\<lparr>vr_peers := peers, vr_rewriters := h\<rparr>"
      using run a by (simp add: assign_voice_def Let_def)
    show "voice_publishers peers = voice_publishers (vr_peers s)"
      using rel by (rule voice_publishers_related) (rule same)
    show "voice_table_ok (voice_publishers (vr_peers s)) peers h n"
      using ok a by (rule assign_peers_ok) (rule voice_eligible_publisher)
    show "map_vals vp_input peers = map_vals vp_input (vr_peers s)"
      using rel unfolding peers_related_def map_vals_def
      by (induction rule: list_all2_induct) (auto dest: same)
  qed
qed

lemma assign_voice_inv:
  assumes "assign_voice e s = (s', notices)" and "voice_inv s" and "\<not> vr_closed s"
  shows "voice_inv s'"
proof -
  from assms(2) have "voice_table_ok (voice_publishers (vr_peers s)) (vr_peers s) (vr_rewriters s)
      (vr_next_rewriter s)" by (simp add: voice_inv_def)
  from assign_voice_ok [OF assms(1) this] obtain peers h where
    "s' = s\<lparr>vr_peers := peers, vr_rewriters := h\<rparr>"
    "voice_publishers peers = voice_publishers (vr_peers s)"
    "voice_table_ok (voice_publishers (vr_peers s)) peers h (vr_next_rewriter s)" by metis
  with assms(2,3) show ?thesis by (simp add: voice_inv_def)
qed

lemma voice_peer_for_table:
  assumes "voice_table_ok P (vr_peers s) h n"
  shows "voice_table_ok P (vr_peers (voice_peer_for k s)) h n"
    and "map_of (vr_peers (voice_peer_for k s)) k \<noteq> None"
    and "voice_publishers (vr_peers (voice_peer_for k s)) = voice_publishers (vr_peers s)"
proof -
  show "map_of (vr_peers (voice_peer_for k s)) k \<noteq> None"
    by (auto simp: voice_peer_for_def map_add_def split: option.splits)
  show "voice_table_ok P (vr_peers (voice_peer_for k s)) h n"
    using assms by (auto simp: voice_peer_for_def new_voice_peer_def map_of_eq_None_iff
        intro!: voice_table_append split: option.splits)
  show "voice_publishers (vr_peers (voice_peer_for k s)) = voice_publishers (vr_peers s)"
  proof (cases "map_of (vr_peers s) k")
    case None
    then have "map_of (vr_peers (voice_peer_for k s)) q =
        (if q = k then Some (new_voice_peer (vr_next_peer_order s)) else map_of (vr_peers s) q)" for q
      by (auto simp: voice_peer_for_def map_add_def split: option.splits)
    with None show ?thesis by (auto simp: voice_publishers_def new_voice_peer_def)
  qed (simp add: voice_peer_for_def)
qed

lemma voice_peer_for_fields [simp]:
  "vr_closed (voice_peer_for k s) = vr_closed s"
  "vr_rewriters (voice_peer_for k s) = vr_rewriters s"
  "vr_next_rewriter (voice_peer_for k s) = vr_next_rewriter s"
  "vr_delay_queue (voice_peer_for k s) = vr_delay_queue s"
  "vr_fault_config (voice_peer_for k s) = vr_fault_config s"
  by (simp_all add: voice_peer_for_def split: option.splits)

abbreviation voice_slots :: "voice_router \<Rightarrow> output_slot list" where
  "voice_slots s \<equiv> slots vp_outputs (vr_peers s)"

definition voice_lawful :: "nat \<Rightarrow> voice_router \<Rightarrow> voice_router \<Rightarrow> bool" where
  "voice_lawful K s s' \<longleftrightarrow>
     vr_next_rewriter s \<le> vr_next_rewriter s' \<and>
     table_lawful slot_refs slot_view K (vr_next_rewriter s)
       (voice_slots s) (vr_rewriters s) (voice_slots s') (vr_rewriters s')"

lemma voice_lawful_trans:
  assumes "voice_lawful J s s1" and "voice_lawful K s1 s2"
  shows "voice_lawful (J + K) s s2"
proof -
  have "table_lawful slot_refs slot_view K (vr_next_rewriter s) (voice_slots s1) (vr_rewriters s1)
      (voice_slots s2) (vr_rewriters s2)"
    using assms by (auto simp: voice_lawful_def table_lawful_def)
  with assms show ?thesis using table_lawful_trans unfolding voice_lawful_def by fastforce
qed

lemma slots_adjust [simp]:
  "(\<And>p. get (f p) = get p) \<Longrightarrow> slots get (adjust k f peers) = slots get peers"
  by (induction peers) (auto simp: adjust_def)

lemma slots_voice_peer_for [simp]: "voice_slots (voice_peer_for k s) = voice_slots s"
  by (simp add: voice_peer_for_def new_voice_peer_def split: option.splits)

lemma voice_lawful_same:
  assumes "voice_slots s' = voice_slots s"
    and "\<And>r. generation (vr_rewriters s' r) = generation (vr_rewriters s r)"
    and "vr_next_rewriter s' = vr_next_rewriter s"
  shows "voice_lawful K s s'"
  unfolding voice_lawful_def assms(1,3)
  by (intro conjI table_lawful_mono [OF table_lawful_same]) (simp_all add: assms(2))

lemma assign_voice_lawful:
  assumes run: "assign_voice e s = (s', notices)" and ok: "voice_table_ok P (vr_peers s) h n"
  shows "voice_lawful 1 s s'"
proof -
  obtain peers h' claims where a: "assign_peers vp_outputs put_outputs slot_publisher (free_slot e)
      claim_slot (\<lambda>_. ordered_voice_peers s) (voice_eligible e (vr_peers s)) (ordered_voice_peers s)
      (vr_peers s) (vr_rewriters s) = (peers, h', claims)"
    by (metis prod_cases3)
  have wf: "distinct (keys (vr_peers s))" "pairwise_disjoint slot_refs (voice_slots s)"
    using ok by (simp_all add: voice_table_ok_def)
  have "table_lawful slot_refs slot_view 1 m (voice_slots s) (vr_rewriters s) (slots vp_outputs peers) h'" for m
    using vt.assign_peers_lawful [OF a wf] wf(2) by (rule table_lawful_list_all2)
  with run a show ?thesis by (auto simp: assign_voice_def voice_lawful_def Let_def)
qed

lemma place_output_lawful:
  assumes ok: "voice_table_ok P peers h ref" and k: "map_of peers k = Some p"
    and place: "place_output mid ssrc track ref (vp_outputs p) h = (ys, h', released)"
  shows "table_lawful slot_refs slot_view 0 ref (slots vp_outputs peers) h
           (slots vp_outputs (adjust k (put_outputs ys) peers)) (h'(ref := r))"
proof -
  obtain before after where peers: "peers = before @ (k, p) # after"
    using k by (rule slots_split)
  have dist: "distinct (keys (before @ (k, p) # after))" using ok by (simp add: voice_table_ok_def peers)
  have disj: "pairwise_disjoint slot_refs (slots vp_outputs before @ vp_outputs p @ slots vp_outputs after)"
    using ok by (simp add: voice_table_ok_def peers)
  let ?new = "new_output_slot mid ssrc track ref"
  have ys: "y = ?new \<or> y \<in> set (vp_outputs p) \<and> (\<forall>x\<in>set released. slot_rewriter y \<noteq> slot_rewriter x)"
    if "y \<in> set ys" for y
    using place_output_cases [OF place] that disj by (auto split: if_splits) metis
  have released: "set released \<subseteq> set (vp_outputs p) \<and>
      (\<forall>i. (\<forall>x\<in>set released. i \<noteq> slot_rewriter x) \<longrightarrow> h' i = h i)"
    using place_output_cases [OF place] by (auto split: if_splits)
  have apart: "slot_rewriter y \<noteq> slot_rewriter x"
    if "y \<in> set (slots vp_outputs before) \<union> set (slots vp_outputs after)" "x \<in> set released" for x y
    using that disj released unfolding pairwise_disjoint_simps set_append by blast
  show ?thesis
  proof (rule table_lawful_subset)
    show "pairwise_disjoint slot_refs (slots vp_outputs peers)"
      using ok by (simp add: voice_table_ok_def)
    fix y assume "y \<in> set (slots vp_outputs (adjust k (put_outputs ys) peers))"
    then have y: "y \<in> set (slots vp_outputs before) \<union> set (slots vp_outputs after) \<or> y \<in> set ys"
      unfolding peers adjust_split [OF dist] by auto
    then show "y \<in> set (slots vp_outputs peers) \<or> slot_refs y \<inter> {..<ref} = {}"
      using ys [of y] unfolding peers by auto
    fix i assume "i \<in> slot_refs y" "i < ref"
    with y ys [of y] apart have "\<forall>x\<in>set released. i \<noteq> slot_rewriter x" by auto
    with released \<open>i < ref\<close> show "generation ((h'(ref := r)) i) = generation (h i)" by simp
  qed
qed

text \<open>
  Every operation that publishes bindings changes the table lawfully and then assigns. The three
  lemmas take the operations apart; the invariant, the protocol and the completeness of the
  assignment follow from the pieces.
\<close>

definition then_assigns :: "track_env \<Rightarrow> voice_router \<Rightarrow> voice_router \<Rightarrow> bool" where
  "then_assigns e s s' \<longleftrightarrow>
     (\<exists>s0 notices. voice_lawful 1 s s0 \<and> voice_inv s0 \<and> \<not> vr_closed s0 \<and> assign_voice e s0 = (s', notices))"

lemma register_voice_input_assigns:
  assumes "register_voice_input e s owner track send = (es, s')" and "voice_inv s" and "\<not> vr_closed s"
  shows "then_assigns e s s'"
proof -
  define s1 where "s1 = voice_peer_for owner s"
  define changed where "changed = voice_source_changed e (vr_peers s1) owner track"
  define upd where "upd = set_voice_input changed track (mid_extension_id (te_description e track)) send"
  have upd_fields: "vp_outputs (upd p) = vp_outputs p" "vp_input (upd p) \<noteq> None" for p
    by (simp_all add: upd_def set_voice_input_def)
  let ?peers1 = "adjust owner upd (vr_peers s1)"
  obtain peers2 h where loop: "(if changed
      then update_peers vp_outputs put_outputs (restart_slot owner) ?peers1 (vr_rewriters s1)
      else (?peers1, vr_rewriters s1)) = (peers2, h)" by fastforce
  let ?s0 = "s1\<lparr>vr_peers := peers2, vr_rewriters := h\<rparr>"
  obtain s3 assigned where assign: "assign_voice e ?s0 = (s3, assigned)" by fastforce
  have s': "s' = s3"
    using assms(1,3) loop assign
    unfolding register_voice_input_def Let_def s1_def [symmetric] changed_def [symmetric] upd_def [symmetric]
    by simp
  let ?P = "voice_publishers (vr_peers s)" and ?P1 = "voice_publishers ?peers1"
  have "voice_table_ok ?P (vr_peers s1) (vr_rewriters s) (vr_next_rewriter s)"
    unfolding s1_def using assms(2) by (intro voice_peer_for_table) (simp add: voice_inv_def)
  then have "voice_table_ok ?P ?peers1 (vr_rewriters s1) (vr_next_rewriter s)"
    by (subst voice_table_adjust) (simp_all add: upd_fields s1_def)
  moreover have "?P \<subseteq> ?P1"
    using voice_publishers_adjust [of upd "vr_peers s1" owner] assms(2)
      voice_peer_for_table(3) [of _ s _ _ owner] by (auto simp: upd_fields s1_def voice_inv_def)
  ultimately have table1: "voice_table_ok ?P1 ?peers1 (vr_rewriters s1) (vr_next_rewriter s)"
    by (rule voice_table_mono)
  then have disj: "pairwise_disjoint slot_refs (slots vp_outputs ?peers1)"
    by (simp add: voice_table_ok_def)
  have "voice_table_ok ?P1 peers2 h (vr_next_rewriter s) \<and> voice_publishers peers2 = ?P1 \<and> voice_lawful 1 s ?s0"
  proof (cases changed)
    case True
    with loop have run: "update_peers vp_outputs put_outputs (restart_slot owner) ?peers1 (vr_rewriters s1)
        = (peers2, h)" by simp
    from restart.update_peers_lawful [OF run disj _ restart_slot_lawful]
    have "list_all2 (\<lambda>x y. lawful slot_refs slot_view 1 x (vr_rewriters s) y h)
        (voice_slots s) (slots vp_outputs peers2)"
      by (simp add: upd_fields s1_def)
    then have "voice_lawful 1 s ?s0"
      using assms(2) by (auto simp: voice_lawful_def s1_def voice_inv_def voice_table_ok_def
          intro!: table_lawful_list_all2)
    with restart_peers_ok [OF table1 run] voice_publishers_cong [OF update_peers_inputs [OF run]]
    show ?thesis by simp
  next
    case False
    with loop table1 show ?thesis
      by (auto simp: upd_fields s1_def intro!: voice_lawful_same)
  qed
  then show ?thesis
    using assms(2,3) assign unfolding then_assigns_def s'
    by (intro exI [of _ ?s0] exI [of _ assigned]) (simp add: voice_inv_def s1_def)
qed

lemma register_voice_output_assigns:
  assumes "register_voice_output e counter s owner track send = (es, counter', s')" and "voice_inv s"
    and "\<not> vr_closed s"
  shows "then_assigns e s s'"
proof -
  define s1 where "s1 = voice_peer_for owner s"
  obtain ssrc c1 where ssrc: "allocate_slot_ssrc counter = (ssrc, c1)" by fastforce
  let ?peers1 = "adjust owner (\<lambda>p. p\<lparr>vp_send_binding := send\<rparr>) (vr_peers s1)"
  let ?P = "voice_publishers (vr_peers s)" and ?ref = "vr_next_rewriter s"
  have inv: "voice_table_ok ?P (vr_peers s) (vr_rewriters s) ?ref"
    using assms(2) by (simp add: voice_inv_def)
  obtain p where p: "map_of ?peers1 owner = Some p"
    using voice_peer_for_table(2) [OF inv, of owner] by (auto simp: s1_def map_of_adjust)
  obtain outputs1 h released where place:
    "place_output (te_mid e track) ssrc track ?ref (vp_outputs p) (vr_rewriters s) = (outputs1, h, released)"
    by (metis prod_cases3)
  let ?s0 = "s1\<lparr>vr_peers := adjust owner (put_outputs outputs1) ?peers1,
      vr_rewriters := h(?ref := new_rewriter 48000 960), vr_next_rewriter := ?ref + 1\<rparr>"
  obtain s3 assigned where assign: "assign_voice e ?s0 = (s3, assigned)" by fastforce
  have s': "s' = s3"
    using assms(1,3) ssrc p place assign
    by (simp add: register_voice_output_def Let_def s1_def [symmetric])
      (simp add: s1_def)
  have table1: "voice_table_ok ?P ?peers1 (vr_rewriters s) ?ref"
    using voice_peer_for_table(1) [OF inv, of owner] by (subst voice_table_adjust) (simp_all add: s1_def)
  have "voice_lawful 1 s ?s0"
    using place_output_lawful [OF table1 p place, THEN table_lawful_mono, of 1]
    by (simp add: voice_lawful_def s1_def)
  moreover have "map_vals vp_input (vr_peers ?s0) = map_vals vp_input (vr_peers s1)"
    by (simp add: map_vals_adjust)
  then have "voice_publishers (vr_peers ?s0) = ?P"
    using voice_peer_for_table(3) [OF inv, of owner] voice_publishers_cong s1_def by metis
  with place_output_table [OF table1 p place, of "new_rewriter 48000 960"]
  have "voice_inv ?s0" using assms(2,3) by (simp add: voice_inv_def s1_def)
  ultimately show ?thesis
    using assign assms(3) unfolding then_assigns_def s'
    by (intro exI [of _ ?s0] exI [of _ assigned]) (simp add: s1_def)
qed

lemma remove_voice_peer_assigns:
  assumes "remove_voice_peer e s pid = (es, s')" and "voice_inv s" and "\<not> vr_closed s"
  shows "then_assigns e s s'"
proof -
  let ?peers1 = "AList.delete pid (vr_peers s)"
  obtain peers2 h where upd:
    "update_peers vp_outputs put_outputs (release_slot pid) ?peers1 (vr_rewriters s) = (peers2, h)" by fastforce
  let ?s0 = "s\<lparr>vr_peers := peers2, vr_rewriters := h\<rparr>"
  obtain s1 reassigned where assign: "assign_voice e ?s0 = (s1, reassigned)" by fastforce
  have s': "s' = s1" using assms(1,3) upd assign by (simp add: remove_voice_peer_def Let_def)
  let ?P = "voice_publishers (vr_peers s)"
  have table0: "voice_table_ok ?P (vr_peers s) (vr_rewriters s) (vr_next_rewriter s)"
    using assms(2) by (simp add: voice_inv_def)
  note table1 = voice_table_delete [OF table0, of pid]
  have disj: "pairwise_disjoint slot_refs (slots vp_outputs ?peers1)"
    using table1 by (simp add: voice_table_ok_def)
  have "table_lawful slot_refs slot_view 0 (vr_next_rewriter s) (voice_slots s) (vr_rewriters s)
      (slots vp_outputs ?peers1) (vr_rewriters s)"
    using table0 slots_delete_subset [of vp_outputs pid "vr_peers s"]
    by (intro table_lawful_subset) (auto simp: voice_table_ok_def)
  moreover have "table_lawful slot_refs slot_view 1 (vr_next_rewriter s) (slots vp_outputs ?peers1)
      (vr_rewriters s) (slots vp_outputs peers2) h"
    using release.update_peers_lawful [OF upd disj _ release_slot_lawful] disj
    by (intro table_lawful_list_all2) auto
  ultimately have "table_lawful slot_refs slot_view (0 + 1) (vr_next_rewriter s) (voice_slots s)
      (vr_rewriters s) (slots vp_outputs peers2) h"
    by (rule table_lawful_trans)
  then have "voice_lawful 1 s ?s0" by (simp add: voice_lawful_def)
  moreover have "voice_publishers peers2 = ?P - {pid}"
    using voice_publishers_cong [OF update_peers_inputs [OF upd]]
    by (auto simp: voice_publishers_def map_of_delete split: if_splits)
  with release_peers_ok [OF table1 upd] have "voice_inv ?s0"
    using assms(2,3) by (simp add: voice_inv_def)
  ultimately show ?thesis
    using assign assms(3) unfolding then_assigns_def s'
    by (intro exI [of _ ?s0] exI [of _ reassigned]) simp
qed

lemma then_assigns_inv: "then_assigns e s s' \<Longrightarrow> voice_inv s'"
  unfolding then_assigns_def using assign_voice_inv by blast

lemma then_assigns_lawful:
  assumes "then_assigns e s s'"
  shows "voice_lawful 2 s s'"
proof -
  obtain s0 notices where s0: "voice_lawful 1 s s0" "voice_inv s0" "assign_voice e s0 = (s', notices)"
    using assms by (auto simp: then_assigns_def)
  then have "voice_lawful 1 s0 s'"
    by (intro assign_voice_lawful) (auto simp: voice_inv_def)
  from voice_lawful_trans [OF s0(1) this] show ?thesis by (simp add: numeral_2_eq_2)
qed

text \<open>A registration that is refused changes nothing.\<close>

lemma register_voice_track_cases:
  assumes "register_voice_track e counter s owner track send = (es, counter', s')" and "voice_inv s"
  shows "s' = s \<or> then_assigns e s s'"
proof (cases "vr_closed s")
  case True
  with assms(1) show ?thesis
    by (auto simp: register_voice_track_def register_voice_input_def register_voice_output_def Let_def
        split: option.splits if_splits direction.splits prod.splits)
next
  case False
  with assms register_voice_input_assigns register_voice_output_assigns show ?thesis
    by (auto simp: register_voice_track_def split: option.splits if_splits direction.splits prod.splits)
qed

lemma remove_voice_peer_cases:
  assumes "remove_voice_peer e s pid = (es, s')" and "voice_inv s"
  shows "s' = s \<or> then_assigns e s s'"
  using assms remove_voice_peer_assigns by (cases "vr_closed s") (auto simp: remove_voice_peer_def)

lemma register_voice_track_inv [inv_intros]:
  "register_voice_track e counter s owner track send = (es, counter', s') \<Longrightarrow> voice_inv s \<Longrightarrow> voice_inv s'"
  using register_voice_track_cases then_assigns_inv by blast

lemma remove_voice_peer_inv [inv_intros]:
  "remove_voice_peer e s pid = (es, s') \<Longrightarrow> voice_inv s \<Longrightarrow> voice_inv s'"
  using remove_voice_peer_cases then_assigns_inv by blast

lemma close_voice_inv [inv_intros]: "close_voice e s = (es, s') \<Longrightarrow> voice_inv s \<Longrightarrow> voice_inv s'"
  by (auto simp: close_voice_def voice_inv_def voice_table_ok_def queue_sorted_def split: if_splits)

lemma voice_inv_same_peers:
  assumes "voice_inv s" and "map_vals vp_outputs (vr_peers s') = map_vals vp_outputs (vr_peers s)"
    and "map_vals vp_input (vr_peers s') = map_vals vp_input (vr_peers s)"
    and "vr_rewriters s' = vr_rewriters s" and "vr_next_rewriter s' = vr_next_rewriter s"
    and "vr_closed s' = vr_closed s" and "queue_sorted (vr_delay_queue s')"
    and "vr_closed s \<Longrightarrow> s' = s"
  shows "voice_inv s'"
proof (cases "vr_closed s")
  case True
  with assms(1,8) show ?thesis by simp
next
  case False
  with assms voice_table_cong [OF assms(2)] voice_publishers_cong [OF assms(3)]
  show ?thesis by (simp add: voice_inv_def)
qed

lemma route_voice_locked_inv [inv_intros]:
  assumes "route_voice_locked e s publisher expected p = (es, pend, s')" and "voice_inv s"
  shows "voice_inv s'"
proof (rule voice_inv_same_peers [OF assms(2)])
  show "queue_sorted (vr_delay_queue s')"
    using assms by (auto simp: route_voice_locked_def voice_inv_def Let_def dest: schedule_all_sorted
        split: if_splits option.splits prod.splits)
qed (use assms(1) in \<open>auto simp: route_voice_locked_def Let_def map_vals_adjust
      split: if_splits option.splits prod.splits\<close>)

lemma flush_voice_locked_inv [inv_intros]:
  assumes "flush_voice_locked e s = (due, s')" and "voice_inv s"
  shows "voice_inv s'"
proof (rule voice_inv_same_peers [OF assms(2)])
  show "queue_sorted (vr_delay_queue s')"
    using assms by (auto simp: flush_voice_locked_def voice_inv_def Let_def dest: take_due_sound
        split: if_splits prod.splits)
qed (use assms(1) in \<open>auto simp: flush_voice_locked_def split: if_splits prod.splits\<close>)

lemma forward_voice_locked_inv [inv_intros]:
  assumes "forward_voice_locked e s item = (pend, s')" and "voice_inv s"
  shows "voice_inv s'"
proof (rule voice_inv_same_peers [OF assms(2)])
  show "queue_sorted (vr_delay_queue s')"
    using assms by (auto simp: forward_voice_locked_def voice_inv_def Let_def split: if_splits option.splits)
qed (use assms(1) in \<open>auto simp: forward_voice_locked_def Let_def map_vals_adjust
      split: if_splits option.splits prod.splits\<close>)

lemma voice_table_generations:
  assumes "voice_table_ok P peers h n" and "\<And>r. generation (h' r) = generation (h r)"
  shows "voice_table_ok P peers h' n"
proof -
  have "voice_slot_ok P h' = voice_slot_ok P h"
    using assms(2) by (intro ext) (simp add: voice_slot_ok_def split: option.split)
  then show ?thesis using assms(1) by (simp add: voice_table_ok_def voice_outputs_ok_def)
qed

lemma send_voice_packets_inv [inv_intros]:
  assumes "send_voice_packets e s pend = (es, s')" and "voice_inv s"
  shows "voice_inv s'"
proof (cases pend)
  case None
  with assms show ?thesis by (simp add: send_voice_packets_def)
next
  case (Some x)
  obtain tgs mid_id out where x: "x = (tgs, mid_id, out)" by (cases x)
  obtain es1 h sizes where loop: "send_packets_loop e mid_id tgs out (vr_rewriters s) = (es1, h, sizes)"
    by (metis prod_cases3)
  have "generation (h r) = generation (vr_rewriters s r)" for r
    using send_packets_loop_sound [OF loop] by blast
  with assms Some x loop show ?thesis
    by (auto simp: send_voice_packets_def voice_inv_def intro: voice_table_generations)
qed

lemma update_voice_fault_config_inv [inv_intros]: "voice_inv s \<Longrightarrow> voice_inv (update_voice_fault_config c s)"
  by (simp add: voice_inv_def update_voice_fault_config_def)

lemma new_voice_router_inv [inv_intros]: "voice_inv (new_voice_router config executor)"
  by (simp add: voice_inv_def new_voice_router_def voice_table_ok_def queue_sorted_def)

section \<open>The slot protocol of the router\<close>

text \<open>The steps of the router: everything that runs under its lock, and the sending.\<close>

inductive voice_step :: "voice_router \<Rightarrow> voice_router \<Rightarrow> bool" where
  voice_config: "voice_step s (update_voice_fault_config c s)"
| voice_register: "register_voice_track e counter s owner track send = (es, counter', s') \<Longrightarrow> voice_step s s'"
| voice_remove: "remove_voice_peer e s pid = (es, s') \<Longrightarrow> voice_step s s'"
| voice_route: "route_voice_locked e s publisher expected p = (es, pend, s') \<Longrightarrow> voice_step s s'"
| voice_flush: "flush_voice_locked e s = (due, s') \<Longrightarrow> voice_step s s'"
| voice_forward: "forward_voice_locked e s item = (pend, s') \<Longrightarrow> voice_step s s'"
| voice_send: "send_voice_packets e s pend = (es, s') \<Longrightarrow> voice_step s s'"
| voice_close: "close_voice e s = (es, s') \<Longrightarrow> voice_step s s'"

lemma voice_step_inv: "voice_step s s' \<Longrightarrow> voice_inv s \<Longrightarrow> voice_inv s'"
  by (induction rule: voice_step.induct) (auto intro: inv_intros)

lemma voice_step_lawful:
  assumes "voice_step s s'" and "voice_inv s"
  shows "voice_lawful 2 s s'"
proof -
  have same: "voice_lawful 2 s s'"
    if "voice_slots s' = voice_slots s" "\<And>r. generation (vr_rewriters s' r) = generation (vr_rewriters s r)"
      "vr_next_rewriter s' = vr_next_rewriter s"
    using that by (rule voice_lawful_same)
  show ?thesis
    using assms(1)
  proof cases
    case (voice_config c)
    then show ?thesis by (intro same) (simp_all add: update_voice_fault_config_def)
  next
    case (voice_register e counter owner track send es counter')
    from register_voice_track_cases [OF this assms(2)] show ?thesis
      by (auto intro: then_assigns_lawful voice_lawful_same)
  next
    case (voice_remove e pid es)
    from remove_voice_peer_cases [OF this assms(2)] show ?thesis
      by (auto intro: then_assigns_lawful voice_lawful_same)
  next
    case (voice_route e publisher expected p es pend)
    then show ?thesis
      by (intro same) (auto simp: route_voice_locked_def Let_def split: if_splits option.splits prod.splits)
  next
    case (voice_flush e due)
    then show ?thesis
      by (intro same) (auto simp: flush_voice_locked_def split: if_splits prod.splits)
  next
    case (voice_forward e item pend)
    then show ?thesis
      by (intro same) (auto simp: forward_voice_locked_def Let_def split: if_splits option.splits prod.splits)
  next
    case (voice_send e pend es)
    have "generation (vr_rewriters s' r) = generation (vr_rewriters s r)" for r
      using voice_send send_packets_loop_sound
      by (fastforce simp: send_voice_packets_def split: option.splits prod.splits)
    with voice_send show ?thesis
      by (intro same) (auto simp: send_voice_packets_def split: option.splits prod.splits)
  next
    case (voice_close e es)
    then show ?thesis
      by (auto simp: close_voice_def voice_lawful_def table_lawful_def bumped_def split: if_splits
          intro!: exI [of _ 0])
  qed
qed

interpretation voice_protocol: slot_protocol voice_step voice_inv
  "\<lambda>s r. generation (vr_rewriters s r)" vr_next_rewriter
  "\<lambda>s r. r \<in> \<Union> (slot_refs ` set (voice_slots s))"
  "\<lambda>s. bound_view slot_refs slot_view (voice_slots s)" 2
proof
  fix s s' r assume inv: "voice_inv s" and step: "voice_step s s'"
  show "voice_inv s'" using step inv by (rule voice_step_inv)
  note lawful = voice_step_lawful [OF step inv, unfolded voice_lawful_def table_lawful_def]
  show "vr_next_rewriter s \<le> vr_next_rewriter s'" using lawful by blast
  show "r < vr_next_rewriter s \<Longrightarrow> r \<in> \<Union> (slot_refs ` set (voice_slots s')) \<Longrightarrow>
      r \<in> \<Union> (slot_refs ` set (voice_slots s))" using lawful by blast
  show "r < vr_next_rewriter s \<Longrightarrow> r \<in> \<Union> (slot_refs ` set (voice_slots s')) \<Longrightarrow>
      \<exists>k\<le>2. generation (vr_rewriters s' r) = generation (vr_rewriters s r) + of_nat k \<and>
        (k = 0 \<longrightarrow> bound_view slot_refs slot_view (voice_slots s') r =
           bound_view slot_refs slot_view (voice_slots s) r)"
    using lawful unfolding bumped_def by blast
qed

section \<open>Assignment leaves no work undone\<close>

text \<open>No free slot of a listener while a publisher it does not hear yet is available.\<close>

definition fully_assigned :: "track_env \<Rightarrow> voice_router \<Rightarrow> bool" where
  "fully_assigned e s \<longleftrightarrow>
     (\<forall>(k, p)\<in>set (vr_peers s). \<forall>q\<in>set (keys (vr_peers s)).
        voice_eligible e (vr_peers s) k q \<longrightarrow>
          q \<in> set (slot_publishers (vp_outputs p)) \<or> (\<forall>x\<in>set (vp_outputs p). \<not> free_slot e x))"

lemma voice_eligible_cong:
  assumes "map_vals vp_input peers' = map_vals vp_input peers"
  shows "voice_eligible e peers' = voice_eligible e peers"
proof -
  have "voice_eligible e ps k q \<longleftrightarrow> q \<noteq> k \<and>
      (case map_of (map_vals vp_input ps) q of None \<Rightarrow> False | Some t \<Rightarrow> \<not> expired e t)" for ps k q
    by (auto simp: voice_eligible_def map_of_map_vals split: option.splits)
  with assms show ?thesis by (simp add: fun_eq_iff)
qed

lemma assign_voice_complete:
  assumes run: "assign_voice e s = (s', notices)"
    and ok: "voice_table_ok (voice_publishers (vr_peers s)) (vr_peers s) (vr_rewriters s) n"
  shows "fully_assigned e s'"
proof -
  obtain peers h claims where s': "s' = s\<lparr>vr_peers := peers, vr_rewriters := h\<rparr>"
    and a: "assign_peers vp_outputs put_outputs slot_publisher (free_slot e) claim_slot
       (\<lambda>_. ordered_voice_peers s) (voice_eligible e (vr_peers s)) (ordered_voice_peers s)
       (vr_peers s) (vr_rewriters s) = (peers, h, claims)"
    and table: "voice_table_ok (voice_publishers (vr_peers s)) peers h n"
    and inputs: "map_vals vp_input peers = map_vals vp_input (vr_peers s)"
    using assign_voice_ok [OF run ok] by metis
  have wf: "distinct (keys (vr_peers s))" "pairwise_disjoint slot_refs (voice_slots s)"
      "\<And>k p. (k, p) \<in> set (vr_peers s) \<Longrightarrow> distinct (vt.publishers (vp_outputs p))"
    using ok by (auto simp: voice_table_ok_def voice_outputs_ok_def publishers_voice)
  have keys: "keys peers = keys (vr_peers s)"
    using inputs by (metis keys_map_vals)
  show ?thesis
    unfolding fully_assigned_def s'
  proof (clarsimp simp: voice_eligible_cong [OF inputs])
    fix k p q r x
    assume *: "(k, p) \<in> set peers" "(q, r) \<in> set peers" "voice_eligible e (vr_peers s) k q"
      "x \<in> set (vp_outputs p)" "free_slot e x" "q \<notin> set (slot_publishers (vp_outputs p))"
    have "k \<in> set (ordered_voice_peers s)" "q \<in> set (ordered_voice_peers s)"
      using *(1,2) keys unfolding set_ordered_voice_peers by (metis fst_conv image_eqI list.set_map)+
    moreover have "map_of peers k = Some p" using *(1) wf(1) keys by simp
    ultimately have "q \<in> set (vt.publishers (vp_outputs p)) \<or> (\<forall>x\<in>set (vp_outputs p). \<not> free_slot e x)"
      using *(3) wf(3)
      by (intro vt.assign_peers_work_conserving [OF a wf(1,2) distinct_ordered_voice_peers [OF wf(1)]])
    with * show False by (auto simp: publishers_voice)
  qed
qed

section \<open>Properties\<close>

lemma voice_reachable_inv: "voice_step\<^sup>*\<^sup>* (new_voice_router config executor) s \<Longrightarrow> voice_inv s"
  using voice_protocol.inv_reachable new_voice_router_inv by blast

lemma in_voice_slots:
  "(k, p) \<in> set (vr_peers s) \<Longrightarrow> x \<in> set (vp_outputs p) \<Longrightarrow> x \<in> set (voice_slots s)"
  by (force simp: in_slots)

text \<open>A room of two: track 0 is the microphone of \<open>a\<close>, track 1 an output of \<open>b\<close>.\<close>

definition sample_env :: track_env where
  "sample_env =
     \<lparr>te_alive = (\<lambda>_. True), te_open = (\<lambda>_. True),
      te_direction = (\<lambda>t. if t = 0 then RecvOnly else SendOnly),
      te_media_type = (\<lambda>_. ''audio''), te_mid = (\<lambda>_. ''0''),
      te_description = (\<lambda>_. \<lparr>md_mid = ''0'', payload_types = [], rtp_map = (\<lambda>_. None),
        ext_ids = [], ext_map = (\<lambda>_. None)\<rparr>),
      te_send_ok = (\<lambda>_ _. True), te_keyframe_ok = (\<lambda>_. True), te_is_rtcp = (\<lambda>_. False),
      te_now_us = 0\<rparr>"

definition no_faults :: rtp_fault_config where
  "no_faults = reorder_config\<lparr>reorder_every_nth := 0,
     link_model := (link_model reorder_config)\<lparr>link_capacity_kbps := 0\<rparr>\<rparr>"

definition sample_voice :: voice_router where
  "sample_voice =
     snd (snd (register_voice_track sample_env 7
       (snd (snd (register_voice_track sample_env 7 (new_voice_router no_faults False) ''a'' (Some 0) None)))
       ''b'' (Some 1) (Some 7)))"

lemma sample_voice_reachable: "voice_step\<^sup>*\<^sup>* (new_voice_router no_faults False) sample_voice"
proof -
  have step: "voice_step s (snd (snd (register_voice_track e counter s owner track send)))"
    for e counter s owner track send
    by (cases "register_voice_track e counter s owner track send") (auto intro: voice_register)
  show ?thesis
    unfolding sample_voice_def
    by (rule rtranclp.rtrancl_into_rtrancl, rule rtranclp.rtrancl_into_rtrancl,
        rule rtranclp.rtrancl_refl) (rule step)+
qed

definition sample_target :: target where
  "sample_target = \<lparr>tg_track = Some 1, tg_ssrc = 7, tg_rewriter = 0, tg_generation = 1\<rparr>"

lemma sample_voice_facts:
  "collect_voice_targets sample_voice ''a'' = [sample_target]"
  "generation (vr_rewriters sample_voice 0) = 1"
  "\<not> vr_closed sample_voice" "\<not> vr_executor sample_voice"
  "map_of (vr_peers sample_voice) ''a'' \<noteq> None"
  "vp_input (the (map_of (vr_peers sample_voice) ''a'')) = Some 0"
  "vp_input_mid_extension_id (the (map_of (vr_peers sample_voice) ''a'')) = None"
  "map slot_rewriter (voice_slots sample_voice) = [0]"
  by code_simp+

lemma register_voice_track_config:
  "vr_fault_config (snd (snd (register_voice_track e counter s owner track send))) = vr_fault_config s"
proof -
  have assign: "vr_fault_config (fst (assign_voice e s)) = vr_fault_config s" for e s
    by (simp add: assign_voice_def Let_def case_prod_beta)
  have "vr_fault_config (snd (register_voice_input e s owner t send)) = vr_fault_config s"
    "vr_fault_config (snd (snd (register_voice_output e counter s owner t send))) = vr_fault_config s" for t
    by (simp_all add: register_voice_input_def register_voice_output_def Let_def case_prod_beta assign)
  then show ?thesis
    by (simp add: register_voice_track_def Let_def case_prod_beta split: option.split direction.split)
qed

lemma sample_voice_config: "vr_fault_config sample_voice = no_faults"
  by (simp add: sample_voice_def register_voice_track_config new_voice_router_def)

lemma sample_voice_rewriter: "vr_rewriters sample_voice 0 = snd (begin_source (new_rewriter 48000 960))"
  by code_simp

text \<open>
  C13: in every reachable state of the voice router, whatever the tracks did: no peer hears
  itself, every bound publisher is registered and has published a track, no publisher takes two
  slots of a listener, and every bound slot carries the current generation of a rewriter of its
  own.
\<close>

theorem voice_router_invariant:
  assumes "voice_step\<^sup>*\<^sup>* (new_voice_router config executor) s"
  shows "voice_inv s"
  using assms by (rule voice_reachable_inv)

lemma voice_router_invariant_witness: "voice_inv sample_voice"
  by (rule voice_router_invariant [OF sample_voice_reachable])


lemma schedule_all_immediate:
  assumes "schedule_all e config ex rtcp delay packets ls queue timer = (imm, ls', queue', timer')"
  shows "set imm \<subseteq> set packets"
  using assms
proof (induction packets arbitrary: ls queue timer imm)
  case Nil
  then show ?case by simp
next
  case (Cons a packets)
  obtain i ls1 q1 t1 where one: "schedule_faulted e config ex rtcp delay a ls queue timer = (i, ls1, q1, t1)"
    by (metis prod_cases4)
  have "set i \<subseteq> {a}"
    using one by (auto simp: schedule_faulted_def Let_def split: if_splits prod.splits option.splits)
  with Cons one show ?case by (fastforce simp: Let_def split: prod.splits)
qed

lemma apply_rtp_faults_packets:
  assumes "apply_rtp_faults is_rtcp config s p = (r, s')" and "q \<in> set (faulted_packets r)"
  shows "q = p \<or> delayed_packet s = Some q"
proof -
  have "mset (delivered r) + mset (held s') = add_mset p (mset (held s)) \<or> delivered r = []"
    using apply_rtp_faults_conserves(1) [OF assms(1)] by blast
  moreover have "set (faulted_packets r) = set (delivered r)"
    by (auto simp: faulted_packets_def delivered_def map_filter_def split: option.splits)
  ultimately have "q \<in># add_mset p (mset (held s))"
    using assms(2) by (metis empty_iff empty_set mset_subset_eqD mset_subset_eq_add_left set_mset_mset)
  then show ?thesis by (auto simp: held_def split: option.splits)
qed

lemma route_voice_locked_packets:
  assumes "route_voice_locked e s publisher expected p = (es, pend, s1)"
    and "pend = Some (tgs, mid_id, out)" and "packet \<in> set out"
  shows "packet = p \<or> (\<exists>src. map_of (vr_peers s) publisher = Some src \<and>
           delayed_packet (vp_fault_state src) = Some packet)"
  using assms
  by (auto simp: route_voice_locked_def Let_def dest!: schedule_all_immediate apply_rtp_faults_packets
      split: if_splits option.splits prod.splits)


text \<open>
  A registration or a removal that the router carries out leaves nothing to do: no listener
  keeps a free live slot while some other registered publisher with a live track is not bound to
  one of its slots.
\<close>

theorem voice_assignment_complete:
  assumes "voice_inv s" and "\<not> vr_closed s"
  shows "(te_media_type e track = ''audio'' \<and> te_direction e track \<in> {RecvOnly, SendOnly} \<longrightarrow>
            fully_assigned e (snd (snd (register_voice_track e counter s owner (Some track) send)))) \<and>
         fully_assigned e (snd (remove_voice_peer e s pid))"
proof -
  have complete: "fully_assigned e s'" if "then_assigns e s s'" for s'
    using that assign_voice_complete unfolding then_assigns_def voice_inv_def by blast
  have "then_assigns e s (snd (snd (register_voice_track e counter s owner (Some track) send)))"
    if "te_media_type e track = ''audio''" "te_direction e track \<in> {RecvOnly, SendOnly}"
    using that register_voice_input_assigns [OF prod.collapse [symmetric] assms]
      register_voice_output_assigns [OF _ assms, where es = "fst r" and counter' = "fst (snd r)" and s' = "snd (snd r)" for r]
    by (auto simp: register_voice_track_def Let_def case_prod_beta)
  moreover have "then_assigns e s (snd (remove_voice_peer e s pid))"
    using remove_voice_peer_assigns [OF _ assms] by (metis prod.collapse)
  ultimately show ?thesis using complete by blast
qed

lemma voice_assignment_complete_witness: "fully_assigned sample_env (snd (remove_voice_peer sample_env sample_voice ''c''))"
  using voice_assignment_complete [OF voice_reachable_inv [OF sample_voice_reachable] sample_voice_facts(3)]
  by blast

text \<open>
  What is sent is right. Every packet that leaves in \<open>route\<close> goes to an open track of a slot
  that is bound to the publisher and belongs to another peer, with the SSRC of that slot and the
  payload of a packet that the publisher sent now or that its fault model held back.
\<close>

theorem route_voice_delivers:
  assumes "voice_inv s" and "route_voice e s publisher expected p = (es, s')"
    and "SendPacket t q \<in> set es"
  shows "\<exists>k peer x packet. (k, peer) \<in> set (vr_peers s') \<and> x \<in> set (vp_outputs peer) \<and> k \<noteq> publisher \<and>
           slot_publisher x = Some publisher \<and> slot_track x = Some t \<and> te_alive e t \<and> te_open e t \<and>
           network_u32 q 8 = Some (slot_ssrc x) \<and> rtp_payload q = rtp_payload packet \<and>
           (packet = p \<or> (\<exists>src. map_of (vr_peers s) publisher = Some src \<and>
               delayed_packet (vp_fault_state src) = Some packet))"
proof -
  obtain es1 pend s1 where locked: "route_voice_locked e s publisher expected p = (es1, pend, s1)"
    by (metis prod_cases3)
  obtain es2 where sent: "send_voice_packets e s1 pend = (es2, s')" and es: "es = es1 @ es2"
    using assms(2) locked by (auto simp: route_voice_def Let_def split: prod.splits)
  have "SendPacket t q \<notin> set es1"
    using locked by (auto simp: route_voice_locked_def Let_def split: if_splits option.splits prod.splits)
  with assms(3) es have in2: "SendPacket t q \<in> set es2" by simp
  then obtain tgs mid_id out where pend: "pend = Some (tgs, mid_id, out)"
    using sent by (cases pend) (auto simp: send_voice_packets_def)
  obtain h sizes where loop: "send_packets_loop e mid_id tgs out (vr_rewriters s1) = (es2, h, sizes)"
    and s': "vr_peers s' = vr_peers s1"
    using sent pend by (auto simp: send_voice_packets_def split: prod.splits)
  have "delivers e (vr_rewriters s1) tgs out (SendPacket t q)"
    using send_packets_loop_sound [OF loop] in2 by blast
  then obtain tg packet where tg: "tg \<in> set tgs" "packet \<in> set out" "lock_track e (tg_track tg) = Some t"
      "te_open e t" "rewritten_for e tg packet q"
    by (auto simp: delivers_def)
  have tgs: "tgs = collect_voice_targets s1 publisher"
    using locked pend by (auto simp: route_voice_locked_def Let_def split: if_splits option.splits prod.splits)
  obtain x where x: "x \<in> set (voice_slots s1)" "slot_publisher x = Some publisher" "tg = slot_target x"
    using tg(1) by (auto simp: tgs collect_voice_targets_def)
  then obtain k peer where peer: "(k, peer) \<in> set (vr_peers s1)" "x \<in> set (vp_outputs peer)"
    by (auto simp: in_slots)
  have "voice_inv s1" using route_voice_locked_inv [OF locked assms(1)] .
  then have "k \<noteq> publisher"
    using peer x(2) by (fastforce simp: voice_inv_def voice_table_ok_def voice_outputs_ok_def voice_slot_ok_def)
  moreover have "packet = p \<or> (\<exists>src. map_of (vr_peers s) publisher = Some src \<and>
      delayed_packet (vp_fault_state src) = Some packet)"
    using locked pend tg(2) by (rule route_voice_locked_packets)
  ultimately show ?thesis
    using peer x tg(3-5) unfolding s'
    by (intro exI [of _ k] exI [of _ peer] exI [of _ x] exI [of _ packet])
      (auto simp: rewritten_for_def slot_target_def lock_track_eq_Some)
qed

lemma sample_route:
  "\<exists>s'. route_voice sample_env sample_voice ''a'' (Some 0) sample_packet =
     ([SendPacket 1 [0x80, 0x6f, 0, 5, 0, 0, 1, 0, 0, 0, 0, 7, 0xaa, 0xbb]], s')"
proof -
  obtain src where src: "map_of (vr_peers sample_voice) ''a'' = Some src" "vp_input src = Some 0"
      "vp_input_mid_extension_id src = None"
    using sample_voice_facts(5-7) by auto
  have is_rtcp: "te_is_rtcp sample_env = (\<lambda>_. False)" by (simp add: sample_env_def)
  have faults: "apply_rtp_faults (\<lambda>_. False) no_faults st sample_packet =
      (\<lparr>tapped = None, first_packet = Some sample_packet, second_packet = None\<rparr>, st)" for st
    by (simp add: apply_rtp_faults_def no_faults_def reorder_config_def burst_enabled_def)
  have link: "\<not> link_down no_faults" "\<not> link_enabled (link_model no_faults)"
    by (simp_all add: no_faults_def reorder_config_def link_enabled_def)
  obtain s1 where locked: "route_voice_locked sample_env sample_voice ''a'' (Some 0) sample_packet =
      ([], Some ([sample_target], None, [sample_packet]), s1)"
    and heap: "vr_rewriters s1 = vr_rewriters sample_voice"
    using src sample_voice_facts(1,3,4) link
    by (simp add: route_voice_locked_def sample_voice_config faults is_rtcp faulted_packets_def
        map_filter_simps schedule_faulted_def collect_voice_targets_def Let_def)
  have "lock_track sample_env (Some 1) = Some 1" "te_open sample_env 1" "te_send_ok sample_env t q" for t q
    by (simp_all add: sample_env_def lock_track_def)
  then show ?thesis
    using rewrite_sample
    by (simp add: route_voice_def locked send_voice_packets_def send_to_target_def sample_target_def heap
        sample_voice_rewriter is_rtcp)
qed

lemma route_voice_delivers_witness:
  "\<exists>s' k peer x. route_voice sample_env sample_voice ''a'' (Some 0) sample_packet =
       ([SendPacket 1 [0x80, 0x6f, 0, 5, 0, 0, 1, 0, 0, 0, 0, 7, 0xaa, 0xbb]], s') \<and>
     (k, peer) \<in> set (vr_peers s') \<and> x \<in> set (vp_outputs peer) \<and> k \<noteq> ''a'' \<and>
     slot_publisher x = Some ''a'' \<and> slot_track x = Some 1"
proof -
  obtain s' where run: "route_voice sample_env sample_voice ''a'' (Some 0) sample_packet =
      ([SendPacket 1 [0x80, 0x6f, 0, 5, 0, 0, 1, 0, 0, 0, 0, 7, 0xaa, 0xbb]], s')"
    using sample_route by blast
  from route_voice_delivers [OF voice_reachable_inv [OF sample_voice_reachable] run] run show ?thesis
    by fastforce
qed

end
