(* ===== verification/Screen_Router.thy ===== *)
theory Screen_Router
  imports Voice_Router
begin

text \<open>
  The screen-sharing SFU, \<^verbatim>\<open>backend/signaling_server/src/screen_router.cpp\<close>. A peer publishes a
  video and an audio track while it is streaming; its output slots are pairs of a video and an
  audio output, and a pair is bound to a publisher that the peer watches. Registering an output
  releases the lock between placing the track and declaring it ready, so it is two steps here.
  A Boolean \<open>video\<close> stands for \<^verbatim>\<open>media_type == "video"\<close>.
\<close>

section \<open>State\<close>

record output_track =
  ot_mid :: string
  ot_ssrc :: u32
  ot_track :: "track_id option"
  ot_ready :: bool
  ot_rewriter :: nat
  ot_generation :: u64

record output_pair =
  op_cname :: string
  op_video :: "output_track option"
  op_audio :: "output_track option"
  op_publisher :: "peer_id option"

record screen_peer =
  sp_order :: u64
  sp_input_video :: "track_id option"
  sp_input_audio :: "track_id option"
  sp_video_mid_extension_id :: "byte option"
  sp_audio_mid_extension_id :: "byte option"
  sp_video_fault_state :: rtp_fault_state
  sp_audio_fault_state :: rtp_fault_state
  sp_video_link_state :: link_model_state
  sp_audio_link_state :: link_model_state
  sp_outputs :: "output_pair list"
  sp_send_binding :: binding_sender
  sp_streaming :: bool
  sp_watched_publishers :: "(peer_id \<times> u64) list"
  sp_next_watch_order :: u64

record screen_delayed =
  sd_publisher :: peer_id
  sd_video :: bool
  sd_expected_input :: "track_id option"
  sd_packet :: packet

record screen_notice =
  sn_send :: binding_sender
  sn_mid :: string
  sn_publisher :: "peer_id option"
  sn_output :: "track_id option"
  sn_ssrc :: u32
  sn_cname :: string
  sn_video :: bool
  sn_publisher_video :: "track_id option"

record screen_router =
  sr_peers :: "(peer_id \<times> screen_peer) list"
  sr_fault_config :: rtp_fault_config
  sr_next_peer_order :: u64
  sr_closed :: bool
  sr_video_packets_in :: u64
  sr_video_packets_out :: u64
  sr_video_bytes_out :: u64
  sr_audio_packets_in :: u64
  sr_audio_packets_out :: u64
  sr_audio_bytes_out :: u64
  sr_keyframe_requests :: u64
  sr_executor :: bool
  sr_delay_timer :: "int option"
  sr_delay_queue :: "screen_delayed delay_queue"
  sr_rewriters :: heap
  sr_next_rewriter :: nat

definition new_screen_router :: "rtp_fault_config \<Rightarrow> bool \<Rightarrow> screen_router" where
  "new_screen_router config executor =
     \<lparr>sr_peers = [], sr_fault_config = config, sr_next_peer_order = 0, sr_closed = False,
      sr_video_packets_in = 0, sr_video_packets_out = 0, sr_video_bytes_out = 0,
      sr_audio_packets_in = 0, sr_audio_packets_out = 0, sr_audio_bytes_out = 0,
      sr_keyframe_requests = 0, sr_executor = executor, sr_delay_timer = None, sr_delay_queue = [],
      sr_rewriters = (\<lambda>_. new_rewriter 90000 3000), sr_next_rewriter = 0\<rparr>"

definition new_screen_peer :: "u64 \<Rightarrow> screen_peer" where
  "new_screen_peer order =
     \<lparr>sp_order = order, sp_input_video = None, sp_input_audio = None,
      sp_video_mid_extension_id = None, sp_audio_mid_extension_id = None,
      sp_video_fault_state = new_fault_state, sp_audio_fault_state = new_fault_state,
      sp_video_link_state = new_link_state, sp_audio_link_state = new_link_state,
      sp_outputs = [], sp_send_binding = None, sp_streaming = False,
      sp_watched_publishers = [], sp_next_watch_order = 0\<rparr>"

definition screen_peer_for :: "peer_id \<Rightarrow> screen_router \<Rightarrow> screen_router" where
  "screen_peer_for pid s =
     (case map_of (sr_peers s) pid of
        Some _ \<Rightarrow> s
      | None \<Rightarrow> s\<lparr>sr_peers := sr_peers s @ [(pid, new_screen_peer (sr_next_peer_order s))],
                  sr_next_peer_order := sr_next_peer_order s + 1\<rparr>)"

definition ordered_screen_peers :: "screen_router \<Rightarrow> peer_id list" where
  "ordered_screen_peers s =
     map rank_id (sort (map (\<lambda>(pid, p). PeerRank (sp_order p) pid) (sr_peers s)))"

text \<open>The comparator of \<open>ordered_watches_locked\<close>.\<close>

definition watch_before ::
  "(peer_id \<times> screen_peer) list \<Rightarrow> (peer_id \<times> u64) \<Rightarrow> (peer_id \<times> u64) \<Rightarrow> bool" where
  "watch_before peers lhs rhs \<longleftrightarrow>
     (if snd lhs \<noteq> snd rhs then snd lhs < snd rhs
      else
        (case (map_of peers (fst lhs), map_of peers (fst rhs)) of
           (Some left, Some right) \<Rightarrow>
             if sp_order left \<noteq> sp_order right then sp_order left < sp_order right
             else fst lhs < fst rhs
         | _ \<Rightarrow> fst lhs < fst rhs))"

definition ordered_watches :: "(peer_id \<times> screen_peer) list \<Rightarrow> screen_peer \<Rightarrow> peer_id list" where
  "ordered_watches peers subscriber =
     map fst (sort_by (watch_before peers) (sp_watched_publishers subscriber))"

section \<open>Assigning publishers to pairs\<close>

abbreviation put_pairs :: "output_pair list \<Rightarrow> screen_peer \<Rightarrow> screen_peer" where
  "put_pairs xs p \<equiv> p\<lparr>sp_outputs := xs\<rparr>"

definition ready_output :: "track_env \<Rightarrow> output_track option \<Rightarrow> bool" where
  "ready_output e out =
     (case out of None \<Rightarrow> False | Some t \<Rightarrow> ot_ready t \<and> \<not> expired e (ot_track t))"

definition free_pair :: "track_env \<Rightarrow> output_pair \<Rightarrow> bool" where
  "free_pair e x \<longleftrightarrow> op_publisher x = None \<and> ready_output e (op_video x) \<and> ready_output e (op_audio x)"

text \<open>\<open>output->source_generation = output->rewriter->begin_source()\<close>, and \<open>end_source\<close> with a reset.\<close>

definition begin_output :: "output_track option \<Rightarrow> heap \<Rightarrow> output_track option \<times> heap" where
  "begin_output out h =
     (case out of
        None \<Rightarrow> (None, h)
      | Some t \<Rightarrow>
          (let (g, r) = begin_source (h (ot_rewriter t))
           in (Some (t\<lparr>ot_generation := g\<rparr>), h(ot_rewriter t := r))))"

definition end_output :: "output_track option \<Rightarrow> heap \<Rightarrow> output_track option \<times> heap" where
  "end_output out h =
     (case out of
        None \<Rightarrow> (None, h)
      | Some t \<Rightarrow>
          (Some (t\<lparr>ot_generation := 0\<rparr>), h(ot_rewriter t := end_source (h (ot_rewriter t)))))"

definition claim_pair :: "peer_id \<Rightarrow> output_pair \<Rightarrow> heap \<Rightarrow> output_pair \<times> heap" where
  "claim_pair pid x h =
     (let (v, h1) = begin_output (op_video x) h;
          (a, h2) = begin_output (op_audio x) h1
      in (x\<lparr>op_publisher := Some pid, op_video := v, op_audio := a\<rparr>, h2))"

definition screen_eligible :: "track_env \<Rightarrow> (peer_id \<times> screen_peer) list \<Rightarrow> peer_id \<Rightarrow> peer_id \<Rightarrow> bool" where
  "screen_eligible e peers sid pid \<longleftrightarrow>
     (case map_of peers pid of
        None \<Rightarrow> False
      | Some p \<Rightarrow> pid \<noteq> sid \<and> sp_streaming p \<and> \<not> expired e (sp_input_video p))"

definition pair_notices ::
  "(peer_id \<times> screen_peer) list \<Rightarrow> screen_peer \<Rightarrow> output_pair \<Rightarrow> peer_id option \<Rightarrow> screen_notice list" where
  "pair_notices peers subscriber x publisher =
     (let publisher_video =
            (case publisher of
               None \<Rightarrow> None
             | Some pid \<Rightarrow> (case map_of peers pid of None \<Rightarrow> None | Some p \<Rightarrow> sp_input_video p));
          append = (\<lambda>output video.
            (case output of
               None \<Rightarrow> []
             | Some t \<Rightarrow>
                 if ot_ready t
                 then [\<lparr>sn_send = sp_send_binding subscriber, sn_mid = ot_mid t,
                        sn_publisher = publisher, sn_output = ot_track t, sn_ssrc = ot_ssrc t,
                        sn_cname = op_cname x, sn_video = video,
                        sn_publisher_video = publisher_video\<rparr>]
                 else []))
      in append (op_video x) True @ append (op_audio x) False)"

definition claim_pair_notices ::
  "(peer_id \<times> screen_peer) list \<Rightarrow> peer_id \<times> peer_id \<times> output_pair \<Rightarrow> screen_notice list" where
  "claim_pair_notices peers c =
     (case c of (sid, pid, x) \<Rightarrow>
        (case map_of peers sid of None \<Rightarrow> [] | Some p \<Rightarrow> pair_notices peers p x (Some pid)))"

definition assign_screen :: "track_env \<Rightarrow> screen_router \<Rightarrow> screen_router \<times> screen_notice list" where
  "assign_screen e s =
     (let (peers, h, claims) =
            assign_peers sp_outputs put_pairs op_publisher (free_pair e) claim_pair
              (ordered_watches (sr_peers s)) (screen_eligible e (sr_peers s))
              (ordered_screen_peers s) (sr_peers s) (sr_rewriters s)
      in (s\<lparr>sr_peers := peers, sr_rewriters := h\<rparr>,
          concat (map (claim_pair_notices (sr_peers s)) claims)))"

section \<open>Keyframe requests and publishing\<close>

definition request_keyframe :: "track_env \<Rightarrow> track_id option \<Rightarrow> sfu_effect list" where
  "request_keyframe e publisher_video =
     (case lock_track e publisher_video of
        None \<Rightarrow> []
      | Some input \<Rightarrow>
          if te_open e input \<and> te_keyframe_ok e input then [RequestKeyframe input] else [])"

text \<open>The counter of \<open>keyframe_requests\<close> follows the calls made.\<close>

definition count_keyframes :: "sfu_effect list \<Rightarrow> u64" where
  "count_keyframes es = of_nat (length (filter (\<lambda>x. case x of RequestKeyframe _ \<Rightarrow> True | _ \<Rightarrow> False) es))"

definition screen_request_keyframe ::
  "track_env \<Rightarrow> screen_router \<Rightarrow> track_id option \<Rightarrow> sfu_effect list \<times> screen_router" where
  "screen_request_keyframe e s publisher_video =
     (let es = request_keyframe e publisher_video
      in (es, s\<lparr>sr_keyframe_requests := sr_keyframe_requests s + count_keyframes es\<rparr>))"

definition publish_screen_notice :: "track_env \<Rightarrow> screen_notice \<Rightarrow> sfu_effect list" where
  "publish_screen_notice e n =
     (case lock_track e (sn_output n) of
        None \<Rightarrow> []
      | Some output \<Rightarrow>
          (case sn_publisher n of
             Some _ \<Rightarrow>
               SetSrReporter output (sn_ssrc n) (sn_cname n)
                 (primary_rtp_format (te_description e output) (if sn_video n then ''video'' else ''audio''))
                 (if sn_video n then Some (sn_publisher_video n) else None)
               # (if sn_video n then request_keyframe e (sn_publisher_video n) else [])
           | None \<Rightarrow> [ClearMediaHandler output]))
     @ (case sn_send n of None \<Rightarrow> [] | Some send \<Rightarrow> [SendBinding send (sn_mid n) (sn_publisher n)])"

definition publish_screen ::
  "track_env \<Rightarrow> screen_router \<Rightarrow> screen_notice list \<Rightarrow> sfu_effect list \<times> screen_router" where
  "publish_screen e s notices =
     (let es = concat (map (publish_screen_notice e) notices)
      in (es, s\<lparr>sr_keyframe_requests := sr_keyframe_requests s + count_keyframes es\<rparr>))"

section \<open>Registering an input\<close>

definition restart_pair :: "bool \<Rightarrow> peer_id \<Rightarrow> output_pair \<Rightarrow> heap \<Rightarrow> output_pair \<times> heap" where
  "restart_pair video owner x h =
     (if op_publisher x = Some owner then
        (if video then (let (v, h1) = begin_output (op_video x) h in (x\<lparr>op_video := v\<rparr>, h1))
         else (let (a, h1) = begin_output (op_audio x) h in (x\<lparr>op_audio := a\<rparr>, h1)))
      else (x, h))"

definition pairs_of ::
  "peer_id \<Rightarrow> (peer_id \<times> screen_peer) list \<Rightarrow> (screen_peer \<times> output_pair) list" where
  "pairs_of publisher peers =
     concat (map (\<lambda>(k, p). map (Pair p) (filter (\<lambda>x. op_publisher x = Some publisher) (sp_outputs p))) peers)"

definition screen_source_changed ::
  "track_env \<Rightarrow> (peer_id \<times> screen_peer) list \<Rightarrow> bool \<Rightarrow> peer_id \<Rightarrow> track_id \<Rightarrow> bool" where
  "screen_source_changed e peers video owner track \<longleftrightarrow>
     (case map_of peers owner of
        None \<Rightarrow> True
      | Some p \<Rightarrow> lock_track e (if video then sp_input_video p else sp_input_audio p) \<noteq> Some track)"

definition set_screen_input ::
  "bool \<Rightarrow> bool \<Rightarrow> track_id \<Rightarrow> byte option \<Rightarrow> binding_sender \<Rightarrow> screen_peer \<Rightarrow> screen_peer" where
  "set_screen_input source_changed video track mid_id send_binding p =
     (let p1 = p\<lparr>sp_send_binding := send_binding\<rparr>
      in if video then
           (if source_changed
            then p1\<lparr>sp_video_fault_state := new_fault_state, sp_video_link_state := new_link_state\<rparr> else p1)
           \<lparr>sp_input_video := Some track, sp_video_mid_extension_id := mid_id\<rparr>
         else
           (if source_changed
            then p1\<lparr>sp_audio_fault_state := new_fault_state, sp_audio_link_state := new_link_state\<rparr> else p1)
           \<lparr>sp_input_audio := Some track, sp_audio_mid_extension_id := mid_id\<rparr>)"

definition forwarding_edits :: "bool \<Rightarrow> media_description \<Rightarrow> description_edit list" where
  "forwarding_edits video description =
     apply_forwarding_feedback_policy description
     @ (if video then remove_auxiliary_video_codecs else [])"

definition register_screen_input ::
  "track_env \<Rightarrow> screen_router \<Rightarrow> peer_id \<Rightarrow> track_id \<Rightarrow> bool \<Rightarrow> binding_sender
     \<Rightarrow> sfu_effect list \<times> screen_router" where
  "register_screen_input e s owner track video send_binding =
     (let description = te_description e track;
          setup = [SetDescription track (forwarding_edits video description) None,
                   SetReceivingSession track,
                   OnMessageRoute track owner (if video then ''video'' else ''audio'')]
                  @ (if video then [OnOpenRequestKeyframe track] else [])
      in if sr_closed s then (setup, s)
         else
           (let s1 = screen_peer_for owner s;
                source_changed = screen_source_changed e (sr_peers s1) video owner track;
                peers1 =
                  adjust owner (set_screen_input source_changed video track
                    (mid_extension_id description) send_binding) (sr_peers s1);
                (peers2, h) =
                  (if source_changed
                   then update_peers sp_outputs put_pairs (restart_pair video owner) peers1 (sr_rewriters s1)
                   else (peers1, sr_rewriters s1));
                notices =
                  (if source_changed
                   then concat (map (\<lambda>(p, x). pair_notices peers1 p x (Some owner)) (pairs_of owner peers1))
                   else []);
                (s2, assigned) = assign_screen e (s1\<lparr>sr_peers := peers2, sr_rewriters := h\<rparr>);
                (published, s3) = publish_screen e s2 (notices @ assigned)
            in (setup @ published, s3)))"

section \<open>Registering an output\<close>

definition output_of :: "bool \<Rightarrow> output_pair \<Rightarrow> output_track option" where
  "output_of video x = (if video then op_video x else op_audio x)"

definition set_output :: "bool \<Rightarrow> output_track option \<Rightarrow> output_pair \<Rightarrow> output_pair" where
  "set_output video out x = (if video then x\<lparr>op_video := out\<rparr> else x\<lparr>op_audio := out\<rparr>)"

definition has_mid :: "bool \<Rightarrow> string \<Rightarrow> output_pair \<Rightarrow> bool" where
  "has_mid video mid x =
     (case output_of video x of None \<Rightarrow> False | Some t \<Rightarrow> ot_mid t = mid)"

text \<open>
  \<open>output_pair_for\<close>: the pair that has the mid, or the first without an output of this kind, with
  the pairs before and after it; \<open>None\<close> when a new pair is needed.
\<close>

definition output_pair_for ::
  "bool \<Rightarrow> string \<Rightarrow> output_pair list \<Rightarrow> (output_pair list \<times> output_pair \<times> output_pair list) option" where
  "output_pair_for video mid pairs =
     (case List.extract (has_mid video mid) pairs of
        Some found \<Rightarrow> Some found
      | None \<Rightarrow> List.extract (\<lambda>x. output_of video x = None) pairs)"

definition new_output_pair :: "u32 \<Rightarrow> output_pair" where
  "new_output_pair token =
     \<lparr>op_cname = ''driscord-screen-slot-'' @ to_string (unat token),
      op_video = None, op_audio = None, op_publisher = None\<rparr>"

definition clear_pair :: "output_pair \<Rightarrow> heap \<Rightarrow> output_pair \<times> heap" where
  "clear_pair x h =
     (if op_publisher x = None then (x, h)
      else
        (let (v, h1) = end_output (op_video x) h;
             (a, h2) = end_output (op_audio x) h1
         in (x\<lparr>op_video := v, op_audio := a, op_publisher := None\<rparr>, h2)))"

definition new_output_track :: "string \<Rightarrow> u32 \<Rightarrow> track_id \<Rightarrow> nat \<Rightarrow> output_track" where
  "new_output_track mid ssrc track ref =
     \<lparr>ot_mid = mid, ot_ssrc = ssrc, ot_track = Some track, ot_ready = False,
      ot_rewriter = ref, ot_generation = 0\<rparr>"

text \<open>
  Placing a track: the pair is cleared and gets the track. Returned are the pairs, the heap, the
  pair's cname, the pair that was released while bound (before the new track replaced one of its
  outputs), and the SSRC counter.
\<close>

definition place_pair ::
  "bool \<Rightarrow> output_track \<Rightarrow> u32 \<Rightarrow> output_pair list \<Rightarrow> heap
     \<Rightarrow> output_pair list \<times> heap \<times> string \<times> output_pair list \<times> u32" where
  "place_pair video t counter pairs h =
     (case output_pair_for video (ot_mid t) pairs of
        Some (before, x, after) \<Rightarrow>
          (let (x1, h1) = clear_pair x h
           in (before @ set_output video (Some t) x1 # after, h1, op_cname x,
               if op_publisher x = None then [] else [x1], counter))
      | None \<Rightarrow>
          (let (token, counter1) = allocate_slot_ssrc counter;
               x = new_output_pair token
           in (pairs @ [set_output video (Some t) x], h, op_cname x, [], counter1)))"

text \<open>
  The first critical section of \<open>register_output\<close>. It returns the notices, the SSRC and cname,
  and nothing when the router is closed.
\<close>

definition register_screen_output_begin ::
  "track_env \<Rightarrow> u32 \<Rightarrow> screen_router \<Rightarrow> peer_id \<Rightarrow> track_id \<Rightarrow> bool \<Rightarrow> binding_sender
     \<Rightarrow> (screen_notice list \<times> u32 \<times> string) option \<times> u32 \<times> screen_router" where
  "register_screen_output_begin e counter s owner track video send_binding =
     (let mid = te_mid e track;
          (ssrc, counter1) = allocate_slot_ssrc counter
      in if sr_closed s then (None, counter1, s)
         else
           (let s1 = screen_peer_for owner s;
                peers1 = adjust owner (\<lambda>p. p\<lparr>sp_send_binding := send_binding\<rparr>) (sr_peers s1);
                ref = sr_next_rewriter s1;
                pairs = (case map_of peers1 owner of None \<Rightarrow> [] | Some p \<Rightarrow> sp_outputs p);
                (pairs1, h, cname, released, counter2) =
                  place_pair video (new_output_track mid ssrc track ref) counter1 pairs (sr_rewriters s1);
                notices = concat (map (\<lambda>x. case map_of peers1 owner of
                            None \<Rightarrow> [] | Some p \<Rightarrow> pair_notices peers1 p x None) released)
            in (Some (notices, ssrc, cname), counter2,
                s1\<lparr>sr_peers := adjust owner (put_pairs pairs1) peers1,
                   sr_rewriters := h(ref := (if video then new_rewriter 90000 3000
                                             else new_rewriter 48000 960)),
                   sr_next_rewriter := ref + 1\<rparr>)))"

text \<open>\<open>output_by_mid\<close> and the assignment \<open>output->ready = true\<close> when it still holds the track.\<close>

definition mark_ready ::
  "track_env \<Rightarrow> bool \<Rightarrow> string \<Rightarrow> track_id \<Rightarrow> output_pair list \<Rightarrow> output_pair list" where
  "mark_ready e video mid track pairs =
     (case List.extract (has_mid video mid) pairs of
        None \<Rightarrow> pairs
      | Some (before, x, after) \<Rightarrow>
          (case output_of video x of
             None \<Rightarrow> pairs
           | Some t \<Rightarrow>
               if lock_track e (ot_track t) = Some track
               then before @ set_output video (Some (t\<lparr>ot_ready := True\<rparr>)) x # after
               else pairs))"

text \<open>The second critical section.\<close>

definition register_screen_output_commit ::
  "track_env \<Rightarrow> screen_router \<Rightarrow> peer_id \<Rightarrow> track_id \<Rightarrow> bool \<Rightarrow> string \<Rightarrow> screen_notice list \<times> screen_router" where
  "register_screen_output_commit e s owner track video mid =
     (if sr_closed s then ([], s)
      else
        (case map_of (sr_peers s) owner of
           None \<Rightarrow> ([], s)
         | Some p \<Rightarrow>
             (let s1 = s\<lparr>sr_peers :=
                        adjust owner (put_pairs (mark_ready e video mid track (sp_outputs p))) (sr_peers s)\<rparr>;
                  (s2, assigned) = assign_screen e s1
              in (assigned, s2))))"

definition register_screen_output ::
  "track_env \<Rightarrow> u32 \<Rightarrow> screen_router \<Rightarrow> peer_id \<Rightarrow> track_id \<Rightarrow> bool \<Rightarrow> binding_sender
     \<Rightarrow> sfu_effect list \<times> u32 \<times> screen_router" where
  "register_screen_output e counter s owner track video send_binding =
     (case register_screen_output_begin e counter s owner track video send_binding of
        (None, counter1, s1) \<Rightarrow> ([], counter1, s1)
      | (Some (notices, ssrc, cname), counter1, s1) \<Rightarrow>
          (let setup = [SetDescription track (forwarding_edits video (te_description e track))
                          (Some (ssrc, cname, ''driscord-screen'',
                                 cname @ ''-'' @ (if video then ''video'' else ''audio''))),
                        OnMessageIgnore track];
               (assigned, s2) = register_screen_output_commit e s1 owner track video (te_mid e track);
               (published, s3) = publish_screen e s2 (notices @ assigned)
           in (setup @ published, counter1, s3)))"

definition register_screen_track ::
  "track_env \<Rightarrow> u32 \<Rightarrow> screen_router \<Rightarrow> peer_id \<Rightarrow> track_id option \<Rightarrow> binding_sender
     \<Rightarrow> sfu_effect list \<times> u32 \<times> screen_router" where
  "register_screen_track e counter s owner track send_binding =
     (case track of
        None \<Rightarrow> ([], counter, s)
      | Some t \<Rightarrow>
          if te_media_type e t \<noteq> ''audio'' \<and> te_media_type e t \<noteq> ''video'' then ([], counter, s)
          else
            (case te_direction e t of
               RecvOnly \<Rightarrow>
                 (let (es, s1) = register_screen_input e s owner t (te_media_type e t = ''video'') send_binding
                  in (es, counter, s1))
             | SendOnly \<Rightarrow>
                 register_screen_output e counter s owner t (te_media_type e t = ''video'') send_binding
             | _ \<Rightarrow> ([], counter, s)))"

section \<open>Streaming, watching, removal\<close>

definition clear_if :: "peer_id \<Rightarrow> output_pair \<Rightarrow> heap \<Rightarrow> output_pair \<times> heap" where
  "clear_if pid x h = (if op_publisher x = Some pid then clear_pair x h else (x, h))"

definition cleared_notices :: "peer_id \<Rightarrow> (peer_id \<times> screen_peer) list \<Rightarrow> screen_notice list" where
  "cleared_notices pid peers = concat (map (\<lambda>(p, x). pair_notices peers p x None) (pairs_of pid peers))"

definition set_screen_streaming ::
  "track_env \<Rightarrow> screen_router \<Rightarrow> peer_id \<Rightarrow> bool \<Rightarrow> sfu_effect list \<times> screen_router" where
  "set_screen_streaming e s pid streaming =
     (if sr_closed s then ([], s)
      else
        (let s1 = screen_peer_for pid s
         in if map_option sp_streaming (map_of (sr_peers s1) pid) = Some streaming then ([], s1)
            else
              (let peers1 = adjust pid (\<lambda>p. p\<lparr>sp_streaming := streaming\<rparr>) (sr_peers s1);
                   notices = (if streaming then [] else cleared_notices pid peers1);
                   (peers2, h) =
                     (if streaming then (peers1, sr_rewriters s1)
                      else update_peers sp_outputs put_pairs (clear_if pid) peers1 (sr_rewriters s1));
                   (s2, assigned) = assign_screen e (s1\<lparr>sr_peers := peers2, sr_rewriters := h\<rparr>)
               in publish_screen e s2 (notices @ assigned))))"

definition start_watching :: "peer_id \<Rightarrow> screen_peer \<Rightarrow> screen_peer" where
  "start_watching publisher p =
     p\<lparr>sp_watched_publishers := sp_watched_publishers p @ [(publisher, sp_next_watch_order p)],
       sp_next_watch_order := sp_next_watch_order p + 1\<rparr>"

definition set_screen_watching ::
  "track_env \<Rightarrow> screen_router \<Rightarrow> peer_id \<Rightarrow> peer_id \<Rightarrow> bool \<Rightarrow> sfu_effect list \<times> screen_router" where
  "set_screen_watching e s pid publisher watching =
     (if pid = publisher \<or> sr_closed s then ([], s)
      else
        (let s1 = screen_peer_for pid s
         in case map_of (sr_peers s1) pid of
              None \<Rightarrow> ([], s1)
            | Some p \<Rightarrow>
                if watching = (publisher \<in> set (keys (sp_watched_publishers p))) then ([], s1)
                else if watching then
                  (let (s2, assigned) =
                         assign_screen e (s1\<lparr>sr_peers := adjust pid (start_watching publisher) (sr_peers s1)\<rparr>)
                   in publish_screen e s2 assigned)
                else
                  (let (xs, h) = update_slots (clear_if publisher) (sp_outputs p) (sr_rewriters s1);
                       p1 = p\<lparr>sp_watched_publishers := AList.delete publisher (sp_watched_publishers p)\<rparr>;
                       notices = concat (map (\<lambda>x. pair_notices (sr_peers s1) p1 x None)
                                   (filter (\<lambda>x. op_publisher x = Some publisher) (sp_outputs p)));
                       (s2, assigned) =
                         assign_screen e (s1\<lparr>sr_peers := adjust pid (\<lambda>_. put_pairs xs p1) (sr_peers s1),
                                             sr_rewriters := h\<rparr>)
                   in publish_screen e s2 (notices @ assigned))))"

definition unwatch :: "peer_id \<Rightarrow> screen_peer \<Rightarrow> screen_peer" where
  "unwatch pid p = p\<lparr>sp_watched_publishers := AList.delete pid (sp_watched_publishers p)\<rparr>"

definition remove_screen_peer :: "track_env \<Rightarrow> screen_router \<Rightarrow> peer_id \<Rightarrow> sfu_effect list \<times> screen_router" where
  "remove_screen_peer e s pid =
     (if sr_closed s then ([], s)
      else
        (let peers1 = map_vals (unwatch pid) (AList.delete pid (sr_peers s));
             notices = cleared_notices pid peers1;
             (peers2, h) = update_peers sp_outputs put_pairs (clear_if pid) peers1 (sr_rewriters s);
             (s1, assigned) = assign_screen e (s\<lparr>sr_peers := peers2, sr_rewriters := h\<rparr>)
         in publish_screen e s1 (notices @ assigned)))"

definition update_screen_fault_config :: "rtp_fault_config \<Rightarrow> screen_router \<Rightarrow> screen_router" where
  "update_screen_fault_config config s = s\<lparr>sr_fault_config := config\<rparr>"

definition screen_tracks :: "track_env \<Rightarrow> (peer_id \<times> screen_peer) list \<Rightarrow> track_id list" where
  "screen_tracks e peers =
     concat (map (\<lambda>(k, p). List.map_filter (lock_track e)
        (sp_input_video p # sp_input_audio p #
         concat (map (\<lambda>x. map (\<lambda>out. Option.bind out ot_track) [op_video x, op_audio x]) (sp_outputs p)))) peers)"

definition close_screen :: "track_env \<Rightarrow> screen_router \<Rightarrow> sfu_effect list \<times> screen_router" where
  "close_screen e s =
     (if sr_closed s then ([], s)
      else
        (concat (map (\<lambda>t. [ClearOnMessage t, ClearMediaHandler t]) (screen_tracks e (sr_peers s))),
         s\<lparr>sr_closed := True, sr_delay_queue := [], sr_delay_timer := None, sr_peers := []\<rparr>))"

record screen_stats =
  ss_streaming_publishers :: nat
  ss_bound_slots :: nat
  ss_free_slots :: nat
  ss_video_packets_in :: u64
  ss_video_packets_out :: u64
  ss_video_bytes_out :: u64
  ss_audio_packets_in :: u64
  ss_audio_packets_out :: u64
  ss_audio_bytes_out :: u64
  ss_keyframe_requests :: u64

definition screen_router_stats :: "track_env \<Rightarrow> screen_router \<Rightarrow> screen_stats" where
  "screen_router_stats e s =
     (let pairs = slots sp_outputs (sr_peers s)
      in \<lparr>ss_streaming_publishers =
            length (filter (\<lambda>(k, p). sp_streaming p \<and> \<not> expired e (sp_input_video p)) (sr_peers s)),
          ss_bound_slots = length (filter (\<lambda>x. op_publisher x \<noteq> None) pairs),
          ss_free_slots = length (filter (\<lambda>x. op_publisher x = None) pairs),
          ss_video_packets_in = sr_video_packets_in s, ss_video_packets_out = sr_video_packets_out s,
          ss_video_bytes_out = sr_video_bytes_out s, ss_audio_packets_in = sr_audio_packets_in s,
          ss_audio_packets_out = sr_audio_packets_out s, ss_audio_bytes_out = sr_audio_bytes_out s,
          ss_keyframe_requests = sr_keyframe_requests s\<rparr>)"

section \<open>Routing packets\<close>

definition output_target :: "output_track \<Rightarrow> target" where
  "output_target t =
     \<lparr>tg_track = ot_track t, tg_ssrc = ot_ssrc t, tg_rewriter = ot_rewriter t,
      tg_generation = ot_generation t\<rparr>"

definition collect_screen_targets :: "screen_router \<Rightarrow> peer_id \<Rightarrow> bool \<Rightarrow> target list" where
  "collect_screen_targets s publisher video =
     map output_target
       (filter ot_ready
         (List.map_filter (output_of video)
           (filter (\<lambda>x. op_publisher x = Some publisher) (slots sp_outputs (sr_peers s)))))"

definition sp_input :: "bool \<Rightarrow> screen_peer \<Rightarrow> track_id option" where
  "sp_input video p = (if video then sp_input_video p else sp_input_audio p)"

definition sp_mid_extension_id :: "bool \<Rightarrow> screen_peer \<Rightarrow> byte option" where
  "sp_mid_extension_id video p = (if video then sp_video_mid_extension_id p else sp_audio_mid_extension_id p)"

definition sp_fault_state :: "bool \<Rightarrow> screen_peer \<Rightarrow> rtp_fault_state" where
  "sp_fault_state video p = (if video then sp_video_fault_state p else sp_audio_fault_state p)"

definition sp_link_state :: "bool \<Rightarrow> screen_peer \<Rightarrow> link_model_state" where
  "sp_link_state video p = (if video then sp_video_link_state p else sp_audio_link_state p)"

definition set_sp_states :: "bool \<Rightarrow> rtp_fault_state \<Rightarrow> link_model_state \<Rightarrow> screen_peer \<Rightarrow> screen_peer" where
  "set_sp_states video f l p =
     (if video then p\<lparr>sp_video_fault_state := f, sp_video_link_state := l\<rparr>
      else p\<lparr>sp_audio_fault_state := f, sp_audio_link_state := l\<rparr>)"

definition count_packet_in :: "bool \<Rightarrow> screen_router \<Rightarrow> screen_router" where
  "count_packet_in video s =
     (if video then s\<lparr>sr_video_packets_in := sr_video_packets_in s + 1\<rparr>
      else s\<lparr>sr_audio_packets_in := sr_audio_packets_in s + 1\<rparr>)"

definition route_screen_locked ::
  "track_env \<Rightarrow> screen_router \<Rightarrow> peer_id \<Rightarrow> bool \<Rightarrow> track_id option \<Rightarrow> packet
     \<Rightarrow> sfu_effect list \<times> pending \<times> screen_router" where
  "route_screen_locked e s publisher video expected_input packet =
     (if sr_closed s then ([], None, s)
      else
        (case map_of (sr_peers s) publisher of
           None \<Rightarrow> ([], None, s)
         | Some source \<Rightarrow>
             if lock_track e (sp_input video source) \<noteq> lock_track e expected_input
                \<or> \<not> sp_streaming source then ([], None, s)
             else
               (let rtcp = te_is_rtcp e packet;
                    s1 = (if rtcp then s else count_packet_in video s)
                in if \<not> rtcp \<and> link_down (sr_fault_config s1) then ([], None, s1)
                   else
                     (let (faulted, fault_state) =
                            apply_rtp_faults (te_is_rtcp e) (sr_fault_config s1)
                              (sp_fault_state video source) packet;
                          (immediate, link_state, queue, timer) =
                            schedule_all e (sr_fault_config s1) (sr_executor s1) rtcp
                              (\<lambda>pk. \<lparr>sd_publisher = publisher, sd_video = video,
                                    sd_expected_input = expected_input, sd_packet = pk\<rparr>)
                              (faulted_packets faulted) (sp_link_state video source)
                              (sr_delay_queue s1) (sr_delay_timer s1);
                          s2 = s1\<lparr>sr_peers := adjust publisher (set_sp_states video fault_state link_state)
                                    (sr_peers s1),
                                  sr_delay_queue := queue, sr_delay_timer := timer\<rparr>;
                          taps = (case tapped faulted of None \<Rightarrow> [] | Some p \<Rightarrow> [TapPacket p])
                      in if immediate = [] then (taps, None, s2)
                         else (taps,
                               Some (collect_screen_targets s2 publisher video,
                                     sp_mid_extension_id video source, immediate), s2)))))"

definition send_screen_packets ::
  "track_env \<Rightarrow> bool \<Rightarrow> screen_router \<Rightarrow> pending \<Rightarrow> sfu_effect list \<times> screen_router" where
  "send_screen_packets e video s pend =
     (case pend of
        None \<Rightarrow> ([], s)
      | Some (targets, mid_id, outgoing) \<Rightarrow>
          (let (es, h, sizes) = send_packets_loop e mid_id targets outgoing (sr_rewriters s);
               s1 = s\<lparr>sr_rewriters := h\<rparr>
           in (es,
               if video then
                 s1\<lparr>sr_video_packets_out := sr_video_packets_out s + of_nat (length sizes),
                    sr_video_bytes_out := sr_video_bytes_out s + of_nat (sum_list sizes)\<rparr>
               else
                 s1\<lparr>sr_audio_packets_out := sr_audio_packets_out s + of_nat (length sizes),
                    sr_audio_bytes_out := sr_audio_bytes_out s + of_nat (sum_list sizes)\<rparr>)))"

definition route_screen ::
  "track_env \<Rightarrow> screen_router \<Rightarrow> peer_id \<Rightarrow> bool \<Rightarrow> track_id option \<Rightarrow> packet
     \<Rightarrow> sfu_effect list \<times> screen_router" where
  "route_screen e s publisher video expected_input packet =
     (let (es, pend, s1) = route_screen_locked e s publisher video expected_input packet;
          (es', s2) = send_screen_packets e video s1 pend
      in (es @ es', s2))"

definition flush_screen_locked :: "track_env \<Rightarrow> screen_router \<Rightarrow> screen_delayed list \<times> screen_router" where
  "flush_screen_locked e s =
     (if sr_closed s then ([], s)
      else
        (let (due, queue) = take_due (te_now_us e) (sr_delay_queue s)
         in (due, s\<lparr>sr_delay_queue := queue,
                    sr_delay_timer := arm_delay_timer (sr_executor s) queue (sr_delay_timer s)\<rparr>)))"

definition forward_screen_locked :: "track_env \<Rightarrow> screen_router \<Rightarrow> screen_delayed \<Rightarrow> pending \<times> screen_router" where
  "forward_screen_locked e s item =
     (if sr_closed s then (None, s)
      else
        (case map_of (sr_peers s) (sd_publisher item) of
           None \<Rightarrow> (None, s)
         | Some source \<Rightarrow>
             if lock_track e (sp_input (sd_video item) source) \<noteq> lock_track e (sd_expected_input item)
                \<or> \<not> sp_streaming source then (None, s)
             else
               (let link = sp_link_state (sd_video item) source;
                    s1 = (if 0 < queued_packets link
                          then s\<lparr>sr_peers := adjust (sd_publisher item)
                                   (set_sp_states (sd_video item) (sp_fault_state (sd_video item) source)
                                     (link\<lparr>queued_packets := queued_packets link - 1\<rparr>)) (sr_peers s)\<rparr>
                          else s)
                in (Some (collect_screen_targets s1 (sd_publisher item) (sd_video item),
                          sp_mid_extension_id (sd_video item) source, [sd_packet item]), s1))))"

fun forward_screen_all :: "track_env \<Rightarrow> screen_router \<Rightarrow> screen_delayed list \<Rightarrow> sfu_effect list \<times> screen_router" where
  "forward_screen_all e s [] = ([], s)"
| "forward_screen_all e s (item # items) =
     (let (pend, s1) = forward_screen_locked e s item;
          (es, s2) = send_screen_packets e (sd_video item) s1 pend;
          (es', s3) = forward_screen_all e s2 items
      in (es @ es', s3))"

definition flush_screen_delayed :: "track_env \<Rightarrow> screen_router \<Rightarrow> sfu_effect list \<times> screen_router" where
  "flush_screen_delayed e s =
     (let (due, s1) = flush_screen_locked e s in forward_screen_all e s1 due)"

section \<open>The pair operations obey the slot contracts\<close>

definition output_refs :: "output_track option \<Rightarrow> nat set" where
  "output_refs out = set_option (map_option ot_rewriter out)"

definition pair_refs :: "output_pair \<Rightarrow> nat set" where
  "pair_refs x = output_refs (op_video x) \<union> output_refs (op_audio x)"

definition target_at :: "nat \<Rightarrow> output_track option \<Rightarrow> target option" where
  "target_at r out =
     (case out of None \<Rightarrow> None
      | Some t \<Rightarrow> if ot_rewriter t = r \<and> ot_ready t then Some (output_target t) else None)"

definition pair_view :: "output_pair \<Rightarrow> nat \<Rightarrow> (peer_id \<times> target option \<times> target option) option" where
  "pair_view x r =
     map_option (\<lambda>p. (p, target_at r (op_video x), target_at r (op_audio x))) (op_publisher x)"

lemma output_refs_simps [simp]: "output_refs None = {}" "output_refs (Some t) = {ot_rewriter t}"
  by (simp_all add: output_refs_def)

lemma begin_output_refs [simp]: "output_refs (fst (begin_output out h)) = output_refs out"
  by (cases out) (simp_all add: begin_output_def begin_source_generation)

lemma end_output_refs [simp]: "output_refs (fst (end_output out h)) = output_refs out"
  by (cases out) (simp_all add: end_output_def)

lemma begin_output_frame: "r \<notin> output_refs out \<Longrightarrow> snd (begin_output out h) r = h r"
  by (cases out) (simp_all add: begin_output_def begin_source_generation)

lemma end_output_frame: "r \<notin> output_refs out \<Longrightarrow> snd (end_output out h) r = h r"
  by (cases out) (simp_all add: end_output_def)

lemma claim_pair_eq:
  "claim_pair p x h =
     (x\<lparr>op_publisher := Some p, op_video := fst (begin_output (op_video x) h),
        op_audio := fst (begin_output (op_audio x) (snd (begin_output (op_video x) h)))\<rparr>,
      snd (begin_output (op_audio x) (snd (begin_output (op_video x) h))))"
  by (simp add: claim_pair_def case_prod_beta)

lemma clear_pair_eq:
  "clear_pair x h =
     (if op_publisher x = None then (x, h)
      else (x\<lparr>op_publisher := None, op_video := fst (end_output (op_video x) h),
              op_audio := fst (end_output (op_audio x) (snd (end_output (op_video x) h)))\<rparr>,
            snd (end_output (op_audio x) (snd (end_output (op_video x) h)))))"
  by (simp add: clear_pair_def case_prod_beta)

lemma begin_output_reads:
  "(\<And>r. r \<in> output_refs out \<Longrightarrow> h r = g r) \<Longrightarrow>
   fst (begin_output out h) = fst (begin_output out g) \<and> (h r = g r \<longrightarrow> snd (begin_output out h) r = snd (begin_output out g) r)"
  by (cases out) (auto simp: begin_output_def begin_source_generation)

lemma end_output_reads:
  "(\<And>r. r \<in> output_refs out \<Longrightarrow> h r = g r) \<Longrightarrow>
   fst (end_output out h) = fst (end_output out g) \<and> (h r = g r \<longrightarrow> snd (end_output out h) r = snd (end_output out g) r)"
  by (cases out) (auto simp: end_output_def)

lemma claim_pair_operation: "slot_operation pair_refs (claim_pair p)"
proof
  fix x and h g :: heap and r
  show "pair_refs (fst (claim_pair p x h)) = pair_refs x"
    by (simp add: claim_pair_eq pair_refs_def)
  show "r \<notin> pair_refs x \<Longrightarrow> snd (claim_pair p x h) r = h r"
    by (simp add: claim_pair_eq pair_refs_def begin_output_frame)
  assume "\<And>r. r \<in> pair_refs x \<Longrightarrow> h r = g r"
  then have v: "\<And>r. r \<in> output_refs (op_video x) \<Longrightarrow> h r = g r" and a: "\<And>r. r \<in> output_refs (op_audio x) \<Longrightarrow> h r = g r"
    by (auto simp: pair_refs_def)
  note v' = begin_output_reads [of "op_video x" h g, OF v]
  have "\<And>r. r \<in> output_refs (op_audio x) \<Longrightarrow>
      snd (begin_output (op_video x) h) r = snd (begin_output (op_video x) g) r"
    using a v' by blast
  from begin_output_reads [of "op_audio x" "snd (begin_output (op_video x) h)"
      "snd (begin_output (op_video x) g)", OF this] v' v a
  show "fst (claim_pair p x h) = fst (claim_pair p x g) \<and>
      (\<forall>r\<in>pair_refs x. snd (claim_pair p x h) r = snd (claim_pair p x g) r)"
    by (auto simp: claim_pair_eq pair_refs_def)
qed

lemma clear_pair_operation: "slot_operation pair_refs clear_pair"
proof
  fix x and h g :: heap and r
  show "pair_refs (fst (clear_pair x h)) = pair_refs x"
    by (simp add: clear_pair_eq pair_refs_def)
  show "r \<notin> pair_refs x \<Longrightarrow> snd (clear_pair x h) r = h r"
    by (simp add: clear_pair_eq pair_refs_def end_output_frame)
  assume eq: "\<And>r. r \<in> pair_refs x \<Longrightarrow> h r = g r"
  then have v: "\<And>r. r \<in> output_refs (op_video x) \<Longrightarrow> h r = g r" and a: "\<And>r. r \<in> output_refs (op_audio x) \<Longrightarrow> h r = g r"
    by (auto simp: pair_refs_def)
  note v' = end_output_reads [of "op_video x" h g, OF v]
  have "\<And>r. r \<in> output_refs (op_audio x) \<Longrightarrow>
      snd (end_output (op_video x) h) r = snd (end_output (op_video x) g) r"
    using a v' by blast
  from end_output_reads [of "op_audio x" "snd (end_output (op_video x) h)"
      "snd (end_output (op_video x) g)", OF this] v' v a
  show "fst (clear_pair x h) = fst (clear_pair x g) \<and>
      (\<forall>r\<in>pair_refs x. snd (clear_pair x h) r = snd (clear_pair x g) r)"
    using eq by (auto simp: clear_pair_eq pair_refs_def)
qed

interpretation restart_op: slot_operation pair_refs "restart_pair video owner" for video owner
proof
  fix x and h g :: heap and r
  show "pair_refs (fst (restart_pair video owner x h)) = pair_refs x"
    by (simp add: restart_pair_def pair_refs_def case_prod_beta)
  show "r \<notin> pair_refs x \<Longrightarrow> snd (restart_pair video owner x h) r = h r"
    by (simp add: restart_pair_def pair_refs_def case_prod_beta begin_output_frame)
  assume eq: "\<And>r. r \<in> pair_refs x \<Longrightarrow> h r = g r"
  then have "\<And>r. r \<in> output_refs (op_video x) \<Longrightarrow> h r = g r" "\<And>r. r \<in> output_refs (op_audio x) \<Longrightarrow> h r = g r"
    by (auto simp: pair_refs_def)
  from begin_output_reads [OF this(1)] begin_output_reads [OF this(2)] eq
  show "fst (restart_pair video owner x h) = fst (restart_pair video owner x g) \<and>
      (\<forall>r\<in>pair_refs x. snd (restart_pair video owner x h) r = snd (restart_pair video owner x g) r)"
    by (auto simp: restart_pair_def case_prod_beta)
qed

interpretation clear_op: slot_operation pair_refs "clear_if pid" for pid
  using clear_pair_operation unfolding slot_operation_def clear_if_def by auto


lemma begin_output_publisher [simp]:
  "op_publisher (fst (restart_pair video owner x h)) = op_publisher x"
  "op_publisher (fst (claim_pair p x h)) = Some p"
  "op_publisher (fst (clear_pair x h)) = None"
  "op_publisher (fst (clear_if pid x h)) = (if op_publisher x = Some pid then None else op_publisher x)"
  by (simp_all add: restart_pair_def claim_pair_eq clear_pair_eq clear_if_def case_prod_beta)

text \<open>How often the two loops over a pair advance the generation of a reference: once per output.\<close>

lemma begin_output_generation:
  "generation (snd (begin_output out h) r) = generation (h r) + (if r \<in> output_refs out then 1 else 0)"
  by (cases out) (simp_all add: begin_output_def begin_source_generation)

lemma end_output_generation:
  "generation (snd (end_output out h) r) = generation (h r) + (if r \<in> output_refs out then 1 else 0)"
  by (cases out) (simp_all add: end_output_def end_source_def)

lemma claim_pair_lawful: "lawful pair_refs pair_view 2 x h (fst (claim_pair p x h)) (snd (claim_pair p x h))"
  unfolding lawful_def
proof (intro conjI ballI)
  show "pair_refs (fst (claim_pair p x h)) = pair_refs x"
    by (rule slot_operation.same_refs [OF claim_pair_operation])
  fix r assume "r \<in> pair_refs x"
  then show "\<exists>k\<le>2. bumped k h (snd (claim_pair p x h)) r \<and>
      (k = 0 \<longrightarrow> pair_view (fst (claim_pair p x h)) r = pair_view x r)"
    by (intro exI [of _ "(if r \<in> output_refs (op_video x) then 1 else 0) +
          (if r \<in> output_refs (op_audio x) then 1 else 0)"])
      (auto simp: pair_refs_def bumped_def claim_pair_eq begin_output_generation)
qed

lemma clear_pair_lawful: "lawful pair_refs pair_view 2 x h (fst (clear_pair x h)) (snd (clear_pair x h))"
proof (cases "op_publisher x = None")
  case True
  then show ?thesis by (simp add: clear_pair_eq lawful_refl)
next
  case False
  show ?thesis unfolding lawful_def
  proof (intro conjI ballI)
    show "pair_refs (fst (clear_pair x h)) = pair_refs x"
      by (rule slot_operation.same_refs [OF clear_pair_operation])
    fix r assume "r \<in> pair_refs x"
    with False show "\<exists>k\<le>2. bumped k h (snd (clear_pair x h)) r \<and>
        (k = 0 \<longrightarrow> pair_view (fst (clear_pair x h)) r = pair_view x r)"
      by (intro exI [of _ "(if r \<in> output_refs (op_video x) then 1 else 0) +
            (if r \<in> output_refs (op_audio x) then 1 else 0)"])
        (auto simp: pair_refs_def bumped_def clear_pair_eq end_output_generation)
  qed
qed

lemma clear_if_lawful: "lawful pair_refs pair_view 2 x h (fst (clear_if pid x h)) (snd (clear_if pid x h))"
  using clear_pair_lawful by (simp add: clear_if_def lawful_refl)

lemma target_at_begin:
  "r \<notin> output_refs out \<Longrightarrow> target_at r (fst (begin_output out h)) = target_at r out"
  by (cases out) (auto simp: target_at_def begin_output_def begin_source_generation output_target_def)

lemma restart_pair_lawful:
  "lawful pair_refs pair_view 2 x h (fst (restart_pair video owner x h)) (snd (restart_pair video owner x h))"
proof (cases "op_publisher x = Some owner")
  case False
  then show ?thesis by (simp add: restart_pair_def lawful_refl)
next
  case True
  show ?thesis unfolding lawful_def
  proof (intro conjI ballI)
    show "pair_refs (fst (restart_pair video owner x h)) = pair_refs x" by (rule restart_op.same_refs)
    fix r
    have "target_at r (fst (begin_output (output_of video x) h)) = target_at r (output_of video x)"
      if "r \<notin> output_refs (output_of video x)" using that by (rule target_at_begin)
    with True show "\<exists>k\<le>2. bumped k h (snd (restart_pair video owner x h)) r \<and>
        (k = 0 \<longrightarrow> pair_view (fst (restart_pair video owner x h)) r = pair_view x r)"
      by (intro exI [of _ "if r \<in> output_refs (output_of video x) then 1 else 0"])
        (auto simp: bumped_def restart_pair_def case_prod_beta begin_output_generation pair_view_def
          output_of_def)
  qed
qed

interpretation st: lawful_slot_table pair_refs "free_pair e" op_publisher claim_pair sp_outputs
  put_pairs "ordered_watches peers" pair_view 2 for e peers
  by unfold_locales
    (auto simp: free_pair_def ordered_watches_def slot_operation.same_refs [OF claim_pair_operation]
      slot_operation.frame [OF claim_pair_operation] intro: claim_pair_lawful
      slot_operation.reads [OF claim_pair_operation, THEN conjunct1]
      slot_operation.reads [OF claim_pair_operation, THEN conjunct2, THEN bspec])

section \<open>The invariant of the pair table\<close>

text \<open>
  \<open>S\<close> is the set of peers that stream a video. A bound pair has both of its outputs, each ready and
  with the current generation of a rewriter of its own; it names a peer of \<open>S\<close> other than its own.
  A peer's pairs have distinct publishers, all of them watched by the peer.
\<close>

definition output_ok :: "heap \<Rightarrow> output_track option \<Rightarrow> bool" where
  "output_ok h out \<longleftrightarrow>
     (case out of None \<Rightarrow> False | Some t \<Rightarrow> ot_ready t \<and> ot_generation t = generation (h (ot_rewriter t)))"

definition screen_pair_ok :: "peer_id set \<Rightarrow> heap \<Rightarrow> peer_id \<Rightarrow> output_pair \<Rightarrow> bool" where
  "screen_pair_ok S h k x \<longleftrightarrow>
     output_refs (op_video x) \<inter> output_refs (op_audio x) = {} \<and>
     (case op_publisher x of
        None \<Rightarrow> True
      | Some q \<Rightarrow> q \<noteq> k \<and> q \<in> S \<and> output_ok h (op_video x) \<and> output_ok h (op_audio x))"

definition pair_publishers :: "output_pair list \<Rightarrow> peer_id list" where
  "pair_publishers xs = List.map_filter op_publisher xs"

definition screen_peer_ok :: "peer_id set \<Rightarrow> heap \<Rightarrow> peer_id \<Rightarrow> screen_peer \<Rightarrow> bool" where
  "screen_peer_ok S h k p \<longleftrightarrow>
     distinct (pair_publishers (sp_outputs p)) \<and>
     set (pair_publishers (sp_outputs p)) \<subseteq> set (keys (sp_watched_publishers p)) \<and>
     (\<forall>x\<in>set (sp_outputs p). screen_pair_ok S h k x)"

definition screen_table_ok :: "peer_id set \<Rightarrow> (peer_id \<times> screen_peer) list \<Rightarrow> heap \<Rightarrow> nat \<Rightarrow> bool" where
  "screen_table_ok S peers h n \<longleftrightarrow>
     distinct (keys peers) \<and> pairwise_disjoint pair_refs (slots sp_outputs peers) \<and>
     (\<forall>x\<in>set (slots sp_outputs peers). \<forall>r\<in>pair_refs x. r < n) \<and>
     (\<forall>(k, p)\<in>set peers. screen_peer_ok S h k p)"

lemma publishers_screen: "st.publishers = pair_publishers"
  by (simp add: fun_eq_iff st.publishers_def pair_publishers_def)

lemma pair_publishers_simps [simp]:
  "pair_publishers [] = []"
  "pair_publishers (x # xs) =
     (case op_publisher x of None \<Rightarrow> pair_publishers xs | Some p \<Rightarrow> p # pair_publishers xs)"
  "pair_publishers (xs @ ys) = pair_publishers xs @ pair_publishers ys"
  by (auto simp: pair_publishers_def map_filter_def split: option.splits)

lemma in_pair_publishers: "p \<in> set (pair_publishers xs) \<longleftrightarrow> (\<exists>x\<in>set xs. op_publisher x = Some p)"
  by (induction xs) (auto split: option.splits)

lemma pair_publishers_map:
  assumes "\<And>x. op_publisher (g x) = op_publisher x \<or> op_publisher (g x) = None"
    and "distinct (pair_publishers xs)"
  shows "distinct (pair_publishers (map g xs)) \<and> set (pair_publishers (map g xs)) \<subseteq> set (pair_publishers xs)"
  using assms(2)
proof (induction xs)
  case (Cons x xs)
  then show ?case using assms(1) [of x] by (auto split: option.splits)
qed simp

lemma screen_pair_ok_heap:
  assumes "\<And>r. r \<in> pair_refs x \<Longrightarrow> generation (h' r) = generation (h r)"
  shows "screen_pair_ok S h' k x = screen_pair_ok S h k x"
  using assms unfolding screen_pair_ok_def output_ok_def pair_refs_def
  by (auto split: option.splits)

lemma output_ok_begin [simp]:
  "out \<noteq> None \<Longrightarrow> output_ok (snd (begin_output out h)) (fst (begin_output out h)) \<longleftrightarrow> (\<exists>t. out = Some t \<and> ot_ready t)"
  by (cases out) (auto simp: output_ok_def begin_output_def begin_source_generation)

lemma output_ok_heap:
  "(\<And>r. r \<in> output_refs out \<Longrightarrow> generation (h' r) = generation (h r)) \<Longrightarrow> output_ok h' out = output_ok h out"
  by (cases out) (simp_all add: output_ok_def)

lemma output_ok_begin_other:
  "output_refs out \<inter> output_refs out' = {} \<Longrightarrow> output_ok (snd (begin_output out' h)) out = output_ok h out"
  by (rule output_ok_heap) (auto simp: begin_output_generation)

lemma ready_outputD: "ready_output e out \<Longrightarrow> \<exists>t. out = Some t \<and> ot_ready t"
  by (auto simp: ready_output_def split: option.splits)

lemma claim_pair_ok:
  assumes "screen_pair_ok S h k x" and "free_pair e x" and "q \<noteq> k" "q \<in> S"
  shows "screen_pair_ok S (snd (claim_pair q x h)) k (fst (claim_pair q x h))"
proof -
  obtain v a where va: "op_video x = Some v" "ot_ready v" "op_audio x = Some a" "ot_ready a"
    using assms(2) by (auto simp: free_pair_def dest!: ready_outputD)
  moreover have "ot_rewriter v \<noteq> ot_rewriter a" using assms(1) va by (simp add: screen_pair_ok_def)
  ultimately show ?thesis
    using assms(3,4)
    by (simp add: screen_pair_ok_def claim_pair_eq output_ok_def begin_output_def begin_source_generation)
qed

lemma restart_pair_ok:
  assumes "screen_pair_ok S h k x"
  shows "screen_pair_ok S (snd (restart_pair video owner x h)) k (fst (restart_pair video owner x h))"
proof (cases "op_publisher x = Some owner")
  case False
  then show ?thesis using assms by (simp add: restart_pair_def)
next
  case True
  then obtain v a where "op_video x = Some v" "ot_ready v" "op_audio x = Some a" "ot_ready a"
    using assms by (auto simp: screen_pair_ok_def output_ok_def split: option.splits)
  then show ?thesis
    using assms True by (cases video)
      (auto simp: screen_pair_ok_def restart_pair_def output_ok_def begin_output_def begin_source_generation)
qed

lemma clear_pair_ok:
  assumes "screen_pair_ok S h k x"
  shows "screen_pair_ok S' (snd (clear_pair x h)) k (fst (clear_pair x h))"
  using assms by (simp add: screen_pair_ok_def clear_pair_eq)

lemma clear_if_ok:
  assumes "screen_pair_ok S h k x"
  shows "screen_pair_ok (S - {pid}) (snd (clear_if pid x h)) k (fst (clear_if pid x h))"
  using assms by (auto simp: clear_if_def clear_pair_ok) (auto simp: screen_pair_ok_def split: option.splits)

lemma screen_pair_ok_mono: "screen_pair_ok S h k x \<Longrightarrow> S \<subseteq> S' \<Longrightarrow> screen_pair_ok S' h k x"
  by (auto simp: screen_pair_ok_def split: option.splits)

text \<open>Assignment and the loops over all pairs keep the table.\<close>

lemma screen_kept_or_claimed_ok:
  assumes "st.kept_or_claimed e eligible x h y h'" and "screen_pair_ok S h k x"
    and "\<And>q. eligible q \<Longrightarrow> q \<noteq> k \<and> q \<in> S"
  shows "screen_pair_ok S h' k y"
proof (cases "y = x \<and> (\<forall>r\<in>pair_refs x. h' r = h r)")
  case True
  with assms(2) show ?thesis by (subst screen_pair_ok_heap [of _ h' h]) auto
next
  case False
  with assms(1) obtain p where p: "free_pair e x" "eligible p" "y = fst (claim_pair p x h)"
      "\<forall>r\<in>pair_refs x. h' r = snd (claim_pair p x h) r"
    by (auto simp: st.kept_or_claimed_def)
  then have "screen_pair_ok S (snd (claim_pair p x h)) k y"
    using assms(2,3) claim_pair_ok by blast
  moreover have "pair_refs y = pair_refs x" by (simp add: p(3) st.claim_refs)
  ultimately show ?thesis using p(4) by (subst screen_pair_ok_heap [of _ h' "snd (claim_pair p x h)"]) auto
qed

lemma assign_pairs_ok:
  assumes ok: "screen_table_ok S peers h n"
    and run: "assign_peers sp_outputs put_pairs op_publisher (free_pair e) claim_pair (ordered_watches ps)
           eligible subs peers h = (peers', h', claims)"
    and eligible: "\<And>k q. eligible k q \<Longrightarrow> q \<noteq> k \<and> q \<in> S"
    and order: "\<And>p. set (ordered_watches ps p) = set (keys (sp_watched_publishers p))"
  shows "screen_table_ok S peers' h' n"
proof -
  have wf: "distinct (keys peers)" "pairwise_disjoint pair_refs (slots sp_outputs peers)"
    using ok by (simp_all add: screen_table_ok_def)
  note rel = conjunct1 [OF st.assign_peers_related [OF run wf]]
  note refs = st.assigned_slots_refs [OF rel]
  have outputs: "screen_peer_ok S h' k p'" if in_peers': "(k, p') \<in> set peers'" for k p'
  proof -
    have "map_of peers' k = Some p'"
      using in_peers' wf(1) peers_related_keys [OF rel] by simp
    then obtain p where p: "map_of peers k = Some p"
        "st.assigned_peer e ps eligible h h' k p p'"
      using peers_related_map_of(2) [OF rel] by blast
    then have old: "screen_peer_ok S h k p"
      using ok map_of_SomeD [OF p(1)] by (auto simp: screen_table_ok_def)
    have all: "list_all2 (\<lambda>x y. st.kept_or_claimed e (eligible k) x h y h') (sp_outputs p) (sp_outputs p')"
      and pubs: "distinct (pair_publishers (sp_outputs p'))"
        "set (pair_publishers (sp_outputs p')) \<subseteq> set (keys (sp_watched_publishers p))"
      and same: "p' = put_pairs (sp_outputs p') p"
      using p(2) old order unfolding st.assigned_peer_def screen_peer_ok_def publishers_screen by blast+
    have "sp_watched_publishers p' = sp_watched_publishers p" by (subst same) simp
    moreover have "\<forall>y\<in>set (sp_outputs p'). screen_pair_ok S h' k y"
      using all old screen_kept_or_claimed_ok [of e "eligible k"] eligible
      unfolding screen_peer_ok_def
      by (metis (no_types, lifting) list_all2_conv_all_nth in_set_conv_nth nth_mem)
    ultimately show ?thesis using pubs by (simp add: screen_peer_ok_def)
  qed
  have "(\<forall>x\<in>set (slots sp_outputs peers'). \<forall>r\<in>pair_refs x. r < n)"
    using ok st.refs_slots_cong [OF refs] unfolding screen_table_ok_def by blast
  with outputs ok pairwise_disjoint_cong [OF refs] peers_related_keys [OF rel] show ?thesis
    unfolding screen_table_ok_def by auto
qed

lemma update_pairs_ok:
  assumes op: "slot_operation pair_refs f"
    and ok: "screen_table_ok S peers h n"
    and run: "update_peers sp_outputs put_pairs f peers h = (peers', h')"
    and fields: "\<And>x h. op_publisher (fst (f x h)) = op_publisher x \<or> op_publisher (fst (f x h)) = None"
    and slot: "\<And>k x. screen_pair_ok S h k x \<Longrightarrow> screen_pair_ok S' (snd (f x h)) k (fst (f x h))"
  shows "screen_table_ok S' peers' h' n"
proof -
  have wf: "pairwise_disjoint pair_refs (slots sp_outputs peers)"
    using ok by (simp add: screen_table_ok_def)
  note upd = slot_operation.update_peers_map [OF op wf, of put_pairs h, unfolded run fst_conv snd_conv]
  let ?g = "\<lambda>x. fst (f x h)"
  note refs = slot_operation.same_refs [OF op]
  have peers': "peers' = map (\<lambda>(k, p). (k, put_pairs (map ?g (sp_outputs p)) p)) peers"
    using upd by blast
  have slots: "slots sp_outputs peers' = map ?g (slots sp_outputs peers)"
    unfolding peers' by (induction peers) auto
  have "screen_peer_ok S' h' k (put_pairs (map ?g (sp_outputs p)) p)" if p: "(k, p) \<in> set peers" for k p
  proof -
    have out: "screen_peer_ok S h k p" using ok p by (auto simp: screen_table_ok_def)
    have "screen_pair_ok S' h' k (?g x)" if x: "x \<in> set (sp_outputs p)" for x
    proof -
      have "screen_pair_ok S' (snd (f x h)) k (?g x)"
        using out x slot by (auto simp: screen_peer_ok_def)
      moreover have "\<forall>r\<in>pair_refs (?g x). h' r = snd (f x h) r"
        using upd p x by (auto simp: in_slots refs)
      ultimately show ?thesis by (subst screen_pair_ok_heap [of _ h' "snd (f x h)"]) auto
    qed
    with pair_publishers_map [of ?g "sp_outputs p"] fields out show ?thesis
      by (auto simp: screen_peer_ok_def)
  qed
  then have "\<forall>(k, p')\<in>set peers'. screen_peer_ok S' h' k p'"
    by (auto simp: peers')
  moreover have keys: "keys peers' = keys peers" unfolding peers' by (induction peers) auto
  moreover have "pairwise_disjoint pair_refs (map ?g (slots sp_outputs peers))"
    using wf by (subst pairwise_disjoint_cong [of _ "slots sp_outputs peers"])
      (auto simp: list_all2_map2 refs intro!: list.rel_refl_strong)
  ultimately show ?thesis
    using ok refs unfolding screen_table_ok_def slots keys by auto
qed

lemmas restart_pairs_ok =
  update_pairs_ok [OF restart_op.slot_operation_axioms _ _ _ restart_pair_ok, simplified]

lemma clear_pairs_ok:
  assumes "screen_table_ok S peers h n"
    and "update_peers sp_outputs put_pairs (clear_if pid) peers h = (peers', h')"
  shows "screen_table_ok (S - {pid}) peers' h' n"
  using assms by (rule update_pairs_ok [OF clear_op.slot_operation_axioms _ _ _ clear_if_ok]) auto

text \<open>Changing one part of a table, the rest untouched.\<close>

lemma table_lawful_context:
  assumes part: "table_lawful refs view K n xs h ys h'"
    and disj: "pairwise_disjoint refs (before @ xs @ after)"
    and frame: "\<And>r. r \<notin> \<Union> (refs ` set xs) \<Longrightarrow> r < n \<Longrightarrow> generation (h' r) = generation (h r)"
  shows "table_lawful refs view K n (before @ xs @ after) h (before @ ys @ after) h'"
  unfolding table_lawful_def
proof (intro allI impI)
  fix r assume r: "r < n" "r \<in> \<Union> (refs ` set (before @ ys @ after))"
  have apart: "r \<notin> refs z" if "z \<in> set before \<union> set after" "x \<in> set xs" "r \<in> refs x" for x z
    using disj that unfolding pairwise_disjoint_simps set_append by blast
  show "r \<in> \<Union> (refs ` set (before @ xs @ after)) \<and>
     (\<exists>k\<le>K. bumped k h h' r \<and> (k = 0 \<longrightarrow>
        bound_view refs view (before @ ys @ after) r = bound_view refs view (before @ xs @ after) r))"
  proof (cases "r \<in> \<Union> (refs ` set xs)")
    case True
    then have others: "r \<notin> refs z" if "z \<in> set before \<union> set after" for z using apart that by blast
    with r have "r \<in> \<Union> (refs ` set ys)" by auto
    with part r(1) obtain k where k: "k \<le> K" "bumped k h h' r"
        "k = 0 \<longrightarrow> bound_view refs view ys r = bound_view refs view xs r"
      unfolding table_lawful_def by blast
    have "bound_view refs view (before @ zs @ after) r = bound_view refs view zs r" for zs
      using others by (auto simp: bound_view_def fun_eq_iff)
    with k True show ?thesis by auto
  next
    case False
    with part r(1) have "r \<notin> \<Union> (refs ` set ys)" unfolding table_lawful_def by blast
    with r False have "r \<in> \<Union> (refs ` set (before @ xs @ after))"
      "bound_view refs view (before @ ys @ after) r = bound_view refs view (before @ xs @ after) r"
      by (auto simp: bound_view_def fun_eq_iff)
    moreover have "bumped 0 h h' r" using frame [OF False r(1)] by (simp add: bumped_def)
    ultimately show ?thesis by blast
  qed
qed

lemma screen_peer_ok_heap:
  assumes "screen_peer_ok S h k p" and "S \<subseteq> S'"
    and "\<And>x r. x \<in> set (sp_outputs p) \<Longrightarrow> r \<in> pair_refs x \<Longrightarrow> generation (h' r) = generation (h r)"
  shows "screen_peer_ok S' h' k p"
  using assms(1) screen_pair_ok_mono [OF _ assms(2)] screen_pair_ok_heap [of _ h' h] assms(3)
  unfolding screen_peer_ok_def by blast

lemma screen_table_peer:
  assumes "screen_table_ok S peers h n" and "map_of peers k = Some p"
  shows "screen_peer_ok S h k p" and "pairwise_disjoint pair_refs (sp_outputs p)"
    and "\<forall>x\<in>set (sp_outputs p). \<forall>r\<in>pair_refs x. r < n"
  using assms(1) map_of_SomeD [OF assms(2)] pairwise_disjoint_get [OF map_of_SomeD [OF assms(2)]]
  unfolding screen_table_ok_def Ball_def in_slots by blast+

lemma screen_table_put:
  assumes ok: "screen_table_ok S peers h n" and k: "map_of peers k = Some p" and mono: "S \<subseteq> S'" "n \<le> m"
    and disj: "pairwise_disjoint pair_refs (sp_outputs (f p))"
    and refs: "\<And>y r. y \<in> set (sp_outputs (f p)) \<Longrightarrow> r \<in> pair_refs y \<Longrightarrow>
          r < m \<and> (r < n \<longrightarrow> r \<in> \<Union> (pair_refs ` set (sp_outputs p)))"
    and frame: "\<And>r. r \<notin> \<Union> (pair_refs ` set (sp_outputs p)) \<Longrightarrow> r < n \<Longrightarrow> generation (h' r) = generation (h r)"
    and new: "screen_peer_ok S' h' k (f p)"
  shows "screen_table_ok S' (adjust k f peers) h' m"
proof -
  obtain before after where peers: "peers = before @ (k, p) # after"
    using k by (rule slots_split)
  have dist: "distinct (keys (before @ (k, p) # after))" using ok by (simp add: screen_table_ok_def peers)
  let ?others = "slots sp_outputs before @ slots sp_outputs after"
  have old: "pairwise_disjoint pair_refs (slots sp_outputs before @ sp_outputs p @ slots sp_outputs after)"
    "\<And>x r. x \<in> set ?others \<Longrightarrow> r \<in> pair_refs x \<Longrightarrow> r < n"
    using ok by (auto simp: screen_table_ok_def peers)
  have apart: "r \<notin> \<Union> (pair_refs ` set (sp_outputs p))" if "x \<in> set ?others" "r \<in> pair_refs x" for x r
    using that old(1) unfolding pairwise_disjoint_simps set_append by blast
  have "pair_refs x \<inter> pair_refs y = {}" if "x \<in> set ?others" "y \<in> set (sp_outputs (f p))" for x y
  proof (rule ccontr)
    assume "pair_refs x \<inter> pair_refs y \<noteq> {}"
    then obtain r where r: "r \<in> pair_refs x" "r \<in> pair_refs y" by blast
    from refs [OF that(2) r(2)] old(2) [OF that(1) r(1)] apart [OF that(1) r(1)] show False by simp
  qed
  then have new_apart: "\<forall>x\<in>set ?others. \<forall>y\<in>set (sp_outputs (f p)). pair_refs x \<inter> pair_refs y = {}"
    by blast
  then have disj': "pairwise_disjoint pair_refs (slots sp_outputs before @ sp_outputs (f p) @ slots sp_outputs after)"
    using old(1) disj by (simp add: ball_Un) (metis Int_commute)
  have peers_ok: "screen_peer_ok S' h' k' p'" if p': "(k', p') \<in> set (before @ after)" for k' p'
  proof (rule screen_peer_ok_heap)
    show "screen_peer_ok S h k' p'" using p' ok by (auto simp: screen_table_ok_def peers)
    fix x r assume x: "x \<in> set (sp_outputs p')" "r \<in> pair_refs x"
    then have "x \<in> set ?others" using p' by (auto simp: in_slots)
    from frame [OF apart [OF this x(2)] old(2) [OF this x(2)]]
    show "generation (h' r) = generation (h r)" .
  qed (rule mono)
  have "r < m" if "x \<in> set ?others" "r \<in> pair_refs x" for x r
    using old(2) [OF that] mono(2) by simp
  with refs have bound: "\<forall>x\<in>set (slots sp_outputs before @ sp_outputs (f p) @ slots sp_outputs after).
      \<forall>r\<in>pair_refs x. r < m" unfolding set_append by blast
  show ?thesis
    unfolding screen_table_ok_def peers adjust_split [OF dist]
  proof (intro conjI)
    show "distinct (keys (before @ (k, f p) # after))" using dist by simp
    show "pairwise_disjoint pair_refs (slots sp_outputs (before @ (k, f p) # after))"
      "\<forall>x\<in>set (slots sp_outputs (before @ (k, f p) # after)). \<forall>r\<in>pair_refs x. r < m"
      using disj' bound by simp_all
    show "\<forall>(k, p)\<in>set (before @ (k, f p) # after). screen_peer_ok S' h' k p"
      using peers_ok new by auto
  qed
qed

lemma screen_table_put_lawful:
  assumes ok: "screen_table_ok S peers h n" and k: "map_of peers k = Some p"
    and part: "table_lawful pair_refs pair_view K n (sp_outputs p) h (sp_outputs (f p)) h'"
    and frame: "\<And>r. r \<notin> \<Union> (pair_refs ` set (sp_outputs p)) \<Longrightarrow> r < n \<Longrightarrow> generation (h' r) = generation (h r)"
  shows "table_lawful pair_refs pair_view K n (slots sp_outputs peers) h
           (slots sp_outputs (adjust k f peers)) h'"
proof -
  obtain before after where peers: "peers = before @ (k, p) # after"
    using k by (rule slots_split)
  have dist: "distinct (keys (before @ (k, p) # after))" using ok by (simp add: screen_table_ok_def peers)
  have "pairwise_disjoint pair_refs (slots sp_outputs before @ sp_outputs p @ slots sp_outputs after)"
    using ok by (simp add: screen_table_ok_def peers)
  from table_lawful_context [OF part this frame] show ?thesis
    unfolding peers adjust_split [OF dist] by simp
qed

text \<open>The parts of a peer that the table looks at.\<close>

lemma screen_table_cong:
  assumes "map_vals (\<lambda>p. (sp_outputs p, sp_watched_publishers p)) peers' =
           map_vals (\<lambda>p. (sp_outputs p, sp_watched_publishers p)) peers"
  shows "screen_table_ok S peers' h n = screen_table_ok S peers h n"
proof -
  let ?g = "\<lambda>p. (sp_outputs p, sp_watched_publishers p)"
  have all: "(\<forall>(k, p)\<in>set ps. screen_peer_ok S h k p) \<longleftrightarrow>
      (\<forall>(k, xs, w)\<in>set (map_vals ?g ps). screen_peer_ok S h k
         ((new_screen_peer 0)\<lparr>sp_outputs := xs, sp_watched_publishers := w\<rparr>))" for ps
    by (auto simp: map_vals_def screen_peer_ok_def)
  have slots: "slots sp_outputs ps = concat (map (\<lambda>(k, xs, w). xs) (map_vals ?g ps))" for ps
    by (induction ps) (auto simp: map_vals_def)
  have keys: "keys ps = keys (map_vals ?g ps)" for ps :: "(peer_id \<times> screen_peer) list"
    by simp
  show ?thesis
    unfolding screen_table_ok_def all slots by (subst (1 2) keys) (simp only: assms)
qed

lemma screen_table_adjust:
  "(\<And>p. sp_outputs (f p) = sp_outputs p \<and> sp_watched_publishers (f p) = sp_watched_publishers p) \<Longrightarrow>
   screen_table_ok S (adjust k f peers) h n = screen_table_ok S peers h n"
  by (intro screen_table_cong map_vals_adjust) simp

lemma screen_table_mono: "screen_table_ok S peers h n \<Longrightarrow> S \<subseteq> S' \<Longrightarrow> screen_table_ok S' peers h n"
  unfolding screen_table_ok_def by (auto intro: screen_peer_ok_heap)

lemma screen_table_append:
  assumes "screen_table_ok S peers h n" and "k \<notin> set (keys peers)" and "sp_outputs p = []"
  shows "screen_table_ok S (peers @ [(k, p)]) h n"
  using assms by (auto simp: screen_table_ok_def screen_peer_ok_def)

lemma screen_table_delete:
  assumes "screen_table_ok S peers h n"
  shows "screen_table_ok S (AList.delete k peers) h n"
  using assms pairwise_disjoint_delete [of pair_refs sp_outputs peers k]
    slots_delete_subset [of sp_outputs k peers] distinct_keys_delete [of peers k]
  unfolding screen_table_ok_def by auto

text \<open>Placing an output in a pair, and declaring it ready.\<close>

lemma output_pair_for_split:
  "output_pair_for video mid pairs = Some (before, x, after) \<Longrightarrow> pairs = before @ x # after"
  by (auto simp: output_pair_for_def extract_Some_iff split: option.splits)

lemma place_pair_cases:
  assumes "place_pair video t counter pairs h = (ys, h', cname, released, counter')"
  obtains before x after where "pairs = before @ x # after"
      "ys = before @ set_output video (Some t) (fst (clear_pair x h)) # after" "h' = snd (clear_pair x h)"
  | token where "ys = pairs @ [set_output video (Some t) (new_output_pair token)]" "h' = h"
proof (cases "output_pair_for video (ot_mid t) pairs")
  case None
  with assms that(2) show thesis by (auto simp: place_pair_def Let_def split: prod.splits)
next
  case (Some found)
  then obtain before x after where "output_pair_for video (ot_mid t) pairs = Some (before, x, after)"
    by (cases found) auto
  with assms that(1) [OF output_pair_for_split [OF this]] show thesis
    by (auto simp: place_pair_def Let_def split: prod.splits)
qed

lemma set_output_fields [simp]:
  "op_publisher (set_output video out x) = op_publisher x"
  by (simp add: set_output_def)

lemma set_output_refs:
  "pair_refs (set_output video (Some t) x) = insert (ot_rewriter t) (output_refs (output_of (\<not> video) x))"
  "output_refs (output_of b x) \<subseteq> pair_refs x"
  by (auto simp: set_output_def pair_refs_def output_of_def)

lemma new_output_pair_fields [simp]:
  "op_publisher (new_output_pair token) = None" "pair_refs (new_output_pair token) = {}"
  "output_refs (output_of b (new_output_pair token)) = {}"
  by (simp_all add: new_output_pair_def pair_refs_def output_of_def)

lemma clear_pair_refs [simp]: "pair_refs (fst (clear_pair x h)) = pair_refs x"
  by (rule slot_operation.same_refs [OF clear_pair_operation])

lemma clear_pair_output_refs:
  "output_refs (output_of b (fst (clear_pair x h))) = output_refs (output_of b x)"
  by (simp add: clear_pair_eq output_of_def)

lemma unbound_pair_ok:
  "op_publisher x = None \<Longrightarrow> screen_pair_ok S h k x \<longleftrightarrow> output_refs (op_video x) \<inter> output_refs (op_audio x) = {}"
  by (simp add: screen_pair_ok_def)

lemma place_pair_outputs:
  assumes place: "place_pair video t counter (sp_outputs p) h = (ys, h', cname, released, counter')"
    and ok: "screen_peer_ok S h k p" and disj: "pairwise_disjoint pair_refs (sp_outputs p)"
    and refs: "\<forall>x\<in>set (sp_outputs p). \<forall>r\<in>pair_refs x. r < n" and fresh: "ot_rewriter t = n"
  shows "screen_peer_ok S (h'(n := w)) k (put_pairs ys p)" and "pairwise_disjoint pair_refs ys"
    and "\<And>y r. y \<in> set ys \<Longrightarrow> r \<in> pair_refs y \<Longrightarrow> r = n \<or> r \<in> \<Union> (pair_refs ` set (sp_outputs p))"
    and "\<And>r. r \<notin> \<Union> (pair_refs ` set (sp_outputs p)) \<Longrightarrow> h' r = h r"
    and "table_lawful pair_refs pair_view 2 n (sp_outputs p) h ys (h'(n := w))"
proof -
  have "screen_peer_ok S (h'(n := w)) k (put_pairs ys p) \<and> pairwise_disjoint pair_refs ys \<and>
    (\<forall>y\<in>set ys. \<forall>r\<in>pair_refs y. r = n \<or> r \<in> \<Union> (pair_refs ` set (sp_outputs p))) \<and>
    (\<forall>r. r \<notin> \<Union> (pair_refs ` set (sp_outputs p)) \<longrightarrow> h' r = h r) \<and>
    table_lawful pair_refs pair_view 2 n (sp_outputs p) h ys (h'(n := w))"
  using place
  proof (cases rule: place_pair_cases)
    case (1 before x after)
    let ?x = "fst (clear_pair x h)" and ?y = "set_output video (Some t) (fst (clear_pair x h))"
    have y: "pair_refs ?y \<subseteq> insert n (pair_refs x)" "op_publisher ?y = None"
      using set_output_refs(2) [of "\<not> video" x] by (auto simp: set_output_refs(1) clear_pair_output_refs fresh)
    have x_lt: "r < n" if "r \<in> pair_refs x" for r using refs that 1(1) by auto
    have other: "z \<in> set (sp_outputs p) \<and> pair_refs z \<inter> pair_refs x = {} \<and> (\<forall>r\<in>pair_refs z. r < n)"
      if "z \<in> set before \<union> set after" for z
      using that disj refs 1(1) by auto
    have frame: "h' r = h r" if "r \<notin> pair_refs x" for r
      using that 1(3) slot_operation.frame [OF clear_pair_operation] by auto
    have same: "generation ((h'(n := w)) r) = generation (h r)" if "z \<in> set before \<union> set after" "r \<in> pair_refs z" for z r
    proof -
      have "r \<notin> pair_refs x" "r \<noteq> n" using other [OF that(1)] that(2) by blast+
      with frame show ?thesis by simp
    qed
    have "output_refs (op_video ?y) \<inter> output_refs (op_audio ?y) = {}"
      using x_lt set_output_refs(2) [of "\<not> video" x] fresh
      by (cases video) (auto simp: set_output_def clear_pair_eq output_of_def)
    then have "screen_pair_ok S (h'(n := w)) k ?y" using y(2) by (simp add: unbound_pair_ok)
    moreover have "screen_pair_ok S (h'(n := w)) k z" if z: "z \<in> set before \<union> set after" for z
      using ok other [OF z] same [OF z] by (subst screen_pair_ok_heap [of _ _ h]) (auto simp: screen_peer_ok_def)
    ultimately have peer: "screen_peer_ok S (h'(n := w)) k (put_pairs ys p)"
      using ok y(2) 1(1,2) by (auto simp: screen_peer_ok_def split: option.splits)
    have "pair_refs z \<inter> pair_refs ?y = {}" if "z \<in> set before \<union> set after" for z
      using other [OF that] y(1) by blast
    then have disj': "pairwise_disjoint pair_refs ys"
      using disj 1(1,2) by (auto simp: Int_commute)
    have "table_lawful pair_refs pair_view 2 n [x] h [?x] h'"
      using clear_pair_lawful 1(3) by (intro table_lawful_list_all2) simp_all
    moreover have "table_lawful pair_refs pair_view 0 n [?x] h' [?y] (h'(n := w))"
      unfolding table_lawful_def using y
      by (auto simp: bumped_def bound_view_def pair_view_def fun_eq_iff)
    ultimately have "table_lawful pair_refs pair_view (2 + 0) n [x] h [?y] (h'(n := w))"
      by (rule table_lawful_trans)
    then have "table_lawful pair_refs pair_view 2 n (before @ [x] @ after) h (before @ [?y] @ after) (h'(n := w))"
      using disj 1(1) frame by (intro table_lawful_context) auto
    with peer disj' y(1) frame show ?thesis using 1(1,2) by auto
  next
    case (2 token)
    let ?y = "set_output video (Some t) (new_output_pair token)"
    have y: "pair_refs ?y = {n}" by (simp add: set_output_refs(1) fresh)
    have "screen_pair_ok S (h'(n := w)) k ?y"
      by (simp add: unbound_pair_ok) (simp add: set_output_def new_output_pair_def)
    moreover have "screen_pair_ok S (h'(n := w)) k z" if "z \<in> set (sp_outputs p)" for z
      using ok refs that 2(2) by (subst screen_pair_ok_heap [of _ _ h]) (auto simp: screen_peer_ok_def)
    moreover have "table_lawful pair_refs pair_view 0 n (sp_outputs p) h ys (h'(n := w))"
      using disj y 2 by (intro table_lawful_subset) auto
    then have "table_lawful pair_refs pair_view 2 n (sp_outputs p) h ys (h'(n := w))"
      by (rule table_lawful_mono) simp
    ultimately show ?thesis
      using ok disj refs y 2 by (auto simp: screen_peer_ok_def)
  qed
  then show "screen_peer_ok S (h'(n := w)) k (put_pairs ys p)" "pairwise_disjoint pair_refs ys"
    "\<And>y r. y \<in> set ys \<Longrightarrow> r \<in> pair_refs y \<Longrightarrow> r = n \<or> r \<in> \<Union> (pair_refs ` set (sp_outputs p))"
    "\<And>r. r \<notin> \<Union> (pair_refs ` set (sp_outputs p)) \<Longrightarrow> h' r = h r"
    "table_lawful pair_refs pair_view 2 n (sp_outputs p) h ys (h'(n := w))" by blast+
qed

text \<open>Making an output of a pair ready changes nothing that is bound: a bound pair has ready outputs.\<close>

lemma set_ready_ok:
  assumes "output_of video x = Some t" and "screen_pair_ok S h k x"
  shows "pair_refs (set_output video (Some (t\<lparr>ot_ready := True\<rparr>)) x) = pair_refs x"
    and "screen_pair_ok S h k (set_output video (Some (t\<lparr>ot_ready := True\<rparr>)) x)"
    and "pair_view (set_output video (Some (t\<lparr>ot_ready := True\<rparr>)) x) = pair_view x"
proof -
  let ?y = "set_output video (Some (t\<lparr>ot_ready := True\<rparr>)) x"
  have refs: "output_refs (op_video ?y) = output_refs (op_video x)" "output_refs (op_audio ?y) = output_refs (op_audio x)"
    using assms(1) by (auto simp: set_output_def output_of_def split: if_splits)
  then show "pair_refs ?y = pair_refs x" by (simp add: pair_refs_def)
  have bound: "?y = x" if "op_publisher x \<noteq> None"
  proof -
    have "ot_ready t" using that assms
      by (cases video) (auto simp: screen_pair_ok_def output_ok_def output_of_def split: option.splits)
    then have "t\<lparr>ot_ready := True\<rparr> = t" by simp
    with assms(1) show ?thesis by (auto simp: set_output_def output_of_def split: if_splits)
  qed
  show "screen_pair_ok S h k ?y"
  proof (cases "op_publisher x")
    case None
    then show ?thesis using assms(2) refs by (simp add: screen_pair_ok_def)
  next
    case (Some q)
    with bound assms(2) show ?thesis by simp
  qed
  show "pair_view ?y = pair_view x"
  proof (cases "op_publisher x")
    case None
    then show ?thesis by (simp add: pair_view_def fun_eq_iff)
  next
    case (Some q)
    with bound show ?thesis by simp
  qed
qed

lemma mark_ready_cases:
  obtains "mark_ready e video mid track xs = xs"
    | before x after t where "xs = before @ x # after" "output_of video x = Some t"
      "mark_ready e video mid track xs = before @ set_output video (Some (t\<lparr>ot_ready := True\<rparr>)) x # after"
proof (cases "List.extract (has_mid video mid) xs")
  case None
  with that(1) show thesis by (simp add: mark_ready_def)
next
  case (Some found)
  then obtain before x after where found: "List.extract (has_mid video mid) xs = Some (before, x, after)"
    by (cases found) auto
  then have xs: "xs = before @ x # after" by (simp add: extract_Some_iff)
  have "mark_ready e video mid track xs = (case output_of video x of None \<Rightarrow> xs
      | Some t \<Rightarrow> if lock_track e (ot_track t) = Some track
          then before @ set_output video (Some (t\<lparr>ot_ready := True\<rparr>)) x # after else xs)"
    by (simp add: mark_ready_def found)
  with that(1) that(2) [OF xs] show thesis by (auto split: option.splits if_splits)
qed

lemma mark_ready_outputs:
  assumes "screen_peer_ok S h k p" and "pairwise_disjoint pair_refs (sp_outputs p)"
  shows "screen_peer_ok S h k (put_pairs (mark_ready e video mid track (sp_outputs p)) p)" (is ?ok)
    and "list_all2 (\<lambda>x y. pair_refs y = pair_refs x) (sp_outputs p) (mark_ready e video mid track (sp_outputs p))" (is ?refs)
    and "table_lawful pair_refs pair_view 0 n (sp_outputs p) h (mark_ready e video mid track (sp_outputs p)) h" (is ?lawful)
proof -
  show ?ok ?refs ?lawful
  proof (atomize (full), cases rule: mark_ready_cases [of e video mid track "sp_outputs p"])
    case 1
    then show "?ok \<and> ?refs \<and> ?lawful"
      using assms by (simp add: list.rel_refl_strong table_lawful_same)
  next
    case (2 before x after t)
    let ?y = "set_output video (Some (t\<lparr>ot_ready := True\<rparr>)) x"
    have "screen_pair_ok S h k x" using assms(1) 2(1) by (simp add: screen_peer_ok_def)
    note y = set_ready_ok [OF 2(2) this]
    have "table_lawful pair_refs pair_view 0 n [x] h [?y] h"
      using y by (intro table_lawful_list_all2) (auto simp: lawful_def bumped_def)
    then have "table_lawful pair_refs pair_view 0 n (before @ [x] @ after) h (before @ [?y] @ after) h"
      using assms(2) 2(1) by (intro table_lawful_context) auto
    moreover have "pair_publishers (before @ ?y # after) = pair_publishers (before @ x # after)"
      by simp
    ultimately show "?ok \<and> ?refs \<and> ?lawful"
      using assms(1) 2 y by (auto simp: screen_peer_ok_def intro!: list_all2_appendI list.rel_refl_strong)
  qed
qed

section \<open>The invariant of the router\<close>

definition screen_source :: "screen_peer \<Rightarrow> bool" where
  "screen_source p \<longleftrightarrow> sp_streaming p \<and> sp_input_video p \<noteq> None"

definition screen_publishers :: "(peer_id \<times> screen_peer) list \<Rightarrow> peer_id set" where
  "screen_publishers peers = {q. \<exists>p. map_of peers q = Some p \<and> screen_source p}"

definition screen_inv :: "screen_router \<Rightarrow> bool" where
  "screen_inv s \<longleftrightarrow>
     screen_table_ok (screen_publishers (sr_peers s)) (sr_peers s) (sr_rewriters s) (sr_next_rewriter s) \<and>
     (sr_closed s \<longrightarrow> sr_peers s = [] \<and> sr_delay_queue s = []) \<and>
     queue_sorted (sr_delay_queue s)"

lemma screen_publishers_cong:
  assumes "map_vals (\<lambda>p. (sp_streaming p, sp_input_video p)) peers' =
           map_vals (\<lambda>p. (sp_streaming p, sp_input_video p)) peers"
  shows "screen_publishers peers' = screen_publishers peers"
    and "screen_eligible e peers' = screen_eligible e peers"
proof -
  let ?g = "\<lambda>p. (sp_streaming p, sp_input_video p)"
  have "screen_publishers ps = {q. \<exists>t. map_of (map_vals ?g ps) q = Some (True, Some t)}" for ps
    by (auto simp: screen_publishers_def screen_source_def map_of_map_vals)
  with assms show "screen_publishers peers' = screen_publishers peers" by simp
  have "screen_eligible e ps k q \<longleftrightarrow> (case map_of (map_vals ?g ps) q of None \<Rightarrow> False
      | Some (streaming, t) \<Rightarrow> q \<noteq> k \<and> streaming \<and> \<not> expired e t)" for ps k q
    by (auto simp: screen_eligible_def map_of_map_vals split: option.splits)
  with assms show "screen_eligible e peers' = screen_eligible e peers" by (simp add: fun_eq_iff)
qed

lemma screen_publishers_adjust:
  assumes "\<And>p. screen_source p \<Longrightarrow> screen_source (f p)"
  shows "screen_publishers peers \<subseteq> screen_publishers (adjust k f peers)"
  using assms by (auto simp: screen_publishers_def map_of_adjust)

lemma screen_eligible_publisher: "screen_eligible e peers k q \<Longrightarrow> q \<noteq> k \<and> q \<in> screen_publishers peers"
  by (auto simp: screen_eligible_def screen_publishers_def screen_source_def lock_track_def split: option.splits)

lemma update_pairs_same:
  "(\<And>xs p. g (put_pairs xs p) = g p) \<Longrightarrow> update_peers sp_outputs put_pairs f peers h = (peers', h') \<Longrightarrow>
   map_vals g peers' = map_vals g peers"
proof (induction peers arbitrary: h peers' h')
  case (Cons a peers)
  from Cons.prems(2) obtain xs h1 ps where *: "update_slots f (sp_outputs (snd a)) h = (xs, h1)"
      "update_peers sp_outputs put_pairs f peers h1 = (ps, h')" "peers' = (fst a, put_pairs xs (snd a)) # ps"
    by (cases a) (auto simp: Let_def split: prod.splits)
  from Cons.IH [OF Cons.prems(1) *(2)] show ?case
    by (cases a) (simp add: *(3) map_vals_def Cons.prems(1))
qed (simp add: map_vals_def)

lemma set_ordered_watches: "set (ordered_watches peers p) = set (keys (sp_watched_publishers p))"
  by (simp add: ordered_watches_def)

lemma set_ordered_screen_peers: "set (ordered_screen_peers s) = set (keys (sr_peers s))"
  by (force simp: ordered_screen_peers_def)

lemma distinct_ordered_screen_peers:
  assumes "distinct (keys (sr_peers s))"
  shows "distinct (ordered_screen_peers s)"
proof -
  have "distinct (map (\<lambda>(pid, p). PeerRank (sp_order p) pid) (sr_peers s))" (is "distinct (map ?f _)")
  proof (unfold distinct_map, intro conjI inj_onI)
    show "distinct (sr_peers s)" using assms by (simp add: distinct_map)
    fix x y assume "x \<in> set (sr_peers s)" "y \<in> set (sr_peers s)" "?f x = ?f y"
    then show "x = y" using assms by (auto split: prod.splits dest: eq_key_imp_eq_value)
  qed
  moreover have "inj_on rank_id (?f ` set (sr_peers s))"
    using assms by (auto intro!: inj_onI dest: eq_key_imp_eq_value)
  ultimately show ?thesis by (simp add: ordered_screen_peers_def distinct_map)
qed

lemma assign_screen_ok:
  assumes run: "assign_screen e s = (s', notices)"
    and ok: "screen_table_ok (screen_publishers (sr_peers s)) (sr_peers s) (sr_rewriters s) n"
  obtains peers h claims where
    "s' = s\<lparr>sr_peers := peers, sr_rewriters := h\<rparr>"
    "assign_peers sp_outputs put_pairs op_publisher (free_pair e) claim_pair
       (ordered_watches (sr_peers s)) (screen_eligible e (sr_peers s)) (ordered_screen_peers s)
       (sr_peers s) (sr_rewriters s) = (peers, h, claims)"
    "screen_table_ok (screen_publishers (sr_peers s)) peers h n"
    "map_vals (\<lambda>p. (sp_streaming p, sp_input_video p)) peers =
       map_vals (\<lambda>p. (sp_streaming p, sp_input_video p)) (sr_peers s)"
proof -
  obtain peers h claims where a: "assign_peers sp_outputs put_pairs op_publisher (free_pair e)
      claim_pair (ordered_watches (sr_peers s)) (screen_eligible e (sr_peers s)) (ordered_screen_peers s)
      (sr_peers s) (sr_rewriters s) = (peers, h, claims)"
    by (metis prod_cases3)
  have "distinct (keys (sr_peers s))" "pairwise_disjoint pair_refs (slots sp_outputs (sr_peers s))"
    using ok by (simp_all add: screen_table_ok_def)
  from st.assign_peers_related [OF a this]
  have rel: "peers_related (st.assigned_peer e (sr_peers s) (screen_eligible e (sr_peers s))
      (sr_rewriters s) h) (sr_peers s) peers" by blast
  have same: "sp_streaming p' = sp_streaming p \<and> sp_input_video p' = sp_input_video p"
    if "st.assigned_peer e ps eligible h1 h2 k p p'" for ps eligible h1 h2 k p p'
  proof -
    from that have "p' = put_pairs (sp_outputs p') p" by (simp add: st.assigned_peer_def)
    then show ?thesis by (cases p, cases p') simp
  qed
  show ?thesis
  proof (rule that [OF _ a])
    show "s' = s\<lparr>sr_peers := peers, sr_rewriters := h\<rparr>"
      using run a by (simp add: assign_screen_def Let_def)
    show "screen_table_ok (screen_publishers (sr_peers s)) peers h n"
      using ok a by (rule assign_pairs_ok) (rule screen_eligible_publisher, assumption, rule set_ordered_watches)
    show "map_vals (\<lambda>p. (sp_streaming p, sp_input_video p)) peers =
       map_vals (\<lambda>p. (sp_streaming p, sp_input_video p)) (sr_peers s)"
      using rel unfolding peers_related_def map_vals_def
      by (induction rule: list_all2_induct) (auto dest: same)
  qed
qed

lemma assign_screen_inv:
  assumes "assign_screen e s = (s', notices)" and "screen_inv s" and "\<not> sr_closed s"
  shows "screen_inv s'"
proof -
  from assms(2) have "screen_table_ok (screen_publishers (sr_peers s)) (sr_peers s) (sr_rewriters s)
      (sr_next_rewriter s)" by (simp add: screen_inv_def)
  from assign_screen_ok [OF assms(1) this] obtain peers h where
    "s' = s\<lparr>sr_peers := peers, sr_rewriters := h\<rparr>"
    "screen_publishers peers = screen_publishers (sr_peers s)"
    "screen_table_ok (screen_publishers (sr_peers s)) peers h (sr_next_rewriter s)"
    using screen_publishers_cong(1) by metis
  with assms(2,3) show ?thesis by (simp add: screen_inv_def)
qed

lemma screen_peer_for_table:
  assumes "screen_table_ok S (sr_peers s) h n"
  shows "screen_table_ok S (sr_peers (screen_peer_for k s)) h n"
    and "map_of (sr_peers (screen_peer_for k s)) k \<noteq> None"
    and "screen_publishers (sr_peers (screen_peer_for k s)) = screen_publishers (sr_peers s)"
proof -
  show "map_of (sr_peers (screen_peer_for k s)) k \<noteq> None"
    by (auto simp: screen_peer_for_def map_add_def split: option.splits)
  show "screen_table_ok S (sr_peers (screen_peer_for k s)) h n"
    using assms by (auto simp: screen_peer_for_def new_screen_peer_def map_of_eq_None_iff
        intro!: screen_table_append split: option.splits)
  show "screen_publishers (sr_peers (screen_peer_for k s)) = screen_publishers (sr_peers s)"
  proof (cases "map_of (sr_peers s) k")
    case None
    then have "map_of (sr_peers (screen_peer_for k s)) q =
        (if q = k then Some (new_screen_peer (sr_next_peer_order s)) else map_of (sr_peers s) q)" for q
      by (auto simp: screen_peer_for_def map_add_def split: option.splits)
    with None show ?thesis by (auto simp: screen_publishers_def screen_source_def new_screen_peer_def)
  qed (simp add: screen_peer_for_def)
qed

lemma screen_peer_for_fields [simp]:
  "sr_closed (screen_peer_for k s) = sr_closed s"
  "sr_rewriters (screen_peer_for k s) = sr_rewriters s"
  "sr_next_rewriter (screen_peer_for k s) = sr_next_rewriter s"
  "sr_delay_queue (screen_peer_for k s) = sr_delay_queue s"
  "sr_fault_config (screen_peer_for k s) = sr_fault_config s"
  "slots sp_outputs (sr_peers (screen_peer_for k s)) = slots sp_outputs (sr_peers s)"
  by (simp_all add: screen_peer_for_def new_screen_peer_def split: option.splits)

abbreviation screen_slots :: "screen_router \<Rightarrow> output_pair list" where
  "screen_slots s \<equiv> slots sp_outputs (sr_peers s)"

definition screen_lawful :: "nat \<Rightarrow> screen_router \<Rightarrow> screen_router \<Rightarrow> bool" where
  "screen_lawful K s s' \<longleftrightarrow>
     sr_next_rewriter s \<le> sr_next_rewriter s' \<and>
     table_lawful pair_refs pair_view K (sr_next_rewriter s)
       (screen_slots s) (sr_rewriters s) (screen_slots s') (sr_rewriters s')"

lemma screen_lawful_trans:
  assumes "screen_lawful J s s1" and "screen_lawful K s1 s2"
  shows "screen_lawful (J + K) s s2"
proof -
  have "table_lawful pair_refs pair_view K (sr_next_rewriter s) (screen_slots s1) (sr_rewriters s1)
      (screen_slots s2) (sr_rewriters s2)"
    using assms by (auto simp: screen_lawful_def table_lawful_def)
  with assms show ?thesis using table_lawful_trans unfolding screen_lawful_def by fastforce
qed

lemma screen_lawful_mono: "screen_lawful J s s' \<Longrightarrow> J \<le> K \<Longrightarrow> screen_lawful K s s'"
  unfolding screen_lawful_def using table_lawful_mono by blast

lemma screen_lawful_same:
  assumes "screen_slots s' = screen_slots s"
    and "\<And>r. generation (sr_rewriters s' r) = generation (sr_rewriters s r)"
    and "sr_next_rewriter s' = sr_next_rewriter s"
  shows "screen_lawful K s s'"
  unfolding screen_lawful_def assms(1,3)
  by (intro conjI table_lawful_mono [OF table_lawful_same]) (simp_all add: assms(2))

lemma assign_screen_lawful:
  assumes run: "assign_screen e s = (s', notices)" and ok: "screen_table_ok S (sr_peers s) h n"
  shows "screen_lawful 2 s s'"
proof -
  obtain peers h' claims where a: "assign_peers sp_outputs put_pairs op_publisher (free_pair e)
      claim_pair (ordered_watches (sr_peers s)) (screen_eligible e (sr_peers s)) (ordered_screen_peers s)
      (sr_peers s) (sr_rewriters s) = (peers, h', claims)"
    by (metis prod_cases3)
  have wf: "distinct (keys (sr_peers s))" "pairwise_disjoint pair_refs (screen_slots s)"
    using ok by (simp_all add: screen_table_ok_def)
  have "table_lawful pair_refs pair_view 2 m (screen_slots s) (sr_rewriters s) (slots sp_outputs peers) h'" for m
    using st.assign_peers_lawful [OF a wf] wf(2) by (rule table_lawful_list_all2)
  with run a show ?thesis by (auto simp: assign_screen_def screen_lawful_def Let_def)
qed

text \<open>
  The operations that publish bindings change the table lawfully, assign, and count the keyframe
  requests they made.
\<close>

definition screen_assigns :: "track_env \<Rightarrow> screen_router \<Rightarrow> screen_router \<Rightarrow> bool" where
  "screen_assigns e s s' \<longleftrightarrow>
     (\<exists>s0 notices s1 c. screen_lawful 2 s s0 \<and> screen_inv s0 \<and> \<not> sr_closed s0 \<and>
        assign_screen e s0 = (s1, notices) \<and> s' = s1\<lparr>sr_keyframe_requests := c\<rparr>)"

lemma screen_assignsI:
  assumes "screen_lawful 2 s s0" and "screen_inv s0" and "\<not> sr_closed s0"
    and "assign_screen e s0 = (s1, notices)" and "publish_screen e s1 ns = (es, s')"
  shows "screen_assigns e s s'"
  using assms unfolding screen_assigns_def publish_screen_def by (auto simp: Let_def)

lemma screen_inv_keyframes [simp]: "screen_inv (s\<lparr>sr_keyframe_requests := c\<rparr>) = screen_inv s"
  by (simp add: screen_inv_def)

lemma screen_peer_for_inv:
  assumes "screen_inv s" and "\<not> sr_closed s"
  shows "screen_inv (screen_peer_for k s)"
proof -
  have "screen_table_ok (screen_publishers (sr_peers s)) (sr_peers s) (sr_rewriters s) (sr_next_rewriter s)"
    using assms(1) by (simp add: screen_inv_def)
  from screen_peer_for_table(1,3) [OF this, of k] assms show ?thesis by (simp add: screen_inv_def)
qed

lemma screen_peer_for_lawful: "screen_lawful K s (screen_peer_for k s)"
  by (rule screen_lawful_same) simp_all

lemma update_pairs_lawful:
  assumes op: "slot_operation pair_refs f" and run: "update_peers sp_outputs put_pairs f peers h = (peers', h')"
    and ok: "screen_table_ok S peers h n"
    and lawful: "\<And>x. lawful pair_refs pair_view 2 x h (fst (f x h)) (snd (f x h))"
  shows "table_lawful pair_refs pair_view 2 m (slots sp_outputs peers) h (slots sp_outputs peers') h'"
proof -
  have disj: "pairwise_disjoint pair_refs (slots sp_outputs peers)" using ok by (simp add: screen_table_ok_def)
  from slot_operation.update_peers_lawful [OF op run disj _ lawful] disj show ?thesis
    by (intro table_lawful_list_all2) auto
qed

lemma register_screen_input_assigns:
  assumes "register_screen_input e s owner track video send = (es, s')" and "screen_inv s" and "\<not> sr_closed s"
  shows "screen_assigns e s s'"
proof -
  define s1 where "s1 = screen_peer_for owner s"
  define changed where "changed = screen_source_changed e (sr_peers s1) video owner track"
  define upd where "upd = set_screen_input changed video track (mid_extension_id (te_description e track)) send"
  have upd_fields: "sp_outputs (upd p) = sp_outputs p" "sp_watched_publishers (upd p) = sp_watched_publishers p"
      "screen_source p \<Longrightarrow> screen_source (upd p)" for p
    by (simp_all add: upd_def set_screen_input_def screen_source_def Let_def)
  let ?peers1 = "adjust owner upd (sr_peers s1)"
  obtain peers2 h where loop: "(if changed
      then update_peers sp_outputs put_pairs (restart_pair video owner) ?peers1 (sr_rewriters s1)
      else (?peers1, sr_rewriters s1)) = (peers2, h)" by fastforce
  let ?s0 = "s1\<lparr>sr_peers := peers2, sr_rewriters := h\<rparr>"
  obtain s2 assigned where assign: "assign_screen e ?s0 = (s2, assigned)" by fastforce
  obtain ns published where publish: "publish_screen e s2 ns = (published, s')"
    using assms(1,3) loop assign
    unfolding register_screen_input_def Let_def s1_def [symmetric] changed_def [symmetric] upd_def [symmetric]
    by (auto split: prod.splits)
  let ?S = "screen_publishers (sr_peers s)" and ?S1 = "screen_publishers ?peers1"
  have "screen_table_ok ?S (sr_peers s) (sr_rewriters s) (sr_next_rewriter s)"
    using assms(2) by (simp add: screen_inv_def)
  note base = screen_peer_for_table [OF this, of owner]
  from base(1) have "screen_table_ok ?S ?peers1 (sr_rewriters s1) (sr_next_rewriter s)"
    by (subst screen_table_adjust) (simp_all add: upd_fields s1_def)
  moreover have "?S \<subseteq> ?S1"
    using screen_publishers_adjust [of upd "sr_peers s1" owner] base(3) by (simp add: upd_fields s1_def)
  ultimately have table1: "screen_table_ok ?S1 ?peers1 (sr_rewriters s1) (sr_next_rewriter s)"
    by (rule screen_table_mono)
  have "screen_table_ok ?S1 peers2 h (sr_next_rewriter s) \<and> screen_publishers peers2 = ?S1 \<and> screen_lawful 2 s ?s0"
  proof (cases changed)
    case True
    with loop have run: "update_peers sp_outputs put_pairs (restart_pair video owner) ?peers1 (sr_rewriters s1)
        = (peers2, h)" by simp
    have "screen_lawful 2 s ?s0"
      using update_pairs_lawful [OF restart_op.slot_operation_axioms run table1 restart_pair_lawful]
      by (simp add: screen_lawful_def upd_fields s1_def)
    with restart_pairs_ok [OF table1 run] screen_publishers_cong(1) [OF update_pairs_same [OF _ run]]
    show ?thesis by simp
  next
    case False
    with loop table1 show ?thesis
      by (auto simp: upd_fields s1_def intro!: screen_lawful_same)
  qed
  then have "screen_lawful 2 s ?s0" "screen_inv ?s0" "\<not> sr_closed ?s0"
    using assms(2,3) by (simp_all add: screen_inv_def s1_def)
  then show ?thesis using assign publish by (rule screen_assignsI)
qed

lemma register_screen_output_begin_step:
  assumes "register_screen_output_begin e counter s owner track video send = (r, counter', s')"
    and inv: "screen_inv s" and open_router: "\<not> sr_closed s"
  shows "screen_inv s' \<and> screen_lawful 2 s s' \<and> \<not> sr_closed s'"
proof -
  define s1 where "s1 = screen_peer_for owner s"
  obtain ssrc c1 where ssrc: "allocate_slot_ssrc counter = (ssrc, c1)" by fastforce
  let ?peers1 = "adjust owner (\<lambda>p. p\<lparr>sp_send_binding := send\<rparr>) (sr_peers s1)"
  let ?S = "screen_publishers (sr_peers s)" and ?ref = "sr_next_rewriter s"
  have table: "screen_table_ok ?S (sr_peers s) (sr_rewriters s) ?ref"
    using inv by (simp add: screen_inv_def)
  note base = screen_peer_for_table [OF table, of owner]
  obtain p where p: "map_of ?peers1 owner = Some p"
    using base(2) by (auto simp: s1_def map_of_adjust)
  let ?t = "new_output_track (te_mid e track) ssrc track ?ref"
  let ?w = "if video then new_rewriter 90000 3000 else new_rewriter 48000 960"
  obtain pairs1 h cname released c2 where place:
    "place_pair video ?t c1 (sp_outputs p) (sr_rewriters s) = (pairs1, h, cname, released, c2)"
    by (metis prod_cases5)
  have s': "s' = s1\<lparr>sr_peers := adjust owner (put_pairs pairs1) ?peers1,
      sr_rewriters := h(?ref := ?w), sr_next_rewriter := ?ref + 1\<rparr>"
    using assms(1) open_router ssrc p place
    by (simp add: register_screen_output_begin_def Let_def s1_def [symmetric])
      (auto simp: s1_def)
  have table1: "screen_table_ok ?S ?peers1 (sr_rewriters s) ?ref"
    using base(1) by (subst screen_table_adjust) (simp_all add: s1_def)
  note old = screen_table_peer [OF table1 p]
  have ref: "ot_rewriter ?t = ?ref" by (simp add: new_output_track_def)
  note placed = place_pair_outputs [OF place old ref]
  have frame: "generation ((h(?ref := ?w)) r) = generation (sr_rewriters s r)"
    if "r \<notin> \<Union> (pair_refs ` set (sp_outputs p))" "r < ?ref" for r
    using placed(4) that by simp
  have "screen_table_ok ?S (adjust owner (put_pairs pairs1) ?peers1) (h(?ref := ?w)) (?ref + 1)"
  proof (rule screen_table_put [OF table1 p])
    show "screen_peer_ok ?S (h(?ref := ?w)) owner (put_pairs pairs1 p)"
      by (rule placed(1))
    show "pairwise_disjoint pair_refs (sp_outputs (put_pairs pairs1 p))"
      using placed(2) by simp
    fix y r assume y: "y \<in> set (sp_outputs (put_pairs pairs1 p))" "r \<in> pair_refs y"
    then have "r = ?ref \<or> r \<in> \<Union> (pair_refs ` set (sp_outputs p))"
      using placed(3) by simp
    then show "r < ?ref + 1 \<and> (r < ?ref \<longrightarrow> r \<in> \<Union> (pair_refs ` set (sp_outputs p)))"
      using old(3) by fastforce
  qed (use frame in auto)
  moreover have "screen_publishers (sr_peers s') = ?S"
    using screen_publishers_cong(1) [of "sr_peers s'" "sr_peers s1"] base(3)
    by (simp add: s' s1_def map_vals_adjust)
  moreover have "screen_lawful 2 s s'"
    using screen_table_put_lawful [OF table1 p, of 2 "put_pairs pairs1" "h(?ref := ?w)"] placed(5) [where w = ?w] frame
    by (simp add: screen_lawful_def s' s1_def)
  ultimately show ?thesis using inv open_router by (simp add: screen_inv_def s' s1_def)
qed

lemma screen_inv_table:
  "screen_inv s \<Longrightarrow>
   screen_table_ok (screen_publishers (sr_peers s)) (sr_peers s) (sr_rewriters s) (sr_next_rewriter s)"
  by (simp add: screen_inv_def)

lemma register_screen_output_commit_assigns:
  assumes run: "register_screen_output_commit e s owner track video mid = (assigned, s')" and inv: "screen_inv s"
    and open_router: "\<not> sr_closed s" and p: "map_of (sr_peers s) owner = Some p"
  shows "screen_assigns e s s'"
proof -
  let ?upd = "put_pairs (mark_ready e video mid track (sp_outputs p))"
  let ?s0 = "s\<lparr>sr_peers := adjust owner ?upd (sr_peers s)\<rparr>"
  have assign: "assign_screen e ?s0 = (s', assigned)"
    using run p open_router by (simp add: register_screen_output_commit_def Let_def split: prod.splits)
  let ?S = "screen_publishers (sr_peers s)"
  note table = screen_inv_table [OF inv] and old = screen_table_peer [OF screen_inv_table [OF inv] p]
  note ready = mark_ready_outputs [OF old(1,2), where e = e and video = video and mid = mid and track = track]
  have refs: "\<Union> (pair_refs ` set (sp_outputs (?upd p))) = \<Union> (pair_refs ` set (sp_outputs p))"
    using ready(2) by (simp add: st.refs_slots_cong)
  have "screen_table_ok ?S (adjust owner ?upd (sr_peers s)) (sr_rewriters s) (sr_next_rewriter s)"
  proof (rule screen_table_put [OF table p])
    show "screen_peer_ok ?S (sr_rewriters s) owner (?upd p)" by (rule ready(1))
    show "pairwise_disjoint pair_refs (sp_outputs (?upd p))"
      using old(2) pairwise_disjoint_cong [OF ready(2)] by simp
    fix y r assume "y \<in> set (sp_outputs (?upd p))" "r \<in> pair_refs y"
    then have r: "r \<in> \<Union> (pair_refs ` set (sp_outputs p))" using refs by blast
    with old(3) show "r < sr_next_rewriter s \<and>
        (r < sr_next_rewriter s \<longrightarrow> r \<in> \<Union> (pair_refs ` set (sp_outputs p)))" by blast
  qed simp_all
  moreover have "screen_publishers (sr_peers ?s0) = ?S"
    by (rule screen_publishers_cong(1)) (simp add: map_vals_adjust)
  ultimately have "screen_inv ?s0" using inv open_router by (simp add: screen_inv_def)
  moreover have "screen_lawful 0 s ?s0"
    using screen_table_put_lawful [OF table p, of 0 ?upd "sr_rewriters s"] ready(3)
    by (simp add: screen_lawful_def)
  then have "screen_lawful 2 s ?s0" by (rule screen_lawful_mono) simp
  ultimately show "screen_assigns e s s'"
    using assign open_router unfolding screen_assigns_def
    by (intro exI [of _ ?s0] exI [of _ assigned] exI [of _ s'] exI [of _ "sr_keyframe_requests s'"]) simp
qed

lemma register_screen_output_commit_cases:
  assumes "register_screen_output_commit e s owner track video mid = (assigned, s')" and "screen_inv s"
  shows "s' = s \<or> screen_assigns e s s'"
proof (cases "\<not> sr_closed s \<and> map_of (sr_peers s) owner \<noteq> None")
  case False
  with assms(1) show ?thesis by (auto simp: register_screen_output_commit_def split: if_splits)
next
  case True
  with register_screen_output_commit_assigns [OF assms] show ?thesis by blast
qed

lemma clear_slots:
  assumes run: "update_slots (clear_if q) xs h = (ys, h')" and disj: "pairwise_disjoint pair_refs xs"
    and ok: "\<And>x. x \<in> set xs \<Longrightarrow> screen_pair_ok S h k x"
  shows "list_all2 (\<lambda>x y. pair_refs y = pair_refs x) xs ys"
    and "table_lawful pair_refs pair_view 2 n xs h ys h'"
    and "\<And>y. y \<in> set ys \<Longrightarrow> screen_pair_ok S h' k y"
    and "\<And>r. r \<notin> \<Union> (pair_refs ` set xs) \<Longrightarrow> h' r = h r"
    and "distinct (pair_publishers xs) \<Longrightarrow> distinct (pair_publishers ys) \<and>
           set (pair_publishers ys) \<subseteq> set (pair_publishers xs) - {q}"
proof -
  let ?g = "\<lambda>x. fst (clear_if q x h)"
  note upd = clear_op.update_slots_map [OF disj, of q h, unfolded run fst_conv snd_conv]
  have ys: "ys = map ?g xs" using upd by blast
  have same: "\<forall>r\<in>pair_refs x. h' r = snd (clear_if q x h) r" if "x \<in> set xs" for x
    using upd that by blast
  show "list_all2 (\<lambda>x y. pair_refs y = pair_refs x) xs ys"
    by (auto simp: ys list_all2_map2 clear_op.same_refs intro!: list.rel_refl_strong)
  have "list_all2 (\<lambda>x y. lawful pair_refs pair_view 2 x h y h') xs ys"
    unfolding ys list_all2_map2
    by (intro list.rel_refl_strong lawful_cong [OF clear_if_lawful]) (use same in auto)
  then show "table_lawful pair_refs pair_view 2 n xs h ys h'" using disj by (rule table_lawful_list_all2)
  show "screen_pair_ok S h' k y" if y: "y \<in> set ys" for y
  proof -
    obtain x where x: "x \<in> set xs" "y = ?g x" using y ys by auto
    have "screen_pair_ok S (snd (clear_if q x h)) k y"
      using clear_if_ok [OF ok [OF x(1)]] x(2) by (auto intro: screen_pair_ok_mono)
    moreover have "pair_refs y = pair_refs x" by (simp add: x(2) clear_op.same_refs)
    ultimately show ?thesis
      using same [OF x(1)] by (subst screen_pair_ok_heap [of _ h' "snd (clear_if q x h)"]) auto
  qed
  show "h' r = h r" if "r \<notin> \<Union> (pair_refs ` set xs)" for r
    using clear_op.update_slots_frame [OF that, of q h] run by simp
  have "q \<notin> set (pair_publishers ys)" by (auto simp: in_pair_publishers ys split: if_splits)
  moreover have "distinct (pair_publishers ys) \<and> set (pair_publishers ys) \<subseteq> set (pair_publishers xs)"
    if "distinct (pair_publishers xs)"
    unfolding ys by (rule pair_publishers_map [OF _ that]) simp
  ultimately show "distinct (pair_publishers xs) \<Longrightarrow>
      distinct (pair_publishers ys) \<and> set (pair_publishers ys) \<subseteq> set (pair_publishers xs) - {q}"
    by blast
qed

lemma set_screen_streaming_cases:
  assumes run: "set_screen_streaming e s pid streaming = (es, s')" and inv: "screen_inv s"
  shows "s' = s \<or> (\<not> sr_closed s \<and> s' = screen_peer_for pid s) \<or> screen_assigns e s s'"
proof (cases "sr_closed s \<or> map_option sp_streaming (map_of (sr_peers (screen_peer_for pid s)) pid) = Some streaming")
  case True
  with run show ?thesis by (auto simp: set_screen_streaming_def Let_def split: if_splits)
next
  case False
  define s1 where "s1 = screen_peer_for pid s"
  let ?upd = "\<lambda>p. p\<lparr>sp_streaming := streaming\<rparr>"
  let ?peers1 = "adjust pid ?upd (sr_peers s1)"
  obtain peers2 h where loop: "(if streaming then (?peers1, sr_rewriters s1)
      else update_peers sp_outputs put_pairs (clear_if pid) ?peers1 (sr_rewriters s1)) = (peers2, h)"
    by fastforce
  let ?s0 = "s1\<lparr>sr_peers := peers2, sr_rewriters := h\<rparr>"
  obtain s2 assigned where assign: "assign_screen e ?s0 = (s2, assigned)" by fastforce
  have changes: "(map_option sp_streaming (map_of (sr_peers s1) pid) = Some streaming) = False" "sr_closed s = False"
    using False by (simp_all add: s1_def)
  obtain ns where publish: "publish_screen e s2 ns = (es, s')"
    using run loop assign
    unfolding set_screen_streaming_def Let_def s1_def [symmetric] changes if_False
    by (auto split: prod.splits)
  let ?S = "screen_publishers (sr_peers s)"
  note base = screen_peer_for_table [OF screen_inv_table [OF inv], of pid]
  have table1: "screen_table_ok ?S ?peers1 (sr_rewriters s) (sr_next_rewriter s)"
    using base(1) by (subst screen_table_adjust) (simp_all add: s1_def)
  have "screen_table_ok (screen_publishers peers2) peers2 h (sr_next_rewriter s) \<and> screen_lawful 2 s ?s0"
  proof (cases streaming)
    case True
    have "screen_publishers (sr_peers s1) \<subseteq> screen_publishers ?peers1"
      using True by (intro screen_publishers_adjust) (simp add: screen_source_def)
    with table1 True loop base(3) show ?thesis
      by (auto simp: s1_def intro: screen_table_mono intro!: screen_lawful_same)
  next
    case False
    with loop have upd: "update_peers sp_outputs put_pairs (clear_if pid) ?peers1 (sr_rewriters s) = (peers2, h)"
      by (simp add: s1_def)
    have "screen_publishers peers2 = screen_publishers ?peers1"
      by (intro screen_publishers_cong update_pairs_same [OF _ upd]) simp
    also have "\<dots> = screen_publishers (sr_peers s1) - {pid}"
      using False by (auto simp: screen_publishers_def screen_source_def map_of_adjust split: if_splits)
    also have "\<dots> = ?S - {pid}" using base(3) by (simp add: s1_def)
    finally show ?thesis
      using clear_pairs_ok [OF table1 upd] update_pairs_lawful [OF clear_op.slot_operation_axioms upd table1 clear_if_lawful]
      by (simp add: screen_lawful_def s1_def)
  qed
  then have "screen_lawful 2 s ?s0" "screen_inv ?s0" "\<not> sr_closed ?s0"
    using inv False by (simp_all add: screen_inv_def s1_def)
  then have "screen_assigns e s s'" using assign publish by (rule screen_assignsI)
  then show ?thesis by blast
qed

lemma start_watching_ok:
  "screen_peer_ok S h k p \<Longrightarrow> screen_peer_ok S h k (start_watching q p)"
  by (auto simp: screen_peer_ok_def start_watching_def)

lemma set_screen_watching_cases:
  assumes run: "set_screen_watching e s pid publisher watching = (es, s')" and inv: "screen_inv s"
  shows "s' = s \<or> (\<not> sr_closed s \<and> s' = screen_peer_for pid s) \<or> screen_assigns e s s'"
proof -
  define s1 where "s1 = screen_peer_for pid s"
  let ?S = "screen_publishers (sr_peers s)" and ?n = "sr_next_rewriter s" and ?h = "sr_rewriters s"
  note base = screen_peer_for_table [OF screen_inv_table [OF inv], of pid, folded s1_def]
  obtain p where p: "map_of (sr_peers s1) pid = Some p" using base(2) by blast
  let ?noop = "pid = publisher \<or> sr_closed s \<or> watching = (publisher \<in> set (keys (sp_watched_publishers p)))"
  consider (noop) ?noop | (start) "\<not> ?noop" "watching" | (stop) "\<not> ?noop" "\<not> watching" by blast
  then show ?thesis
  proof cases
    case noop
    with run p show ?thesis by (auto simp: set_screen_watching_def s1_def split: if_splits)
  next
    case start
    let ?upd = "start_watching publisher"
    let ?s0 = "s1\<lparr>sr_peers := adjust pid ?upd (sr_peers s1)\<rparr>"
    obtain s2 assigned where assign: "assign_screen e ?s0 = (s2, assigned)" by fastforce
    have publish: "publish_screen e s2 assigned = (es, s')"
      using run p start assign by (auto simp: set_screen_watching_def Let_def s1_def [symmetric] split: prod.splits if_splits)
    have same: "sp_outputs (?upd p) = sp_outputs p" for p by (simp add: start_watching_def)
    note old = screen_table_peer [OF base(1) p]
    have "screen_table_ok ?S (adjust pid ?upd (sr_peers s1)) ?h ?n"
      by (rule screen_table_put [OF base(1) p]) (use old start_watching_ok same in auto)
    moreover have "screen_publishers (sr_peers ?s0) = ?S"
      using screen_publishers_cong(1) [of "sr_peers ?s0" "sr_peers s1"] base(3)
      by (simp add: map_vals_adjust start_watching_def)
    moreover have "screen_lawful 2 s ?s0"
      by (rule screen_lawful_same) (simp_all add: same s1_def)
    ultimately have "screen_lawful 2 s ?s0" "screen_inv ?s0" "\<not> sr_closed ?s0"
      using inv start(1) by (simp_all add: screen_inv_def s1_def)
    then have "screen_assigns e s s'" using assign publish by (rule screen_assignsI)
    then show ?thesis by blast
  next
    case stop
    let ?p1 = "p\<lparr>sp_watched_publishers := AList.delete publisher (sp_watched_publishers p)\<rparr>"
    obtain xs h where clear: "update_slots (clear_if publisher) (sp_outputs p) ?h = (xs, h)" by fastforce
    let ?upd = "\<lambda>_::screen_peer. put_pairs xs ?p1"
    let ?s0 = "s1\<lparr>sr_peers := adjust pid ?upd (sr_peers s1), sr_rewriters := h\<rparr>"
    obtain s2 assigned where assign: "assign_screen e ?s0 = (s2, assigned)" by fastforce
    obtain ns where publish: "publish_screen e s2 ns = (es, s')"
      using run p stop assign clear
      by (auto simp: set_screen_watching_def Let_def s1_def [symmetric] split: prod.splits if_splits) (simp add: s1_def)
    note old = screen_table_peer [OF base(1) p]
    have pairs: "\<And>x. x \<in> set (sp_outputs p) \<Longrightarrow> screen_pair_ok ?S ?h pid x"
      using old(1) by (simp add: screen_peer_ok_def)
    note cleared = clear_slots [OF clear old(2) pairs]
    have refs: "\<Union> (pair_refs ` set xs) = \<Union> (pair_refs ` set (sp_outputs p))"
      using cleared(1) by (rule st.refs_slots_cong)
    have "screen_table_ok ?S (adjust pid ?upd (sr_peers s1)) h ?n"
    proof (rule screen_table_put [OF base(1) p])
      show "pairwise_disjoint pair_refs (sp_outputs (?upd p))"
        using old(2) pairwise_disjoint_cong [OF cleared(1)] by simp
      show "screen_peer_ok ?S h pid (?upd p)"
        using old(1) cleared(3,5) by (auto simp: screen_peer_ok_def keys_delete)
      fix y r assume "y \<in> set (sp_outputs (?upd p))" "r \<in> pair_refs y"
      then have r: "r \<in> \<Union> (pair_refs ` set (sp_outputs p))" using refs by auto
      with old(3) show "r < ?n \<and> (r < ?n \<longrightarrow> r \<in> \<Union> (pair_refs ` set (sp_outputs p)))" by blast
    qed (use cleared(4) in simp_all)
    moreover have "map_vals (\<lambda>p. (sp_streaming p, sp_input_video p)) (adjust pid ?upd (sr_peers s1)) =
        map_vals (\<lambda>p. (sp_streaming p, sp_input_video p)) (sr_peers s1)"
    proof -
      obtain before after where peers: "sr_peers s1 = before @ (pid, p) # after"
        using p by (rule slots_split)
      have "distinct (keys (before @ (pid, p) # after))"
        using base(1) unfolding screen_table_ok_def peers by blast
      then show ?thesis unfolding peers by (subst adjust_split) (simp_all add: map_vals_def)
    qed
    from screen_publishers_cong(1) [OF this] base(3)
    have "screen_publishers (sr_peers ?s0) = ?S" by simp
    moreover have "screen_lawful 2 s ?s0"
      using screen_table_put_lawful [OF base(1) p, of 2 ?upd h] cleared(2,4)
      by (simp add: screen_lawful_def s1_def)
    ultimately have "screen_lawful 2 s ?s0" "screen_inv ?s0" "\<not> sr_closed ?s0"
      using inv stop(1) by (simp_all add: screen_inv_def s1_def)
    then have "screen_assigns e s s'" using assign publish by (rule screen_assignsI)
    then show ?thesis by blast
  qed
qed

lemma update_peers_unwatch:
  "update_peers sp_outputs put_pairs f (map_vals (unwatch pid) peers) h =
     (map_vals (unwatch pid) (fst (update_peers sp_outputs put_pairs f peers h)),
      snd (update_peers sp_outputs put_pairs f peers h))"
  by (induction peers arbitrary: h) (auto simp: map_vals_def unwatch_def Let_def case_prod_beta)

lemma slots_map_vals: "(\<And>p. get (g p) = get p) \<Longrightarrow> slots get (map_vals g peers) = slots get peers"
  by (induction peers) (auto simp: map_vals_def)

lemma screen_table_unwatch:
  assumes "screen_table_ok (S - {pid}) peers h n"
  shows "screen_table_ok (S - {pid}) (map_vals (unwatch pid) peers) h n"
proof -
  have "screen_peer_ok (S - {pid}) h k (unwatch pid p)" if "screen_peer_ok (S - {pid}) h k p" for k p
  proof -
    have "pid \<notin> set (pair_publishers (sp_outputs p))"
      using that by (auto simp: screen_peer_ok_def in_pair_publishers screen_pair_ok_def)
    with that show ?thesis by (auto simp: screen_peer_ok_def unwatch_def keys_delete)
  qed
  moreover have "slots sp_outputs (map_vals (unwatch pid) peers) = slots sp_outputs peers"
    by (rule slots_map_vals) (simp add: unwatch_def)
  ultimately show ?thesis using assms unfolding screen_table_ok_def by (fastforce simp: in_set_map_vals)
qed

lemma remove_screen_peer_assigns:
  assumes run: "remove_screen_peer e s pid = (es, s')" and inv: "screen_inv s" and False: "\<not> sr_closed s"
  shows "screen_assigns e s s'"
proof -
  let ?peers0 = "AList.delete pid (sr_peers s)" and ?unwatch = "map_vals (unwatch pid)"
  let ?S = "screen_publishers (sr_peers s)" and ?n = "sr_next_rewriter s" and ?h = "sr_rewriters s"
  obtain peers1 h where upd: "update_peers sp_outputs put_pairs (clear_if pid) ?peers0 ?h = (peers1, h)" by fastforce
  let ?s0 = "s\<lparr>sr_peers := ?unwatch peers1, sr_rewriters := h\<rparr>"
  obtain s1 assigned where assign: "assign_screen e ?s0 = (s1, assigned)" by fastforce
  obtain ns where publish: "publish_screen e s1 ns = (es, s')"
    using run False upd assign by (auto simp: remove_screen_peer_def Let_def update_peers_unwatch)
  note table = screen_inv_table [OF inv]
  note table0 = screen_table_delete [OF table, of pid]
  have unwatch_slots: "slots sp_outputs (?unwatch ps) = slots sp_outputs ps" for ps
    by (rule slots_map_vals) (simp add: unwatch_def)
  have "screen_table_ok (?S - {pid}) (?unwatch peers1) h ?n"
    by (rule screen_table_unwatch [OF clear_pairs_ok [OF table0 upd]])
  moreover have "screen_publishers (?unwatch peers1) = ?S - {pid}"
  proof -
    have "map_vals (\<lambda>p. (sp_streaming p, sp_input_video p)) (?unwatch peers1) =
        map_vals (\<lambda>p. (sp_streaming p, sp_input_video p)) ?peers0"
      using update_pairs_same [OF _ upd, of "\<lambda>p. (sp_streaming p, sp_input_video p)"]
      by (auto simp: map_vals_def unwatch_def comp_def split_def)
    from screen_publishers_cong(1) [OF this] show ?thesis
      by (auto simp: screen_publishers_def map_of_delete split: if_splits)
  qed
  moreover have "table_lawful pair_refs pair_view 0 ?n (screen_slots s) ?h (slots sp_outputs ?peers0) ?h"
    using table slots_delete_subset [of sp_outputs pid "sr_peers s"]
    by (intro table_lawful_subset) (auto simp: screen_table_ok_def)
  from table_lawful_trans [OF this update_pairs_lawful [OF clear_op.slot_operation_axioms upd table0 clear_if_lawful]]
  have "screen_lawful 2 s ?s0" by (simp add: screen_lawful_def unwatch_slots numeral_2_eq_2)
  ultimately have "screen_lawful 2 s ?s0" "screen_inv ?s0" "\<not> sr_closed ?s0"
    using inv False by (simp_all add: screen_inv_def)
  then show ?thesis using assign publish by (rule screen_assignsI)
qed

lemma remove_screen_peer_cases:
  assumes "remove_screen_peer e s pid = (es, s')" and "screen_inv s"
  shows "s' = s \<or> screen_assigns e s s'"
  using assms remove_screen_peer_assigns by (cases "sr_closed s") (auto simp: remove_screen_peer_def)

lemma screen_assigns_inv: "screen_assigns e s s' \<Longrightarrow> screen_inv s'"
  unfolding screen_assigns_def using assign_screen_inv by auto

lemma screen_assigns_lawful:
  assumes "screen_assigns e s s'"
  shows "screen_lawful 4 s s'"
proof -
  obtain s0 notices s1 c where s0: "screen_lawful 2 s s0" "screen_inv s0" "assign_screen e s0 = (s1, notices)"
      "s' = s1\<lparr>sr_keyframe_requests := c\<rparr>"
    using assms by (auto simp: screen_assigns_def)
  have "screen_lawful 2 s0 s1" using assign_screen_lawful [OF s0(3) screen_inv_table [OF s0(2)]] .
  from screen_lawful_trans [OF s0(1) this] show ?thesis by (simp add: screen_lawful_def s0(4))
qed

lemma register_screen_input_cases:
  assumes "register_screen_input e s owner track video send = (es, s')" and "screen_inv s"
  shows "s' = s \<or> screen_assigns e s s'"
  using assms register_screen_input_assigns by (cases "sr_closed s") (auto simp: register_screen_input_def Let_def)

lemma screen_inv_same_peers:
  assumes "screen_inv s"
    and "map_vals (\<lambda>p. (sp_outputs p, sp_watched_publishers p)) (sr_peers s') =
         map_vals (\<lambda>p. (sp_outputs p, sp_watched_publishers p)) (sr_peers s)"
    and "map_vals (\<lambda>p. (sp_streaming p, sp_input_video p)) (sr_peers s') =
         map_vals (\<lambda>p. (sp_streaming p, sp_input_video p)) (sr_peers s)"
    and "sr_rewriters s' = sr_rewriters s" and "sr_next_rewriter s' = sr_next_rewriter s"
    and "sr_closed s' = sr_closed s" and "queue_sorted (sr_delay_queue s')"
    and "sr_closed s \<Longrightarrow> s' = s"
  shows "screen_inv s'"
proof (cases "sr_closed s")
  case True
  with assms(1,8) show ?thesis by simp
next
  case False
  with assms screen_table_cong [OF assms(2)] screen_publishers_cong(1) [OF assms(3)]
  show ?thesis by (simp add: screen_inv_def)
qed

lemma set_sp_states_fields [simp]:
  "sp_outputs (set_sp_states video f l p) = sp_outputs p"
  "sp_watched_publishers (set_sp_states video f l p) = sp_watched_publishers p"
  "sp_streaming (set_sp_states video f l p) = sp_streaming p"
  "sp_input_video (set_sp_states video f l p) = sp_input_video p"
  by (simp_all add: set_sp_states_def)

lemma count_packet_in_fields [simp]:
  "sr_peers (count_packet_in video s) = sr_peers s" "sr_rewriters (count_packet_in video s) = sr_rewriters s"
  "sr_next_rewriter (count_packet_in video s) = sr_next_rewriter s"
  "sr_closed (count_packet_in video s) = sr_closed s" "sr_delay_queue (count_packet_in video s) = sr_delay_queue s"
  "sr_fault_config (count_packet_in video s) = sr_fault_config s" "sr_executor (count_packet_in video s) = sr_executor s"
  by (simp_all add: count_packet_in_def)

lemma route_screen_locked_inv [inv_intros]:
  assumes "route_screen_locked e s publisher video expected p = (es, pend, s')" and "screen_inv s"
  shows "screen_inv s'"
proof (rule screen_inv_same_peers [OF assms(2)])
  show "queue_sorted (sr_delay_queue s')"
    using assms by (auto simp: route_screen_locked_def screen_inv_def Let_def dest: schedule_all_sorted
        split: if_splits option.splits prod.splits)
qed (use assms(1) in \<open>auto simp: route_screen_locked_def Let_def map_vals_adjust
      split: if_splits option.splits prod.splits\<close>)

lemma flush_screen_locked_inv [inv_intros]:
  assumes "flush_screen_locked e s = (due, s')" and "screen_inv s"
  shows "screen_inv s'"
proof (rule screen_inv_same_peers [OF assms(2)])
  show "queue_sorted (sr_delay_queue s')"
    using assms by (auto simp: flush_screen_locked_def screen_inv_def Let_def dest: take_due_sound
        split: if_splits prod.splits)
qed (use assms(1) in \<open>auto simp: flush_screen_locked_def split: if_splits prod.splits\<close>)

lemma forward_screen_locked_inv [inv_intros]:
  assumes "forward_screen_locked e s item = (pend, s')" and "screen_inv s"
  shows "screen_inv s'"
proof (rule screen_inv_same_peers [OF assms(2)])
  show "queue_sorted (sr_delay_queue s')"
    using assms by (auto simp: forward_screen_locked_def screen_inv_def Let_def split: if_splits option.splits)
qed (use assms(1) in \<open>auto simp: forward_screen_locked_def Let_def map_vals_adjust
      split: if_splits option.splits prod.splits\<close>)

lemma send_screen_packets_generations:
  assumes "send_screen_packets e video s pend = (es, s')"
  shows "generation (sr_rewriters s' r) = generation (sr_rewriters s r)"
    and "sr_peers s' = sr_peers s" and "sr_next_rewriter s' = sr_next_rewriter s"
    and "sr_closed s' = sr_closed s" and "sr_delay_queue s' = sr_delay_queue s"
  using assms send_packets_loop_sound
  by (fastforce simp: send_screen_packets_def Let_def split: option.splits prod.splits if_splits)+

lemma screen_table_generations:
  assumes "screen_table_ok S peers h n" and "\<And>r. generation (h' r) = generation (h r)"
  shows "screen_table_ok S peers h' n"
  using assms unfolding screen_table_ok_def by (auto intro: screen_peer_ok_heap)

lemma send_screen_packets_inv [inv_intros]:
  assumes "send_screen_packets e video s pend = (es, s')" and "screen_inv s"
  shows "screen_inv s'"
  using screen_table_generations [OF screen_inv_table [OF assms(2)] send_screen_packets_generations(1) [OF assms(1)]]
    send_screen_packets_generations(2-5) [OF assms(1)] assms(2)
  by (simp add: screen_inv_def)

lemma close_screen_inv [inv_intros]: "close_screen e s = (es, s') \<Longrightarrow> screen_inv s \<Longrightarrow> screen_inv s'"
  by (auto simp: close_screen_def screen_inv_def screen_table_ok_def queue_sorted_def split: if_splits)

lemma new_screen_router_inv [inv_intros]: "screen_inv (new_screen_router config executor)"
  by (simp add: screen_inv_def new_screen_router_def screen_table_ok_def queue_sorted_def)

section \<open>The slot protocol of the router\<close>

inductive screen_step :: "screen_router \<Rightarrow> screen_router \<Rightarrow> bool" where
  screen_config: "screen_step s (update_screen_fault_config c s)"
| screen_input: "register_screen_input e s owner track video send = (es, s') \<Longrightarrow> screen_step s s'"
| screen_output_begin:
    "register_screen_output_begin e counter s owner track video send = (r, counter', s') \<Longrightarrow> screen_step s s'"
| screen_output_commit:
    "register_screen_output_commit e s owner track video mid = (notices, s') \<Longrightarrow> screen_step s s'"
| screen_publish: "publish_screen e s notices = (es, s') \<Longrightarrow> screen_step s s'"
| screen_keyframe: "screen_request_keyframe e s t = (es, s') \<Longrightarrow> screen_step s s'"
| screen_streaming: "set_screen_streaming e s pid streaming = (es, s') \<Longrightarrow> screen_step s s'"
| screen_watching: "set_screen_watching e s pid publisher watching = (es, s') \<Longrightarrow> screen_step s s'"
| screen_remove: "remove_screen_peer e s pid = (es, s') \<Longrightarrow> screen_step s s'"
| screen_route: "route_screen_locked e s publisher video expected p = (es, pend, s') \<Longrightarrow> screen_step s s'"
| screen_flush: "flush_screen_locked e s = (due, s') \<Longrightarrow> screen_step s s'"
| screen_forward: "forward_screen_locked e s item = (pend, s') \<Longrightarrow> screen_step s s'"
| screen_send: "send_screen_packets e video s pend = (es, s') \<Longrightarrow> screen_step s s'"
| screen_close: "close_screen e s = (es, s') \<Longrightarrow> screen_step s s'"

text \<open>A step either rearranges the table lawfully and keeps the invariant, or leaves the bindings alone.\<close>

lemma screen_step_lawful:
  assumes "screen_step s s'" and inv: "screen_inv s"
  shows "screen_inv s' \<and> screen_lawful 4 s s'"
proof -
  have assigned: ?thesis if "s' = s \<or> (\<not> sr_closed s \<and> s' = screen_peer_for k s) \<or> screen_assigns e s s'" for e k
    using that inv screen_assigns_inv screen_assigns_lawful screen_peer_for_inv screen_peer_for_lawful
    by (auto intro: screen_lawful_same)
  have same: ?thesis if "screen_inv s'" "screen_slots s' = screen_slots s" "sr_next_rewriter s' = sr_next_rewriter s"
      "\<And>r. generation (sr_rewriters s' r) = generation (sr_rewriters s r)"
    using that by (auto intro: screen_lawful_same)
  show ?thesis
    using assms(1)
  proof cases
    case (screen_config c)
    then show ?thesis using inv
      by (intro same) (simp_all add: update_screen_fault_config_def screen_inv_def)
  next
    case screen_input
    with register_screen_input_cases inv assigned show ?thesis by blast
  next
    case (screen_output_begin e counter owner track video send r counter')
    show ?thesis
    proof (cases "sr_closed s")
      case True
      with screen_output_begin inv show ?thesis
        by (intro same) (auto simp: register_screen_output_begin_def Let_def split: prod.splits)
    next
      case False
      from register_screen_output_begin_step [OF screen_output_begin inv False] show ?thesis
        by (auto intro: screen_lawful_mono)
    qed
  next
    case screen_output_commit
    with register_screen_output_commit_cases inv assigned show ?thesis by blast
  next
    case screen_publish
    then show ?thesis using inv by (intro same) (auto simp: publish_screen_def Let_def)
  next
    case screen_keyframe
    then show ?thesis using inv by (intro same) (auto simp: screen_request_keyframe_def Let_def)
  next
    case screen_streaming
    with set_screen_streaming_cases inv assigned show ?thesis by blast
  next
    case screen_watching
    with set_screen_watching_cases inv assigned show ?thesis by blast
  next
    case screen_remove
    with remove_screen_peer_cases inv assigned show ?thesis by blast
  next
    case (screen_route e publisher video expected p es pend)
    show ?thesis
      by (rule same, rule route_screen_locked_inv [OF screen_route inv])
        (use screen_route in \<open>auto simp: route_screen_locked_def Let_def split: if_splits option.splits prod.splits\<close>)
  next
    case (screen_flush e due)
    show ?thesis
      by (rule same, rule flush_screen_locked_inv [OF screen_flush inv])
        (use screen_flush in \<open>auto simp: flush_screen_locked_def split: if_splits prod.splits\<close>)
  next
    case (screen_forward e item pend)
    show ?thesis
      by (rule same, rule forward_screen_locked_inv [OF screen_forward inv])
        (use screen_forward in \<open>auto simp: forward_screen_locked_def Let_def split: if_splits option.splits prod.splits\<close>)
  next
    case (screen_send e video pend es)
    show ?thesis
      using send_screen_packets_inv [OF screen_send inv] send_screen_packets_generations [OF screen_send]
      by (intro same) simp_all
  next
    case (screen_close e es)
    have "screen_lawful 4 s s'" using screen_close
      by (auto simp: close_screen_def screen_lawful_def table_lawful_def bumped_def split: if_splits
          intro!: exI [of _ 0])
    with close_screen_inv [OF screen_close inv] show ?thesis by blast
  qed
qed

interpretation screen_protocol: slot_protocol screen_step screen_inv
  "\<lambda>s r. generation (sr_rewriters s r)" sr_next_rewriter
  "\<lambda>s r. r \<in> \<Union> (pair_refs ` set (screen_slots s))"
  "\<lambda>s. bound_view pair_refs pair_view (screen_slots s)" 4
proof
  fix s s' r assume inv: "screen_inv s" and step: "screen_step s s'"
  note lawful = screen_step_lawful [OF step inv, unfolded screen_lawful_def table_lawful_def]
  show "screen_inv s'" using lawful by blast
  show "sr_next_rewriter s \<le> sr_next_rewriter s'" using lawful by blast
  show "r < sr_next_rewriter s \<Longrightarrow> r \<in> \<Union> (pair_refs ` set (screen_slots s')) \<Longrightarrow>
      r \<in> \<Union> (pair_refs ` set (screen_slots s))" using lawful by blast
  show "r < sr_next_rewriter s \<Longrightarrow> r \<in> \<Union> (pair_refs ` set (screen_slots s')) \<Longrightarrow>
      \<exists>k\<le>4. generation (sr_rewriters s' r) = generation (sr_rewriters s r) + of_nat k \<and>
        (k = 0 \<longrightarrow> bound_view pair_refs pair_view (screen_slots s') r =
           bound_view pair_refs pair_view (screen_slots s) r)"
    using lawful unfolding bumped_def by blast
qed

section \<open>Assignment leaves no work undone\<close>

text \<open>No free pair of a subscriber while a publisher that it watches and could receive is not bound.\<close>

definition screen_fully_assigned :: "track_env \<Rightarrow> screen_router \<Rightarrow> bool" where
  "screen_fully_assigned e s \<longleftrightarrow>
     (\<forall>(k, p)\<in>set (sr_peers s). \<forall>q\<in>set (keys (sp_watched_publishers p)).
        screen_eligible e (sr_peers s) k q \<longrightarrow>
          q \<in> set (pair_publishers (sp_outputs p)) \<or> (\<forall>x\<in>set (sp_outputs p). \<not> free_pair e x))"

lemma assign_screen_complete:
  assumes run: "assign_screen e s = (s', notices)" and inv: "screen_inv s"
  shows "screen_fully_assigned e s'"
proof -
  note ok = screen_inv_table [OF inv]
  obtain peers h claims where s': "s' = s\<lparr>sr_peers := peers, sr_rewriters := h\<rparr>"
    and a: "assign_peers sp_outputs put_pairs op_publisher (free_pair e) claim_pair
       (ordered_watches (sr_peers s)) (screen_eligible e (sr_peers s)) (ordered_screen_peers s)
       (sr_peers s) (sr_rewriters s) = (peers, h, claims)"
    and same: "map_vals (\<lambda>p. (sp_streaming p, sp_input_video p)) peers =
       map_vals (\<lambda>p. (sp_streaming p, sp_input_video p)) (sr_peers s)"
    by (rule assign_screen_ok [OF run ok])
  have wf: "distinct (keys (sr_peers s))" "pairwise_disjoint pair_refs (screen_slots s)"
      "\<And>k p. (k, p) \<in> set (sr_peers s) \<Longrightarrow> distinct (st.publishers (sp_outputs p))"
    using ok by (auto simp: screen_table_ok_def screen_peer_ok_def publishers_screen)
  have keys: "keys peers = keys (sr_peers s)" using same by (metis keys_map_vals)
  show ?thesis
    unfolding screen_fully_assigned_def s'
  proof (clarsimp simp: screen_publishers_cong(2) [OF same])
    fix k p q w x
    assume *: "(k, p) \<in> set peers" "(q, w) \<in> set (sp_watched_publishers p)"
      "screen_eligible e (sr_peers s) k q" "x \<in> set (sp_outputs p)" "free_pair e x"
      "q \<notin> set (pair_publishers (sp_outputs p))"
    have "k \<in> set (ordered_screen_peers s)"
      using *(1) keys unfolding set_ordered_screen_peers by (metis fst_conv image_eqI list.set_map)
    moreover have "map_of peers k = Some p" using *(1) wf(1) keys by simp
    moreover have "q \<in> set (ordered_watches (sr_peers s) p)"
      using *(2) by (force simp: set_ordered_watches)
    ultimately have "q \<in> set (st.publishers (sp_outputs p)) \<or> (\<forall>x\<in>set (sp_outputs p). \<not> free_pair e x)"
      using *(3) wf(3)
      by (intro st.assign_peers_work_conserving [OF a wf(1,2) distinct_ordered_screen_peers [OF wf(1)]])
    with * show False by (auto simp: publishers_screen)
  qed
qed

lemma screen_assigns_complete: "screen_assigns e s s' \<Longrightarrow> screen_fully_assigned e s'"
  unfolding screen_assigns_def using assign_screen_complete
  by (fastforce simp: screen_fully_assigned_def)

lemma screen_peer_for_complete:
  "screen_fully_assigned e s \<Longrightarrow> screen_fully_assigned e (screen_peer_for k s)"
proof (cases "map_of (sr_peers s) k")
  case None
  assume "screen_fully_assigned e s"
  moreover have "screen_eligible e (sr_peers (screen_peer_for k s)) j q = screen_eligible e (sr_peers s) j q" for j q
  proof -
    have "map_of (sr_peers (screen_peer_for k s)) q =
        (if q = k then Some (new_screen_peer (sr_next_peer_order s)) else map_of (sr_peers s) q)"
      using None by (simp add: screen_peer_for_def map_add_def split: option.splits)
    with None show ?thesis by (simp add: screen_eligible_def new_screen_peer_def)
  qed
  moreover from None have "sr_peers (screen_peer_for k s) =
      sr_peers s @ [(k, new_screen_peer (sr_next_peer_order s))]"
    by (simp add: screen_peer_for_def)
  ultimately show ?thesis
    unfolding screen_fully_assigned_def by (simp add: new_screen_peer_def split_def)
qed (simp add: screen_peer_for_def)

section \<open>Properties\<close>

lemma screen_reachable_inv: "screen_step\<^sup>*\<^sup>* (new_screen_router config executor) s \<Longrightarrow> screen_inv s"
  using screen_protocol.inv_reachable new_screen_router_inv by blast

text \<open>
  A room of two: track 0 is the screen of \<open>a\<close>, tracks 1 and 2 are the video and the audio output of
  \<open>b\<close>, who watches \<open>a\<close>.
\<close>

definition screen_env :: track_env where
  "screen_env = sample_env
     \<lparr>te_media_type := (\<lambda>t. if t = 2 then ''audio'' else ''video''),
      te_mid := (\<lambda>t. if t = 1 then ''1'' else if t = 2 then ''2'' else ''0'')\<rparr>"

definition sample_screen :: screen_router where
  "sample_screen =
     (let s0 = new_screen_router no_faults False;
          s1 = snd (register_screen_input screen_env s0 ''a'' 0 True None);
          s2 = snd (set_screen_streaming screen_env s1 ''a'' True);
          s3 = snd (snd (register_screen_output_begin screen_env 7 s2 ''b'' 1 True (Some 7)));
          s4 = snd (register_screen_output_commit screen_env s3 ''b'' 1 True ''1'');
          s5 = snd (snd (register_screen_output_begin screen_env 9 s4 ''b'' 2 False (Some 7)));
          s6 = snd (register_screen_output_commit screen_env s5 ''b'' 2 False ''2'')
      in snd (set_screen_watching screen_env s6 ''b'' ''a'' True))"

lemma screen_step_snd:
  "screen_step s (snd (register_screen_input e s owner track video send))"
  "screen_step s (snd (snd (register_screen_output_begin e counter s owner track video send)))"
  "screen_step s (snd (register_screen_output_commit e s owner track video mid))"
  "screen_step s (snd (set_screen_streaming e s pid streaming))"
  "screen_step s (snd (set_screen_watching e s pid publisher watching))"
  by (metis prod.collapse screen_input screen_output_begin screen_output_commit screen_streaming screen_watching)+

lemma sample_screen_reachable: "screen_step\<^sup>*\<^sup>* (new_screen_router no_faults False) sample_screen"
  unfolding sample_screen_def Let_def
  by (rule rtranclp.rtrancl_into_rtrancl, rule rtranclp.rtrancl_into_rtrancl,
      rule rtranclp.rtrancl_into_rtrancl, rule rtranclp.rtrancl_into_rtrancl,
      rule rtranclp.rtrancl_into_rtrancl, rule rtranclp.rtrancl_into_rtrancl,
      rule rtranclp.rtrancl_into_rtrancl, rule rtranclp.rtrancl_refl) (rule screen_step_snd)+

definition screen_target :: target where
  "screen_target = \<lparr>tg_track = Some 1, tg_ssrc = 7, tg_rewriter = 0, tg_generation = 1\<rparr>"

lemma sample_screen_facts:
  "collect_screen_targets sample_screen ''a'' True = [screen_target]"
  "generation (sr_rewriters sample_screen 0) = 1"
  "\<not> sr_closed sample_screen" "\<not> sr_executor sample_screen"
  "map op_publisher (screen_slots sample_screen) = [Some ''a'']"
  "map (\<lambda>x. map_option ot_rewriter (op_video x)) (screen_slots sample_screen) = [Some 0]"
  by code_simp+

text \<open>
  C12: in every reachable state of the screen router, whatever the tracks did: a pair is bound only
  to another peer that is registered, is streaming, has published a video and is watched by the
  pair's peer; no publisher takes two pairs of a subscriber; both outputs of a bound pair are ready
  and carry the current generation of a rewriter of their own.
\<close>

theorem screen_router_invariant:
  assumes "screen_step\<^sup>*\<^sup>* (new_screen_router config executor) s"
    and "(k, p) \<in> set (sr_peers s)" and "x \<in> set (sp_outputs p)" and "op_publisher x = Some q"
  shows "screen_inv s \<and> q \<noteq> k \<and> q \<in> set (keys (sp_watched_publishers p)) \<and>
         (\<exists>src. map_of (sr_peers s) q = Some src \<and> sp_streaming src \<and> sp_input_video src \<noteq> None) \<and>
         output_ok (sr_rewriters s) (op_video x) \<and> output_ok (sr_rewriters s) (op_audio x)"
proof -
  have inv: "screen_inv s" using assms(1) by (rule screen_reachable_inv)
  then have "screen_peer_ok (screen_publishers (sr_peers s)) (sr_rewriters s) k p"
    using assms(2) by (auto simp: screen_inv_def screen_table_ok_def)
  with assms(3,4) have "q \<in> set (keys (sp_watched_publishers p))"
    "screen_pair_ok (screen_publishers (sr_peers s)) (sr_rewriters s) k x"
    unfolding screen_peer_ok_def subset_iff in_pair_publishers by blast+
  with inv assms(4) show ?thesis
    by (auto simp: screen_pair_ok_def screen_publishers_def screen_source_def)
qed

lemma sample_screen_pair:
  obtains p x where "(''b'', p) \<in> set (sr_peers sample_screen)" "x \<in> set (sp_outputs p)" "op_publisher x = Some ''a''"
proof -
  have "map (\<lambda>(k, p). (k, map op_publisher (sp_outputs p))) (sr_peers sample_screen) =
      [(''a'', []), (''b'', [Some ''a''])]" by code_simp
  with that show thesis by (auto simp: map_eq_Cons_conv)
qed

lemma screen_router_invariant_witness:
  "\<exists>p. (''b'', p) \<in> set (sr_peers sample_screen) \<and> ''a'' \<in> set (keys (sp_watched_publishers p))"
proof -
  obtain p x where "(''b'', p) \<in> set (sr_peers sample_screen)" "x \<in> set (sp_outputs p)" "op_publisher x = Some ''a''"
    by (rule sample_screen_pair)
  with screen_router_invariant [OF sample_screen_reachable this] show ?thesis by blast
qed

text \<open>
  C3: targets that were collected before any \<open>n\<close> operations (\<open>4 * n < 2 ^ 64\<close>) cannot reach the wrong
  viewer: if a collected target still passes the generation check and its rewriter is still in
  use, its pair still has the same publisher and the output its track and SSRC.
\<close>

theorem screen_targets_never_cross:
  assumes "screen_step\<^sup>*\<^sup>* (new_screen_router config executor) s"
    and "(screen_step ^^ n) s s'" and "4 * n < 2 ^ 64"
    and "tg \<in> set (collect_screen_targets s publisher video)"
    and "generation (sr_rewriters s' (tg_rewriter tg)) = tg_generation tg"
    and "\<exists>x\<in>set (screen_slots s'). tg_rewriter tg \<in> pair_refs x"
  shows "tg \<in> set (collect_screen_targets s' publisher video)"
proof -
  have inv: "screen_inv s" using assms(1) by (rule screen_reachable_inv)
  let ?r = "tg_rewriter tg"
  obtain x t where x: "x \<in> set (screen_slots s)" "op_publisher x = Some publisher"
      "output_of video x = Some t" "ot_ready t" "tg = output_target t"
    using assms(4) by (auto simp: collect_screen_targets_def map_filter_def)
  then obtain k p where kp: "(k, p) \<in> set (sr_peers s)" "x \<in> set (sp_outputs p)" by (auto simp: in_slots)
  have ok: "screen_pair_ok (screen_publishers (sr_peers s)) (sr_rewriters s) k x"
    using inv kp by (auto simp: screen_inv_def screen_table_ok_def screen_peer_ok_def)
  have gen: "generation (sr_rewriters s ?r) = tg_generation tg"
    using ok x by (cases video) (auto simp: screen_pair_ok_def output_ok_def output_of_def output_target_def)
  have in_refs: "?r \<in> pair_refs x"
    using x by (cases video) (auto simp: pair_refs_def output_of_def output_target_def)
  then have ref: "?r < sr_next_rewriter s"
    using inv x(1) by (auto simp: screen_inv_def screen_table_ok_def)
  have "?r \<in> \<Union> (pair_refs ` set (screen_slots s'))" using assms(6) by blast
  from screen_protocol.same_generation_same_binding [OF assms(2) inv ref this assms(3)]
  have "bound_view pair_refs pair_view (screen_slots s') ?r = bound_view pair_refs pair_view (screen_slots s) ?r"
    using assms(5) gen by simp
  moreover have "bound_view pair_refs pair_view (screen_slots s) ?r
      (publisher, target_at ?r (op_video x), target_at ?r (op_audio x))"
    unfolding bound_view_def pair_view_def using x in_refs by (intro bexI [OF _ x(1)]) simp
  ultimately have "bound_view pair_refs pair_view (screen_slots s') ?r
      (publisher, target_at ?r (op_video x), target_at ?r (op_audio x))" by simp
  then obtain y where y: "y \<in> set (screen_slots s')" "op_publisher y = Some publisher"
      "target_at ?r (op_video y) = target_at ?r (op_video x)" "target_at ?r (op_audio y) = target_at ?r (op_audio x)"
    by (auto simp: bound_view_def pair_view_def)
  have "target_at ?r (output_of video x) = Some tg" using x by (simp add: target_at_def output_target_def)
  then have "target_at ?r (output_of video y) = Some tg" using y(3,4) by (cases video) (simp_all add: output_of_def)
  then obtain t' where "output_of video y = Some t'" "ot_ready t'" "output_target t' = tg"
    by (auto simp: target_at_def split: option.splits if_splits)
  then have "tg \<in> output_target ` set (filter ot_ready (List.map_filter (output_of video)
      (filter (\<lambda>x. op_publisher x = Some publisher) (screen_slots s'))))"
    using y(1,2) by (force simp: map_filter_def image_iff)
  then show ?thesis by (simp add: collect_screen_targets_def)
qed

lemma screen_targets_never_cross_witness:
  "screen_target \<in> set (collect_screen_targets sample_screen ''a'' True)"
proof (rule screen_targets_never_cross [OF sample_screen_reachable, of 0])
  show "\<exists>x\<in>set (screen_slots sample_screen). tg_rewriter screen_target \<in> pair_refs x"
    using sample_screen_facts(6) by (cases "screen_slots sample_screen")
      (auto simp: screen_target_def pair_refs_def output_refs_def)
qed (simp_all add: sample_screen_facts screen_target_def)

text \<open>
  C24: registering an input, completing an output and removing a peer leave no subscriber with a
  free pair while a streaming publisher that it watches is not bound to one of its pairs; starting
  and stopping a stream or a watch keep it so.
\<close>

theorem screen_assignment_complete:
  assumes "screen_inv s" and "\<not> sr_closed s"
  shows "screen_fully_assigned e (snd (register_screen_input e s owner track video send)) \<and>
         screen_fully_assigned e (snd (remove_screen_peer e s pid)) \<and>
         (map_of (sr_peers s) owner \<noteq> None \<longrightarrow>
            screen_fully_assigned e (snd (register_screen_output_commit e s owner track video mid))) \<and>
         (screen_fully_assigned e s \<longrightarrow>
            screen_fully_assigned e (snd (set_screen_streaming e s pid streaming)) \<and>
            screen_fully_assigned e (snd (set_screen_watching e s pid publisher watching)))"
proof (intro conjI impI)
  show "screen_fully_assigned e (snd (register_screen_input e s owner track video send))"
    using register_screen_input_assigns [OF prod.collapse [symmetric] assms] by (rule screen_assigns_complete)
  show "screen_fully_assigned e (snd (remove_screen_peer e s pid))"
    using remove_screen_peer_assigns [OF prod.collapse [symmetric] assms] by (rule screen_assigns_complete)
  show "screen_fully_assigned e (snd (register_screen_output_commit e s owner track video mid))"
    if "map_of (sr_peers s) owner \<noteq> None"
    using register_screen_output_commit_assigns [OF prod.collapse [symmetric] assms] that
      screen_assigns_complete by blast
  assume full: "screen_fully_assigned e s"
  then have keep: "screen_fully_assigned e s'"
    if "s' = s \<or> (\<not> sr_closed s \<and> s' = screen_peer_for k s) \<or> screen_assigns e s s'" for s' k
    using that screen_assigns_complete screen_peer_for_complete by blast
  show "screen_fully_assigned e (snd (set_screen_streaming e s pid streaming))"
    using set_screen_streaming_cases [OF prod.collapse [symmetric] assms(1)] by (rule keep)
  show "screen_fully_assigned e (snd (set_screen_watching e s pid publisher watching))"
    using set_screen_watching_cases [OF prod.collapse [symmetric] assms(1)] by (rule keep)
qed

lemma screen_assignment_complete_witness:
  "screen_fully_assigned screen_env (snd (remove_screen_peer screen_env sample_screen ''c''))"
  using screen_assignment_complete [OF screen_reachable_inv [OF sample_screen_reachable] sample_screen_facts(3)]
  by blast

lemma route_screen_locked_targets:
  assumes "route_screen_locked e s publisher video expected p = (es, pend, s1)"
  shows "pend = Some (tgs, mid_id, out) \<Longrightarrow> tgs = collect_screen_targets s1 publisher video"
    and "SendPacket t q \<notin> set es"
  using assms
  by (auto simp: route_screen_locked_def Let_def split: if_splits option.splits prod.splits)

lemma route_screen_locked_packets:
  assumes "route_screen_locked e s publisher video expected p = (es, pend, s1)"
    and "pend = Some (tgs, mid_id, out)" and "packet \<in> set out"
  shows "packet = p \<or> (\<exists>src. map_of (sr_peers s) publisher = Some src \<and>
           delayed_packet (sp_fault_state video src) = Some packet)"
  using assms
  by (auto simp: route_screen_locked_def Let_def dest!: schedule_all_immediate apply_rtp_faults_packets
      split: if_splits option.splits prod.splits)

text \<open>
  C22: what is sent is right. Every packet that leaves in \<open>route\<close> goes to an open, ready output of a
  pair of another peer that watches the publisher while the publisher streams, with the SSRC of
  that output and the payload of a packet that the publisher sent now or that its fault model held
  back.
\<close>

theorem route_screen_delivers:
  assumes "screen_inv s" and "route_screen e s publisher video expected p = (es, s')"
    and "SendPacket t q \<in> set es"
  shows "\<exists>k peer x out packet src. (k, peer) \<in> set (sr_peers s') \<and> k \<noteq> publisher \<and>
           publisher \<in> set (keys (sp_watched_publishers peer)) \<and>
           map_of (sr_peers s') publisher = Some src \<and> sp_streaming src \<and>
           x \<in> set (sp_outputs peer) \<and> op_publisher x = Some publisher \<and>
           output_of video x = Some out \<and> ot_ready out \<and> ot_track out = Some t \<and> te_alive e t \<and> te_open e t \<and>
           network_u32 q 8 = Some (ot_ssrc out) \<and> rtp_payload q = rtp_payload packet \<and>
           (packet = p \<or> (\<exists>src. map_of (sr_peers s) publisher = Some src \<and>
               delayed_packet (sp_fault_state video src) = Some packet))"
proof -
  obtain es1 pend s1 where locked: "route_screen_locked e s publisher video expected p = (es1, pend, s1)"
    by (metis prod_cases3)
  obtain es2 where sent: "send_screen_packets e video s1 pend = (es2, s')" and es: "es = es1 @ es2"
    using assms(2) locked by (auto simp: route_screen_def Let_def split: prod.splits)
  obtain tgs mid_id out where pend: "pend = Some (tgs, mid_id, out)"
  proof (cases pend)
    case None
    then have "SendPacket t q \<notin> set es"
      using route_screen_locked_targets(2) [OF locked] sent es by (auto simp: send_screen_packets_def)
    with assms(3) show ?thesis by simp
  qed (metis prod_cases3 that)
  note facts = route_screen_locked_targets [OF locked]
  obtain h sizes where loop: "send_packets_loop e mid_id tgs out (sr_rewriters s1) = (es2, h, sizes)"
    using sent pend by (cases "send_packets_loop e mid_id tgs out (sr_rewriters s1)")
      (auto simp: send_screen_packets_def Let_def)
  have s': "sr_peers s' = sr_peers s1" by (rule send_screen_packets_generations(2) [OF sent])
  have "SendPacket t q \<in> set es2" using assms(3) es facts(2) by auto
  then have "delivers e (sr_rewriters s1) tgs out (SendPacket t q)"
    using send_packets_loop_sound [OF loop] by blast
  then obtain tg packet where tg: "tg \<in> set tgs" "packet \<in> set out" "lock_track e (tg_track tg) = Some t"
      "te_open e t" "rewritten_for e tg packet q"
    by (auto simp: delivers_def)
  obtain x out where x: "x \<in> set (screen_slots s1)" "op_publisher x = Some publisher"
      "output_of video x = Some out" "ot_ready out" "tg = output_target out"
    using tg(1) facts(1) [OF pend] by (auto simp: collect_screen_targets_def map_filter_def)
  then obtain k peer where peer: "(k, peer) \<in> set (sr_peers s1)" "x \<in> set (sp_outputs peer)"
    by (auto simp: in_slots)
  have inv: "screen_inv s1" using route_screen_locked_inv [OF locked assms(1)] .
  then have "screen_peer_ok (screen_publishers (sr_peers s1)) (sr_rewriters s1) k peer"
    using peer by (auto simp: screen_inv_def screen_table_ok_def)
  with peer x(2) have "publisher \<in> set (keys (sp_watched_publishers peer))"
    "screen_pair_ok (screen_publishers (sr_peers s1)) (sr_rewriters s1) k x"
    unfolding screen_peer_ok_def subset_iff in_pair_publishers by blast+
  with x(2) obtain src where "k \<noteq> publisher" "publisher \<in> set (keys (sp_watched_publishers peer))"
      "map_of (sr_peers s1) publisher = Some src" "sp_streaming src"
    by (auto simp: screen_pair_ok_def screen_publishers_def screen_source_def)
  moreover note route_screen_locked_packets [OF locked pend tg(2)]
  ultimately show ?thesis using peer x tg unfolding s'
    by (intro exI [of _ k] exI [of _ peer] exI [of _ x] exI [of _ out] exI [of _ packet] exI [of _ src])
      (auto simp: rewritten_for_def output_target_def lock_track_eq_Some)
qed

lemma sample_screen_source:
  "\<exists>src. map_of (sr_peers sample_screen) ''a'' = Some src \<and> sp_input_video src = Some 0 \<and>
     sp_streaming src \<and> sp_video_mid_extension_id src = None"
proof -
  have "map_option (\<lambda>p. (sp_input_video p, sp_streaming p, sp_video_mid_extension_id p))
      (map_of (sr_peers sample_screen) ''a'') = Some (Some 0, True, None)" by code_simp
  then show ?thesis by auto
qed

lemma screen_fault_config:
  "sr_fault_config (snd (register_screen_input e s owner t video send)) = sr_fault_config s"
  "sr_fault_config (snd (snd (register_screen_output_begin e counter s owner t video send))) = sr_fault_config s"
  "sr_fault_config (snd (register_screen_output_commit e s owner t video mid)) = sr_fault_config s"
  "sr_fault_config (snd (set_screen_streaming e s pid streaming)) = sr_fault_config s"
  "sr_fault_config (snd (set_screen_watching e s pid publisher watching)) = sr_fault_config s"
  by (simp_all add: register_screen_input_def register_screen_output_begin_def
      register_screen_output_commit_def set_screen_streaming_def set_screen_watching_def
      assign_screen_def publish_screen_def Let_def case_prod_beta split: option.split)

lemma sample_screen_config: "sr_fault_config sample_screen = no_faults"
  by (simp add: sample_screen_def Let_def screen_fault_config new_screen_router_def)

lemma sample_screen_rewriter: "sr_rewriters sample_screen 0 = snd (begin_source (new_rewriter 90000 3000))"
  by code_simp

lemma rewrite_screen_sample:
  "rewrite (\<lambda>_. False) (snd (begin_source (new_rewriter 90000 3000))) sample_packet 1 7 None =
     Some (True, [0x80, 0x6f, 0, 5, 0, 0, 1, 0, 0, 0, 0, 7, 0xaa, 0xbb],
       snd (the (map_timeline (snd (begin_source (new_rewriter 90000 3000))) 5 256)))"
  by (simp add: rewrite_def rewrite_rtp_for_slot_sample map_timeline_first anchor_source_def
      begin_source_def new_rewriter_def network_u16_def network_u32_def set_network_u16_def
      set_network_u32_def drop_bit_eq_div Let_def)

lemma sample_screen_route:
  "\<exists>s'. route_screen screen_env sample_screen ''a'' True (Some 0) sample_packet =
     ([SendPacket 1 [0x80, 0x6f, 0, 5, 0, 0, 1, 0, 0, 0, 0, 7, 0xaa, 0xbb]], s')"
proof -
  obtain src where src: "map_of (sr_peers sample_screen) ''a'' = Some src" "sp_input_video src = Some 0"
      "sp_streaming src" "sp_video_mid_extension_id src = None"
    using sample_screen_source by auto
  have is_rtcp: "te_is_rtcp screen_env = (\<lambda>_. False)" by (simp add: screen_env_def sample_env_def)
  have faults: "apply_rtp_faults (\<lambda>_. False) no_faults st sample_packet =
      (\<lparr>tapped = None, first_packet = Some sample_packet, second_packet = None\<rparr>, st)" for st
    by (simp add: apply_rtp_faults_def no_faults_def reorder_config_def burst_enabled_def)
  have link: "\<not> link_down no_faults" "\<not> link_enabled (link_model no_faults)"
    by (simp_all add: no_faults_def reorder_config_def link_enabled_def)
  have keep: "slots sp_outputs (adjust ''a'' (set_sp_states True f l) (sr_peers sample_screen)) =
      screen_slots sample_screen" for f l by simp
  obtain s1 where locked: "route_screen_locked screen_env sample_screen ''a'' True (Some 0) sample_packet =
      ([], Some ([screen_target], None, [sample_packet]), s1)"
    and heap: "sr_rewriters s1 = sr_rewriters sample_screen"
    using src sample_screen_facts(1,3,4) link
    by (simp add: route_screen_locked_def sample_screen_config faults is_rtcp faulted_packets_def
        map_filter_simps schedule_faulted_def collect_screen_targets_def sp_input_def
        sp_mid_extension_id_def Let_def)
  have "lock_track screen_env (Some 1) = Some 1" "te_open screen_env 1" "te_send_ok screen_env t q" for t q
    by (simp_all add: screen_env_def sample_env_def lock_track_def)
  then show ?thesis
    using rewrite_screen_sample
    by (simp add: route_screen_def locked send_screen_packets_def send_to_target_def screen_target_def heap
        sample_screen_rewriter is_rtcp Let_def)
qed

lemma route_screen_delivers_witness:
  "\<exists>s' k peer. route_screen screen_env sample_screen ''a'' True (Some 0) sample_packet =
       ([SendPacket 1 [0x80, 0x6f, 0, 5, 0, 0, 1, 0, 0, 0, 0, 7, 0xaa, 0xbb]], s') \<and>
     (k, peer) \<in> set (sr_peers s') \<and> k \<noteq> ''a'' \<and> ''a'' \<in> set (keys (sp_watched_publishers peer))"
proof -
  obtain s' where run: "route_screen screen_env sample_screen ''a'' True (Some 0) sample_packet =
      ([SendPacket 1 [0x80, 0x6f, 0, 5, 0, 0, 1, 0, 0, 0, 0, 7, 0xaa, 0xbb]], s')"
    using sample_screen_route by blast
  from route_screen_delivers [OF screen_reachable_inv [OF sample_screen_reachable] run] run show ?thesis
    by fastforce
qed

end
