(* ===== verification/Http_Requests.thy ===== *)
theory Http_Requests
  imports Prelude
begin

text \<open>
  The text functions of the signaling server: room and token from a request
  (\<^verbatim>\<open>parse_room_id\<close>, \<^verbatim>\<open>url_decode\<close>, \<^verbatim>\<open>parse_query_param\<close>, \<^verbatim>\<open>bearer_token\<close> of
  \<^verbatim>\<open>backend/signaling_server/src/ws_server.cpp\<close>, \<^verbatim>\<open>url_escape\<close> of \<^verbatim>\<open>api_authenticator.cpp\<close>), ports and
  ICE servers from the environment (\<^verbatim>\<open>WebSocketServer::WebSocketServer\<close>, \<^verbatim>\<open>main.cpp\<close>). A
  \<^verbatim>\<open>std::string_view\<close> is a list of characters; \<^verbatim>\<open>std::stoul\<close> and \<^verbatim>\<open>std::from_chars\<close> are written out
  as the standard describes them, a thrown exception or an error code being \<open>None\<close>.
\<close>

section \<open>Searching\<close>

text \<open>The text before the first \<open>c\<close> and, if there is one, the text after it.\<close>

definition before :: "char \<Rightarrow> string \<Rightarrow> string" where
  "before c s = takeWhile (\<lambda>x. x \<noteq> c) s"

fun after :: "char \<Rightarrow> string \<Rightarrow> string option" where
  "after c [] = None"
| "after c (x # s) = (if x = c then Some s else after c s)"

lemma after_None: "after c s = None \<longleftrightarrow> c \<notin> set s"
  by (induction s) auto

lemma after_Some: "after c s = Some t \<Longrightarrow> s = before c s @ c # t"
  by (induction s) (auto simp: before_def split: if_splits)

lemma before_id: "c \<notin> set s \<Longrightarrow> before c s = s"
  by (induction s) (auto simp: before_def)

lemma before_append: "c \<notin> set s \<Longrightarrow> before c (s @ c # t) = s"
  by (induction s) (auto simp: before_def)

lemma after_append: "c \<notin> set s \<Longrightarrow> after c (s @ c # t) = Some t"
  by (induction s) auto

lemma before_no: "c \<notin> set (before c s)"
  by (auto simp: before_def dest: set_takeWhileD)

lemma after_length: "after c s = Some t \<Longrightarrow> length t < length s"
  by (induction s) (auto split: if_splits)

section \<open>Percent encoding\<close>

definition hex_value :: "char \<Rightarrow> nat option" where
  "hex_value h =
     (let n = of_char h :: nat in
      if 48 \<le> n \<and> n \<le> 57 then Some (n - 48)
      else if 97 \<le> n \<and> n \<le> 102 then Some (n - 97 + 10)
      else if 65 \<le> n \<and> n \<le> 70 then Some (n - 65 + 10)
      else None)"

definition hex_pair :: "char \<Rightarrow> char \<Rightarrow> char option" where
  "hex_pair h l =
     (case (hex_value h, hex_value l) of
        (Some hi, Some lo) \<Rightarrow> Some (char_of (16 * hi + lo))
      | _ \<Rightarrow> None)"

function url_decode :: "string \<Rightarrow> string" where
  "url_decode [] = []"
| "url_decode (c # s) =
     (if c = CHR ''+'' then CHR '' '' # url_decode s
      else if c = CHR 0x25 \<and> 2 \<le> length s
      then (case hex_pair (s ! 0) (s ! 1) of
              Some d \<Rightarrow> d # url_decode (drop 2 s)
            | None \<Rightarrow> c # url_decode s)
      else c # url_decode s)"
  by pat_completeness auto
termination by (relation "measure length") auto

definition hex_digit :: "nat \<Rightarrow> char" where
  "hex_digit d = ''0123456789ABCDEF'' ! d"

definition unreserved :: "char \<Rightarrow> bool" where
  "unreserved c \<longleftrightarrow>
     (let n = of_char c :: nat in
      97 \<le> n \<and> n \<le> 122 \<or> 65 \<le> n \<and> n \<le> 90 \<or> 48 \<le> n \<and> n \<le> 57 \<or>
      c = CHR ''-'' \<or> c = CHR ''.'' \<or> c = CHR ''_'' \<or> c = CHR ''~'')"

fun url_escape :: "string \<Rightarrow> string" where
  "url_escape [] = []"
| "url_escape (c # s) =
     (if unreserved c then c # url_escape s
      else CHR 0x25 # hex_digit (of_char c div 16) # hex_digit (of_char c mod 16) # url_escape s)"

section \<open>Rooms, parameters and tokens\<close>

definition strip_slashes :: "string \<Rightarrow> string" where
  "strip_slashes s = rev (dropWhile (\<lambda>c. c = CHR ''/'') (rev s))"

definition channels_prefix :: string where
  "channels_prefix = ''/channels/''"

definition parse_room_id :: "string \<Rightarrow> room_id" where
  "parse_room_id target =
     (if length channels_prefix < length target \<and> take (length channels_prefix) target = channels_prefix
      then let rest = strip_slashes (before CHR ''?'' (drop (length channels_prefix) target)) in
           if rest \<noteq> [] then rest else ''default''
      else ''default'')"

function query_loop :: "string \<Rightarrow> string \<Rightarrow> string" where
  "query_loop key qs =
     (if qs = [] then []
      else let pair = before CHR ''&'' qs;
               continue = (case after CHR ''&'' qs of None \<Rightarrow> [] | Some rest \<Rightarrow> query_loop key rest) in
           case after CHR ''='' pair of
             Some v \<Rightarrow> if before CHR ''='' pair = key then url_decode v else continue
           | None \<Rightarrow> continue)"
  by pat_completeness auto
termination by (relation "measure (\<lambda>(key, qs). length qs)") (auto dest: after_length)

declare query_loop.simps [simp del]

definition parse_query_param :: "string \<Rightarrow> string \<Rightarrow> string" where
  "parse_query_param target key =
     (case after CHR ''?'' target of None \<Rightarrow> [] | Some qs \<Rightarrow> query_loop key qs)"

text \<open>The \<^verbatim>\<open>Authorization\<close> header is empty where the request has none.\<close>

definition bearer_prefix :: string where
  "bearer_prefix = ''Bearer ''"

definition bearer_token :: "string \<Rightarrow> string \<Rightarrow> string" where
  "bearer_token authorization target =
     (if length bearer_prefix < length authorization
         \<and> take (length bearer_prefix) authorization = bearer_prefix
      then drop (length bearer_prefix) authorization
      else parse_query_param target ''t'')"

text \<open>The path of a plain HTTP request.\<close>

definition request_path :: "string \<Rightarrow> string" where
  "request_path target = before CHR ''?'' target"

section \<open>Numbers\<close>

definition is_space :: "char \<Rightarrow> bool" where
  "is_space c \<longleftrightarrow> (let n = of_char c :: nat in n = 32 \<or> 9 \<le> n \<and> n \<le> 13)"

definition is_control :: "char \<Rightarrow> bool" where
  "is_control c \<longleftrightarrow> (let n = of_char c :: nat in n < 32 \<or> n = 127)"

definition is_digit :: "char \<Rightarrow> bool" where
  "is_digit c \<longleftrightarrow> (let n = of_char c :: nat in 48 \<le> n \<and> n \<le> 57)"

definition digits_value :: "string \<Rightarrow> nat" where
  "digits_value ds = foldl (\<lambda>n c. 10 * n + (of_char c - 48)) 0 ds"

text \<open>
  \<^verbatim>\<open>std::stoul\<close>: leading white space, a sign, decimal digits; the value and the number of
  characters used. A negative number is negated in 64 bits.
\<close>

definition stoul :: "string \<Rightarrow> (nat \<times> nat) option" where
  "stoul s =
     (let body = dropWhile is_space s;
          signed = body \<noteq> [] \<and> (hd body = CHR ''+'' \<or> hd body = CHR ''-'');
          negative = body \<noteq> [] \<and> hd body = CHR ''-'';
          rest = (if signed then tl body else body);
          ds = takeWhile is_digit rest;
          v = digits_value ds in
      if ds = [] \<or> 2 ^ 64 \<le> v then None
      else Some (if negative then (2 ^ 64 - v) mod 2 ^ 64 else v, length s - length rest + length ds))"

text \<open>\<^verbatim>\<open>std::from_chars\<close> into an \<^verbatim>\<open>unsigned int\<close>: digits only; the value and the text left.\<close>

definition from_chars :: "string \<Rightarrow> (nat \<times> string) option" where
  "from_chars s =
     (let ds = takeWhile is_digit s in
      if ds = [] \<or> 2 ^ 32 \<le> digits_value ds then None else Some (digits_value ds, dropWhile is_digit s))"

text \<open>\<^verbatim>\<open>parse_port\<close> of \<^verbatim>\<open>main.cpp\<close>; \<open>None\<close> where it throws.\<close>

definition parse_port :: "string \<Rightarrow> nat option" where
  "parse_port value =
     (case stoul value of
        None \<Rightarrow> None
      | Some (parsed, consumed) \<Rightarrow>
          if consumed \<noteq> length value \<or> parsed = 0 \<or> 65535 < parsed then None else Some parsed)"

definition env_port :: "string option \<Rightarrow> nat \<Rightarrow> nat" where
  "env_port v fallback =
     (case v of
        None \<Rightarrow> fallback
      | Some text \<Rightarrow>
          (case stoul text of
             None \<Rightarrow> fallback
           | Some (parsed, consumed) \<Rightarrow>
               if consumed \<noteq> length text \<or> parsed = 0 \<or> 65535 < parsed then fallback else parsed))"

definition ice_port_range :: "string option \<Rightarrow> string option \<Rightarrow> nat \<times> nat" where
  "ice_port_range port_min port_max =
     (let a = env_port port_min 49160; b = env_port port_max 49200 in
      if b < a then (49160, 49200) else (a, b))"

section \<open>ICE servers\<close>

text \<open>\<^verbatim>\<open>std::getline\<close> with a delimiter, until the stream has no more characters.\<close>

function get_lines :: "char \<Rightarrow> string \<Rightarrow> string list" where
  "get_lines d s =
     (if s = [] then []
      else before d s # (case after d s of None \<Rightarrow> [] | Some rest \<Rightarrow> get_lines d rest))"
  by pat_completeness auto
termination by (relation "measure (\<lambda>(d, s). length s)") (auto dest: after_length)

declare get_lines.simps [simp del]

definition is_blank :: "char \<Rightarrow> bool" where
  "is_blank c \<longleftrightarrow> c = CHR '' '' \<or> c = CHR 0x09"

definition trim :: "string \<Rightarrow> string" where
  "trim s = rev (dropWhile is_blank (rev (dropWhile is_blank s)))"

text \<open>\<^verbatim>\<open>rtc::IceServer\<close> is a parameter: \<open>None\<close> where its constructor throws.\<close>

definition ice_urls :: "string option \<Rightarrow> string list" where
  "ice_urls raw =
     (let v = (case raw of Some r \<Rightarrow> r | None \<Rightarrow> ''stun:stun.l.google.com:19302'') in
      if v = ''none'' then []
      else map trim (filter (\<lambda>url. dropWhile is_blank url \<noteq> []) (get_lines CHR '','' v)))"

definition ice_servers :: "(string \<Rightarrow> 'server option) \<Rightarrow> string option \<Rightarrow> 'server list" where
  "ice_servers ice_server raw = List.map_filter ice_server (ice_urls raw)"

section \<open>Round trips\<close>

lemma hex_value_digit: "d < 16 \<Longrightarrow> hex_value (hex_digit d) = Some d"
proof -
  have "list_all (\<lambda>d. hex_value (hex_digit d) = Some d) [0..<16]" by code_simp
  then show "d < 16 \<Longrightarrow> hex_value (hex_digit d) = Some d" by (auto simp: list_all_iff)
qed

lemma unreserved_hex_digit: "d < 16 \<Longrightarrow> unreserved (hex_digit d)"
proof -
  have "list_all (\<lambda>d. unreserved (hex_digit d)) [0..<16]" by code_simp
  then show "d < 16 \<Longrightarrow> unreserved (hex_digit d)" by (auto simp: list_all_iff)
qed

lemma of_char_div_16: "(of_char c :: nat) div 16 < 16"
  by (rule less_mult_imp_div_less) simp

lemma hex_pair_digits:
  "hex_pair (hex_digit (of_char c div 16)) (hex_digit (of_char c mod 16)) = Some c"
  by (simp add: hex_pair_def hex_value_digit of_char_div_16)

lemma not_unreserved: "\<not> unreserved CHR ''+''" "\<not> unreserved CHR 0x25" "\<not> unreserved CHR ''&''"
  "\<not> unreserved CHR ''=''" "\<not> unreserved CHR ''?''" "\<not> unreserved CHR ''/''" "\<not> unreserved CHR ''#''"
  by code_simp+

lemma decode_escape_append: "url_decode (url_escape s @ t) = s @ url_decode t"
proof (induction s)
  case Nil
  then show ?case by simp
next
  case (Cons c s)
  show ?case
  proof (cases "unreserved c")
    case True
    then have "c \<noteq> CHR ''+''" "c \<noteq> CHR 0x25" using not_unreserved by metis+
    with True Cons.IH show ?thesis by simp
  next
    case False
    with Cons.IH show ?thesis by (simp add: hex_pair_digits)
  qed
qed

lemma set_url_escape: "c \<in> set (url_escape s) \<Longrightarrow> unreserved c \<or> c = CHR 0x25"
  by (induction s) (auto simp: unreserved_hex_digit of_char_div_16 split: if_splits)

lemma url_escape_no: "c \<in> {CHR ''&'', CHR ''='', CHR ''?'', CHR ''/'', CHR ''#''} \<Longrightarrow> c \<notin> set (url_escape s)"
  using set_url_escape not_unreserved by blast

text \<open>
  \<^verbatim>\<open>url_decode\<close> undoes \<^verbatim>\<open>url_escape\<close> on every byte string, and an escaped string holds unreserved
  characters and percent signs only, so it can stand in a path or a query.
\<close>

theorem url_escape_round_trip:
  "url_decode (url_escape s) = s \<and> set (url_escape s) \<subseteq> insert CHR 0x25 (Collect unreserved)"
  using decode_escape_append [of s "[]"] set_url_escape [of _ s] by auto

text \<open>A query string as clients build it.\<close>

fun encode_query :: "(string \<times> string) list \<Rightarrow> string" where
  "encode_query [] = []"
| "encode_query [(k, v)] = k @ CHR ''='' # url_escape v"
| "encode_query ((k, v) # p # ps) = k @ CHR ''='' # url_escape v @ CHR ''&'' # encode_query (p # ps)"

lemma query_loop_pair:
  assumes "CHR ''='' \<notin> set k" and "CHR ''&'' \<notin> set k"
  shows "query_loop key (k @ CHR ''='' # url_escape v) = (if k = key then v else [])"
    and "query_loop key (k @ CHR ''='' # url_escape v @ CHR ''&'' # qs) = (if k = key then v else query_loop key qs)"
proof -
  let ?pair = "k @ CHR ''='' # url_escape v"
  have none: "CHR ''&'' \<notin> set ?pair" using assms url_escape_no by auto
  have pair: "after CHR ''='' ?pair = Some (url_escape v)" "before CHR ''='' ?pair = k"
    using assms by (simp_all add: after_append before_append)
  have decoded: "url_decode (url_escape v) = v" using decode_escape_append [of v "[]"] by simp
  show "query_loop key ?pair = (if k = key then v else [])"
    using none by (subst query_loop.simps) (simp add: before_id after_None [THEN iffD2] pair decoded)
  have whole: "k @ CHR ''='' # url_escape v @ CHR ''&'' # qs = ?pair @ CHR ''&'' # qs" by simp
  show "query_loop key (k @ CHR ''='' # url_escape v @ CHR ''&'' # qs) = (if k = key then v else query_loop key qs)"
    unfolding whole
    by (subst query_loop.simps) (simp only: before_append [OF none] after_append [OF none] pair decoded Let_def
        option.case append_is_Nil_conv list.distinct simp_thms if_False)
qed

lemma query_loop_encode:
  assumes "\<forall>(k, v)\<in>set ps. CHR ''='' \<notin> set k \<and> CHR ''&'' \<notin> set k"
  shows "query_loop key (encode_query ps) = (case map_of ps key of Some v \<Rightarrow> v | None \<Rightarrow> [])"
  using assms
proof (induction ps rule: encode_query.induct)
  case 1
  then show ?case by (simp add: query_loop.simps)
next
  case (2 k v)
  then show ?case by (simp add: query_loop_pair)
next
  case (3 k v p ps)
  then show ?case by (simp add: query_loop_pair)
qed

text \<open>
  Reading a parameter of a query built from names and escaped values gives the value of its first
  occurrence, and the empty string where it is absent.
\<close>

theorem query_param_round_trip:
  assumes "CHR ''?'' \<notin> set path"
    and "\<forall>(k, v)\<in>set ps. CHR ''='' \<notin> set k \<and> CHR ''&'' \<notin> set k"
  shows "parse_query_param (path @ CHR ''?'' # encode_query ps) key =
           (case map_of ps key of Some v \<Rightarrow> v | None \<Rightarrow> [])"
  using query_loop_encode [OF assms(2)] by (simp add: parse_query_param_def after_append [OF assms(1)])

lemma query_param_round_trip_witness:
  "parse_query_param (''/channels/7'' @ CHR ''?'' # encode_query [(''u'', ''a b''), (''t'', ''x+/='')]) ''t'' = ''x+/=''"
  by (subst query_param_round_trip) auto

lemma strip_slashes_last: "strip_slashes s \<noteq> [] \<Longrightarrow> last (strip_slashes s) \<noteq> CHR ''/''"
  using hd_dropWhile [of "\<lambda>c. c = CHR ''/''" "rev s"] by (simp add: strip_slashes_def last_rev)

lemma strip_slashes_id: "s \<noteq> [] \<Longrightarrow> last s \<noteq> CHR ''/'' \<Longrightarrow> strip_slashes s = s"
  by (cases s rule: rev_cases) (simp_all add: strip_slashes_def)

lemma set_strip_slashes: "set (strip_slashes s) \<subseteq> set s"
  by (auto simp: strip_slashes_def dest: set_dropWhileD)

lemma parse_room_id_shape:
  "parse_room_id t \<noteq> [] \<and> CHR ''?'' \<notin> set (parse_room_id t) \<and> last (parse_room_id t) \<noteq> CHR ''/''"
proof -
  let ?rest = "strip_slashes (before CHR ''?'' (drop (length channels_prefix) t))"
  have "CHR ''?'' \<notin> set ?rest" using set_strip_slashes before_no by blast
  then show ?thesis using strip_slashes_last by (simp add: parse_room_id_def Let_def)
qed

text \<open>
  A room has a nonempty name without a question mark that does not end in a slash; the path of a
  room, with any query behind it, leads to that room.
\<close>

theorem parse_room_id_canonical:
  "parse_room_id t \<noteq> [] \<and> CHR ''?'' \<notin> set (parse_room_id t) \<and> last (parse_room_id t) \<noteq> CHR ''/'' \<and>
   parse_room_id (''/channels/'' @ parse_room_id t @ CHR ''?'' # qs) = parse_room_id t \<and>
   parse_room_id (''/channels/'' @ parse_room_id t) = parse_room_id t"
proof -
  let ?r = "parse_room_id t"
  have "parse_room_id (''/channels/'' @ ?r @ CHR ''?'' # qs) = ?r" "parse_room_id (''/channels/'' @ ?r) = ?r"
    using parse_room_id_shape [of t]
    by (simp_all add: parse_room_id_def [of "_ # _"] channels_prefix_def before_append before_id strip_slashes_id Let_def)
  with parse_room_id_shape show ?thesis by blast
qed

section \<open>Ports\<close>

lemma is_digit_digit_char: "d < 10 \<Longrightarrow> is_digit (digit_char d) \<and> (of_char (digit_char d) :: nat) = 48 + d"
  by (simp add: is_digit_def digit_char_def)

lemma to_string_digits: "\<forall>c\<in>set (to_string n). is_digit c"
proof (induction n rule: to_string.induct)
  case (1 n)
  then show ?case by (subst to_string.simps) (auto simp: is_digit_digit_char)
qed

lemma digits_value_to_string: "digits_value (to_string n) = n"
proof (induction n rule: to_string.induct)
  case (1 n)
  then show ?case
    by (subst to_string.simps) (auto simp: digits_value_def is_digit_digit_char)
qed

lemma digit_no_sign: "is_digit c \<Longrightarrow> \<not> is_space c \<and> c \<noteq> CHR ''+'' \<and> c \<noteq> CHR ''-''"
  by (auto simp: is_digit_def is_space_def Let_def)

lemma stoul_digits:
  assumes "ds \<noteq> []" and "\<forall>c\<in>set ds. is_digit c"
  shows "stoul ds = (if 2 ^ 64 \<le> digits_value ds then None else Some (digits_value ds, length ds))"
proof -
  have digits: "takeWhile is_digit ds = ds" using assms(2) by (simp add: takeWhile_eq_all_conv)
  have sign: "\<not> is_space (hd ds)" "hd ds \<noteq> CHR ''+''" "hd ds \<noteq> CHR ''-''"
    using assms digit_no_sign [of "hd ds"] by auto
  have body: "dropWhile is_space ds = ds" using assms(1) sign(1) by (cases ds) auto
  show ?thesis using assms(1) by (simp add: stoul_def Let_def digits sign body)
qed

lemma parse_port_range: "parse_port s = Some n \<Longrightarrow> 1 \<le> n \<and> n \<le> 65535"
  by (auto simp: parse_port_def split: option.splits prod.splits if_splits)

lemma parse_port_to_string: "parse_port (to_string n) = (if 1 \<le> n \<and> n \<le> 65535 then Some n else None)"
  using stoul_digits [of "to_string n"] to_string_digits [of n]
  by (auto simp: parse_port_def digits_value_to_string)

lemma env_port_range: "1 \<le> d \<Longrightarrow> d \<le> 65535 \<Longrightarrow> 1 \<le> env_port v d \<and> env_port v d \<le> 65535"
  by (auto simp: env_port_def split: option.splits prod.splits)

text \<open>
  A configured port is between 1 and 65535, the decimal form of such a number is accepted as
  itself and of any other refused; whatever the environment holds, the ICE port range is not
  empty and within 1 to 65535.
\<close>

theorem port_bounds:
  "parse_port (to_string n) = (if 1 \<le> n \<and> n \<le> 65535 then Some n else None) \<and>
   parse_port s \<in> insert None (Some ` {1..65535}) \<and>
   (case ice_port_range lo hi of (a, b) \<Rightarrow> 1 \<le> a \<and> a \<le> b \<and> b \<le> 65535)"
  using parse_port_to_string [of n] parse_port_range [of s] env_port_range [of 49160 lo] env_port_range [of 49200 hi]
  by (cases "parse_port s") (auto simp: ice_port_range_def Let_def)

text \<open>A sign is accepted too, and a negative number wraps.\<close>

lemma negative_port_accepted: "parse_port ''-18446744073709551615'' = Some 1"
  by (simp add: parse_port_def stoul_def Let_def is_space_def is_digit_def digits_value_def)

end
