(* ===== verification/Signaling_Protocol.thy ===== *)
theory Signaling_Protocol
  imports Prelude
begin

text \<open>
  The signaling messages, \<^verbatim>\<open>core/src/utils/signaling_protocol.cpp\<close>: encoding into and decoding from
  JSON values. The text parser and printer of nlohmann::json are parameters: \<open>parse_text\<close> is \<open>None\<close>
  where \<^verbatim>\<open>json::parse\<close> throws, \<open>dump_text\<close> is \<open>None\<close> where \<^verbatim>\<open>json::dump\<close> throws (a string that
  is not UTF-8).
\<close>

section \<open>Data\<close>

text \<open>A JSON object is a \<^verbatim>\<open>std::map\<close>: an association list in the order of its keys.\<close>

datatype json =
    JNull
  | JBool bool
  | JInt int
  | JFloat real
  | JString string
  | JArray "json list"
  | JObject "(string \<times> json) list"

text \<open>The receive slots for screens, which the server and the client share (\<^verbatim>\<open>core/src/config.hpp\<close>).\<close>

definition kScreenReceiveSlots :: nat where
  "kScreenReceiveSlots = 8"

datatype connection_id = Voice | Screen

datatype watch_reject_reason = UnknownPeer | NotStreaming | Capacity

datatype parse_error = InvalidJson | MissingType | UnknownType | MissingField | InvalidField

record peer_identity =
  pi_id :: peer_id
  pi_username :: username

datatype message =
    Welcome peer_id "peer_identity list" "peer_id list"
  | PeerJoined peer_id username
  | PeerLeft peer_id
  | Offer string connection_id
  | Answer string connection_id
  | Candidate string string connection_id
  | TrackBinding string "peer_id option" connection_id
  | StreamingStart "peer_id option"
  | StreamingStop "peer_id option"
  | WatchStart peer_id
  | WatchStop peer_id
  | WatchRejected peer_id watch_reject_reason

type_synonym 'a parsed = "parse_error + 'a"

section \<open>Encoding\<close>

fun connection_name :: "connection_id \<Rightarrow> string" where
  "connection_name Voice = ''voice''"
| "connection_name Screen = ''screen''"

fun reason_name :: "watch_reject_reason \<Rightarrow> string" where
  "reason_name UnknownPeer = ''unknown_peer''"
| "reason_name NotStreaming = ''not_streaming''"
| "reason_name Capacity = ''capacity''"

fun parse_error_name :: "parse_error \<Rightarrow> string" where
  "parse_error_name InvalidJson = ''invalid_json''"
| "parse_error_name MissingType = ''missing_type''"
| "parse_error_name UnknownType = ''unknown_type''"
| "parse_error_name MissingField = ''missing_field''"
| "parse_error_name InvalidField = ''invalid_field''"

text \<open>\<^verbatim>\<open>msg[key] = value\<close> on a JSON object.\<close>

fun json_set :: "string \<Rightarrow> json \<Rightarrow> (string \<times> json) list \<Rightarrow> (string \<times> json) list" where
  "json_set key value [] = [(key, value)]"
| "json_set key value ((k, v) # members) =
     (if key = k then (key, value) # members
      else if key < k then (key, value) # (k, v) # members
      else (k, v) # json_set key value members)"

lemma map_of_json_set:
  "map_of (json_set key value members) k = (if k = key then Some value else map_of members k)"
  by (induction members) auto

definition with_type :: "string \<Rightarrow> (string \<times> json) list" where
  "with_type type = [(''type'', JString type)]"

definition add_from :: "peer_id option \<Rightarrow> (string \<times> json) list \<Rightarrow> (string \<times> json) list" where
  "add_from from msg =
     (case from of
        Some p \<Rightarrow> if p \<noteq> [] then json_set ''from'' (JString p) msg else msg
      | None \<Rightarrow> msg)"

definition add_connection :: "connection_id \<Rightarrow> (string \<times> json) list \<Rightarrow> (string \<times> json) list" where
  "add_connection connection msg = json_set ''connection'' (JString (connection_name connection)) msg"

definition encode_peer :: "peer_identity \<Rightarrow> json" where
  "encode_peer p = JObject [(''id'', JString (pi_id p)), (''username'', JString (pi_username p))]"

fun encode :: "message \<Rightarrow> json" where
  "encode (Welcome i peers streaming) = JObject
     (json_set ''streaming_peers'' (JArray (map JString streaming))
       (json_set ''peers'' (JArray (map encode_peer peers))
         (json_set ''id'' (JString i) (with_type ''welcome''))))"
| "encode (PeerJoined i username) = JObject
     (json_set ''username'' (JString username) (json_set ''id'' (JString i) (with_type ''peer_joined'')))"
| "encode (PeerLeft i) = JObject (json_set ''id'' (JString i) (with_type ''peer_left''))"
| "encode (Offer sdp c) = JObject (add_connection c (json_set ''sdp'' (JString sdp) (with_type ''offer'')))"
| "encode (Answer sdp c) = JObject (add_connection c (json_set ''sdp'' (JString sdp) (with_type ''answer'')))"
| "encode (Candidate candidate mid c) = JObject
     (add_connection c (json_set ''sdpMid'' (JString mid)
       (json_set ''candidate'' (JString candidate) (with_type ''candidate''))))"
| "encode (TrackBinding mid peer c) = JObject
     (add_connection c (json_set ''peerId'' (case peer of Some p \<Rightarrow> JString p | None \<Rightarrow> JNull)
       (json_set ''sdpMid'' (JString mid) (with_type ''track_binding''))))"
| "encode (StreamingStart from) = JObject (add_from from (with_type ''streaming_start''))"
| "encode (StreamingStop from) = JObject (add_from from (with_type ''streaming_stop''))"
| "encode (WatchStart p) = JObject (json_set ''peerId'' (JString p) (with_type ''watch_start''))"
| "encode (WatchStop p) = JObject (json_set ''peerId'' (JString p) (with_type ''watch_stop''))"
| "encode (WatchRejected p reason) = JObject
     (json_set ''reason'' (JString (reason_name reason))
       (json_set ''peerId'' (JString p) (with_type ''watch_rejected'')))"

section \<open>Decoding\<close>

text \<open>\<^verbatim>\<open>msg.find(key)\<close>; on a value that is not an object it finds nothing.\<close>

fun json_find :: "json \<Rightarrow> string \<Rightarrow> json option" where
  "json_find (JObject members) key = map_of members key"
| "json_find _ key = None"

definition required_string :: "json \<Rightarrow> string \<Rightarrow> string option" where
  "required_string msg key =
     (case json_find msg key of
        Some (JString s) \<Rightarrow> if s \<noteq> [] then Some s else None
      | _ \<Rightarrow> None)"

definition optional_string :: "json \<Rightarrow> string \<Rightarrow> string option" where
  "optional_string msg key =
     (case json_find msg key of
        None \<Rightarrow> None
      | Some JNull \<Rightarrow> None
      | Some (JString s) \<Rightarrow> Some s
      | Some _ \<Rightarrow> Some [])"

definition optional_peer_id :: "json \<Rightarrow> string \<Rightarrow> peer_id option" where
  "optional_peer_id msg key =
     (case optional_string msg key of
        None \<Rightarrow> None
      | Some s \<Rightarrow> if s = [] then None else Some s)"

text \<open>The username of a peer: empty unless a nonempty string is given.\<close>

definition username_of :: "json \<Rightarrow> username" where
  "username_of msg =
     (case optional_string msg ''username'' of
        None \<Rightarrow> []
      | Some s \<Rightarrow> s)"

definition parse_connection :: "json \<Rightarrow> connection_id parsed" where
  "parse_connection msg =
     (case json_find msg ''connection'' of
        None \<Rightarrow> Inl MissingField
      | Some (JString s) \<Rightarrow>
          if s = ''voice'' then Inr Voice
          else if s = ''screen'' then Inr Screen
          else Inl InvalidField
      | Some _ \<Rightarrow> Inl InvalidField)"

definition parse_watch_reject_reason :: "json \<Rightarrow> watch_reject_reason parsed" where
  "parse_watch_reject_reason msg =
     (case required_string msg ''reason'' of
        None \<Rightarrow> Inl MissingField
      | Some s \<Rightarrow>
          if s = ''unknown_peer'' then Inr UnknownPeer
          else if s = ''not_streaming'' then Inr NotStreaming
          else if s = ''capacity'' then Inr Capacity
          else Inl InvalidField)"

fun is_object :: "json \<Rightarrow> bool" where
  "is_object (JObject _) = True"
| "is_object _ = False"

text \<open>The two loops of the welcome message.\<close>

fun parse_peers :: "json list \<Rightarrow> peer_identity list parsed" where
  "parse_peers [] = Inr []"
| "parse_peers (item # items) =
     (if \<not> is_object item then Inl InvalidField
      else (case required_string item ''id'' of
              None \<Rightarrow> Inl InvalidField
            | Some i \<Rightarrow>
                (case parse_peers items of
                   Inl err \<Rightarrow> Inl err
                 | Inr peers \<Rightarrow> Inr (\<lparr>pi_id = i, pi_username = username_of item\<rparr> # peers))))"

fun parse_streaming :: "json list \<Rightarrow> peer_id list parsed" where
  "parse_streaming [] = Inr []"
| "parse_streaming (JString i # items) =
     (case parse_streaming items of
        Inl err \<Rightarrow> Inl err
      | Inr ids \<Rightarrow> Inr (if i \<noteq> [] then i # ids else ids))"
| "parse_streaming (_ # items) = Inl InvalidField"

text \<open>An array that may be absent.\<close>

definition parse_array :: "json \<Rightarrow> string \<Rightarrow> (json list \<Rightarrow> 'a list parsed) \<Rightarrow> 'a list parsed" where
  "parse_array msg key loop =
     (case json_find msg key of
        None \<Rightarrow> Inr []
      | Some (JArray items) \<Rightarrow> loop items
      | Some _ \<Rightarrow> Inl InvalidField)"

definition parse_welcome :: "json \<Rightarrow> message parsed" where
  "parse_welcome msg =
     (case required_string msg ''id'' of
        None \<Rightarrow> Inl MissingField
      | Some i \<Rightarrow>
          (case parse_array msg ''peers'' parse_peers of
             Inl err \<Rightarrow> Inl err
           | Inr peers \<Rightarrow>
               (case parse_array msg ''streaming_peers'' parse_streaming of
                  Inl err \<Rightarrow> Inl err
                | Inr streaming \<Rightarrow> Inr (Welcome i peers streaming))))"

definition with_connection :: "json \<Rightarrow> (connection_id \<Rightarrow> message) \<Rightarrow> message parsed" where
  "with_connection msg f =
     (case parse_connection msg of Inl err \<Rightarrow> Inl err | Inr c \<Rightarrow> Inr (f c))"

definition parse_track_binding :: "json \<Rightarrow> message parsed" where
  "parse_track_binding msg =
     (case required_string msg ''sdpMid'' of
        None \<Rightarrow> Inl MissingField
      | Some mid \<Rightarrow>
          (case json_find msg ''peerId'' of
             None \<Rightarrow> Inl MissingField
           | Some (JString p) \<Rightarrow>
               if p = [] then Inl InvalidField else with_connection msg (TrackBinding mid (Some p))
           | Some JNull \<Rightarrow> with_connection msg (TrackBinding mid None)
           | Some _ \<Rightarrow> Inl InvalidField))"

text \<open>A message with one required string.\<close>

definition parse_one :: "json \<Rightarrow> string \<Rightarrow> (string \<Rightarrow> message parsed) \<Rightarrow> message parsed" where
  "parse_one msg key f = (case required_string msg key of None \<Rightarrow> Inl MissingField | Some s \<Rightarrow> f s)"

definition parse_json :: "json \<Rightarrow> message parsed" where
  "parse_json msg =
     (if \<not> is_object msg then Inl InvalidField
      else case required_string msg ''type'' of
        None \<Rightarrow> Inl MissingType
      | Some type \<Rightarrow>
          if type = ''welcome'' then parse_welcome msg
          else if type = ''peer_joined'' then parse_one msg ''id'' (\<lambda>i. Inr (PeerJoined i (username_of msg)))
          else if type = ''peer_left'' then parse_one msg ''id'' (\<lambda>i. Inr (PeerLeft i))
          else if type = ''offer'' then parse_one msg ''sdp'' (\<lambda>sdp. with_connection msg (Offer sdp))
          else if type = ''answer'' then parse_one msg ''sdp'' (\<lambda>sdp. with_connection msg (Answer sdp))
          else if type = ''candidate'' then
            parse_one msg ''candidate'' (\<lambda>candidate. parse_one msg ''sdpMid'' (\<lambda>mid.
              with_connection msg (Candidate candidate mid)))
          else if type = ''track_binding'' then parse_track_binding msg
          else if type = ''streaming_start'' then Inr (StreamingStart (optional_peer_id msg ''from''))
          else if type = ''streaming_stop'' then Inr (StreamingStop (optional_peer_id msg ''from''))
          else if type = ''watch_start'' then parse_one msg ''peerId'' (\<lambda>p. Inr (WatchStart p))
          else if type = ''watch_stop'' then parse_one msg ''peerId'' (\<lambda>p. Inr (WatchStop p))
          else if type = ''watch_rejected'' then
            parse_one msg ''peerId'' (\<lambda>p.
              case parse_watch_reject_reason msg of Inl err \<Rightarrow> Inl err | Inr r \<Rightarrow> Inr (WatchRejected p r))
          else Inl UnknownType)"

definition parse_message :: "(string \<Rightarrow> json option) \<Rightarrow> string \<Rightarrow> message parsed" where
  "parse_message parse_text raw =
     (case parse_text raw of None \<Rightarrow> Inl InvalidJson | Some msg \<Rightarrow> parse_json msg)"

definition dump_message :: "(json \<Rightarrow> string option) \<Rightarrow> message \<Rightarrow> string option" where
  "dump_message dump_text m = dump_text (encode m)"

section \<open>Building values\<close>

text \<open>An object from its members, and counters as numbers, as \<^verbatim>\<open>nlohmann::json\<close> builds them.\<close>

definition json_object :: "(string \<times> json) list \<Rightarrow> json" where
  "json_object members = JObject (fold (\<lambda>(k, v). json_set k v) members [])"

definition json_count :: "nat \<Rightarrow> json" where
  "json_count n = JInt (int n)"

definition json_counter :: "u64 \<Rightarrow> json" where
  "json_counter w = JInt (uint w)"

section \<open>Round trips\<close>

text \<open>The messages that have a wire form: the required strings are not empty.\<close>

fun wire_ok :: "message \<Rightarrow> bool" where
  "wire_ok (Welcome i peers streaming) \<longleftrightarrow>
     i \<noteq> [] \<and> (\<forall>p\<in>set peers. pi_id p \<noteq> []) \<and> [] \<notin> set streaming"
| "wire_ok (PeerJoined i username) \<longleftrightarrow> i \<noteq> []"
| "wire_ok (PeerLeft i) \<longleftrightarrow> i \<noteq> []"
| "wire_ok (Offer sdp c) \<longleftrightarrow> sdp \<noteq> []"
| "wire_ok (Answer sdp c) \<longleftrightarrow> sdp \<noteq> []"
| "wire_ok (Candidate candidate mid c) \<longleftrightarrow> candidate \<noteq> [] \<and> mid \<noteq> []"
| "wire_ok (TrackBinding mid peer c) \<longleftrightarrow> mid \<noteq> [] \<and> peer \<noteq> Some []"
| "wire_ok (StreamingStart from) \<longleftrightarrow> from \<noteq> Some []"
| "wire_ok (StreamingStop from) \<longleftrightarrow> from \<noteq> Some []"
| "wire_ok (WatchStart p) \<longleftrightarrow> p \<noteq> []"
| "wire_ok (WatchStop p) \<longleftrightarrow> p \<noteq> []"
| "wire_ok (WatchRejected p reason) \<longleftrightarrow> p \<noteq> []"

lemma encode_object: "is_object (encode m)"
  by (cases m) (auto simp: encode_peer_def)

lemma parse_encoded_peers:
  "parse_peers (map encode_peer peers) =
     (if \<forall>p\<in>set peers. pi_id p \<noteq> [] then Inr peers else Inl InvalidField)"
proof (induction peers)
  case (Cons p peers)
  have "required_string (encode_peer p) ''id'' = (if pi_id p \<noteq> [] then Some (pi_id p) else None)"
    "username_of (encode_peer p) = pi_username p" "is_object (encode_peer p)"
    by (simp_all add: encode_peer_def required_string_def username_of_def optional_string_def)
  with Cons show ?case by auto
qed simp

lemma parse_encoded_streaming: "parse_streaming (map JString ids) = Inr (filter (\<lambda>i. i \<noteq> []) ids)"
  by (induction ids) auto

lemmas parse_defs =
  parse_json_def parse_one_def parse_welcome_def parse_array_def with_connection_def parse_connection_def
  parse_track_binding_def parse_watch_reject_reason_def required_string_def optional_string_def
  optional_peer_id_def username_of_def

lemma connection_name_simps [simp]:
  "connection_name c = ''voice'' \<longleftrightarrow> c = Voice" "connection_name c = ''screen'' \<longleftrightarrow> c = Screen"
  by (cases c; simp)+

lemma parse_encoded_connection [simp]:
  "parse_connection (JObject (add_connection c m)) = Inr c"
  by (cases c) (simp_all add: parse_connection_def add_connection_def map_of_json_set)

lemma parse_encode: "parse_json (encode m) = Inr m \<longleftrightarrow> wire_ok m"
proof (cases m)
  case (Welcome i peers streaming)
  then show ?thesis
    by (auto simp: parse_json_def parse_welcome_def parse_array_def required_string_def with_type_def
        map_of_json_set parse_encoded_peers parse_encoded_streaming filter_id_conv)
next
  case (WatchRejected p r)
  then show ?thesis
    by (cases r) (auto simp: parse_defs with_type_def map_of_json_set)
next
  case (StreamingStart origin)
  then show ?thesis
    by (cases origin) (auto simp: parse_defs with_type_def add_from_def map_of_json_set)
next
  case (StreamingStop origin)
  then show ?thesis
    by (cases origin) (auto simp: parse_defs with_type_def add_from_def map_of_json_set)
next
  case (TrackBinding mid peer c)
  then show ?thesis
    by (cases peer; cases c) (auto simp: parse_defs with_type_def add_connection_def map_of_json_set)
next
  case (Offer sdp c)
  then show ?thesis by (cases c) (auto simp: parse_defs with_type_def add_connection_def map_of_json_set)
next
  case (Answer sdp c)
  then show ?thesis by (cases c) (auto simp: parse_defs with_type_def add_connection_def map_of_json_set)
next
  case (Candidate candidate mid c)
  then show ?thesis by (cases c) (auto simp: parse_defs with_type_def add_connection_def map_of_json_set)
qed (auto simp: parse_defs with_type_def map_of_json_set)

text \<open>Everything that is accepted has the required fields.\<close>

lemma required_string_nonempty [simp]: "required_string msg key \<noteq> Some []"
  by (auto simp: required_string_def split: option.splits json.splits if_splits)

lemma parse_peers_ok: "parse_peers items = Inr peers \<Longrightarrow> \<forall>p\<in>set peers. pi_id p \<noteq> []"
  by (induction items arbitrary: peers)
    (auto split: if_splits option.splits sum.splits)

lemma parse_streaming_ok: "parse_streaming items = Inr ids \<Longrightarrow> [] \<notin> set ids"
  by (induction items arbitrary: ids rule: parse_streaming.induct) (auto split: sum.splits if_splits)

lemma parse_array_Inr: "parse_array msg key loop = Inr xs \<Longrightarrow> xs = [] \<or> (\<exists>items. loop items = Inr xs)"
  by (auto simp: parse_array_def split: option.splits json.splits)

lemma parse_welcome_ok: "parse_welcome msg = Inr m \<Longrightarrow> wire_ok m"
  by (auto simp: parse_welcome_def split: option.splits sum.splits
      dest!: parse_array_Inr parse_peers_ok parse_streaming_ok)

lemma parse_track_binding_ok: "parse_track_binding msg = Inr m \<Longrightarrow> wire_ok m"
  by (auto simp: parse_track_binding_def with_connection_def split: option.splits json.splits if_splits sum.splits)

lemma optional_peer_id_nonempty: "optional_peer_id msg key \<noteq> Some []"
  by (auto simp: optional_peer_id_def split: option.splits)

lemma parse_wire_ok: "parse_json msg = Inr m \<Longrightarrow> wire_ok m"
  unfolding parse_json_def
  by (auto simp: parse_one_def with_connection_def optional_peer_id_nonempty split: if_splits option.splits sum.splits
      dest!: parse_welcome_ok parse_track_binding_ok)

text \<open>
  C34: a message survives encoding and decoding exactly when its required strings are not empty, also
  through text, for any printer and parser that undo each other; and decoding never accepts a
  message without them, so whatever was accepted can be sent on unchanged.
\<close>

theorem signaling_round_trip:
  assumes "\<And>m t. dump_text (encode m) = Some t \<Longrightarrow> parse_text t = Some (encode m)"
  shows "(parse_json (encode m) = Inr m \<longleftrightarrow> wire_ok m) \<and>
         (dump_message dump_text m = Some t \<longrightarrow> (parse_message parse_text t = Inr m \<longleftrightarrow> wire_ok m)) \<and>
         (parse_message parse_text raw = Inr m \<longrightarrow> wire_ok m \<and> parse_json (encode m) = Inr m)"
  using assms parse_encode parse_wire_ok
  by (auto simp: dump_message_def parse_message_def split: option.splits)

lemma signaling_round_trip_witness:
  "parse_message (\<lambda>t. if t = ''1'' then Some (encode (WatchStart ''p'')) else None) ''1'' = Inr (WatchStart ''p'')"
proof -
  let ?j = "encode (WatchStart ''p'')"
  have codec: "\<And>m t. (if encode m = ?j then Some ''1'' else None) = Some t \<Longrightarrow>
      (if t = ''1'' then Some ?j else None) = Some (encode m)" by (auto split: if_splits)
  have "dump_message (\<lambda>j. if j = ?j then Some ''1'' else None) (WatchStart ''p'') = Some ''1''"
    by (simp add: dump_message_def)
  then show ?thesis
    using signaling_round_trip [where dump_text = "\<lambda>j. if j = ?j then Some ''1'' else None"
        and parse_text = "\<lambda>t. if t = ''1'' then Some ?j else None"
        and m = "WatchStart ''p''" and t = "''1''" and raw = "''1''", OF codec] by auto
qed

section \<open>Errors\<close>

text \<open>The \<^verbatim>\<open>type\<close> values of the protocol.\<close>

definition message_types :: "string list" where
  "message_types = [''welcome'', ''peer_joined'', ''peer_left'', ''offer'', ''answer'', ''candidate'',
     ''track_binding'', ''streaming_start'', ''streaming_stop'', ''watch_start'', ''watch_stop'', ''watch_rejected'']"

definition field_error :: "'a parsed \<Rightarrow> bool" where
  "field_error r \<longleftrightarrow> (\<forall>err. r = Inl err \<longrightarrow> err \<in> {MissingField, InvalidField})"

named_theorems field_errors "parsers whose only errors concern a field"

lemma field_error_Inr [field_errors]: "field_error (Inr x)"
  by (simp add: field_error_def)

lemma field_error_parse_one [field_errors]: "(\<And>s. field_error (f s)) \<Longrightarrow> field_error (parse_one msg key f)"
  by (auto simp: field_error_def parse_one_def split: option.splits)

lemma field_error_with_connection [field_errors]: "field_error (with_connection msg f)"
  by (auto simp: field_error_def with_connection_def parse_connection_def split: option.splits json.splits if_splits)

lemma field_error_reason [field_errors]:
  "field_error (case parse_watch_reject_reason msg of Inl err \<Rightarrow> Inl err | Inr r \<Rightarrow> Inr (f r))"
  by (auto simp: field_error_def parse_watch_reject_reason_def split: option.splits if_splits)

lemma field_error_peers: "parse_peers items = Inl err \<Longrightarrow> err = InvalidField"
  by (induction items) (auto split: if_splits option.splits sum.splits)

lemma field_error_streaming: "parse_streaming items = Inl err \<Longrightarrow> err = InvalidField"
  by (induction items rule: parse_streaming.induct) (auto split: sum.splits)

lemma field_error_array:
  "parse_array msg key loop = Inl err \<Longrightarrow> (\<And>items. loop items = Inl err \<Longrightarrow> err = InvalidField) \<Longrightarrow> err = InvalidField"
  by (auto simp: parse_array_def split: option.splits json.splits)

lemma field_error_welcome [field_errors]: "field_error (parse_welcome msg)"
  by (auto simp: field_error_def parse_welcome_def split: option.splits sum.splits
      dest: field_error_array [OF _ field_error_peers] field_error_array [OF _ field_error_streaming])

lemma field_error_track_binding [field_errors]: "field_error (parse_track_binding msg)"
  using field_error_with_connection
  by (auto simp: field_error_def parse_track_binding_def split: option.splits json.splits if_splits)

lemma parse_known_type:
  assumes "is_object msg" and "required_string msg ''type'' = Some t"
  shows "if t \<in> set message_types then field_error (parse_json msg) else parse_json msg = Inl UnknownType"
  using assms by (auto simp: parse_json_def message_types_def intro!: field_errors)

text \<open>
  What is refused, and with which error: text that is no JSON, a value that is no object, an
  object without a nonempty string as its type, a type that is not in the protocol; with a known
  type the only errors are a missing and an invalid field.
\<close>

theorem signaling_errors:
  "case parse_text raw of
     None \<Rightarrow> parse_message parse_text raw = Inl InvalidJson
   | Some msg \<Rightarrow>
       if \<not> is_object msg then parse_message parse_text raw = Inl InvalidField
       else (case required_string msg ''type'' of
               None \<Rightarrow> parse_message parse_text raw = Inl MissingType
             | Some t \<Rightarrow>
                 if t \<in> set message_types then field_error (parse_message parse_text raw)
                 else parse_message parse_text raw = Inl UnknownType)"
proof (cases "parse_text raw")
  case None
  then show ?thesis by (simp add: parse_message_def)
next
  case (Some msg)
  show ?thesis
  proof (cases "is_object msg \<and> required_string msg ''type'' \<noteq> None")
    case True
    then obtain t where "is_object msg" "required_string msg ''type'' = Some t" by blast
    with parse_known_type [OF this] Some show ?thesis by (simp add: parse_message_def split: if_splits)
  next
    case False
    with Some show ?thesis by (simp add: parse_message_def parse_json_def)
  qed
qed

end
