(* ===== verification/Api_Authenticator.thy ===== *)
theory Api_Authenticator
  imports Http_Requests Signaling_Protocol
begin

text \<open>
  \<^verbatim>\<open>backend/signaling_server/src/api_authenticator.cpp\<close> and the start-up decisions of \<^verbatim>\<open>main.cpp\<close>: the
  address of the API, the request that authorizes a session, and the state machine of one call. A
  call has one asynchronous operation pending at a time; its completion is a step of the machine,
  with an error code or without. The callback and the operations it starts are effects.
\<close>

section \<open>The address of the API\<close>

definition invalid_host_char :: "char \<Rightarrow> bool" where
  "invalid_host_char c \<longleftrightarrow>
     is_space c \<or> is_control c \<or> c = CHR 0x40 \<or> c = CHR 0x5C \<or> c = CHR 0x5B \<or> c = CHR 0x5D"

definition suffix_char :: "char \<Rightarrow> bool" where
  "suffix_char c \<longleftrightarrow> c = CHR ''/'' \<or> c = CHR ''?'' \<or> c = CHR ''#''"

text \<open>Host and port of an authority; \<open>None\<close> where it has two colons.\<close>

definition split_authority :: "string \<Rightarrow> (string \<times> string) option" where
  "split_authority authority =
     (case after CHR '':'' authority of
        None \<Rightarrow> Some (authority, ''80'')
      | Some p \<Rightarrow> if CHR '':'' \<in> set p then None else Some (before CHR '':'' authority, p))"

definition numeric_port_ok :: "string \<Rightarrow> bool" where
  "numeric_port_ok p =
     (case from_chars p of
        None \<Rightarrow> False
      | Some (n, rest) \<Rightarrow> rest = [] \<and> n \<noteq> 0 \<and> n \<le> 65535)"

definition http_scheme :: string where
  "http_scheme = ''http://''"

definition create_authenticator :: "string \<Rightarrow> (string \<times> string) option" where
  "create_authenticator base_url =
     (if take (length http_scheme) base_url \<noteq> http_scheme then None
      else let rest = drop (length http_scheme) base_url;
               authority = takeWhile (\<lambda>c. \<not> suffix_char c) rest;
               suffix = dropWhile (\<lambda>c. \<not> suffix_char c) rest in
        if dropWhile (\<lambda>c. c = CHR ''/'') suffix \<noteq> [] then None
        else if authority = [] then None
        else (case split_authority authority of
                None \<Rightarrow> None
              | Some (host, port) \<Rightarrow>
                  if host = [] \<or> list_ex invalid_host_char host \<or> port = [] \<or> \<not> numeric_port_ok port
                  then None else Some (host, port)))"

section \<open>One call\<close>

record identity =
  id_username :: string
  id_user_id :: int

datatype call_phase = Resolving | Connecting | Writing | Reading

record api_call =
  ac_host :: string
  ac_port :: string
  ac_target :: string
  ac_host_header :: string
  ac_authorization :: "string option"
  ac_callback :: bool
  ac_pending :: "call_phase option"

datatype call_effect =
    StartAsync call_phase
  | RunCallback "identity option"
  | Shutdown

definition new_call :: "string \<Rightarrow> string \<Rightarrow> string \<Rightarrow> string \<Rightarrow> api_call" where
  "new_call host port target token =
     \<lparr>ac_host = host, ac_port = port, ac_target = target,
      ac_host_header = (if port = ''80'' then host else host @ '':'' @ port),
      ac_authorization = (if token \<noteq> [] then Some (''Bearer '' @ token) else None),
      ac_callback = True, ac_pending = None\<rparr>"

definition start_async :: "call_phase \<Rightarrow> api_call \<Rightarrow> call_effect list \<times> api_call" where
  "start_async phase c = ([StartAsync phase], c\<lparr>ac_pending := Some phase\<rparr>)"

definition run_call :: "api_call \<Rightarrow> call_effect list \<times> api_call" where
  "run_call c = start_async Resolving c"

definition finish_call :: "identity option \<Rightarrow> api_call \<Rightarrow> call_effect list \<times> api_call" where
  "finish_call i c =
     ((if ac_callback c then [RunCallback i] else []) @ [Shutdown],
      c\<lparr>ac_callback := False, ac_pending := None\<rparr>)"

definition fail_call :: "api_call \<Rightarrow> call_effect list \<times> api_call" where
  "fail_call c = finish_call None c"

text \<open>The handlers; \<open>ec\<close> is whether the operation failed.\<close>

definition call_on_resolve :: "bool \<Rightarrow> api_call \<Rightarrow> call_effect list \<times> api_call" where
  "call_on_resolve ec c = (if ec then fail_call c else start_async Connecting c)"

definition call_on_connect :: "bool \<Rightarrow> api_call \<Rightarrow> call_effect list \<times> api_call" where
  "call_on_connect ec c = (if ec then fail_call c else start_async Writing c)"

definition call_on_write :: "bool \<Rightarrow> api_call \<Rightarrow> call_effect list \<times> api_call" where
  "call_on_write ec c = (if ec then fail_call c else start_async Reading c)"

text \<open>\<^verbatim>\<open>json::get<long long>\<close> of an integer value.\<close>

definition to_long_long :: "int \<Rightarrow> int" where
  "to_long_long i = sint (word_of_int i :: 64 word)"

definition identity_of :: "json \<Rightarrow> identity" where
  "identity_of body =
     \<lparr>id_username = (case json_find body ''username'' of Some (JString s) \<Rightarrow> s | _ \<Rightarrow> []),
      id_user_id =
        (case (if json_find body ''user_id'' \<noteq> None then json_find body ''user_id'' else json_find body ''id'') of
           Some (JInt i) \<Rightarrow> to_long_long i
         | _ \<Rightarrow> 0)\<rparr>"

definition call_on_read ::
  "(string \<Rightarrow> json option) \<Rightarrow> bool \<Rightarrow> nat \<Rightarrow> string \<Rightarrow> api_call \<Rightarrow> call_effect list \<times> api_call" where
  "call_on_read parse_text ec status response_body c =
     (if ec then fail_call c
      else if status \<noteq> 200 then finish_call None c
      else case parse_text response_body of
             None \<Rightarrow> finish_call None c
           | Some body \<Rightarrow>
               if id_username (identity_of body) = [] then finish_call None c
               else finish_call (Some (identity_of body)) c)"

text \<open>The completion of whatever is pending.\<close>

record completion =
  co_error :: bool
  co_status :: nat
  co_body :: string

definition complete_call ::
  "(string \<Rightarrow> json option) \<Rightarrow> completion \<Rightarrow> api_call \<Rightarrow> call_effect list \<times> api_call" where
  "complete_call parse_text k c =
     (case ac_pending c of
        None \<Rightarrow> ([], c)
      | Some Resolving \<Rightarrow> call_on_resolve (co_error k) (c\<lparr>ac_pending := None\<rparr>)
      | Some Connecting \<Rightarrow> call_on_connect (co_error k) (c\<lparr>ac_pending := None\<rparr>)
      | Some Writing \<Rightarrow> call_on_write (co_error k) (c\<lparr>ac_pending := None\<rparr>)
      | Some Reading \<Rightarrow>
          call_on_read parse_text (co_error k) (co_status k) (co_body k) (c\<lparr>ac_pending := None\<rparr>))"

fun complete_all ::
  "(string \<Rightarrow> json option) \<Rightarrow> completion list \<Rightarrow> api_call \<Rightarrow> call_effect list \<times> api_call" where
  "complete_all parse_text [] c = ([], c)"
| "complete_all parse_text (k # ks) c =
     (let (es, c1) = complete_call parse_text k c; (es', c2) = complete_all parse_text ks c1 in (es @ es', c2))"

section \<open>Requests\<close>

text \<open>What \<^verbatim>\<open>request\<close> does: nothing without a callback, refuse without a token, else start a call.\<close>

definition api_request ::
  "string \<times> string \<Rightarrow> string \<Rightarrow> string \<Rightarrow> bool \<Rightarrow> call_effect list \<times> api_call option" where
  "api_request address target token callback =
     (if \<not> callback then ([], None)
      else if token = [] then ([RunCallback None], None)
      else let (es, c) = run_call (new_call (fst address) (snd address) target token) in (es, Some c))"

definition authorize_channel ::
  "string \<times> string \<Rightarrow> string \<Rightarrow> string \<Rightarrow> bool \<Rightarrow> call_effect list \<times> api_call option" where
  "authorize_channel address token channel callback =
     api_request address (''/channels/'' @ url_escape channel @ ''/access'') token callback"

definition authorize_user ::
  "string \<times> string \<Rightarrow> string \<Rightarrow> bool \<Rightarrow> call_effect list \<times> api_call option" where
  "authorize_user address token callback = api_request address ''/users/me'' token callback"

section \<open>Start-up\<close>

definition env_flag :: "string option \<Rightarrow> bool" where
  "env_flag v \<longleftrightarrow> v = Some ''1'' \<or> v = Some ''true''"

datatype startup = Refused | Anonymous | Authenticated string string

definition make_authenticator :: "string option \<Rightarrow> string option \<Rightarrow> startup" where
  "make_authenticator api_url allow_anonymous =
     (case api_url of
        Some url \<Rightarrow>
          if url \<noteq> [] then
            (case create_authenticator url of None \<Rightarrow> Refused | Some (host, port) \<Rightarrow> Authenticated host port)
          else if env_flag allow_anonymous then Anonymous else Refused
      | None \<Rightarrow> if env_flag allow_anonymous then Anonymous else Refused)"

text \<open>\<^verbatim>\<open>main\<close> up to the event loop: the port and the authenticator, or failure.\<close>

definition main_startup ::
  "string option \<Rightarrow> string option \<Rightarrow> string option \<Rightarrow> string option \<Rightarrow> (nat \<times> startup) option" where
  "main_startup env_port_text argument api_url allow_anonymous =
     do {
       port1 \<leftarrow> (case env_port_text of Some t \<Rightarrow> parse_port t | None \<Rightarrow> Some 9001);
       port2 \<leftarrow> (case argument of Some t \<Rightarrow> parse_port t | None \<Rightarrow> Some port1);
       (case make_authenticator api_url allow_anonymous of
          Refused \<Rightarrow> None
        | s \<Rightarrow> Some (port2, s))
     }"

section \<open>Which addresses are accepted\<close>

definition host_char :: "char \<Rightarrow> bool" where
  "host_char c \<longleftrightarrow> \<not> invalid_host_char c \<and> \<not> suffix_char c \<and> c \<noteq> CHR '':''"

lemma from_chars_all: "from_chars p = Some (n, []) \<Longrightarrow> p \<noteq> [] \<and> (\<forall>c\<in>set p. is_digit c)"
  by (auto simp: from_chars_def Let_def dropWhile_eq_Nil_conv split: if_splits)

lemma numeric_port_digits: "numeric_port_ok p \<Longrightarrow> p \<noteq> [] \<and> (\<forall>c\<in>set p. is_digit c)"
  using from_chars_all by (auto simp: numeric_port_ok_def split: option.splits)

lemma digit_chars: "is_digit c \<Longrightarrow> \<not> suffix_char c \<and> c \<noteq> CHR '':''"
  by (auto simp: is_digit_def suffix_char_def)

lemma slashes: "dropWhile (\<lambda>c. c = CHR ''/'') s = [] \<longleftrightarrow> (\<exists>n. s = replicate n CHR ''/'')"
proof
  assume "dropWhile (\<lambda>c. c = CHR ''/'') s = []"
  then have "s = replicate (length s) CHR ''/''"
    by (intro replicate_eqI) (auto simp: dropWhile_eq_Nil_conv)
  then show "\<exists>n. s = replicate n CHR ''/''" by blast
qed (auto simp: dropWhile_eq_Nil_conv)

lemma split_authority_Some:
  "split_authority a = Some (h, p) \<longleftrightarrow>
     CHR '':'' \<notin> set h \<and> (p = ''80'' \<and> a = h \<or> CHR '':'' \<notin> set p \<and> a = h @ CHR '':'' # p)"
proof (cases "after CHR '':'' a")
  case None
  then have "CHR '':'' \<notin> set a" by (simp add: after_None)
  with None show ?thesis by (auto simp: split_authority_def)
next
  case (Some q)
  have a: "a = before CHR '':'' a @ CHR '':'' # q" and no: "CHR '':'' \<notin> set (before CHR '':'' a)"
    using after_Some [OF Some] before_no by auto
  have "CHR '':'' \<in> set a" by (subst a) simp
  moreover have "a = h @ CHR '':'' # p \<longleftrightarrow> h = before CHR '':'' a \<and> p = q" if "CHR '':'' \<notin> set h"
    using a before_append [OF that, of p] after_append [OF that, of p] Some by auto
  ultimately show ?thesis using no Some by (auto simp: split_authority_def)
qed

lemma takeWhile_replicate_stop: "\<not> P x \<Longrightarrow> takeWhile P (replicate n x) = []"
  by (cases n) auto

lemma dropWhile_replicate_stop: "\<not> P x \<Longrightarrow> dropWhile P (replicate n x) = replicate n x"
  by (cases n) auto

lemma authority_suffix:
  assumes "\<forall>c\<in>set a. \<not> suffix_char c"
  shows "takeWhile (\<lambda>c. \<not> suffix_char c) (a @ replicate n CHR ''/'') = a"
    and "dropWhile (\<lambda>c. \<not> suffix_char c) (a @ replicate n CHR ''/'') = replicate n CHR ''/''"
proof -
  have slash: "suffix_char CHR ''/''" by (simp add: suffix_char_def)
  show "takeWhile (\<lambda>c. \<not> suffix_char c) (a @ replicate n CHR ''/'') = a"
    using assms slash by (subst takeWhile_append2) (auto intro: takeWhile_replicate_stop)
  show "dropWhile (\<lambda>c. \<not> suffix_char c) (a @ replicate n CHR ''/'') = replicate n CHR ''/''"
    using assms slash by (subst dropWhile_append2) (auto intro: dropWhile_replicate_stop)
qed

text \<open>The parts of an accepted address.\<close>

definition address_parts :: "string \<Rightarrow> string \<Rightarrow> string \<Rightarrow> bool" where
  "address_parts url host port \<longleftrightarrow>
     host \<noteq> [] \<and> list_all host_char host \<and> numeric_port_ok port \<and>
     (\<exists>n. url = http_scheme @ host @ '':'' @ port @ replicate n CHR ''/'' \<or>
          port = ''80'' \<and> url = http_scheme @ host @ replicate n CHR ''/'')"

lemma create_authenticator_Some:
  "create_authenticator url = Some (host, port) \<longleftrightarrow>
     take (length http_scheme) url = http_scheme \<and>
     dropWhile (\<lambda>c. c = CHR ''/'') (dropWhile (\<lambda>c. \<not> suffix_char c) (drop (length http_scheme) url)) = [] \<and>
     takeWhile (\<lambda>c. \<not> suffix_char c) (drop (length http_scheme) url) \<noteq> [] \<and>
     split_authority (takeWhile (\<lambda>c. \<not> suffix_char c) (drop (length http_scheme) url)) = Some (host, port) \<and>
     host \<noteq> [] \<and> \<not> list_ex invalid_host_char host \<and> port \<noteq> [] \<and> numeric_port_ok port"
  unfolding create_authenticator_def Let_def
  by (cases "split_authority (takeWhile (\<lambda>c. \<not> suffix_char c) (drop (length http_scheme) url))")
    (auto simp del: dropWhile_eq_Nil_conv takeWhile_eq_Nil_iff split: if_splits)

lemma create_sound:
  assumes "create_authenticator url = Some (host, port)"
  shows "address_parts url host port"
proof -
  let ?rest = "drop (length http_scheme) url"
  let ?a = "takeWhile (\<lambda>c. \<not> suffix_char c) ?rest" and ?s = "dropWhile (\<lambda>c. \<not> suffix_char c) ?rest"
  have scheme: "take (length http_scheme) url = http_scheme" and s: "dropWhile (\<lambda>c. c = CHR ''/'') ?s = []"
    and split: "split_authority ?a = Some (host, port)" and host: "host \<noteq> []" "\<not> list_ex invalid_host_char host"
    and port: "numeric_port_ok port"
    using assms unfolding create_authenticator_Some by blast+
  obtain n where n: "?s = replicate n CHR ''/''" using s slashes by blast
  have "url = http_scheme @ ?rest" using scheme by (metis append_take_drop_id)
  also have "?rest = ?a @ replicate n CHR ''/''" using n by (metis takeWhile_dropWhile_id)
  finally have url: "url = http_scheme @ ?a @ replicate n CHR ''/''" .
  have "\<forall>c\<in>set ?a. \<not> suffix_char c" by (auto dest: set_takeWhileD)
  then have "list_all host_char host"
    using split host by (auto simp: split_authority_Some host_char_def list_all_iff list_ex_iff)
  moreover have "?a = host @ '':'' @ port \<or> port = ''80'' \<and> ?a = host"
    using split by (auto simp: split_authority_Some)
  ultimately show ?thesis using url host port unfolding address_parts_def by auto
qed

lemma create_complete:
  assumes "address_parts url host port"
  shows "create_authenticator url = Some (host, port)"
proof -
  obtain n where n: "url = http_scheme @ host @ '':'' @ port @ replicate n CHR ''/'' \<or>
      port = ''80'' \<and> url = http_scheme @ host @ replicate n CHR ''/''"
    using assms unfolding address_parts_def by blast
  have "\<exists>a. (a = host @ '':'' @ port \<or> port = ''80'' \<and> a = host) \<and> url = http_scheme @ a @ replicate n CHR ''/''"
    using n
  proof
    assume "url = http_scheme @ host @ '':'' @ port @ replicate n CHR ''/''"
    then show ?thesis by (intro exI [of _ "host @ '':'' @ port"]) simp
  qed blast
  then obtain a where a: "a = host @ '':'' @ port \<or> port = ''80'' \<and> a = host"
    and url: "url = http_scheme @ a @ replicate n CHR ''/''" by blast
  have host: "host \<noteq> []" "list_all host_char host" and port: "numeric_port_ok port"
    using assms by (auto simp: address_parts_def)
  have digits: "port \<noteq> []" "\<forall>c\<in>set port. \<not> suffix_char c \<and> c \<noteq> CHR '':''"
    using numeric_port_digits [OF port] digit_chars by auto
  have "\<forall>c\<in>set host. \<not> suffix_char c" using host by (simp add: host_char_def list_all_iff)
  moreover have "\<not> suffix_char CHR '':''" by (simp add: suffix_char_def)
  ultimately have "\<forall>c\<in>set a. \<not> suffix_char c"
    using a digits by (elim disjE) auto
  note parts = authority_suffix [OF this, of n]
  have "split_authority a = Some (host, port)"
  proof -
    have "CHR '':'' \<notin> set host" "CHR '':'' \<notin> set port" using host digits by (auto simp: host_char_def list_all_iff)
    with a show ?thesis unfolding split_authority_Some append_Cons append_Nil by blast
  qed
  moreover have "a \<noteq> []" using a host by auto
  moreover have "dropWhile (\<lambda>c. c = CHR ''/'') (replicate n CHR ''/'') = []" using slashes by blast
  moreover have "\<not> list_ex invalid_host_char host"
    using host by (auto simp: list_ex_iff list_all_iff host_char_def)
  ultimately show ?thesis
    using host port digits by (simp only: create_authenticator_Some) (simp add: url parts)
qed

text \<open>
  An authenticator is made exactly for \<open>http://host\<close> or \<open>http://host:port\<close> with any number of
  slashes behind it, where the host is not empty and free of white space, control characters,
  brackets, backslashes, colons and at signs, and the port is a decimal number from 1 to 65535; it
  gets that host and that port, 80 where none is given.
\<close>

theorem authenticator_addresses:
  "create_authenticator url = Some (host, port) \<longleftrightarrow> address_parts url host port"
  using create_sound create_complete by blast

section \<open>The callback of a call\<close>

fun is_callback :: "call_effect \<Rightarrow> bool" where
  "is_callback (RunCallback _) = True"
| "is_callback _ = False"

definition call_verdict :: "(string \<Rightarrow> json option) \<Rightarrow> completion \<Rightarrow> identity option" where
  "call_verdict parse_text k =
     (case (co_error k, co_status k = 200, parse_text (co_body k)) of
        (False, True, Some body) \<Rightarrow>
          if id_username (identity_of body) = [] then None else Some (identity_of body)
      | _ \<Rightarrow> None)"

fun call_outcome :: "(string \<Rightarrow> json option) \<Rightarrow> completion list \<Rightarrow> identity option" where
  "call_outcome parse_text (k1 # k2 # k3 # k4 # ks) =
     (if co_error k1 \<or> co_error k2 \<or> co_error k3 then None else call_verdict parse_text k4)"
| "call_outcome parse_text _ = None"

lemma complete_idle: "ac_pending c = None \<Longrightarrow> complete_all parse_text ks c = ([], c)"
  by (induction ks) (simp_all add: complete_call_def)

lemmas call_defs =
  complete_call_def call_on_resolve_def call_on_connect_def call_on_write_def call_on_read_def fail_call_def
  start_async_def

lemma complete_finished: "complete_all parse_text ks (snd (finish_call i c)) = ([], snd (finish_call i c))"
  by (rule complete_idle) (simp add: finish_call_def)

lemma complete_failed:
  assumes "ac_pending c = Some phase" and "co_error k"
  shows "complete_all parse_text (k # ks) c = finish_call None (c\<lparr>ac_pending := None\<rparr>)"
  using assms complete_finished [of parse_text ks None "c\<lparr>ac_pending := None\<rparr>"]
  by (cases phase) (simp_all add: call_defs prod.case_eq_if Let_def)

lemma complete_reading:
  assumes "ac_pending c = Some Reading"
  shows "complete_all parse_text (k # ks) c = finish_call (call_verdict parse_text k) (c\<lparr>ac_pending := None\<rparr>)"
  using assms complete_finished [of parse_text ks _ "c\<lparr>ac_pending := None\<rparr>"]
  by (auto simp: call_defs call_verdict_def prod.case_eq_if Let_def split: option.splits)

lemma complete_next:
  assumes "ac_pending c = Some phase" and "\<not> co_error k"
    and "(phase, phase') \<in> {(Resolving, Connecting), (Connecting, Writing), (Writing, Reading)}"
  shows "complete_all parse_text (k # ks) c =
    (StartAsync phase' # fst (complete_all parse_text ks (c\<lparr>ac_pending := Some phase'\<rparr>)),
     snd (complete_all parse_text ks (c\<lparr>ac_pending := Some phase'\<rparr>)))"
  using assms by (auto simp: call_defs prod.case_eq_if Let_def)

lemma finish_callback:
  "ac_callback c \<Longrightarrow> filter is_callback (fst (finish_call i c)) = [RunCallback i] \<and> ac_pending (snd (finish_call i c)) = None"
  by (simp add: finish_call_def)

lemma outcome_failed:
  "co_error k1 \<Longrightarrow> call_outcome parse_text (k1 # ks) = None"
  "co_error k2 \<Longrightarrow> call_outcome parse_text (k1 # k2 # ks) = None"
  "co_error k3 \<Longrightarrow> call_outcome parse_text (k1 # k2 # k3 # ks) = None"
  by (cases "(parse_text, k1 # ks)" rule: call_outcome.cases; simp)
    (cases "(parse_text, k1 # k2 # ks)" rule: call_outcome.cases; simp;
     cases "(parse_text, k1 # k2 # k3 # ks)" rule: call_outcome.cases; simp)+

lemma outcome_callbacks:
  assumes "ac_pending c = Some phase" and "ac_callback c" and "complete_all parse_text ks c = (es, c')"
    and "(phase, n) \<in> {(Resolving, 0), (Connecting, 1), (Writing, 2), (Reading, 3)}"
    and "length js = n" and "\<forall>k\<in>set js. \<not> co_error k"
  shows "filter is_callback es = (if ac_pending c' = None then [RunCallback (call_outcome parse_text (js @ ks))] else [])
    \<and> (ac_pending c' = None \<longleftrightarrow> 4 \<le> length (js @ ks) \<or> list_ex co_error ks)"
  using assms
proof (induction ks arbitrary: c phase js n es)
  case Nil
  then show ?case by (auto simp: length_Suc_conv numeral_eq_Suc)
next
  case (Cons k ks)
  note pend = Cons.prems(1) and cb = Cons.prems(2) and run = Cons.prems(3)
  have js: "call_outcome parse_text (js @ k # ks) = None" if "co_error k"
  proof -
    have "js = [] \<or> (\<exists>a. js = [a]) \<or> (\<exists>a b. js = [a, b]) \<or> (\<exists>a b c. js = [a, b, c])"
      using Cons.prems(4,5) by (auto simp: length_Suc_conv numeral_eq_Suc)
    then show ?thesis using that by (elim disjE exE) (simp_all add: outcome_failed call_verdict_def)
  qed
  show ?case
  proof (cases "co_error k")
    case True
    then show ?thesis
      using run complete_failed [OF pend True] finish_callback [of "c\<lparr>ac_pending := None\<rparr>" None] cb js by auto
  next
    case False
    show ?thesis
    proof (cases "phase = Reading")
      case True
      then have "length js = 3" using Cons.prems(4,5) by auto
      then obtain k1 k2 k3 where js3: "js = [k1, k2, k3]"
        by (auto simp: length_Suc_conv numeral_eq_Suc)
      then have "\<not> co_error k1" "\<not> co_error k2" "\<not> co_error k3" using Cons.prems(6) by simp_all
      with js3 show ?thesis
        using run complete_reading [of c] pend True cb
          finish_callback [of "c\<lparr>ac_pending := None\<rparr>" "call_verdict parse_text k"] by auto
    next
      case reading: False
      obtain phase' where step: "(phase, phase') \<in> {(Resolving, Connecting), (Connecting, Writing), (Writing, Reading)}"
        and n: "(phase', Suc n) \<in> {(Resolving, 0), (Connecting, 1), (Writing, 2), (Reading, 3)}"
        using Cons.prems(4) reading by auto
      let ?c = "c\<lparr>ac_pending := Some phase'\<rparr>"
      obtain es1 where rest: "complete_all parse_text ks ?c = (es1, c')" and es: "es = StartAsync phase' # es1"
        using run complete_next [OF pend False step, of parse_text ks] by (cases "complete_all parse_text ks ?c") auto
      have "ac_callback ?c" "ac_pending ?c = Some phase'" "length (js @ [k]) = Suc n" "\<forall>k\<in>set (js @ [k]). \<not> co_error k"
        using cb Cons.prems(5,6) False by auto
      from Cons.IH [OF this(2,1) rest n this(3,4)] show ?thesis using es False by simp
    qed
  qed
qed

text \<open>
  C31: an authorization call runs its callback exactly once, whichever of its four operations fail:
  not before it is over, and it is over after the first failure and after at most four
  completions. The identity given is that of a 200 answer whose JSON names a user; everything else
  gives none.
\<close>

theorem callback_exactly_once:
  assumes "complete_all parse_text ks (snd (run_call (new_call host port target token))) = (es, c)"
  shows "filter is_callback es = (if ac_pending c = None then [RunCallback (call_outcome parse_text ks)] else []) \<and>
         (ac_pending c = None \<longleftrightarrow> 4 \<le> length ks \<or> list_ex co_error ks)"
proof -
  let ?c = "snd (run_call (new_call host port target token))"
  have "ac_pending ?c = Some Resolving" "ac_callback ?c"
    by (simp_all add: run_call_def start_async_def new_call_def)
  from outcome_callbacks [OF this assms, of 0 "[]"] show ?thesis by simp
qed

definition plain_completion :: "nat \<Rightarrow> string \<Rightarrow> completion" where
  "plain_completion status body = \<lparr>co_error = False, co_status = status, co_body = body\<rparr>"

lemma callback_exactly_once_witness:
  "filter is_callback (fst (complete_all (\<lambda>t. Some (JObject [(''id'', JInt 7), (''username'', JString ''ada'')]))
      (replicate 4 (plain_completion 200 [])) (snd (run_call (new_call ''api'' ''80'' ''/users/me'' ''secret''))))) =
   [RunCallback (Some \<lparr>id_username = ''ada'', id_user_id = 7\<rparr>)]"
proof -
  let ?parse = "\<lambda>t :: string. Some (JObject [(''id'', JInt 7), (''username'', JString ''ada'')])"
  let ?ks = "replicate 4 (plain_completion 200 [])"
  let ?run = "complete_all ?parse ?ks (snd (run_call (new_call ''api'' ''80'' ''/users/me'' ''secret'')))"
  have "sint (word_of_int 7 :: 64 word) = 7" by simp
  then have outcome: "call_outcome ?parse ?ks = Some \<lparr>id_username = ''ada'', id_user_id = 7\<rparr>"
    by (simp add: numeral_eq_Suc plain_completion_def call_verdict_def identity_of_def to_long_long_def)
  have "?run = (fst ?run, snd ?run)" by simp
  from callback_exactly_once [OF this] outcome show ?thesis by simp
qed

section \<open>Who may start the server\<close>

lemma make_authenticator_cases:
  "make_authenticator api_url allow =
     (if api_url \<noteq> None \<and> api_url \<noteq> Some [] then
        (case create_authenticator (the api_url) of None \<Rightarrow> Refused | Some (host, port) \<Rightarrow> Authenticated host port)
      else if env_flag allow then Anonymous else Refused)"
  by (auto simp: make_authenticator_def split: option.splits)

text \<open>
  The server starts only on a port between 1 and 65535, and without an authenticator only when
  no API address is set and anonymous use is allowed explicitly; an unusable address never falls
  back to anonymous use.
\<close>

theorem startup_decisions:
  "case main_startup env_port_text argument api_url allow of
     None \<Rightarrow> True
   | Some (port, s) \<Rightarrow> 1 \<le> port \<and> port \<le> 65535 \<and>
       (case s of
          Refused \<Rightarrow> False
        | Anonymous \<Rightarrow> (api_url = None \<or> api_url = Some []) \<and> (allow = Some ''1'' \<or> allow = Some ''true'')
        | Authenticated host p \<Rightarrow> (\<exists>url. api_url = Some url \<and> address_parts url host p))"
proof (cases "main_startup env_port_text argument api_url allow")
  case None
  then show ?thesis by simp
next
  case (Some r)
  obtain port s where r: "r = (port, s)" by (cases r)
  have started: "make_authenticator api_url allow \<noteq> Refused"
    using Some by (auto simp: main_startup_def split: Option.bind_splits)
  then have kept: "(case make_authenticator api_url allow of Refused \<Rightarrow> None
      | Anonymous \<Rightarrow> Some (p, Anonymous) | Authenticated h q \<Rightarrow> Some (p, Authenticated h q)) =
      Some (p, make_authenticator api_url allow)" for p :: nat
    by (cases "make_authenticator api_url allow") auto
  obtain port1 where "(case env_port_text of Some t \<Rightarrow> parse_port t | None \<Rightarrow> Some 9001) = Some port1"
    and port2: "(case argument of Some t \<Rightarrow> parse_port t | None \<Rightarrow> Some port1) = Some port"
    and s: "make_authenticator api_url allow = s"
    using Some r by (auto simp: main_startup_def kept split: Option.bind_splits)
  then have "1 \<le> port1 \<and> port1 \<le> 65535" using parse_port_range by (auto split: option.splits)
  with port2 have "1 \<le> port \<and> port \<le> 65535" using parse_port_range by (auto split: option.splits)
  with Some r s started show ?thesis
    by (auto simp: make_authenticator_cases env_flag_def create_authenticator_Some [symmetric]
        split: startup.splits if_splits option.splits dest: create_sound)
qed

end
