(* ===== verification/Bounded_Queue.thy ===== *)
theory Bounded_Queue
  imports Prelude
begin

text \<open>
  \<^verbatim>\<open>utils::BoundedQueue\<close> of \<^verbatim>\<open>core/src/utils/bounded_queue.hpp\<close>: a queue with a capacity that can be
  closed to new elements. \<^verbatim>\<open>front\<close> and \<^verbatim>\<open>pop_front\<close> of an empty \<^verbatim>\<open>std::deque\<close> are undefined
  behaviour, \<open>None\<close> here. The locale states the contract a client relies on; what any sequence of
  operations delivers follows from it.
\<close>

datatype queue_push_result = Accepted | DroppedFull | QueueClosed

record 'a bounded_queue =
  bq_capacity :: nat
  bq_closed :: bool
  bq_items :: "'a list"

definition new_queue :: "nat \<Rightarrow> 'a bounded_queue" where
  "new_queue capacity = \<lparr>bq_capacity = capacity, bq_closed = False, bq_items = []\<rparr>"

definition push_back :: "'a \<Rightarrow> 'a bounded_queue \<Rightarrow> queue_push_result \<times> 'a bounded_queue" where
  "push_back value q =
     (if bq_closed q then (QueueClosed, q)
      else if bq_capacity q \<le> length (bq_items q) then (DroppedFull, q)
      else (Accepted, q\<lparr>bq_items := bq_items q @ [value]\<rparr>))"

definition queue_front :: "'a bounded_queue \<Rightarrow> 'a option" where
  "queue_front q = (case bq_items q of [] \<Rightarrow> None | x # xs \<Rightarrow> Some x)"

definition pop_front :: "'a bounded_queue \<Rightarrow> 'a bounded_queue option" where
  "pop_front q = (case bq_items q of [] \<Rightarrow> None | x # xs \<Rightarrow> Some (q\<lparr>bq_items := xs\<rparr>))"

definition queue_empty :: "'a bounded_queue \<Rightarrow> bool" where
  "queue_empty q \<longleftrightarrow> bq_items q = []"

definition queue_size :: "'a bounded_queue \<Rightarrow> nat" where
  "queue_size q = length (bq_items q)"

definition close_queue :: "'a bounded_queue \<Rightarrow> 'a bounded_queue" where
  "close_queue q = q\<lparr>bq_closed := True\<rparr>"

section \<open>The contract of a bounded queue\<close>

datatype 'a queue_op = Push 'a | Pop | Close

locale bounded_fifo =
  fixes items :: "'q \<Rightarrow> 'a list"
    and capacity :: "'q \<Rightarrow> nat"
    and closed :: "'q \<Rightarrow> bool"
    and push :: "'a \<Rightarrow> 'q \<Rightarrow> queue_push_result \<times> 'q"
    and pop :: "'q \<Rightarrow> 'q option"
    and front :: "'q \<Rightarrow> 'a option"
    and close :: "'q \<Rightarrow> 'q"
  assumes push_result: "fst (push x q) =
      (if closed q then QueueClosed else if capacity q \<le> length (items q) then DroppedFull else Accepted)"
    and push_items: "items (snd (push x q)) = items q @ (if fst (push x q) = Accepted then [x] else [])"
    and push_keeps: "capacity (snd (push x q)) = capacity q" "closed (snd (push x q)) = closed q"
    and pop_Some: "pop q = Some q' \<Longrightarrow>
      items q \<noteq> [] \<and> items q' = tl (items q) \<and> capacity q' = capacity q \<and> closed q' = closed q"
    and pop_defined: "pop q = None \<longleftrightarrow> items q = []"
    and front_items: "front q = (if items q = [] then None else Some (hd (items q)))"
    and close_keeps: "items (close q) = items q" "capacity (close q) = capacity q" "closed (close q)"
begin

text \<open>One operation, with the elements that were accepted and delivered.\<close>

definition op :: "'a queue_op \<Rightarrow> 'q \<Rightarrow> 'a list \<times> 'a list \<times> 'q" where
  "op x q =
     (case x of
        Push v \<Rightarrow> (if fst (push v q) = Accepted then [v] else [], [], snd (push v q))
      | Pop \<Rightarrow> (case pop q of None \<Rightarrow> ([], [], q) | Some q' \<Rightarrow> ([], [hd (items q)], q'))
      | Close \<Rightarrow> ([], [], close q))"

fun run :: "'a queue_op list \<Rightarrow> 'q \<Rightarrow> 'a list \<times> 'a list \<times> 'q" where
  "run [] q = ([], [], q)"
| "run (x # xs) q =
     (let (a, d, q1) = op x q; (as, ds, q2) = run xs q1 in (a @ as, d @ ds, q2))"

lemma op_conserves:
  assumes "op x q = (a, d, q')"
  shows "items q @ a = d @ items q'" and "capacity q' = capacity q" and "closed q \<Longrightarrow> closed q' \<and> a = []"
    and "length (items q) \<le> capacity q \<Longrightarrow> length (items q') \<le> capacity q'"
  using assms push_items push_keeps push_result close_keeps
  by (auto simp: op_def split: queue_op.splits option.splits if_splits dest!: pop_Some)

lemma run_conserves:
  assumes "run xs q = (as, ds, q')"
  shows "items q @ as = ds @ items q'" and "capacity q' = capacity q" and "closed q \<Longrightarrow> closed q' \<and> as = []"
    and "length (items q) \<le> capacity q \<Longrightarrow> length (items q') \<le> capacity q'"
proof -
  have "items q @ as = ds @ items q' \<and> capacity q' = capacity q \<and> (closed q \<longrightarrow> closed q' \<and> as = []) \<and>
      (length (items q) \<le> capacity q \<longrightarrow> length (items q') \<le> capacity q')"
    using assms
  proof (induction xs arbitrary: q as ds)
    case Nil
    then show ?case by simp
  next
    case (Cons x xs)
    obtain a d q1 where one: "op x q = (a, d, q1)" by (metis prod_cases3)
    obtain as1 ds1 where rest: "run xs q1 = (as1, ds1, q')" and eq: "as = a @ as1" "ds = d @ ds1"
      using Cons.prems one by (auto simp: Let_def split: prod.splits)
    have "items q @ a @ as1 = d @ ds1 @ items q'"
      using Cons.IH [OF rest] op_conserves(1) [OF one] by (metis append.assoc)
    with Cons.IH [OF rest] op_conserves(2-4) [OF one] show ?case by (auto simp: eq)
  qed
  then show "items q @ as = ds @ items q'" "capacity q' = capacity q" "closed q \<Longrightarrow> closed q' \<and> as = []"
    "length (items q) \<le> capacity q \<Longrightarrow> length (items q') \<le> capacity q'" by auto
qed

end

interpretation bq: bounded_fifo bq_items bq_capacity bq_closed push_back pop_front queue_front close_queue
  by unfold_locales
    (auto simp: push_back_def pop_front_def queue_front_def close_queue_def split: list.splits)

text \<open>
  Whatever is done with a new queue, the elements it delivered followed by those it still holds
  are exactly the accepted ones in their order, it never holds more than its capacity, and after it
  was closed it accepts nothing.
\<close>

theorem bounded_queue_fifo:
  assumes "bq.run (xs @ Close # ys) (new_queue n) = (accepted, delivered, q)"
    and "bq.run xs (new_queue n) = (accepted1, delivered1, q1)"
  shows "accepted = delivered @ bq_items q \<and> length (bq_items q) \<le> n \<and> bq_closed q \<and> accepted = accepted1"
proof -
  have split: "bq.run (us @ vs) s = (let (a, d, s1) = bq.run us s; (a', d', s2) = bq.run vs s1 in (a @ a', d @ d', s2))"
    for us vs :: "'a queue_op list" and s
    by (induction us arbitrary: s) (auto simp: Let_def split: prod.splits)
  obtain as ds where rest: "bq.run ys (close_queue q1) = (as, ds, q)" and eq: "accepted = accepted1 @ as"
    using assms by (auto simp: split bq.op_def Let_def split: prod.splits)
  have "as = [] \<and> bq_closed q" using bq.run_conserves(3) [OF rest] by (simp add: close_queue_def)
  moreover have "accepted = delivered @ bq_items q" "length (bq_items q) \<le> n"
    using bq.run_conserves [OF assms(1)] by (simp_all add: new_queue_def)
  ultimately show ?thesis using eq by simp
qed

lemma bounded_queue_fifo_witness:
  "bq_items (snd (snd (bq.run [Push (1::nat), Push 2, Push 3, Pop, Close, Push 4] (new_queue 2)))) = [2] \<and>
   length (bq_items (snd (snd (bq.run [Push (1::nat), Push 2, Push 3, Pop, Close, Push 4] (new_queue 2))))) \<le> 2"
proof -
  have run: "bq.run ([Push (1::nat), Push 2, Push 3, Pop] @ Close # [Push 4]) (new_queue 2) =
      ([1, 2], [1], \<lparr>bq_capacity = 2, bq_closed = True, bq_items = [2]\<rparr>)"
    "bq.run [Push (1::nat), Push 2, Push 3, Pop] (new_queue 2) =
      ([1, 2], [1], \<lparr>bq_capacity = 2, bq_closed = False, bq_items = [2]\<rparr>)"
    by (simp_all add: bq.op_def new_queue_def push_back_def pop_front_def close_queue_def)
  from bounded_queue_fifo [OF run] run(1) show ?thesis by simp
qed

end
