(* ===== verification/Session_Writer.thy ===== *)
theory Session_Writer
  imports Bounded_Queue
begin

text \<open>
  The outgoing side of a \<^verbatim>\<open>Session\<close> of \<^verbatim>\<open>backend/signaling_server/src/ws_server.cpp\<close>: \<^verbatim>\<open>enqueue\<close>,
  \<^verbatim>\<open>do_write\<close> and \<^verbatim>\<open>on_write\<close> over a \<^verbatim>\<open>BoundedQueue\<close>. Any thread may enqueue; \<open>wr_due\<close> counts the
  calls of \<^verbatim>\<open>do_write\<close> that were posted or follow from \<^verbatim>\<open>on_write\<close> and have not run, so other threads
  can enqueue in between; \<open>wr_inflight\<close> holds the payloads of the \<^verbatim>\<open>async_write\<close> operations that have not
  completed. Beast allows one at a time.
\<close>

record outbound =
  om_payload :: string
  om_text :: bool

record writer =
  wr_queue :: "outbound bounded_queue"
  wr_due :: nat
  wr_inflight :: "outbound list"

definition kMaxWriteQueueSize :: nat where
  "kMaxWriteQueueSize = 128"

definition new_writer :: writer where
  "new_writer = \<lparr>wr_queue = new_queue kMaxWriteQueueSize, wr_due = 0, wr_inflight = []\<rparr>"

definition enqueue :: "outbound \<Rightarrow> writer \<Rightarrow> queue_push_result \<times> writer" where
  "enqueue msg w =
     (let (pushed, q) = push_back msg (wr_queue w) in
      case pushed of
        DroppedFull \<Rightarrow> (pushed, w)
      | QueueClosed \<Rightarrow> (pushed, w)
      | Accepted \<Rightarrow>
          (pushed, w\<lparr>wr_queue := q, wr_due := (if queue_size q = 1 then Suc (wr_due w) else wr_due w)\<rparr>))"

definition send_text :: "string \<Rightarrow> writer \<Rightarrow> queue_push_result \<times> writer" where
  "send_text payload w = enqueue \<lparr>om_payload = payload, om_text = True\<rparr> w"

text \<open>The message whose \<^verbatim>\<open>async_write\<close> is started, if any.\<close>

definition do_write :: "writer \<Rightarrow> outbound option \<times> writer" where
  "do_write w =
     (case queue_front (wr_queue w) of
        None \<Rightarrow> (None, w\<lparr>wr_due := wr_due w - 1\<rparr>)
      | Some msg \<Rightarrow> (Some msg, w\<lparr>wr_due := wr_due w - 1, wr_inflight := wr_inflight w @ [msg]\<rparr>))"

text \<open>The part of \<^verbatim>\<open>on_close\<close> that concerns the writer.\<close>

definition close_writer :: "writer \<Rightarrow> writer" where
  "close_writer w = w\<lparr>wr_queue := close_queue (wr_queue w)\<rparr>"

text \<open>Completion of the oldest write; the flag is whether it makes the session close.\<close>

definition on_write :: "bool \<Rightarrow> writer \<Rightarrow> bool \<times> writer" where
  "on_write ec w =
     (let w1 = w\<lparr>wr_inflight := tl (wr_inflight w)\<rparr> in
      if ec then (True, close_writer w1)
      else let q = (if \<not> queue_empty (wr_queue w) then the (pop_front (wr_queue w)) else wr_queue w) in
           (False, w1\<lparr>wr_queue := q, wr_due := (if \<not> queue_empty q then Suc (wr_due w) else wr_due w)\<rparr>))"

section \<open>All interleavings\<close>

datatype writer_op = Enqueue outbound | RunWrite | WriteDone bool | CloseWriter

text \<open>An operation that is not enabled does nothing. The result names what was accepted and started.\<close>

definition writer_op :: "writer_op \<Rightarrow> writer \<Rightarrow> outbound list \<times> outbound list \<times> writer" where
  "writer_op x w =
     (case x of
        Enqueue m \<Rightarrow> (let (r, w') = enqueue m w in (if r = Accepted then [m] else [], [], w'))
      | RunWrite \<Rightarrow>
          if wr_due w = 0 then ([], [], w)
          else (let (m, w') = do_write w in ([], case m of None \<Rightarrow> [] | Some m \<Rightarrow> [m], w'))
      | WriteDone ec \<Rightarrow> if wr_inflight w = [] then ([], [], w) else ([], [], snd (on_write ec w))
      | CloseWriter \<Rightarrow> ([], [], close_writer w))"

fun writer_run :: "writer_op list \<Rightarrow> writer \<Rightarrow> outbound list \<times> outbound list \<times> writer" where
  "writer_run [] w = ([], [], w)"
| "writer_run (x # xs) w =
     (let (a, b, w1) = writer_op x w; (as, bs, w2) = writer_run xs w1 in (a @ as, b @ bs, w2))"

text \<open>
  What was accepted and started so far: every accepted message was written, is the one being written,
  or waits behind it; exactly one write is due or in flight while messages wait, unless one failed.
\<close>

definition writer_inv :: "bool \<Rightarrow> outbound list \<Rightarrow> outbound list \<Rightarrow> writer \<Rightarrow> bool" where
  "writer_inv failed accepted started w \<longleftrightarrow>
     (let q = wr_queue w; waiting = bq_items q in
      bq_capacity q = kMaxWriteQueueSize \<and> length waiting \<le> kMaxWriteQueueSize \<and>
      (\<exists>written. accepted = written @ waiting \<and>
        (started = written @ wr_inflight w \<and>
           (case waiting of
              [] \<Rightarrow> wr_inflight w = [] \<and> wr_due w = 0
            | m # _ \<Rightarrow> wr_inflight w = [m] \<and> wr_due w = 0 \<or> wr_inflight w = [] \<and> wr_due w = 1) \<or>
         failed \<and> bq_closed q \<and> wr_inflight w = [] \<and> wr_due w = 0 \<and>
           waiting \<noteq> [] \<and> started = written @ [hd waiting])))"

lemmas writer_defs =
  enqueue_def do_write_def on_write_def close_writer_def push_back_def pop_front_def queue_front_def
  queue_empty_def queue_size_def close_queue_def

lemma writer_inv_enqueue:
  assumes "writer_inv failed accepted started w" and "enqueue m w = (r, w')"
  shows "writer_inv failed (accepted @ (if r = Accepted then [m] else [])) started w'"
  using assms
  by (auto simp: writer_inv_def writer_defs Let_def split: if_splits list.splits)

lemma writer_inv_do_write:
  assumes "writer_inv failed accepted started w" and "wr_due w \<noteq> 0" and "do_write w = (m, w')"
  shows "writer_inv failed accepted (started @ (case m of None \<Rightarrow> [] | Some m \<Rightarrow> [m])) w'"
  using assms by (auto simp: writer_inv_def writer_defs Let_def split: list.splits)

lemma writer_inv_on_write:
  assumes "writer_inv failed accepted started w" and "wr_inflight w \<noteq> []" and "on_write ec w = (c, w')"
  shows "writer_inv (failed \<or> ec) accepted started w'"
  using assms by (auto simp: writer_inv_def writer_defs Let_def split: list.splits if_splits)

lemma writer_inv_close: "writer_inv failed accepted started w \<Longrightarrow> writer_inv failed accepted started (close_writer w)"
  by (auto simp: writer_inv_def writer_defs Let_def split: list.splits)

lemma writer_inv_failed: "writer_inv failed accepted started w \<Longrightarrow> writer_inv (failed \<or> f) accepted started w"
  by (auto simp: writer_inv_def Let_def)

lemma writer_inv_op:
  assumes inv: "writer_inv failed accepted started w" and op: "writer_op x w = (a, b, w')"
  shows "writer_inv (failed \<or> x = WriteDone True) (accepted @ a) (started @ b) w'"
proof (cases x)
  case (Enqueue m)
  then show ?thesis
    using op writer_inv_enqueue [OF inv, of m "fst (enqueue m w)" "snd (enqueue m w)"]
    by (auto simp: writer_op_def prod.case_eq_if)
next
  case RunWrite
  then show ?thesis
    using op inv writer_inv_do_write [OF inv, of "fst (do_write w)" "snd (do_write w)"]
    by (auto simp: writer_op_def prod.case_eq_if split: if_splits)
next
  case (WriteDone ec)
  then show ?thesis
    using op inv writer_inv_failed [OF inv, of True] writer_inv_on_write [OF inv, of ec "fst (on_write ec w)" "snd (on_write ec w)"]
    by (cases ec) (auto simp: writer_op_def split: if_splits)
next
  case CloseWriter
  then show ?thesis using op writer_inv_close [OF inv] by (auto simp: writer_op_def)
qed

lemma writer_inv_run:
  assumes "writer_inv failed accepted started w" and "writer_run xs w = (a, b, w')"
  shows "writer_inv (failed \<or> WriteDone True \<in> set xs) (accepted @ a) (started @ b) w'"
  using assms
proof (induction xs arbitrary: failed accepted started w a b)
  case Nil
  then show ?case by simp
next
  case (Cons x xs)
  obtain a1 b1 w1 where one: "writer_op x w = (a1, b1, w1)" by (metis prod_cases3)
  obtain a2 b2 where rest: "writer_run xs w1 = (a2, b2, w')" and eq: "a = a1 @ a2" "b = b1 @ b2"
    using Cons.prems(2) one by (auto simp: Let_def split: prod.splits)
  from Cons.IH [OF writer_inv_op [OF Cons.prems(1) one] rest] show ?case by (simp add: eq disj_ac eq_commute)
qed

lemma writer_inv_new: "writer_inv False [] [] new_writer"
  by (simp add: writer_inv_def new_writer_def new_queue_def)

text \<open>
  C11: however enqueuing threads, posted writes, completions and the closing of the session
  interleave, at most one write of a session is in flight or due, the queue holds at most 128
  messages, and the writes started are the accepted messages in their order; while no write has
  failed, one is in flight or due as long as an accepted message is not written, so none is
  forgotten.
\<close>

theorem session_writes_in_order:
  assumes "writer_run xs new_writer = (accepted, started, w)"
  shows "started = take (length started) accepted \<and>
         length (wr_inflight w) + wr_due w \<le> 1 \<and>
         length (bq_items (wr_queue w)) \<le> 128 \<and>
         (WriteDone True \<notin> set xs \<and> wr_due w = 0 \<and> wr_inflight w = [] \<longrightarrow> started = accepted)"
proof -
  have "writer_inv (WriteDone True \<in> set xs) accepted started w"
    using writer_inv_run [OF writer_inv_new assms] by simp
  then show ?thesis
    by (cases "bq_items (wr_queue w)") (auto simp: writer_inv_def kMaxWriteQueueSize_def Let_def)
qed

definition sample_messages :: "outbound list" where
  "sample_messages = [\<lparr>om_payload = ''a'', om_text = True\<rparr>, \<lparr>om_payload = ''b'', om_text = True\<rparr>]"

lemma session_writes_in_order_witness:
  "fst (snd (writer_run (map Enqueue sample_messages @ [RunWrite, WriteDone False, RunWrite, WriteDone False]) new_writer)) =
   sample_messages"
proof -
  let ?xs = "map Enqueue sample_messages @ [RunWrite, WriteDone False, RunWrite, WriteDone False]"
  have run: "writer_run ?xs new_writer = (sample_messages, sample_messages, new_writer)"
    by (simp add: sample_messages_def new_writer_def new_queue_def kMaxWriteQueueSize_def writer_op_def writer_defs)
  from session_writes_in_order [OF run] run show ?thesis by simp
qed

end
