(* ===== verification/Media_Connections.thy ===== *)
theory Media_Connections
  imports Sfu_Slots Signaling_Protocol
begin

text \<open>
  \<^verbatim>\<open>MediaConnections\<close> of \<^verbatim>\<open>backend/signaling_server/src/media_connections.cpp\<close>: the peer connections
  of one session, one per \<^verbatim>\<open>ConnectionId\<close>. A libdatachannel peer connection is a number that is
  never used twice; what is called on it, and on tracks, is an effect. A critical section of the
  mutex is one definition; the io thread runs \<^verbatim>\<open>accept_offer\<close> as a sequence of them, between which
  callbacks from other threads may run.
\<close>

section \<open>State\<close>

type_synonym pc_id = nat

record media_connection =
  cn_pc :: pc_id
  cn_tracks :: "(string \<times> track_id) list"

record media =
  mc_connections :: "(connection_id \<times> media_connection) list"
  mc_next_pc :: pc_id

datatype media_effect =
    ClosePeer pc_id
  | CloseMediaTrack track_id
  | SetRemoteOffer pc_id string
  | AddCandidate pc_id string string
  | SendSignal string
  | WatchTrackClosed track_id
  | TrackReady connection_id track_id

definition new_media :: media where
  "new_media = \<lparr>mc_connections = [], mc_next_pc = 0\<rparr>"

section \<open>Critical sections\<close>

text \<open>The peer connection that is in use, as the first section of \<^verbatim>\<open>accept_offer\<close> reads it.\<close>

definition current_pc :: "connection_id \<Rightarrow> media \<Rightarrow> pc_id option" where
  "current_pc c m = map_option cn_pc (map_of (mc_connections m) c)"

definition owns :: "connection_id \<Rightarrow> pc_id \<Rightarrow> media \<Rightarrow> bool" where
  "owns c pc m \<longleftrightarrow> current_pc c m = Some pc"

definition close_connection :: "media_connection \<Rightarrow> media_effect list" where
  "close_connection cn = map (\<lambda>(mid, t). CloseMediaTrack t) (cn_tracks cn) @ [ClosePeer (cn_pc cn)]"

definition remove_and_close :: "connection_id \<Rightarrow> pc_id \<Rightarrow> media \<Rightarrow> media_effect list \<times> media" where
  "remove_and_close c pc m =
     (case map_of (mc_connections m) c of
        Some cn \<Rightarrow>
          if cn_pc cn = pc
          then (close_connection cn, m\<lparr>mc_connections := AList.delete c (mc_connections m)\<rparr>)
          else ([], m)
      | None \<Rightarrow> ([], m))"

text \<open>A new peer connection takes the slot; earlier tracks of the slot are dropped.\<close>

definition install_pc :: "connection_id \<Rightarrow> media \<Rightarrow> pc_id \<times> media" where
  "install_pc c m =
     (mc_next_pc m,
      m\<lparr>mc_connections := AList.update c \<lparr>cn_pc = mc_next_pc m, cn_tracks = []\<rparr> (mc_connections m),
        mc_next_pc := Suc (mc_next_pc m)\<rparr>)"

text \<open>\<open>sdp_ok\<close> is whether \<^verbatim>\<open>setRemoteDescription\<close> accepts the offer.\<close>

definition apply_offer :: "bool \<Rightarrow> pc_id \<Rightarrow> connection_id \<Rightarrow> string \<Rightarrow> media \<Rightarrow> media_effect list \<times> media" where
  "apply_offer sdp_ok pc c sdp m =
     (if sdp_ok then ([SetRemoteOffer pc sdp], m)
      else let (es, m') = remove_and_close c pc m in (SetRemoteOffer pc sdp # es, m'))"

text \<open>\<open>pc_ok\<close> is whether the peer connection could be created.\<close>

definition accept_offer ::
  "bool \<Rightarrow> bool \<Rightarrow> connection_id \<Rightarrow> string \<Rightarrow> media \<Rightarrow> media_effect list \<times> media" where
  "accept_offer pc_ok sdp_ok c sdp m =
     (let (es1, m1) = (case current_pc c m of None \<Rightarrow> ([], m) | Some pc \<Rightarrow> remove_and_close c pc m) in
      if \<not> pc_ok then (es1, m1)
      else let (pc, m2) = install_pc c m1;
               (es2, m3) = apply_offer sdp_ok pc c sdp m2 in
           (es1 @ es2, m3))"

definition add_remote_candidate :: "connection_id \<Rightarrow> string \<Rightarrow> string \<Rightarrow> media \<Rightarrow> media_effect list" where
  "add_remote_candidate c candidate mid m =
     (case current_pc c m of None \<Rightarrow> [] | Some pc \<Rightarrow> [AddCandidate pc candidate mid])"

text \<open>The callbacks of a peer connection; the connection is alive when they run.\<close>

definition on_local_description ::
  "(json \<Rightarrow> string option) \<Rightarrow> connection_id \<Rightarrow> pc_id \<Rightarrow> string \<Rightarrow> string \<Rightarrow> media \<Rightarrow> media_effect list" where
  "on_local_description dump_text c pc type sdp m =
     (if \<not> owns c pc m then []
      else if type = ''answer'' then
        (case dump_message dump_text (Answer sdp c) of None \<Rightarrow> [] | Some text \<Rightarrow> [SendSignal text])
      else [])"

definition on_local_candidate ::
  "(json \<Rightarrow> string option) \<Rightarrow> connection_id \<Rightarrow> pc_id \<Rightarrow> string \<Rightarrow> string \<Rightarrow> media \<Rightarrow> media_effect list" where
  "on_local_candidate dump_text c pc candidate mid m =
     (if \<not> owns c pc m then []
      else case dump_message dump_text (Candidate candidate mid c) of None \<Rightarrow> [] | Some text \<Rightarrow> [SendSignal text])"

definition on_state_change :: "bool \<Rightarrow> connection_id \<Rightarrow> pc_id \<Rightarrow> media \<Rightarrow> media_effect list \<times> media" where
  "on_state_change failed_or_closed c pc m = (if failed_or_closed then remove_and_close c pc m else ([], m))"

definition place_track :: "string \<Rightarrow> track_id \<Rightarrow> media_connection \<Rightarrow> media_connection" where
  "place_track mid t cn = cn\<lparr>cn_tracks := AList.update mid t (cn_tracks cn)\<rparr>"

definition register_track :: "connection_id \<Rightarrow> pc_id \<Rightarrow> string \<Rightarrow> track_id \<Rightarrow> media \<Rightarrow> media_effect list \<times> media" where
  "register_track c pc mid t m =
     (case map_of (mc_connections m) c of
        None \<Rightarrow> ([], m)
      | Some cn \<Rightarrow>
          if cn_pc cn \<noteq> pc then ([], m)
          else ((case map_of (cn_tracks cn) mid of
                   Some replaced \<Rightarrow> if replaced \<noteq> t then [CloseMediaTrack replaced] else []
                 | None \<Rightarrow> []) @ [WatchTrackClosed t, TrackReady c t],
                m\<lparr>mc_connections := adjust c (place_track mid t) (mc_connections m)\<rparr>))"

definition forget_track :: "string \<Rightarrow> track_id \<Rightarrow> media_connection \<Rightarrow> media_connection" where
  "forget_track mid t cn =
     (if map_of (cn_tracks cn) mid = Some t then cn\<lparr>cn_tracks := AList.delete mid (cn_tracks cn)\<rparr> else cn)"

definition on_track_closed :: "connection_id \<Rightarrow> string \<Rightarrow> track_id \<Rightarrow> media \<Rightarrow> media" where
  "on_track_closed c mid t m = m\<lparr>mc_connections := adjust c (forget_track mid t) (mc_connections m)\<rparr>"

definition close_media :: "media \<Rightarrow> media_effect list \<times> media" where
  "close_media m =
     (concat (map (\<lambda>(c, cn). close_connection cn) (mc_connections m)), m\<lparr>mc_connections := []\<rparr>)"

section \<open>One connection at a time\<close>

text \<open>What the io thread of the session is doing.\<close>

datatype offer_state = Idle | Looked connection_id "pc_id option" | Cleared connection_id | Applying connection_id pc_id

fun closed_pcs :: "media_effect list \<Rightarrow> pc_id list" where
  "closed_pcs [] = []"
| "closed_pcs (ClosePeer pc # es) = pc # closed_pcs es"
| "closed_pcs (_ # es) = closed_pcs es"

lemma closed_pcs_append [simp]: "closed_pcs (es @ es') = closed_pcs es @ closed_pcs es'"
  by (induction es rule: closed_pcs.induct) auto

text \<open>Steps of the io thread and of the callbacks, with the peer connections they close.\<close>

inductive media_step :: "offer_state \<times> media \<Rightarrow> pc_id list \<Rightarrow> offer_state \<times> media \<Rightarrow> bool" where
  offer_lookup: "media_step (Idle, m) [] (Looked c (current_pc c m), m)"
| offer_absent: "media_step (Looked c None, m) [] (Cleared c, m)"
| offer_remove: "remove_and_close c pc m = (es, m') \<Longrightarrow> media_step (Looked c (Some pc), m) (closed_pcs es) (Cleared c, m')"
| offer_no_pc: "media_step (Cleared c, m) [] (Idle, m)"
| offer_install: "install_pc c m = (pc, m') \<Longrightarrow> media_step (Cleared c, m) [] (Applying c pc, m')"
| offer_apply: "apply_offer sdp_ok pc c sdp m = (es, m') \<Longrightarrow> media_step (Applying c pc, m) (closed_pcs es) (Idle, m')"
| state_change: "on_state_change flag c pc m = (es, m') \<Longrightarrow> media_step (io, m) (closed_pcs es) (io, m')"
| track_arrives: "register_track c pc mid t m = (es, m') \<Longrightarrow> media_step (io, m) (closed_pcs es) (io, m')"
| track_closes: "media_step (io, m) [] (io, on_track_closed c mid t m)"
| session_closes: "close_media m = (es, m') \<Longrightarrow> media_step (Idle, m) (closed_pcs es) (Idle, m')"

inductive media_reach :: "pc_id list \<Rightarrow> offer_state \<times> media \<Rightarrow> bool" where
  media_start: "media_reach [] (Idle, new_media)"
| media_next: "media_reach gone s \<Longrightarrow> media_step s ps s' \<Longrightarrow> media_reach (gone @ ps) s'"

definition owned_pcs :: "media \<Rightarrow> pc_id list" where
  "owned_pcs m = map (cn_pc \<circ> snd) (mc_connections m)"

definition offer_ok :: "offer_state \<Rightarrow> media \<Rightarrow> bool" where
  "offer_ok io m =
     (case io of
        Idle \<Rightarrow> True
      | Looked c None \<Rightarrow> current_pc c m = None
      | Looked c (Some pc) \<Rightarrow> current_pc c m = None \<or> current_pc c m = Some pc
      | Cleared c \<Rightarrow> current_pc c m = None
      | Applying c pc \<Rightarrow> True)"

definition media_inv :: "pc_id list \<Rightarrow> offer_state \<Rightarrow> media \<Rightarrow> bool" where
  "media_inv gone io m \<longleftrightarrow>
     distinct (keys (mc_connections m)) \<and>
     mset (gone @ owned_pcs m) = mset [0..<mc_next_pc m] \<and> offer_ok io m"

lemma closed_pcs_close [simp]: "closed_pcs (close_connection cn) = [cn_pc cn]"
proof -
  have "closed_pcs (map (\<lambda>(mid, t). CloseMediaTrack t) ts) = []" for ts :: "(string \<times> track_id) list"
    by (induction ts) auto
  then show ?thesis by (simp add: close_connection_def)
qed

lemma owned_delete:
  assumes "distinct (keys xs)" and "map_of xs c = Some cn"
  shows "mset (map (cn_pc \<circ> snd) xs) = add_mset (cn_pc cn) (mset (map (cn_pc \<circ> snd) (AList.delete c xs)))"
  using assms
proof (induction xs)
  case (Cons x xs)
  then show ?case by (cases x) (auto simp: delete_id split: if_splits)
qed simp

text \<open>What a critical section does to the peer connections in use.\<close>

definition conserves :: "media \<Rightarrow> media_effect list \<Rightarrow> media \<Rightarrow> bool" where
  "conserves m es m' \<longleftrightarrow>
     distinct (keys (mc_connections m')) \<and> mset (closed_pcs es @ owned_pcs m') = mset (owned_pcs m) \<and>
     mc_next_pc m' = mc_next_pc m \<and>
     (\<forall>c. current_pc c m' = None \<or> current_pc c m' = current_pc c m)"

lemma remove_conserves:
  assumes "distinct (keys (mc_connections m))" and "remove_and_close c pc m = (es, m')"
  shows "conserves m es m'"
  using assms owned_delete [OF assms(1), of c]
  by (auto simp: remove_and_close_def conserves_def owned_pcs_def current_pc_def map_of_delete
      split: option.splits if_splits)

lemma remove_current: "remove_and_close c pc m = (es, m') \<Longrightarrow> current_pc c m = Some pc \<Longrightarrow> current_pc c m' = None"
  by (auto simp: remove_and_close_def current_pc_def map_of_delete split: option.splits if_splits)

lemma apply_conserves:
  assumes "distinct (keys (mc_connections m))" and "apply_offer sdp_ok pc c sdp m = (es, m')"
  shows "conserves m es m'"
  using assms remove_conserves [OF assms(1), of c pc]
  by (auto simp: apply_offer_def conserves_def split: if_splits prod.splits)

lemma owned_adjust:
  assumes "\<And>cn. cn_pc (f cn) = cn_pc cn"
  shows "map (cn_pc \<circ> snd) (adjust c f xs) = map (cn_pc \<circ> snd) xs"
    and "map_option cn_pc (map_of (adjust c f xs) c') = map_option cn_pc (map_of xs c')"
proof -
  show "map (cn_pc \<circ> snd) (adjust c f xs) = map (cn_pc \<circ> snd) xs" using assms by (auto simp: adjust_def)
  show "map_option cn_pc (map_of (adjust c f xs) c') = map_option cn_pc (map_of xs c')"
    using assms by (auto simp: map_of_adjust option.map_comp comp_def)
qed

lemma adjust_conserves:
  assumes "distinct (keys (mc_connections m))" and "\<And>cn. cn_pc (f cn) = cn_pc cn" and "closed_pcs es = []"
  shows "conserves m es (m\<lparr>mc_connections := adjust c f (mc_connections m)\<rparr>)"
  using assms owned_adjust [of f c "mc_connections m", OF assms(2)]
  by (auto simp: conserves_def owned_pcs_def current_pc_def)

lemma same_conserves: "distinct (keys (mc_connections m)) \<Longrightarrow> closed_pcs es = [] \<Longrightarrow> conserves m es m"
  by (simp add: conserves_def)

lemma register_conserves:
  assumes "distinct (keys (mc_connections m))" and "register_track c pc mid t m = (es, m')"
  shows "conserves m es m'"
  using assms adjust_conserves [OF assms(1), of "place_track mid t" es c] same_conserves [OF assms(1), of es]
  by (auto simp: register_track_def place_track_def split: option.splits if_splits)

lemma close_conserves:
  assumes "close_media m = (es, m')"
  shows "conserves m es m'"
proof -
  have "closed_pcs (concat (map (\<lambda>(c, cn). close_connection cn) xs)) = map (cn_pc \<circ> snd) xs"
    for xs :: "(connection_id \<times> media_connection) list"
    by (induction xs) auto
  with assms show ?thesis by (auto simp: close_media_def conserves_def owned_pcs_def current_pc_def)
qed

lemma conserves_inv:
  assumes "media_inv gone io m" and "conserves m es m'" and "offer_ok io m' \<Longrightarrow> offer_ok io' m'"
  shows "media_inv (gone @ closed_pcs es) io' m'"
proof -
  have "offer_ok io m'"
    using assms(1,2) by (auto simp: media_inv_def conserves_def offer_ok_def split: offer_state.splits option.splits; metis)
  with assms show ?thesis by (auto simp: media_inv_def conserves_def)
qed

lemma owned_install:
  assumes "current_pc c m = None" and "install_pc c m = (pc, m')"
  shows "owned_pcs m' = owned_pcs m @ [mc_next_pc m] \<and> mc_next_pc m' = Suc (mc_next_pc m)"
proof -
  have "AList.update c v xs = xs @ [(c, v)]" if "map_of xs c = None"
    for v and xs :: "(connection_id \<times> media_connection) list"
    using that by (induction xs) (auto split: if_splits)
  with assms show ?thesis by (auto simp: install_pc_def owned_pcs_def current_pc_def)
qed

lemma media_step_inv:
  assumes "media_step s ps s'" and "media_inv gone (fst s) (snd s)"
  shows "media_inv (gone @ ps) (fst s') (snd s')"
  using assms
proof (induction rule: media_step.induct)
  case (offer_install c m pc m')
  then have "current_pc c m = None" by (simp add: media_inv_def offer_ok_def)
  from owned_install [OF this offer_install(1)] offer_install show ?case
    by (auto simp: media_inv_def offer_ok_def install_pc_def)
next
  case (offer_remove c pc m es m')
  have k: "distinct (keys (mc_connections m))" using offer_remove by (simp add: media_inv_def)
  have "current_pc c m' = None"
    using offer_remove remove_current [OF offer_remove(1)] remove_conserves [OF k offer_remove(1)]
    by (auto simp: media_inv_def offer_ok_def conserves_def)
  with conserves_inv [OF _ remove_conserves [OF k offer_remove(1)]] offer_remove show ?case
    by (simp add: offer_ok_def)
next
  case (offer_apply sdp_ok pc c sdp m es m')
  have k: "distinct (keys (mc_connections m))" using offer_apply by (simp add: media_inv_def)
  from conserves_inv [OF _ apply_conserves [OF k offer_apply(1)]] offer_apply show ?case
    by (simp add: offer_ok_def)
next
  case (state_change flag c pc m es m' io)
  have k: "distinct (keys (mc_connections m))" using state_change by (simp add: media_inv_def)
  have "conserves m es m'"
    using state_change(1) remove_conserves [OF k, of c pc] same_conserves [OF k]
    by (auto simp: on_state_change_def split: if_splits)
  from conserves_inv [OF _ this] state_change show ?case by simp
next
  case (track_arrives c pc mid t m es m' io)
  have k: "distinct (keys (mc_connections m))" using track_arrives by (simp add: media_inv_def)
  from conserves_inv [OF _ register_conserves [OF k track_arrives(1)]] track_arrives show ?case by simp
next
  case (track_closes io m c mid t)
  have k: "distinct (keys (mc_connections m))" using track_closes by (simp add: media_inv_def)
  have "conserves m [] (on_track_closed c mid t m)"
    unfolding on_track_closed_def by (rule adjust_conserves [OF k]) (auto simp: forget_track_def)
  from conserves_inv [OF _ this] track_closes show ?case by simp
next
  case (session_closes m es m')
  from conserves_inv [OF _ close_conserves [OF this(1)]] session_closes show ?case by simp
qed (auto simp: media_inv_def offer_ok_def split: option.splits)

lemma media_reach_inv: "media_reach gone s \<Longrightarrow> media_inv gone (fst s) (snd s)"
proof (induction rule: media_reach.induct)
  case media_start
  then show ?case by (simp add: media_inv_def new_media_def owned_pcs_def offer_ok_def)
next
  case (media_next gone s ps s')
  then show ?case using media_step_inv by blast
qed

text \<open>
  C30: however offers, callbacks of old and new peer connections and the closing of the session
  interleave, every peer connection that was ever created is either the one in use for its
  connection or was closed exactly once; there is at most one per connection.
\<close>

theorem peer_connections_closed_once:
  assumes "media_reach gone (io, m)"
  shows "distinct (gone @ owned_pcs m) \<and> set (gone @ owned_pcs m) = {..<mc_next_pc m} \<and>
         distinct (keys (mc_connections m))"
proof -
  have m: "mset (gone @ owned_pcs m) = mset [0..<mc_next_pc m]" and k: "distinct (keys (mc_connections m))"
    using media_reach_inv [OF assms] by (simp_all add: media_inv_def)
  from m have "distinct (gone @ owned_pcs m)" by (metis distinct_upt mset_eq_imp_distinct_iff)
  moreover from m have "set (gone @ owned_pcs m) = set [0..<mc_next_pc m]" by (metis mset_eq_setD)
  ultimately show ?thesis using k by auto
qed

lemma peer_connections_closed_once_witness:
  "media_reach [0] (Cleared Voice, \<lparr>mc_connections = [], mc_next_pc = 1\<rparr>) \<and> distinct ([0] @ owned_pcs \<lparr>mc_connections = [], mc_next_pc = 1\<rparr>)"
proof -
  let ?m1 = "\<lparr>mc_connections = [(Voice, \<lparr>cn_pc = 0, cn_tracks = []\<rparr>)], mc_next_pc = 1\<rparr>"
  let ?m2 = "\<lparr>mc_connections = [], mc_next_pc = 1\<rparr>"
  have "media_reach ([] @ []) (Looked Voice (current_pc Voice new_media), new_media)"
    by (rule media_next [OF media_start offer_lookup])
  moreover have "current_pc Voice new_media = None" by (simp add: current_pc_def new_media_def)
  ultimately have "media_reach ([] @ []) (Cleared Voice, new_media)"
    by (metis append_Nil media_next offer_absent)
  moreover have "install_pc Voice new_media = (0, ?m1)" by (simp add: install_pc_def new_media_def)
  ultimately have "media_reach ([] @ []) (Applying Voice 0, ?m1)" by (metis append_Nil media_next offer_install)
  moreover have "apply_offer True 0 Voice ''v=0'' ?m1 = ([SetRemoteOffer 0 ''v=0''], ?m1)" by (simp add: apply_offer_def)
  ultimately have "media_reach [] (Idle, ?m1)" using media_next [OF _ offer_apply] by fastforce
  then have "media_reach ([] @ []) (Looked Voice (current_pc Voice ?m1), ?m1)" by (rule media_next [OF _ offer_lookup])
  then have "media_reach [] (Looked Voice (Some 0), ?m1)" by (simp add: current_pc_def)
  moreover have "remove_and_close Voice 0 ?m1 = ([ClosePeer 0], ?m2)"
    by (simp add: remove_and_close_def close_connection_def)
  ultimately have reach: "media_reach [0] (Cleared Voice, ?m2)" using media_next [OF _ offer_remove] by fastforce
  with peer_connections_closed_once [OF reach] show ?thesis by simp
qed

text \<open>The effects of one offer, as the code runs them when nothing interferes.\<close>

definition offer_effects :: "bool \<Rightarrow> bool \<Rightarrow> connection_id \<Rightarrow> string \<Rightarrow> media \<Rightarrow> media_effect list" where
  "offer_effects pc_ok sdp_ok c sdp m =
     (case map_of (mc_connections m) c of None \<Rightarrow> [] | Some cn \<Rightarrow> close_connection cn) @
     (if pc_ok then SetRemoteOffer (mc_next_pc m) sdp # (if sdp_ok then [] else [ClosePeer (mc_next_pc m)]) else [])"

text \<open>
  An offer closes the tracks and the peer connection in use before anything else, then installs a
  new peer connection without tracks exactly if it can be created and accepts the offer; one that
  refuses the offer is closed, and the other connection of the session is left alone.
\<close>

theorem accept_offer_replaces:
  assumes "accept_offer pc_ok sdp_ok c sdp m = (es, m')"
  shows "es = offer_effects pc_ok sdp_ok c sdp m \<and>
         map_of (mc_connections m') c =
           (if pc_ok \<and> sdp_ok then Some \<lparr>cn_pc = mc_next_pc m, cn_tracks = []\<rparr> else None) \<and>
         (c' \<noteq> c \<longrightarrow> map_of (mc_connections m') c' = map_of (mc_connections m) c')"
  using assms
  by (auto simp: accept_offer_def offer_effects_def current_pc_def remove_and_close_def install_pc_def apply_offer_def
      close_connection_def map_of_update map_of_delete split: option.splits if_splits)

lemma accept_offer_replaces_witness:
  "map_of (mc_connections (snd (accept_offer True False Screen ''v=0'' new_media))) Screen = None"
  using accept_offer_replaces [of True False Screen "''v=0''" new_media
      "fst (accept_offer True False Screen ''v=0'' new_media)" "snd (accept_offer True False Screen ''v=0'' new_media)" Voice]
  by simp

end
