(* ===== verification/Ws_Server.thy ===== *)
theory Ws_Server
  imports Screen_Router Api_Authenticator Session_Writer Media_Connections
begin

text \<open>
  \<^verbatim>\<open>WebSocketServer\<close> and \<^verbatim>\<open>Session\<close> of \<^verbatim>\<open>backend/signaling_server/src/ws_server.cpp\<close>: rooms, the
  sessions in them, who streams and who watches, and the two routers of a room. Sessions and
  routers are shared objects, named by numbers; a room holds the numbers, the server the objects. An
  operation of the server is its critical section followed by the calls of routers and sessions it
  makes after it. \<open>None\<close> as its result is an exception that leaves it, with the state it leaves
  behind: \<^verbatim>\<open>json::dump\<close> throws on a string that is not UTF-8. Calls of libdatachannel, of the API and
  of Beast are appended to a log.
\<close>

section \<open>State\<close>

record session =
  se_id :: peer_id
  se_room :: room_id
  se_username :: username
  se_closed :: bool
  se_writer :: writer
  se_media :: "media option"

record room =
  rm_sessions :: "(peer_id \<times> nat) list"
  rm_streaming :: "peer_id list"
  rm_watchers :: "(peer_id \<times> peer_id list) list"
  rm_voice :: "nat option"
  rm_screen :: "nat option"

datatype server_effect =
    TrackCall sfu_effect
  | MediaCall nat media_effect
  | ReadRequest nat
  | ReadMessage nat
  | AcceptWebsocket nat
  | StartCall nat api_call
  | RespondJson nat string
  | RespondError nat nat string
  | CloseAcceptor
  | AcceptNext

record server =
  sv_stopping :: bool
  sv_rooms :: "(room_id \<times> room) list"
  sv_fault_config :: rtp_fault_config
  sv_authenticator :: "(string \<times> string) option"
  sv_sessions :: "nat \<Rightarrow> session"
  sv_next_session :: nat
  sv_voice :: "nat \<Rightarrow> voice_router"
  sv_screen :: "nat \<Rightarrow> screen_router"
  sv_next_router :: nat
  sv_ssrc :: u32
  sv_log :: "server_effect list"

text \<open>The answers of the libraries during one operation.\<close>

record server_env =
  en_tracks :: track_env
  en_dump :: "json \<Rightarrow> string option"
  en_parse :: "string \<Rightarrow> json option"
  en_pc_ok :: bool
  en_sdp_ok :: bool

type_synonym 'a outcome = "'a option \<times> server"

definition new_room :: room where
  "new_room = \<lparr>rm_sessions = [], rm_streaming = [], rm_watchers = [], rm_voice = None, rm_screen = None\<rparr>"

definition new_session :: "peer_id \<Rightarrow> session" where
  "new_session i = \<lparr>se_id = i, se_room = [], se_username = [], se_closed = False,
     se_writer = new_writer, se_media = Some new_media\<rparr>"

definition new_server :: "rtp_fault_config \<Rightarrow> (string \<times> string) option \<Rightarrow> u32 \<Rightarrow> server" where
  "new_server config authenticator ssrc =
     \<lparr>sv_stopping = False, sv_rooms = [], sv_fault_config = config, sv_authenticator = authenticator,
      sv_sessions = (\<lambda>_. new_session []), sv_next_session = 0,
      sv_voice = (\<lambda>_. new_voice_router config True), sv_screen = (\<lambda>_. new_screen_router config True),
      sv_next_router = 0, sv_ssrc = ssrc, sv_log = []\<rparr>"

text \<open>\<^verbatim>\<open>generate_id\<close>: sixteen hexadecimal digits of a random number.\<close>

definition hex_lower :: "nat \<Rightarrow> char" where
  "hex_lower d = ''0123456789abcdef'' ! d"

definition generate_id :: "u64 \<Rightarrow> peer_id" where
  "generate_id v = map (\<lambda>i. hex_lower (unat (drop_bit (4 * (15 - i)) v AND 15))) [0..<16]"

section \<open>Sending\<close>

definition log_call :: "server_effect \<Rightarrow> server \<Rightarrow> server" where
  "log_call x s = s\<lparr>sv_log := sv_log s @ [x]\<rparr>"

definition update_session :: "nat \<Rightarrow> (session \<Rightarrow> session) \<Rightarrow> server \<Rightarrow> server" where
  "update_session r f s = s\<lparr>sv_sessions := (sv_sessions s)(r := f (sv_sessions s r))\<rparr>"

definition session_send :: "string \<Rightarrow> nat \<Rightarrow> server \<Rightarrow> server" where
  "session_send text r = update_session r (\<lambda>x. x\<lparr>se_writer := snd (send_text text (se_writer x))\<rparr>)"

definition send_all :: "string list \<Rightarrow> nat list \<Rightarrow> server \<Rightarrow> server" where
  "send_all texts refs s = fold (\<lambda>r. fold (\<lambda>text. session_send text r) texts) refs s"

text \<open>
  The calls a router makes: a binding goes to the session whose number is the handle, which is the
  closure \<open>send_binding\<close> of \<^verbatim>\<open>Session::start\<close>; the rest are calls on tracks.
\<close>

fun deliver :: "server_env \<Rightarrow> connection_id \<Rightarrow> sfu_effect list \<Rightarrow> server \<Rightarrow> unit outcome" where
  "deliver env c [] s = (Some (), s)"
| "deliver env c (SendBinding r mid publisher # es) s =
     (case dump_message (en_dump env) (TrackBinding mid publisher c) of
        None \<Rightarrow> (None, s)
      | Some text \<Rightarrow> deliver env c es (session_send text r s))"
| "deliver env c (x # es) s = deliver env c es (log_call (TrackCall x) s)"

definition on_voice ::
  "server_env \<Rightarrow> nat option \<Rightarrow> (voice_router \<Rightarrow> sfu_effect list \<times> voice_router) \<Rightarrow> server \<Rightarrow> unit outcome" where
  "on_voice env router f s =
     (case router of
        None \<Rightarrow> (Some (), s)
      | Some r \<Rightarrow> (let (es, v) = f (sv_voice s r) in deliver env Voice es (s\<lparr>sv_voice := (sv_voice s)(r := v)\<rparr>)))"

definition on_screen ::
  "server_env \<Rightarrow> nat option \<Rightarrow> (screen_router \<Rightarrow> sfu_effect list \<times> screen_router) \<Rightarrow> server \<Rightarrow> unit outcome" where
  "on_screen env router f s =
     (case router of
        None \<Rightarrow> (Some (), s)
      | Some r \<Rightarrow> (let (es, v) = f (sv_screen s r) in deliver env Screen es (s\<lparr>sv_screen := (sv_screen s)(r := v)\<rparr>)))"

text \<open>The next call, unless an exception came first.\<close>

definition and_then :: "'a outcome \<Rightarrow> (server \<Rightarrow> 'b outcome) \<Rightarrow> 'b outcome" where
  "and_then r f = (case r of (None, s) \<Rightarrow> (None, s) | (Some _, s) \<Rightarrow> f s)"

definition find_room :: "room_id \<Rightarrow> server \<Rightarrow> room option" where
  "find_room room_id s = map_of (sv_rooms s) room_id"

definition put_room :: "room_id \<Rightarrow> room \<Rightarrow> server \<Rightarrow> server" where
  "put_room room_id room s = s\<lparr>sv_rooms := AList.update room_id room (sv_rooms s)\<rparr>"

section \<open>Joining and leaving\<close>

definition ensure_voice :: "room \<Rightarrow> server \<Rightarrow> room \<times> server" where
  "ensure_voice room s =
     (if rm_voice room \<noteq> None then (room, s)
      else (room\<lparr>rm_voice := Some (sv_next_router s)\<rparr>,
            s\<lparr>sv_voice := (sv_voice s)(sv_next_router s := new_voice_router (sv_fault_config s) True),
              sv_next_router := Suc (sv_next_router s)\<rparr>))"

definition ensure_screen :: "room \<Rightarrow> server \<Rightarrow> room \<times> server" where
  "ensure_screen room s =
     (if rm_screen room \<noteq> None then (room, s)
      else (room\<lparr>rm_screen := Some (sv_next_router s)\<rparr>,
            s\<lparr>sv_screen := (sv_screen s)(sv_next_router s := new_screen_router (sv_fault_config s) True),
              sv_next_router := Suc (sv_next_router s)\<rparr>))"

definition welcome_message :: "peer_id \<Rightarrow> room \<Rightarrow> server \<Rightarrow> message" where
  "welcome_message i room s =
     Welcome i (map (\<lambda>(pid, r). \<lparr>pi_id = pid, pi_username = se_username (sv_sessions s r)\<rparr>) (rm_sessions room))
       (rm_streaming room)"

definition emplace :: "'k \<Rightarrow> 'v \<Rightarrow> ('k \<times> 'v) list \<Rightarrow> ('k \<times> 'v) list" where
  "emplace k v m = (if k \<in> set (keys m) then m else m @ [(k, v)])"

text \<open>The critical section, up to an exception of the first \<^verbatim>\<open>dump\<close>.\<close>

definition register_session ::
  "server_env \<Rightarrow> peer_id \<Rightarrow> room_id \<Rightarrow> nat \<Rightarrow> server \<Rightarrow> (string \<times> nat list) outcome" where
  "register_session env i room_id r s =
     (let room0 = (case find_room room_id s of Some room \<Rightarrow> room | None \<Rightarrow> new_room);
          (room1, s1) = ensure_voice room0 s;
          (room2, s2) = ensure_screen room1 s1 in
      case dump_message (en_dump env) (welcome_message i room2 s2) of
        None \<Rightarrow> (None, put_room room_id room2 s2)
      | Some payload \<Rightarrow>
          (Some (payload, map snd (rm_sessions room2)),
           put_room room_id (room2\<lparr>rm_sessions := emplace i r (rm_sessions room2)\<rparr>) s2))"

definition register_and_build_welcome ::
  "server_env \<Rightarrow> peer_id \<Rightarrow> room_id \<Rightarrow> nat \<Rightarrow> server \<Rightarrow> string option outcome" where
  "register_and_build_welcome env i room_id r s =
     (if sv_stopping s then (Some None, s)
      else (case register_session env i room_id r s of
              (None, s1) \<Rightarrow> (None, s1)
            | (Some (payload, existing), s1) \<Rightarrow>
                (case dump_message (en_dump env) (PeerJoined i (se_username (sv_sessions s1 r))) of
                   None \<Rightarrow> (None, s1)
                 | Some joined \<Rightarrow> (Some (Some payload), send_all [joined] existing s1))))"

definition drop_watched :: "peer_id \<Rightarrow> (peer_id \<times> peer_id list) list \<Rightarrow> (peer_id \<times> peer_id list) list" where
  "drop_watched i watchers = filter (\<lambda>(k, ws). ws \<noteq> []) (map_vals (set_erase i) (AList.delete i watchers))"

definition leave_room :: "peer_id \<Rightarrow> room \<Rightarrow> room" where
  "leave_room i room =
     room\<lparr>rm_sessions := AList.delete i (rm_sessions room),
       rm_streaming := set_erase i (rm_streaming room),
       rm_watchers := drop_watched i (rm_watchers room)\<rparr>"

definition drop_room :: "room_id \<Rightarrow> server \<Rightarrow> server" where
  "drop_room room_id s = s\<lparr>sv_rooms := AList.delete room_id (sv_rooms s)\<rparr>"

definition farewell :: "server_env \<Rightarrow> peer_id \<Rightarrow> bool \<Rightarrow> nat list \<Rightarrow> server \<Rightarrow> unit outcome" where
  "farewell env i was_streaming remaining s =
     (case (if was_streaming then map_option (\<lambda>t. [t]) (dump_message (en_dump env) (StreamingStop (Some i)))
            else Some []) of
        None \<Rightarrow> (None, s)
      | Some stopped \<Rightarrow>
          (case dump_message (en_dump env) (PeerLeft i) of
             None \<Rightarrow> (None, s)
           | Some left \<Rightarrow> (Some (), send_all (stopped @ [left]) remaining s)))"

definition unregister_session :: "server_env \<Rightarrow> peer_id \<Rightarrow> room_id \<Rightarrow> server \<Rightarrow> unit outcome" where
  "unregister_session env i room_id s =
     (case find_room room_id s of
        None \<Rightarrow> (Some (), s)
      | Some room \<Rightarrow>
          if i \<notin> set (keys (rm_sessions room)) then (Some (), s)
          else let room1 = leave_room i room;
                   s1 = (if rm_sessions room1 = [] then drop_room room_id s else put_room room_id room1 s) in
               and_then (on_voice env (rm_voice room) (\<lambda>v. remove_voice_peer (en_tracks env) v i) s1) (\<lambda>s2.
               and_then (on_screen env (rm_screen room) (\<lambda>v. remove_screen_peer (en_tracks env) v i) s2)
                 (farewell env i (i \<in> set (rm_streaming room)) (map snd (rm_sessions room1)))))"

section \<open>Tracks\<close>

text \<open>
  The room's router is looked up in one critical section and used after it: a thread of
  libdatachannel can be delayed in between.
\<close>

definition voice_router_of :: "room_id \<Rightarrow> server \<Rightarrow> nat option" where
  "voice_router_of room_id s = Option.bind (find_room room_id s) rm_voice"

definition screen_router_of :: "room_id \<Rightarrow> server \<Rightarrow> nat option" where
  "screen_router_of room_id s = Option.bind (find_room room_id s) rm_screen"

definition add_voice_track ::
  "server_env \<Rightarrow> nat option \<Rightarrow> peer_id \<Rightarrow> track_id option \<Rightarrow> binding_sender \<Rightarrow> server \<Rightarrow> unit outcome" where
  "add_voice_track env router owner track send_binding s =
     (case router of
        None \<Rightarrow> (Some (), s)
      | Some r \<Rightarrow>
          (let (es, counter, v) =
                 register_voice_track (en_tracks env) (sv_ssrc s) (sv_voice s r) owner track send_binding in
           deliver env Voice es (s\<lparr>sv_voice := (sv_voice s)(r := v), sv_ssrc := counter\<rparr>)))"

definition add_screen_track ::
  "server_env \<Rightarrow> nat option \<Rightarrow> peer_id \<Rightarrow> track_id option \<Rightarrow> binding_sender \<Rightarrow> server \<Rightarrow> unit outcome" where
  "add_screen_track env router owner track send_binding s =
     (case router of
        None \<Rightarrow> (Some (), s)
      | Some r \<Rightarrow>
          (let (es, counter, v) =
                 register_screen_track (en_tracks env) (sv_ssrc s) (sv_screen s r) owner track send_binding in
           deliver env Screen es (s\<lparr>sv_screen := (sv_screen s)(r := v), sv_ssrc := counter\<rparr>)))"

definition server_register_voice_track ::
  "server_env \<Rightarrow> peer_id \<Rightarrow> room_id \<Rightarrow> track_id option \<Rightarrow> binding_sender \<Rightarrow> server \<Rightarrow> unit outcome" where
  "server_register_voice_track env owner room_id track send_binding s =
     add_voice_track env (voice_router_of room_id s) owner track send_binding s"

definition server_register_screen_track ::
  "server_env \<Rightarrow> peer_id \<Rightarrow> room_id \<Rightarrow> track_id option \<Rightarrow> binding_sender \<Rightarrow> server \<Rightarrow> unit outcome" where
  "server_register_screen_track env owner room_id track send_binding s =
     add_screen_track env (screen_router_of room_id s) owner track send_binding s"

text \<open>The \<^verbatim>\<open>TrackReady\<close> callback that \<^verbatim>\<open>Session::start\<close> gives its media connections.\<close>

definition track_ready :: "server_env \<Rightarrow> nat \<Rightarrow> connection_id \<Rightarrow> track_id \<Rightarrow> server \<Rightarrow> unit outcome" where
  "track_ready env r c track s =
     (let x = sv_sessions s r in
      case c of
        Voice \<Rightarrow> server_register_voice_track env (se_id x) (se_room x) (Some track) (Some r) s
      | Screen \<Rightarrow> server_register_screen_track env (se_id x) (se_room x) (Some track) (Some r) s)"

section \<open>Messages between sessions\<close>

definition broadcast :: "peer_id \<Rightarrow> room_id \<Rightarrow> string \<Rightarrow> server \<Rightarrow> server" where
  "broadcast origin room_id msg s =
     (case find_room room_id s of
        None \<Rightarrow> s
      | Some room \<Rightarrow> send_all [msg] (map snd (filter (\<lambda>(pid, r). pid \<noteq> origin) (rm_sessions room))) s)"

definition send_to :: "peer_id \<Rightarrow> room_id \<Rightarrow> string \<Rightarrow> server \<Rightarrow> server" where
  "send_to target room_id msg s =
     (case Option.bind (find_room room_id s) (\<lambda>room. map_of (rm_sessions room) target) of
        None \<Rightarrow> s
      | Some r \<Rightarrow> session_send msg r s)"

definition active_sessions :: "server \<Rightarrow> nat" where
  "active_sessions s = sum_list (map (\<lambda>(k, room). length (rm_sessions room)) (sv_rooms s))"

definition active_sessions_in :: "room_id \<Rightarrow> server \<Rightarrow> nat" where
  "active_sessions_in room_id s =
     (case find_room room_id s of None \<Rightarrow> 0 | Some room \<Rightarrow> length (rm_sessions room))"

section \<open>Streaming and watching\<close>

definition add_streaming_peer :: "server_env \<Rightarrow> peer_id \<Rightarrow> room_id \<Rightarrow> server \<Rightarrow> unit outcome" where
  "add_streaming_peer env i room_id s =
     (case find_room room_id s of
        None \<Rightarrow> (Some (), s)
      | Some room \<Rightarrow>
          on_screen env (rm_screen room) (\<lambda>v. set_screen_streaming (en_tracks env) v i True)
            (put_room room_id (room\<lparr>rm_streaming := set_insert i (rm_streaming room)\<rparr>) s))"

definition remove_streaming_peer :: "server_env \<Rightarrow> peer_id \<Rightarrow> room_id \<Rightarrow> server \<Rightarrow> unit outcome" where
  "remove_streaming_peer env i room_id s =
     (case find_room room_id s of
        None \<Rightarrow> (Some (), s)
      | Some room \<Rightarrow>
          on_screen env (rm_screen room) (\<lambda>v. set_screen_streaming (en_tracks env) v i False)
            (put_room room_id (room\<lparr>rm_streaming := set_erase i (rm_streaming room)\<rparr>) s))"

definition watched_by :: "peer_id \<Rightarrow> room \<Rightarrow> peer_id list" where
  "watched_by i room = (case map_of (rm_watchers room) i of Some ws \<Rightarrow> ws | None \<Rightarrow> [])"

definition put_watched :: "peer_id \<Rightarrow> peer_id list \<Rightarrow> room \<Rightarrow> room" where
  "put_watched i ws room = room\<lparr>rm_watchers := AList.update i ws (rm_watchers room)\<rparr>"

definition reject_watch ::
  "server_env \<Rightarrow> nat \<Rightarrow> peer_id \<Rightarrow> watch_reject_reason \<Rightarrow> server \<Rightarrow> unit outcome" where
  "reject_watch env r publisher reason s =
     (case dump_message (en_dump env) (WatchRejected publisher reason) of
        None \<Rightarrow> (None, s)
      | Some text \<Rightarrow> (Some (), session_send text r s))"

definition add_video_watcher :: "server_env \<Rightarrow> peer_id \<Rightarrow> room_id \<Rightarrow> peer_id \<Rightarrow> server \<Rightarrow> unit outcome" where
  "add_video_watcher env i room_id publisher s =
     (case find_room room_id s of
        None \<Rightarrow> (Some (), s)
      | Some room \<Rightarrow>
          (case map_of (rm_sessions room) i of
             None \<Rightarrow> (Some (), s)
           | Some r \<Rightarrow>
               if publisher \<notin> set (keys (rm_sessions room)) \<or> i = publisher
               then reject_watch env r publisher UnknownPeer s
               else if publisher \<notin> set (rm_streaming room) then reject_watch env r publisher NotStreaming s
               else let watched = watched_by i room;
                        s1 = put_room room_id (put_watched i watched room) s in
                    if publisher \<in> set watched then (Some (), s1)
                    else if kScreenReceiveSlots \<le> length watched then reject_watch env r publisher Capacity s1
                    else on_screen env (rm_screen room)
                           (\<lambda>v. set_screen_watching (en_tracks env) v i publisher True)
                           (put_room room_id (put_watched i (set_insert publisher watched) room) s)))"

definition unwatch_in :: "peer_id \<Rightarrow> peer_id \<Rightarrow> room \<Rightarrow> room" where
  "unwatch_in i publisher room =
     (case map_of (rm_watchers room) i of
        None \<Rightarrow> room
      | Some ws \<Rightarrow>
          if set_erase publisher ws = [] then room\<lparr>rm_watchers := AList.delete i (rm_watchers room)\<rparr>
          else put_watched i (set_erase publisher ws) room)"

definition remove_video_watcher :: "server_env \<Rightarrow> peer_id \<Rightarrow> room_id \<Rightarrow> peer_id \<Rightarrow> server \<Rightarrow> unit outcome" where
  "remove_video_watcher env i room_id publisher s =
     (case find_room room_id s of
        None \<Rightarrow> (Some (), s)
      | Some room \<Rightarrow>
          on_screen env (rm_screen room) (\<lambda>v. set_screen_watching (en_tracks env) v i publisher False)
            (put_room room_id (unwatch_in i publisher room) s))"

section \<open>Configuration and shutdown\<close>

definition configure_room :: "rtp_fault_config \<Rightarrow> room \<Rightarrow> server \<Rightarrow> server" where
  "configure_room config room s =
     s\<lparr>sv_voice := (case rm_voice room of None \<Rightarrow> sv_voice s
          | Some r \<Rightarrow> (sv_voice s)(r := update_voice_fault_config config (sv_voice s r))),
       sv_screen := (case rm_screen room of None \<Rightarrow> sv_screen s
          | Some r \<Rightarrow> (sv_screen s)(r := update_screen_fault_config config (sv_screen s r)))\<rparr>"

definition update_fault_config :: "rtp_fault_config \<Rightarrow> server \<Rightarrow> server" where
  "update_fault_config config s =
     fold (\<lambda>(k, room). configure_room config room) (sv_rooms s) (s\<lparr>sv_fault_config := config\<rparr>)"

definition close_session_media :: "nat \<Rightarrow> server \<Rightarrow> server" where
  "close_session_media r s =
     (case se_media (sv_sessions s r) of
        None \<Rightarrow> s
      | Some m \<Rightarrow>
          fold (\<lambda>x. log_call (MediaCall r x)) (fst (close_media m)) (update_session r (\<lambda>x. x\<lparr>se_media := None\<rparr>) s))"

fun close_voice_all :: "server_env \<Rightarrow> nat list \<Rightarrow> server \<Rightarrow> unit outcome" where
  "close_voice_all env [] s = (Some (), s)"
| "close_voice_all env (r # rs) s =
     and_then (on_voice env (Some r) (close_voice (en_tracks env)) s) (close_voice_all env rs)"

fun close_screen_all :: "server_env \<Rightarrow> nat list \<Rightarrow> server \<Rightarrow> unit outcome" where
  "close_screen_all env [] s = (Some (), s)"
| "close_screen_all env (r # rs) s =
     and_then (on_screen env (Some r) (close_screen (en_tracks env)) s) (close_screen_all env rs)"

definition stop_server :: "server_env \<Rightarrow> server \<Rightarrow> unit outcome" where
  "stop_server env s =
     (let rooms = sv_rooms s;
          s1 = log_call CloseAcceptor (s\<lparr>sv_stopping := True, sv_rooms := []\<rparr>) in
      and_then (close_voice_all env (List.map_filter (rm_voice \<circ> snd) rooms) s1) (\<lambda>s2.
      and_then (close_screen_all env (List.map_filter (rm_screen \<circ> snd) rooms) s2) (\<lambda>s3.
        (Some (), fold close_session_media (concat (map (map snd \<circ> rm_sessions \<circ> snd) rooms)) s3))))"

text \<open>A connection was accepted or failed; the new session reads its request.\<close>

definition on_connection :: "bool \<Rightarrow> u64 \<Rightarrow> bool \<Rightarrow> server \<Rightarrow> server" where
  "on_connection ec random acceptor_open s =
     (let s1 =
            (if ec then s
             else log_call (ReadRequest (sv_next_session s))
                    (s\<lparr>sv_sessions := (sv_sessions s)(sv_next_session s := new_session (generate_id random)),
                       sv_next_session := Suc (sv_next_session s)\<rparr>)) in
      if \<not> sv_stopping s1 \<and> acceptor_open then log_call AcceptNext s1 else s1)"

section \<open>Snapshots\<close>

definition presence_value :: "server \<Rightarrow> json" where
  "presence_value s =
     json_object (map (\<lambda>(room_id, room).
        (room_id, JArray (map (\<lambda>(pid, r).
           json_object [(''id'', JString pid), (''username'', JString (se_username (sv_sessions s r)))])
           (rm_sessions room)))) (sv_rooms s))"

definition presence_json :: "server_env \<Rightarrow> server \<Rightarrow> string option" where
  "presence_json env s = en_dump env (presence_value s)"

definition voice_entry :: "voice_stats \<Rightarrow> json" where
  "voice_entry v =
     json_object [(''publishers'', json_count (vs_publishers v)), (''boundSlots'', json_count (vs_bound_slots v)),
       (''packetsIn'', json_counter (vs_packets_in v)), (''packetsOut'', json_counter (vs_packets_out v)),
       (''bytesOut'', json_counter (vs_bytes_out v))]"

definition screen_entry :: "screen_stats \<Rightarrow> json" where
  "screen_entry v =
     json_object [(''publishers'', json_count (ss_streaming_publishers v)), (''boundSlots'', json_count (ss_bound_slots v)),
       (''freeSlots'', json_count (ss_free_slots v)),
       (''videoPacketsIn'', json_counter (ss_video_packets_in v)), (''videoPacketsOut'', json_counter (ss_video_packets_out v)),
       (''videoBytesOut'', json_counter (ss_video_bytes_out v)),
       (''audioPacketsIn'', json_counter (ss_audio_packets_in v)), (''audioPacketsOut'', json_counter (ss_audio_packets_out v)),
       (''audioBytesOut'', json_counter (ss_audio_bytes_out v)),
       (''keyframeRequests'', json_counter (ss_keyframe_requests v))]"

definition room_entry :: "server_env \<Rightarrow> server \<Rightarrow> room \<Rightarrow> json" where
  "room_entry env s room =
     json_object
       ([(''sessions'', json_count (length (rm_sessions room))), (''streamingPeers'', json_count (length (rm_streaming room)))] @
        (case rm_voice room of None \<Rightarrow> []
         | Some r \<Rightarrow> [(''voice'', voice_entry (voice_router_stats (en_tracks env) (sv_voice s r)))]) @
        (case rm_screen room of None \<Rightarrow> []
         | Some r \<Rightarrow> [(''screen'', screen_entry (screen_router_stats (en_tracks env) (sv_screen s r)))]))"

definition media_stats_json :: "server_env \<Rightarrow> server \<Rightarrow> string option" where
  "media_stats_json env s =
     en_dump env (json_object (map (\<lambda>(room_id, room). (room_id, room_entry env s room)) (sv_rooms s)))"

section \<open>The handlers of a session\<close>

record request =
  rq_upgrade :: bool
  rq_get :: bool
  rq_target :: string
  rq_authorization :: string

definition unauthorized :: nat where
  "unauthorized = 401"

definition not_found :: nat where
  "not_found = 404"

definition snapshot_json :: "server_env \<Rightarrow> string \<Rightarrow> server \<Rightarrow> string option" where
  "snapshot_json env path s = (if path = ''/presence'' then presence_json env s else media_stats_json env s)"

definition send_snapshot :: "server_env \<Rightarrow> nat \<Rightarrow> string \<Rightarrow> server \<Rightarrow> unit outcome" where
  "send_snapshot env r path s =
     (case snapshot_json env path s of None \<Rightarrow> (None, s) | Some body \<Rightarrow> (Some (), log_call (RespondJson r body) s))"

text \<open>The two callbacks of the authenticator.\<close>

definition channel_authorized :: "nat \<Rightarrow> identity option \<Rightarrow> server \<Rightarrow> unit outcome" where
  "channel_authorized r i s =
     (case i of
        None \<Rightarrow> (Some (), log_call (RespondError r unauthorized ''unauthorized'') s)
      | Some who \<Rightarrow>
          (Some (), log_call (AcceptWebsocket r)
             (update_session r (\<lambda>x. x\<lparr>se_username := id_username who\<rparr>) s)))"

definition user_authorized :: "server_env \<Rightarrow> nat \<Rightarrow> string \<Rightarrow> identity option \<Rightarrow> server \<Rightarrow> unit outcome" where
  "user_authorized env r path i s =
     (case i of
        None \<Rightarrow> (Some (), log_call (RespondError r unauthorized ''unauthorized'') s)
      | Some who \<Rightarrow> send_snapshot env r path s)"

text \<open>A request to the API: its callback runs at once when there is no token.\<close>

definition with_authorization ::
  "nat \<Rightarrow> call_effect list \<times> api_call option \<Rightarrow> (identity option \<Rightarrow> server \<Rightarrow> unit outcome) \<Rightarrow> server \<Rightarrow> unit outcome" where
  "with_authorization r result callback s =
     (case result of
        (es, Some call) \<Rightarrow> (Some (), log_call (StartCall r call) s)
      | (es, None) \<Rightarrow> callback None s)"

definition handle_http_request :: "server_env \<Rightarrow> nat \<Rightarrow> request \<Rightarrow> server \<Rightarrow> unit outcome" where
  "handle_http_request env r req s =
     (let path = request_path (rq_target req) in
      if rq_get req \<and> path = ''/health'' then (Some (), log_call (RespondJson r ''{\"status\":\"ok\"}'') s)
      else if \<not> rq_get req \<or> path \<noteq> ''/presence'' \<and> path \<noteq> ''/media_stats''
      then (Some (), log_call (RespondError r not_found ''not found'') s)
      else case sv_authenticator s of
             None \<Rightarrow> send_snapshot env r path s
           | Some address \<Rightarrow>
               with_authorization r
                 (authorize_user address (bearer_token (rq_authorization req) (rq_target req)) True)
                 (user_authorized env r path) s)"

definition on_http_read :: "server_env \<Rightarrow> bool \<Rightarrow> request \<Rightarrow> nat \<Rightarrow> server \<Rightarrow> unit outcome" where
  "on_http_read env ec req r s =
     (if ec then (Some (), s)
      else if \<not> rq_upgrade req then handle_http_request env r req s
      else let room_id = parse_room_id (rq_target req);
               s1 = update_session r (\<lambda>x. x\<lparr>se_room := room_id\<rparr>) s in
        (case sv_authenticator s1 of
           None \<Rightarrow>
             (Some (), log_call (AcceptWebsocket r)
                (update_session r (\<lambda>x. x\<lparr>se_username := parse_query_param (rq_target req) ''u''\<rparr>) s1))
         | Some address \<Rightarrow>
             with_authorization r
               (authorize_channel address (bearer_token (rq_authorization req) (rq_target req)) room_id True)
               (channel_authorized r) s1))"

definition on_accept :: "server_env \<Rightarrow> bool \<Rightarrow> nat \<Rightarrow> server \<Rightarrow> unit outcome" where
  "on_accept env ec r s =
     (if ec then (Some (), s)
      else case register_and_build_welcome env (se_id (sv_sessions s r)) (se_room (sv_sessions s r)) r s of
             (None, s1) \<Rightarrow> (None, s1)
           | (Some None, s1) \<Rightarrow> (Some (), s1)
           | (Some (Some welcome), s1) \<Rightarrow> (Some (), log_call (ReadMessage r) (session_send welcome r s1)))"

definition on_close :: "server_env \<Rightarrow> nat \<Rightarrow> server \<Rightarrow> unit outcome" where
  "on_close env r s =
     (if se_closed (sv_sessions s r) then (Some (), s)
      else unregister_session env (se_id (sv_sessions s r)) (se_room (sv_sessions s r))
             (update_session r (\<lambda>x. x\<lparr>se_writer := close_writer (se_writer x)\<rparr>)
               (close_session_media r (update_session r (\<lambda>x. x\<lparr>se_closed := True\<rparr>) s))))"

definition on_media :: "nat \<Rightarrow> (media \<Rightarrow> media_effect list \<times> media) \<Rightarrow> server \<Rightarrow> server" where
  "on_media r f s =
     (case se_media (sv_sessions s r) of
        None \<Rightarrow> s
      | Some m \<Rightarrow>
          (let (es, m') = f m in
           fold (\<lambda>x. log_call (MediaCall r x)) es (update_session r (\<lambda>x. x\<lparr>se_media := Some m'\<rparr>) s)))"

definition announce :: "server_env \<Rightarrow> nat \<Rightarrow> message \<Rightarrow> server \<Rightarrow> unit outcome" where
  "announce env r msg s =
     (case dump_message (en_dump env) msg of
        None \<Rightarrow> (None, s)
      | Some text \<Rightarrow> (Some (), broadcast (se_id (sv_sessions s r)) (se_room (sv_sessions s r)) text s))"

fun handle_message :: "server_env \<Rightarrow> nat \<Rightarrow> message \<Rightarrow> server \<Rightarrow> unit outcome" where
  "handle_message env r (Offer sdp c) s =
     (Some (), on_media r (accept_offer (en_pc_ok env) (en_sdp_ok env) c sdp) s)"
| "handle_message env r (Candidate candidate mid c) s =
     (Some (), on_media r (\<lambda>m. (add_remote_candidate c candidate mid m, m)) s)"
| "handle_message env r (StreamingStart _) s =
     and_then (add_streaming_peer env (se_id (sv_sessions s r)) (se_room (sv_sessions s r)) s)
       (announce env r (StreamingStart (Some (se_id (sv_sessions s r)))))"
| "handle_message env r (StreamingStop _) s =
     and_then (remove_streaming_peer env (se_id (sv_sessions s r)) (se_room (sv_sessions s r)) s)
       (announce env r (StreamingStop (Some (se_id (sv_sessions s r)))))"
| "handle_message env r (WatchStart publisher) s =
     add_video_watcher env (se_id (sv_sessions s r)) (se_room (sv_sessions s r)) publisher s"
| "handle_message env r (WatchStop publisher) s =
     remove_video_watcher env (se_id (sv_sessions s r)) (se_room (sv_sessions s r)) publisher s"
| "handle_message env r _ s = (Some (), s)"

definition on_read :: "server_env \<Rightarrow> bool \<Rightarrow> string \<Rightarrow> nat \<Rightarrow> server \<Rightarrow> unit outcome" where
  "on_read env ec raw r s =
     (if ec then on_close env r s
      else case parse_message (en_parse env) raw of
             Inl _ \<Rightarrow> (Some (), log_call (ReadMessage r) s)
           | Inr msg \<Rightarrow> and_then (handle_message env r msg s) (\<lambda>s1. (Some (), log_call (ReadMessage r) s1)))"

text \<open>Completion of a write: the session closes when it failed.\<close>

definition session_do_write :: "nat \<Rightarrow> server \<Rightarrow> server" where
  "session_do_write r = update_session r (\<lambda>x. x\<lparr>se_writer := snd (do_write (se_writer x))\<rparr>)"

definition session_on_write :: "server_env \<Rightarrow> bool \<Rightarrow> nat \<Rightarrow> server \<Rightarrow> unit outcome" where
  "session_on_write env ec r s =
     (let (failed, w) = on_write ec (se_writer (sv_sessions s r));
          s1 = update_session r (\<lambda>x. x\<lparr>se_writer := w\<rparr>) s in
      if failed then on_close env r s1 else (Some (), s1))"

end
