(* ===== verification/Screen_Grants.thy ===== *)
theory Screen_Grants
  imports Screen_Router
begin

text \<open>
  What the screen router (\<^verbatim>\<open>backend/signaling_server/src/screen_router.cpp\<close>) has been told: which
  peers stream and whom each peer watches. Only \<^verbatim>\<open>set_streaming\<close>, \<^verbatim>\<open>set_watching\<close>, \<^verbatim>\<open>remove_peer\<close> and
  \<^verbatim>\<open>close\<close> change it; tracks and packets do not. The server's access control rests on this.
\<close>

type_synonym grant = "bool \<times> peer_id set"

definition grant_of :: "screen_peer \<Rightarrow> grant" where
  "grant_of p = (sp_streaming p, set (keys (sp_watched_publishers p)))"

definition no_grant :: grant where
  "no_grant = (False, {})"

definition table_grants :: "(peer_id \<times> screen_peer) list \<Rightarrow> peer_id \<Rightarrow> grant" where
  "table_grants peers k = (case map_of peers k of None \<Rightarrow> no_grant | Some p \<Rightarrow> grant_of p)"

abbreviation grants :: "screen_router \<Rightarrow> peer_id \<Rightarrow> grant" where
  "grants v \<equiv> table_grants (sr_peers v)"

named_theorems grant_simps "what operations do to the grants of a screen router"

lemma grant_put [grant_simps]: "grant_of (put_pairs xs p) = grant_of p"
  by (simp add: grant_of_def)

lemma grants_Cons: "table_grants ((k, p) # ps) q = (if q = k then grant_of p else table_grants ps q)"
  by (simp add: table_grants_def)

lemma grants_adjust:
  "table_grants (adjust k f peers) = (table_grants peers)
     (k := (case map_of peers k of None \<Rightarrow> no_grant | Some p \<Rightarrow> grant_of (f p)))"
  by (auto simp: table_grants_def map_of_adjust fun_eq_iff split: option.splits)

lemma grants_adjust_same:
  assumes "\<And>p. grant_of (f p) = grant_of p"
  shows "table_grants (adjust k f peers) = table_grants peers"
  using assms by (auto simp: table_grants_def map_of_adjust fun_eq_iff split: option.splits)

lemma grants_update_peers [grant_simps]:
  "table_grants (fst (update_peers sp_outputs put_pairs f peers h)) = table_grants peers"
proof (induction peers arbitrary: h)
  case (Cons x peers)
  then show ?case
    by (cases x) (auto simp: fun_eq_iff Let_def prod.case_eq_if grants_Cons grant_put)
qed simp

lemma grants_assign_peers:
  "table_grants (fst (assign_peers sp_outputs put_pairs pub free claim order eligible subs peers h)) = table_grants peers"
proof (induction subs arbitrary: peers h)
  case (Cons sid subs)
  show ?case
  proof (cases "map_of peers sid")
    case None
    then show ?thesis using Cons.IH by simp
  next
    case (Some p)
    have "table_grants (adjust sid (put_pairs xs) peers) = table_grants peers" for xs
      by (rule grants_adjust_same) (rule grant_put)
    then show ?thesis using Some Cons.IH by (simp add: Let_def prod.case_eq_if)
  qed
qed simp

lemma grants_assign [grant_simps]: "grants (fst (assign_screen e s)) = grants s"
  by (simp add: assign_screen_def Let_def prod.case_eq_if grants_assign_peers)

lemma grants_publish [grant_simps]: "grants (snd (publish_screen e s notices)) = grants s"
  by (simp add: publish_screen_def Let_def)

lemma grants_peer_for [grant_simps]: "grants (screen_peer_for k s) = grants s"
proof -
  have "grant_of (new_screen_peer order) = no_grant" for order
    by (simp add: grant_of_def no_grant_def new_screen_peer_def)
  then show ?thesis
    by (auto simp: screen_peer_for_def table_grants_def fun_eq_iff map_add_def split: option.splits)
qed

lemma grants_published:
  assumes "publish_screen e s notices = (es, s')"
  shows "grants s' = grants s"
  using grants_publish [of e s notices] assms by simp

lemma grants_assigned:
  assumes "assign_screen e s = (s', notices)"
  shows "grants s' = grants s"
  using grants_assign [of e s] assms by simp

lemma grants_updated:
  assumes "update_peers sp_outputs put_pairs f peers h = (peers', h')"
  shows "table_grants peers' = table_grants peers"
  using grants_update_peers [of f peers h] assms by simp

lemmas grant_trans = grants_published grants_assigned grants_updated

section \<open>Operations that keep the grants\<close>

lemma grants_register_input:
  assumes "register_screen_input e s owner track video send = (es, s')"
  shows "grants s' = grants s"
proof (cases "sr_closed s")
  case True
  with assms show ?thesis by (simp add: register_screen_input_def Let_def)
next
  case False
  have input: "grant_of (set_screen_input c v t m b p) = grant_of p" for c v t m b p
    by (simp add: set_screen_input_def grant_of_def Let_def)
  have "table_grants (adjust owner (set_screen_input c v t m b) (sr_peers (screen_peer_for owner s))) = grants s" for c v t m b
    using grants_adjust_same [of "set_screen_input c v t m b"] input grants_peer_for by simp
  with assms False show ?thesis
    by (auto simp: register_screen_input_def Let_def prod.case_eq_if grant_simps split: if_splits)
qed

lemma grants_register_begin:
  assumes "register_screen_output_begin e counter s owner track video send = (r, counter', s')"
  shows "grants s' = grants s"
proof -
  have "grant_of (p\<lparr>sp_send_binding := b\<rparr>) = grant_of p" for p b by (simp add: grant_of_def)
  then have same: "table_grants (adjust owner (put_pairs xs) (adjust owner (\<lambda>p. p\<lparr>sp_send_binding := b\<rparr>) peers)) = table_grants peers" for xs b peers
    using grants_adjust_same [of "put_pairs xs"] grants_adjust_same [of "\<lambda>p. p\<lparr>sp_send_binding := b\<rparr>"] grant_put by simp
  show ?thesis
    using assms
    by (auto simp: register_screen_output_begin_def Let_def prod.case_eq_if same grants_peer_for split: if_splits)
qed

lemma grants_register_commit:
  assumes "register_screen_output_commit e s owner track video mid = (notices, s')"
  shows "grants s' = grants s"
proof -
  have "table_grants (adjust owner (put_pairs xs) peers) = table_grants peers" for xs peers
    by (rule grants_adjust_same) (rule grant_put)
  with assms show ?thesis
    by (auto simp: register_screen_output_commit_def Let_def prod.case_eq_if grant_simps split: if_splits option.splits)
qed

lemma grants_register_output:
  assumes "register_screen_output e counter s owner track video send = (es, counter', s')"
  shows "grants s' = grants s"
  using assms
  by (auto simp: register_screen_output_def Let_def split: prod.splits option.splits
      dest!: grants_register_begin grants_register_commit grants_published)

lemma grants_register_track:
  assumes "register_screen_track e counter s owner track send = (es, counter', s')"
  shows "grants s' = grants s"
  using assms
  by (auto simp: register_screen_track_def Let_def split: prod.splits option.splits if_splits direction.splits
      dest!: grants_register_input grants_register_output)

lemma grants_set_states: "grant_of (set_sp_states video f l p) = grant_of p"
  by (simp add: set_sp_states_def grant_of_def)

lemma grants_route:
  assumes "route_screen_locked e s publisher video expected packet = (es, pend, s')"
  shows "grants s' = grants s"
proof -
  have same: "table_grants (adjust publisher (set_sp_states v f l) peers) = table_grants peers" for v f l peers
    by (rule grants_adjust_same) (rule grants_set_states)
  have counted: "sr_peers (count_packet_in v s) = sr_peers s" for v by (simp add: count_packet_in_def)
  show ?thesis
    using assms
    by (auto simp: route_screen_locked_def Let_def prod.case_eq_if same counted split: if_splits option.splits)
qed

lemma grants_send: "send_screen_packets e video s pend = (es, s') \<Longrightarrow> grants s' = grants s"
  by (auto simp: send_screen_packets_def Let_def prod.case_eq_if split: option.splits if_splits)

lemma grants_flush: "flush_screen_locked e s = (due, s') \<Longrightarrow> grants s' = grants s"
  by (auto simp: flush_screen_locked_def Let_def prod.case_eq_if split: if_splits)

lemma grants_forward:
  assumes "forward_screen_locked e s item = (pend, s')"
  shows "grants s' = grants s"
proof -
  have same: "table_grants (adjust k (set_sp_states v f l) peers) = table_grants peers" for k v f l peers
    by (rule grants_adjust_same) (rule grants_set_states)
  show ?thesis
    using assms
    by (auto simp: forward_screen_locked_def Let_def same split: if_splits option.splits)
qed

lemma grants_keyframe: "screen_request_keyframe e s t = (es, s') \<Longrightarrow> grants s' = grants s"
  by (auto simp: screen_request_keyframe_def Let_def)

section \<open>Operations that change them\<close>

lemma grants_closed: "screen_inv s \<Longrightarrow> sr_closed s \<Longrightarrow> grants s = (\<lambda>_. no_grant)"
  by (simp add: screen_inv_def table_grants_def fun_eq_iff)

lemma screen_peer_for_Some: "\<exists>p. map_of (sr_peers (screen_peer_for pid s)) pid = Some p"
  by (auto simp: screen_peer_for_def map_add_def split: option.splits)

lemma grants_streaming:
  assumes "set_screen_streaming e s pid streaming = (es, s')" and "\<not> sr_closed s"
  shows "grants s' = (grants s)(pid := (streaming, snd (grants s pid)))"
proof -
  let ?s1 = "screen_peer_for pid s"
  obtain p where p: "map_of (sr_peers ?s1) pid = Some p"
    using screen_peer_for_Some by blast
  have "grants ?s1 pid = grant_of p" by (simp add: table_grants_def p)
  then have old: "grants s pid = grant_of p" by (simp add: grants_peer_for)
  show ?thesis
  proof (cases "sp_streaming p = streaming")
    case True
    then have "s' = ?s1" using assms p by (auto simp: set_screen_streaming_def Let_def)
    with True old show ?thesis by (simp add: grants_peer_for fun_eq_iff) (simp add: grant_of_def)
  next
    case False
    have "table_grants (adjust pid (\<lambda>p. p\<lparr>sp_streaming := streaming\<rparr>) (sr_peers ?s1)) =
        (grants s)(pid := (streaming, snd (grants s pid)))"
      using p old by (simp add: grants_adjust grants_peer_for) (simp add: grant_of_def)
    with assms p False show ?thesis
      by (auto simp: set_screen_streaming_def Let_def prod.case_eq_if grant_simps split: if_splits dest!: grants_published)
  qed
qed

lemma grants_watching:
  assumes "set_screen_watching e s pid publisher watching = (es, s')" and "\<not> sr_closed s" and "pid \<noteq> publisher"
  shows "grants s' = (grants s)(pid := (fst (grants s pid),
    if watching then insert publisher (snd (grants s pid)) else snd (grants s pid) - {publisher}))"
proof -
  let ?s1 = "screen_peer_for pid s"
  obtain p where p: "map_of (sr_peers ?s1) pid = Some p"
    using screen_peer_for_Some by blast
  have "grants ?s1 pid = grant_of p" by (simp add: table_grants_def p)
  then have old: "grants s pid = grant_of p" by (simp add: grants_peer_for)
  let ?W = "fst ` set (sp_watched_publishers p)"
  consider (same) "watching = (publisher \<in> ?W)" | (start) "watching" "publisher \<notin> ?W" | (stop) "\<not> watching" "publisher \<in> ?W"
    by blast
  then show ?thesis
  proof cases
    case same
    then have "s' = ?s1" using assms p by (auto simp: set_screen_watching_def Let_def)
    with same old show ?thesis
      by (auto simp: grants_peer_for fun_eq_iff grant_of_def insert_absorb)
  next
    case start
    have "grant_of (start_watching publisher p) = (fst (grant_of p), insert publisher (snd (grant_of p)))"
      by (simp add: grant_of_def start_watching_def)
    with start assms p old show ?thesis
      by (auto simp: set_screen_watching_def Let_def prod.case_eq_if grant_simps grants_adjust dest!: grants_published)
  next
    case stop
    have "grant_of (put_pairs xs (p\<lparr>sp_watched_publishers := AList.delete publisher (sp_watched_publishers p)\<rparr>)) =
        (fst (grant_of p), snd (grant_of p) - {publisher})" for xs
      by (auto simp: grant_of_def keys_delete)
    with stop assms p old show ?thesis
      by (auto simp: set_screen_watching_def Let_def prod.case_eq_if grant_simps grants_adjust dest!: grants_published)
  qed
qed

lemma grants_remove:
  assumes "remove_screen_peer e s pid = (es, s')" and "\<not> sr_closed s"
  shows "grants s' = (\<lambda>k. if k = pid then no_grant else (fst (grants s k), snd (grants s k) - {pid}))"
proof -
  have unwatched: "grant_of (unwatch pid p) = (fst (grant_of p), snd (grant_of p) - {pid})" for p
    by (auto simp: grant_of_def unwatch_def keys_delete)
  have "table_grants (map_vals (unwatch pid) (AList.delete pid peers)) =
      (\<lambda>k. if k = pid then no_grant else (fst (table_grants peers k), snd (table_grants peers k) - {pid}))" for peers
    by (auto simp: table_grants_def map_of_map_vals map_of_delete fun_eq_iff unwatched no_grant_def split: option.splits)
  with assms show ?thesis
    by (auto simp: remove_screen_peer_def Let_def prod.case_eq_if grant_simps dest!: grants_published)
qed

lemma grants_close: "close_screen e s = (es, s') \<Longrightarrow> screen_inv s \<Longrightarrow> grants s' = (\<lambda>_. no_grant)"
  using grants_closed [of s] by (auto simp: close_screen_def table_grants_def fun_eq_iff split: if_splits)

lemma grants_new: "grants (new_screen_router config executor) = (\<lambda>_. no_grant)"
  by (simp add: new_screen_router_def table_grants_def fun_eq_iff)

section \<open>A bound pair was granted\<close>

lemma bound_pair_granted:
  assumes "screen_inv s" and "map_of (sr_peers s) k = Some p" and "x \<in> set (sp_outputs p)"
    and "op_publisher x = Some q"
  shows "q \<noteq> k \<and> fst (grants s q) \<and> q \<in> snd (grants s k)"
proof -
  have ok: "screen_peer_ok (screen_publishers (sr_peers s)) (sr_rewriters s) k p"
    using assms(1,2) by (auto simp: screen_inv_def screen_table_ok_def dest: map_of_SomeD)
  then have pair: "screen_pair_ok (screen_publishers (sr_peers s)) (sr_rewriters s) k x"
    using assms(3) by (simp add: screen_peer_ok_def)
  then have "q \<noteq> k" "q \<in> screen_publishers (sr_peers s)"
    using assms(4) by (simp_all add: screen_pair_ok_def)
  then have "fst (grants s q)"
    by (auto simp: screen_publishers_def screen_source_def table_grants_def grant_of_def)
  have "q \<in> set (pair_publishers (sp_outputs p))"
    using assms(3,4) by (force simp: pair_publishers_def List.map_filter_def)
  then have "q \<in> set (keys (sp_watched_publishers p))" using ok by (auto simp: screen_peer_ok_def)
  then have "q \<in> snd (grants s k)" using assms(2) by (simp add: table_grants_def grant_of_def)
  with \<open>q \<noteq> k\<close> \<open>fst (grants s q)\<close> show ?thesis by blast
qed

end
