(* ===== verification/Ws_Access.thy ===== *)
theory Ws_Access
  imports Ws_Server Screen_Grants
begin

text \<open>
  The signaling server as a transition system, and who may receive whose screen. A step is one
  handler of the io thread, with the router calls it makes, or a track or packet callback of a
  libdatachannel thread. A handler that ends in an exception ends the server, so there is no step
  for it. The phase of a session says which asynchronous operation of it is pending: Beast
  delivers a message only to a session that was accepted and whose reads and writes have not failed.
\<close>

section \<open>Steps\<close>

datatype phase = Unborn | Requesting | Deciding | Accepting | Connected | Over

type_synonym system = "(nat \<Rightarrow> phase) \<times> server"

inductive screen_packet_step :: "screen_router \<Rightarrow> screen_router \<Rightarrow> bool" where
  packet_route: "route_screen_locked e s publisher video expected p = (es, pend, s') \<Longrightarrow> screen_packet_step s s'"
| packet_flush: "flush_screen_locked e s = (due, s') \<Longrightarrow> screen_packet_step s s'"
| packet_forward: "forward_screen_locked e s item = (pend, s') \<Longrightarrow> screen_packet_step s s'"
| packet_send: "send_screen_packets e video s pend = (es, s') \<Longrightarrow> screen_packet_step s s'"
| packet_keyframe: "screen_request_keyframe e s t = (es, s') \<Longrightarrow> screen_packet_step s s'"

definition replace_screen :: "nat \<Rightarrow> screen_router \<Rightarrow> server \<Rightarrow> server" where
  "replace_screen w v s = s\<lparr>sv_screen := (sv_screen s)(w := v)\<rparr>"

definition replace_voice :: "nat \<Rightarrow> voice_router \<Rightarrow> server \<Rightarrow> server" where
  "replace_voice w v s = s\<lparr>sv_voice := (sv_voice s)(w := v)\<rparr>"

definition after_request :: "bool \<Rightarrow> request \<Rightarrow> server \<Rightarrow> phase" where
  "after_request ec req s =
     (if ec \<or> \<not> rq_upgrade req then Over
      else if sv_authenticator s = None then Accepting
      else if bearer_token (rq_authorization req) (rq_target req) = [] then Over
      else Deciding)"

inductive server_step :: "system \<Rightarrow> system \<Rightarrow> bool" where
  step_connection:
    "(\<forall>r < sv_next_session s. se_id (sv_sessions s r) \<noteq> generate_id random) \<Longrightarrow>
     server_step (ph, s) (if ec then ph else ph(sv_next_session s := Requesting), on_connection ec random acc s)"
| step_request:
    "ph r = Requesting \<Longrightarrow> on_http_read env ec req r s = (Some (), s') \<Longrightarrow>
     server_step (ph, s) (ph(r := after_request ec req s), s')"
| step_channel:
    "ph r = Deciding \<Longrightarrow> channel_authorized r i s = (Some (), s') \<Longrightarrow>
     server_step (ph, s) (ph(r := if i = None then Over else Accepting), s')"
| step_user: "user_authorized env r path i s = (Some (), s') \<Longrightarrow> server_step (ph, s) (ph, s')"
| step_accept:
    "ph r = Accepting \<Longrightarrow> on_accept env ec r s = (Some (), s') \<Longrightarrow>
     server_step (ph, s) (ph(r := if ec \<or> sv_stopping s then Over else Connected), s')"
| step_message:
    "ph r = Connected \<Longrightarrow> \<not> se_closed (sv_sessions s r) \<Longrightarrow> on_read env False raw r s = (Some (), s') \<Longrightarrow>
     server_step (ph, s) (ph, s')"
| step_read_end:
    "ph r = Connected \<Longrightarrow> on_read env True raw r s = (Some (), s') \<Longrightarrow> server_step (ph, s) (ph(r := Over), s')"
| step_do_write: "server_step (ph, s) (ph, session_do_write r s)"
| step_write_end:
    "ph r \<in> {Connected, Over} \<Longrightarrow> session_on_write env ec r s = (Some (), s') \<Longrightarrow> server_step (ph, s) (ph, s')"
| step_media: "server_step (ph, s) (ph, on_media r f s)"
| step_voice_track:
    "add_voice_track env router owner track send s = (Some (), s') \<Longrightarrow> server_step (ph, s) (ph, s')"
| step_screen_track:
    "add_screen_track env router owner track send s = (Some (), s') \<Longrightarrow> server_step (ph, s) (ph, s')"
| step_voice_packet: "server_step (ph, s) (ph, replace_voice w v s)"
| step_screen_packet: "screen_packet_step (sv_screen s w) v \<Longrightarrow> server_step (ph, s) (ph, replace_screen w v s)"
| step_config: "server_step (ph, s) (ph, update_fault_config config s)"
| step_stop: "stop_server env s = (Some (), s') \<Longrightarrow> server_step (ph, s) (ph, s')"

inductive server_reach :: "rtp_fault_config \<Rightarrow> (string \<times> string) option \<Rightarrow> system \<Rightarrow> bool"
  for config authenticator where
  reach_start: "server_reach config authenticator (\<lambda>_. Unborn, new_server config authenticator ssrc)"
| reach_step: "server_reach config authenticator sys \<Longrightarrow> server_step sys sys' \<Longrightarrow> server_reach config authenticator sys'"

section \<open>The invariant\<close>

definition table_ok :: "room \<Rightarrow> bool" where
  "table_ok room \<longleftrightarrow>
     (let P = set (keys (rm_sessions room)) in
      rm_sessions room \<noteq> [] \<and> distinct (keys (rm_sessions room)) \<and>
      distinct (rm_streaming room) \<and> set (rm_streaming room) \<subseteq> P \<and>
      distinct (keys (rm_watchers room)) \<and>
      (\<forall>(k, ws)\<in>set (rm_watchers room).
         k \<in> P \<and> ws \<noteq> [] \<and> distinct ws \<and> set ws \<subseteq> P - {k} \<and> length ws \<le> kScreenReceiveSlots))"

definition refs_ok :: "(nat \<Rightarrow> phase) \<Rightarrow> server \<Rightarrow> room_id \<Rightarrow> room \<Rightarrow> bool" where
  "refs_ok ph s rid room \<longleftrightarrow>
     (\<forall>(i, r)\<in>set (rm_sessions room). r < sv_next_session s \<and> se_id (sv_sessions s r) = i \<and>
        se_room (sv_sessions s r) = rid \<and> ph r \<in> {Connected, Over})"

definition granted_within :: "(peer_id \<Rightarrow> grant) \<Rightarrow> room \<Rightarrow> bool" where
  "granted_within g room \<longleftrightarrow>
     (\<forall>k. (fst (g k) \<longrightarrow> k \<in> set (rm_streaming room)) \<and> snd (g k) \<subseteq> set (watched_by k room))"

definition router_ok :: "server \<Rightarrow> room \<Rightarrow> bool" where
  "router_ok s room \<longleftrightarrow>
     (case rm_screen room of
        None \<Rightarrow> False
      | Some w \<Rightarrow> w < sv_next_router s \<and> granted_within (grants (sv_screen s w)) room)"

definition registered :: "nat \<Rightarrow> server \<Rightarrow> bool" where
  "registered r s \<longleftrightarrow>
     (\<exists>room. map_of (sv_rooms s) (se_room (sv_sessions s r)) = Some room \<and>
             map_of (rm_sessions room) (se_id (sv_sessions s r)) = Some r)"

definition rooms_ok :: "(nat \<Rightarrow> phase) \<Rightarrow> server \<Rightarrow> bool" where
  "rooms_ok ph s \<longleftrightarrow>
     distinct (keys (sv_rooms s)) \<and>
     (\<forall>rid room. map_of (sv_rooms s) rid = Some room \<longrightarrow> table_ok room \<and> refs_ok ph s rid room \<and> router_ok s room) \<and>
     (\<forall>rid rid' room room'. map_of (sv_rooms s) rid = Some room \<and> map_of (sv_rooms s) rid' = Some room' \<and>
        rm_screen room = rm_screen room' \<longrightarrow> rid = rid')"

definition server_inv :: "(nat \<Rightarrow> phase) \<Rightarrow> server \<Rightarrow> bool" where
  "server_inv ph s \<longleftrightarrow>
     rooms_ok ph s \<and> (\<forall>w. screen_inv (sv_screen s w)) \<and>
     (\<forall>w \<ge> sv_next_router s. grants (sv_screen s w) = (\<lambda>_. no_grant)) \<and>
     (sv_stopping s \<longrightarrow> sv_rooms s = []) \<and>
     (\<forall>r. ph r = Unborn \<longleftrightarrow> sv_next_session s \<le> r) \<and>
     inj_on (\<lambda>r. se_id (sv_sessions s r)) {..<sv_next_session s} \<and>
     (\<forall>r. ph r = Connected \<and> \<not> se_closed (sv_sessions s r) \<and> \<not> sv_stopping s \<longrightarrow> registered r s)"

section \<open>What the invariant reads\<close>

definition core :: "server \<Rightarrow> bool \<times> (room_id \<times> room) list \<times> nat \<times> nat \<times> (nat \<Rightarrow> screen_router) \<times> (nat \<Rightarrow> peer_id \<times> room_id \<times> bool)" where
  "core s = (sv_stopping s, sv_rooms s, sv_next_session s, sv_next_router s, sv_screen s,
     \<lambda>r. (se_id (sv_sessions s r), se_room (sv_sessions s r), se_closed (sv_sessions s r)))"

lemma coreD:
  assumes "core s = core t"
  shows "sv_stopping s = sv_stopping t" "sv_rooms s = sv_rooms t" "sv_next_session s = sv_next_session t"
    "sv_next_router s = sv_next_router t" "sv_screen s = sv_screen t" "se_id (sv_sessions s r) = se_id (sv_sessions t r)"
    "se_room (sv_sessions s r) = se_room (sv_sessions t r)" "se_closed (sv_sessions s r) = se_closed (sv_sessions t r)"
  using assms by (auto simp: core_def dest: fun_cong)

lemma server_inv_core:
  assumes "core s = core t"
  shows "server_inv ph s = server_inv ph t"
proof -
  note eq = coreD [OF assms]
  show ?thesis
    by (simp add: server_inv_def rooms_ok_def refs_ok_def router_ok_def registered_def eq cong: option.case_cong)
qed

named_theorems core_simps "operations that do not touch what the invariant reads"

lemma core_log [core_simps]: "core (log_call x s) = core s"
  by (simp add: core_def log_call_def)

lemma core_session:
  assumes "\<And>x. se_id (f x) = se_id x \<and> se_room (f x) = se_room x \<and> se_closed (f x) = se_closed x"
  shows "core (update_session r f s) = core s"
  using assms by (auto simp: core_def update_session_def fun_eq_iff)

lemma core_send [core_simps]: "core (session_send text r s) = core s"
  unfolding session_send_def by (rule core_session) simp

lemma core_fold [core_simps]: "(\<And>x s. core (f x s) = core s) \<Longrightarrow> core (fold f xs s) = core s"
  by (induction xs arbitrary: s) auto

lemma core_send_all [core_simps]: "core (send_all texts refs s) = core s"
  unfolding send_all_def by (intro core_fold core_send)

lemma core_deliver [core_simps]: "core (snd (deliver env c es s)) = core s"
  by (induction env c es s rule: deliver.induct) (auto simp: core_simps split: option.splits)

lemma core_voice [core_simps]: "core (snd (on_voice env router f s)) = core s"
proof (cases router)
  case (Some r)
  have "core (s\<lparr>sv_voice := h\<rparr>) = core s" for h by (simp add: core_def)
  with Some core_deliver show ?thesis by (simp add: on_voice_def prod.case_eq_if Let_def)
qed (simp add: on_voice_def)

lemma core_screen [core_simps]:
  "core (snd (on_screen env (Some w) f s)) = core (replace_screen w (snd (f (sv_screen s w))) s)"
  by (simp add: on_screen_def replace_screen_def prod.case_eq_if Let_def core_deliver)

lemma core_replace: "core s = core t \<Longrightarrow> core (replace_screen w v s) = core (replace_screen w v t)"
  by (simp add: core_def replace_screen_def)

section \<open>Rooms and their routers\<close>

lemma put_room_fields [simp]:
  "sv_screen (put_room rid room s) = sv_screen s" "sv_sessions (put_room rid room s) = sv_sessions s"
  "sv_stopping (put_room rid room s) = sv_stopping s" "sv_next_session (put_room rid room s) = sv_next_session s"
  "sv_next_router (put_room rid room s) = sv_next_router s"
  "sv_rooms (put_room rid room s) = AList.update rid room (sv_rooms s)"
  by (simp_all add: put_room_def)

lemma drop_room_fields [simp]:
  "sv_screen (drop_room rid s) = sv_screen s" "sv_sessions (drop_room rid s) = sv_sessions s"
  "sv_stopping (drop_room rid s) = sv_stopping s" "sv_next_session (drop_room rid s) = sv_next_session s"
  "sv_next_router (drop_room rid s) = sv_next_router s"
  "sv_rooms (drop_room rid s) = AList.delete rid (sv_rooms s)"
  by (simp_all add: drop_room_def)

lemma replace_screen_fields [simp]:
  "sv_screen (replace_screen w v s) = (sv_screen s)(w := v)" "sv_sessions (replace_screen w v s) = sv_sessions s"
  "sv_stopping (replace_screen w v s) = sv_stopping s" "sv_next_session (replace_screen w v s) = sv_next_session s"
  "sv_next_router (replace_screen w v s) = sv_next_router s" "sv_rooms (replace_screen w v s) = sv_rooms s"
  by (simp_all add: replace_screen_def)

lemma server_invD:
  assumes "server_inv ph s" and "find_room rid s = Some room"
  shows "table_ok room" "refs_ok ph s rid room" "\<exists>w. rm_screen room = Some w \<and> w < sv_next_router s \<and>
    granted_within (grants (sv_screen s w)) room \<and> screen_inv (sv_screen s w)"
proof -
  have room: "map_of (sv_rooms s) rid = Some room" using assms(2) by (simp add: find_room_def)
  have "table_ok room \<and> refs_ok ph s rid room \<and> router_ok s room"
    using assms(1) room unfolding server_inv_def rooms_ok_def by blast
  then show "table_ok room" "refs_ok ph s rid room" "\<exists>w. rm_screen room = Some w \<and> w < sv_next_router s \<and>
      granted_within (grants (sv_screen s w)) room \<and> screen_inv (sv_screen s w)"
    using assms(1) by (auto simp: router_ok_def server_inv_def split: option.splits)
qed

lemma inv_same_grants:
  assumes "server_inv ph s" and "screen_inv v" and "grants v = grants (sv_screen s w)"
  shows "server_inv ph (replace_screen w v s)"
proof -
  have "router_ok (replace_screen w v s) room = router_ok s room" for room
    using assms(3) by (auto simp: router_ok_def split: option.splits)
  moreover have "refs_ok ph (replace_screen w v s) rid room = refs_ok ph s rid room" for rid room
    by (simp add: refs_ok_def)
  ultimately have "rooms_ok ph (replace_screen w v s) = rooms_ok ph s" by (simp add: rooms_ok_def)
  moreover have "registered r (replace_screen w v s) = registered r s" for r by (simp add: registered_def)
  ultimately show ?thesis using assms by (simp add: server_inv_def)
qed

text \<open>A room is stored, and its screen router changes.\<close>

lemma inv_put_room:
  assumes inv: "server_inv ph s" and running: "\<not> sv_stopping s"
    and w: "rm_screen room' = Some w" "w < sv_next_router s"
    and sole: "\<And>rid1 room1. map_of (sv_rooms s) rid1 = Some room1 \<Longrightarrow> rm_screen room1 = Some w \<Longrightarrow> rid1 = rid"
    and room': "table_ok room'" "refs_ok ph s rid room'"
    and v: "screen_inv v" "granted_within (grants v) room'"
    and live: "\<And>r. ph r = Connected \<Longrightarrow> \<not> se_closed (sv_sessions s r) \<Longrightarrow> registered r s \<Longrightarrow>
      se_room (sv_sessions s r) = rid \<Longrightarrow> map_of (rm_sessions room') (se_id (sv_sessions s r)) = Some r"
  shows "server_inv ph (replace_screen w v (put_room rid room' s))"
proof -
  let ?s = "replace_screen w v (put_room rid room' s)"
  have rooms: "map_of (sv_rooms ?s) = (map_of (sv_rooms s))(rid := Some room')"
    by (simp add: fun_eq_iff map_of_update)
  have ok: "rooms_ok ph s" using inv by (simp add: server_inv_def)
  have other: "router_ok ?s room1" if "map_of (sv_rooms s) rid1 = Some room1" "rid1 \<noteq> rid" for rid1 room1
  proof -
    have "rm_screen room1 \<noteq> Some w" using sole that by blast
    moreover have "router_ok s room1" using ok that unfolding rooms_ok_def by blast
    ultimately show ?thesis by (auto simp: router_ok_def split: option.splits)
  qed
  have mine: "router_ok ?s room'" using w v by (simp add: router_ok_def)
  have refs: "refs_ok ph ?s rid1 = refs_ok ph s rid1" for rid1 by (simp add: refs_ok_def fun_eq_iff)
  have "rooms_ok ph ?s"
    unfolding rooms_ok_def rooms
  proof (intro conjI allI impI; (elim conjE)?)
    show "distinct (keys (sv_rooms ?s))" using ok by (simp add: rooms_ok_def distinct_update)
  next
    fix rid1 room1 assume r: "((map_of (sv_rooms s))(rid := Some room')) rid1 = Some room1"
    show "table_ok room1" using r room'(1) ok by (auto simp: rooms_ok_def split: if_splits)
    show "refs_ok ph ?s rid1 room1" using r room'(2) ok by (auto simp: refs rooms_ok_def split: if_splits)
    show "router_ok ?s room1" using r mine other by (auto split: if_splits)
  next
    fix rid1 rid2 room1 room2
    assume r: "((map_of (sv_rooms s))(rid := Some room')) rid1 = Some room1"
      "((map_of (sv_rooms s))(rid := Some room')) rid2 = Some room2" "rm_screen room1 = rm_screen room2"
    show "rid1 = rid2"
    proof (cases "rid1 = rid \<or> rid2 = rid")
      case True
      then show ?thesis using r w(1) sole [of rid1] sole [of rid2] by (auto split: if_splits)
    next
      case False
      with r ok show ?thesis unfolding rooms_ok_def by auto
    qed
  qed
  moreover have "registered r ?s" if "ph r = Connected" "\<not> se_closed (sv_sessions s r)" for r
  proof -
    have "registered r s" using inv running that by (simp add: server_inv_def)
    with live [OF that this] show ?thesis by (auto simp: registered_def map_of_update)
  qed
  ultimately show ?thesis
    using inv running v(1) w(2) by (auto simp: server_inv_def)
qed

lemma inv_running: "server_inv ph s \<Longrightarrow> find_room rid s = Some room \<Longrightarrow> \<not> sv_stopping s"
  by (auto simp: server_inv_def find_room_def)

lemma inv_sole:
  assumes "server_inv ph s" and "find_room rid s = Some room" and "rm_screen room = Some w"
    and "map_of (sv_rooms s) rid1 = Some room1" and "rm_screen room1 = Some w"
  shows "rid1 = rid"
  using assms unfolding server_inv_def rooms_ok_def find_room_def by metis

text \<open>A room whose members stay changes, and its screen router with it.\<close>

lemma inv_update_room:
  assumes inv: "server_inv ph s" and room: "find_room rid s = Some room" and w: "rm_screen room = Some w"
    and room': "table_ok room'" "rm_screen room' = rm_screen room" "rm_sessions room' = rm_sessions room"
    and v: "screen_inv v" "granted_within (grants v) room'"
  shows "server_inv ph (replace_screen w v (put_room rid room' s))"
proof (rule inv_put_room [OF inv inv_running [OF inv room] _ _ _ room'(1) _ v])
  show "rm_screen room' = Some w" using w room' by simp
  show "w < sv_next_router s" using server_invD(3) [OF inv room] w by auto
  show "rid1 = rid" if "map_of (sv_rooms s) rid1 = Some room1" "rm_screen room1 = Some w" for rid1 room1
    using inv_sole [OF inv room w that] .
  show "refs_ok ph s rid room'" using server_invD(2) [OF inv room] room'(3) by (simp add: refs_ok_def)
  show "map_of (rm_sessions room') (se_id (sv_sessions s r)) = Some r"
    if "registered r s" "se_room (sv_sessions s r) = rid" for r
    using that room room'(3) by (auto simp: registered_def find_room_def)
qed

section \<open>Streaming and watching\<close>

lemma screen_kept: "screen_step v v' \<Longrightarrow> screen_inv v \<Longrightarrow> screen_inv v'"
  using screen_step_lawful by blast

lemma no_grant_within: "granted_within (\<lambda>_. no_grant) room"
  by (simp add: granted_within_def no_grant_def)

lemma streaming_within:
  assumes "screen_inv v" and "granted_within (grants v) room" and "set_screen_streaming e v i b = (es, v')"
  shows "screen_inv v' \<and> granted_within (grants v')
    (room\<lparr>rm_streaming := (if b then set_insert i (rm_streaming room) else set_erase i (rm_streaming room))\<rparr>)"
proof (cases "sr_closed v")
  case True
  then have "v' = v" using assms(3) by (simp add: set_screen_streaming_def)
  with assms(1) grants_closed [OF assms(1) True] show ?thesis by (simp add: no_grant_within)
next
  case False
  from grants_streaming [OF assms(3) False] assms(2)
  have "granted_within (grants v')
    (room\<lparr>rm_streaming := (if b then set_insert i (rm_streaming room) else set_erase i (rm_streaming room))\<rparr>)"
    by (auto simp: granted_within_def watched_by_def)
  with screen_kept [OF screen_streaming [OF assms(3)] assms(1)] show ?thesis by blast
qed

lemma watched_by_put [simp]: "watched_by k (put_watched i ws room) = (if k = i then ws else watched_by k room)"
  by (simp add: watched_by_def put_watched_def map_of_update)

lemma watched_by_unwatch [simp]:
  "set (watched_by k (unwatch_in i q room)) = set (watched_by k room) - (if k = i then {q} else {})"
proof (cases "map_of (rm_watchers room) i")
  case None
  then show ?thesis by (auto simp: unwatch_in_def watched_by_def)
next
  case (Some ws)
  have "set ws - {q} = {}" if "set_erase q ws = []"
    using set_set_erase [of q ws] that by simp
  with Some show ?thesis
    by (auto simp: unwatch_in_def watched_by_def put_watched_def map_of_update map_of_delete split: option.splits)
qed

lemma watching_within:
  assumes "screen_inv v" and "granted_within (grants v) room" and "set_screen_watching e v i q b = (es, v')"
    and "rm_streaming room' = rm_streaming room"
    and "\<And>k. set (watched_by k room') =
      (if k = i then (if b then insert q (set (watched_by k room)) else set (watched_by k room) - {q})
       else set (watched_by k room))"
    and "\<not> b \<and> i = q \<longrightarrow> q \<notin> set (watched_by i room)"
  shows "screen_inv v' \<and> granted_within (grants v') room'"
proof (cases "sr_closed v \<or> i = q")
  case True
  then have v': "v' = v" using assms(3) by (auto simp: set_screen_watching_def)
  show ?thesis
  proof (cases "sr_closed v")
    case True
    with v' assms(1) grants_closed [OF assms(1) True] show ?thesis by (simp add: no_grant_within)
  next
    case False
    with v' True assms show ?thesis by (fastforce simp: granted_within_def split: if_splits)
  qed
next
  case False
  then have alive: "\<not> sr_closed v" and ne: "i \<noteq> q" by auto
  have "granted_within (grants v') room'"
    using assms(2) by (auto simp: granted_within_def assms(4,5) grants_watching [OF assms(3) alive ne] split: if_splits)
  with screen_kept [OF screen_watching [OF assms(3)] assms(1)] show ?thesis by blast
qed

lemma table_streaming:
  assumes "table_ok room" and "b \<longrightarrow> i \<in> set (keys (rm_sessions room))"
  shows "table_ok (room\<lparr>rm_streaming := (if b then set_insert i (rm_streaming room) else set_erase i (rm_streaming room))\<rparr>)"
  using assms by (auto simp: table_ok_def Let_def)

lemma table_watch:
  assumes "table_ok room" and "i \<in> set (keys (rm_sessions room))" and "q \<in> set (keys (rm_sessions room))" and "i \<noteq> q"
    and "q \<notin> set (watched_by i room)" and "length (watched_by i room) < kScreenReceiveSlots"
  shows "table_ok (put_watched i (set_insert q (watched_by i room)) room)"
proof -
  have ws: "distinct (watched_by i room) \<and> set (watched_by i room) \<subseteq> set (keys (rm_sessions room)) - {i}"
    using assms(1) by (auto simp: table_ok_def Let_def watched_by_def dest!: map_of_SomeD split: option.splits)
  have new: "\<forall>(k, us)\<in>set (AList.update i xs m). (k, us) = (i, xs) \<or> (k, us) \<in> set m"
    for xs and m :: "(peer_id \<times> peer_id list) list"
    by (induction m) auto
  let ?ws = "set_insert q (watched_by i room)"
  define P where "P k us \<longleftrightarrow> k \<in> set (keys (rm_sessions room)) \<and> us \<noteq> [] \<and> distinct us \<and>
      set us \<subseteq> set (keys (rm_sessions room)) - {k} \<and> length us \<le> kScreenReceiveSlots" for k and us :: "peer_id list"
  have old: "\<forall>(k, us)\<in>set (rm_watchers room). P k us"
    using assms(1) by (simp add: table_ok_def Let_def P_def)
  have "P i ?ws" using ws assms(2-6) by (auto simp: set_insert_def P_def)
  with old new [of ?ws "rm_watchers room"] have "\<forall>(k, us)\<in>set (rm_watchers (put_watched i ?ws room)). P k us"
    by (auto simp: put_watched_def)
  moreover have "distinct (keys (rm_watchers (put_watched i ?ws room)))"
    using assms(1) by (simp add: table_ok_def Let_def put_watched_def distinct_update)
  ultimately show ?thesis
    using assms(1) by (simp add: table_ok_def Let_def put_watched_def P_def)
qed

lemma on_screen_inv:
  "server_inv ph (replace_screen w (snd (f (sv_screen s w))) s) \<Longrightarrow> server_inv ph (snd (on_screen env (Some w) f s))"
  using server_inv_core [OF core_screen] by blast

text \<open>A room change followed by the operation of its screen router.\<close>

lemma inv_room_op:
  assumes "server_inv ph s" and "find_room rid s = Some room"
    and "table_ok room'" "rm_screen room' = rm_screen room" "rm_sessions room' = rm_sessions room"
    and "\<And>v. screen_inv v \<Longrightarrow> granted_within (grants v) room \<Longrightarrow>
      screen_inv (snd (f v)) \<and> granted_within (grants (snd (f v))) room'"
  shows "server_inv ph (snd (on_screen env (rm_screen room) f (put_room rid room' s)))"
proof -
  obtain w where w: "rm_screen room = Some w" "granted_within (grants (sv_screen s w)) room" "screen_inv (sv_screen s w)"
    using server_invD(3) [OF assms(1,2)] by blast
  have "server_inv ph (replace_screen w (snd (f (sv_screen s w))) (put_room rid room' s))"
    using assms(6) [OF w(3,2)] by (intro inv_update_room [OF assms(1,2) w(1) assms(3-5)]) blast+
  then show ?thesis unfolding w(1) by (intro on_screen_inv) simp
qed

lemma add_streaming_inv:
  assumes inv: "server_inv ph s" and member: "\<And>room. find_room rid s = Some room \<Longrightarrow> i \<in> set (keys (rm_sessions room))"
  shows "server_inv ph (snd (add_streaming_peer env i rid s))"
proof (cases "find_room rid s")
  case None
  with inv show ?thesis by (simp add: add_streaming_peer_def)
next
  case (Some room)
  let ?room = "room\<lparr>rm_streaming := set_insert i (rm_streaming room)\<rparr>"
  let ?f = "\<lambda>v. set_screen_streaming (en_tracks env) v i True"
  have "table_ok ?room"
    using table_streaming [OF server_invD(1) [OF inv Some], of True i] member [OF Some] by simp
  moreover have "screen_inv (snd (?f v)) \<and> granted_within (grants (snd (?f v))) ?room"
    if "screen_inv v" "granted_within (grants v) room" for v
    using streaming_within [OF that, of _ i True "fst (?f v)" "snd (?f v)"] by simp
  ultimately show ?thesis using Some inv_room_op [OF inv Some, of ?room ?f] by (simp add: add_streaming_peer_def)
qed

lemma remove_streaming_inv:
  assumes inv: "server_inv ph s"
  shows "server_inv ph (snd (remove_streaming_peer env i rid s))"
proof (cases "find_room rid s")
  case None
  with inv show ?thesis by (simp add: remove_streaming_peer_def)
next
  case (Some room)
  let ?room = "room\<lparr>rm_streaming := set_erase i (rm_streaming room)\<rparr>"
  let ?f = "\<lambda>v. set_screen_streaming (en_tracks env) v i False"
  have "table_ok ?room" using table_streaming [OF server_invD(1) [OF inv Some], of False i] by simp
  moreover have "screen_inv (snd (?f v)) \<and> granted_within (grants (snd (?f v))) ?room"
    if "screen_inv v" "granted_within (grants v) room" for v
    using streaming_within [OF that, of _ i False "fst (?f v)" "snd (?f v)"] by simp
  ultimately show ?thesis using Some inv_room_op [OF inv Some, of ?room ?f] by (simp add: remove_streaming_peer_def)
qed

lemma inv_send [intro]: "server_inv ph s \<Longrightarrow> server_inv ph (session_send text r s)"
  using server_inv_core [OF core_send] by blast

lemma reject_inv: "server_inv ph s \<Longrightarrow> server_inv ph (snd (reject_watch env r q reason s))"
  by (auto simp: reject_watch_def split: option.splits)

lemma put_same_room:
  assumes "find_room rid s = Some room"
  shows "put_room rid room s = s"
proof -
  have "AList.update k v m = m" if "map_of m k = Some v" for k v and m :: "(room_id \<times> room) list"
    using that by (induction m) (auto split: if_splits)
  with assms show ?thesis by (simp add: put_room_def find_room_def)
qed

lemma put_watched_same:
  assumes "watched_by i room \<noteq> []"
  shows "put_watched i (watched_by i room) room = room"
proof -
  have "AList.update k v m = m" if "map_of m k = Some v" for k v and m :: "(peer_id \<times> peer_id list) list"
    using that by (induction m) (auto split: if_splits)
  with assms show ?thesis by (auto simp: put_watched_def watched_by_def split: option.splits)
qed

lemma add_watcher_inv:
  assumes inv: "server_inv ph s"
  shows "server_inv ph (snd (add_video_watcher env i rid q s))"
proof (cases "find_room rid s")
  case None
  with inv show ?thesis by (simp add: add_video_watcher_def)
next
  case (Some room)
  note table = server_invD(1) [OF inv Some]
  have kept: "put_room rid (put_watched i (watched_by i room) room) s = s"
    if "q \<in> set (watched_by i room) \<or> 8 \<le> length (watched_by i room)"
  proof -
    have "watched_by i room \<noteq> []" using that by auto
    from put_same_room [OF Some] put_watched_same [OF this] show ?thesis by simp
  qed
  show ?thesis
  proof (cases "\<exists>r. map_of (rm_sessions room) i = Some r \<and> q \<in> set (keys (rm_sessions room)) \<and> i \<noteq> q \<and>
      q \<notin> set (watched_by i room) \<and> length (watched_by i room) < kScreenReceiveSlots \<and> q \<in> set (rm_streaming room)")
    case True
    let ?room = "put_watched i (set_insert q (watched_by i room)) room"
    let ?f = "\<lambda>v. set_screen_watching (en_tracks env) v i q True"
    from True have "map_of (rm_sessions room) i \<noteq> None" by blast
    then have i: "i \<in> set (keys (rm_sessions room))" by (simp only: map_of_None_keys not_not)
    have "table_ok ?room" using True by (intro table_watch [OF table i]) auto
    moreover have "screen_inv (snd (?f v)) \<and> granted_within (grants (snd (?f v))) ?room"
      if "screen_inv v" "granted_within (grants v) room" for v
      using watching_within [OF that, of _ i q True "fst (?f v)" "snd (?f v)" ?room] by (auto simp: put_watched_def [of _ _ room] watched_by_put [unfolded put_watched_def])
    ultimately have "server_inv ph (snd (on_screen env (rm_screen room) ?f (put_room rid ?room s)))"
      by (intro inv_room_op [OF inv Some]) (auto simp: put_watched_def)
    then show ?thesis using True Some by (elim exE conjE) (simp add: add_video_watcher_def Let_def)
  next
    case False
    then show ?thesis using Some inv kept reject_inv [OF inv]
      by (auto simp: add_video_watcher_def Let_def kScreenReceiveSlots_def split: option.splits)
  qed
qed

lemma table_unwatch: "table_ok room \<Longrightarrow> table_ok (unwatch_in i q room)"
proof -
  assume t: "table_ok room"
  show "table_ok (unwatch_in i q room)"
  proof (cases "map_of (rm_watchers room) i")
    case None
    with t show ?thesis by (simp add: unwatch_in_def)
  next
    case (Some ws)
    define P where "P k us \<longleftrightarrow> k \<in> set (keys (rm_sessions room)) \<and> us \<noteq> [] \<and> distinct us \<and>
      set us \<subseteq> set (keys (rm_sessions room)) - {k} \<and> length us \<le> kScreenReceiveSlots" for k and us :: "peer_id list"
    have old: "\<forall>(k, us)\<in>set (rm_watchers room). P k us" using t by (simp add: table_ok_def Let_def P_def)
    then have "P i ws" using Some by (auto dest: map_of_SomeD)
    then have mine: "P i (set_erase q ws)" if "set_erase q ws \<noteq> []"
      using that by (auto simp: P_def set_erase_def intro: order_trans [OF length_filter_le])
    have new: "\<forall>(k, us)\<in>set (AList.update i xs m). (k, us) = (i, xs) \<or> (k, us) \<in> set m"
      for xs and m :: "(peer_id \<times> peer_id list) list"
      by (induction m) auto
    have "\<forall>(k, us)\<in>set (rm_watchers (unwatch_in i q room)). P k us"
      using old mine new [of "set_erase q ws" "rm_watchers room"] Some
      by (auto simp: unwatch_in_def put_watched_def)
    moreover have "distinct (keys (rm_watchers (unwatch_in i q room)))"
      using t Some by (auto simp: unwatch_in_def put_watched_def table_ok_def Let_def distinct_update)
    moreover have "rm_sessions (unwatch_in i q room) = rm_sessions room" "rm_streaming (unwatch_in i q room) = rm_streaming room"
      using Some by (simp_all add: unwatch_in_def put_watched_def)
    ultimately show ?thesis using t by (simp add: table_ok_def Let_def P_def)
  qed
qed

lemma not_watching_self: "table_ok room \<Longrightarrow> i \<notin> set (watched_by i room)"
  by (auto simp: table_ok_def Let_def watched_by_def dest!: map_of_SomeD split: option.splits)

lemma remove_watcher_inv:
  assumes inv: "server_inv ph s"
  shows "server_inv ph (snd (remove_video_watcher env i rid q s))"
proof (cases "find_room rid s")
  case None
  with inv show ?thesis by (simp add: remove_video_watcher_def)
next
  case (Some room)
  note table = server_invD(1) [OF inv Some]
  let ?f = "\<lambda>v. set_screen_watching (en_tracks env) v i q False"
  have fields: "rm_sessions (unwatch_in i q room) = rm_sessions room" "rm_streaming (unwatch_in i q room) = rm_streaming room"
    "rm_screen (unwatch_in i q room) = rm_screen room"
    by (auto simp: unwatch_in_def put_watched_def split: option.splits)
  have "screen_inv (snd (?f v)) \<and> granted_within (grants (snd (?f v))) (unwatch_in i q room)"
    if "screen_inv v" "granted_within (grants v) room" for v
    using watching_within [OF that, of _ i q False "fst (?f v)" "snd (?f v)" "unwatch_in i q room"]
      not_watching_self [OF table] fields by auto
  then show ?thesis
    using inv_room_op [OF inv Some table_unwatch [OF table], of i q ?f] fields Some
    by (simp add: remove_video_watcher_def)
qed

section \<open>Leaving a room\<close>

lemma drop_watched_entry:
  "(k, us) \<in> set (drop_watched i m) \<longleftrightarrow> k \<noteq> i \<and> us \<noteq> [] \<and> (\<exists>ws. (k, ws) \<in> set m \<and> us = set_erase i ws)"
  by (auto simp: drop_watched_def in_set_map_vals)

lemma map_of_drop_watched:
  "map_of (drop_watched i m) k =
     (case map_of m k of None \<Rightarrow> None
      | Some ws \<Rightarrow> if k = i \<or> set_erase i ws = [] then None else Some (set_erase i ws))"
  if "distinct (keys m)"
proof -
  have f: "map_of (filter (\<lambda>(k, ws). ws \<noteq> []) m) k = (case map_of m k of None \<Rightarrow> None | Some ws \<Rightarrow> if ws = [] then None else Some ws)"
    if "distinct (keys m)" for m :: "(peer_id \<times> peer_id list) list"
    using that by (induction m) (auto split: option.splits, force+)
  have "distinct (keys (map_vals (set_erase i) (AList.delete i m)))" using that by simp
  from f [OF this] show ?thesis
    by (auto simp: drop_watched_def map_of_map_vals map_of_delete split: option.splits)
qed

lemma set_erase_empty: "set_erase x xs = [] \<longleftrightarrow> set xs \<subseteq> {x}"
  by (auto simp: set_erase_def filter_empty_conv)

lemma watched_by_leave:
  assumes "table_ok room"
  shows "set (watched_by k (leave_room i room)) = (if k = i then {} else set (watched_by k room) - {i})"
proof -
  have "distinct (keys (rm_watchers room))" using assms by (simp add: table_ok_def Let_def)
  from map_of_drop_watched [OF this, of i k] show ?thesis
    by (auto simp: watched_by_def leave_room_def set_erase_empty split: option.splits if_splits)
qed

lemma table_leave:
  assumes "table_ok room" and "rm_sessions (leave_room i room) \<noteq> []"
  shows "table_ok (leave_room i room)"
proof -
  let ?P = "set (keys (rm_sessions room))"
  have "distinct (keys (drop_watched i m))" if "distinct (keys m)" for m
    unfolding drop_watched_def by (rule distinct_map_filter) (use that in simp)
  then have "distinct (keys (rm_watchers (leave_room i room)))"
    using assms(1) by (simp add: leave_room_def table_ok_def Let_def)
  moreover have members: "set (keys (rm_sessions (leave_room i room))) = ?P - {i}"
    by (auto simp: leave_room_def keys_delete simp del: set_map)
  moreover have "k \<in> ?P - {i} \<and> us \<noteq> [] \<and> distinct us \<and> set us \<subseteq> ?P - {i} - {k} \<and> length us \<le> kScreenReceiveSlots"
    if entry: "(k, us) \<in> set (rm_watchers (leave_room i room))" for k us
  proof -
    obtain ws where ws: "(k, ws) \<in> set (rm_watchers room)" "us = set_erase i ws" "k \<noteq> i" "us \<noteq> []"
      using entry by (auto simp: leave_room_def drop_watched_entry)
    have "k \<in> ?P \<and> distinct ws \<and> set ws \<subseteq> ?P - {k} \<and> length ws \<le> kScreenReceiveSlots"
      using assms(1) ws(1) by (auto simp: table_ok_def Let_def)
    moreover have "length us \<le> length ws" by (simp add: ws(2) set_erase_def)
    moreover have "set us = set ws - {i}" by (simp add: ws(2))
    ultimately show ?thesis using ws distinct_set_erase [of ws i] by auto
  qed
  moreover have "distinct (keys (rm_sessions (leave_room i room)))" "distinct (rm_streaming (leave_room i room))"
    "set (rm_streaming (leave_room i room)) \<subseteq> ?P - {i}"
    using assms(1) by (auto simp: leave_room_def table_ok_def Let_def)
  ultimately show ?thesis using assms(2) unfolding table_ok_def Let_def members by blast
qed

lemma removed_within:
  assumes "table_ok room" and "screen_inv v" and "granted_within (grants v) room"
    and "remove_screen_peer e v i = (es, v')"
  shows "screen_inv v' \<and> granted_within (grants v') (leave_room i room) \<and>
    (\<forall>k. \<not> fst (grants v' i) \<and> snd (grants v' i) = {} \<and> i \<notin> snd (grants v' k))"
proof (cases "sr_closed v")
  case True
  then have "v' = v" using assms(4) by (simp add: remove_screen_peer_def)
  with assms(2) grants_closed [OF assms(2) True] show ?thesis by (simp add: no_grant_within) (simp add: no_grant_def)
next
  case False
  have "granted_within (grants v') (leave_room i room)"
    using assms(3) unfolding granted_within_def grants_remove [OF assms(4) False] watched_by_leave [OF assms(1)]
    by (auto simp: no_grant_def leave_room_def)
  moreover have "screen_inv v'" by (rule screen_kept [OF screen_remove [OF assms(4)] assms(2)])
  ultimately show ?thesis by (auto simp: grants_remove [OF assms(4) False] no_grant_def)
qed

text \<open>The state after the critical section and the removal from the screen router.\<close>

lemma inv_leave:
  assumes inv: "server_inv ph s" and room: "find_room rid s = Some room" and w: "rm_screen room = Some w"
    and gone: "\<And>r. map_of (rm_sessions room) i = Some r \<Longrightarrow> se_closed (sv_sessions s r) \<or> ph r \<noteq> Connected"
    and remove: "remove_screen_peer e (sv_screen s w) i = (es, v)"
  shows "server_inv ph (replace_screen w v
    (if rm_sessions (leave_room i room) = [] then drop_room rid s else put_room rid (leave_room i room) s))"
proof -
  note table = server_invD(1) [OF inv room] and refs = server_invD(2) [OF inv room]
  have within: "granted_within (grants (sv_screen s w)) room" "screen_inv (sv_screen s w)" and w_lt: "w < sv_next_router s"
    using server_invD(3) [OF inv room] w by auto
  note removed = removed_within [OF table within(2,1) remove]
  have sole: "rid1 = rid" if "map_of (sv_rooms s) rid1 = Some room1" "rm_screen room1 = Some w" for rid1 room1
    using inv_sole [OF inv room w that] .
  have keep: "map_of (rm_sessions (leave_room i room)) (se_id (sv_sessions s r)) = Some r"
    if "ph r = Connected" "\<not> se_closed (sv_sessions s r)" "registered r s" "se_room (sv_sessions s r) = rid" for r
  proof -
    have "map_of (rm_sessions room) (se_id (sv_sessions s r)) = Some r"
      using that room by (auto simp: registered_def find_room_def)
    moreover from this gone that(1,2) have "se_id (sv_sessions s r) \<noteq> i" by auto
    ultimately show ?thesis by (simp add: leave_room_def map_of_delete)
  qed
  show ?thesis
  proof (cases "rm_sessions (leave_room i room) = []")
    case False
    have refs': "refs_ok ph s rid (leave_room i room)" using refs by (auto simp: refs_ok_def leave_room_def)
    have w': "rm_screen (leave_room i room) = Some w" using w by (simp add: leave_room_def)
    have "server_inv ph (replace_screen w v (put_room rid (leave_room i room) s))"
      by (rule inv_put_room [OF inv inv_running [OF inv room] w' w_lt _ table_leave [OF table False] refs'])
        (use removed keep sole in blast)+
    with False show ?thesis by simp
  next
    case True
    let ?s = "replace_screen w v (drop_room rid s)"
    have rooms: "map_of (sv_rooms ?s) = (map_of (sv_rooms s))(rid := None)"
      by (simp add: fun_eq_iff map_of_delete)
    have ok: "rooms_ok ph s" using inv by (simp add: server_inv_def)
    have fields: "sv_next_session ?s = sv_next_session s" "sv_next_router ?s = sv_next_router s" "sv_sessions ?s = sv_sessions s"
      "sv_stopping ?s = sv_stopping s" "sv_screen ?s = (sv_screen s)(w := v)"
      by simp_all
    have "table_ok room1 \<and> refs_ok ph ?s rid1 room1 \<and> router_ok ?s room1"
      if r: "map_of (sv_rooms s) rid1 = Some room1" "rid1 \<noteq> rid" for rid1 room1
    proof -
      have "rm_screen room1 \<noteq> Some w" using sole r by blast
      moreover have "table_ok room1" "refs_ok ph s rid1 room1" "router_ok s room1"
        using ok r(1) unfolding rooms_ok_def by blast+
      ultimately show ?thesis by (auto simp: router_ok_def refs_ok_def fields split: option.splits)
    qed
    moreover have "distinct (keys (sv_rooms ?s))" using ok by (simp add: rooms_ok_def)
    ultimately have "rooms_ok ph ?s"
      using ok unfolding rooms_ok_def rooms by (auto split: if_splits)
    moreover have "registered r ?s" if "ph r = Connected" "\<not> se_closed (sv_sessions s r)" for r
    proof -
      have reg: "registered r s" using inv inv_running [OF inv room] that by (simp add: server_inv_def)
      have "se_room (sv_sessions s r) \<noteq> rid" using keep [OF that reg] True by auto
      with reg show ?thesis unfolding registered_def rooms fields by auto
    qed
    ultimately have "server_inv ph ?s"
      using inv removed w_lt inv_running [OF inv room] unfolding server_inv_def by (simp add: fields)
    with True show ?thesis by simp
  qed
qed

lemma core_farewell: "core (snd (farewell env i was remaining s)) = core s"
  by (auto simp: farewell_def core_send_all split: option.splits)

lemma and_then_Some:
  assumes "and_then x f = (Some r, s')"
  obtains a s1 where "x = (Some a, s1)" "f s1 = (Some r, s')"
  using assms by (auto simp: and_then_def split: prod.splits option.splits)

lemma snd_eq: "x = (a, b) \<Longrightarrow> b = snd x" by simp

lemma unregister_inv:
  assumes inv: "server_inv ph s" and run: "unregister_session env i rid s = (Some (), s')"
    and gone: "\<And>room r. find_room rid s = Some room \<Longrightarrow> map_of (rm_sessions room) i = Some r \<Longrightarrow>
      se_closed (sv_sessions s r) \<or> ph r \<noteq> Connected"
  shows "server_inv ph s'"
proof (cases "\<exists>room. find_room rid s = Some room \<and> i \<in> set (keys (rm_sessions room))")
  case False
  with run have "s' = s" by (auto simp: unregister_session_def split: option.splits if_splits)
  with inv show ?thesis by simp
next
  case True
  then obtain room where room: "find_room rid s = Some room" and i: "i \<in> set (keys (rm_sessions room))" by blast
  obtain w where w: "rm_screen room = Some w" using server_invD(3) [OF inv room] by blast
  let ?s1 = "if rm_sessions (leave_room i room) = [] then drop_room rid s else put_room rid (leave_room i room) s"
  let ?f = "\<lambda>v. remove_screen_peer (en_tracks env) v i"
  obtain s2 s3 a b where s2: "on_voice env (rm_voice room) (\<lambda>v. remove_voice_peer (en_tracks env) v i) ?s1 = (Some a, s2)"
    and s3: "on_screen env (Some w) ?f s2 = (Some b, s3)"
    and s': "farewell env i (i \<in> set (rm_streaming room)) (map snd (rm_sessions (leave_room i room))) s3 = (Some (), s')"
    using run i by (simp add: unregister_session_def room w Let_def) (auto elim!: and_then_Some)
  have c2: "core s2 = core ?s1" using core_voice [of env "rm_voice room" _ ?s1] s2 by (metis snd_conv)
  have "sv_screen ?s1 = sv_screen s" by simp
  then have screen: "sv_screen s2 w = sv_screen s w" using coreD(5) [OF c2] by simp
  have "core s' = core s3" using core_farewell snd_eq [OF s'] by metis
  also have "core s3 = core (replace_screen w (snd (?f (sv_screen s2 w))) s2)"
    using core_screen snd_eq [OF s3] by metis
  also have "\<dots> = core (replace_screen w (snd (?f (sv_screen s w))) ?s1)"
    unfolding screen by (rule core_replace [OF c2])
  finally have "core s' = \<dots>" .
  moreover have "server_inv ph (replace_screen w (snd (?f (sv_screen s w))) ?s1)"
    using inv_leave [OF inv room w gone [OF room], of i "en_tracks env"] by (metis surjective_pairing)
  ultimately show ?thesis using server_inv_core by blast
qed

end
