(* ===== verification/Ws_Reachable.thy ===== *)
theory Ws_Reachable
  imports Ws_Access
begin

text \<open>
  Every step of the signaling server keeps the invariant of \<open>Ws_Access\<close>; what follows for the
  reachable servers.
\<close>

section \<open>Handlers that do not touch rooms or screen routers\<close>

lemma core_close_media: "core (close_session_media r s) = core s"
proof -
  have "core (update_session r (\<lambda>x. x\<lparr>se_media := None\<rparr>) s) = core s" by (rule core_session) simp
  then show ?thesis
    by (simp add: close_session_media_def core_fold core_log split: option.splits)
qed

lemma core_on_media: "core (on_media r f s) = core s"
proof -
  have "core (update_session r (\<lambda>x. x\<lparr>se_media := m\<rparr>) s) = core s" for m by (rule core_session) simp
  then show ?thesis
    by (simp add: on_media_def core_fold core_log prod.case_eq_if split: option.splits)
qed

lemma core_writer: "core (update_session r (\<lambda>x. x\<lparr>se_writer := f x\<rparr>) s) = core s"
  by (rule core_session) simp

lemma core_username: "core (update_session r (\<lambda>x. x\<lparr>se_username := f x\<rparr>) s) = core s"
  by (rule core_session) simp

lemma core_do_write: "core (session_do_write r s) = core s"
  unfolding session_do_write_def by (rule core_writer)

lemma core_replace_voice: "core (replace_voice w v s) = core s"
  by (simp add: core_def replace_voice_def)

lemma core_voice_track: "core (snd (add_voice_track env router owner track send s)) = core s"
proof (cases router)
  case (Some r)
  have "core (s\<lparr>sv_voice := h, sv_ssrc := c\<rparr>) = core s" for h c by (simp add: core_def)
  with Some show ?thesis by (simp add: add_voice_track_def prod.case_eq_if Let_def core_deliver)
qed (simp add: add_voice_track_def)

lemma core_snapshot: "core (snd (send_snapshot env r path s)) = core s"
  by (simp add: send_snapshot_def core_log split: option.splits)

lemma core_user: "core (snd (user_authorized env r path i s)) = core s"
  by (simp add: user_authorized_def core_log core_snapshot split: option.splits)

lemma core_channel: "core (snd (channel_authorized r i s)) = core s"
  by (simp add: channel_authorized_def core_log core_username split: option.splits)

lemma core_with_authorization:
  "(\<And>i s. core (snd (callback i s)) = core s) \<Longrightarrow> core (snd (with_authorization r result callback s)) = core s"
  by (simp add: with_authorization_def core_log split: prod.splits option.splits)

lemma core_http: "core (snd (handle_http_request env r req s)) = core s"
  by (simp add: handle_http_request_def Let_def core_log core_snapshot core_user core_with_authorization split: option.splits)

lemma core_announce: "core (snd (announce env r msg s)) = core s"
  by (simp add: announce_def broadcast_def core_send_all split: option.splits)

lemma inv_core: "server_inv ph s \<Longrightarrow> core s' = core s \<Longrightarrow> server_inv ph s'"
  using server_inv_core by blast

section \<open>Phases and sessions outside rooms\<close>

lemma member_phase:
  assumes "server_inv ph s" and "map_of (sv_rooms s) rid = Some room" and "(i, r) \<in> set (rm_sessions room)"
  shows "ph r \<in> {Connected, Over}" "r < sv_next_session s" "se_id (sv_sessions s r) = i" "se_room (sv_sessions s r) = rid"
  using assms unfolding server_inv_def rooms_ok_def refs_ok_def by blast+

text \<open>A session that is in no room changes its phase, its room or its state.\<close>

lemma inv_outside:
  assumes inv: "server_inv ph s" and r: "ph r \<notin> {Connected, Unborn}"
    and p: "p \<notin> {Connected, Unborn}"
    and away: "p = Over \<or> ph r \<noteq> Over"
    and f: "\<And>x. se_id (f x) = se_id x" "\<And>x. ph r = Over \<Longrightarrow> se_room (f x) = se_room x"
  shows "server_inv (ph(r := p)) (update_session r f s)"
proof -
  let ?s = "update_session r f s" and ?ph = "ph(r := p)"
  have fields: "sv_stopping ?s = sv_stopping s" "sv_rooms ?s = sv_rooms s" "sv_next_session ?s = sv_next_session s"
    "sv_next_router ?s = sv_next_router s" "sv_screen ?s = sv_screen s"
    and ids: "\<And>q. se_id (sv_sessions ?s q) = se_id (sv_sessions s q)"
    and other: "\<And>q. q \<noteq> r \<Longrightarrow> sv_sessions ?s q = sv_sessions s q"
    using f by (auto simp: update_session_def)
  have refs: "refs_ok ?ph ?s rid room" if "map_of (sv_rooms s) rid = Some room" for rid room
  proof -
    have "q < sv_next_session ?s \<and> se_id (sv_sessions ?s q) = i \<and> se_room (sv_sessions ?s q) = rid \<and> ?ph q \<in> {Connected, Over}"
      if q: "(i, q) \<in> set (rm_sessions room)" for i q
    proof -
      note m = member_phase [OF inv \<open>map_of (sv_rooms s) rid = Some room\<close> q]
      have "se_room (sv_sessions ?s q) = rid" using m r f(2) by (cases "q = r") (auto simp: other update_session_def)
      moreover have "?ph q \<in> {Connected, Over}" using m r away by (cases "q = r") auto
      ultimately show ?thesis using m by (simp add: fields ids)
    qed
    then show ?thesis unfolding refs_ok_def by blast
  qed
  have "rooms_ok ?ph ?s"
    using inv refs unfolding server_inv_def rooms_ok_def router_ok_def fields by (simp cong: option.case_cong)
  moreover have "registered q ?s" if "?ph q = Connected" "\<not> se_closed (sv_sessions ?s q)" "\<not> sv_stopping s" for q
  proof -
    have "q \<noteq> r" using that p by auto
    with that inv show ?thesis by (simp add: server_inv_def registered_def fields other)
  qed
  ultimately show ?thesis
    using inv r p unfolding server_inv_def fields ids by (auto simp: fields)
qed

lemma inv_phase:
  assumes "server_inv ph s" and "ph r \<notin> {Connected, Unborn}" and "p \<notin> {Connected, Unborn}" and "p = Over \<or> ph r \<noteq> Over"
  shows "server_inv (ph(r := p)) s"
  using inv_outside [OF assms, of id] by (simp add: update_session_def)

lemma unborn_kept:
  "server_inv ph s \<Longrightarrow> ph r \<noteq> Unborn \<Longrightarrow> p \<noteq> Unborn \<Longrightarrow> (ph(r := p)) q = Unborn \<longleftrightarrow> sv_next_session s \<le> q"
  unfolding server_inv_def by (cases "q = r") auto

lemma rooms_ok_phase:
  assumes "\<And>q. ph q \<in> {Connected, Over} \<Longrightarrow> ph' q \<in> {Connected, Over}" and "rooms_ok ph s"
  shows "rooms_ok ph' s"
proof -
  have "refs_ok ph s rid room \<Longrightarrow> refs_ok ph' s rid room" for rid room
    using assms(1) unfolding refs_ok_def by fast
  with assms(2) show ?thesis unfolding rooms_ok_def by blast
qed

lemma inv_rooms: "server_inv ph s \<Longrightarrow> rooms_ok ph s"
  unfolding server_inv_def by blast

lemma inv_phases:
  assumes "server_inv ph s" and "rooms_ok ph' s" and "\<And>q. ph' q = Unborn \<longleftrightarrow> sv_next_session s \<le> q"
    and "\<And>q. ph' q = Connected \<Longrightarrow> ph q = Connected \<or> registered q s"
  shows "server_inv ph' s"
  using assms unfolding server_inv_def by blast

lemma inv_read_over:
  assumes "server_inv ph s" and "ph r = Connected"
  shows "server_inv (ph(r := Over)) s"
proof (rule inv_phases [OF assms(1)])
  show "rooms_ok (ph(r := Over)) s" by (rule rooms_ok_phase [OF _ inv_rooms [OF assms(1)]]) simp
  show "(ph(r := Over)) q = Unborn \<longleftrightarrow> sv_next_session s \<le> q" for q
    by (rule unborn_kept [OF assms(1)]) (use assms(2) in simp_all)
  show "ph q = Connected \<or> registered q s" if "(ph(r := Over)) q = Connected" for q
    using that by (simp split: if_splits)
qed

lemma inv_connect:
  assumes "server_inv ph s" and "ph r = Over" and "registered r s"
  shows "server_inv (ph(r := Connected)) s"
proof (rule inv_phases [OF assms(1)])
  show "rooms_ok (ph(r := Connected)) s" by (rule rooms_ok_phase [OF _ inv_rooms [OF assms(1)]]) simp
  show "(ph(r := Connected)) q = Unborn \<longleftrightarrow> sv_next_session s \<le> q" for q
    by (rule unborn_kept [OF assms(1)]) (use assms(2) in simp_all)
  show "ph q = Connected \<or> registered q s" if "(ph(r := Connected)) q = Connected" for q
    using that assms(3) by (simp split: if_splits)
qed

lemma inv_close_flag:
  assumes inv: "server_inv ph s"
  shows "server_inv ph (update_session r (\<lambda>x. x\<lparr>se_closed := True\<rparr>) s)"
proof -
  let ?s = "update_session r (\<lambda>x. x\<lparr>se_closed := True\<rparr>) s"
  have fields: "sv_stopping ?s = sv_stopping s" "sv_rooms ?s = sv_rooms s" "sv_next_session ?s = sv_next_session s"
    "sv_next_router ?s = sv_next_router s" "sv_screen ?s = sv_screen s"
    and same: "\<And>q. se_id (sv_sessions ?s q) = se_id (sv_sessions s q)" "\<And>q. se_room (sv_sessions ?s q) = se_room (sv_sessions s q)"
    and flag: "\<And>q. se_closed (sv_sessions ?s q) \<longleftrightarrow> q = r \<or> se_closed (sv_sessions s q)"
    by (auto simp: update_session_def)
  have "rooms_ok ph ?s = rooms_ok ph s"
    unfolding rooms_ok_def refs_ok_def router_ok_def fields same by (simp cong: option.case_cong)
  moreover have "registered q ?s = registered q s" for q by (simp add: registered_def fields same)
  ultimately show ?thesis using inv unfolding server_inv_def fields same flag by auto
qed

section \<open>Messages\<close>

lemma and_then_inv:
  assumes "and_then x f = (Some a, s')" and "server_inv ph (snd x)"
    and "\<And>b s1. x = (Some b, s1) \<Longrightarrow> server_inv ph s1 \<Longrightarrow> f s1 = (Some a, s') \<Longrightarrow> server_inv ph s'"
  shows "server_inv ph s'"
  using assms(1)
proof (rule and_then_Some)
  fix b s1 assume "x = (Some b, s1)" "f s1 = (Some a, s')"
  with assms(2,3) show ?thesis by simp
qed

lemma inv_announce:
  assumes "and_then x (announce env r msg) = (Some a, s')" and "server_inv ph (snd x)"
  shows "server_inv ph s'"
  using assms
proof (rule and_then_inv)
  fix b s1 assume "server_inv ph s1" "announce env r msg s1 = (Some a, s')"
  then show ?thesis using inv_core core_announce by (metis snd_conv)
qed

lemma registered_member:
  assumes "registered r s" and "find_room (se_room (sv_sessions s r)) s = Some room"
  shows "se_id (sv_sessions s r) \<in> set (keys (rm_sessions room))"
proof -
  have "map_of (rm_sessions room) (se_id (sv_sessions s r)) = Some r"
    using assms by (auto simp: registered_def find_room_def)
  then show ?thesis by (metis map_of_None_keys option.distinct(1))
qed

lemma handle_message_inv:
  assumes inv: "server_inv ph s" and r: "ph r = Connected" "\<not> se_closed (sv_sessions s r)"
    and run: "handle_message env r msg s = (Some (), s')"
  shows "server_inv ph s'"
proof -
  have member: "se_id (sv_sessions s r) \<in> set (keys (rm_sessions room))"
    if "find_room (se_room (sv_sessions s r)) s = Some room" for room
  proof -
    have "registered r s" using inv r inv_running [OF inv that] unfolding server_inv_def by blast
    from registered_member [OF this that] show ?thesis .
  qed
  show ?thesis
  proof (cases "(env, r, msg, s)" rule: handle_message.cases)
    case (1 env r sdp c s)
    with run inv show ?thesis using inv_core core_on_media by auto
  next
    case (2 env r candidate mid c s)
    with run inv show ?thesis using inv_core core_on_media by auto
  next
    case 3
    with run add_streaming_inv [OF inv member] show ?thesis by (auto intro: inv_announce)
  next
    case 4
    with run remove_streaming_inv [OF inv] show ?thesis by (auto intro: inv_announce)
  next
    case 5
    with run add_watcher_inv [OF inv] show ?thesis by (metis handle_message.simps(5) prod.inject snd_conv)
  next
    case 6
    with run remove_watcher_inv [OF inv] show ?thesis by (metis handle_message.simps(6) prod.inject snd_conv)
  qed (use run inv in auto)
qed

lemma on_close_inv:
  assumes inv: "server_inv ph s" and run: "on_close env r s = (Some (), s')" and r: "ph r \<in> {Connected, Over}"
  shows "server_inv ph s'"
proof (cases "se_closed (sv_sessions s r)")
  case True
  with run inv show ?thesis by (simp add: on_close_def)
next
  case False
  let ?s1 = "update_session r (\<lambda>x. x\<lparr>se_closed := True\<rparr>) s"
  let ?s2 = "update_session r (\<lambda>x. x\<lparr>se_writer := close_writer (se_writer x)\<rparr>) (close_session_media r ?s1)"
  have core: "core ?s2 = core ?s1" by (simp add: core_writer core_close_media)
  have inv2: "server_inv ph ?s2" using inv_core [OF inv_close_flag [OF inv] core] .
  have closed: "se_closed (sv_sessions ?s2 r)" using coreD(8) [OF core, of r] by (simp add: update_session_def)
  have id: "se_id (sv_sessions ?s2 r) = se_id (sv_sessions s r)"
    using coreD(6) [OF core, of r] by (simp add: update_session_def)
  have run2: "unregister_session env (se_id (sv_sessions s r)) (se_room (sv_sessions s r)) ?s2 = (Some (), s')"
    using run False by (simp add: on_close_def)
  show ?thesis
  proof (rule unregister_inv [OF inv2 run2])
    fix room q
    assume room: "find_room (se_room (sv_sessions s r)) ?s2 = Some room"
      and q: "map_of (rm_sessions room) (se_id (sv_sessions s r)) = Some q"
    have "(se_id (sv_sessions s r), q) \<in> set (rm_sessions room)" using q by (rule map_of_SomeD)
    then have "q < sv_next_session ?s2" "se_id (sv_sessions ?s2 q) = se_id (sv_sessions ?s2 r)"
      using member_phase [OF inv2 room [unfolded find_room_def]] id by auto
    moreover have "ph r = Unborn \<longleftrightarrow> sv_next_session ?s2 \<le> r" using inv2 unfolding server_inv_def by blast
    then have "r < sv_next_session ?s2" using r by auto
    ultimately have "q = r" using inv2 unfolding server_inv_def inj_on_def by blast
    with closed show "se_closed (sv_sessions ?s2 q) \<or> ph q \<noteq> Connected" by simp
  qed
qed

lemma on_message_inv:
  assumes "server_inv ph s" and "ph r = Connected" and "\<not> se_closed (sv_sessions s r)"
    and run: "on_read env False raw r s = (Some (), s')"
  shows "server_inv ph s'"
proof (cases "parse_message (en_parse env) raw")
  case (Inl e)
  with run have "core s' = core s" by (auto simp: on_read_def core_log)
  with assms(1) show ?thesis by (rule inv_core)
next
  case (Inr msg)
  then have run2: "and_then (handle_message env r msg s) (\<lambda>s1. (Some (), log_call (ReadMessage r) s1)) = (Some (), s')"
    using run by (simp add: on_read_def)
  then show ?thesis
  proof (rule and_then_Some)
    fix b s1
    assume "handle_message env r msg s = (Some b, s1)" "(Some (), log_call (ReadMessage r) s1) = (Some (), s')"
    then have "server_inv ph s1" "core s' = core s1" using handle_message_inv [OF assms(1-3)] by (auto simp: core_log)
    then show ?thesis by (rule inv_core)
  qed
qed

section \<open>Tracks, packets, configuration\<close>

lemma screen_track_step:
  assumes "register_screen_track e counter v owner track send = (es, counter', v')" and "screen_inv v"
  shows "screen_inv v'"
proof -
  have commit: "screen_inv v''" if "register_screen_output e counter v owner t video send = (es, counter', v'')" for t video v''
  proof -
    obtain r counter1 v1 where v1: "register_screen_output_begin e counter v owner t video send = (r, counter1, v1)"
      by (metis prod_cases3)
    have inv1: "screen_inv v1" by (rule screen_kept [OF screen_output_begin [OF v1] assms(2)])
    obtain assigned v2 where v2: "register_screen_output_commit e v1 owner t video (te_mid e t) = (assigned, v2)"
      by (metis surj_pair)
    have inv2: "screen_inv v2" by (rule screen_kept [OF screen_output_commit [OF v2] inv1])
    show ?thesis
      using that v1 v2 inv1 screen_kept [OF screen_publish inv2]
      by (auto simp: register_screen_output_def Let_def split: option.splits prod.splits)
  qed
  show ?thesis
    using assms commit screen_kept [OF screen_input assms(2)]
    by (auto simp: register_screen_track_def Let_def split: option.splits if_splits direction.splits prod.splits)
qed

lemma screen_track_inv:
  assumes inv: "server_inv ph s" and run: "add_screen_track env router owner track send s = (Some (), s')"
  shows "server_inv ph s'"
proof (cases router)
  case None
  with run inv show ?thesis by (simp add: add_screen_track_def)
next
  case (Some w)
  obtain es counter v where reg: "register_screen_track (en_tracks env) (sv_ssrc s) (sv_screen s w) owner track send = (es, counter, v)"
    by (metis prod_cases3)
  have "screen_inv v" using screen_track_step [OF reg] inv unfolding server_inv_def by blast
  then have "server_inv ph (replace_screen w v s)"
    using grants_register_track [OF reg] by (intro inv_same_grants [OF inv])
  moreover have "core s' = core (replace_screen w v s)"
  proof -
    have "deliver env Screen es (s\<lparr>sv_screen := (sv_screen s)(w := v), sv_ssrc := counter\<rparr>) = (Some (), s')"
      using run reg Some by (simp add: add_screen_track_def)
    then have "core s' = core (s\<lparr>sv_screen := (sv_screen s)(w := v), sv_ssrc := counter\<rparr>)"
      using core_deliver by (metis snd_conv)
    then show ?thesis by (simp add: core_def replace_screen_def)
  qed
  ultimately show ?thesis by (rule inv_core)
qed

lemma packet_grants:
  assumes "screen_packet_step v v'"
  shows "screen_step v v'" "grants v' = grants v"
  using assms
  by (induction rule: screen_packet_step.induct)
    (auto intro: screen_step.intros dest: grants_route grants_flush grants_forward grants_send grants_keyframe)

lemma packet_inv:
  assumes "server_inv ph s" and "screen_packet_step (sv_screen s w) v"
  shows "server_inv ph (replace_screen w v s)"
proof -
  have "screen_inv (sv_screen s w)" using assms(1) unfolding server_inv_def by blast
  from screen_kept [OF packet_grants(1) [OF assms(2)] this] packet_grants(2) [OF assms(2)]
  show ?thesis by (rule inv_same_grants [OF assms(1)])
qed

lemma configure_inv:
  assumes "server_inv ph s"
  shows "server_inv ph (configure_room config room s)"
proof (cases "rm_screen room")
  case None
  then have "core (configure_room config room s) = core s" by (simp add: core_def configure_room_def)
  with assms show ?thesis by (rule inv_core)
next
  case (Some w)
  let ?v = "update_screen_fault_config config (sv_screen s w)"
  have "screen_inv (sv_screen s w)" using assms unfolding server_inv_def by blast
  then have "screen_inv ?v" by (rule screen_kept [OF screen_config])
  then have "server_inv ph (replace_screen w ?v s)"
    by (rule inv_same_grants [OF assms]) (simp add: update_screen_fault_config_def)
  moreover have "core (configure_room config room s) = core (replace_screen w ?v s)"
    using Some by (simp add: core_def configure_room_def replace_screen_def)
  ultimately show ?thesis by (rule inv_core)
qed

lemma config_inv:
  assumes "server_inv ph s"
  shows "server_inv ph (update_fault_config config s)"
proof -
  have "server_inv ph (fold (\<lambda>(k, room). configure_room config room) xs t)" if "server_inv ph t" for xs t
    using that configure_inv by (induction xs arbitrary: t) auto
  moreover have "core (s\<lparr>sv_fault_config := config\<rparr>) = core s" by (simp add: core_def)
  with assms have "server_inv ph (s\<lparr>sv_fault_config := config\<rparr>)" by (rule inv_core)
  ultimately show ?thesis by (simp add: update_fault_config_def)
qed

section \<open>Connecting, joining, stopping\<close>

lemma connection_inv:
  assumes inv: "server_inv ph s"
    and fresh: "\<forall>r < sv_next_session s. se_id (sv_sessions s r) \<noteq> generate_id random"
  shows "server_inv (if ec then ph else ph(sv_next_session s := Requesting)) (on_connection ec random acc s)"
proof (cases ec)
  case True
  then have "core (on_connection ec random acc s) = core s" by (simp add: on_connection_def core_log Let_def)
  with inv True show ?thesis by (simp add: inv_core)
next
  case False
  let ?n = "sv_next_session s"
  let ?ph = "ph(?n := Requesting)"
  let ?s = "s\<lparr>sv_sessions := (sv_sessions s)(?n := new_session (generate_id random)), sv_next_session := Suc ?n\<rparr>"
  have refs: "refs_ok ?ph ?s rid room" if "map_of (sv_rooms s) rid = Some room" for rid room
  proof -
    have "q < sv_next_session ?s \<and> se_id (sv_sessions ?s q) = i \<and> se_room (sv_sessions ?s q) = rid \<and> ?ph q \<in> {Connected, Over}"
      if "(i, q) \<in> set (rm_sessions room)" for i q
      using member_phase [OF inv \<open>map_of (sv_rooms s) rid = Some room\<close> that] by auto
    then show ?thesis unfolding refs_ok_def by blast
  qed
  have "rooms_ok ?ph ?s"
    using inv_rooms [OF inv] refs unfolding rooms_ok_def by (simp add: router_ok_def cong: option.case_cong)
  moreover have "inj_on (\<lambda>r. se_id (sv_sessions ?s r)) {..<Suc ?n}"
  proof -
    have "inj_on (\<lambda>r. se_id (sv_sessions s r)) {..<?n}" using inv unfolding server_inv_def by blast
    then show ?thesis using fresh by (auto simp: lessThan_Suc inj_on_def new_session_def)
  qed
  moreover have "registered q ?s" if q: "?ph q = Connected" "\<not> se_closed (sv_sessions ?s q)" "\<not> sv_stopping s" for q
  proof -
    have "q \<noteq> ?n" using q(1) by auto
    moreover have "registered q s" using inv q \<open>q \<noteq> ?n\<close> unfolding server_inv_def by (auto split: if_splits)
    ultimately show ?thesis by (simp add: registered_def)
  qed
  moreover have "?ph q = Unborn \<longleftrightarrow> Suc ?n \<le> q" for q
  proof -
    have "ph q = Unborn \<longleftrightarrow> ?n \<le> q" using inv unfolding server_inv_def by blast
    then show ?thesis by auto
  qed
  ultimately have "server_inv ?ph ?s" using inv unfolding server_inv_def by simp
  moreover have "core (on_connection ec random acc s) = core ?s"
    using False by (simp add: on_connection_def core_log Let_def)
  ultimately show ?thesis using False by (simp add: inv_core)
qed

lemma request_inv:
  assumes inv: "server_inv ph s" and r: "ph r = Requesting" and run: "on_http_read env ec req r s = (Some (), s')"
    and p: "p \<in> {Deciding, Accepting, Over}"
  shows "server_inv (ph(r := p)) s'"
proof (cases "ec \<or> \<not> rq_upgrade req")
  case True
  have "s' = s \<or> s' = snd (handle_http_request env r req s)"
    using True run by (cases ec) (simp_all add: on_http_read_def)
  then have "core s' = core s" using core_http by metis
  moreover have "server_inv (ph(r := p)) s" using inv_phase [OF inv, of r p] r p by auto
  ultimately show ?thesis using inv_core by blast
next
  case False
  let ?s1 = "update_session r (\<lambda>x. x\<lparr>se_room := parse_room_id (rq_target req)\<rparr>) s"
  have "core s' = core ?s1"
  proof (cases "sv_authenticator ?s1")
    case None
    then show ?thesis using False run by (auto simp: on_http_read_def Let_def core_log core_username)
  next
    case (Some address)
    then have "s' = snd (with_authorization r
       (authorize_channel address (bearer_token (rq_authorization req) (rq_target req)) (parse_room_id (rq_target req)) True)
       (channel_authorized r) ?s1)"
      using False run by (simp add: on_http_read_def Let_def)
    then show ?thesis using core_with_authorization core_channel by metis
  qed
  moreover have "server_inv (ph(r := p)) ?s1" using inv_outside [OF inv, of r p] r p by auto
  ultimately show ?thesis using inv_core by blast
qed

lemma inv_more_routers:
  assumes inv: "server_inv ph s"
    and t: "sv_rooms t = sv_rooms s" "sv_sessions t = sv_sessions s" "sv_next_session t = sv_next_session s"
      "sv_stopping t = sv_stopping s" "sv_next_router s \<le> sv_next_router t"
    and same: "\<And>w. w < sv_next_router s \<Longrightarrow> sv_screen t w = sv_screen s w"
    and new: "\<And>w. screen_inv (sv_screen t w)" "\<And>w. sv_next_router s \<le> w \<Longrightarrow> grants (sv_screen t w) = (\<lambda>_. no_grant)"
  shows "server_inv ph t"
proof -
  have "router_ok t room" if "router_ok s room" for room
    using that t same by (auto simp: router_ok_def split: option.splits)
  moreover have "refs_ok ph t rid room = refs_ok ph s rid room" for rid room by (simp add: refs_ok_def t)
  ultimately have "rooms_ok ph t" using inv_rooms [OF inv] unfolding rooms_ok_def t by simp
  moreover have "registered r t = registered r s" for r by (simp add: registered_def t)
  moreover have "\<forall>w\<ge>sv_next_router t. grants (sv_screen t w) = (\<lambda>_. no_grant)" using new(2) t(5) by simp
  ultimately show ?thesis using inv new(1) unfolding server_inv_def t by blast
qed

lemma ensure_voice_inv:
  assumes "server_inv ph s" and "ensure_voice room s = (room', s')"
  shows "server_inv ph s'" "sv_rooms s' = sv_rooms s" "sv_sessions s' = sv_sessions s" "sv_next_session s' = sv_next_session s"
    "sv_stopping s' = sv_stopping s" "sv_screen s' = sv_screen s" "sv_next_router s \<le> sv_next_router s'"
    "rm_sessions room' = rm_sessions room" "rm_streaming room' = rm_streaming room" "rm_watchers room' = rm_watchers room"
    "rm_screen room' = rm_screen room"
proof -
  have "server_inv ph (t\<lparr>sv_voice := h, sv_next_router := Suc (sv_next_router t)\<rparr>)" if "server_inv ph t" for t h
    by (rule inv_more_routers [OF that]) (use that in \<open>auto simp: server_inv_def\<close>)
  with assms show "server_inv ph s'" by (auto simp: ensure_voice_def split: if_splits)
qed (use assms(2) in \<open>auto simp: ensure_voice_def split: if_splits\<close>)

text \<open>The room with its routers, before the new member is added.\<close>

lemma ensure_screen_inv:
  assumes inv: "server_inv ph s" and run: "ensure_screen room s = (room', s')"
    and known: "\<And>w. rm_screen room = Some w \<Longrightarrow> w < sv_next_router s"
  shows "server_inv ph s'" "sv_rooms s' = sv_rooms s" "sv_sessions s' = sv_sessions s" "sv_next_session s' = sv_next_session s"
    "sv_stopping s' = sv_stopping s"
    "rm_sessions room' = rm_sessions room" "rm_streaming room' = rm_streaming room" "rm_watchers room' = rm_watchers room"
    "\<exists>w. rm_screen room' = Some w \<and> w < sv_next_router s' \<and>
       (rm_screen room = None \<longrightarrow> sv_next_router s \<le> w \<and> grants (sv_screen s' w) = (\<lambda>_. no_grant)) \<and>
       (rm_screen room = Some w \<longrightarrow> sv_screen s' w = sv_screen s w) \<and> (rm_screen room \<noteq> None \<longrightarrow> rm_screen room = Some w)"
proof -
  have all: "screen_inv (sv_screen s w)" for w using inv unfolding server_inv_def by blast
  have above: "grants (sv_screen s w) = (\<lambda>_. no_grant)" if "sv_next_router s \<le> w" for w
    using inv that unfolding server_inv_def by blast
  show "server_inv ph s'"
  proof (cases "rm_screen room")
    case (Some w)
    with run inv show ?thesis by (simp add: ensure_screen_def)
  next
    case None
    then have s': "s' = s\<lparr>sv_screen := (sv_screen s)(sv_next_router s := new_screen_router (sv_fault_config s) True),
        sv_next_router := Suc (sv_next_router s)\<rparr>"
      using run by (simp add: ensure_screen_def)
    show ?thesis
      by (rule inv_more_routers [OF inv])
        (use all above in \<open>auto simp: s' grants_new new_screen_router_inv\<close>)
  qed
  show "\<exists>w. rm_screen room' = Some w \<and> w < sv_next_router s' \<and>
       (rm_screen room = None \<longrightarrow> sv_next_router s \<le> w \<and> grants (sv_screen s' w) = (\<lambda>_. no_grant)) \<and>
       (rm_screen room = Some w \<longrightarrow> sv_screen s' w = sv_screen s w) \<and> (rm_screen room \<noteq> None \<longrightarrow> rm_screen room = Some w)"
    using run known by (auto simp: ensure_screen_def grants_new split: if_splits)
qed (use run in \<open>auto simp: ensure_screen_def split: if_splits\<close>)

lemma table_join:
  assumes "table_ok room \<or> rm_sessions room = [] \<and> rm_streaming room = [] \<and> rm_watchers room = []"
    and "i \<notin> set (keys (rm_sessions room))"
  shows "table_ok (room\<lparr>rm_sessions := rm_sessions room @ [(i, r)]\<rparr>)"
proof -
  define P where "P k us \<longleftrightarrow> us \<noteq> [] \<and> distinct us \<and> length us \<le> kScreenReceiveSlots" for k :: peer_id and us :: "peer_id list"
  show ?thesis using assms by (auto simp: table_ok_def Let_def)
qed

lemma replace_screen_same: "replace_screen w (sv_screen t w) t = t"
  by (cases t) (simp add: replace_screen_def)

lemma register_session_inv:
  assumes inv: "server_inv ph s" and r: "ph r = Accepting" and running: "\<not> sv_stopping s"
    and run: "register_session env (se_id (sv_sessions s r)) (se_room (sv_sessions s r)) r s = (Some ps, s')"
  shows "server_inv (ph(r := Connected)) s'"
proof -
  let ?i = "se_id (sv_sessions s r)" and ?rid = "se_room (sv_sessions s r)"
  define room0 where "room0 = (case find_room ?rid s of Some room \<Rightarrow> room | None \<Rightarrow> new_room)"
  obtain room1 s1 where e1: "ensure_voice room0 s = (room1, s1)" by (metis surj_pair)
  obtain room2 s2 where e2: "ensure_screen room1 s1 = (room2, s2)" by (metis surj_pair)
  define room3 where "room3 = room2\<lparr>rm_sessions := emplace ?i r (rm_sessions room2)\<rparr>"
  have s': "s' = put_room ?rid room3 s2"
    using run by (auto simp: register_session_def Let_def room0_def [symmetric] e1 e2 room3_def split: option.splits)
  note v = ensure_voice_inv [OF inv e1]
  have known: "w < sv_next_router s" if "rm_screen room0 = Some w" for w
  proof (cases "find_room ?rid s")
    case None
    with that show ?thesis by (simp add: room0_def new_room_def)
  next
    case (Some room)
    with server_invD(3) [OF inv Some] that show ?thesis by (auto simp: room0_def)
  qed
  have known1: "w < sv_next_router s1" if "rm_screen room1 = Some w" for w
    using that known v(7,11) by fastforce
  note c = ensure_screen_inv [OF v(1) e2 known1]
  have rooms: "sv_rooms s2 = sv_rooms s" and sessions: "sv_sessions s2 = sv_sessions s"
    and sessions_next: "sv_next_session s2 = sv_next_session s" and stop: "\<not> sv_stopping s2"
    using v c running by simp_all
  have lists: "rm_sessions room2 = rm_sessions room0" "rm_streaming room2 = rm_streaming room0"
    "rm_watchers room2 = rm_watchers room0"
    using v c by simp_all
  obtain w where w: "rm_screen room2 = Some w" "w < sv_next_router s2"
    and fresh: "rm_screen room0 = None \<longrightarrow> sv_next_router s \<le> w \<and> grants (sv_screen s2 w) = (\<lambda>_. no_grant)"
    and old: "rm_screen room0 \<noteq> None \<longrightarrow> rm_screen room0 = Some w \<and> sv_screen s2 w = sv_screen s w"
    using c(9) v(6,7,11) by (metis (no_types, lifting) option.exhaust order_trans)
  have i_new: "?i \<notin> set (keys (rm_sessions room0))"
  proof
    assume "?i \<in> set (keys (rm_sessions room0))"
    then obtain q where q: "(?i, q) \<in> set (rm_sessions room0)" by auto
    then obtain room where room: "map_of (sv_rooms s) ?rid = Some room" "room0 = room"
      by (auto simp: room0_def find_room_def new_room_def split: option.splits)
    have "ph q \<in> {Connected, Over}" "q < sv_next_session s" "se_id (sv_sessions s q) = ?i"
      using member_phase [OF inv room(1)] q room(2) by auto
    moreover have "ph r = Unborn \<longleftrightarrow> sv_next_session s \<le> r" using inv unfolding server_inv_def by blast
    then have "r < sv_next_session s" using r by simp
    ultimately have "q = r" using inv unfolding server_inv_def inj_on_def by blast
    with \<open>ph q \<in> {Connected, Over}\<close> r show False by simp
  qed
  then have room3: "room3 = room2\<lparr>rm_sessions := rm_sessions room2 @ [(?i, r)]\<rparr>"
    by (simp add: room3_def emplace_def lists)
  let ?ph = "ph(r := Over)"
  have inv2: "server_inv ?ph s2" using inv_phase [OF c(1), of r Over] r by simp
  have found: "find_room ?rid s = Some room0 \<or> room0 = new_room \<and> map_of (sv_rooms s) ?rid = None"
    by (auto simp: room0_def find_room_def split: option.splits)
  have table: "table_ok room3"
    unfolding room3
  proof (rule table_join)
    show "table_ok room2 \<or> rm_sessions room2 = [] \<and> rm_streaming room2 = [] \<and> rm_watchers room2 = []"
      using found
    proof
      assume "find_room ?rid s = Some room0"
      then have "table_ok room0" by (rule server_invD(1) [OF inv])
      then show ?thesis unfolding table_ok_def lists by blast
    qed (simp add: lists new_room_def)
    show "?i \<notin> set (keys (rm_sessions room2))" using i_new lists by simp
  qed
  have member: "q < sv_next_session s2 \<and> se_id (sv_sessions s2 q) = j \<and> se_room (sv_sessions s2 q) = ?rid \<and> ?ph q \<in> {Connected, Over}"
    if "(j, q) \<in> set (rm_sessions room3)" for j q
  proof (cases "(j, q) \<in> set (rm_sessions room0)")
    case True
    then have "map_of (sv_rooms s) ?rid = Some room0" using found by (auto simp: find_room_def new_room_def)
    from member_phase [OF inv this True] show ?thesis by (auto simp: sessions sessions_next)
  next
    case False
    then have "j = ?i" "q = r" using that by (auto simp: room3 lists)
    moreover have "ph r = Unborn \<longleftrightarrow> sv_next_session s \<le> r" using inv unfolding server_inv_def by blast
    ultimately show ?thesis using r by (simp add: sessions sessions_next)
  qed
  have "server_inv ?ph (replace_screen w (sv_screen s2 w) (put_room ?rid room3 s2))"
  proof (rule inv_put_room [OF inv2 stop _ w(2) _ table])
    show "rm_screen room3 = Some w" using w by (simp add: room3)
    show "refs_ok ?ph s2 ?rid room3" unfolding refs_ok_def using member by blast
    show "screen_inv (sv_screen s2 w)" using inv2 unfolding server_inv_def by blast
    show "granted_within (grants (sv_screen s2 w)) room3"
    proof (cases "rm_screen room0")
      case None
      with fresh show ?thesis by (simp add: no_grant_within)
    next
      case (Some x)
      then have "find_room ?rid s = Some room0" using found by (auto simp: new_room_def)
      from server_invD(3) [OF inv this] old Some have "granted_within (grants (sv_screen s2 w)) room0" by auto
      then show ?thesis by (simp add: granted_within_def watched_by_def room3 lists)
    qed
    show "rid1 = ?rid" if rid1: "map_of (sv_rooms s2) rid1 = Some x1" "rm_screen x1 = Some w" for rid1 x1
    proof (cases "rm_screen room0")
      case None
      have "find_room rid1 s = Some x1" using rid1 rooms by (simp add: find_room_def)
      from server_invD(3) [OF inv this] rid1 fresh None show ?thesis by auto
    next
      case (Some x)
      then have "find_room ?rid s = Some room0" using found by (auto simp: new_room_def)
      from inv_sole [OF inv this] old Some rid1 rooms show ?thesis by auto
    qed
    show "map_of (rm_sessions room3) (se_id (sv_sessions s2 q)) = Some q"
      if "registered q s2" "se_room (sv_sessions s2 q) = ?rid" for q
    proof -
      have "map_of (rm_sessions room0) (se_id (sv_sessions s q)) = Some q"
        using that found by (auto simp: registered_def rooms sessions find_room_def)
      then show ?thesis by (simp add: room3 lists sessions map_add_def split: option.splits)
    qed
  qed
  then have "server_inv ?ph s'"
    unfolding s' using replace_screen_same [of w "put_room ?rid room3 s2"] by simp
  moreover have "registered r s'"
  proof -
    have "map_of (rm_sessions room0) ?i = None" using i_new by (simp add: map_of_eq_None_iff)
    then have "map_of (rm_sessions room3) ?i = Some r" by (simp add: room3 lists map_add_def)
    then show ?thesis by (simp add: registered_def s' sessions map_of_update)
  qed
  ultimately have "server_inv (?ph(r := Connected)) s'" by (intro inv_connect) auto
  then show ?thesis by simp
qed

lemma on_accept_inv:
  assumes inv: "server_inv ph s" and r: "ph r = Accepting" and run: "on_accept env ec r s = (Some (), s')"
  shows "server_inv (ph(r := if ec \<or> sv_stopping s then Over else Connected)) s'"
proof (cases "ec \<or> sv_stopping s")
  case True
  then have "s' = s" using run by (auto simp: on_accept_def register_and_build_welcome_def split: if_splits)
  with True inv_phase [OF inv, of r Over] r show ?thesis by simp
next
  case False
  let ?i = "se_id (sv_sessions s r)" and ?rid = "se_room (sv_sessions s r)"
  obtain payload existing s1 where s1: "register_session env ?i ?rid r s = (Some (payload, existing), s1)"
    and core: "core s' = core s1"
    using run False
    by (auto simp: on_accept_def register_and_build_welcome_def core_simps split: prod.splits option.splits)
  have "server_inv (ph(r := Connected)) s1" by (rule register_session_inv [OF inv r _ s1]) (use False in simp)
  with core False show ?thesis by (simp add: inv_core)
qed

lemma screen_close_all:
  assumes "close_screen_all env ws s = (Some (), s')" and "server_inv ph s" and "sv_rooms s = []"
  shows "server_inv ph s'"
  using assms
proof (induction ws arbitrary: s)
  case Nil
  then show ?case by simp
next
  case (Cons w ws)
  obtain b s1 where s1: "on_screen env (Some w) (close_screen (en_tracks env)) s = (Some b, s1)"
    and rest: "close_screen_all env ws s1 = (Some (), s')"
    using Cons.prems(1) by (auto elim: and_then_Some)
  let ?v = "snd (close_screen (en_tracks env) (sv_screen s w))"
  have kept: "screen_inv (sv_screen s w)" using Cons.prems(2) unfolding server_inv_def by blast
  have close: "close_screen (en_tracks env) (sv_screen s w) = (fst (close_screen (en_tracks env) (sv_screen s w)), ?v)" by simp
  have v: "screen_inv ?v" "grants ?v = (\<lambda>_. no_grant)"
    using screen_kept [OF screen_close [OF close] kept] grants_close [OF close kept] by simp_all
  have "rooms_ok ph (replace_screen w ?v s)" using Cons.prems(3) by (simp add: rooms_ok_def)
  moreover have "registered q (replace_screen w ?v s) = registered q s" for q by (simp add: registered_def)
  ultimately have "server_inv ph (replace_screen w ?v s)"
    using Cons.prems(2) v unfolding server_inv_def by simp
  moreover have core: "core s1 = core (replace_screen w ?v s)" using core_screen snd_eq [OF s1] by metis
  ultimately have "server_inv ph s1" by (simp add: inv_core)
  moreover have "sv_rooms s1 = []" using coreD(2) [OF core] Cons.prems(3) by simp
  ultimately show ?case by (rule Cons.IH [OF rest])
qed

lemma core_close_voice_all: "core (snd (close_voice_all env ws s)) = core s"
proof (induction ws arbitrary: s)
  case (Cons w ws)
  show ?case
  proof (cases "on_voice env (Some w) (close_voice (en_tracks env)) s")
    case (Pair a s1)
    have "core s1 = core s" using core_voice snd_eq [OF Pair] by metis
    with Pair Cons.IH [of s1] show ?thesis by (simp add: and_then_def split: option.splits)
  qed
qed simp

lemma stop_inv:
  assumes inv: "server_inv ph s" and run: "stop_server env s = (Some (), s')"
  shows "server_inv ph s'"
proof -
  let ?s1 = "log_call CloseAcceptor (s\<lparr>sv_stopping := True, sv_rooms := []\<rparr>)"
  obtain a s2 b s3 where s2: "close_voice_all env (List.map_filter (rm_voice \<circ> snd) (sv_rooms s)) ?s1 = (Some a, s2)"
    and s3: "close_screen_all env (List.map_filter (rm_screen \<circ> snd) (sv_rooms s)) s2 = (Some b, s3)"
    and s': "s' = fold close_session_media (concat (map (map snd \<circ> rm_sessions \<circ> snd) (sv_rooms s))) s3"
    using run by (auto simp: stop_server_def Let_def elim!: and_then_Some)
  have "server_inv ph (s\<lparr>sv_stopping := True, sv_rooms := []\<rparr>)"
    using inv unfolding server_inv_def by (simp add: rooms_ok_def)
  moreover have core: "core s2 = core (s\<lparr>sv_stopping := True, sv_rooms := []\<rparr>)"
    using core_close_voice_all snd_eq [OF s2] core_log by metis
  ultimately have "server_inv ph s2" by (rule inv_core)
  moreover have "sv_rooms s2 = []" using coreD(2) [OF core] by simp
  ultimately have "server_inv ph s3" using screen_close_all s3 by (metis old.unit.exhaust)
  moreover have "core s' = core s3" unfolding s' by (intro core_fold core_close_media)
  ultimately show ?thesis by (rule inv_core)
qed

section \<open>Reachable servers\<close>

lemma server_step_inv:
  assumes "server_step sys sys'" and "server_inv (fst sys) (snd sys)"
  shows "server_inv (fst sys') (snd sys')"
  using assms
proof (induction rule: server_step.induct)
  case (step_connection s random ph ec acc)
  then show ?case unfolding fst_conv snd_conv by (blast intro: connection_inv)
next
  case (step_request ph r env ec req s s')
  have "after_request ec req s \<in> {Deciding, Accepting, Over}" by (simp add: after_request_def)
  with step_request request_inv [of ph s r env ec req s'] show ?case unfolding fst_conv snd_conv by blast
next
  case (step_channel ph r i s s')
  then have "core s' = core s" using core_channel by (metis snd_conv)
  moreover have "server_inv (ph(r := if i = None then Over else Accepting)) s"
    using step_channel inv_phase [of ph s r] by simp
  ultimately show ?case unfolding fst_conv snd_conv by (blast intro: inv_core)
next
  case (step_user env r path i s s' ph)
  then have "core s' = core s" using core_user by (metis snd_conv)
  with step_user show ?case by (simp add: inv_core)
next
  case (step_accept ph r env ec s s')
  then show ?case unfolding fst_conv snd_conv by (blast intro: on_accept_inv)
next
  case (step_message ph r s env raw s')
  then show ?case using on_message_inv by simp
next
  case (step_read_end ph r env raw s s')
  then have "server_inv ph s'" using on_close_inv by (simp add: on_read_def)
  then show ?case unfolding fst_conv snd_conv using step_read_end(1) by (rule inv_read_over)
next
  case (step_do_write ph s r)
  then show ?case using core_do_write inv_core by simp
next
  case (step_write_end ph r env ec s s')
  obtain failed w where w: "on_write ec (se_writer (sv_sessions s r)) = (failed, w)" by (metis surj_pair)
  let ?s1 = "update_session r (\<lambda>x. x\<lparr>se_writer := w\<rparr>) s"
  have "server_inv ph ?s1" using step_write_end core_writer inv_core by simp
  with step_write_end w on_close_inv [of ph ?s1 env r s'] show ?case
    by (auto simp: session_on_write_def Let_def split: if_splits)
next
  case (step_media ph s r f)
  then show ?case using core_on_media inv_core by simp
next
  case (step_voice_track env router owner track send s s' ph)
  then have "core s' = core s" using core_voice_track by (metis snd_conv)
  with step_voice_track show ?case by (simp add: inv_core)
next
  case (step_screen_track env router owner track send s s' ph)
  then show ?case using screen_track_inv by simp
next
  case (step_voice_packet ph s w v)
  then show ?case using core_replace_voice inv_core by simp
next
  case (step_screen_packet s w v ph)
  then show ?case using packet_inv by simp
next
  case (step_config ph s config)
  then show ?case using config_inv by simp
next
  case (step_stop env s s' ph)
  then show ?case using stop_inv by simp
qed

lemma new_server_inv: "server_inv (\<lambda>_. Unborn) (new_server config authenticator ssrc)"
  by (simp add: server_inv_def new_server_def rooms_ok_def grants_new new_screen_router_inv)

lemma server_reach_inv: "server_reach config authenticator sys \<Longrightarrow> server_inv (fst sys) (snd sys)"
  by (induction rule: server_reach.induct) (auto simp: new_server_inv intro: server_step_inv)

end
