(* ===== verification/Ws_Authorization.thy ===== *)
theory Ws_Authorization
  imports Ws_Reachable
begin

text \<open>
  With an authenticator configured, a WebSocket is accepted only after the API was asked about the
  room the session will join: what every step of the server does to the log of accepted sessions
  and API calls.
\<close>

section \<open>What authorization reads\<close>

fun gate_effect :: "server_effect \<Rightarrow> bool" where
  "gate_effect (AcceptWebsocket _) = True"
| "gate_effect (StartCall _ _) = True"
| "gate_effect _ = False"

definition gate :: "server \<Rightarrow> (string \<times> string) option \<times> server_effect list \<times> (nat \<Rightarrow> room_id)" where
  "gate s = (sv_authenticator s, filter gate_effect (sv_log s), \<lambda>r. se_room (sv_sessions s r))"

named_theorems gate_simps "operations that authorization does not depend on"

lemma gate_log [gate_simps]: "\<not> gate_effect x \<Longrightarrow> gate (log_call x s) = gate s"
  by (simp add: gate_def log_call_def)

lemma gate_session [gate_simps]: "(\<And>x. se_room (f x) = se_room x) \<Longrightarrow> gate (update_session r f s) = gate s"
  by (auto simp: gate_def update_session_def fun_eq_iff)

lemma gate_fold [gate_simps]: "(\<And>x s. gate (f x s) = gate s) \<Longrightarrow> gate (fold f xs s) = gate s"
  by (induction xs arbitrary: s) auto

lemma gate_fields [gate_simps]:
  "gate (put_room rid room s) = gate s" "gate (drop_room rid s) = gate s"
  "gate (replace_screen w v s) = gate s" "gate (replace_voice w v' s) = gate s"
  "gate (s\<lparr>sv_voice := h\<rparr>) = gate s" "gate (s\<lparr>sv_screen := k\<rparr>) = gate s"
  "gate (s\<lparr>sv_voice := h, sv_ssrc := c\<rparr>) = gate s" "gate (s\<lparr>sv_screen := k, sv_ssrc := c\<rparr>) = gate s"
  "gate (s\<lparr>sv_voice := h, sv_screen := k\<rparr>) = gate s" "gate (s\<lparr>sv_fault_config := fc\<rparr>) = gate s"
  "gate (s\<lparr>sv_stopping := b, sv_rooms := rooms\<rparr>) = gate s"
  "gate (s\<lparr>sv_voice := h, sv_next_router := n\<rparr>) = gate s" "gate (s\<lparr>sv_screen := k, sv_next_router := n\<rparr>) = gate s"
  by (simp_all add: gate_def put_room_def drop_room_def replace_screen_def replace_voice_def)

lemma gate_run: "gate (snd y) = gate s \<Longrightarrow> y = (a, t) \<Longrightarrow> gate t = gate s"
  by simp

lemma gate_send [gate_simps]: "gate (session_send text r s) = gate s"
  unfolding session_send_def by (rule gate_session) simp

lemma gate_send_all [gate_simps]: "gate (send_all texts refs s) = gate s"
  unfolding send_all_def by (intro gate_fold gate_send)

lemma gate_deliver [gate_simps]: "gate (snd (deliver env c es s)) = gate s"
  by (induction env c es s rule: deliver.induct) (auto simp: gate_simps split: option.splits)

lemma gate_voice [gate_simps]: "gate (snd (on_voice env router f s)) = gate s"
  by (simp add: on_voice_def gate_simps Let_def prod.case_eq_if split: option.splits)

lemma gate_screen [gate_simps]: "gate (snd (on_screen env router f s)) = gate s"
  by (simp add: on_screen_def gate_simps Let_def prod.case_eq_if split: option.splits)

lemma gate_and_then [gate_simps]:
  "(\<And>a s. gate (snd (f s)) = gate s) \<Longrightarrow> gate (snd (and_then x f)) = gate (snd x)"
  by (auto simp: and_then_def split: prod.splits option.splits)

lemma gate_tracks [gate_simps]:
  "gate (snd (add_voice_track env router owner track send s)) = gate s"
  "gate (snd (add_screen_track env router owner track send s)) = gate s"
  by (simp_all add: add_voice_track_def add_screen_track_def gate_simps Let_def prod.case_eq_if split: option.splits)

lemma gate_media [gate_simps]: "gate (on_media r f s) = gate s" "gate (close_session_media r s) = gate s"
  by (simp_all add: on_media_def close_session_media_def gate_simps prod.case_eq_if split: option.splits)

lemma gate_snapshot [gate_simps]: "gate (snd (send_snapshot env r path s)) = gate s"
  by (simp add: send_snapshot_def gate_simps split: option.splits)

lemma gate_user [gate_simps]: "gate (snd (user_authorized env r path i s)) = gate s"
  by (simp add: user_authorized_def gate_simps split: option.splits)

lemma gate_announce [gate_simps]: "gate (snd (announce env r msg s)) = gate s"
  by (simp add: announce_def broadcast_def gate_simps split: option.splits)

lemma gate_rooms [gate_simps]:
  "gate (snd (add_streaming_peer env i rid s)) = gate s" "gate (snd (remove_streaming_peer env i rid s)) = gate s"
  "gate (snd (reject_watch env r p reason s)) = gate s" "gate (snd (remove_video_watcher env i rid p s)) = gate s"
  by (simp_all add: add_streaming_peer_def remove_streaming_peer_def reject_watch_def remove_video_watcher_def
      gate_simps split: option.splits)

lemma gate_watch [gate_simps]: "gate (snd (add_video_watcher env i rid p s)) = gate s"
  by (simp add: add_video_watcher_def gate_simps Let_def split: option.splits)

lemma gate_message [gate_simps]: "gate (snd (handle_message env r msg s)) = gate s"
  by (cases msg) (simp_all add: gate_simps)

lemma gate_farewell [gate_simps]: "gate (snd (farewell env i was remaining s)) = gate s"
  by (simp add: farewell_def gate_simps split: option.splits)

lemma gate_unregister [gate_simps]: "gate (snd (unregister_session env i rid s)) = gate s"
  by (simp add: unregister_session_def gate_simps Let_def split: option.splits)

lemma gate_on_close [gate_simps]: "gate (snd (on_close env r s)) = gate s"
  by (simp add: on_close_def gate_simps)

lemma gate_on_read [gate_simps]: "gate (snd (on_read env ec raw r s)) = gate s"
  by (simp add: on_read_def gate_simps split: sum.splits)

lemma gate_write [gate_simps]: "gate (session_do_write r s) = gate s" "gate (snd (session_on_write env ec r s)) = gate s"
  by (simp_all add: session_do_write_def session_on_write_def gate_simps Let_def prod.case_eq_if)

lemma gate_config [gate_simps]: "gate (update_fault_config config s) = gate s"
  by (simp add: update_fault_config_def configure_room_def gate_simps prod.case_eq_if)

lemma gate_close_all [gate_simps]:
  "gate (snd (close_voice_all env rs s)) = gate s" "gate (snd (close_screen_all env rs s)) = gate s"
  by (induction rs arbitrary: s) (simp_all add: gate_simps)

lemma gate_stop [gate_simps]: "gate (snd (stop_server env s)) = gate s"
  by (simp add: stop_server_def gate_simps Let_def)

lemma gate_ensure [gate_simps]: "gate (snd (ensure_voice room s)) = gate s" "gate (snd (ensure_screen room s)) = gate s"
  by (simp_all add: ensure_voice_def ensure_screen_def gate_simps)

lemma gate_register [gate_simps]: "gate (snd (register_session env i rid r s)) = gate s"
  by (simp add: register_session_def gate_simps Let_def prod.case_eq_if split: option.splits)

lemma gate_welcome [gate_simps]: "gate (snd (register_and_build_welcome env i rid r s)) = gate s"
  by (auto simp: register_and_build_welcome_def gate_simps split: option.splits prod.splits
      dest!: gate_run [OF gate_register])

lemma gate_on_accept [gate_simps]: "gate (snd (on_accept env ec r s)) = gate s"
  by (auto simp: on_accept_def gate_simps split: option.splits prod.splits dest!: gate_run [OF gate_welcome])

section \<open>The invariant\<close>

text \<open>The call that asks whether the bearer of \<open>token\<close> may join \<open>room_id\<close>.\<close>

definition access_call :: "string \<times> string \<Rightarrow> string \<Rightarrow> room_id \<Rightarrow> api_call" where
  "access_call address token room_id =
     \<lparr>ac_host = fst address, ac_port = snd address,
      ac_target = ''/channels/'' @ url_escape room_id @ ''/access'',
      ac_host_header = (if snd address = ''80'' then fst address else fst address @ '':'' @ snd address),
      ac_authorization = Some (''Bearer '' @ token), ac_callback = True, ac_pending = Some Resolving\<rparr>"

definition asked :: "string \<times> string \<Rightarrow> nat \<Rightarrow> server \<Rightarrow> bool" where
  "asked address r s \<longleftrightarrow>
     (\<exists>token. token \<noteq> [] \<and> StartCall r (access_call address token (se_room (sv_sessions s r))) \<in> set (sv_log s))"

definition accepted :: "nat \<Rightarrow> server \<Rightarrow> bool" where
  "accepted r s \<longleftrightarrow> AcceptWebsocket r \<in> set (sv_log s)"

definition gate_inv :: "string \<times> string \<Rightarrow> (nat \<Rightarrow> phase) \<Rightarrow> server \<Rightarrow> bool" where
  "gate_inv address ph s \<longleftrightarrow>
     sv_authenticator s = Some address \<and>
     (\<forall>r. (ph r \<in> {Unborn, Requesting, Deciding} \<longrightarrow> \<not> accepted r s) \<and>
          (ph r \<in> {Accepting, Connected} \<longrightarrow> accepted r s) \<and>
          (ph r = Deciding \<or> accepted r s \<longrightarrow> asked address r s))"

lemma gate_kept:
  assumes "gate s' = gate s"
  shows "sv_authenticator s' = sv_authenticator s" "accepted r s' = accepted r s" "asked a r s' = asked a r s"
proof -
  have log: "filter gate_effect (sv_log s') = filter gate_effect (sv_log s)"
    and rooms: "se_room (sv_sessions s' q) = se_room (sv_sessions s q)" for q
    using assms by (auto simp: gate_def dest: fun_cong)
  have "gate_effect x \<Longrightarrow> x \<in> set (sv_log s') \<longleftrightarrow> x \<in> set (sv_log s)" for x
    using arg_cong [OF log, of set] by (auto simp: set_eq_iff)
  then show "accepted r s' = accepted r s" "asked a r s' = asked a r s"
    by (simp_all add: accepted_def asked_def rooms)
  show "sv_authenticator s' = sv_authenticator s" using assms by (simp add: gate_def)
qed

lemma gate_inv_kept:
  assumes "gate_inv address ph s" and "gate s' = gate s"
  shows "gate_inv address ph s'"
  using assms(1) unfolding gate_inv_def gate_kept [OF assms(2)] .

lemma gate_inv_phase:
  assumes "gate_inv address ph s" and "p = Over \<or> ph r = Accepting \<and> p = Connected"
  shows "gate_inv address (ph(r := p)) s"
  using assms unfolding gate_inv_def by auto

lemma accepted_log: "accepted r (log_call x s) \<longleftrightarrow> x = AcceptWebsocket r \<or> accepted r s"
  by (auto simp: accepted_def log_call_def)

lemma asked_log: "asked a r s \<Longrightarrow> asked a r (log_call x s)"
  by (auto simp: asked_def log_call_def)

lemma gate_inv_connection:
  assumes inv: "gate_inv address ph s" and fresh: "ph (sv_next_session s) = Unborn"
  shows "gate_inv address (if ec then ph else ph(sv_next_session s := Requesting)) (on_connection ec random acc s)"
proof -
  let ?n = "sv_next_session s"
  let ?s = "log_call (ReadRequest ?n) (s\<lparr>sv_sessions := (sv_sessions s)(?n := new_session (generate_id random)),
    sv_next_session := Suc ?n\<rparr>)"
  have "sv_authenticator ?s = sv_authenticator s" by (simp add: log_call_def)
  moreover have "accepted r ?s = accepted r s" for r by (simp add: accepted_def log_call_def)
  moreover have "asked address r ?s = asked address r s" if "r \<noteq> ?n" for r
    using that by (simp add: asked_def log_call_def)
  moreover have "\<not> accepted ?n s" using inv fresh by (auto simp: gate_inv_def)
  ultimately have born: "gate_inv address (ph(?n := Requesting)) ?s"
    using inv unfolding gate_inv_def by (auto split: if_splits)
  show ?thesis
  proof (cases ec)
    case True
    with inv show ?thesis by (auto simp: on_connection_def Let_def gate_simps intro: gate_inv_kept)
  next
    case False
    then show ?thesis
      using born gate_inv_kept [OF born, of "log_call AcceptNext ?s"]
      by (simp add: on_connection_def Let_def gate_simps)
  qed
qed

text \<open>A plain HTTP request may ask the API, and accepts nothing.\<close>

lemma http_more:
  assumes "handle_http_request env r req s = (a, s')"
  shows "sv_authenticator s' = sv_authenticator s \<and> accepted q s' = accepted q s \<and> (asked addr q s \<longrightarrow> asked addr q s')"
proof -
  have "gate s' = gate s \<or> (\<exists>call. s' = log_call (StartCall r call) s)"
    using assms
    by (auto simp: handle_http_request_def Let_def with_authorization_def gate_simps
        split: if_splits option.splits prod.splits dest: gate_run [OF gate_snapshot] gate_run [OF gate_user])
  then show ?thesis
  proof
    assume "gate s' = gate s"
    then show ?thesis using gate_kept by blast
  next
    assume "\<exists>call. s' = log_call (StartCall r call) s"
    then show ?thesis by (auto simp: accepted_log asked_log) (simp add: log_call_def)
  qed
qed

lemma channel_call:
  "token \<noteq> [] \<Longrightarrow> authorize_channel address token room_id True = ([StartAsync Resolving], Some (access_call address token room_id))"
  by (simp add: authorize_channel_def api_request_def run_call_def start_async_def new_call_def access_call_def)

lemma no_token: "authorize_channel address [] room_id True = ([RunCallback None], None)"
  by (simp add: authorize_channel_def api_request_def)

lemma gate_inv_request:
  assumes inv: "gate_inv address ph s" and r: "ph r = Requesting" and run: "on_http_read env ec req r s = (Some (), s')"
  shows "gate_inv address (ph(r := after_request ec req s)) s'"
proof -
  have addr: "sv_authenticator s = Some address" and fresh: "\<not> accepted r s" using inv r by (auto simp: gate_inv_def)
  have over: "gate_inv address (ph(r := Over)) t"
    if "sv_authenticator t = sv_authenticator s" "\<And>q. accepted q t = accepted q s"
      "\<And>q. q \<noteq> r \<Longrightarrow> asked address q s \<Longrightarrow> asked address q t" for t
    using inv fresh that unfolding gate_inv_def by auto
  consider (failed) "ec" | (plain) "\<not> ec" "\<not> rq_upgrade req" | (upgrade) "\<not> ec" "rq_upgrade req" by blast
  then show ?thesis
  proof cases
    case failed
    with run over [of s] show ?thesis by (simp add: on_http_read_def after_request_def)
  next
    case plain
    then have "handle_http_request env r req s = (Some (), s')" using run by (simp add: on_http_read_def)
    note more = http_more [OF this]
    have "gate_inv address (ph(r := Over)) s'" by (rule over) (use more in blast)+
    with plain show ?thesis by (simp add: after_request_def)
  next
    case upgrade
    define token where "token = bearer_token (rq_authorization req) (rq_target req)"
    define room_id where "room_id = parse_room_id (rq_target req)"
    define s1 where "s1 = update_session r (\<lambda>x. x\<lparr>se_room := room_id\<rparr>) s"
    have s1: "sv_authenticator s1 = Some address" "accepted q s1 = accepted q s" "q \<noteq> r \<Longrightarrow> asked address q s1 = asked address q s"
      "se_room (sv_sessions s1 r) = room_id" for q
      using addr by (auto simp: s1_def update_session_def accepted_def asked_def)
    have run': "with_authorization r (authorize_channel address token room_id True) (channel_authorized r) s1 = (Some (), s')"
      using run upgrade addr
      by (simp add: on_http_read_def token_def room_id_def s1_def Let_def update_session_def split: option.splits)
    show ?thesis
    proof (cases "token = []")
      case True
      then have s': "s' = log_call (RespondError r unauthorized ''unauthorized'') s1"
        using run' by (simp add: no_token with_authorization_def channel_authorized_def)
      have "gate_inv address (ph(r := Over)) s'"
        proof (rule over)
        show "accepted q s' = accepted q s" for q by (simp add: s' accepted_log s1)
        show "asked address q s'" if "q \<noteq> r" "asked address q s" for q using that by (simp add: s' asked_log s1)
        show "sv_authenticator s' = sv_authenticator s" by (simp add: s' log_call_def s1 addr)
      qed
      with True upgrade addr show ?thesis by (simp add: after_request_def token_def)
    next
      case False
      then have s': "s' = log_call (StartCall r (access_call address token room_id)) s1"
        using run' by (simp add: channel_call with_authorization_def)
      have "asked address r s'" using False s1(4) by (auto simp: s' asked_def log_call_def)
      moreover have "sv_authenticator s' = Some address" by (simp add: s' log_call_def s1)
      moreover have "accepted q s' = accepted q s" for q by (simp add: s' accepted_log s1)
      moreover have "asked address q s'" if "asked address q s" "q \<noteq> r" for q
        using that by (simp add: s' asked_log s1)
      ultimately have "gate_inv address (ph(r := Deciding)) s'"
        using inv fresh unfolding gate_inv_def by auto
      with False upgrade addr show ?thesis by (simp add: after_request_def token_def)
    qed
  qed
qed

lemma gate_inv_channel:
  assumes inv: "gate_inv address ph s" and r: "ph r = Deciding" and run: "channel_authorized r i s = (Some (), s')"
  shows "gate_inv address (ph(r := if i = None then Over else Accepting)) s'"
proof (cases i)
  case None
  then have "gate s' = gate s" using run by (auto simp: channel_authorized_def gate_simps)
  with None show ?thesis using gate_inv_phase [OF gate_inv_kept [OF inv]] by simp
next
  case (Some who)
  let ?t = "update_session r (\<lambda>x. x\<lparr>se_username := id_username who\<rparr>) s"
  have t: "gate_inv address ph ?t" by (rule gate_inv_kept [OF inv]) (simp add: gate_simps)
  have s': "s' = log_call (AcceptWebsocket r) ?t" using run Some by (simp add: channel_authorized_def)
  have "asked address r ?t" using t r by (simp add: gate_inv_def)
  with t r have "gate_inv address (ph(r := Accepting)) s'"
    unfolding gate_inv_def s' by (auto simp: accepted_log asked_log) (simp add: log_call_def)
  with Some show ?thesis by simp
qed

lemma gate_inv_same:
  assumes "x = (a, s')" and "gate (snd x) = gate s" and "gate_inv address ph s"
  shows "gate_inv address ph s'"
  using gate_inv_kept [OF assms(3)] assms(1,2) by simp

lemma gate_step:
  assumes "server_step sys sys'" and "gate_inv address (fst sys) (snd sys)"
    and "fst sys (sv_next_session (snd sys)) = Unborn"
  shows "gate_inv address (fst sys') (snd sys')"
  using assms
proof (induction rule: server_step.induct)
  case (step_connection s random ph ec acc)
  then show ?case unfolding fst_conv snd_conv by (intro gate_inv_connection)
next
  case (step_request ph r env ec req s s')
  then show ?case unfolding fst_conv snd_conv by (intro gate_inv_request)
next
  case (step_channel ph r i s s')
  then show ?case unfolding fst_conv snd_conv by (intro gate_inv_channel)
next
  case (step_user env r path i s s' ph)
  then show ?case using gate_inv_same [OF step_user(1) gate_user] by simp
next
  case (step_accept ph r env ec s s')
  then have "gate_inv address ph s'" using gate_inv_same [OF step_accept(2) gate_on_accept] by simp
  with step_accept(1) show ?case unfolding fst_conv snd_conv by (intro gate_inv_phase) auto
next
  case (step_message ph r s env raw s')
  then show ?case using gate_inv_same [OF step_message(3) gate_on_read] by simp
next
  case (step_read_end ph r env raw s s')
  then have "gate_inv address ph s'" using gate_inv_same [OF step_read_end(2) gate_on_read] by simp
  then show ?case unfolding fst_conv snd_conv by (intro gate_inv_phase) auto
next
  case (step_do_write ph s r)
  then show ?case by (simp add: gate_inv_kept gate_simps)
next
  case (step_write_end ph r env ec s s')
  then show ?case using gate_inv_same [OF step_write_end(2) gate_write(2)] by simp
next
  case (step_media ph s r f)
  then show ?case by (simp add: gate_inv_kept gate_simps)
next
  case (step_voice_track env router owner track send s s' ph)
  then show ?case using gate_inv_same [OF step_voice_track(1) gate_tracks(1)] by simp
next
  case (step_screen_track env router owner track send s s' ph)
  then show ?case using gate_inv_same [OF step_screen_track(1) gate_tracks(2)] by simp
next
  case (step_voice_packet ph s w v)
  then show ?case by (simp add: gate_inv_kept gate_simps)
next
  case (step_screen_packet s w v ph)
  then show ?case by (simp add: gate_inv_kept gate_simps)
next
  case (step_config ph s config)
  then show ?case by (simp add: gate_inv_kept gate_simps)
next
  case (step_stop env s s' ph)
  then show ?case using gate_inv_same [OF step_stop(1) gate_stop] by simp
qed

lemma new_server_gate: "gate_inv address (\<lambda>_. Unborn) (new_server config (Some address) ssrc)"
  by (simp add: gate_inv_def new_server_def accepted_def)

lemma next_unborn: "server_inv ph s \<Longrightarrow> ph (sv_next_session s) = Unborn"
  unfolding server_inv_def by blast

lemma reach_gate: "server_reach config (Some address) sys \<Longrightarrow> gate_inv address (fst sys) (snd sys)"
proof (induction rule: server_reach.induct)
  case (reach_step sys sys')
  then show ?case using gate_step next_unborn server_reach_inv by blast
qed (simp add: new_server_gate)

section \<open>Members were accepted\<close>

definition members :: "server \<Rightarrow> nat set" where
  "members s = (\<Union>(k, room)\<in>set (sv_rooms s). snd ` set (rm_sessions room))"

lemma members_rooms: "sv_rooms s' = sv_rooms s \<Longrightarrow> members s' = members s"
  by (simp add: members_def)

lemma members_core: "core s' = core s \<Longrightarrow> members s' = members s"
  using coreD(2) members_rooms by blast

lemma rooms_screen: "sv_rooms (snd (on_screen env router f s)) = sv_rooms s"
proof (cases router)
  case (Some w)
  then show ?thesis using coreD(2) [OF core_screen [of env w f s]] by simp
qed (simp add: on_screen_def)

lemma rooms_voice: "sv_rooms (snd (on_voice env router f s)) = sv_rooms s"
  by (rule coreD(2) [OF core_voice])

lemma set_update: "set (AList.update k v xs) \<subseteq> insert (k, v) (set xs)"
  by (induction xs) auto

lemma set_delete: "set (AList.delete k xs) \<subseteq> set xs"
  by (auto simp: AList.delete_eq)

lemma members_put: "members (put_room rid room s) \<subseteq> members s \<union> snd ` set (rm_sessions room)"
proof
  fix q
  assume "q \<in> members (put_room rid room s)"
  then obtain k room1 where "(k, room1) \<in> set (AList.update rid room (sv_rooms s))" "q \<in> snd ` set (rm_sessions room1)"
    by (auto simp: members_def)
  then show "q \<in> members s \<union> snd ` set (rm_sessions room)"
    using set_update [of rid room "sv_rooms s"] by (auto simp: members_def)
qed

lemma members_drop: "members (drop_room rid s) \<subseteq> members s"
  using set_delete [of rid "sv_rooms s"] by (auto simp: members_def)

lemma members_found: "find_room rid s = Some room \<Longrightarrow> snd ` set (rm_sessions room) \<subseteq> members s"
  by (auto simp: find_room_def members_def dest!: map_of_SomeD)

lemma members_change:
  assumes "find_room rid s = Some room" and "set (rm_sessions room') \<subseteq> set (rm_sessions room)"
  shows "members (put_room rid room' s) \<subseteq> members s"
  using members_put [of rid room' s] members_found [OF assms(1)] assms(2) by blast

lemma members_then:
  assumes "members (snd x) \<subseteq> M" and "\<And>s. members s \<subseteq> M \<Longrightarrow> members (snd (f s)) \<subseteq> M"
  shows "members (snd (and_then x f)) \<subseteq> M"
  using assms by (cases x; cases "fst x") (simp_all add: and_then_def)

lemma members_screen: "members (snd (on_screen env router f s)) = members s"
  by (rule members_rooms [OF rooms_screen])

lemma members_voice: "members (snd (on_voice env router f s)) = members s"
  by (rule members_rooms [OF rooms_voice])

lemma members_send: "members (session_send text r s) = members s"
  by (rule members_core [OF core_send])

lemma members_streaming:
  "members (snd (add_streaming_peer env i rid s)) \<subseteq> members s"
  "members (snd (remove_streaming_peer env i rid s)) \<subseteq> members s"
  by (auto simp: add_streaming_peer_def remove_streaming_peer_def members_screen split: option.splits
      dest: members_change [where room' = "_\<lparr>rm_streaming := _\<rparr>"])

lemma members_reject: "members (snd (reject_watch env r p reason s)) = members s"
  by (simp add: reject_watch_def members_send split: option.splits)

lemma unwatch_sessions: "rm_sessions (unwatch_in i p room) = rm_sessions room"
  by (simp add: unwatch_in_def put_watched_def split: option.splits)

lemma members_unwatch: "members (snd (remove_video_watcher env i rid p s)) \<subseteq> members s"
  using members_change [of rid s _ "unwatch_in i p _"]
  by (simp add: remove_video_watcher_def members_screen unwatch_sessions split: option.splits)

lemma members_watch: "members (snd (add_video_watcher env i rid p s)) \<subseteq> members s"
  using members_change [of rid s _ "put_watched i _ _"]
  by (simp add: add_video_watcher_def Let_def members_screen members_reject put_watched_def split: option.splits)

lemma members_announce: "members (snd (announce env r msg s)) = members s"
  by (rule members_core [OF core_announce])

lemma members_message: "members (snd (handle_message env r msg s)) \<subseteq> members s"
proof (cases msg)
  case (StreamingStart x)
  show ?thesis unfolding StreamingStart handle_message.simps
    by (rule members_then [OF members_streaming(1)]) (simp add: members_announce)
next
  case (StreamingStop x)
  show ?thesis unfolding StreamingStop handle_message.simps
    by (rule members_then [OF members_streaming(2)]) (simp add: members_announce)
qed (simp_all add: members_watch members_unwatch members_core [OF core_on_media])

lemma members_unregister: "members (snd (unregister_session env i rid s)) \<subseteq> members s"
proof (cases "find_room rid s")
  case (Some room)
  have "set (rm_sessions (leave_room i room)) \<subseteq> set (rm_sessions room)"
    by (simp add: leave_room_def set_delete)
  then have "members (put_room rid (leave_room i room) s) \<subseteq> members s" by (rule members_change [OF Some])
  with members_drop [of rid s]
  have left: "members (if b then drop_room rid s else put_room rid (leave_room i room) s) \<subseteq> members s" for b by simp
  have "members (snd (and_then (on_voice env v f s1) (\<lambda>s2. and_then (on_screen env w g s2) (farewell env i b rs)))) \<subseteq> members s"
    if "members s1 \<subseteq> members s" for v f s1 w g b rs
    using that by (intro members_then) (simp_all add: members_voice members_screen members_core [OF core_farewell])
  note run = this [OF left]
  show ?thesis
  proof (cases "i \<in> set (keys (rm_sessions room))")
    case True
    then show ?thesis unfolding unregister_session_def Some Let_def option.case by (subst if_not_P) (simp, rule run)
  qed (simp add: unregister_session_def Some)
qed (simp add: unregister_session_def)

lemma members_session: "members (update_session r f s) = members s"
  by (rule members_rooms) (simp add: update_session_def)

lemma members_on_close: "members (snd (on_close env r s)) \<subseteq> members s"
proof -
  have "members (update_session r f (close_session_media r (update_session r g s))) = members s" for f g
    by (simp only: members_session members_core [OF core_close_media])
  with members_unregister show ?thesis by (cases "se_closed (sv_sessions s r)") (simp_all add: on_close_def, metis)
qed

lemma members_log: "members (log_call x s) = members s"
  by (rule members_core [OF core_log])

lemma members_on_read: "members (snd (on_read env ec raw r s)) \<subseteq> members s"
proof -
  have "members (snd (and_then (handle_message env r msg s) (\<lambda>s1. (Some (), log_call (ReadMessage r) s1)))) \<subseteq> members s" for msg
    by (rule members_then [OF members_message]) (simp add: members_log)
  then show ?thesis using members_on_close by (simp add: on_read_def members_log split: sum.splits)
qed

lemma members_on_write: "members (snd (session_on_write env ec r s)) \<subseteq> members s"
  using members_on_close [of env r "update_session r f s" for f]
  by (simp add: session_on_write_def Let_def prod.case_eq_if members_session)

lemma rooms_ensure:
  "sv_rooms (snd (ensure_voice room s)) = sv_rooms s" "sv_rooms (snd (ensure_screen room s)) = sv_rooms s"
  "rm_sessions (fst (ensure_voice room s)) = rm_sessions room" "rm_sessions (fst (ensure_screen room s)) = rm_sessions room"
  by (simp_all add: ensure_voice_def ensure_screen_def)

lemma set_emplace: "set (emplace k v m) \<subseteq> insert (k, v) (set m)"
  by (auto simp: emplace_def)

lemma members_register: "members (snd (register_session env i rid r s)) \<subseteq> insert r (members s)"
proof -
  define room where "room = (case find_room rid s of Some room \<Rightarrow> room | None \<Rightarrow> new_room)"
  define room1 s1 where "room1 = fst (ensure_voice room s)" and "s1 = snd (ensure_voice room s)"
  define room2 s2 where "room2 = fst (ensure_screen room1 s1)" and "s2 = snd (ensure_screen room1 s1)"
  note defs = room1_def s1_def room2_def s2_def
  have s2: "members s2 = members s" by (rule members_rooms) (simp add: defs rooms_ensure)
  have "snd ` set (rm_sessions room) \<subseteq> members s"
    using members_found [of rid s] by (auto simp: room_def new_room_def split: option.splits)
  then have old: "snd ` set (rm_sessions room2) \<subseteq> members s" by (simp add: defs rooms_ensure)
  then have "members (put_room rid room2 s2) \<subseteq> insert r (members s)" using members_put [of rid room2 s2] s2 by blast
  moreover have "members (put_room rid (room2\<lparr>rm_sessions := emplace i r (rm_sessions room2)\<rparr>) s2) \<subseteq> insert r (members s)"
    using members_put [of rid "room2\<lparr>rm_sessions := emplace i r (rm_sessions room2)\<rparr>" s2] s2 old
      set_emplace [of i r "rm_sessions room2"] by fastforce
  ultimately show ?thesis
    unfolding register_session_def Let_def room_def [symmetric] prod.case_eq_if defs [symmetric]
    by (simp split: option.splits)
qed

lemma members_send_all: "members (send_all texts refs s) = members s"
  by (rule members_core [OF core_send_all])

lemma members_on_accept: "members (snd (on_accept env ec r s)) \<subseteq> insert r (members s)"
proof -
  obtain a s1 where run: "register_and_build_welcome env (se_id (sv_sessions s r)) (se_room (sv_sessions s r)) r s = (a, s1)"
    by fastforce
  have "members (snd (register_and_build_welcome env i rid r s)) \<subseteq> insert r (members s)" for i rid
    using members_register [of env i rid r s]
    by (cases "register_session env i rid r s"; cases "fst (register_session env i rid r s)")
      (auto simp: register_and_build_welcome_def members_send_all split: option.splits)
  from this [of "se_id (sv_sessions s r)" "se_room (sv_sessions s r)"] have "members s1 \<subseteq> insert r (members s)"
    by (simp add: run)
  then show ?thesis
    by (cases a; cases "the a") (auto simp: on_accept_def run members_log members_send)
qed

lemma members_request: "members (snd (on_http_read env ec req r s)) = members s"
proof -
  have "members (snd (channel_authorized q i s)) = members s" for q i s by (rule members_core [OF core_channel])
  then have "members (snd (with_authorization r x (channel_authorized r) s)) = members s" for x s
    by (simp add: with_authorization_def members_log split: prod.splits option.splits)
  then show ?thesis
    by (simp add: on_http_read_def Let_def members_session members_log members_core [OF core_http] split: option.splits)
qed

lemma accepted_kept: "gate s' = gate s \<Longrightarrow> \<forall>q. accepted q s \<longrightarrow> accepted q s'"
  using gate_kept(2) by blast

lemma accepted_request: "accepted q s \<Longrightarrow> accepted q (snd (on_http_read env ec req r s))"
proof -
  assume q: "accepted q s"
  have same: "accepted q (update_session r f s) = accepted q s" for f s by (simp add: accepted_def update_session_def)
  have "accepted q s \<Longrightarrow> accepted q (snd (with_authorization r x (channel_authorized r) s))" for x s
    by (simp add: with_authorization_def accepted_log channel_authorized_def same split: prod.splits option.splits)
  moreover have "accepted q (snd (handle_http_request env r req s))" using http_more q by (metis surj_pair snd_conv)
  ultimately show ?thesis using q by (simp add: on_http_read_def Let_def same accepted_log split: option.splits)
qed

definition members_ok :: "server \<Rightarrow> bool" where
  "members_ok s \<longleftrightarrow> (\<forall>r\<in>members s. accepted r s)"

lemma members_ok_kept:
  assumes "members_ok s" and "members s' \<subseteq> members s" and "gate s' = gate s"
  shows "members_ok s'"
  using assms(1,2) accepted_kept [OF assms(3)] unfolding members_ok_def by blast

lemma members_ok_same:
  assumes "x = (a, s')" and "gate (snd x) = gate s" and "members (snd x) \<subseteq> members s" and "members_ok s"
  shows "members_ok s'"
  using members_ok_kept [OF assms(4)] assms(1-3) by simp

lemma members_track: "members (snd (add_screen_track env router owner track send s)) = members s"
proof -
  have "sv_rooms (snd (deliver env Screen es (s\<lparr>sv_screen := h, sv_ssrc := c\<rparr>))) = sv_rooms s" for es h c
    using coreD(2) [OF core_deliver] by simp
  then show ?thesis
    by (intro members_rooms) (simp add: add_screen_track_def Let_def prod.case_eq_if split: option.splits)
qed

lemma members_config: "members (update_fault_config config s) = members s"
proof -
  have "sv_rooms (fold (\<lambda>(k, room). configure_room config room) xs s) = sv_rooms s" for xs :: "(room_id \<times> room) list" and s :: server
    by (induction xs arbitrary: s) (auto simp: configure_room_def)
  then show ?thesis by (intro members_rooms) (simp add: update_fault_config_def)
qed

lemma members_close_all:
  "members (snd (close_voice_all env rs s)) \<subseteq> members s" "members (snd (close_screen_all env rs s)) \<subseteq> members s"
proof -
  show "members (snd (close_voice_all env rs s)) \<subseteq> members s"
  proof (induction rs arbitrary: s)
    case (Cons r rs)
    have "members (snd (and_then (on_voice env (Some r) (close_voice (en_tracks env)) s) (close_voice_all env rs))) \<subseteq> members s"
      by (rule members_then) (simp add: members_voice, rule order_trans [OF Cons.IH])
    then show ?case by simp
  qed simp
  show "members (snd (close_screen_all env rs s)) \<subseteq> members s"
  proof (induction rs arbitrary: s)
    case (Cons r rs)
    have "members (snd (and_then (on_screen env (Some r) (close_screen (en_tracks env)) s) (close_screen_all env rs))) \<subseteq> members s"
      by (rule members_then) (simp add: members_screen, rule order_trans [OF Cons.IH])
    then show ?case by simp
  qed simp
qed

lemma members_stop: "members (snd (stop_server env s)) \<subseteq> {}"
proof -
  have "members (fold close_session_media rs s) = members s" for rs s
    by (rule members_core) (intro core_fold core_close_media)
  moreover have "members (log_call CloseAcceptor (s\<lparr>sv_stopping := True, sv_rooms := []\<rparr>)) = {}"
    by (simp add: members_log) (simp add: members_def)
  ultimately show ?thesis
    unfolding stop_server_def Let_def using members_close_all
    by (intro members_then) (simp_all, fastforce+)
qed

lemma members_step:
  assumes "server_step sys sys'" and "members_ok (snd sys)" and "gate_inv address (fst sys) (snd sys)"
  shows "members_ok (snd sys')"
  using assms
proof (induction rule: server_step.induct)
  case (step_connection s random ph ec acc)
  have "members (on_connection ec random acc s) = members s"
    by (rule members_rooms) (simp add: on_connection_def Let_def log_call_def)
  moreover have "accepted q s \<Longrightarrow> accepted q (on_connection ec random acc s)" for q
    by (simp add: on_connection_def Let_def log_call_def accepted_def)
  ultimately show ?case using step_connection by (simp add: members_ok_def)
next
  case (step_request ph r env ec req s s')
  then have "members s' = members s" using members_request by (metis snd_conv)
  moreover have "accepted q s \<Longrightarrow> accepted q s'" for q using step_request(2) accepted_request by (metis snd_conv)
  ultimately show ?case using step_request(3) by (simp add: members_ok_def)
next
  case (step_channel ph r i s s')
  then have "members s' = members s" using members_core [OF core_channel] by (metis snd_conv)
  moreover have "accepted q s \<Longrightarrow> accepted q s'" for q
    using step_channel(2) by (auto simp: channel_authorized_def accepted_log accepted_def update_session_def log_call_def split: option.splits)
  ultimately show ?case using step_channel(3) by (simp add: members_ok_def)
next
  case (step_user env r path i s s' ph)
  then show ?case using members_ok_same [OF step_user(1) gate_user equalityD1 [OF members_core [OF core_user]]] by simp
next
  case (step_accept ph r env ec s s')
  have "members s' \<subseteq> insert r (members s)" using members_on_accept [of env ec r s] step_accept(2) by simp
  moreover have "accepted r s" using step_accept(1,4) by (simp add: gate_inv_def)
  ultimately show ?case
    using step_accept(3) accepted_kept [OF gate_run [OF gate_on_accept step_accept(2)]] unfolding members_ok_def snd_conv by blast
next
  case (step_message ph r s env raw s')
  then show ?case using members_ok_same [OF step_message(3) gate_on_read members_on_read] by simp
next
  case (step_read_end ph r env raw s s')
  then show ?case using members_ok_same [OF step_read_end(2) gate_on_read members_on_read] by simp
next
  case (step_do_write ph s r)
  then show ?case using members_ok_kept [of s "session_do_write r s"] by (simp add: gate_simps members_core [OF core_do_write])
next
  case (step_write_end ph r env ec s s')
  then show ?case using members_ok_same [OF step_write_end(2) gate_write(2) members_on_write] by simp
next
  case (step_media ph s r f)
  then show ?case using members_ok_kept [of s "on_media r f s"] by (simp add: gate_simps members_core [OF core_on_media])
next
  case (step_voice_track env router owner track send s s' ph)
  then show ?case using members_ok_same [OF step_voice_track(1) gate_tracks(1) equalityD1 [OF members_core [OF core_voice_track]]] by simp
next
  case (step_screen_track env router owner track send s s' ph)
  then show ?case using members_ok_same [OF step_screen_track(1) gate_tracks(2) equalityD1 [OF members_track]] by simp
next
  case (step_voice_packet ph s w v)
  then show ?case using members_ok_kept [of s "replace_voice w v s"] by (simp add: gate_simps members_core [OF core_replace_voice])
next
  case (step_screen_packet s w v ph)
  have "members (replace_screen w v s) = members s" by (rule members_rooms) simp
  with step_screen_packet show ?case using members_ok_kept [of s "replace_screen w v s"] by (simp add: gate_simps)
next
  case (step_config ph s config)
  then show ?case using members_ok_kept [of s "update_fault_config config s"] by (simp add: gate_simps members_config)
next
  case (step_stop env s s' ph)
  then show ?case using members_ok_same [OF step_stop(1) gate_stop] members_stop [of env s] by simp
qed

lemma reach_members: "server_reach config (Some address) sys \<Longrightarrow> members_ok (snd sys)"
proof (induction rule: server_reach.induct)
  case (reach_step sys sys')
  then show ?case using members_step reach_gate by blast
qed (simp add: members_ok_def members_def new_server_def)

end
