(* ===== verification/Ws_Scenario.thy ===== *)
theory Ws_Scenario
  imports Ws_Authorization
begin

text \<open>
  A run of the signaling server for the concrete instances of its properties: two authorized
  sessions join room \<open>7\<close>, one streams its screen and the other watches it. Every handler is a step of
  \<open>server_step\<close>; the library answers are concrete functions.
\<close>

definition demo_env :: server_env where
  "demo_env =
     \<lparr>en_tracks = screen_env, en_dump = (\<lambda>_. Some ''{}''),
      en_parse = (\<lambda>t. Some (JObject (if t = ''s'' then [(''type'', JString ''streaming_start'')]
        else [(''peerId'', JString (generate_id 1)), (''type'', JString ''watch_start'')]))),
      en_pc_ok = True, en_sdp_ok = True\<rparr>"

definition demo_request :: request where
  "demo_request =
     \<lparr>rq_upgrade = True, rq_get = True, rq_target = ''/channels/7'', rq_authorization = ''Bearer t''\<rparr>"

definition demo_address :: "string \<times> string" where
  "demo_address = (''api'', ''80'')"

definition demo_user :: identity where
  "demo_user = \<lparr>id_username = ''ada'', id_user_id = 1\<rparr>"

section \<open>Joining\<close>

definition joining :: "(server \<Rightarrow> unit outcome) list" where
  "joining =
     [\<lambda>s. (Some (), on_connection False 1 True s), \<lambda>s. (Some (), on_connection False 2 True s),
      on_http_read demo_env False demo_request 0, on_http_read demo_env False demo_request 1,
      channel_authorized 0 (Some demo_user), channel_authorized 1 (Some demo_user),
      on_accept demo_env False 0, on_accept demo_env False 1]"

primrec joined :: "nat \<Rightarrow> server" where
  "joined 0 = new_server no_faults (Some demo_address) 7"
| "joined (Suc n) = snd ((joining ! n) (joined n))"

text \<open>No handler throws when every message can be dumped.\<close>

lemma accept_returns:
  assumes "\<And>j. en_dump env j = Some t"
  shows "fst (on_accept env ec r s) = Some ()"
  using assms
  by (auto simp: on_accept_def register_and_build_welcome_def register_session_def dump_message_def Let_def
      split: option.splits prod.splits)

lemma channel_returns: "fst (channel_authorized r i s) = Some ()"
  by (simp add: channel_authorized_def split: option.splits)

lemma upgrade_returns: "rq_upgrade req \<Longrightarrow> fst (on_http_read env ec req r s) = Some ()"
  by (auto simp: on_http_read_def Let_def with_authorization_def channel_returns split: option.splits prod.splits)

lemma deliver_returns:
  assumes "\<And>j. en_dump env j = Some t"
  shows "fst (deliver env c es s) = Some ()"
  using assms by (induction env c es s rule: deliver.induct) (auto simp: dump_message_def)

lemma demo_dump: "en_dump demo_env j = Some ''{}''"
  by (simp add: demo_env_def)

lemma demo_upgrade: "rq_upgrade demo_request"
  by (simp add: demo_request_def)

lemma joined_steps:
  "joined 1 = on_connection False 1 True (joined 0)"
  "joined 2 = on_connection False 2 True (joined 1)"
  "joined 3 = snd (on_http_read demo_env False demo_request 0 (joined 2))"
  "joined 4 = snd (on_http_read demo_env False demo_request 1 (joined 3))"
  "joined 5 = snd (channel_authorized 0 (Some demo_user) (joined 4))"
  "joined 6 = snd (channel_authorized 1 (Some demo_user) (joined 5))"
  "joined 7 = snd (on_accept demo_env False 0 (joined 6))"
  "joined 8 = snd (on_accept demo_env False 1 (joined 7))"
  by (simp_all add: joining_def numeral_eq_Suc)

declare joined.simps [simp del]

lemma request_texts:
  "parse_room_id ''/channels/7'' = ''7''" "bearer_token ''Bearer t'' ''/channels/7'' = ''t''"
  by code_simp+

lemma joined_0: "joined 0 = new_server no_faults (Some demo_address) 7"
  by (simp only: joined.simps)

definition view where
  "view s = (sv_rooms s, sv_next_router s, sv_fault_config s, sv_stopping s, sv_authenticator s, sv_ssrc s, sv_next_session s,
     sv_screen s, map (\<lambda>r. (se_id (sv_sessions s r), se_room (sv_sessions s r), se_closed (sv_sessions s r))) [0, 1])"

lemma view_1: "sv_next_session (joined 1) = 1" "se_id (sv_sessions (joined 1) 0) = generate_id 1"
  unfolding joined_steps(1) joined_0
  by (simp_all add: on_connection_def new_server_def new_session_def log_call_def Let_def)

lemma view_2: "view (joined 2) = ([], 0, no_faults, False, Some demo_address, 7, 2, (\<lambda>_. new_screen_router no_faults True),
    [(generate_id 1, [], False), (generate_id 2, [], False)])"
  unfolding joined_steps(2,1) joined_0
  by (simp add: view_def on_connection_def new_server_def new_session_def log_call_def Let_def)

lemma view_request:
  assumes "sv_authenticator s = Some demo_address"
  shows "snd (on_http_read demo_env False demo_request r s) =
    log_call (StartCall r (access_call demo_address ''t'' ''7'')) (update_session r (\<lambda>x. x\<lparr>se_room := ''7''\<rparr>) s)"
  using assms
  by (simp add: on_http_read_def demo_request_def request_texts Let_def with_authorization_def channel_call update_session_def)

lemma view_6: "view (joined 6) = ([], 0, no_faults, False, Some demo_address, 7, 2, (\<lambda>_. new_screen_router no_faults True),
    [(generate_id 1, ''7'', False), (generate_id 2, ''7'', False)])"
proof -
  have 2: "sv_authenticator (joined 2) = Some demo_address" using view_2 by (simp add: view_def)
  have 3: "joined 3 = log_call (StartCall 0 (access_call demo_address ''t'' ''7'')) (update_session 0 (\<lambda>x. x\<lparr>se_room := ''7''\<rparr>) (joined 2))"
    unfolding joined_steps(3) by (rule view_request [OF 2])
  have 4: "joined 4 = log_call (StartCall 1 (access_call demo_address ''t'' ''7'')) (update_session 1 (\<lambda>x. x\<lparr>se_room := ''7''\<rparr>) (joined 3))"
    unfolding joined_steps(4) by (rule view_request) (simp add: 3 2 log_call_def update_session_def)
  show ?thesis using view_2
    unfolding joined_steps(5,6) 4 3
    by (simp add: view_def channel_authorized_def log_call_def update_session_def)
qed

lemma core_put: "core s = core t \<Longrightarrow> core (put_room rid room s) = core (put_room rid room t)"
  by (simp add: core_def put_room_def)

text \<open>A session joins: its room is entered in the table, with new routers if it is new.\<close>

definition fresh_routers :: "server \<Rightarrow> server" where
  "fresh_routers s = (let n = sv_next_router s in
     s\<lparr>sv_screen := (sv_screen s)(Suc n := new_screen_router (sv_fault_config s) True), sv_next_router := Suc (Suc n)\<rparr>)"

definition enter :: "peer_id \<Rightarrow> nat \<Rightarrow> room \<Rightarrow> room" where
  "enter i r room = room\<lparr>rm_sessions := emplace i r (rm_sessions room)\<rparr>"

lemma accept_new:
  assumes "find_room (se_room (sv_sessions s r)) s = None" and "\<not> sv_stopping s"
  shows "core (snd (on_accept demo_env False r s)) =
    core (put_room (se_room (sv_sessions s r))
      (enter (se_id (sv_sessions s r)) r (new_room\<lparr>rm_voice := Some (sv_next_router s), rm_screen := Some (Suc (sv_next_router s))\<rparr>))
      (fresh_routers s))"
  using assms
  by (simp add: on_accept_def register_and_build_welcome_def register_session_def dump_message_def demo_dump Let_def
      ensure_voice_def ensure_screen_def new_room_def enter_def fresh_routers_def core_log core_send core_send_all)
    (simp add: core_def put_room_def)

lemma accept_old:
  assumes "find_room (se_room (sv_sessions s r)) s = Some room" and "\<not> sv_stopping s"
    and "rm_voice room \<noteq> None" and "rm_screen room \<noteq> None"
  shows "core (snd (on_accept demo_env False r s)) =
    core (put_room (se_room (sv_sessions s r)) (enter (se_id (sv_sessions s r)) r room) s)"
  using assms
  by (simp add: on_accept_def register_and_build_welcome_def register_session_def dump_message_def demo_dump Let_def
      ensure_voice_def ensure_screen_def enter_def core_log core_send core_send_all)

lemma ssrc_send_all: "sv_ssrc (send_all texts refs s) = sv_ssrc s"
proof -
  have "sv_ssrc (fold (\<lambda>text. session_send text r) texts s) = sv_ssrc s" for r s
    by (induction texts arbitrary: s) (simp_all add: session_send_def update_session_def)
  then show ?thesis unfolding send_all_def by (induction refs arbitrary: s) simp_all
qed

lemma ssrc_ensure: "sv_ssrc (snd (ensure_voice room s)) = sv_ssrc s" "sv_ssrc (snd (ensure_screen room s)) = sv_ssrc s"
  by (simp_all add: ensure_voice_def ensure_screen_def)

lemma ssrc_register: "sv_ssrc (snd (register_session env i rid r s)) = sv_ssrc s"
  by (simp add: register_session_def Let_def prod.case_eq_if put_room_def ssrc_ensure split: option.splits)

lemma ssrc_welcome: "sv_ssrc (snd (register_and_build_welcome env i rid r s)) = sv_ssrc s"
  using ssrc_register [of env i rid r s]
  by (cases "register_session env i rid r s"; cases "fst (register_session env i rid r s)")
    (auto simp: register_and_build_welcome_def ssrc_send_all split: option.splits)

lemma ssrc_accept: "sv_ssrc (snd (on_accept env ec r s)) = sv_ssrc s"
proof -
  obtain a s1 where run: "register_and_build_welcome env (se_id (sv_sessions s r)) (se_room (sv_sessions s r)) r s = (a, s1)"
    by fastforce
  then have "sv_ssrc s1 = sv_ssrc s" using ssrc_welcome by (metis snd_conv)
  then show ?thesis
    by (cases a; cases "the a") (simp_all add: on_accept_def run log_call_def session_send_def update_session_def)
qed

definition demo_room :: room where
  "demo_room = \<lparr>rm_sessions = [(generate_id 1, 0), (generate_id 2, 1)], rm_streaming = [], rm_watchers = [],
     rm_voice = Some 0, rm_screen = Some 1\<rparr>"

lemma first_room: "sv_rooms (joined 7) = [(''7'', demo_room\<lparr>rm_sessions := [(generate_id 1, 0)]\<rparr>)]"
  and router_7: "sv_screen (joined 7) 1 = new_screen_router no_faults True"
  and view_7: "sv_stopping (joined 7) = False" "se_id (sv_sessions (joined 7) 1) = generate_id 2" "se_room (sv_sessions (joined 7) 1) = ''7''"
  and view_70: "se_id (sv_sessions (joined 7) 0) = generate_id 1" "\<not> se_closed (sv_sessions (joined 7) 0)" "\<not> se_closed (sv_sessions (joined 7) 1)"
proof -
  have 6: "sv_rooms (joined 6) = []" "sv_next_router (joined 6) = 0" "sv_fault_config (joined 6) = no_faults" "\<not> sv_stopping (joined 6)"
    "se_id (sv_sessions (joined 6) 0) = generate_id 1" "se_room (sv_sessions (joined 6) 0) = ''7''"
     "se_id (sv_sessions (joined 6) 1) = generate_id 2" "se_room (sv_sessions (joined 6) 1) = ''7''"
    using view_6 by (simp_all add: view_def)
  have "core (joined 7) = core (put_room ''7''
      (enter (generate_id 1) 0 (new_room\<lparr>rm_voice := Some 0, rm_screen := Some 1\<rparr>)) (fresh_routers (joined 6)))"
    using accept_new [of "joined 6" 0] 6 unfolding joined_steps(7) by (simp add: find_room_def)
  note core = coreD [OF this]
  show "sv_rooms (joined 7) = [(''7'', demo_room\<lparr>rm_sessions := [(generate_id 1, 0)]\<rparr>)]"
    using core(2) 6 by (simp add: fresh_routers_def Let_def enter_def new_room_def emplace_def demo_room_def)
  show "sv_screen (joined 7) 1 = new_screen_router no_faults True"
    using core(5) 6 by (simp add: fresh_routers_def Let_def)
  show "sv_stopping (joined 7) = False" "se_id (sv_sessions (joined 7) 1) = generate_id 2" "se_room (sv_sessions (joined 7) 1) = ''7''"
    using core(1,6,7) 6 by (simp_all add: fresh_routers_def Let_def)
  show "se_id (sv_sessions (joined 7) 0) = generate_id 1" "\<not> se_closed (sv_sessions (joined 7) 0)" "\<not> se_closed (sv_sessions (joined 7) 1)"
    using core(6,8) view_6 by (simp_all add: fresh_routers_def Let_def view_def)
qed

lemma joined_state:
  "sv_rooms (joined 8) = [(''7'', demo_room)]" "sv_ssrc (joined 8) = 7" "sv_screen (joined 8) 1 = new_screen_router no_faults True"
  "se_id (sv_sessions (joined 8) 0) = generate_id 1" "se_id (sv_sessions (joined 8) 1) = generate_id 2"
  "\<not> se_closed (sv_sessions (joined 8) 0)" "\<not> se_closed (sv_sessions (joined 8) 1)"
proof -
  note two = view_7(2)
  have room: "find_room ''7'' (joined 7) = Some (demo_room\<lparr>rm_sessions := [(generate_id 1, 0)]\<rparr>)"
    by (simp add: find_room_def first_room)
  have "core (joined 8) = core (put_room ''7'' (enter (generate_id 2) 1 (demo_room\<lparr>rm_sessions := [(generate_id 1, 0)]\<rparr>)) (joined 7))"
    using accept_old [of "joined 7" 1] view_7 room unfolding joined_steps(8) by (simp add: demo_room_def)
  note core = coreD [OF this]
  have ids: "generate_id 2 \<noteq> generate_id 1" by code_simp
  then have "enter (generate_id 2) 1 (demo_room\<lparr>rm_sessions := [(generate_id 1, 0)]\<rparr>) = demo_room"
    by (simp add: enter_def emplace_def demo_room_def)
  with core(2) show "sv_rooms (joined 8) = [(''7'', demo_room)]" by (simp add: first_room)
  show "sv_screen (joined 8) 1 = new_screen_router no_faults True" using core(5) router_7 by simp
  have "sv_ssrc (joined 6) = 7" using view_6 by (simp add: view_def)
  then show "sv_ssrc (joined 8) = 7" unfolding joined_steps(7,8) ssrc_accept .
  show "se_id (sv_sessions (joined 8) 1) = generate_id 2" using core(6) view_7(2) by simp
  show "se_id (sv_sessions (joined 8) 0) = generate_id 1" "\<not> se_closed (sv_sessions (joined 8) 0)" "\<not> se_closed (sv_sessions (joined 8) 1)"
    using core(6,8) view_70 by simp_all
qed

lemma joined_phases:
  "after_request False demo_request (joined 2) = Deciding" "after_request False demo_request (joined 3) = Deciding"
  "sv_stopping (joined 6) = False" "sv_stopping (joined 7) = False"
  "sv_next_session (joined 0) = 0" "sv_next_session (joined 1) = 1"
proof -
  have 2: "sv_authenticator (joined 2) = Some demo_address" using view_2 by (simp add: view_def)
  have asked: "after_request False demo_request s = Deciding" if "sv_authenticator s = Some demo_address" for s
    using that by (simp add: after_request_def demo_request_def request_texts)
  show "after_request False demo_request (joined 2) = Deciding" by (rule asked [OF 2])
  show "after_request False demo_request (joined 3) = Deciding"
    by (rule asked) (simp add: joined_steps(3) view_request [OF 2] 2 log_call_def update_session_def)
  show "sv_stopping (joined 6) = False" "sv_stopping (joined 7) = False"
    using view_6 view_7 by (simp_all add: view_def)
  show "sv_next_session (joined 0) = 0" "sv_next_session (joined 1) = 1"
    using view_1 by (simp_all add: joined_0 new_server_def)
qed

lemma joined_ids: "se_id (sv_sessions (joined 1) 0) \<noteq> generate_id 2"
  unfolding view_1 by code_simp

lemma reach_handler:
  assumes "server_reach config a (ph, s)" and "fst (f s) = Some ()"
    and "\<And>s'. f s = (Some (), s') \<Longrightarrow> server_step (ph, s) (ph', s')"
  shows "server_reach config a (ph', snd (f s))"
proof -
  have "f s = (Some (), snd (f s))" using assms(2) by (metis prod.collapse)
  then show ?thesis using reach_step [OF assms(1)] assms(3) by blast
qed

abbreviation demo_reach :: "(nat \<Rightarrow> phase) \<Rightarrow> server \<Rightarrow> bool" where
  "demo_reach ph s \<equiv> server_reach no_faults (Some demo_address) (ph, s)"

definition none_born :: "nat \<Rightarrow> phase" where
  "none_born = (\<lambda>_. Unborn)"

lemma joined_reach_2: "demo_reach (none_born(0 := Requesting, 1 := Requesting)) (joined 2)"
proof -
  have start: "demo_reach none_born (joined 0)"
    unfolding joined.simps none_born_def by (rule reach_start)
  have "server_step (none_born, joined 0) (none_born(0 := Requesting), joined 1)"
    unfolding joined_steps(1) using step_connection [of "joined 0" 1 none_born False True]
    by (simp add: joined_phases)
  note one = reach_step [OF start this]
  have "server_step (none_born(0 := Requesting), joined 1) (none_born(0 := Requesting, 1 := Requesting), joined 2)"
    unfolding joined_steps(2) using step_connection [of "joined 1" 2 "none_born(0 := Requesting)" False True] joined_ids
    by (simp add: joined_phases del: One_nat_def)
  then show ?thesis by (rule reach_step [OF one])
qed

lemma joined_reach_4: "demo_reach (none_born(0 := Deciding, 1 := Deciding)) (joined 4)"
proof -
  have "demo_reach ((none_born(0 := Requesting, 1 := Requesting))(0 := after_request False demo_request (joined 2)))
      (snd (on_http_read demo_env False demo_request 0 (joined 2)))"
    by (rule reach_handler [OF joined_reach_2 upgrade_returns [OF demo_upgrade]]) (rule step_request, simp)
  then have three: "demo_reach (none_born(0 := Deciding, 1 := Requesting)) (joined 3)"
    unfolding joined_steps(3) joined_phases by (simp add: fun_upd_twist)
  have "demo_reach ((none_born(0 := Deciding, 1 := Requesting))(1 := after_request False demo_request (joined 3)))
      (snd (on_http_read demo_env False demo_request 1 (joined 3)))"
    by (rule reach_handler [OF three upgrade_returns [OF demo_upgrade]]) (rule step_request, simp)
  then show ?thesis unfolding joined_steps(4) joined_phases by simp
qed

lemma joined_reach_6: "demo_reach (none_born(0 := Accepting, 1 := Accepting)) (joined 6)"
proof -
  have "demo_reach ((none_born(0 := Deciding, 1 := Deciding))(0 := if Some demo_user = None then Over else Accepting))
      (snd (channel_authorized 0 (Some demo_user) (joined 4)))"
    by (rule reach_handler [OF joined_reach_4 channel_returns]) (rule step_channel, simp)
  then have five: "demo_reach (none_born(0 := Accepting, 1 := Deciding)) (joined 5)"
    unfolding joined_steps(5) by (simp add: fun_upd_twist)
  have "demo_reach ((none_born(0 := Accepting, 1 := Deciding))(1 := if Some demo_user = None then Over else Accepting))
      (snd (channel_authorized 1 (Some demo_user) (joined 5)))"
    by (rule reach_handler [OF five channel_returns]) (rule step_channel, simp)
  then show ?thesis unfolding joined_steps(6) by simp
qed

definition both_connected :: "nat \<Rightarrow> phase" where
  "both_connected = none_born(0 := Connected, 1 := Connected)"

lemma joined_reach_8: "demo_reach both_connected (joined 8)"
proof -
  have "demo_reach ((none_born(0 := Accepting, 1 := Accepting))(0 := if False \<or> sv_stopping (joined 6) then Over else Connected))
      (snd (on_accept demo_env False 0 (joined 6)))"
    by (rule reach_handler [OF joined_reach_6 accept_returns [OF demo_dump]]) (rule step_accept, simp)
  then have seven: "demo_reach (none_born(0 := Connected, 1 := Accepting)) (joined 7)"
    unfolding joined_steps(7) joined_phases by (simp add: fun_upd_twist)
  have "demo_reach ((none_born(0 := Connected, 1 := Accepting))(1 := if False \<or> sv_stopping (joined 7) then Over else Connected))
      (snd (on_accept demo_env False 1 (joined 7)))"
    by (rule reach_handler [OF seven accept_returns [OF demo_dump]]) (rule step_accept, simp)
  then show ?thesis unfolding joined_steps(8) joined_phases both_connected_def by simp
qed

section \<open>Sharing a screen\<close>

text \<open>What track registrations and messages do to the screen router of the room.\<close>

lemma core_track:
  "core (snd (add_screen_track env (Some w) owner track send s)) =
   core (replace_screen w (snd (snd (register_screen_track (en_tracks env) (sv_ssrc s) (sv_screen s w) owner track send))) s)"
proof -
  have "core (s\<lparr>sv_screen := h, sv_ssrc := c\<rparr>) = core (s\<lparr>sv_screen := h\<rparr>)" for h c by (simp add: core_def)
  then show ?thesis by (simp add: add_screen_track_def Let_def prod.case_eq_if core_deliver replace_screen_def)
qed

lemma ssrc_deliver: "sv_ssrc (snd (deliver env c es s)) = sv_ssrc s"
  by (induction env c es s rule: deliver.induct)
    (auto simp: session_send_def update_session_def log_call_def split: option.splits)

lemma ssrc_track:
  "sv_ssrc (snd (add_screen_track env (Some w) owner track send s)) =
   fst (snd (register_screen_track (en_tracks env) (sv_ssrc s) (sv_screen s w) owner track send))"
  by (simp add: add_screen_track_def Let_def prod.case_eq_if ssrc_deliver)

lemma track_returns:
  assumes "\<And>j. en_dump env j = Some t"
  shows "fst (add_screen_track env router owner track send s) = Some ()"
  using assms by (simp add: add_screen_track_def Let_def prod.case_eq_if deliver_returns split: option.splits)

end
