(* ===== verification/Ws_Properties.thy ===== *)
theory Ws_Properties
  imports Ws_Scenario
begin

text \<open>
  What holds of every reachable signaling server: who sits in its rooms, who receives whose screen,
  who was authorized; and what its operations do on each branch. The concrete instances continue the
  run of \<open>Ws_Scenario\<close>.
\<close>

section \<open>One session watches the screen of another\<close>

definition showing :: "screen_router \<Rightarrow> u32 \<Rightarrow> room \<Rightarrow> server \<Rightarrow> bool" where
  "showing v c room s \<longleftrightarrow>
     demo_reach both_connected s \<and> sv_screen s 1 = v \<and> sv_ssrc s = c \<and> sv_rooms s = [(''7'', room)] \<and>
     (\<forall>r\<in>{0, 1}. se_id (sv_sessions s r) = generate_id (if r = 0 then 1 else 2) \<and>
        se_room (sv_sessions s r) = ''7'' \<and> \<not> se_closed (sv_sessions s r))"

lemma showing_start: "showing (new_screen_router no_faults True) 7 demo_room (joined 8)"
proof -
  note rooms = joined_state(1)
  have "se_room (sv_sessions (joined 8) r) = ''7''" if "(i, r) \<in> set (rm_sessions demo_room)" for i r
    using member_phase(4) [OF server_reach_inv [OF joined_reach_8, simplified fst_conv snd_conv] _ that] rooms by simp
  then have "se_room (sv_sessions (joined 8) 0) = ''7''" "se_room (sv_sessions (joined 8) 1) = ''7''"
    by (auto simp: demo_room_def)
  with joined_state joined_reach_8 show ?thesis unfolding showing_def by simp
qed

lemma showing_track:
  assumes "showing v c room s"
  shows "showing (snd (snd (register_screen_track screen_env c v owner track send)))
    (fst (snd (register_screen_track screen_env c v owner track send))) room
    (snd (add_screen_track demo_env (Some 1) owner track send s))"
proof -
  have reach: "demo_reach both_connected s" using assms unfolding showing_def by blast
  have "demo_reach both_connected (snd (add_screen_track demo_env (Some 1) owner track send s))"
    by (rule reach_handler [OF reach track_returns [OF demo_dump]]) (rule step_screen_track)
  moreover have "en_tracks demo_env = screen_env" by (simp add: demo_env_def)
  ultimately show ?thesis
    using assms coreD(2,5,6,7,8) [OF core_track [of demo_env 1 owner track send s]]
      ssrc_track [of demo_env 1 owner track send s]
    unfolding showing_def by simp
qed

lemma screen_returns:
  assumes "\<And>j. en_dump env j = Some t"
  shows "fst (on_screen env router f s) = Some ()"
  using assms by (simp add: on_screen_def Let_def prod.case_eq_if deliver_returns split: option.splits)

lemma ssrc_screen: "sv_ssrc (snd (on_screen env router f s)) = sv_ssrc s"
  by (simp add: on_screen_def Let_def prod.case_eq_if ssrc_deliver split: option.splits)

text \<open>A message whose effect is one call on the room's screen router, with a new entry for the room.\<close>

lemma showing_message:
  assumes s: "showing v c room s" and r: "r \<in> {0, 1}"
    and run: "on_read demo_env False raw r s =
      (Some (), log_call (ReadMessage r) (send_all texts refs (snd (on_screen demo_env (Some 1) f (put_room ''7'' room' s)))))"
  shows "showing (snd (f v)) c room' (snd (on_read demo_env False raw r s))"
proof -
  let ?t = "snd (on_read demo_env False raw r s)"
  have reach: "demo_reach both_connected s" using s unfolding showing_def by blast
  have "demo_reach both_connected ?t"
  proof (rule reach_handler [OF reach])
    show "fst (on_read demo_env False raw r s) = Some ()" by (simp add: run)
    show "server_step (both_connected, s) (both_connected, s')" if "on_read demo_env False raw r s = (Some (), s')" for s'
      using r s by (intro step_message [OF _ _ that]) (auto simp: both_connected_def showing_def)
  qed
  moreover have "core ?t = core (replace_screen 1 (snd (f (sv_screen s 1))) (put_room ''7'' room' s))"
    unfolding run by (simp add: core_log core_send_all core_screen del: One_nat_def)
  note core = coreD [OF this]
  moreover have "sv_ssrc ?t = sv_ssrc s"
    unfolding run by (simp add: log_call_def ssrc_send_all ssrc_screen put_room_def)
  ultimately show ?thesis using s core unfolding showing_def by simp
qed

definition streaming_room :: room where
  "streaming_room = demo_room\<lparr>rm_streaming := [generate_id 1]\<rparr>"

definition watching_room :: room where
  "watching_room = streaming_room\<lparr>rm_watchers := [(generate_id 2, [generate_id 1])]\<rparr>"

lemma demo_messages:
  "parse_message (en_parse demo_env) ''s'' = Inr (StreamingStart None)"
  "parse_message (en_parse demo_env) ''w'' = Inr (WatchStart (generate_id 1))"
  by code_simp+

lemma announce_sends:
  assumes "\<And>j. en_dump env j = Some t"
  shows "\<exists>refs. announce env r msg s = (Some (), send_all [t] refs s)"
proof (cases "find_room (se_room (sv_sessions s r)) s")
  case None
  then have "announce env r msg s = (Some (), send_all [t] [] s)"
    by (simp add: announce_def dump_message_def assms broadcast_def send_all_def)
  then show ?thesis by blast
next
  case (Some room)
  then show ?thesis by (auto simp: announce_def dump_message_def assms broadcast_def)
qed

lemma showing_streaming:
  assumes "showing v c demo_room s"
  shows "showing (snd (set_screen_streaming screen_env v (generate_id 1) True)) c streaming_room
    (snd (on_read demo_env False ''s'' 0 s))"
proof -
  let ?f = "\<lambda>v. set_screen_streaming screen_env v (generate_id 1) True"
  let ?t = "snd (on_screen demo_env (Some 1) ?f (put_room ''7'' streaming_room s))"
  have tracks: "en_tracks demo_env = screen_env" by (simp add: demo_env_def)
  have "find_room ''7'' s = Some demo_room" "se_id (sv_sessions s 0) = generate_id 1" "se_room (sv_sessions s 0) = ''7''"
    using assms by (simp_all add: showing_def find_room_def)
  moreover have "demo_room\<lparr>rm_streaming := set_insert (generate_id 1) (rm_streaming demo_room)\<rparr> = streaming_room"
    "rm_screen demo_room = Some 1"
    by (simp_all add: streaming_room_def demo_room_def set_insert_def)
  ultimately have added: "add_streaming_peer demo_env (se_id (sv_sessions s 0)) (se_room (sv_sessions s 0)) s = (Some (), ?t)"
    using screen_returns [of demo_env "''{}''" "Some 1" ?f "put_room ''7'' streaming_room s"] demo_dump
    by (simp add: add_streaming_peer_def tracks prod_eq_iff)
  obtain refs where
    "announce demo_env 0 (StreamingStart (Some (se_id (sv_sessions s 0)))) ?t = (Some (), send_all [''{}''] refs ?t)"
    using announce_sends [OF demo_dump] by blast
  then have run: "on_read demo_env False ''s'' 0 s = (Some (), log_call (ReadMessage 0) (send_all [''{}''] refs ?t))"
    by (simp add: on_read_def demo_messages and_then_def added)
  show ?thesis by (rule showing_message [OF assms _ run]) simp
qed

lemma showing_watching:
  assumes "showing v c streaming_room s"
  shows "showing (snd (set_screen_watching screen_env v (generate_id 2) (generate_id 1) True)) c watching_room
    (snd (on_read demo_env False ''w'' 1 s))"
proof -
  let ?f = "\<lambda>v. set_screen_watching screen_env v (generate_id 2) (generate_id 1) True"
  let ?t = "snd (on_screen demo_env (Some 1) ?f (put_room ''7'' watching_room s))"
  have tracks: "en_tracks demo_env = screen_env" by (simp add: demo_env_def)
  have ids: "generate_id 2 \<noteq> generate_id 1" by code_simp
  have room: "find_room ''7'' s = Some streaming_room" "se_id (sv_sessions s 1) = generate_id 2" "se_room (sv_sessions s 1) = ''7''"
    using assms by (simp_all add: showing_def find_room_def)
  have fields: "map_of (rm_sessions streaming_room) (generate_id 2) = Some 1"
    "generate_id 1 \<in> set (keys (rm_sessions streaming_room))" "rm_streaming streaming_room = [generate_id 1]"
    "watched_by (generate_id 2) streaming_room = []" "rm_screen streaming_room = Some 1"
    "put_watched (generate_id 2) (set_insert (generate_id 1) []) streaming_room = watching_room"
    using ids by (simp_all add: streaming_room_def demo_room_def watching_room_def watched_by_def put_watched_def set_insert_def)
  have "add_video_watcher demo_env (generate_id 2) ''7'' (generate_id 1) s = (Some (), ?t)"
    using screen_returns [of demo_env "''{}''" "Some 1" ?f "put_room ''7'' watching_room s"] demo_dump ids fields(2)
    by (simp add: add_video_watcher_def room fields tracks prod_eq_iff kScreenReceiveSlots_def del: One_nat_def)
  then have run: "on_read demo_env False ''w'' 1 s = (Some (), log_call (ReadMessage 1) (send_all [] [] ?t))"
    by (simp add: on_read_def demo_messages and_then_def room send_all_def del: One_nat_def)
  show ?thesis by (rule showing_message [OF assms _ run]) simp
qed

text \<open>Peer 1 offers a video, peer 2 two tracks to receive on; then the two messages.\<close>

definition shown :: "sfu_effect list \<times> u32 \<times> screen_router" where
  "shown =
     (let x1 = register_screen_track screen_env 7 (new_screen_router no_faults True) (generate_id 1) (Some 0) (Some 0);
          x2 = register_screen_track screen_env (fst (snd x1)) (snd (snd x1)) (generate_id 2) (Some 1) (Some 1) in
      register_screen_track screen_env (fst (snd x2)) (snd (snd x2)) (generate_id 2) (Some 2) (Some 1))"

definition shown_router :: screen_router where
  "shown_router =
     snd (set_screen_watching screen_env
       (snd (set_screen_streaming screen_env (snd (snd shown)) (generate_id 1) True))
       (generate_id 2) (generate_id 1) True)"

definition shown_server :: server where
  "shown_server =
     (let s1 = snd (add_screen_track demo_env (Some 1) (generate_id 1) (Some 0) (Some 0) (joined 8));
          s2 = snd (add_screen_track demo_env (Some 1) (generate_id 2) (Some 1) (Some 1) s1);
          s3 = snd (add_screen_track demo_env (Some 1) (generate_id 2) (Some 2) (Some 1) s2);
          s4 = snd (on_read demo_env False ''s'' 0 s3) in
      snd (on_read demo_env False ''w'' 1 s4))"

lemma showing_shown: "showing shown_router (fst (snd shown)) watching_room shown_server"
  unfolding shown_router_def shown_def shown_server_def Let_def
  by (intro showing_watching showing_streaming showing_track showing_start)

lemma shown_binding:
  "map_option (\<lambda>p. map op_publisher (sp_outputs p)) (map_of (sr_peers shown_router) (generate_id 2)) = Some [Some (generate_id 1)]"
  by code_simp

lemma shown_reach: "server_reach no_faults (Some demo_address) (both_connected, shown_server)"
  using showing_shown unfolding showing_def by blast

lemma shown_room: "find_room ''7'' shown_server = Some watching_room" "rm_screen watching_room = Some 1"
    "sv_screen shown_server 1 = shown_router"
  using showing_shown unfolding showing_def
  by (simp_all add: find_room_def watching_room_def streaming_room_def demo_room_def)

section \<open>Leaving\<close>

text \<open>Which peers a router knows.\<close>

lemma keys_update_peers: "keys (fst (update_peers outs put f peers h)) = keys peers"
  by (induction peers arbitrary: h) (auto simp: Let_def prod.case_eq_if)

lemma keys_assign_peers: "keys (fst (assign_peers outs put pub free claim order eligible subs peers h)) = keys peers"
proof (induction subs arbitrary: peers h)
  case (Cons sid subs)
  then show ?case by (cases "map_of peers sid") (simp_all add: Let_def prod.case_eq_if)
qed simp

lemma keys_assign:
  "keys (vr_peers (fst (assign_voice e v))) = keys (vr_peers v)"
  "keys (sr_peers (fst (assign_screen e s))) = keys (sr_peers s)"
  by (simp_all add: assign_voice_def assign_screen_def Let_def prod.case_eq_if keys_assign_peers)

lemma keys_removed:
  "\<not> vr_closed v \<Longrightarrow> keys (vr_peers (snd (remove_voice_peer e v i))) = filter (\<lambda>k. k \<noteq> i) (keys (vr_peers v))"
  "\<not> sr_closed s \<Longrightarrow> keys (sr_peers (snd (remove_screen_peer e s i))) = filter (\<lambda>k. k \<noteq> i) (keys (sr_peers s))"
  by (simp_all add: remove_voice_peer_def remove_screen_peer_def Let_def prod.case_eq_if publish_screen_def
      keys_assign keys_update_peers keys_delete)

lemma filtered_out: "ks = filter (\<lambda>k. k \<noteq> i) js \<Longrightarrow> i \<notin> set ks"
  by simp

lemma removed_voice_peer: "\<not> vr_closed v \<Longrightarrow> i \<notin> set (keys (vr_peers (snd (remove_voice_peer e v i))))"
  by (rule filtered_out [OF keys_removed(1)])

lemma removed_screen_peer:
  assumes "screen_inv s"
  shows "i \<notin> set (keys (sr_peers (snd (remove_screen_peer e s i))))"
proof (cases "sr_closed s")
  case True
  with assms show ?thesis by (simp add: remove_screen_peer_def screen_inv_def)
next
  case False
  show ?thesis by (rule filtered_out [OF keys_removed(2) [OF False]])
qed

text \<open>\<open>on_voice\<close> and \<open>on_screen\<close> replace one router and leave the others.\<close>

lemma voice_deliver: "sv_voice (snd (deliver env c es s)) = sv_voice s"
  by (induction env c es s rule: deliver.induct)
    (auto simp: session_send_def update_session_def log_call_def split: option.splits)

lemma voice_on_voice: "sv_voice (snd (on_voice env (Some w) f s)) = (sv_voice s)(w := snd (f (sv_voice s w)))"
  by (simp add: on_voice_def Let_def prod.case_eq_if voice_deliver)

lemma voice_on_screen: "sv_voice (snd (on_screen env router f s)) = sv_voice s"
  by (simp add: on_screen_def Let_def prod.case_eq_if voice_deliver split: option.splits)

lemma voice_send_all: "sv_voice (send_all texts refs s) = sv_voice s"
proof -
  have "sv_voice (fold (\<lambda>text. session_send text r) texts s) = sv_voice s" for r s
    by (induction texts arbitrary: s) (simp_all add: session_send_def update_session_def)
  then show ?thesis unfolding send_all_def by (induction refs arbitrary: s) simp_all
qed

lemma voice_farewell: "sv_voice (snd (farewell env i was remaining s)) = sv_voice s"
  by (auto simp: farewell_def voice_send_all split: option.splits)

lemma singleton_list: "distinct xs \<Longrightarrow> set xs = {a} \<Longrightarrow> xs = [a]"
  by (cases xs; cases "tl xs") auto

lemma voice_returns:
  assumes "\<And>j. en_dump env j = Some t"
  shows "fst (on_voice env router f s) = Some ()"
  using assms by (simp add: on_voice_def Let_def prod.case_eq_if deliver_returns split: option.splits)

lemma then_returns:
  assumes "fst x = Some a" and "\<And>s. fst (f s) = Some b"
  shows "fst (and_then x f) = Some b"
  using assms by (cases x) (simp add: and_then_def)

lemma unregister_returns:
  assumes "\<And>j. en_dump env j = Some t"
  shows "fst (unregister_session env i rid s) = Some ()"
proof -
  have "fst (farewell env i was refs s) = Some ()" for was refs s
    using assms by (simp add: farewell_def dump_message_def)
  then have "fst (and_then (on_voice env v f s1) (\<lambda>s2. and_then (on_screen env w g s2) (farewell env i was refs))) = Some ()"
    for v f s1 w g was refs
    using voice_returns [OF assms] screen_returns [OF assms] by (intro then_returns) auto
  then show ?thesis by (simp add: unregister_session_def Let_def split: option.splits)
qed

lemma unregister_some:
  "(\<And>j. en_dump env j = Some t) \<Longrightarrow>
   unregister_session env i rid s = (Some (), snd (unregister_session env i rid s))"
  using unregister_returns [of env t i rid s] by (metis prod.collapse)

lemma unregistered_state:
  assumes inv: "server_inv ph s" and room: "find_room rid s = Some room" and i: "i \<in> set (keys (rm_sessions room))"
    and run: "unregister_session env i rid s = (Some (), s')"
  shows "find_room rid s' = (if rm_sessions (leave_room i room) = [] then None else Some (leave_room i room))"
    and "rm_screen room = Some w \<Longrightarrow> sv_screen s' w = snd (remove_screen_peer (en_tracks env) (sv_screen s w) i)"
    and "rm_voice room = Some v \<Longrightarrow> sv_voice s' v = snd (remove_voice_peer (en_tracks env) (sv_voice s v) i)"
proof -
  let ?s1 = "if rm_sessions (leave_room i room) = [] then drop_room rid s else put_room rid (leave_room i room) s"
  let ?f = "\<lambda>v. remove_screen_peer (en_tracks env) v i" and ?g = "\<lambda>v. remove_voice_peer (en_tracks env) v i"
  obtain s2 s3 a b where s2: "on_voice env (rm_voice room) ?g ?s1 = (Some a, s2)"
    and s3: "on_screen env (rm_screen room) ?f s2 = (Some b, s3)"
    and s': "farewell env i (i \<in> set (rm_streaming room)) (map snd (rm_sessions (leave_room i room))) s3 = (Some (), s')"
    using run i by (simp add: unregister_session_def room Let_def) (auto elim!: and_then_Some)
  obtain u where u: "rm_screen room = Some u" using server_invD(3) [OF inv room] by blast
  have c2: "core s2 = core ?s1" using core_voice [of env "rm_voice room" _ ?s1] s2 by (metis snd_conv)
  have c3: "core s3 = core (replace_screen u (snd (?f (sv_screen s2 u))) s2)"
    using core_screen snd_eq [OF s3 [unfolded u]] by metis
  have c4: "core s' = core s3" using core_farewell snd_eq [OF s'] by metis
  have "sv_rooms s' = sv_rooms ?s1" using coreD(2) [OF c4] coreD(2) [OF c3] coreD(2) [OF c2] by simp
  moreover have "distinct (keys (sv_rooms s))" using inv_rooms [OF inv] unfolding rooms_ok_def by blast
  ultimately show "find_room rid s' = (if rm_sessions (leave_room i room) = [] then None else Some (leave_room i room))"
    by (simp add: find_room_def map_of_delete map_of_update)
  show "sv_screen s' w = snd (?f (sv_screen s w))" if "rm_screen room = Some w"
    using coreD(5) [OF c4] coreD(5) [OF c3] coreD(5) [OF c2] u that by simp
  show "sv_voice s' v = snd (?g (sv_voice s v))" if "rm_voice room = Some v"
  proof -
    have "sv_voice ?s1 = sv_voice s" by (simp add: drop_room_def put_room_def)
    moreover have "sv_voice s' = sv_voice s2"
      using voice_farewell snd_eq [OF s'] voice_on_screen snd_eq [OF s3] by metis
    ultimately show ?thesis using voice_on_voice snd_eq [OF s2 [unfolded that]] by (metis fun_upd_same)
  qed
qed

section \<open>Properties\<close>



text \<open>
  C1: in every reachable server, a screen router forwards the media of publisher \<open>q\<close> to peer \<open>k\<close> only
  while both sit in the router's room, \<open>q\<close> is another peer that is streaming, and \<open>k\<close> asked to watch \<open>q\<close>.
\<close>

theorem screen_media_access:
  assumes "server_reach config authenticator (ph, s)"
    and "find_room rid s = Some room" and "rm_screen room = Some w"
    and "map_of (sr_peers (sv_screen s w)) k = Some p" and "x \<in> set (sp_outputs p)" and "op_publisher x = Some q"
  shows "q \<noteq> k \<and> {k, q} \<subseteq> set (keys (rm_sessions room)) \<and> q \<in> set (rm_streaming room) \<and> q \<in> set (watched_by k room)"
proof -
  have inv: "server_inv ph s" using server_reach_inv [OF assms(1)] by simp
  have router: "granted_within (grants (sv_screen s w)) room" "screen_inv (sv_screen s w)"
    using server_invD(3) [OF inv assms(2)] assms(3) by auto
  have "q \<noteq> k" "fst (grants (sv_screen s w) q)" "q \<in> snd (grants (sv_screen s w) k)"
    using bound_pair_granted [OF router(2) assms(4-6)] by auto
  with router(1) have granted: "q \<in> set (rm_streaming room)" "q \<in> set (watched_by k room)"
    unfolding granted_within_def by blast+
  have table: "table_ok room" by (rule server_invD(1) [OF inv assms(2)])
  then have "q \<in> set (keys (rm_sessions room))" using granted(1) unfolding table_ok_def Let_def by blast
  moreover have "k \<in> set (keys (rm_sessions room))"
    using granted(2) table by (auto simp: watched_by_def table_ok_def Let_def split: option.splits dest!: map_of_SomeD)
  ultimately show ?thesis using granted \<open>q \<noteq> k\<close> by blast
qed

theorem screen_media_access_witness:
  "generate_id 1 \<in> set (rm_streaming watching_room) \<and> generate_id 1 \<in> set (watched_by (generate_id 2) watching_room)"
proof -
  obtain p where p: "map_of (sr_peers shown_router) (generate_id 2) = Some p" "map op_publisher (sp_outputs p) = [Some (generate_id 1)]"
    using shown_binding by auto
  then obtain x where x: "x \<in> set (sp_outputs p)" "op_publisher x = Some (generate_id 1)" by (cases "sp_outputs p") auto
  show ?thesis
    using screen_media_access [OF shown_reach shown_room(1,2), unfolded shown_room(3), OF p(1) x] by simp
qed



text \<open>
  C10: when a peer leaves, the room disappears exactly if it was the last one; otherwise the room
  keeps the other members and forgets the peer everywhere: it neither streams, nor watches, nor is
  watched. Both routers of the room forget it too, unless they were closed, so no slot of anyone is
  bound to it and none of its own is left.
\<close>

theorem departed_peer_forgotten:
  assumes "server_reach config authenticator (ph, s)" and "find_room rid s = Some room"
    and "i \<in> set (keys (rm_sessions room))" and "unregister_session env i rid s = (Some (), s')"
  shows "(case find_room rid s' of
      None \<Rightarrow> keys (rm_sessions room) = [i]
    | Some room' \<Rightarrow>
        keys (rm_sessions room') = filter (\<lambda>k. k \<noteq> i) (keys (rm_sessions room)) \<and> rm_sessions room' \<noteq> [] \<and>
        i \<notin> set (rm_streaming room') \<and> (\<forall>k. i \<notin> set (watched_by k room')) \<and> watched_by i room' = []) \<and>
    (\<forall>w. rm_screen room = Some w \<longrightarrow> i \<notin> set (keys (sr_peers (sv_screen s' w))) \<and>
      (\<forall>k p x. map_of (sr_peers (sv_screen s' w)) k = Some p \<and> x \<in> set (sp_outputs p) \<longrightarrow> op_publisher x \<noteq> Some i)) \<and>
    (\<forall>v. rm_voice room = Some v \<and> \<not> vr_closed (sv_voice s v) \<longrightarrow> i \<notin> set (keys (vr_peers (sv_voice s' v))))"
proof (intro conjI allI impI)
  have inv: "server_inv ph s" using server_reach_inv [OF assms(1)] by simp
  note state = unregistered_state [OF inv assms(2-4)]
  have table: "table_ok room" by (rule server_invD(1) [OF inv assms(2)])
  have rest: "keys (rm_sessions (leave_room i room)) = filter (\<lambda>k. k \<noteq> i) (keys (rm_sessions room))"
    by (simp add: leave_room_def keys_delete)
  have watched: "set (watched_by k (leave_room i room)) = (if k = i then {} else set (watched_by k room) - {i})" for k
    by (rule watched_by_leave [OF table])
  have stream: "i \<notin> set (rm_streaming (leave_room i room))" by (simp add: leave_room_def)
  have alone: "keys (rm_sessions room) = [i]" if "rm_sessions (leave_room i room) = []"
  proof -
    have "filter (\<lambda>k. k \<noteq> i) (keys (rm_sessions room)) = []" using rest that by simp
    then have "set (keys (rm_sessions room)) = {i}" using assms(3) by (auto simp: filter_empty_conv)
    moreover have "distinct (keys (rm_sessions room))" using table unfolding table_ok_def Let_def by blast
    ultimately show ?thesis by (rule singleton_list [rotated])
  qed
  have "watched_by i (leave_room i room) = []" "i \<notin> set (watched_by k (leave_room i room))" for k
    using watched [of i] watched [of k] by auto
  then show "case find_room rid s' of
      None \<Rightarrow> keys (rm_sessions room) = [i]
    | Some room' \<Rightarrow>
        keys (rm_sessions room') = filter (\<lambda>k. k \<noteq> i) (keys (rm_sessions room)) \<and> rm_sessions room' \<noteq> [] \<and>
        i \<notin> set (rm_streaming room') \<and> (\<forall>k. i \<notin> set (watched_by k room')) \<and> watched_by i room' = []"
    unfolding state(1) using rest stream alone by simp
  fix w
  assume w: "rm_screen room = Some w"
  obtain es v' where v': "remove_screen_peer (en_tracks env) (sv_screen s w) i = (es, v')" by fastforce
  have within: "granted_within (grants (sv_screen s w)) room" "screen_inv (sv_screen s w)"
    using server_invD(3) [OF inv assms(2)] w by auto
  have w': "sv_screen s' w = v'" using state(2) [OF w] v' by simp
  show "i \<notin> set (keys (sr_peers (sv_screen s' w)))"
    using removed_screen_peer [OF within(2), of i "en_tracks env"] unfolding w' v' snd_conv .
  show "op_publisher x \<noteq> Some i" if "map_of (sr_peers (sv_screen s' w)) k = Some p \<and> x \<in> set (sp_outputs p)" for k p x
    using bound_pair_granted [of v' k p x i] removed_within [OF table within(2,1) v'] that unfolding w' by blast
next
  fix v
  assume v: "rm_voice room = Some v \<and> \<not> vr_closed (sv_voice s v)"
  have "server_inv ph s" using server_reach_inv [OF assms(1)] by simp
  note state = unregistered_state(3) [OF this assms(2-4)]
  from v show "i \<notin> set (keys (vr_peers (sv_voice s' v)))" using state removed_voice_peer by simp
qed

theorem departed_peer_forgotten_witness:
  "generate_id 1 \<notin> set (keys (sr_peers (sv_screen (snd (unregister_session demo_env (generate_id 1) ''7'' shown_server)) 1)))"
proof -
  have "generate_id 1 \<in> set (keys (rm_sessions watching_room))"
    by (simp add: watching_room_def streaming_room_def demo_room_def)
  from departed_peer_forgotten [OF shown_reach shown_room(1) this unregister_some [OF demo_dump]] shown_room(2)
  show ?thesis by blast
qed


text \<open>An anonymous session that asked for \<^verbatim>\<open>/channels/7?u=%FF\<close>; the dump refuses the byte \<^verbatim>\<open>FF\<close>.\<close>

definition strict_env :: server_env where
  "strict_env = demo_env\<lparr>en_dump := (\<lambda>j. case json_find j ''username'' of
     Some (JString u) \<Rightarrow> if CHR 0xFF \<in> set u then None else Some ''{}'' | _ \<Rightarrow> Some ''{}'')\<rparr>"

definition bad_request :: request where
  "bad_request = \<lparr>rq_upgrade = True, rq_get = True, rq_target = ''/channels/7?u=%FF'', rq_authorization = []\<rparr>"

definition bad_server :: server where
  "bad_server = snd (on_http_read strict_env False bad_request 0 (on_connection False 1 True (new_server no_faults None 7)))"

lemma bad_state:
  "sv_stopping bad_server = False" "find_room ''7'' bad_server = None \<longleftrightarrow> True"
  "se_room (sv_sessions bad_server 0) = ''7''" "se_username (sv_sessions bad_server 0) = [CHR 0xFF]"
  "se_id (sv_sessions bad_server 0) = generate_id 1"
  "en_dump strict_env (encode (Welcome (generate_id 1) [] [])) = Some ''{}''"
  "en_dump strict_env (encode (PeerJoined (generate_id 1) [CHR 0xFF])) = None"
  by (code_simp | simp add: bad_server_def on_http_read_def new_server_def on_connection_def find_room_def
      log_call_def update_session_def Let_def)+


end
