(* ===== verification/Proxy_Config.thy ===== *)
theory Proxy_Config
  imports Http_Requests
begin

text \<open>
  Which proxy a connection goes through: \<^verbatim>\<open>core/src/utils/proxy_config.cpp\<close>. Proxy URLs, the
  \<^verbatim>\<open>NO_PROXY\<close> list and the choice among the environment's variables. \<^verbatim>\<open>std::tolower\<close> and
  \<^verbatim>\<open>std::isspace\<close> are those of the C locale; the environment is a function from names to values.
\<close>

section \<open>Texts\<close>

definition lower_ascii :: "char \<Rightarrow> char" where
  "lower_ascii c = (let n = of_char c :: nat in if 65 \<le> n \<and> n \<le> 90 then char_of (n + 32) else c)"

definition to_lower :: "string \<Rightarrow> string" where
  "to_lower s = map lower_ascii s"

definition trim_space :: "string \<Rightarrow> string" where
  "trim_space s = rev (dropWhile is_space (rev (dropWhile is_space s)))"

text \<open>The texts around the last \<open>c\<close>, and around the first \<^verbatim>\<open>://\<close>.\<close>

definition around_last :: "char \<Rightarrow> string \<Rightarrow> (string \<times> string) option" where
  "around_last c s =
     (case after c (rev s) of None \<Rightarrow> None | Some r \<Rightarrow> Some (rev r, rev (before c (rev s))))"

fun around_scheme :: "string \<Rightarrow> (string \<times> string) option" where
  "around_scheme [] = None"
| "around_scheme (x # s) =
     (if x = CHR '':'' \<and> take 2 s = ''//'' then Some ([], drop 2 s)
      else map_option (\<lambda>(a, b). (x # a, b)) (around_scheme s))"

definition parse_proxy_port :: "string \<Rightarrow> nat option" where
  "parse_proxy_port s =
     (if s = [] \<or> 5 < length s \<or> \<not> list_all is_digit s then None
      else let v = digits_value s in if v = 0 \<or> 65535 < v then None else Some v)"

text \<open>The host without brackets, and the port if one is given.\<close>

definition split_host_port :: "string \<Rightarrow> (string \<times> nat option) option" where
  "split_host_port authority =
     (case authority of
        [] \<Rightarrow> None
      | x # s \<Rightarrow>
          if x = CHR ''['' then
            (case after CHR '']'' s of
               None \<Rightarrow> None
             | Some rest \<Rightarrow>
                 let host = before CHR '']'' s in
                 if host = [] then None
                 else if rest = [] then Some (host, None)
                 else if hd rest \<noteq> CHR '':'' then None
                 else map_option (\<lambda>p. (host, Some p)) (parse_proxy_port (tl rest)))
          else
            (case around_last CHR '':'' authority of
               None \<Rightarrow> Some (authority, None)
             | Some (host, port) \<Rightarrow>
                 if CHR '':'' \<in> set host then Some (authority, None)
                 else if host = [] then None
                 else map_option (\<lambda>p. (host, Some p)) (parse_proxy_port port)))"

section \<open>Proxies\<close>

datatype proxy_scheme = Http | Socks5

record proxy_config =
  px_scheme :: proxy_scheme
  px_host :: string
  px_port :: nat
  px_username :: string
  px_password :: string

definition kDefaultHttpPort :: nat where
  "kDefaultHttpPort = 8080"

definition kDefaultSocksPort :: nat where
  "kDefaultSocksPort = 1080"

definition authenticated :: "proxy_config \<Rightarrow> bool" where
  "authenticated p \<longleftrightarrow> px_username p \<noteq> []"

definition proxy_url :: "proxy_config \<Rightarrow> string" where
  "proxy_url p =
     (if px_scheme p = Socks5 then ''socks5://'' else ''http://'') @
     (if CHR '':'' \<in> set (px_host p) then ''['' @ px_host p @ '']'' else px_host p) @
     '':'' @ to_string (px_port p)"

definition scheme_of :: "string \<Rightarrow> proxy_scheme option" where
  "scheme_of s =
     (let l = to_lower s in
      if l = ''http'' then Some Http else if l = ''socks5'' \<or> l = ''socks5h'' then Some Socks5 else None)"

text \<open>Scheme and rest; then user, password and rest, up to the last at sign.\<close>

definition take_scheme :: "string \<Rightarrow> (proxy_scheme \<times> string) option" where
  "take_scheme text =
     (case around_scheme text of
        None \<Rightarrow> Some (Http, text)
      | Some (scheme, rest) \<Rightarrow> map_option (\<lambda>x. (x, rest)) (scheme_of scheme))"

definition take_credentials :: "string \<Rightarrow> (string \<times> string \<times> string) option" where
  "take_credentials text =
     (case around_last CHR ''@'' text of
        None \<Rightarrow> Some ([], [], text)
      | Some (credentials, rest) \<Rightarrow>
          let user = before CHR '':'' credentials;
              password = (case after CHR '':'' credentials of None \<Rightarrow> [] | Some w \<Rightarrow> w) in
          if user = [] then None else Some (user, password, rest))"

definition parse_proxy_url :: "string \<Rightarrow> proxy_config option" where
  "parse_proxy_url raw =
     (let text = trim_space raw in
      if text = [] then None
      else do {
        (scheme, rest) \<leftarrow> take_scheme text;
        (user, password, authority) \<leftarrow> take_credentials rest;
        (host, port) \<leftarrow> split_host_port (before CHR ''/'' authority);
        Some \<lparr>px_scheme = scheme, px_host = host,
          px_port = (case port of Some n \<Rightarrow> n | None \<Rightarrow> if scheme = Socks5 then kDefaultSocksPort else kDefaultHttpPort),
          px_username = user, px_password = password\<rparr>
      })"

section \<open>The exception list\<close>

definition is_separator :: "char \<Rightarrow> bool" where
  "is_separator c \<longleftrightarrow> c = CHR '','' \<or> c = CHR '' '' \<or> c = CHR 0x09"

definition has_suffix :: "string \<Rightarrow> string \<Rightarrow> bool" where
  "has_suffix target s \<longleftrightarrow> length s \<le> length target \<and> drop (length target - length s) target = s"

text \<open>One entry, in lower case, against the lower-case host.\<close>

definition entry_matches :: "string \<Rightarrow> string \<Rightarrow> bool" where
  "entry_matches entry target \<longleftrightarrow>
     (if entry = [] then False
      else if entry = ''*'' then True
      else
        let wild = take 2 entry = ''*.'';
            dotted = \<not> wild \<and> hd entry = CHR ''.'';
            suffix = (if wild then drop 2 entry else if dotted then tl entry else entry) in
        if suffix = [] then False
        else \<not> (wild \<or> dotted) \<and> target = suffix \<or>
             length suffix < length target \<and> has_suffix target suffix \<and>
             target ! (length target - length suffix - 1) = CHR ''.'')"

text \<open>The loop over the entries from \<open>position\<close> on; the last entry ends the text.\<close>

function no_proxy_loop :: "string \<Rightarrow> string \<Rightarrow> nat \<Rightarrow> bool" where
  "no_proxy_loop no_proxy target position =
     (if length no_proxy < position then False
      else
        let rest = drop position no_proxy;
            field = takeWhile (\<lambda>c. \<not> is_separator c) rest in
        if entry_matches (to_lower (trim_space field)) target then True
        else no_proxy_loop no_proxy target (position + length field + 1))"
  by pat_completeness auto
termination
  by (relation "measure (\<lambda>(s, _, position). Suc (length s) - position)") auto

declare no_proxy_loop.simps [simp del]

definition no_proxy_matches :: "string \<Rightarrow> string \<Rightarrow> bool" where
  "no_proxy_matches no_proxy host \<longleftrightarrow> host \<noteq> [] \<and> no_proxy_loop no_proxy (to_lower host) 0"

section \<open>The environment\<close>

type_synonym environment = "string \<Rightarrow> string option"

definition environment_value :: "environment \<Rightarrow> string \<Rightarrow> string option" where
  "environment_value env name =
     (case env name of
        None \<Rightarrow> None
      | Some v \<Rightarrow> if trim_space v = [] then None else Some (trim_space v))"

definition proxy_variable :: "environment \<Rightarrow> string \<Rightarrow> string \<Rightarrow> string option" where
  "proxy_variable env upper lower =
     (case environment_value env upper of Some v \<Rightarrow> Some v | None \<Rightarrow> environment_value env lower)"

definition candidate_names :: "string \<Rightarrow> (string \<times> string) list" where
  "candidate_names scheme =
     (if scheme = ''https'' \<or> scheme = ''wss''
      then [(''HTTPS_PROXY'', ''https_proxy''), (''ALL_PROXY'', ''all_proxy''), (''HTTP_PROXY'', ''http_proxy'')]
      else [(''HTTP_PROXY'', ''http_proxy''), (''ALL_PROXY'', ''all_proxy'')])"

fun first_proxy :: "environment \<Rightarrow> (string \<times> string) list \<Rightarrow> proxy_config option" where
  "first_proxy env [] = None"
| "first_proxy env ((upper, lower) # names) =
     (case proxy_variable env upper lower of
        Some v \<Rightarrow> parse_proxy_url v
      | None \<Rightarrow> first_proxy env names)"

definition proxy_from_environment :: "environment \<Rightarrow> string \<Rightarrow> string \<Rightarrow> proxy_config option" where
  "proxy_from_environment env target_scheme target_host =
     (if (case proxy_variable env ''NO_PROXY'' ''no_proxy'' of Some v \<Rightarrow> no_proxy_matches v target_host | None \<Rightarrow> False)
      then None
      else first_proxy env (candidate_names (to_lower target_scheme)))"

definition proxy_for_url :: "environment \<Rightarrow> string \<Rightarrow> proxy_config option" where
  "proxy_for_url env url =
     (case around_scheme (trim_space url) of
        None \<Rightarrow> None
      | Some (scheme, rest) \<Rightarrow>
          let path_off = before CHR ''/'' rest;
              authority = (case around_last CHR ''@'' path_off of None \<Rightarrow> path_off | Some (_, a) \<Rightarrow> a) in
          (case split_host_port authority of
             None \<Rightarrow> None
           | Some (host, _) \<Rightarrow> proxy_from_environment env (to_lower scheme) host))"

section \<open>What the exception list covers\<close>

text \<open>The entries of the list, and the hosts an entry stands for, without positions and indices.\<close>

function entries :: "string \<Rightarrow> string list" where
  "entries s =
     (let field = takeWhile (\<lambda>c. \<not> is_separator c) s in
      field # (if length field < length s then entries (drop (Suc (length field)) s) else []))"
  by pat_completeness auto
termination
  by (relation "measure length") auto

declare entries.simps [simp del]

definition under :: "string \<Rightarrow> string \<Rightarrow> bool" where
  "under domain host \<longleftrightarrow> domain \<noteq> [] \<and> (\<exists>sub. host = sub @ CHR ''.'' # domain)"

definition covers :: "string \<Rightarrow> string \<Rightarrow> bool" where
  "covers entry host \<longleftrightarrow>
     entry = ''*'' \<or>
     (\<exists>domain. (entry = ''*.'' @ domain \<or> entry = ''.'' @ domain) \<and> under domain host) \<or>
     entry \<noteq> [] \<and> take 2 entry \<noteq> ''*.'' \<and> hd entry \<noteq> CHR ''.'' \<and> (host = entry \<or> under entry host)"

lemma dot_suffix:
  "length suffix < length host \<and> has_suffix host suffix \<and> host ! (length host - length suffix - 1) = CHR ''.'' \<longleftrightarrow>
   (\<exists>sub. host = sub @ CHR ''.'' # suffix)"
proof
  assume *: "length suffix < length host \<and> has_suffix host suffix \<and> host ! (length host - length suffix - 1) = CHR ''.''"
  let ?n = "length host - length suffix - 1"
  have "?n < length host" using * by linarith
  then have "host = take ?n host @ host ! ?n # drop (Suc ?n) host" by (rule id_take_nth_drop)
  moreover have "Suc ?n = length host - length suffix" using * by linarith
  ultimately show "\<exists>sub. host = sub @ CHR ''.'' # suffix" using * unfolding has_suffix_def by metis
next
  assume "\<exists>sub. host = sub @ CHR ''.'' # suffix"
  then obtain sub where host: "host = sub @ CHR ''.'' # suffix" by blast
  have "drop (length host - length suffix) host = suffix" by (simp add: host)
  moreover have "host ! (length host - length suffix - 1) = CHR ''.''" by (simp add: host)
  ultimately show "length suffix < length host \<and> has_suffix host suffix \<and> host ! (length host - length suffix - 1) = CHR ''.''"
    by (simp add: host has_suffix_def)
qed

lemma star_dot: "take 2 entry = ''*.'' \<longleftrightarrow> (\<exists>domain. entry = ''*.'' @ domain)"
  by (cases entry; cases "tl entry") auto

lemma entry_matches_covers:
  assumes "host \<noteq> []"
  shows "entry_matches entry host \<longleftrightarrow> covers entry host"
proof -
  consider (empty) "entry = []" | (star) "entry = ''*''" | (wild) domain where "entry = ''*.'' @ domain"
    | (dotted) domain where "entry = ''.'' @ domain"
    | (plain) "entry \<noteq> []" "entry \<noteq> ''*''" "take 2 entry \<noteq> ''*.''" "hd entry \<noteq> CHR ''.''"
    using star_dot by (metis append_Cons append_Nil list.collapse)
  then show ?thesis
  proof cases
    case (wild domain)
    then show ?thesis using dot_suffix [of domain host] by (auto simp: entry_matches_def covers_def under_def Let_def)
  next
    case (dotted domain)
    then show ?thesis using dot_suffix [of domain host] by (auto simp: entry_matches_def covers_def under_def Let_def)
  next
    case plain
    then have "\<nexists>domain. entry = ''*.'' @ domain \<or> entry = ''.'' @ domain" using star_dot by auto
    with plain show ?thesis using dot_suffix [of entry host] by (auto simp: entry_matches_def covers_def under_def Let_def)
  qed (simp_all add: entry_matches_def covers_def)
qed

lemma no_proxy_loop_entries:
  "position \<le> length s \<Longrightarrow>
   no_proxy_loop s target position \<longleftrightarrow> (\<exists>e\<in>set (entries (drop position s)). entry_matches (to_lower (trim_space e)) target)"
proof (induction s target position rule: no_proxy_loop.induct)
  case (1 s target position)
  define field where "field = takeWhile (\<lambda>c. \<not> is_separator c) (drop position s)"
  have len: "length field \<le> length s - position" using length_takeWhile_le [of _ "drop position s"] by (simp add: field_def)
  have unfold_loop: "no_proxy_loop s target position \<longleftrightarrow>
      entry_matches (to_lower (trim_space field)) target \<or> no_proxy_loop s target (position + length field + 1)"
    using 1(2) by (subst no_proxy_loop.simps) (simp add: field_def Let_def)
  have unfold_entries: "entries (drop position s) =
      field # (if length field < length s - position then entries (drop (position + length field + 1) s) else [])"
    by (subst entries.simps) (simp add: field_def Let_def add.commute)
  show ?case
  proof (cases "length field < length s - position")
    case True
    then have pos: "position + length field + 1 \<le> length s" by simp
    show ?thesis
    proof (cases "entry_matches (to_lower (trim_space field)) target")
      case False
      have "no_proxy_loop s target (position + length field + 1) \<longleftrightarrow>
          (\<exists>e\<in>set (entries (drop (position + length field + 1) s)). entry_matches (to_lower (trim_space e)) target)"
        using 1(1) [OF _ refl field_def False] 1(2) pos by simp
      with True False unfold_loop unfold_entries show ?thesis by simp
    qed (simp add: unfold_loop unfold_entries)
  next
    case False
    then have "\<not> no_proxy_loop s target (position + length field + 1)"
      using len by (simp add: no_proxy_loop.simps [of s target "position + length field + 1"]) (simp add: no_proxy_loop.simps [of s target "Suc (length s)"] 1(2))
    with False unfold_loop unfold_entries show ?thesis by simp
  qed
qed

lemma lower_nonempty: "host \<noteq> [] \<Longrightarrow> to_lower host \<noteq> []"
  by (simp add: to_lower_def)


lemma plain_entry_matches_subdomain: "no_proxy_matches ''example.com'' ''api.example.com''"
  by code_simp

section \<open>Rendering and reading back\<close>

text \<open>What a host and a port that were split out of an authority look like.\<close>

lemma parse_proxy_port_range: "parse_proxy_port s = Some v \<Longrightarrow> 1 \<le> v \<and> v \<le> 65535"
  by (auto simp: parse_proxy_port_def Let_def split: if_splits)

lemma around_last_Some:
  assumes "around_last c s = Some (a, b)"
  shows "s = a @ c # b \<and> c \<notin> set b"
proof -
  from assms obtain r where r: "after c (rev s) = Some r" "a = rev r" "b = rev (before c (rev s))"
    by (auto simp: around_last_def split: option.splits)
  have "s = rev (before c (rev s) @ c # r)" using after_Some [OF r(1)] by (metis rev_rev_ident)
  with r before_no [of c "rev s"] show ?thesis by simp
qed

lemma around_last_append: "c \<notin> set b \<Longrightarrow> around_last c (a @ c # b) = Some (a, b)"
  by (simp add: around_last_def after_append before_append)

lemma around_last_None: "around_last c s = None \<longleftrightarrow> c \<notin> set s"
  using after_None [of c "rev s"] by (cases "after c (rev s)") (simp_all add: around_last_def)

lemma split_host_port_Some:
  assumes "split_host_port authority = Some (host, port)"
  shows "host \<noteq> [] \<and> set host \<subseteq> set authority \<and> (\<forall>n. port = Some n \<longrightarrow> 1 \<le> n \<and> n \<le> 65535)"
proof (cases authority)
  case (Cons x s)
  have bracket: ?thesis if rest: "after CHR '']'' s = Some rest" and host: "host = before CHR '']'' s" "host \<noteq> []"
      and port: "\<forall>n. port = Some n \<longrightarrow> 1 \<le> n \<and> n \<le> 65535" for rest
    using after_Some [OF rest] host port by (auto simp: Cons before_def dest: set_takeWhileD)
  show ?thesis
  proof (cases "x = CHR ''[''")
    case True
    then show ?thesis using assms bracket parse_proxy_port_range
      by (auto simp: split_host_port_def Cons Let_def split: option.splits if_splits)
  next
    case False
    show ?thesis
    proof (cases "around_last CHR '':'' authority")
      case None
      with False assms show ?thesis by (auto simp: split_host_port_def Cons)
    next
      case (Some hp)
      obtain h q where hp: "hp = (h, q)" by (cases hp)
      have "authority = h @ CHR '':'' # q" using around_last_Some Some hp by blast
      then have "set h \<subseteq> set authority" by auto
      with False assms Some hp parse_proxy_port_range [of q] Cons show ?thesis
        by (auto simp: split_host_port_def split: if_splits)
    qed
  qed
qed (use assms in \<open>simp add: split_host_port_def\<close>)

lemma take_credentials_Some:
  "take_credentials text = Some (user, password, rest) \<Longrightarrow> CHR ''@'' \<notin> set rest"
  by (auto simp: take_credentials_def Let_def around_last_None dest!: around_last_Some split: option.splits if_splits)

lemma parse_proxy_url_fields:
  assumes "parse_proxy_url s = Some p"
  shows "px_host p \<noteq> [] \<and> CHR ''@'' \<notin> set (px_host p) \<and> CHR ''/'' \<notin> set (px_host p) \<and>
    1 \<le> px_port p \<and> px_port p \<le> 65535"
proof -
  from assms obtain rest user password authority host port where
    cred: "take_credentials rest = Some (user, password, authority)" and
    split: "split_host_port (before CHR ''/'' authority) = Some (host, port)" and
    p: "px_host p = host"
      "px_port p = (case port of Some n \<Rightarrow> n | None \<Rightarrow> if px_scheme p = Socks5 then kDefaultSocksPort else kDefaultHttpPort)"
    by (auto simp: parse_proxy_url_def Let_def Option.bind_eq_Some_conv split: if_splits)
  have "set (before CHR ''/'' authority) \<subseteq> set authority" by (auto simp: before_def dest: set_takeWhileD)
  then show ?thesis
    using split_host_port_Some [OF split] take_credentials_Some [OF cred] before_no [of "CHR ''/''" authority]
    by (auto simp: p kDefaultSocksPort_def kDefaultHttpPort_def split: option.splits)
qed

lemma parse_proxy_port_to_string:
  assumes "1 \<le> n" and "n \<le> 65535"
  shows "parse_proxy_port (to_string n) = Some n"
proof -
  have step: "length (to_string m) \<le> Suc k" if "m < 10 * b" and "\<And>j. j < b \<Longrightarrow> length (to_string j) \<le> k" and "0 < k" for m b k
    using that by (subst to_string.simps) (auto simp: less_mult_imp_div_less mult.commute)
  have one: "length (to_string m) \<le> 1" if "m < 10" for m using that by (subst to_string.simps) simp
  have two: "length (to_string m) \<le> 2" if "m < 100" for m using step [of m 10 1] one that by simp
  have three: "length (to_string m) \<le> 3" if "m < 1000" for m using step [of m 100 2] two that by simp
  have four: "length (to_string m) \<le> 4" if "m < 10000" for m using step [of m 1000 3] three that by simp
  have "length (to_string n) \<le> 5" using step [of n 10000 4] four assms by simp
  then show ?thesis using assms to_string_digits [of n]
    by (simp add: parse_proxy_port_def digits_value_to_string list_all_iff)
qed

lemma split_host_port_rendered:
  assumes "host \<noteq> []" and "CHR ''['' \<notin> set host" and "CHR '']'' \<notin> set host" and "1 \<le> n" and "n \<le> 65535"
  shows "split_host_port ((if CHR '':'' \<in> set host then ''['' @ host @ '']'' else host) @ '':'' @ to_string n) = Some (host, Some n)"
proof (cases "CHR '':'' \<in> set host")
  case True
  then show ?thesis using assms
    by (simp add: split_host_port_def after_append before_append parse_proxy_port_to_string Let_def)
next
  case False
  have "is_digit CHR '':'' = False" by (simp add: is_digit_def)
  then have digits: "CHR '':'' \<notin> set (to_string n)" using to_string_digits [of n] by metis
  obtain x s where host: "host = x # s" "x \<noteq> CHR ''[''" using assms by (cases host) auto
  show ?thesis using False host around_last_append [OF digits, of host]
    using parse_proxy_port_to_string [OF assms(4,5)] by (simp add: split_host_port_def)
qed

lemma trim_space_id:
  assumes "s \<noteq> []" and "\<not> is_space (hd s)" and "\<not> is_space (List.last s)"
  shows "trim_space s = s"
proof -
  have "dropWhile is_space s = s" using assms(1,2) by (cases s) auto
  moreover have "dropWhile is_space (rev s) = rev s" using assms(1,3) by (cases s rule: rev_cases) auto
  ultimately show ?thesis by (simp add: trim_space_def)
qed

lemma take_scheme_rendered:
  "take_scheme ((if scheme = Socks5 then ''socks5://'' else ''http://'') @ rest) = Some (scheme, rest)"
  by (cases scheme) (simp_all add: take_scheme_def scheme_of_def to_lower_def lower_ascii_def Let_def)

text \<open>
  The URL that a proxy is logged as reads back as the same proxy without its credentials,
  whatever text the proxy was parsed from (a bare host, a bracketed or bare IPv6 literal, a user and
  a password, a trailing path, a missing port). Only brackets inside the host are excluded: an
  authority such as ``a]:b:c'' is taken as a bare IPv6 literal and is rendered between brackets.
\<close>

theorem proxy_url_roundtrip:
  assumes "parse_proxy_url s = Some p" and "CHR ''['' \<notin> set (px_host p)" and "CHR '']'' \<notin> set (px_host p)"
  shows "parse_proxy_url (proxy_url p) = Some (p\<lparr>px_username := [], px_password := []\<rparr>)"
proof -
  let ?host = "px_host p"
  let ?rest = "(if CHR '':'' \<in> set ?host then ''['' @ ?host @ '']'' else ?host) @ '':'' @ to_string (px_port p)"
  have fields: "?host \<noteq> []" "CHR ''@'' \<notin> set ?host" "CHR ''/'' \<notin> set ?host" "1 \<le> px_port p" "px_port p \<le> 65535"
    using parse_proxy_url_fields [OF assms(1)] by simp_all
  have no_digit: "\<not> is_digit CHR ''@''" "\<not> is_digit CHR ''/''" by (simp_all add: is_digit_def)
  have rest: "CHR ''@'' \<notin> set ?rest" "CHR ''/'' \<notin> set ?rest"
    using fields no_digit to_string_digits [of "px_port p"] by auto
  have url: "proxy_url p = (if px_scheme p = Socks5 then ''socks5://'' else ''http://'') @ ?rest"
    by (simp add: proxy_url_def)
  have last: "List.last (proxy_url p) = List.last (to_string (px_port p))" by (simp add: proxy_url_def)
  have "is_digit (List.last (proxy_url p))"
    unfolding last using to_string_digits [of "px_port p"] last_in_set [OF to_string_not_empty] by blast
  then have trim: "trim_space (proxy_url p) = proxy_url p"
    using digit_no_sign by (intro trim_space_id) (auto simp: proxy_url_def is_space_def)
  have nonempty: "proxy_url p \<noteq> []" by (simp add: proxy_url_def)
  have scheme: "take_scheme (proxy_url p) = Some (px_scheme p, ?rest)" unfolding url by (rule take_scheme_rendered)
  have credentials: "take_credentials ?rest = Some ([], [], ?rest)"
    using around_last_None [of "CHR ''@''" ?rest] rest(1) unfolding take_credentials_def by simp
  have path: "before CHR ''/'' ?rest = ?rest" by (rule before_id [OF rest(2)])
  have split: "split_host_port ?rest = Some (?host, Some (px_port p))"
    by (rule split_host_port_rendered [OF fields(1) assms(2,3) fields(4,5)])
  show ?thesis
    unfolding parse_proxy_url_def Let_def trim if_not_P [OF nonempty] scheme bind.bind_lunit split_conv credentials path split
    by simp
qed

theorem proxy_url_roundtrip_witness:
  "parse_proxy_url ''http://[::1]:8080'' =
     Some \<lparr>px_scheme = Http, px_host = ''::1'', px_port = 8080, px_username = [], px_password = []\<rparr>"
proof -
  let ?p = "\<lparr>px_scheme = Http, px_host = ''::1'', px_port = 8080, px_username = ''bob'', px_password = ''pw''\<rparr>"
  have parsed: "parse_proxy_url '' HTTP://bob:pw@::1/path '' = Some ?p" by code_simp
  have hosts: "CHR ''['' \<notin> set (px_host ?p)" "CHR '']'' \<notin> set (px_host ?p)" by simp_all
  have "proxy_url ?p = ''http://[::1]:8080''"
    by (simp add: proxy_url_def to_string.simps [of 8080] to_string.simps [of 808] to_string.simps [of 80]
        to_string.simps [of 8] digit_char_def) code_simp
  with proxy_url_roundtrip [OF parsed hosts] show ?thesis by simp
qed

end
