(* ===== verification/Client_Transport.thy ===== *)
theory Client_Transport
  imports Signaling_Protocol Proxy_Config
begin

text \<open>
  The client's end of the signaling connection: \<^verbatim>\<open>Transport\<close> of \<^verbatim>\<open>core/src/transport.cpp\<close>. Its
  WebSocket objects are numbered in the order they are made; what is done to them and what callbacks
  are told are two logs of the state. Each function is one call, or one callback of the WebSocket,
  run to its end. Whether the library makes, opens and sends without an exception is an argument, as
  are the JSON text functions and the environment.
\<close>

section \<open>State\<close>

datatype transport_state = New | Connecting | Connected | Disconnected | Failed | Closed

datatype signal =
    Sig_Connection bool
  | Sig_Connected
  | Sig_Disconnected
  | Sig_Peer_Joined peer_id
  | Sig_Peer_Left peer_id
  | Sig_Streaming_Started peer_id
  | Sig_Streaming_Stopped peer_id
  | Sig_Media_Answer connection_id string
  | Sig_Media_Candidate connection_id string string
  | Sig_Track_Binding connection_id string "peer_id option"
  | Sig_Watch_Rejected peer_id watch_reject_reason
  | Sig_Peer_Identity peer_id username

datatype kind =
    K_Connection | K_Connected | K_Disconnected | K_Peer_Joined | K_Peer_Left | K_Streaming_Started
  | K_Streaming_Stopped | K_Media_Answer | K_Media_Candidate | K_Track_Binding | K_Watch_Rejected
  | K_Peer_Identity

fun kind_of :: "signal \<Rightarrow> kind" where
  "kind_of (Sig_Connection b) = K_Connection"
| "kind_of Sig_Connected = K_Connected"
| "kind_of Sig_Disconnected = K_Disconnected"
| "kind_of (Sig_Peer_Joined p) = K_Peer_Joined"
| "kind_of (Sig_Peer_Left p) = K_Peer_Left"
| "kind_of (Sig_Streaming_Started p) = K_Streaming_Started"
| "kind_of (Sig_Streaming_Stopped p) = K_Streaming_Stopped"
| "kind_of (Sig_Media_Answer c sdp) = K_Media_Answer"
| "kind_of (Sig_Media_Candidate c candidate mid) = K_Media_Candidate"
| "kind_of (Sig_Track_Binding c mid p) = K_Track_Binding"
| "kind_of (Sig_Watch_Rejected p r) = K_Watch_Rejected"
| "kind_of (Sig_Peer_Identity p u) = K_Peer_Identity"

text \<open>Who is told: the one callback of a kind, or the n-th of its listeners.\<close>

datatype callee = Callback | Listener nat

datatype socket_call =
    Ws_Create nat "(string \<times> nat) option"
  | Ws_Open nat string
  | Ws_Send nat string
  | Ws_Close nat

record transport =
  tr_ws :: "nat option"
  tr_ws_connected :: bool
  tr_local_id :: peer_id
  tr_callbacks_frozen :: bool
  tr_callbacks :: "kind \<Rightarrow> bool"
  tr_listeners :: "kind \<Rightarrow> bool list"
  tr_peers :: "peer_id list"
  tr_usernames :: "(peer_id \<times> username) list"
  tr_state :: transport_state
  tr_bytes_sent :: u64
  tr_bytes_received :: u64
  tr_next_socket :: nat
  tr_disconnect_notified :: "nat list"
  tr_calls :: "socket_call list"
  tr_told :: "(callee \<times> signal) list"

definition new_transport :: transport where
  "new_transport = \<lparr>tr_ws = None, tr_ws_connected = False, tr_local_id = [], tr_callbacks_frozen = False,
     tr_callbacks = (\<lambda>_. False), tr_listeners = (\<lambda>_. []), tr_peers = [], tr_usernames = [],
     tr_state = Closed, tr_bytes_sent = 0, tr_bytes_received = 0, tr_next_socket = 0,
     tr_disconnect_notified = [], tr_calls = [], tr_told = []\<rparr>"

section \<open>Callbacks\<close>

text \<open>Registration asserts that no connection was started: \<open>None\<close> is the failed assertion.\<close>

definition set_callback :: "kind \<Rightarrow> bool \<Rightarrow> transport \<Rightarrow> transport option" where
  "set_callback k callable t =
     (if tr_callbacks_frozen t then None else Some (t\<lparr>tr_callbacks := (tr_callbacks t)(k := callable)\<rparr>))"

definition add_listener :: "kind \<Rightarrow> bool \<Rightarrow> transport \<Rightarrow> transport option" where
  "add_listener k callable t =
     (if tr_callbacks_frozen t then None
      else Some (t\<lparr>tr_listeners := (tr_listeners t)(k := tr_listeners t k @ [callable])\<rparr>))"

definition tell :: "signal \<Rightarrow> transport \<Rightarrow> transport" where
  "tell s t = (if tr_callbacks t (kind_of s) then t\<lparr>tr_told := tr_told t @ [(Callback, s)]\<rparr> else t)"

definition tell_listeners :: "signal \<Rightarrow> transport \<Rightarrow> transport" where
  "tell_listeners s t =
     (let present = tr_listeners t (kind_of s) in
      t\<lparr>tr_told := tr_told t @ [(Listener i, s). i \<leftarrow> [0..<length present], present ! i]\<rparr>)"

text \<open>Telling everyone that the connection is up or down.\<close>

definition announce_state :: "bool \<Rightarrow> transport \<Rightarrow> transport" where
  "announce_state up t = tell (if up then Sig_Connected else Sig_Disconnected) (tell_listeners (Sig_Connection up) t)"

section \<open>State changes\<close>

definition update_state :: "transport_state \<Rightarrow> transport \<Rightarrow> transport" where
  "update_state st t = t\<lparr>tr_state := st\<rparr>"

definition clear_peers :: "transport \<Rightarrow> transport" where
  "clear_peers t = t\<lparr>tr_peers := [], tr_usernames := []\<rparr>"

definition is_current_socket :: "nat \<Rightarrow> transport \<Rightarrow> bool" where
  "is_current_socket n t \<longleftrightarrow> tr_ws t = Some n"

definition note_call :: "socket_call \<Rightarrow> transport \<Rightarrow> transport" where
  "note_call c t = t\<lparr>tr_calls := tr_calls t @ [c]\<rparr>"

section \<open>Connecting and disconnecting\<close>

definition transport_disconnect :: "transport \<Rightarrow> transport" where
  "transport_disconnect t =
     (let t1 = clear_peers (t\<lparr>tr_ws_connected := False, tr_ws := None, tr_local_id := []\<rparr>);
          t2 = (case tr_ws t of Some n \<Rightarrow> note_call (Ws_Close n) t1 | None \<Rightarrow> t1);
          t3 = update_state Closed t2 in
      if tr_ws_connected t then announce_state False t3 else t3)"

datatype connect_outcome = Started | WebSocketCreateFailed | OpenThrew

text \<open>
  The proxy a socket is made with: \<open>None\<close> refuses to connect, because the environment asks for a proxy
  that the WebSocket library does not speak.
\<close>

definition socket_proxy :: "environment \<Rightarrow> string \<Rightarrow> (string \<times> nat) option option" where
  "socket_proxy env ws_url =
     (case proxy_for_url env ws_url of
        None \<Rightarrow> Some None
      | Some p \<Rightarrow>
          if px_scheme p \<noteq> Http then None
          else if authenticated p then None
          else Some (Some (px_host p, px_port p)))"

definition transport_connect ::
  "environment \<Rightarrow> string \<Rightarrow> bool \<Rightarrow> bool \<Rightarrow> transport \<Rightarrow> connect_outcome \<times> transport" where
  "transport_connect env ws_url creates opens t =
     (let t1 = update_state Connecting ((transport_disconnect t)\<lparr>tr_callbacks_frozen := True\<rparr>);
          n = tr_next_socket t1 in
      case socket_proxy env ws_url of
        None \<Rightarrow> (WebSocketCreateFailed, update_state Failed t1)
      | Some proxy \<Rightarrow>
          if \<not> creates then (WebSocketCreateFailed, update_state Failed t1)
          else
            let t2 = note_call (Ws_Create n proxy) (t1\<lparr>tr_next_socket := n + 1, tr_ws := Some n\<rparr>) in
            if opens then (Started, note_call (Ws_Open n ws_url) t2) else (OpenThrew, t2))"

section \<open>Callbacks of the WebSocket\<close>

definition notify_disconnected :: "nat \<Rightarrow> transport \<Rightarrow> transport" where
  "notify_disconnected n t =
     (if n \<in> set (tr_disconnect_notified t) then t
      else announce_state False (clear_peers (t\<lparr>tr_disconnect_notified := n # tr_disconnect_notified t\<rparr>)))"

definition opened_now :: "transport \<Rightarrow> transport" where
  "opened_now t = announce_state True (update_state Connected (t\<lparr>tr_ws_connected := True\<rparr>))"

definition on_open :: "nat \<Rightarrow> transport \<Rightarrow> transport" where
  "on_open n t = (if \<not> is_current_socket n t then t else opened_now t)"

definition on_closed :: "nat \<Rightarrow> transport \<Rightarrow> transport" where
  "on_closed n t =
     (if \<not> is_current_socket n t then t
      else notify_disconnected n
             (update_state Disconnected (t\<lparr>tr_ws_connected := False, tr_ws := None, tr_local_id := []\<rparr>)))"

definition on_error :: "nat \<Rightarrow> transport \<Rightarrow> transport" where
  "on_error n t =
     (if \<not> is_current_socket n t then t
      else notify_disconnected n (update_state Failed (t\<lparr>tr_ws_connected := False, tr_local_id := []\<rparr>)))"

section \<open>Messages\<close>

definition set_peer_identity :: "peer_id \<Rightarrow> username \<Rightarrow> transport \<Rightarrow> transport" where
  "set_peer_identity p u t =
     (if u = [] then t else tell (Sig_Peer_Identity p u) (t\<lparr>tr_usernames := AList.update p u (tr_usernames t)\<rparr>))"

definition join_peer :: "peer_id \<Rightarrow> username \<Rightarrow> transport \<Rightarrow> transport" where
  "join_peer p u t =
     (let t1 = set_peer_identity p u t in
      tell (Sig_Peer_Joined p) (t1\<lparr>tr_peers := set_insert p (tr_peers t1)\<rparr>))"

definition tell_both :: "signal \<Rightarrow> transport \<Rightarrow> transport" where
  "tell_both s t = tell_listeners s (tell s t)"

fun transport_message :: "message \<Rightarrow> transport \<Rightarrow> transport" where
  "transport_message (Welcome i peers streaming) t =
     fold (\<lambda>p. tell (Sig_Streaming_Started p)) streaming
       (fold (\<lambda>p. join_peer (pi_id p) (pi_username p)) peers (t\<lparr>tr_local_id := i\<rparr>))"
| "transport_message (PeerJoined i u) t = join_peer i u t"
| "transport_message (PeerLeft i) t =
     tell (Sig_Peer_Left i)
       (t\<lparr>tr_peers := set_erase i (tr_peers t), tr_usernames := AList.delete i (tr_usernames t)\<rparr>)"
| "transport_message (Answer sdp c) t = tell_both (Sig_Media_Answer c sdp) t"
| "transport_message (Candidate candidate mid c) t = tell_both (Sig_Media_Candidate c candidate mid) t"
| "transport_message (TrackBinding mid p c) t = tell_both (Sig_Track_Binding c mid p) t"
| "transport_message (StreamingStart from) t =
     (case from of Some p \<Rightarrow> tell (Sig_Streaming_Started p) t | None \<Rightarrow> t)"
| "transport_message (StreamingStop from) t =
     (case from of Some p \<Rightarrow> tell (Sig_Streaming_Stopped p) t | None \<Rightarrow> t)"
| "transport_message (WatchRejected p reason) t = tell_both (Sig_Watch_Rejected p reason) t"
| "transport_message (WatchStart p) t = t"
| "transport_message (WatchStop p) t = t"
| "transport_message (Offer sdp c) t = t"

definition on_ws_message :: "(string \<Rightarrow> json option) \<Rightarrow> string \<Rightarrow> transport \<Rightarrow> transport" where
  "on_ws_message parse_text raw t =
     (case parse_message parse_text raw of Inl err \<Rightarrow> t | Inr m \<Rightarrow> transport_message m t)"

text \<open>A binary message is dropped.\<close>

definition on_message :: "(string \<Rightarrow> json option) \<Rightarrow> nat \<Rightarrow> string option \<Rightarrow> transport \<Rightarrow> transport" where
  "on_message parse_text n text t =
     (if \<not> is_current_socket n t then t
      else case text of
        None \<Rightarrow> t
      | Some raw \<Rightarrow>
          on_ws_message parse_text raw (t\<lparr>tr_bytes_received := tr_bytes_received t + of_nat (length raw)\<rparr>))"

section \<open>Sending\<close>

text \<open>\<open>None\<close> when the text of the message cannot be made; \<open>sends\<close> is whether the library's send does not throw.\<close>

definition send_signal :: "(json \<Rightarrow> string option) \<Rightarrow> bool \<Rightarrow> message \<Rightarrow> transport \<Rightarrow> transport option" where
  "send_signal dump_text sends m t =
     (case dump_message dump_text m of
        None \<Rightarrow> None
      | Some payload \<Rightarrow>
          (case tr_ws t of
             None \<Rightarrow> Some t
           | Some n \<Rightarrow>
               if \<not> tr_ws_connected t then Some t
               else if sends
               then Some ((note_call (Ws_Send n payload) t)\<lparr>tr_bytes_sent := tr_bytes_sent t + of_nat (length payload)\<rparr>)
               else Some t))"

definition send_streaming_start :: "(json \<Rightarrow> string option) \<Rightarrow> bool \<Rightarrow> transport \<Rightarrow> transport option" where
  "send_streaming_start dump_text sends = send_signal dump_text sends (StreamingStart None)"

definition send_streaming_stop :: "(json \<Rightarrow> string option) \<Rightarrow> bool \<Rightarrow> transport \<Rightarrow> transport option" where
  "send_streaming_stop dump_text sends = send_signal dump_text sends (StreamingStop None)"

definition send_watch_start :: "(json \<Rightarrow> string option) \<Rightarrow> bool \<Rightarrow> peer_id \<Rightarrow> transport \<Rightarrow> transport option" where
  "send_watch_start dump_text sends p = send_signal dump_text sends (WatchStart p)"

definition send_watch_stop :: "(json \<Rightarrow> string option) \<Rightarrow> bool \<Rightarrow> peer_id \<Rightarrow> transport \<Rightarrow> transport option" where
  "send_watch_stop dump_text sends p = send_signal dump_text sends (WatchStop p)"

definition send_media_offer ::
  "(json \<Rightarrow> string option) \<Rightarrow> bool \<Rightarrow> connection_id \<Rightarrow> string \<Rightarrow> transport \<Rightarrow> transport option" where
  "send_media_offer dump_text sends c sdp = send_signal dump_text sends (Offer sdp c)"

definition send_media_candidate ::
  "(json \<Rightarrow> string option) \<Rightarrow> bool \<Rightarrow> connection_id \<Rightarrow> string \<Rightarrow> string \<Rightarrow> transport \<Rightarrow> transport option" where
  "send_media_candidate dump_text sends c candidate mid = send_signal dump_text sends (Candidate candidate mid c)"

section \<open>Reading the state\<close>

definition peer_username :: "peer_id \<Rightarrow> transport \<Rightarrow> username" where
  "peer_username p t = (case map_of (tr_usernames t) p of None \<Rightarrow> [] | Some u \<Rightarrow> u)"

fun state_name :: "transport_state \<Rightarrow> string" where
  "state_name New = ''new''"
| "state_name Connecting = ''connecting''"
| "state_name Connected = ''connected''"
| "state_name Disconnected = ''disconnected''"
| "state_name Failed = ''failed''"
| "state_name Closed = ''closed''"

definition transport_stats_json :: "transport \<Rightarrow> json" where
  "transport_stats_json t =
     json_object [(''state'', JString (state_name (tr_state t))), (''bytes_sent'', json_counter (tr_bytes_sent t)),
       (''bytes_received'', json_counter (tr_bytes_received t)), (''rtt_ms'', JInt (-1))]"

section \<open>Runs\<close>

text \<open>
  A client with some callbacks set, and the sockets of the library: \<open>fresh\<close> ones have been opened and
  have not called back, \<open>live\<close> ones have called back that they are open and nothing after that but
  messages. As the WebSocket library documents it, a socket opens at most once, before it fails or
  closes, and messages come while it is open. Every other callback may come at any time, also of
  sockets that were replaced.
\<close>

inductive transport_run ::
  "environment \<Rightarrow> (string \<Rightarrow> json option) \<Rightarrow> (json \<Rightarrow> string option) \<Rightarrow> transport \<Rightarrow> nat list \<Rightarrow> nat list \<Rightarrow> bool"
  for env parse_text dump_text where
  start: "transport_run env parse_text dump_text
    (new_transport\<lparr>tr_callbacks := callbacks, tr_listeners := listeners\<rparr>) [] []"
| connect: "transport_run env parse_text dump_text t fresh live \<Longrightarrow>
    transport_connect env url creates opens t = (outcome, t') \<Longrightarrow>
    transport_run env parse_text dump_text t' (if outcome = Started then tr_next_socket t # fresh else fresh) live"
| disconnect: "transport_run env parse_text dump_text t fresh live \<Longrightarrow>
    transport_run env parse_text dump_text (transport_disconnect t) fresh live"
| opened: "transport_run env parse_text dump_text t fresh live \<Longrightarrow> n \<in> set fresh \<Longrightarrow>
    transport_run env parse_text dump_text (on_open n t) (removeAll n fresh) (n # live)"
| closed: "transport_run env parse_text dump_text t fresh live \<Longrightarrow>
    transport_run env parse_text dump_text (on_closed n t) (removeAll n fresh) (removeAll n live)"
| error: "transport_run env parse_text dump_text t fresh live \<Longrightarrow>
    transport_run env parse_text dump_text (on_error n t) (removeAll n fresh) (removeAll n live)"
| message: "transport_run env parse_text dump_text t fresh live \<Longrightarrow> n \<in> set live \<Longrightarrow>
    transport_run env parse_text dump_text (on_message parse_text n text t) fresh live"
| sent: "transport_run env parse_text dump_text t fresh live \<Longrightarrow>
    send_signal dump_text sends m t = Some t' \<Longrightarrow> transport_run env parse_text dump_text t' fresh live"

section \<open>News of the connection\<close>

text \<open>What one callee was told about the connection: up or down.\<close>

fun link_news_of :: "signal \<Rightarrow> bool list" where
  "link_news_of (Sig_Connection up) = [up]"
| "link_news_of Sig_Connected = [True]"
| "link_news_of Sig_Disconnected = [False]"
| "link_news_of _ = []"

definition link_news :: "callee \<Rightarrow> (callee \<times> signal) list \<Rightarrow> bool list" where
  "link_news c told = concat (map (\<lambda>(c', s). if c' = c then link_news_of s else []) told)"

fun hears :: "callee \<Rightarrow> transport \<Rightarrow> bool" where
  "hears Callback t \<longleftrightarrow> tr_callbacks t K_Connected \<and> tr_callbacks t K_Disconnected"
| "hears (Listener i) t \<longleftrightarrow> i < length (tr_listeners t K_Connection) \<and> tr_listeners t K_Connection ! i"

definition said_up :: "bool list \<Rightarrow> bool" where
  "said_up news \<longleftrightarrow> news \<noteq> [] \<and> List.last news"

text \<open>Nobody is told twice in a row that the connection is up.\<close>

fun ups_separate :: "bool list \<Rightarrow> bool" where
  "ups_separate (a # b # news) \<longleftrightarrow> \<not> (a \<and> b) \<and> ups_separate (b # news)"
| "ups_separate _ = True"

lemma ups_separate_append: "ups_separate (news @ [b]) \<longleftrightarrow> ups_separate news \<and> \<not> (said_up news \<and> b)"
  by (induction news rule: ups_separate.induct) (auto simp: said_up_def)

lemma link_news_append: "link_news c (xs @ ys) = link_news c xs @ link_news c ys"
  by (simp add: link_news_def)

lemma link_news_listeners:
  "link_news c [(Listener i, s). i \<leftarrow> [0..<n], present ! i] =
     (case c of Callback \<Rightarrow> [] | Listener j \<Rightarrow> if j < n \<and> present ! j then link_news_of s else [])"
proof (induction n)
  case (Suc n)
  have "link_news c [(Listener i, s). i \<leftarrow> [0..<Suc n], present ! i] =
      link_news c [(Listener i, s). i \<leftarrow> [0..<n], present ! i] @
      link_news c (if present ! n then [(Listener n, s)] else [])"
    by (simp add: link_news_append)
  with Suc show ?case by (auto simp: link_news_def less_Suc_eq split: callee.split)
qed (auto simp: link_news_def split: callee.split)

lemma tell_fields [simp]:
  "tr_ws (tell s t) = tr_ws t" "tr_ws_connected (tell s t) = tr_ws_connected t"
  "tr_local_id (tell s t) = tr_local_id t" "tr_callbacks (tell s t) = tr_callbacks t"
  "tr_listeners (tell s t) = tr_listeners t" "tr_peers (tell s t) = tr_peers t"
  "tr_usernames (tell s t) = tr_usernames t" "tr_state (tell s t) = tr_state t"
  "tr_next_socket (tell s t) = tr_next_socket t" "tr_disconnect_notified (tell s t) = tr_disconnect_notified t"
  "tr_calls (tell s t) = tr_calls t"
  by (simp_all add: tell_def)

lemma tell_listeners_fields [simp]:
  "tr_ws (tell_listeners s t) = tr_ws t" "tr_ws_connected (tell_listeners s t) = tr_ws_connected t"
  "tr_local_id (tell_listeners s t) = tr_local_id t" "tr_callbacks (tell_listeners s t) = tr_callbacks t"
  "tr_listeners (tell_listeners s t) = tr_listeners t" "tr_peers (tell_listeners s t) = tr_peers t"
  "tr_usernames (tell_listeners s t) = tr_usernames t" "tr_state (tell_listeners s t) = tr_state t"
  "tr_next_socket (tell_listeners s t) = tr_next_socket t"
  "tr_disconnect_notified (tell_listeners s t) = tr_disconnect_notified t"
  "tr_calls (tell_listeners s t) = tr_calls t"
  by (simp_all add: tell_listeners_def Let_def)

lemma announce_fields [simp]:
  "tr_ws (announce_state b t) = tr_ws t" "tr_ws_connected (announce_state b t) = tr_ws_connected t"
  "tr_local_id (announce_state b t) = tr_local_id t" "tr_callbacks (announce_state b t) = tr_callbacks t"
  "tr_listeners (announce_state b t) = tr_listeners t" "tr_peers (announce_state b t) = tr_peers t"
  "tr_usernames (announce_state b t) = tr_usernames t" "tr_state (announce_state b t) = tr_state t"
  "tr_next_socket (announce_state b t) = tr_next_socket t"
  "tr_disconnect_notified (announce_state b t) = tr_disconnect_notified t"
  by (simp_all add: announce_state_def)

lemma news_announce:
  "hears c t \<Longrightarrow> link_news c (tr_told (announce_state up t)) = link_news c (tr_told t) @ [up]"
  by (cases c) (simp_all add: announce_state_def tell_def tell_listeners_def Let_def link_news_append
      link_news_listeners link_news_def [of Callback "[_]"] link_news_def [of "Listener _" "[_]"])

lemma news_tell: "link_news_of s = [] \<Longrightarrow> link_news c (tr_told (tell s t)) = link_news c (tr_told t)"
  by (simp add: tell_def link_news_append) (simp add: link_news_def)

lemma news_tell_listeners:
  "link_news_of s = [] \<Longrightarrow> link_news c (tr_told (tell_listeners s t)) = link_news c (tr_told t)"
  by (simp add: tell_listeners_def Let_def link_news_append link_news_listeners split: callee.split)

section \<open>The invariant of the link\<close>

text \<open>The part of the state that messages do not touch.\<close>

definition link_part ::
  "transport \<Rightarrow> nat option \<times> bool \<times> transport_state \<times> nat \<times> nat list \<times> (kind \<Rightarrow> bool) \<times> (kind \<Rightarrow> bool list) \<times>
     (callee \<Rightarrow> bool list)" where
  "link_part t = (tr_ws t, tr_ws_connected t, tr_state t, tr_next_socket t, tr_disconnect_notified t,
     tr_callbacks t, tr_listeners t, (\<lambda>c. link_news c (tr_told t)))"

lemma link_part_tell: "link_news_of s = [] \<Longrightarrow> link_part (tell s t) = link_part t"
  by (simp add: link_part_def news_tell)

lemma link_part_tell_both: "link_news_of s = [] \<Longrightarrow> link_part (tell_both s t) = link_part t"
  by (simp add: link_part_def tell_both_def news_tell news_tell_listeners)

lemma link_part_fields [simp]:
  "link_part (t\<lparr>tr_local_id := i\<rparr>) = link_part t" "link_part (t\<lparr>tr_peers := ps\<rparr>) = link_part t"
  "link_part (t\<lparr>tr_usernames := us\<rparr>) = link_part t"
  "link_part (t\<lparr>tr_bytes_received := w\<rparr>) = link_part t"
  "link_part (t\<lparr>tr_bytes_sent := w\<rparr>) = link_part t" "link_part (note_call c t) = link_part t"
  by (simp_all add: link_part_def note_call_def)

lemma link_part_join: "link_part (join_peer p u t) = link_part t"
  by (simp add: join_peer_def set_peer_identity_def Let_def link_part_tell)

lemma fold_keeps: "(\<And>x t. f (g x t) = f t) \<Longrightarrow> f (fold g xs t) = f t"
  by (induction xs arbitrary: t) simp_all

lemma link_part_message: "link_part (transport_message m t) = link_part t"
proof (cases m)
  case (Welcome i peers streaming)
  have "link_part (fold (\<lambda>p. tell (Sig_Streaming_Started p)) streaming t') = link_part t'" for t'
    by (rule fold_keeps) (simp add: link_part_tell)
  moreover have "link_part (fold (\<lambda>p. join_peer (pi_id p) (pi_username p)) peers t') = link_part t'" for t'
    by (rule fold_keeps) (rule link_part_join)
  ultimately show ?thesis by (simp add: Welcome)
qed (simp_all add: link_part_tell link_part_tell_both link_part_join split: option.split)

definition link_ok :: "transport \<Rightarrow> nat list \<Rightarrow> nat list \<Rightarrow> bool" where
  "link_ok t fresh live \<longleftrightarrow>
     (tr_ws_connected t \<longrightarrow> (\<exists>n\<in>set live. tr_ws t = Some n) \<and> tr_state t = Connected) \<and>
     (\<not> tr_ws_connected t \<longrightarrow> tr_ws t \<notin> Some ` set live) \<and>
     (set fresh \<union> set live) \<inter> set (tr_disconnect_notified t) = {} \<and>
     set fresh \<inter> set live = {} \<and>
     set fresh \<union> set live \<union> set (tr_disconnect_notified t) \<subseteq> {..<tr_next_socket t} \<and>
     (\<forall>n. tr_ws t = Some n \<longrightarrow> n < tr_next_socket t) \<and>
     (\<forall>c. hears c t \<longrightarrow> ups_separate (link_news c (tr_told t)) \<and>
        said_up (link_news c (tr_told t)) = tr_ws_connected t)"

lemma link_ok_part: "link_part t' = link_part t \<Longrightarrow> link_ok t fresh live \<Longrightarrow> link_ok t' fresh live"
proof -
  assume part: "link_part t' = link_part t" and ok: "link_ok t fresh live"
  have "hears c t' = hears c t" for c using part by (cases c) (simp_all add: link_part_def)
  moreover have "link_news c (tr_told t') = link_news c (tr_told t)" for c
    using part by (simp add: link_part_def fun_eq_iff)
  ultimately show ?thesis using part ok by (simp add: link_ok_def link_part_def)
qed

lemma said_up_snoc [simp]: "said_up (news @ [b]) = b"
  by (simp add: said_up_def)

lemma hears_fields:
  "tr_callbacks t' = tr_callbacks t \<Longrightarrow> tr_listeners t' = tr_listeners t \<Longrightarrow> hears c t' = hears c t"
  by (cases c) simp_all

lemma disconnect_fields:
  "tr_ws (transport_disconnect t) = None" "\<not> tr_ws_connected (transport_disconnect t)"
  "tr_local_id (transport_disconnect t) = []" "tr_peers (transport_disconnect t) = []"
  "tr_usernames (transport_disconnect t) = []" "tr_next_socket (transport_disconnect t) = tr_next_socket t"
  "tr_disconnect_notified (transport_disconnect t) = tr_disconnect_notified t"
  "tr_callbacks (transport_disconnect t) = tr_callbacks t" "tr_listeners (transport_disconnect t) = tr_listeners t"
  by (simp_all add: transport_disconnect_def Let_def clear_peers_def update_state_def note_call_def split: option.split)

lemma disconnect_news:
  "hears c t \<Longrightarrow> link_news c (tr_told (transport_disconnect t)) =
     link_news c (tr_told t) @ (if tr_ws_connected t then [False] else [])"
proof -
  assume hears: "hears c t"
  let ?t1 = "clear_peers (t\<lparr>tr_ws_connected := False, tr_ws := None, tr_local_id := []\<rparr>)"
  let ?t3 = "update_state Closed (case tr_ws t of Some n \<Rightarrow> note_call (Ws_Close n) ?t1 | None \<Rightarrow> ?t1)"
  have same: "tr_told ?t3 = tr_told t" "tr_callbacks ?t3 = tr_callbacks t" "tr_listeners ?t3 = tr_listeners t"
    by (simp_all add: clear_peers_def update_state_def note_call_def split: option.split)
  have "transport_disconnect t = (if tr_ws_connected t then announce_state False ?t3 else ?t3)"
    by (simp add: transport_disconnect_def Let_def)
  moreover have "hears c ?t3" using hears hears_fields [OF same(2,3)] by simp
  ultimately show ?thesis using same(1) news_announce [of c ?t3 False] by simp
qed

lemma link_ok_disconnect: "link_ok t fresh live \<Longrightarrow> link_ok (transport_disconnect t) fresh live"
  using hears_fields [of "transport_disconnect t" t]
  by (auto simp: link_ok_def disconnect_fields disconnect_news ups_separate_append)

lemma connect_cases:
  assumes "transport_connect env url creates opens t = (outcome, t')"
  obtains "outcome \<noteq> Started" "tr_ws t' = None" "tr_next_socket t' = tr_next_socket t" "tr_state t' = Failed"
  | "tr_ws t' = Some (tr_next_socket t)" "tr_next_socket t' = tr_next_socket t + 1" "tr_state t' = Connecting"
  using assms
  by (auto simp: transport_connect_def Let_def disconnect_fields update_state_def note_call_def
      split: option.splits if_splits)

lemma connect_fields:
  assumes "transport_connect env url creates opens t = (outcome, t')"
  shows "\<not> tr_ws_connected t'" "tr_local_id t' = []" "tr_peers t' = []" "tr_usernames t' = []"
    "tr_disconnect_notified t' = tr_disconnect_notified t" "tr_callbacks t' = tr_callbacks t"
    "tr_listeners t' = tr_listeners t" "tr_told t' = tr_told (transport_disconnect t)"
  using assms
  by (auto simp: transport_connect_def Let_def disconnect_fields update_state_def note_call_def
      split: option.splits if_splits)

lemma link_ok_connect:
  assumes "transport_connect env url creates opens t = (outcome, t')" and "link_ok t fresh live"
  shows "link_ok t' (if outcome = Started then tr_next_socket t # fresh else fresh) live"
proof -
  have next_unused: "tr_next_socket t \<notin> set fresh \<union> set live \<union> set (tr_disconnect_notified t)"
    using assms(2) by (auto simp: link_ok_def)
  have news: "\<forall>c. hears c t' \<longrightarrow> ups_separate (link_news c (tr_told t')) \<and> \<not> said_up (link_news c (tr_told t'))"
    using assms(2) hears_fields [OF connect_fields(6,7) [OF assms(1)]]
    by (auto simp: connect_fields(8) [OF assms(1)] disconnect_news link_ok_def ups_separate_append)
  from assms(1) show ?thesis
  proof (cases rule: connect_cases)
    case 1
    then show ?thesis using assms(2) news connect_fields [OF assms(1)]
      unfolding link_ok_def by (simp add: image_iff)
  next
    case 2
    then show ?thesis using assms(2) news next_unused connect_fields [OF assms(1)]
      unfolding link_ok_def by (auto simp: image_iff)
  qed
qed

lemma link_ok_open:
  assumes "link_ok t fresh live" and "n \<in> set fresh"
  shows "link_ok (on_open n t) (removeAll n fresh) (n # live)"
proof (cases "tr_ws t = Some n")
  case True
  let ?t = "update_state Connected (t\<lparr>tr_ws_connected := True\<rparr>)"
  have down: "\<not> tr_ws_connected t" using assms True by (auto simp: link_ok_def)
  have hears: "hears c ?t = hears c t" for c by (rule hears_fields) (simp_all add: update_state_def)
  have told: "tr_told ?t = tr_told t" by (simp add: update_state_def)
  have open_state: "on_open n t = announce_state True ?t" using True by (simp add: on_open_def opened_now_def is_current_socket_def)
  have "ups_separate (link_news c (tr_told (announce_state True ?t))) \<and> said_up (link_news c (tr_told (announce_state True ?t)))"
    if "hears c (announce_state True ?t)" for c
  proof -
    have "hears c ?t" using that hears_fields [of "announce_state True ?t" ?t c] by simp
    moreover from this have "hears c t" by (simp only: hears)
    ultimately show ?thesis using assms(1) down
      by (simp add: news_announce told ups_separate_append link_ok_def)
  qed
  with assms True show ?thesis unfolding open_state link_ok_def
    by (auto simp: update_state_def)
next
  case False
  with assms show ?thesis by (auto simp: on_open_def opened_now_def is_current_socket_def link_ok_def)
qed

lemma link_ok_notify:
  assumes "link_ok t fresh live" and "tr_ws t = Some n" and "w = None \<or> w = Some n" and "st \<noteq> Connected"
  shows "link_ok (notify_disconnected n (t\<lparr>tr_ws_connected := False, tr_ws := w, tr_local_id := [], tr_state := st\<rparr>))
    (removeAll n fresh) (removeAll n live)"
proof (cases "n \<in> set (tr_disconnect_notified t)")
  case True
  then have "\<not> tr_ws_connected t" using assms(1,2) by (auto simp: link_ok_def)
  with True assms show ?thesis
    using hears_fields [of "t\<lparr>tr_ws_connected := False, tr_ws := w, tr_local_id := [], tr_state := st\<rparr>" t]
    by (auto simp: notify_disconnected_def link_ok_def)
next
  case False
  let ?t = "clear_peers (t\<lparr>tr_ws_connected := False, tr_ws := w, tr_local_id := [], tr_state := st,
    tr_disconnect_notified := n # tr_disconnect_notified t\<rparr>)"
  have notified: "notify_disconnected n (t\<lparr>tr_ws_connected := False, tr_ws := w, tr_local_id := [], tr_state := st\<rparr>) =
      announce_state False ?t"
    using False by (simp add: notify_disconnected_def)
  have told: "tr_told ?t = tr_told t" by (simp add: clear_peers_def)
  have "ups_separate (link_news c (tr_told (announce_state False ?t))) \<and> \<not> said_up (link_news c (tr_told (announce_state False ?t)))"
    if "hears c (announce_state False ?t)" for c
  proof -
    have "hears c ?t" using that hears_fields [of "announce_state False ?t" ?t c] by simp
    moreover from this have "hears c t" using hears_fields [of ?t t c] by (simp add: clear_peers_def)
    ultimately show ?thesis using assms(1) by (simp add: news_announce told ups_separate_append link_ok_def)
  qed
  with assms show ?thesis unfolding notified link_ok_def by (auto simp: clear_peers_def)
qed

lemma link_ok_dead: "link_ok t fresh live \<Longrightarrow> tr_ws t \<noteq> Some n \<Longrightarrow> link_ok t (removeAll n fresh) (removeAll n live)"
  by (auto simp: link_ok_def)

lemma link_ok_run: "transport_run env parse_text dump_text t fresh live \<Longrightarrow> link_ok t fresh live"
proof (induction rule: transport_run.induct)
  case (start callbacks listeners)
  show ?case by (auto simp: link_ok_def new_transport_def link_news_def said_up_def)
next
  case (closed t fresh live n)
  then show ?case
    using link_ok_notify [of t fresh live n None Disconnected] link_ok_dead [of t fresh live n]
    by (simp add: on_closed_def is_current_socket_def update_state_def)
next
  case (error t fresh live n)
  show ?case
  proof (cases "tr_ws t = Some n")
    case True
    then have same: "t\<lparr>tr_ws_connected := False, tr_ws := Some n, tr_local_id := [], tr_state := Failed\<rparr> =
        t\<lparr>tr_ws_connected := False, tr_local_id := [], tr_state := Failed\<rparr>"
      by (cases t) simp
    have "link_ok (notify_disconnected n (t\<lparr>tr_ws_connected := False, tr_local_id := [], tr_state := Failed\<rparr>))
        (removeAll n fresh) (removeAll n live)"
      using link_ok_notify [OF error.IH True, of "Some n" Failed] unfolding same by simp
    with True show ?thesis by (simp add: on_error_def is_current_socket_def update_state_def)
  next
    case False
    with error show ?thesis by (simp add: on_error_def is_current_socket_def link_ok_dead)
  qed
next
  case (message t fresh live n raw)
  have "link_part (on_message parse_text n raw t) = link_part t"
    by (auto simp: on_message_def on_ws_message_def link_part_message split: option.split sum.split)
  then show ?case using message link_ok_part by blast
next
  case (sent t fresh live sends m t')
  then have "link_part t' = link_part t"
    by (auto simp: send_signal_def split: option.splits if_splits)
  then show ?case using sent link_ok_part by blast
qed (simp_all add: link_ok_connect link_ok_disconnect link_ok_open)

text \<open>
  The callback checks its socket under the lock and changes the state after it. A disconnect from
  another thread in between is lost: the transport says it is connected and has no socket.
\<close>

lemma open_race:
  "tr_ws_connected (opened_now (transport_disconnect t)) \<and> tr_ws (opened_now (transport_disconnect t)) = None"
  by (simp add: opened_now_def update_state_def disconnect_fields)

section \<open>The peers of the room\<close>

text \<open>The room as the server's messages describe it: who is in it, and under which name.\<close>

type_synonym directory = "peer_id \<Rightarrow> username option"

definition room_join :: "peer_id \<Rightarrow> username \<Rightarrow> directory \<Rightarrow> directory" where
  "room_join p u r = r(p \<mapsto> if u = [] then (case r p of None \<Rightarrow> [] | Some v \<Rightarrow> v) else u)"

fun room_step :: "message \<Rightarrow> directory \<Rightarrow> directory" where
  "room_step (Welcome i peers streaming) r = fold (\<lambda>p. room_join (pi_id p) (pi_username p)) peers r"
| "room_step (PeerJoined i u) r = room_join i u r"
| "room_step (PeerLeft i) r = r(i := None)"
| "room_step _ r = r"

definition room_of :: "transport \<Rightarrow> directory" where
  "room_of t p = (if p \<in> set (tr_peers t) then Some (peer_username p t) else None)"

definition names_ok :: "transport \<Rightarrow> bool" where
  "names_ok t \<longleftrightarrow> (\<forall>p. p \<notin> set (tr_peers t) \<longrightarrow> map_of (tr_usernames t) p = None)"

definition dir_part :: "transport \<Rightarrow> peer_id list \<times> (peer_id \<times> username) list" where
  "dir_part t = (tr_peers t, tr_usernames t)"

lemma dir_part_tell [simp]: "dir_part (tell s t) = dir_part t" "dir_part (tell_both s t) = dir_part t"
  by (simp_all add: dir_part_def tell_both_def)

lemma room_of_part: "dir_part t' = dir_part t \<Longrightarrow> room_of t' = room_of t"
  by (simp add: dir_part_def room_of_def peer_username_def fun_eq_iff)

lemma names_ok_part: "dir_part t' = dir_part t \<Longrightarrow> names_ok t' = names_ok t"
  by (simp add: dir_part_def names_ok_def)

lemma join_directory:
  "names_ok t \<Longrightarrow> names_ok (join_peer p u t) \<and> room_of (join_peer p u t) = room_join p u (room_of t)"
  by (auto simp: names_ok_def join_peer_def set_peer_identity_def Let_def room_of_def room_join_def
      peer_username_def fun_eq_iff map_of_update split: option.split)

lemma joins_directory:
  "names_ok t \<Longrightarrow>
   names_ok (fold (\<lambda>p. join_peer (pi_id p) (pi_username p)) ps t) \<and>
   room_of (fold (\<lambda>p. join_peer (pi_id p) (pi_username p)) ps t) =
     fold (\<lambda>p. room_join (pi_id p) (pi_username p)) ps (room_of t)"
  by (induction ps arbitrary: t) (simp_all add: join_directory)

lemma message_directory:
  assumes "names_ok t"
  shows "names_ok (transport_message m t) \<and> room_of (transport_message m t) = room_step m (room_of t)"
proof (cases m)
  case (Welcome i peers streaming)
  let ?t = "t\<lparr>tr_local_id := i\<rparr>"
  let ?joined = "fold (\<lambda>p. join_peer (pi_id p) (pi_username p)) peers ?t"
  have same: "dir_part ?t = dir_part t" by (simp add: dir_part_def)
  have told: "dir_part (transport_message m t) = dir_part ?joined"
    unfolding Welcome transport_message.simps by (rule fold_keeps) simp
  show ?thesis
    using joins_directory [of ?t peers] assms
    unfolding room_of_part [OF told] names_ok_part [OF told] room_of_part [OF same] names_ok_part [OF same]
    by (simp add: Welcome)
next
  case (PeerJoined i u)
  then show ?thesis using join_directory [OF assms] by simp
next
  case (PeerLeft i)
  then show ?thesis using assms
    by (auto simp: names_ok_def room_of_def peer_username_def fun_eq_iff map_of_delete)
qed (auto simp: assms room_of_part [of "tell _ _" t] names_ok_part [of "tell _ _" t] room_of_part [of "tell_both _ _" t]
    names_ok_part [of "tell_both _ _" t] split: option.split)

definition quiet :: "transport \<Rightarrow> bool" where
  "quiet t \<longleftrightarrow> tr_peers t = [] \<and> tr_usernames t = [] \<and> tr_local_id t = []"

lemma quiet_names: "quiet t \<Longrightarrow> names_ok t"
  by (simp add: quiet_def names_ok_def)

lemma on_message_directory:
  assumes "names_ok t"
  shows "names_ok (on_message parse_text n raw t) \<and>
    room_of (on_message parse_text n raw t) =
      (if tr_ws t \<noteq> Some n then room_of t
       else case raw of
         None \<Rightarrow> room_of t
       | Some s \<Rightarrow> (case parse_message parse_text s of Inl err \<Rightarrow> room_of t | Inr m \<Rightarrow> room_step m (room_of t)))"
proof -
  have same: "dir_part (t\<lparr>tr_bytes_received := w\<rparr>) = dir_part t" for w by (simp add: dir_part_def)
  show ?thesis using assms message_directory [of "t\<lparr>tr_bytes_received := w\<rparr>" for w]
    by (auto simp: on_message_def on_ws_message_def is_current_socket_def room_of_part [OF same] names_ok_part [OF same]
        split: option.split sum.split)
qed

lemma directory_run:
  "transport_run env parse_text dump_text t fresh live \<Longrightarrow> names_ok t \<and> (\<not> tr_ws_connected t \<longrightarrow> quiet t)"
proof (induction rule: transport_run.induct)
  case (start callbacks listeners)
  show ?case by (simp add: names_ok_def quiet_def new_transport_def)
next
  case (connect t fresh live url creates opens outcome t')
  then have "quiet t'" using connect_fields [OF connect(2)] by (simp add: quiet_def)
  then show ?case by (simp add: quiet_names)
next
  case (disconnect t fresh live)
  have "quiet (transport_disconnect t)" by (simp add: quiet_def disconnect_fields)
  then show ?case by (simp add: quiet_names)
next
  case (opened t fresh live n)
  then show ?case
    by (auto simp: on_open_def opened_now_def update_state_def names_ok_def quiet_def)
next
  case (closed t fresh live n)
  have "tr_ws t = Some n \<Longrightarrow> n \<in> set (tr_disconnect_notified t) \<Longrightarrow> \<not> tr_ws_connected t"
    using link_ok_run [OF closed(1)] by (auto simp: link_ok_def)
  then show ?case using closed.IH
    by (auto simp: on_closed_def is_current_socket_def notify_disconnected_def update_state_def clear_peers_def
        names_ok_def quiet_def)
next
  case (error t fresh live n)
  have "tr_ws t = Some n \<Longrightarrow> n \<in> set (tr_disconnect_notified t) \<Longrightarrow> \<not> tr_ws_connected t"
    using link_ok_run [OF error(1)] by (auto simp: link_ok_def)
  then show ?case using error.IH
    by (auto simp: on_error_def is_current_socket_def notify_disconnected_def update_state_def clear_peers_def
        names_ok_def quiet_def)
next
  case (message t fresh live n raw)
  have connected: "tr_ws t = Some n \<Longrightarrow> tr_ws_connected t"
    using link_ok_run [OF message(1)] message(2) by (auto simp: link_ok_def)
  have "link_part (on_message parse_text n raw t) = link_part t"
    by (auto simp: on_message_def on_ws_message_def link_part_message split: option.split sum.split)
  then have up: "tr_ws_connected (on_message parse_text n raw t) = tr_ws_connected t" by (simp add: link_part_def)
  have "on_message parse_text n raw t = t \<or> tr_ws t = Some n" by (simp add: on_message_def is_current_socket_def)
  then show ?case using message.IH connected up on_message_directory [of t parse_text n raw] by auto
next
  case (sent t fresh live sends m t')
  then have "tr_peers t' = tr_peers t \<and> tr_usernames t' = tr_usernames t \<and> tr_local_id t' = tr_local_id t \<and>
      tr_ws_connected t' = tr_ws_connected t"
    by (auto simp: send_signal_def note_call_def split: option.splits if_splits)
  with sent.IH show ?case by (simp add: names_ok_def quiet_def)
qed


text \<open>
  C17: the transport's tables of peers and names implement the room that the server's messages
  describe: a message that reaches the client through its current socket has the effect of its step
  on the room (a peer joins under its name, keeps its old name when none is given, and leaves with
  it), and every other text, and every message of a replaced socket, leaves the room as it was.
\<close>

theorem room_directory_refinement:
  assumes "transport_run env parse_text dump_text t fresh live"
  shows "room_of (on_message parse_text n raw t) =
    (if tr_ws t \<noteq> Some n then room_of t
     else case raw of
       None \<Rightarrow> room_of t
     | Some s \<Rightarrow> (case parse_message parse_text s of Inl err \<Rightarrow> room_of t | Inr m \<Rightarrow> room_step m (room_of t)))"
  using on_message_directory directory_run [OF assms] by blast

section \<open>Proxies of the sockets\<close>

definition proxy_as_asked :: "environment \<Rightarrow> string \<Rightarrow> (string \<times> nat) option \<Rightarrow> bool" where
  "proxy_as_asked env url proxy \<longleftrightarrow>
     (case proxy_for_url env url of
        None \<Rightarrow> proxy = None
      | Some p \<Rightarrow> px_scheme p = Http \<and> px_username p = [] \<and> proxy = Some (px_host p, px_port p))"

definition calls_ok :: "environment \<Rightarrow> transport \<Rightarrow> bool" where
  "calls_ok env t \<longleftrightarrow>
     (\<forall>n url. Ws_Open n url \<in> set (tr_calls t) \<longrightarrow>
        (\<exists>proxy. Ws_Create n proxy \<in> set (tr_calls t) \<and> proxy_as_asked env url proxy)) \<and>
     (\<forall>n a b. Ws_Create n a \<in> set (tr_calls t) \<longrightarrow> Ws_Create n b \<in> set (tr_calls t) \<longrightarrow> a = b) \<and>
     (\<forall>n a. Ws_Create n a \<in> set (tr_calls t) \<longrightarrow> n < tr_next_socket t)"

definition plain_call :: "socket_call \<Rightarrow> bool" where
  "plain_call c \<longleftrightarrow> (\<forall>n a. c \<noteq> Ws_Create n a) \<and> (\<forall>n url. c \<noteq> Ws_Open n url)"

lemma calls_ok_plain:
  assumes "calls_ok env t" and "tr_calls t' = tr_calls t @ cs" and "list_all plain_call cs"
    and "tr_next_socket t' = tr_next_socket t"
  shows "calls_ok env t'"
proof -
  have "Ws_Create n a \<in> set (tr_calls t') \<longleftrightarrow> Ws_Create n a \<in> set (tr_calls t)" for n a
    using assms(2,3) by (auto simp: list_all_iff plain_call_def)
  moreover have "Ws_Open n url \<in> set (tr_calls t') \<longleftrightarrow> Ws_Open n url \<in> set (tr_calls t)" for n url
    using assms(2,3) by (auto simp: list_all_iff plain_call_def)
  ultimately show ?thesis using assms(1,4) by (simp add: calls_ok_def)
qed

text \<open>A new socket, opened at once or not.\<close>

lemma calls_ok_new:
  assumes "calls_ok env t" and "tr_next_socket t' = Suc (tr_next_socket t)" and "proxy_as_asked env url proxy"
    and "tr_calls t' = tr_calls t @ Ws_Create (tr_next_socket t) proxy # cs"
    and "set cs \<subseteq> {Ws_Open (tr_next_socket t) url}"
  shows "calls_ok env t'"
proof -
  let ?n = "tr_next_socket t"
  have created: "Ws_Create n a \<in> set (tr_calls t') \<longleftrightarrow> Ws_Create n a \<in> set (tr_calls t) \<or> n = ?n \<and> a = proxy" for n a
    using assms(4,5) by auto
  have opened: "Ws_Open n u \<in> set (tr_calls t') \<Longrightarrow> Ws_Open n u \<in> set (tr_calls t) \<or> n = ?n \<and> u = url" for n u
    using assms(4,5) by auto
  have unused: "Ws_Create ?n a \<notin> set (tr_calls t)" for a
    using assms(1) unfolding calls_ok_def by blast
  show ?thesis unfolding calls_ok_def created
  proof (intro conjI allI impI)
    fix n u assume "Ws_Open n u \<in> set (tr_calls t')"
    then consider "Ws_Open n u \<in> set (tr_calls t)" | "n = ?n" "u = url" using opened by blast
    then show "\<exists>p. (Ws_Create n p \<in> set (tr_calls t) \<or> n = ?n \<and> p = proxy) \<and> proxy_as_asked env u p"
    proof cases
      case 1
      then show ?thesis using assms(1) unfolding calls_ok_def by blast
    next
      case 2
      then show ?thesis using assms(3) by blast
    qed
  next
    fix n a b
    assume "Ws_Create n a \<in> set (tr_calls t) \<or> n = ?n \<and> a = proxy" "Ws_Create n b \<in> set (tr_calls t) \<or> n = ?n \<and> b = proxy"
    then show "a = b" using assms(1) unused unfolding calls_ok_def by metis
  next
    fix n a assume "Ws_Create n a \<in> set (tr_calls t) \<or> n = ?n \<and> a = proxy"
    then show "n < tr_next_socket t'" using assms(1,2) unfolding calls_ok_def by (auto intro: less_SucI)
  qed
qed

lemma disconnect_calls:
  "tr_calls (transport_disconnect t) = tr_calls t @ (case tr_ws t of Some n \<Rightarrow> [Ws_Close n] | None \<Rightarrow> [])"
  by (auto simp: transport_disconnect_def announce_state_def Let_def clear_peers_def update_state_def note_call_def
      split: option.split)

lemma calls_ok_disconnect: "calls_ok env t \<Longrightarrow> calls_ok env (transport_disconnect t)"
  by (rule calls_ok_plain [OF _ disconnect_calls])
    (auto simp: plain_call_def disconnect_fields split: option.split)

lemma socket_proxy_asked: "socket_proxy env url = Some proxy \<Longrightarrow> proxy_as_asked env url proxy"
  by (auto simp: socket_proxy_def proxy_as_asked_def authenticated_def split: option.splits if_splits)

lemma calls_ok_connect:
  assumes "calls_ok env t" and "transport_connect env url creates opens t = (outcome, t')"
  shows "calls_ok env t'"
proof -
  let ?d = "transport_disconnect t"
  have d: "calls_ok env ?d" by (rule calls_ok_disconnect [OF assms(1)])
  have "tr_calls t' = tr_calls ?d \<and> tr_next_socket t' = tr_next_socket ?d \<or>
      (\<exists>proxy cs. proxy_as_asked env url proxy \<and> tr_next_socket t' = Suc (tr_next_socket ?d) \<and>
        tr_calls t' = tr_calls ?d @ Ws_Create (tr_next_socket ?d) proxy # cs \<and>
        set cs \<subseteq> {Ws_Open (tr_next_socket ?d) url})"
    using assms(2) socket_proxy_asked [of env url]
    by (auto simp: transport_connect_def Let_def disconnect_fields update_state_def note_call_def
        split: option.splits if_splits)
  then show ?thesis
    using calls_ok_plain [OF d, of t' "[]"] calls_ok_new [OF d, of t' url] by auto
qed

lemma message_calls: "tr_calls (transport_message m t) = tr_calls t"
proof -
  have [simp]: "tr_calls (join_peer p u t) = tr_calls t" for p u t
    by (simp add: join_peer_def set_peer_identity_def Let_def)
  show ?thesis
  proof (cases m)
    case (Welcome i peers streaming)
    have "tr_calls (fold (\<lambda>p. tell (Sig_Streaming_Started p)) streaming t') = tr_calls t'" for t'
      by (rule fold_keeps) simp
    moreover have "tr_calls (fold (\<lambda>p. join_peer (pi_id p) (pi_username p)) peers t') = tr_calls t'" for t'
      by (rule fold_keeps) simp
    ultimately show ?thesis by (simp add: Welcome)
  qed (simp_all add: tell_both_def split: option.split)
qed

lemma calls_ok_run: "transport_run env parse_text dump_text t fresh live \<Longrightarrow> calls_ok env t"
proof (induction rule: transport_run.induct)
  case (start callbacks listeners)
  show ?case by (simp add: calls_ok_def new_transport_def)
next
  case (connect t fresh live url creates opens outcome t')
  then show ?case using calls_ok_connect by blast
next
  case (disconnect t fresh live)
  then show ?case by (simp add: calls_ok_disconnect)
next
  case (opened t fresh live n)
  have "tr_calls (on_open n t) = tr_calls t @ []"
    by (simp add: on_open_def opened_now_def announce_state_def update_state_def)
  then show ?case by (rule calls_ok_plain [OF opened.IH]) (auto simp: on_open_def opened_now_def update_state_def)
next
  case (closed t fresh live n)
  have "tr_calls (on_closed n t) = tr_calls t @ []"
    by (simp add: on_closed_def announce_state_def update_state_def notify_disconnected_def clear_peers_def)
  then show ?case
    by (rule calls_ok_plain [OF closed.IH]) (auto simp: on_closed_def update_state_def notify_disconnected_def clear_peers_def)
next
  case (error t fresh live n)
  have "tr_calls (on_error n t) = tr_calls t @ []"
    by (simp add: on_error_def announce_state_def update_state_def notify_disconnected_def clear_peers_def)
  then show ?case
    by (rule calls_ok_plain [OF error.IH]) (auto simp: on_error_def update_state_def notify_disconnected_def clear_peers_def)
next
  case (message t fresh live n raw)
  have calls: "tr_calls (on_message parse_text n raw t) = tr_calls t @ []"
    by (auto simp: on_message_def on_ws_message_def message_calls split: option.split sum.split)
  have "link_part (on_message parse_text n raw t) = link_part t"
    by (auto simp: on_message_def on_ws_message_def link_part_message split: option.split sum.split)
  then show ?case by (intro calls_ok_plain [OF message.IH calls]) (auto simp: link_part_def)
next
  case (sent t fresh live sends m t')
  then obtain cs where "tr_calls t' = tr_calls t @ cs" "list_all plain_call cs"
    "tr_next_socket t' = tr_next_socket t"
    by (auto simp: send_signal_def note_call_def plain_call_def split: option.splits if_splits)
  then show ?case using calls_ok_plain [OF sent.IH] by blast
qed


section \<open>A run\<close>

text \<open>A client with one listener connects through a proxy, and is welcomed to a room with Bob.\<close>

definition client_env :: environment where
  "client_env = (\<lambda>name. if name = ''HTTP_PROXY'' then Some ''http://proxy'' else None)"

definition sample_text :: "string \<Rightarrow> json option" where
  "sample_text raw = (if raw = ''hello'' then Some (encode (Welcome ''me'' [\<lparr>pi_id = ''b'', pi_username = ''Bob''\<rparr>] [])) else None)"

definition sample_start :: transport where
  "sample_start = new_transport\<lparr>tr_callbacks := (\<lambda>_. False), tr_listeners := (\<lambda>_. [True])\<rparr>"

definition sample_open :: transport where
  "sample_open = on_open 0 (snd (transport_connect client_env ''wss://chat/1'' True True sample_start))"

lemma sample_proxy: "socket_proxy client_env ''wss://chat/1'' = Some (Some (''proxy'', 8080))"
proof -
  have proxy: "parse_proxy_url ''http://proxy'' =
      Some \<lparr>px_scheme = Http, px_host = ''proxy'', px_port = 8080, px_username = [], px_password = []\<rparr>"
    by code_simp
  have trim: "trim_space ''http://proxy'' = ''http://proxy''" by code_simp
  have "around_scheme (trim_space ''wss://chat/1'') = Some (''wss'', ''chat/1'')" by code_simp
  moreover have "before CHR ''/'' ''chat/1'' = ''chat''" "around_last CHR ''@'' ''chat'' = None"
    "split_host_port ''chat'' = Some (''chat'', None)" "to_lower (to_lower ''wss'') = ''wss''" by code_simp+
  ultimately have "proxy_for_url client_env ''wss://chat/1'' =
      Some \<lparr>px_scheme = Http, px_host = ''proxy'', px_port = 8080, px_username = [], px_password = []\<rparr>"
    by (simp add: proxy_for_url_def proxy_from_environment_def candidate_names_def proxy_variable_def
        environment_value_def client_env_def trim proxy)
  then show ?thesis by (simp add: socket_proxy_def authenticated_def)
qed

lemma sample_connect:
  "transport_connect client_env ''wss://chat/1'' True True sample_start =
     (Started, snd (transport_connect client_env ''wss://chat/1'' True True sample_start))"
  by (simp add: transport_connect_def Let_def sample_proxy)

lemma connected_run: "transport_run client_env sample_text dump sample_open [] [0]"
proof -
  have "transport_run client_env sample_text dump sample_start [] []"
    unfolding sample_start_def by (rule transport_run.start)
  then have "transport_run client_env sample_text dump
      (snd (transport_connect client_env ''wss://chat/1'' True True sample_start)) [0] []"
    using transport_run.connect [OF _ sample_connect] by (simp add: sample_start_def new_transport_def)
  then show ?thesis using transport_run.opened [of _ _ _ _ "[0]" "[]" 0] by (simp add: sample_open_def)
qed

lemma sample_open_fields:
  "tr_ws sample_open = Some 0" "tr_ws_connected sample_open" "Ws_Open 0 ''wss://chat/1'' \<in> set (tr_calls sample_open)"
  "tr_listeners sample_open = (\<lambda>_. [True])"
  by (simp_all add: sample_open_def on_open_def opened_now_def is_current_socket_def transport_connect_def sample_proxy Let_def
      transport_disconnect_def sample_start_def new_transport_def announce_state_def update_state_def note_call_def clear_peers_def)


theorem room_directory_refinement_witness:
  "room_of (on_message sample_text 0 (Some ''hello'') sample_open) ''b'' = Some ''Bob''"
proof -
  have "parse_message sample_text ''hello'' = Inr (Welcome ''me'' [\<lparr>pi_id = ''b'', pi_username = ''Bob''\<rparr>] [])"
    by code_simp
  then show ?thesis
    using room_directory_refinement [OF connected_run [of "\<lambda>_. None"], of 0 "Some ''hello''"] sample_open_fields(1)
    by (simp add: room_join_def)
qed


end
