(* ===== verification/Screen_Stats.thy ===== *)
theory Screen_Stats
  imports Signaling_Protocol
begin

text \<open>
  \<^verbatim>\<open>ScreenStatsTracker\<close> of \<^verbatim>\<open>core/src/webrtc/google_webrtc_screen_stats.cpp\<close>: the statistics a client
  shows for the screens it watches. Bindings, baselines and caches are association lists. The C++
  \<^verbatim>\<open>double\<close> is \<^typ>\<open>real\<close>; a time point is a number of nanoseconds, 0 being the default one. The
  text of a JSON value is a parameter.
\<close>

section \<open>State\<close>

record screen_inbound =
  si_mid :: string
  si_video :: bool
  si_packets_received :: u64
  si_bytes_received :: u64
  si_packets_lost :: int
  si_emitted_count :: u64
  si_delay_seconds :: real
  si_target_delay_seconds :: real
  si_concealed_samples :: u64
  si_frames_decoded :: u32
  si_frames_dropped :: u32
  si_key_frames_decoded :: u32

record stats_cache =
  ca_json :: string
  ca_received_bytes :: u64
  ca_updated_at :: int

record stats_tracker =
  tk_bindings :: "(string \<times> peer_id) list"
  tk_watched_peers :: "peer_id list"
  tk_cache_by_peer :: "(peer_id \<times> stats_cache) list"
  tk_baselines :: "(string \<times> screen_inbound) list"
  tk_request_in_flight :: bool
  tk_session_generation :: u64

record poll_reply =
  po_json :: string
  po_start_request :: bool
  po_session_generation :: u64

definition new_cache :: stats_cache where
  "new_cache = \<lparr>ca_json = ''{\"video\":{},\"audio\":{},\"outbound\":{},\"measuredKbps\":0}'',
     ca_received_bytes = 0, ca_updated_at = 0\<rparr>"

definition new_tracker :: stats_tracker where
  "new_tracker = \<lparr>tk_bindings = [], tk_watched_peers = [], tk_cache_by_peer = [], tk_baselines = [],
     tk_request_in_flight = False, tk_session_generation = 0\<rparr>"

section \<open>Bindings and watched peers\<close>

definition binding_changed :: "peer_id option \<Rightarrow> peer_id option \<Rightarrow> bool" where
  "binding_changed old new = (case old of None \<Rightarrow> new \<noteq> None | Some p \<Rightarrow> new = None \<or> Some p \<noteq> new)"

definition stats_set_binding :: "string \<Rightarrow> peer_id option \<Rightarrow> stats_tracker \<Rightarrow> stats_tracker" where
  "stats_set_binding mid peer t =
     (let old = map_of (tk_bindings t) mid in
      if \<not> binding_changed old peer then t
      else
        let base = AList.delete mid (tk_baselines t);
            cache1 = (case old of Some p \<Rightarrow> AList.delete p (tk_cache_by_peer t) | None \<Rightarrow> tk_cache_by_peer t) in
        (case peer of
           Some p \<Rightarrow> t\<lparr>tk_baselines := base, tk_cache_by_peer := AList.delete p cache1,
                       tk_bindings := AList.update mid p (tk_bindings t)\<rparr>
         | None \<Rightarrow> t\<lparr>tk_baselines := base, tk_cache_by_peer := cache1,
                     tk_bindings := AList.delete mid (tk_bindings t)\<rparr>))"

definition stats_set_watched :: "peer_id \<Rightarrow> bool \<Rightarrow> stats_tracker \<Rightarrow> stats_tracker" where
  "stats_set_watched peer watched t =
     (if watched then t\<lparr>tk_watched_peers := set_insert peer (tk_watched_peers t)\<rparr>
      else t\<lparr>tk_watched_peers := set_erase peer (tk_watched_peers t),
             tk_cache_by_peer := AList.delete peer (tk_cache_by_peer t)\<rparr>)"

definition stats_clear_watched :: "stats_tracker \<Rightarrow> stats_tracker" where
  "stats_clear_watched t = t\<lparr>tk_watched_peers := [], tk_cache_by_peer := []\<rparr>"

definition stats_remove_peer :: "peer_id \<Rightarrow> stats_tracker \<Rightarrow> stats_tracker" where
  "stats_remove_peer peer t =
     t\<lparr>tk_watched_peers := set_erase peer (tk_watched_peers t),
       tk_cache_by_peer := AList.delete peer (tk_cache_by_peer t),
       tk_baselines := fold (\<lambda>(mid, p). if p = peer then AList.delete mid else id) (tk_bindings t) (tk_baselines t),
       tk_bindings := filter (\<lambda>(mid, p). p \<noteq> peer) (tk_bindings t)\<rparr>"

definition stats_reset_session :: "stats_tracker \<Rightarrow> stats_tracker" where
  "stats_reset_session t =
     t\<lparr>tk_bindings := [], tk_cache_by_peer := [], tk_baselines := [], tk_request_in_flight := False,
       tk_session_generation := tk_session_generation t + 1\<rparr>"

section \<open>Requests\<close>

definition stats_poll :: "peer_id \<Rightarrow> bool \<Rightarrow> stats_tracker \<Rightarrow> poll_reply \<times> stats_tracker" where
  "stats_poll peer available t =
     (let start = available \<and> \<not> tk_request_in_flight t in
      (\<lparr>po_json = (case map_of (tk_cache_by_peer t) peer of None \<Rightarrow> ca_json new_cache | Some c \<Rightarrow> ca_json c),
        po_start_request = start, po_session_generation = tk_session_generation t\<rparr>,
       if start then t\<lparr>tk_request_in_flight := True\<rparr> else t))"

definition stats_request_failed :: "u64 \<Rightarrow> stats_tracker \<Rightarrow> stats_tracker" where
  "stats_request_failed generation t =
     (if generation = tk_session_generation t then t\<lparr>tk_request_in_flight := False\<rparr> else t)"

section \<open>Statistics of a peer\<close>

text \<open>The counters of one kind of media: what was added since the baseline of each stream.\<close>

record media_totals =
  mt_packets :: u64
  mt_bytes :: u64
  mt_lost :: u64
  mt_decoded :: u64
  mt_dropped :: u64
  mt_keyframes :: u64
  mt_concealed :: u64
  mt_emitted :: u64
  mt_delay :: real
  mt_target_delay :: real

definition no_totals :: media_totals where
  "no_totals = \<lparr>mt_packets = 0, mt_bytes = 0, mt_lost = 0, mt_decoded = 0, mt_dropped = 0, mt_keyframes = 0,
     mt_concealed = 0, mt_emitted = 0, mt_delay = 0, mt_target_delay = 0\<rparr>"

definition since :: "screen_inbound option \<Rightarrow> (screen_inbound \<Rightarrow> 'a::{ord, minus, zero}) \<Rightarrow> screen_inbound \<Rightarrow> 'a" where
  "since baseline field x =
     (case baseline of
        None \<Rightarrow> field x
      | Some b \<Rightarrow> if field b \<le> field x then field x - field b else 0)"

definition lost_since :: "screen_inbound option \<Rightarrow> screen_inbound \<Rightarrow> int" where
  "lost_since baseline x =
     (case baseline of
        None \<Rightarrow> max 0 (si_packets_lost x)
      | Some b \<Rightarrow> max 0 (si_packets_lost x - si_packets_lost b))"

definition add_inbound :: "screen_inbound option \<Rightarrow> screen_inbound \<Rightarrow> media_totals \<Rightarrow> media_totals" where
  "add_inbound b x m =
     \<lparr>mt_packets = mt_packets m + since b si_packets_received x,
      mt_bytes = mt_bytes m + since b si_bytes_received x,
      mt_lost = mt_lost m + word_of_int (lost_since b x),
      mt_decoded = mt_decoded m + ucast (since b si_frames_decoded x),
      mt_dropped = mt_dropped m + ucast (since b si_frames_dropped x),
      mt_keyframes = mt_keyframes m + ucast (since b si_key_frames_decoded x),
      mt_concealed = mt_concealed m + since b si_concealed_samples x,
      mt_emitted = mt_emitted m + since b si_emitted_count x,
      mt_delay = mt_delay m + since b si_delay_seconds x,
      mt_target_delay = mt_target_delay m + since b si_target_delay_seconds x\<rparr>"

definition peer_totals :: "stats_tracker \<Rightarrow> peer_id \<Rightarrow> bool \<Rightarrow> screen_inbound list \<Rightarrow> media_totals" where
  "peer_totals t peer video inbound =
     fold (\<lambda>x m. if map_of (tk_bindings t) (si_mid x) = Some peer \<and> si_video x = video
                  then add_inbound (map_of (tk_baselines t) (si_mid x)) x m else m) inbound no_totals"

definition average_ms :: "real \<Rightarrow> u64 \<Rightarrow> real" where
  "average_ms total_seconds n = (if n = 0 then -1 else total_seconds * 1000 / real (unat n))"

text \<open>\<^verbatim>\<open>std::llround\<close>: halves go away from zero.\<close>

definition llround :: "real \<Rightarrow> int" where
  "llround x = (if 0 \<le> x then \<lfloor>x + 1 / 2\<rfloor> else - \<lfloor>1 / 2 - x\<rfloor>)"

definition measured_kbps :: "stats_cache \<Rightarrow> u64 \<Rightarrow> int \<Rightarrow> int" where
  "measured_kbps c received now =
     (let seconds = real_of_int (now - ca_updated_at c) / 1000000000 in
      if ca_updated_at c \<noteq> 0 \<and> ca_received_bytes c \<le> received \<and> 0 < seconds
      then sint (word_of_int (llround (real (unat (received - ca_received_bytes c)) * 8 / seconds / 1000)) :: 32 word)
      else 0)"

definition stats_json :: "int \<Rightarrow> media_totals \<Rightarrow> media_totals \<Rightarrow> json" where
  "stats_json kbps v a =
     json_object [
       (''measuredKbps'', JInt kbps),
       (''video'', json_object [
          (''packetsReceived'', json_counter (mt_packets v)), (''bytesReceived'', json_counter (mt_bytes v)),
          (''packetsLost'', json_counter (mt_lost v)), (''framesDecoded'', json_counter (mt_decoded v)),
          (''framesDropped'', json_counter (mt_dropped v)), (''keyFramesDecoded'', json_counter (mt_keyframes v)),
          (''actualDelayMs'', JFloat (average_ms (mt_delay v) (mt_emitted v))),
          (''targetDelayMs'', JFloat (average_ms (mt_target_delay v) (mt_emitted v)))]),
       (''audio'', json_object [
          (''packetsReceived'', json_counter (mt_packets a)), (''bytesReceived'', json_counter (mt_bytes a)),
          (''packetsLost'', json_counter (mt_lost a)), (''concealedSamples'', json_counter (mt_concealed a)),
          (''actualDelayMs'', JFloat (average_ms (mt_delay a) (mt_emitted a))),
          (''targetDelayMs'', JFloat (average_ms (mt_target_delay a) (mt_emitted a)))]),
       (''outbound'', json_object [
          (''videoPackets'', JInt 0), (''videoBytes'', JInt 0), (''audioPackets'', JInt 0), (''audioBytes'', JInt 0)])]"

definition update_peer :: "(json \<Rightarrow> string) \<Rightarrow> stats_tracker \<Rightarrow> screen_inbound list \<Rightarrow> int \<Rightarrow> peer_id \<Rightarrow> stats_cache \<Rightarrow> stats_cache" where
  "update_peer dump t inbound now peer c =
     (let v = peer_totals t peer True inbound;
          a = peer_totals t peer False inbound;
          received = mt_bytes v + mt_bytes a in
      \<lparr>ca_json = dump (stats_json (measured_kbps c received now) v a),
       ca_received_bytes = received, ca_updated_at = now\<rparr>)"

text \<open>\<^verbatim>\<open>try_emplace\<close>: the first statistics of a bound stream are its baseline.\<close>

definition take_baselines :: "screen_inbound list \<Rightarrow> stats_tracker \<Rightarrow> stats_tracker" where
  "take_baselines inbound t =
     t\<lparr>tk_baselines := fold (\<lambda>x m. if si_mid x \<in> set (keys (tk_bindings t)) \<and> si_mid x \<notin> set (keys m)
                                   then m @ [(si_mid x, x)] else m) inbound (tk_baselines t)\<rparr>"

definition refresh_peer :: "(json \<Rightarrow> string) \<Rightarrow> screen_inbound list \<Rightarrow> int \<Rightarrow> peer_id \<Rightarrow> stats_tracker \<Rightarrow> stats_tracker" where
  "refresh_peer dump inbound now peer t =
     t\<lparr>tk_cache_by_peer := AList.update peer
         (update_peer dump t inbound now peer
            (case map_of (tk_cache_by_peer t) peer of Some c \<Rightarrow> c | None \<Rightarrow> new_cache))
         (tk_cache_by_peer t)\<rparr>"

definition stats_consume :: "(json \<Rightarrow> string) \<Rightarrow> screen_inbound list \<Rightarrow> u64 \<Rightarrow> int \<Rightarrow> stats_tracker \<Rightarrow> stats_tracker" where
  "stats_consume dump inbound generation now t =
     (if generation \<noteq> tk_session_generation t then t
      else
        let t1 = take_baselines inbound t;
            t2 = fold (refresh_peer dump inbound now) (tk_watched_peers t1) t1 in
        t2\<lparr>tk_request_in_flight := False\<rparr>)"

section \<open>Requests in flight\<close>

text \<open>
  The tracker and the requests that were started and have not been answered, each known by the
  generation it was started in; \<open>n\<close> counts the sessions that were reset. An answer of any generation
  may come at any time, as statistics or as a failure.
\<close>

datatype tracker_event =
    Set_Binding string "peer_id option"
  | Set_Watched peer_id bool
  | Clear_Watched
  | Remove_Peer peer_id
  | Poll peer_id bool

definition tracker_apply :: "tracker_event \<Rightarrow> stats_tracker \<Rightarrow> stats_tracker" where
  "tracker_apply ev t =
     (case ev of
        Set_Binding mid peer \<Rightarrow> stats_set_binding mid peer t
      | Set_Watched peer w \<Rightarrow> stats_set_watched peer w t
      | Clear_Watched \<Rightarrow> stats_clear_watched t
      | Remove_Peer peer \<Rightarrow> stats_remove_peer peer t
      | Poll peer available \<Rightarrow> snd (stats_poll peer available t))"

definition started :: "tracker_event \<Rightarrow> stats_tracker \<Rightarrow> u64 list" where
  "started ev t =
     (case ev of
        Poll peer available \<Rightarrow>
          (let r = fst (stats_poll peer available t) in if po_start_request r then [po_session_generation r] else [])
      | _ \<Rightarrow> [])"

inductive tracker_run :: "(json \<Rightarrow> string) \<Rightarrow> stats_tracker \<Rightarrow> u64 list \<Rightarrow> nat \<Rightarrow> bool" for dump where
  start: "tracker_run dump new_tracker [] 0"
| event: "tracker_run dump t out n \<Longrightarrow> tracker_run dump (tracker_apply ev t) (out @ started ev t) n"
| answered: "tracker_run dump t (before @ g # rest) n \<Longrightarrow>
    tracker_run dump (stats_consume dump inbound g now t) (before @ rest) n"
| failed: "tracker_run dump t (before @ g # rest) n \<Longrightarrow>
    tracker_run dump (stats_request_failed g t) (before @ rest) n"
| reset: "tracker_run dump t out n \<Longrightarrow> tracker_run dump (stats_reset_session t) out (Suc n)"

definition tracker_ok :: "stats_tracker \<Rightarrow> u64 list \<Rightarrow> nat \<Rightarrow> bool" where
  "tracker_ok t out n \<longleftrightarrow>
     tk_session_generation t = of_nat n \<and>
     (\<forall>g\<in>set out. unat g \<le> n) \<and>
     count_list out (of_nat n) = (if tk_request_in_flight t then 1 else 0)"

definition tables_ok :: "stats_tracker \<Rightarrow> bool" where
  "tables_ok t \<longleftrightarrow>
     distinct (keys (tk_bindings t)) \<and>
     set (keys (tk_baselines t)) \<subseteq> set (keys (tk_bindings t)) \<and>
     set (keys (tk_cache_by_peer t)) \<subseteq> set (tk_watched_peers t)"

lemma keys_update_set: "fst ` set (AList.update k v m) = insert k (fst ` set m)"
  by (simp add: dom_update)

lemma keys_delete_set: "fst ` set (AList.delete k m) = fst ` set m - {k}"
  using arg_cong [OF delete_keys [of k m], of set] by simp

lemma refresh_fold:
  "let t' = fold (refresh_peer dump inbound now) ps t in
     tk_bindings t' = tk_bindings t \<and> tk_baselines t' = tk_baselines t \<and> tk_watched_peers t' = tk_watched_peers t \<and>
     tk_request_in_flight t' = tk_request_in_flight t \<and> tk_session_generation t' = tk_session_generation t \<and>
     set (keys (tk_cache_by_peer t')) = set ps \<union> set (keys (tk_cache_by_peer t))"
proof (induction ps arbitrary: t)
  case (Cons p ps)
  have "tk_bindings (refresh_peer dump inbound now p t) = tk_bindings t \<and>
      tk_baselines (refresh_peer dump inbound now p t) = tk_baselines t \<and>
      tk_watched_peers (refresh_peer dump inbound now p t) = tk_watched_peers t \<and>
      tk_request_in_flight (refresh_peer dump inbound now p t) = tk_request_in_flight t \<and>
      tk_session_generation (refresh_peer dump inbound now p t) = tk_session_generation t \<and>
      set (keys (tk_cache_by_peer (refresh_peer dump inbound now p t))) = insert p (set (keys (tk_cache_by_peer t)))"
    by (simp add: refresh_peer_def keys_update_set)
  then show ?case using Cons [of "refresh_peer dump inbound now p t"] by (simp add: Let_def)
qed (simp add: Let_def)

lemma baselines_bound:
  "set (keys m) \<subseteq> set (keys bs) \<Longrightarrow>
   set (keys (fold (\<lambda>x m. if si_mid x \<in> set (keys bs) \<and> si_mid x \<notin> set (keys m)
                         then m @ [(si_mid x, x)] else m) inbound m)) \<subseteq> set (keys bs)"
proof (induction inbound arbitrary: m)
  case (Cons x xs)
  show ?case using Cons.prems
    by (simp only: fold_Cons o_apply, intro Cons.IH) auto
qed simp

lemma erase_peer_baselines:
  "set (keys (fold (\<lambda>(mid, p). if p = peer then AList.delete mid else id) bs base)) =
     set (keys base) - {mid. (mid, peer) \<in> set bs}"
proof (induction bs arbitrary: base)
  case (Cons b bs)
  obtain mid p where b: "b = (mid, p)" by (cases b)
  show ?case
  proof (cases "p = peer")
    case True
    then show ?thesis using Cons [of "AList.delete mid base"] by (auto simp: b keys_delete_set)
  next
    case False
    then show ?thesis using Cons [of base] by (auto simp: b)
  qed
qed simp

lemma tables_ok_event: "tables_ok t \<Longrightarrow> tables_ok (tracker_apply ev t)"
proof (cases ev)
  case (Set_Binding mid peer)
  assume ok: "tables_ok t"
  show ?thesis
  proof (cases "binding_changed (map_of (tk_bindings t) mid) peer")
    case True
    with ok show ?thesis unfolding Set_Binding
      by (auto simp: tracker_apply_def stats_set_binding_def tables_ok_def Let_def keys_update_set keys_delete_set
          distinct_update distinct_delete split: option.split)
  qed (use ok in \<open>simp add: Set_Binding tracker_apply_def stats_set_binding_def\<close>)
next
  case (Remove_Peer peer)
  assume ok: "tables_ok t"
  have dist: "distinct (keys (filter (\<lambda>(mid, p). p \<noteq> peer) (tk_bindings t)))"
    using ok by (auto simp: tables_ok_def intro: distinct_map_filter)
  have kept: "set (keys (tk_bindings t)) - {mid. (mid, peer) \<in> set (tk_bindings t)}
      \<subseteq> set (keys (filter (\<lambda>(mid, p). p \<noteq> peer) (tk_bindings t)))" by force
  have base: "set (keys (tk_baselines (stats_remove_peer peer t))) =
      set (keys (tk_baselines t)) - {mid. (mid, peer) \<in> set (tk_bindings t)}"
    using erase_peer_baselines [of peer "tk_bindings t" "tk_baselines t"] by (simp add: stats_remove_peer_def)
  have "set (keys (tk_baselines t)) \<subseteq> set (keys (tk_bindings t))" using ok by (simp only: tables_ok_def)
  then have "set (keys (tk_baselines (stats_remove_peer peer t))) \<subseteq>
      set (keys (filter (\<lambda>(mid, p). p \<noteq> peer) (tk_bindings t)))"
    using kept unfolding base by blast
  then have "set (keys (tk_baselines (stats_remove_peer peer t))) \<subseteq> set (keys (tk_bindings (stats_remove_peer peer t)))"
    by (simp add: stats_remove_peer_def)
  moreover have "set (keys (tk_cache_by_peer (stats_remove_peer peer t))) \<subseteq> set (tk_watched_peers (stats_remove_peer peer t))"
    using ok by (auto simp: stats_remove_peer_def tables_ok_def keys_delete_set)
  moreover have "distinct (keys (tk_bindings (stats_remove_peer peer t)))" using dist by (simp add: stats_remove_peer_def)
  ultimately show ?thesis unfolding Remove_Peer tracker_apply_def tracker_event.case tables_ok_def by blast
qed (auto simp: tracker_apply_def stats_set_watched_def stats_clear_watched_def stats_poll_def tables_ok_def Let_def
    keys_delete_set)

lemma tables_ok_run: "tracker_run dump t out n \<Longrightarrow> tables_ok t"
proof (induction rule: tracker_run.induct)
  case (answered t before g rest n inbound now)
  show ?case
  proof (cases "g = tk_session_generation t")
    case True
    have "set (keys (tk_baselines (take_baselines inbound t))) \<subseteq> set (keys (tk_bindings t))"
      using baselines_bound [of "tk_baselines t" "tk_bindings t" inbound] answered.IH
      by (simp add: tables_ok_def take_baselines_def)
    with True answered.IH show ?thesis
      using refresh_fold [of dump inbound now "tk_watched_peers t" "take_baselines inbound t"]
      by (auto simp: stats_consume_def tables_ok_def Let_def take_baselines_def)
  qed (use answered.IH in \<open>simp add: stats_consume_def\<close>)
next
  case (event t out n ev)
  then show ?case by (simp add: tables_ok_event)
qed (auto simp: new_tracker_def tables_ok_def stats_request_failed_def stats_reset_session_def)

lemma generation_event:
  "tk_session_generation (tracker_apply ev t) = tk_session_generation t"
  by (cases ev) (auto simp: tracker_apply_def stats_set_binding_def stats_set_watched_def stats_clear_watched_def
      stats_remove_peer_def stats_poll_def Let_def split: option.split)

lemma in_flight_event:
  "tk_request_in_flight (tracker_apply ev t) \<longleftrightarrow> tk_request_in_flight t \<or> started ev t \<noteq> []"
  by (cases ev) (auto simp: tracker_apply_def started_def stats_set_binding_def stats_set_watched_def
      stats_clear_watched_def stats_remove_peer_def stats_poll_def Let_def split: option.split)

lemma started_cases:
  "started ev t = [] \<or> started ev t = [tk_session_generation t] \<and> \<not> tk_request_in_flight t"
  by (cases ev) (auto simp: started_def stats_poll_def Let_def)

lemma consume_flight:
  "tk_session_generation (stats_consume dump inbound g now t) = tk_session_generation t \<and>
   (tk_request_in_flight (stats_consume dump inbound g now t) \<longleftrightarrow>
      tk_request_in_flight t \<and> g \<noteq> tk_session_generation t)"
  using refresh_fold [of dump inbound now "tk_watched_peers t" "take_baselines inbound t"]
  by (auto simp: stats_consume_def Let_def take_baselines_def)

lemma failed_flight:
  "tk_session_generation (stats_request_failed g t) = tk_session_generation t \<and>
   (tk_request_in_flight (stats_request_failed g t) \<longleftrightarrow> tk_request_in_flight t \<and> g \<noteq> tk_session_generation t)"
  by (auto simp: stats_request_failed_def)

lemma answer_ok:
  assumes "tracker_ok t (bef @ g # rest) n"
    and "tk_session_generation t' = tk_session_generation t"
    and "tk_request_in_flight t' \<longleftrightarrow> tk_request_in_flight t \<and> g \<noteq> tk_session_generation t"
  shows "tracker_ok t' (bef @ rest) n"
  using assms by (auto simp: tracker_ok_def split: if_splits)

lemma unat_of_nat_small: "n < 2 ^ 64 \<Longrightarrow> unat (of_nat n :: u64) = n"
  by (simp add: unat_of_nat take_bit_nat_eq_self)

lemma tracker_run_ok: "tracker_run dump t out n \<Longrightarrow> n < 2 ^ 64 \<Longrightarrow> tracker_ok t out n"
proof (induction rule: tracker_run.induct)
  case start
  show ?case by (simp add: tracker_ok_def new_tracker_def)
next
  case (event t out n ev)
  then have ok: "tracker_ok t out n" by simp
  have n: "unat (of_nat n :: u64) = n" using event.prems by (rule unat_of_nat_small)
  show ?case using ok started_cases [of ev t] n
    by (auto simp: tracker_ok_def generation_event in_flight_event split: if_splits)
next
  case (answered t bef g rest n inbound now)
  then show ?case by (intro answer_ok [of t bef g rest n]) (simp_all add: consume_flight)
next
  case (failed t bef g rest n)
  then show ?case by (intro answer_ok [of t bef g rest n]) (simp_all add: failed_flight)
next
  case (reset t out n)
  then have ok: "tracker_ok t out n" by simp
  have "of_nat (Suc n) \<notin> set out"
  proof
    assume "of_nat (Suc n) \<in> set out"
    then have "unat (of_nat (Suc n) :: u64) \<le> n" using ok unfolding tracker_ok_def by blast
    moreover have "unat (of_nat (Suc n) :: u64) = Suc n" using reset.prems by (intro unat_of_nat_small) simp
    ultimately show False by simp
  qed
  then have "count_list out (of_nat (Suc n)) = 0" by (simp only: count_list_0_iff not_False_eq_True)
  with ok show ?case by (auto simp: tracker_ok_def stats_reset_session_def intro: le_SucI)
qed

text \<open>
  C28: in every run of the tracker (bindings, watching, polls, sessions reset, and answers of any
  session in any order), as long as the 64-bit generation has not wrapped, exactly one request of the
  current session is unanswered while the flag says so and none otherwise; so a poll starts a request
  just when a session is there and none of its requests is unanswered, and answers to requests of
  earlier sessions never change that. Baselines exist for bound streams only, and statistics are kept
  for watched peers only.
\<close>

theorem stats_single_flight:
  assumes "tracker_run dump t out n" and "n < 2 ^ 64"
  shows "count_list out (tk_session_generation t) = (if tk_request_in_flight t then 1 else 0) \<and>
    (po_start_request (fst (stats_poll peer available t)) \<longleftrightarrow> available \<and> tk_session_generation t \<notin> set out) \<and>
    set (keys (tk_baselines t)) \<subseteq> set (keys (tk_bindings t)) \<and>
    set (keys (tk_cache_by_peer t)) \<subseteq> set (tk_watched_peers t)"
proof -
  have ok: "tracker_ok t out n" and tables: "tables_ok t"
    using tracker_run_ok [OF assms] tables_ok_run [OF assms(1)] by simp_all
  have count: "count_list out (tk_session_generation t) = (if tk_request_in_flight t then 1 else 0)"
    using ok by (simp add: tracker_ok_def)
  then have "tk_session_generation t \<in> set out \<longleftrightarrow> tk_request_in_flight t"
    using count_list_0_iff [of out "tk_session_generation t"] by (auto split: if_splits)
  with count tables show ?thesis by (simp add: stats_poll_def tables_ok_def Let_def)
qed

lemma stale_run:
  "tracker_run (\<lambda>_. []) (stats_reset_session (tracker_apply (Poll ''bob'' True) new_tracker)) [0] 1"
proof -
  have "tracker_run (\<lambda>_. []) (tracker_apply (Poll ''bob'' True) new_tracker) [0] 0"
    using tracker_run.event [OF tracker_run.start, of "\<lambda>_. []" "Poll ''bob'' True"]
    by (simp add: started_def stats_poll_def new_tracker_def)
  from tracker_run.reset [OF this] show ?thesis by simp
qed

theorem stats_single_flight_witness:
  "po_start_request (fst (stats_poll ''bob'' True
     (stats_reset_session (tracker_apply (Poll ''bob'' True) new_tracker))))"
proof -
  have gen: "tk_session_generation (stats_reset_session (tracker_apply (Poll ''bob'' True) new_tracker)) = 1"
    by (simp add: stats_reset_session_def generation_event) (simp add: new_tracker_def)
  show ?thesis using stats_single_flight [OF stale_run, of "''bob''" True] gen by simp
qed

end
