(* ===== verification/Voice_Session.thy ===== *)
theory Voice_Session
  imports Prelude Complex_Main
begin

text \<open>
  One voice connection of a client: \<^verbatim>\<open>GoogleWebRtcVoiceSession\<close> of
  \<^verbatim>\<open>core/src/webrtc/google_webrtc_voice_session.cpp\<close>. The PeerConnection is a library object: what its
  calls return is an argument, and what the code reads back from it (the receiving audio tracks by
  their mid, each with its enabled flag and volume) is part of the state. A session has at most one
  PeerConnection, so \<^verbatim>\<open>owns\<close> needs no identity. Errors are values, in the order they are reported.
\<close>

section \<open>State\<close>

datatype session_error =
    Too_Many_Slots | Bad_Video_Bitrate | Bad_Audio_Bitrate | Runtime_Not_Ready | Audio_Needs_Injection
  | Connection_Failed | Source_Failed | Track_Failed | Sender_Failed | Receiver_Failed
  | Local_Description_Failed | Serializing_Failed | Remote_Answer_Failed | Answer_Before_Start
  | Invalid_Answer | Candidate_Before_Start | Invalid_Candidate | Candidate_Failed | Capture_Failed

datatype media_state = Ms_New | Ms_Connecting | Ms_Connected | Ms_Disconnected | Ms_Failed | Ms_Closed

text \<open>An audio track as the library keeps it.\<close>

record audio_track =
  at_enabled :: bool
  at_volume :: real

definition new_audio_track :: audio_track where
  "new_audio_track = \<lparr>at_enabled = True, at_volume = 1\<rparr>"

record voice_session =
  vs_remote_track_slots :: nat
  vs_max_microphone_bitrate_bps :: int
  vs_takes_audio :: bool
  vs_pc :: bool
  vs_microphone_track :: "bool option"
  vs_tracks :: "(string \<times> audio_track) list"
  vs_remote_sinks :: "string list"
  vs_started :: bool
  vs_start_attempted :: bool
  vs_close_requested :: bool
  vs_desired_microphone_enabled :: bool
  vs_errors :: "session_error list"

definition new_voice_session :: "nat \<Rightarrow> bool \<Rightarrow> int \<Rightarrow> bool \<Rightarrow> voice_session" where
  "new_voice_session slots microphone bitrate takes_audio =
     \<lparr>vs_remote_track_slots = slots, vs_max_microphone_bitrate_bps = bitrate, vs_takes_audio = takes_audio,
      vs_pc = False, vs_microphone_track = None, vs_tracks = [], vs_remote_sinks = [], vs_started = False,
      vs_start_attempted = False, vs_close_requested = False, vs_desired_microphone_enabled = microphone,
      vs_errors = []\<rparr>"

definition kMaxRemoteTrackSlots :: nat where
  "kMaxRemoteTrackSlots = 64"

definition voice_report :: "session_error \<Rightarrow> voice_session \<Rightarrow> voice_session" where
  "voice_report err s = s\<lparr>vs_errors := vs_errors s @ [err]\<rparr>"

section \<open>Starting and closing\<close>

text \<open>What the library's calls return during a start, and whether the session is closed meanwhile.\<close>

record start_results =
  sr_runtime :: bool
  sr_connection :: bool
  sr_source :: bool
  sr_track :: bool
  sr_sender :: bool
  sr_receiver :: "nat \<Rightarrow> bool"
  sr_closed :: bool

definition voice_close :: "voice_session \<Rightarrow> voice_session" where
  "voice_close s =
     s\<lparr>vs_pc := False, vs_microphone_track := None, vs_remote_sinks := [], vs_started := False,
       vs_close_requested := True, vs_tracks := []\<rparr>"

text \<open>The microphone is set up with the wish of the moment before the connection is stored.\<close>

definition voice_start :: "start_results \<Rightarrow> voice_session \<Rightarrow> bool \<times> voice_session" where
  "voice_start r s =
     (if kMaxRemoteTrackSlots < vs_remote_track_slots s then (False, voice_report Too_Many_Slots s)
      else if vs_max_microphone_bitrate_bps s \<le> 0 \<or> 510000 < vs_max_microphone_bitrate_bps s
      then (False, voice_report Bad_Audio_Bitrate s)
      else if vs_start_attempted s \<or> vs_close_requested s then (vs_started s, s)
      else
        let s1 = s\<lparr>vs_start_attempted := True\<rparr> in
        if \<not> sr_runtime r then (False, voice_report Runtime_Not_Ready s1)
        else if \<not> sr_connection r then (False, voice_report Connection_Failed s1)
        else if \<not> sr_source r then (False, voice_report Source_Failed s1)
        else if \<not> sr_track r then (False, voice_report Track_Failed s1)
        else if \<not> sr_sender r then (False, voice_report Sender_Failed s1)
        else if \<not> list_all (sr_receiver r) [0..<vs_remote_track_slots s1]
        then (False, voice_report Receiver_Failed s1)
        else if sr_closed r then (False, voice_close s1)
        else (True, s1\<lparr>vs_pc := True, vs_microphone_track := Some (vs_desired_microphone_enabled s1),
                       vs_started := True\<rparr>))"

definition voice_owns :: "voice_session \<Rightarrow> bool" where
  "voice_owns s \<longleftrightarrow> vs_started s \<and> vs_pc s"

section \<open>Negotiation\<close>

text \<open>
  The local description is set: it names the mids of the audio transceivers. The offer is what the
  session's \<^verbatim>\<open>on_offer\<close> is called with.
\<close>

datatype description_result = Description_Error | No_Description | Description string

definition voice_local_description ::
  "string list \<Rightarrow> description_result \<Rightarrow> voice_session \<Rightarrow> string option \<times> voice_session" where
  "voice_local_description mids result s =
     (if \<not> voice_owns s then (None, s)
      else
        (case result of
           Description_Error \<Rightarrow> (None, voice_report Local_Description_Failed s)
         | No_Description \<Rightarrow> (None, voice_report Serializing_Failed s)
         | Description sdp \<Rightarrow>
             (Some sdp,
              s\<lparr>vs_tracks := fold (\<lambda>mid ts. if mid \<in> set (keys ts) then ts else ts @ [(mid, new_audio_track)])
                  mids (vs_tracks s)\<rparr>)))"

definition voice_remote_description :: "bool \<Rightarrow> voice_session \<Rightarrow> voice_session" where
  "voice_remote_description ok s = (if voice_owns s \<and> \<not> ok then voice_report Remote_Answer_Failed s else s)"

text \<open>\<open>parses\<close>: the library can read the text; the result of the asynchronous call comes later.\<close>

definition voice_apply_answer :: "bool \<Rightarrow> voice_session \<Rightarrow> voice_session" where
  "voice_apply_answer parses s =
     (if \<not> vs_pc s then voice_report Answer_Before_Start s
      else if \<not> parses then voice_report Invalid_Answer s
      else s)"

definition voice_add_remote_candidate :: "bool \<Rightarrow> voice_session \<Rightarrow> voice_session" where
  "voice_add_remote_candidate parses s =
     (if \<not> vs_pc s then voice_report Candidate_Before_Start s
      else if \<not> parses then voice_report Invalid_Candidate s
      else s)"

definition voice_candidate_added :: "bool \<Rightarrow> voice_session \<Rightarrow> voice_session" where
  "voice_candidate_added ok s = (if voice_owns s \<and> \<not> ok then voice_report Candidate_Failed s else s)"

definition voice_on_ice_candidate :: "(string \<times> string) option \<Rightarrow> voice_session \<Rightarrow> (string \<times> string) option" where
  "voice_on_ice_candidate candidate s = (if \<not> vs_started s then None else candidate)"

section \<open>Tracks\<close>

definition voice_set_microphone_enabled :: "bool \<Rightarrow> voice_session \<Rightarrow> voice_session" where
  "voice_set_microphone_enabled enabled s =
     s\<lparr>vs_desired_microphone_enabled := enabled,
       vs_microphone_track := map_option (\<lambda>_. enabled) (vs_microphone_track s)\<rparr>"

definition voice_microphone_enabled :: "voice_session \<Rightarrow> bool" where
  "voice_microphone_enabled s =
     (case vs_microphone_track s of Some enabled \<Rightarrow> enabled | None \<Rightarrow> vs_desired_microphone_enabled s)"

definition remote_audio_track :: "string \<Rightarrow> voice_session \<Rightarrow> audio_track option" where
  "remote_audio_track mid s = (if vs_pc s then map_of (vs_tracks s) mid else None)"

definition voice_set_track_enabled :: "string \<Rightarrow> bool \<Rightarrow> voice_session \<Rightarrow> voice_session" where
  "voice_set_track_enabled mid enabled s =
     (case remote_audio_track mid s of
        None \<Rightarrow> s
      | Some _ \<Rightarrow> s\<lparr>vs_tracks := adjust mid (at_enabled_update (\<lambda>_. enabled)) (vs_tracks s)\<rparr>)"

definition voice_set_track_volume :: "string \<Rightarrow> real \<Rightarrow> voice_session \<Rightarrow> bool \<times> voice_session" where
  "voice_set_track_volume mid volume s =
     (if volume < 0 \<or> 10 < volume then (False, s)
      else
        (case remote_audio_track mid s of
           None \<Rightarrow> (False, s)
         | Some _ \<Rightarrow> (True, s\<lparr>vs_tracks := adjust mid (at_volume_update (\<lambda>_. volume)) (vs_tracks s)\<rparr>)))"

definition attach_remote_audio_sink :: "string \<Rightarrow> voice_session \<Rightarrow> voice_session" where
  "attach_remote_audio_sink mid s =
     (if \<not> vs_takes_audio s then s
      else if vs_started s \<and> mid \<notin> set (vs_remote_sinks s) then s\<lparr>vs_remote_sinks := vs_remote_sinks s @ [mid]\<rparr>
      else s)"

text \<open>
  \<^verbatim>\<open>OnTrack\<close> of a transceiver with a mid (if it has one) and a track that is of audio or not; the mid
  is what \<^verbatim>\<open>on_remote_track\<close> is called with.
\<close>

definition voice_on_track :: "string option \<Rightarrow> bool \<Rightarrow> voice_session \<Rightarrow> string option \<times> voice_session" where
  "voice_on_track mid audio s =
     (if \<not> vs_started s then (None, s)
      else
        (case mid of
           None \<Rightarrow> (None, s)
         | Some m \<Rightarrow> if audio then (Some m, attach_remote_audio_sink m s) else (None, s)))"

text \<open>Decoded audio is passed on only in the one format the client takes.\<close>

definition deliver_remote_audio :: "bool \<Rightarrow> int \<Rightarrow> int \<Rightarrow> nat \<Rightarrow> nat \<Rightarrow> voice_session \<Rightarrow> bool" where
  "deliver_remote_audio has_data bits_per_sample sample_rate channels frames s \<longleftrightarrow>
     \<not> (\<not> vs_takes_audio s \<or> \<not> has_data \<or> bits_per_sample \<noteq> 16 \<or> sample_rate \<le> 0 \<or> channels = 0 \<or> frames = 0 \<or>
        (2 ^ 64 - 1) div channels < frames) \<and> vs_started s"

section \<open>Statistics\<close>

text \<open>Whether a request is made, and whether its answer reaches the callback.\<close>

definition voice_get_stats :: "voice_session \<Rightarrow> bool" where
  "voice_get_stats s \<longleftrightarrow> vs_pc s"

definition voice_stats_delivered :: "bool \<Rightarrow> voice_session \<Rightarrow> bool" where
  "voice_stats_delivered has_report s \<longleftrightarrow> voice_owns s \<and> has_report"

end
