(* ===== verification/Screen_Session.thy ===== *)
theory Screen_Session
  imports Voice_Session
begin

text \<open>
  One screen connection of a client: \<^verbatim>\<open>GoogleWebRtcScreenSession\<close> of
  \<^verbatim>\<open>core/src/webrtc/google_webrtc_screen_session.cpp\<close> with its desktop source and its sinks
  (\<^verbatim>\<open>google_webrtc_screen_adapters.cpp\<close>). As for voice, results of library calls are arguments. Pixels
  are not modelled: a frame is its size, and a capture is the state of its thread.
\<close>

section \<open>The desktop source\<close>

datatype capture_kind = Screen_Capture | Window_Capture

record desktop_source =
  ds_max_width :: int
  ds_max_height :: int
  ds_capture_failed :: bool
  ds_capture_stop :: bool
  ds_capture_thread :: bool

definition new_desktop_source :: desktop_source where
  "new_desktop_source = \<lparr>ds_max_width = 0, ds_max_height = 0, ds_capture_failed = False,
     ds_capture_stop = False, ds_capture_thread = False\<rparr>"

definition stop_capture :: "desktop_source \<Rightarrow> desktop_source" where
  "stop_capture d = d\<lparr>ds_capture_stop := True, ds_capture_thread := False, ds_max_width := 0, ds_max_height := 0\<rparr>"

text \<open>\<open>native\<close>: the id fits the library's type; \<open>begins\<close>: the thread found and selected the source.\<close>

definition start_capture :: "bool \<Rightarrow> bool \<Rightarrow> int \<Rightarrow> int \<Rightarrow> int \<Rightarrow> desktop_source \<Rightarrow> bool \<times> desktop_source" where
  "start_capture native begins max_fps max_width max_height d =
     (if max_fps \<le> 0 \<or> 60 < max_fps \<or> max_width < 0 \<or> max_height < 0 \<or> (max_width = 0) \<noteq> (max_height = 0)
      then (False, d)
      else if \<not> native then (False, d)
      else
        let d1 = (stop_capture d)\<lparr>ds_max_width := max_width, ds_max_height := max_height,
                    ds_capture_failed := False, ds_capture_stop := False, ds_capture_thread := True\<rparr> in
        if begins then (True, d1) else (False, stop_capture d1))"

definition capture_failed_permanently :: "desktop_source \<Rightarrow> desktop_source" where
  "capture_failed_permanently d = d\<lparr>ds_capture_failed := True\<rparr>"

text \<open>The size a frame is brought to before it is handed on; \<open>None\<close>: the frame is refused.\<close>

definition constrained_size :: "int \<Rightarrow> int \<Rightarrow> int \<Rightarrow> int \<Rightarrow> int \<times> int" where
  "constrained_size max_width max_height width height =
     (if 0 < max_width \<and> 0 < max_height \<and> (max_width < width \<or> max_height < height)
      then
        let scale = min (real_of_int max_width / real_of_int width) (real_of_int max_height / real_of_int height) in
        (max 1 \<lfloor>real_of_int width * scale\<rfloor>, max 1 \<lfloor>real_of_int height * scale\<rfloor>)
      else (width, height))"

definition submit_bgra :: "nat \<Rightarrow> int \<Rightarrow> int \<Rightarrow> int \<Rightarrow> int \<Rightarrow> desktop_source \<Rightarrow> (int \<times> int) option" where
  "submit_bgra bytes width height stride timestamp_us d =
     (if width \<le> 0 \<or> height \<le> 0 \<or> (2 ^ 31 - 1) div 4 < width \<or> stride < width * 4 \<or> timestamp_us < 0 \<or>
         (2 ^ 64 - 1) div height < stride \<or> int bytes < stride * height
      then None
      else Some (constrained_size (ds_max_width d) (ds_max_height d) width height))"

text \<open>The size of a thumbnail: never larger than the source or the bounds, and at least one pixel.\<close>

definition thumbnail_size :: "int \<Rightarrow> int \<Rightarrow> int \<Rightarrow> int \<Rightarrow> int \<Rightarrow> (int \<times> int) option" where
  "thumbnail_size max_width max_height source_width source_height stride =
     (if max_width \<le> 0 \<or> max_height \<le> 0 then None
      else if source_width \<le> 0 \<or> source_height \<le> 0 \<or> stride < source_width * 4 then None
      else
        let scale = min 1 (min (real_of_int max_width / real_of_int source_width)
                               (real_of_int max_height / real_of_int source_height)) in
        Some (max 1 \<lfloor>real_of_int source_width * scale\<rfloor>, max 1 \<lfloor>real_of_int source_height * scale\<rfloor>))"

section \<open>Sinks\<close>

record local_sink =
  ls_attached :: bool
  ls_generation :: u64

definition new_local_sink :: local_sink where
  "new_local_sink = \<lparr>ls_attached = False, ls_generation = 0\<rparr>"

text \<open>Attaching to the session's one video track, if it is there, with nothing in between.\<close>

definition local_attach :: "bool \<Rightarrow> local_sink \<Rightarrow> local_sink" where
  "local_attach track l =
     (if \<not> track then l
      else if ls_attached l then l
      else l\<lparr>ls_generation := ls_generation l + 1, ls_attached := True\<rparr>)"

definition local_clear :: "local_sink \<Rightarrow> local_sink" where
  "local_clear l = l\<lparr>ls_generation := ls_generation l + 1, ls_attached := False\<rparr>"

record remote_sinks =
  rs_video :: "string list"
  rs_audio :: "(string \<times> audio_track) list"

definition new_remote_sinks :: remote_sinks where
  "new_remote_sinks = \<lparr>rs_video = [], rs_audio = []\<rparr>"

definition attach_video :: "string \<Rightarrow> remote_sinks \<Rightarrow> remote_sinks" where
  "attach_video mid r = (if mid \<in> set (rs_video r) then r else r\<lparr>rs_video := rs_video r @ [mid]\<rparr>)"

definition attach_audio :: "string \<Rightarrow> audio_track \<Rightarrow> remote_sinks \<Rightarrow> remote_sinks" where
  "attach_audio mid track r =
     (if mid \<in> set (keys (rs_audio r)) then r else r\<lparr>rs_audio := rs_audio r @ [(mid, track)]\<rparr>)"

definition set_audio_enabled :: "string \<Rightarrow> bool \<Rightarrow> remote_sinks \<Rightarrow> remote_sinks" where
  "set_audio_enabled mid enabled r = r\<lparr>rs_audio := adjust mid (at_enabled_update (\<lambda>_. enabled)) (rs_audio r)\<rparr>"

definition set_audio_volume :: "string \<Rightarrow> real \<Rightarrow> remote_sinks \<Rightarrow> bool \<times> remote_sinks" where
  "set_audio_volume mid volume r =
     (if volume < 0 \<or> 10 < volume then (False, r)
      else if mid \<notin> set (keys (rs_audio r)) then (False, r)
      else (True, r\<lparr>rs_audio := adjust mid (at_volume_update (\<lambda>_. volume)) (rs_audio r)\<rparr>))"

section \<open>The session\<close>

record screen_session =
  ss_remote_stream_slots :: nat
  ss_max_video_bitrate_bps :: int
  ss_max_system_audio_bitrate_bps :: int
  ss_local_preview_config :: bool
  ss_takes_local_video :: bool
  ss_injected_source :: bool
  ss_pc :: bool
  ss_video_source :: "desktop_source option"
  ss_video_track :: "bool option"
  ss_audio_track :: "bool option"
  ss_remote_sinks :: "remote_sinks option"
  ss_local_preview_sink :: "local_sink option"
  ss_started :: bool
  ss_start_attempted :: bool
  ss_close_requested :: bool
  ss_desired_sharing_enabled :: bool
  ss_desired_system_audio_enabled :: bool
  ss_desired_local_preview_enabled :: bool
  ss_errors :: "session_error list"

definition new_screen_session :: "nat \<Rightarrow> bool \<Rightarrow> bool \<Rightarrow> bool \<Rightarrow> int \<Rightarrow> int \<Rightarrow> bool \<Rightarrow> bool \<Rightarrow> screen_session" where
  "new_screen_session slots sharing system_audio preview video_bitrate audio_bitrate injected takes_local_video =
     \<lparr>ss_remote_stream_slots = slots, ss_max_video_bitrate_bps = video_bitrate,
      ss_max_system_audio_bitrate_bps = audio_bitrate, ss_local_preview_config = preview,
      ss_takes_local_video = takes_local_video, ss_injected_source = injected, ss_pc = False,
      ss_video_source = None, ss_video_track = None, ss_audio_track = None, ss_remote_sinks = None,
      ss_local_preview_sink = None, ss_started = False, ss_start_attempted = False, ss_close_requested = False,
      ss_desired_sharing_enabled = sharing, ss_desired_system_audio_enabled = system_audio,
      ss_desired_local_preview_enabled = preview, ss_errors = []\<rparr>"

definition kMaxRemoteStreamSlots :: nat where
  "kMaxRemoteStreamSlots = 16"

definition screen_report :: "session_error \<Rightarrow> screen_session \<Rightarrow> screen_session" where
  "screen_report err s = s\<lparr>ss_errors := ss_errors s @ [err]\<rparr>"

definition screen_close :: "screen_session \<Rightarrow> screen_session" where
  "screen_close s =
     s\<lparr>ss_pc := False, ss_video_source := None, ss_video_track := None, ss_audio_track := None,
       ss_remote_sinks := None, ss_local_preview_sink := None, ss_started := False, ss_close_requested := True\<rparr>"

text \<open>
  What the library's calls return during a start: \<open>tr_sender\<close> of video and of audio, \<open>tr_receiver\<close> of
  each slot (both of its transceivers).
\<close>

record screen_results =
  tr_runtime :: bool
  tr_connection :: bool
  tr_video_track :: bool
  tr_audio_track :: bool
  tr_video_sender :: bool
  tr_audio_sender :: bool
  tr_receiver :: "nat \<Rightarrow> bool"
  tr_closed :: bool

definition screen_start :: "screen_results \<Rightarrow> screen_session \<Rightarrow> bool \<times> screen_session" where
  "screen_start r s =
     (if kMaxRemoteStreamSlots < ss_remote_stream_slots s then (False, screen_report Too_Many_Slots s)
      else if ss_max_video_bitrate_bps s \<le> 0 \<or> 50000000 < ss_max_video_bitrate_bps s
      then (False, screen_report Bad_Video_Bitrate s)
      else if ss_max_system_audio_bitrate_bps s \<le> 0 \<or> 510000 < ss_max_system_audio_bitrate_bps s
      then (False, screen_report Bad_Audio_Bitrate s)
      else if ss_start_attempted s \<or> ss_close_requested s then (ss_started s, s)
      else
        let s1 = s\<lparr>ss_start_attempted := True\<rparr> in
        if \<not> tr_runtime r then (False, screen_report Runtime_Not_Ready s1)
        else if ss_desired_system_audio_enabled s1 \<and> \<not> ss_injected_source s1
        then (False, screen_report Audio_Needs_Injection s1)
        else if \<not> tr_connection r then (False, screen_report Connection_Failed s1)
        else if \<not> tr_video_track r then (False, screen_report Track_Failed s1)
        else if \<not> tr_audio_track r then (False, screen_report Track_Failed s1)
        else if \<not> tr_video_sender r then (False, screen_report Sender_Failed s1)
        else if \<not> tr_audio_sender r then (False, screen_report Sender_Failed s1)
        else if \<not> list_all (tr_receiver r) [0..<ss_remote_stream_slots s1]
        then (False, screen_report Receiver_Failed s1)
        else if tr_closed r then (False, screen_close s1)
        else
          (True,
           s1\<lparr>ss_pc := True, ss_video_source := Some new_desktop_source,
              ss_video_track := Some (ss_desired_sharing_enabled s1),
              ss_audio_track := Some (ss_desired_system_audio_enabled s1),
              ss_remote_sinks := Some new_remote_sinks,
              ss_local_preview_sink := Some (if ss_local_preview_config s1 \<and> ss_takes_local_video s1
                then local_attach True new_local_sink else new_local_sink),
              ss_started := True\<rparr>))"

definition screen_owns :: "screen_session \<Rightarrow> bool" where
  "screen_owns s \<longleftrightarrow> ss_started s \<and> ss_pc s"

section \<open>Negotiation\<close>

definition screen_local_description :: "description_result \<Rightarrow> screen_session \<Rightarrow> string option \<times> screen_session" where
  "screen_local_description result s =
     (if \<not> screen_owns s then (None, s)
      else
        (case result of
           Description_Error \<Rightarrow> (None, screen_report Local_Description_Failed s)
         | No_Description \<Rightarrow> (None, screen_report Serializing_Failed s)
         | Description sdp \<Rightarrow> (Some sdp, s)))"

definition screen_remote_description :: "bool \<Rightarrow> screen_session \<Rightarrow> screen_session" where
  "screen_remote_description ok s = (if screen_owns s \<and> \<not> ok then screen_report Remote_Answer_Failed s else s)"

definition screen_apply_answer :: "bool \<Rightarrow> screen_session \<Rightarrow> screen_session" where
  "screen_apply_answer parses s =
     (if \<not> ss_pc s then screen_report Answer_Before_Start s
      else if \<not> parses then screen_report Invalid_Answer s
      else s)"

definition screen_add_remote_candidate :: "bool \<Rightarrow> screen_session \<Rightarrow> screen_session" where
  "screen_add_remote_candidate parses s =
     (if \<not> ss_pc s then screen_report Candidate_Before_Start s
      else if \<not> parses then screen_report Invalid_Candidate s
      else s)"

definition screen_candidate_added :: "bool \<Rightarrow> screen_session \<Rightarrow> screen_session" where
  "screen_candidate_added ok s = (if screen_owns s \<and> \<not> ok then screen_report Candidate_Failed s else s)"

definition screen_on_ice_candidate :: "(string \<times> string) option \<Rightarrow> screen_session \<Rightarrow> (string \<times> string) option" where
  "screen_on_ice_candidate candidate s = (if \<not> ss_started s then None else candidate)"

section \<open>Tracks and switches\<close>

definition set_sharing_enabled :: "bool \<Rightarrow> screen_session \<Rightarrow> screen_session" where
  "set_sharing_enabled enabled s =
     s\<lparr>ss_desired_sharing_enabled := enabled, ss_video_track := map_option (\<lambda>_. enabled) (ss_video_track s)\<rparr>"

definition set_system_audio_enabled :: "bool \<Rightarrow> screen_session \<Rightarrow> screen_session" where
  "set_system_audio_enabled enabled s =
     (if enabled \<and> \<not> ss_injected_source s then screen_report Audio_Needs_Injection s
      else s\<lparr>ss_desired_system_audio_enabled := enabled,
             ss_audio_track := map_option (\<lambda>_. enabled) (ss_audio_track s)\<rparr>)"

definition screen_set_local_preview :: "bool \<Rightarrow> screen_session \<Rightarrow> screen_session" where
  "screen_set_local_preview enabled s =
     (let s1 = s\<lparr>ss_desired_local_preview_enabled := enabled\<rparr> in
      case ss_local_preview_sink s1 of
        None \<Rightarrow> s1
      | Some l \<Rightarrow>
          s1\<lparr>ss_local_preview_sink :=
               Some (if enabled \<and> ss_takes_local_video s1 then local_attach (ss_video_track s1 \<noteq> None) l
                     else local_clear l)\<rparr>)"

definition sharing_enabled :: "screen_session \<Rightarrow> bool" where
  "sharing_enabled s = (case ss_video_track s of Some enabled \<Rightarrow> enabled | None \<Rightarrow> ss_desired_sharing_enabled s)"

definition screen_submit_bgra :: "nat \<Rightarrow> int \<Rightarrow> int \<Rightarrow> int \<Rightarrow> int \<Rightarrow> screen_session \<Rightarrow> (int \<times> int) option" where
  "screen_submit_bgra bytes width height stride timestamp_us s =
     (if ss_started s \<and> ss_desired_sharing_enabled s
      then (case ss_video_source s of
              None \<Rightarrow> None
            | Some d \<Rightarrow> submit_bgra bytes width height stride timestamp_us d)
      else None)"

definition start_desktop_capture ::
  "bool \<Rightarrow> bool \<Rightarrow> int \<Rightarrow> int \<Rightarrow> int \<Rightarrow> screen_session \<Rightarrow> bool \<times> screen_session" where
  "start_desktop_capture native begins max_fps max_width max_height s =
     (case ss_video_source s of
        None \<Rightarrow> (False, s)
      | Some d \<Rightarrow>
          (case start_capture native begins max_fps max_width max_height d of
             (ok, d') \<Rightarrow>
               let s1 = s\<lparr>ss_video_source := Some d'\<rparr> in
               if ok then (True, set_sharing_enabled True s1) else (False, s1)))"

definition stop_desktop_capture :: "screen_session \<Rightarrow> screen_session" where
  "stop_desktop_capture s = s\<lparr>ss_video_source := map_option stop_capture (ss_video_source s)\<rparr>"

definition screen_set_audio_enabled :: "string \<Rightarrow> bool \<Rightarrow> screen_session \<Rightarrow> screen_session" where
  "screen_set_audio_enabled mid enabled s =
     s\<lparr>ss_remote_sinks := map_option (set_audio_enabled mid enabled) (ss_remote_sinks s)\<rparr>"

definition screen_set_audio_volume :: "string \<Rightarrow> real \<Rightarrow> screen_session \<Rightarrow> bool \<times> screen_session" where
  "screen_set_audio_volume mid volume s =
     (case ss_remote_sinks s of
        None \<Rightarrow> (False, s)
      | Some r \<Rightarrow> (case set_audio_volume mid volume r of (ok, r') \<Rightarrow> (ok, s\<lparr>ss_remote_sinks := Some r'\<rparr>)))"

datatype track_kind = Video_Kind | Audio_Kind | Other_Kind

text \<open>\<^verbatim>\<open>OnTrack\<close>; the result is what \<^verbatim>\<open>on_remote_track\<close> is called with: the mid, and whether it is video.\<close>

definition screen_on_track ::
  "string option \<Rightarrow> track_kind \<Rightarrow> audio_track \<Rightarrow> screen_session \<Rightarrow> (string \<times> bool) option \<times> screen_session" where
  "screen_on_track mid kind track s =
     (if \<not> ss_started s then (None, s)
      else
        (case (mid, ss_remote_sinks s) of
           (Some m, Some r) \<Rightarrow>
             (case kind of
                Video_Kind \<Rightarrow> (Some (m, True), s\<lparr>ss_remote_sinks := Some (attach_video m r)\<rparr>)
              | Audio_Kind \<Rightarrow> (Some (m, False), s\<lparr>ss_remote_sinks := Some (attach_audio m track r)\<rparr>)
              | Other_Kind \<Rightarrow> (None, s))
         | _ \<Rightarrow> (None, s)))"

text \<open>Whether a decoded frame of a sink, and one of the own screen, is passed on to the client.\<close>

definition screen_passes_video :: "string \<Rightarrow> screen_session \<Rightarrow> bool" where
  "screen_passes_video mid s \<longleftrightarrow>
     ss_started s \<and> (case ss_remote_sinks s of Some r \<Rightarrow> mid \<in> set (rs_video r) | None \<Rightarrow> False)"

definition screen_passes_local_video :: "screen_session \<Rightarrow> bool" where
  "screen_passes_local_video s \<longleftrightarrow>
     ss_started s \<and> ss_desired_local_preview_enabled s \<and> ss_takes_local_video s \<and>
     (case ss_local_preview_sink s of Some l \<Rightarrow> ls_attached l | None \<Rightarrow> False)"

definition screen_get_stats :: "screen_session \<Rightarrow> bool" where
  "screen_get_stats s \<longleftrightarrow> ss_pc s"

definition screen_stats_delivered :: "bool \<Rightarrow> screen_session \<Rightarrow> bool" where
  "screen_stats_delivered has_report s \<longleftrightarrow> screen_owns s \<and> has_report"

section \<open>Sizes\<close>

lemma scaled_floor_bounds:
  fixes scale :: real and n bound :: int
  assumes "1 \<le> n" and "1 \<le> bound" and "0 \<le> scale" and "scale \<le> 1" and "scale \<le> real_of_int bound / real_of_int n"
  shows "1 \<le> max 1 \<lfloor>real_of_int n * scale\<rfloor> \<and> max 1 \<lfloor>real_of_int n * scale\<rfloor> \<le> min n bound"
proof -
  have n: "0 < real_of_int n" using assms(1) by simp
  have "real_of_int n * scale \<le> real_of_int n * 1" using n assms(4) by (intro mult_left_mono) auto
  then have "\<lfloor>real_of_int n * scale\<rfloor> \<le> n" by linarith
  moreover have "real_of_int n * scale \<le> real_of_int bound"
    using assms(5) n by (simp add: field_simps pos_le_divide_eq)
  then have "\<lfloor>real_of_int n * scale\<rfloor> \<le> bound" by linarith
  ultimately show ?thesis using assms(1,2) by simp
qed

lemma ratio_le_one: "0 < b \<Longrightarrow> a \<le> b \<Longrightarrow> real_of_int a / real_of_int b \<le> 1"
  by (simp add: divide_le_eq)

lemma constrained_size_bounds:
  assumes "1 \<le> width" and "1 \<le> height"
  shows "case constrained_size max_width max_height width height of (w, h) \<Rightarrow>
    1 \<le> w \<and> w \<le> width \<and> 1 \<le> h \<and> h \<le> height \<and>
    (0 < max_width \<and> 0 < max_height \<longrightarrow> w \<le> max_width \<and> h \<le> max_height)"
proof (cases "0 < max_width \<and> 0 < max_height \<and> (max_width < width \<or> max_height < height)")
  case True
  let ?scale = "min (real_of_int max_width / real_of_int width) (real_of_int max_height / real_of_int height)"
  have "0 \<le> ?scale" using True assms by simp
  moreover have "?scale \<le> 1"
    using True assms ratio_le_one [of width max_width] ratio_le_one [of height max_height] by (auto simp: min_le_iff_disj)
  ultimately show ?thesis
    using True assms scaled_floor_bounds [of width max_width ?scale] scaled_floor_bounds [of height max_height ?scale]
    by (simp add: constrained_size_def Let_def)
next
  case False
  then show ?thesis using assms by (auto simp: constrained_size_def)
qed

lemma thumbnail_size_bounds:
  assumes "thumbnail_size max_width max_height source_width source_height stride = Some (w, h)"
  shows "1 \<le> w \<and> w \<le> min source_width max_width \<and> 1 \<le> h \<and> h \<le> min source_height max_height"
proof -
  let ?scale = "min 1 (min (real_of_int max_width / real_of_int source_width)
                           (real_of_int max_height / real_of_int source_height))"
  have pos: "1 \<le> max_width" "1 \<le> max_height" "1 \<le> source_width" "1 \<le> source_height"
    and size: "w = max 1 \<lfloor>real_of_int source_width * ?scale\<rfloor>" "h = max 1 \<lfloor>real_of_int source_height * ?scale\<rfloor>"
    using assms by (auto simp: thumbnail_size_def Let_def split: if_splits)
  have "0 \<le> ?scale" using pos by simp
  then show ?thesis
    using pos scaled_floor_bounds [of source_width max_width ?scale] scaled_floor_bounds [of source_height max_height ?scale]
    unfolding size by simp
qed

text \<open>
  C39: a frame that the desktop source accepts is given on at least one pixel wide and high, never
  enlarged, and within the bounds of the capture when they are set, and its buffer is large enough to
  be read; so is a thumbnail, which is always within its bounds.
\<close>

theorem frame_sizes_bounded:
  "(case submit_bgra bytes width height stride timestamp_us d of
      None \<Rightarrow> True
    | Some (w, h) \<Rightarrow>
        1 \<le> w \<and> w \<le> width \<and> 1 \<le> h \<and> h \<le> height \<and> 4 * width * height \<le> int bytes \<and>
        (w \<le> ds_max_width d \<and> h \<le> ds_max_height d \<or> ds_max_width d \<le> 0 \<or> ds_max_height d \<le> 0)) \<and>
   (case thumbnail_size max_width max_height source_width source_height row of
      None \<Rightarrow> True
    | Some (w, h) \<Rightarrow> 1 \<le> w \<and> w \<le> min source_width max_width \<and> 1 \<le> h \<and> h \<le> min source_height max_height)"
proof
  have area: "4 * width * height \<le> int bytes"
    if "width * 4 \<le> stride" "stride * height \<le> int bytes" "0 < height"
  proof -
    have "(width * 4) * height \<le> stride * height" using that by (intro mult_right_mono) auto
    also have "\<dots> \<le> int bytes" by (rule that(2))
    finally show ?thesis by (simp add: algebra_simps)
  qed
  show "case submit_bgra bytes width height stride timestamp_us d of
     None \<Rightarrow> True
   | Some (w, h) \<Rightarrow>
       1 \<le> w \<and> w \<le> width \<and> 1 \<le> h \<and> h \<le> height \<and> 4 * width * height \<le> int bytes \<and>
       (w \<le> ds_max_width d \<and> h \<le> ds_max_height d \<or> ds_max_width d \<le> 0 \<or> ds_max_height d \<le> 0)"
    using constrained_size_bounds [of width height "ds_max_width d" "ds_max_height d"] area
    by (auto simp: submit_bgra_def split: option.splits if_splits)
  show "case thumbnail_size max_width max_height source_width source_height row of
     None \<Rightarrow> True
   | Some (w, h) \<Rightarrow> 1 \<le> w \<and> w \<le> min source_width max_width \<and> 1 \<le> h \<and> h \<le> min source_height max_height"
    by (auto dest!: thumbnail_size_bounds split: option.split)
qed

end
