(* ===== verification/Pcm_Playout.thy ===== *)
theory Pcm_Playout
  imports Screen_Stats
begin

text \<open>
  The playout of the screens' sound: \<^verbatim>\<open>core/src/webrtc/google_webrtc_pcm_playout.cpp\<close>. The queue
  between the two audio threads is a list of 16-bit samples; \<^verbatim>\<open>float\<close> is \<^typ>\<open>real\<close>. Whether the
  device starts is an argument.
\<close>

record playout =
  pp_queue :: "int list"
  pp_running :: bool
  pp_accepting :: bool
  pp_volume :: real
  pp_output_level :: real
  pp_muted :: bool

definition new_playout :: playout where
  "new_playout = \<lparr>pp_queue = [], pp_running = False, pp_accepting = False, pp_volume = 1,
     pp_output_level = 0, pp_muted = False\<rparr>"

definition kSampleRate :: nat where
  "kSampleRate = 48000"

definition kChannels :: nat where
  "kChannels = 2"

definition playout_capacity :: nat where
  "playout_capacity = kSampleRate * kChannels * 2"

definition playout_start :: "bool \<Rightarrow> playout \<Rightarrow> bool \<times> playout" where
  "playout_start starts p =
     (if pp_running p then (True, p)
      else if starts then (True, p\<lparr>pp_queue := [], pp_accepting := True, pp_running := True\<rparr>)
      else (False, p\<lparr>pp_queue := [], pp_accepting := False\<rparr>))"

definition playout_stop :: "playout \<Rightarrow> playout" where
  "playout_stop p = p\<lparr>pp_accepting := False, pp_running := False, pp_queue := [], pp_output_level := 0\<rparr>"

definition playout_push :: "int list \<Rightarrow> playout \<Rightarrow> playout" where
  "playout_push samples p =
     (if \<not> pp_accepting p \<or> samples = [] \<or> length samples mod kChannels \<noteq> 0 \<or>
         playout_capacity - length (pp_queue p) < length samples
      then p
      else p\<lparr>pp_queue := pp_queue p @ samples\<rparr>)"

definition playout_set_volume :: "real \<Rightarrow> playout \<Rightarrow> playout" where
  "playout_set_volume volume p = p\<lparr>pp_volume := max 0 (min 2 volume)\<rparr>"

definition playout_set_muted :: "bool \<Rightarrow> playout \<Rightarrow> playout" where
  "playout_set_muted muted p = p\<lparr>pp_muted := muted\<rparr>"

definition scale_sample :: "real \<Rightarrow> int \<Rightarrow> int" where
  "scale_sample gain x = max (- 32768) (min 32767 (llround (real_of_int x * gain)))"

definition playout_render :: "nat \<Rightarrow> playout \<Rightarrow> int list \<times> playout" where
  "playout_render samples p =
     (let popped = take samples (pp_queue p);
          gain = (if pp_muted p then 0 else pp_volume p);
          scaled = map (scale_sample gain) popped;
          peak = fold (\<lambda>x m. max m \<bar>x\<bar>) scaled 0 in
      (scaled @ replicate (samples - length popped) 0,
       p\<lparr>pp_queue := drop samples (pp_queue p), pp_output_level := real_of_int peak / 32767\<rparr>))"

section \<open>What comes out\<close>

lemma scale_sample_range: "- 32768 \<le> scale_sample gain x \<and> scale_sample gain x \<le> 32767"
  by (simp add: scale_sample_def)

lemma scale_sample_muted [simp]: "scale_sample 0 x = 0"
  by (simp add: scale_sample_def llround_def)

lemma scale_sample_one: "- 32768 \<le> x \<Longrightarrow> x \<le> 32767 \<Longrightarrow> scale_sample 1 x = x"
proof -
  assume range: "- 32768 \<le> x" "x \<le> 32767"
  have "\<lfloor>real_of_int x + 1 / 2\<rfloor> = x" "\<lfloor>1 / 2 - real_of_int x\<rfloor> = - x" by linarith+
  then show ?thesis using range by (simp add: scale_sample_def llround_def)
qed

text \<open>A run of the playout: what was taken in, in order, and what was rendered.\<close>

datatype playout_op = Push "int list" | Render nat | Volume real | Mute bool

fun playout_step :: "playout_op \<Rightarrow> playout \<times> int list \<times> nat \<Rightarrow> playout \<times> int list \<times> nat" where
  "playout_step (Push xs) (p, taken, rendered) =
     (playout_push xs p,
      if pp_queue (playout_push xs p) = pp_queue p then taken else taken @ xs, rendered)"
| "playout_step (Render n) (p, taken, rendered) =
     (snd (playout_render n p), taken, rendered + min n (length (pp_queue p)))"
| "playout_step (Volume v) (p, taken, rendered) = (playout_set_volume v p, taken, rendered)"
| "playout_step (Mute b) (p, taken, rendered) = (playout_set_muted b p, taken, rendered)"

definition playout_ok :: "playout \<times> int list \<times> nat \<Rightarrow> bool" where
  "playout_ok = (\<lambda>(p, taken, rendered).
     pp_queue p = drop rendered taken \<and> rendered \<le> length taken \<and> length (pp_queue p) \<le> playout_capacity \<and>
     length taken mod kChannels = 0 \<and> 0 \<le> pp_volume p \<and> pp_volume p \<le> 2)"

lemma playout_ok_step: "playout_ok s \<Longrightarrow> playout_ok (playout_step ev s)"
proof (induction ev s rule: playout_step.induct)
  case (1 xs p taken rendered)
  then show ?case
    by (auto simp: playout_ok_def playout_push_def kChannels_def mod_add_eq [symmetric])
next
  case (2 n p taken rendered)
  then show ?case
    by (auto simp: playout_ok_def playout_render_def Let_def add.commute min_def)
qed (auto simp: playout_ok_def playout_set_volume_def playout_set_muted_def)

lemma playout_ok_run: "playout_ok s \<Longrightarrow> playout_ok (fold playout_step evs s)"
  by (induction evs arbitrary: s) (simp_all add: playout_ok_step)

text \<open>
  C38: after any sequence of pushes, renders and settings on a device that was started, a render gives
  exactly as many samples as the device asks for: the accepted samples that were not rendered yet, in
  order, at the volume of the moment, and silence after them; every sample fits 16 bits, a muted
  playout gives silence only, and the queue is never over its capacity.
\<close>

theorem playout_in_order:
  "case fold playout_step evs (snd (playout_start True new_playout), [], 0) of (p, taken, rendered) \<Rightarrow>
     fst (playout_render n p) =
       map (scale_sample (if pp_muted p then 0 else pp_volume p)) (take n (drop rendered taken)) @
       replicate (n - (length taken - rendered)) 0 \<and>
     length (fst (playout_render n p)) = n \<and>
     set (fst (playout_render n p)) \<subseteq> (if pp_muted p then {0} else {- 32768..32767}) \<and>
     length (pp_queue p) \<le> playout_capacity \<and> pp_volume p \<in> {0..2}"
proof -
  have "playout_ok (snd (playout_start True new_playout), [], 0)"
    by (simp add: playout_ok_def playout_start_def new_playout_def)
  then have "playout_ok (fold playout_step evs (snd (playout_start True new_playout), [], 0))"
    by (rule playout_ok_run)
  then show ?thesis
    using scale_sample_range
    by (auto simp: playout_ok_def playout_render_def Let_def split: prod.split)
qed

end
