(* ===== verification/Webrtc_Client.thy ===== *)
theory Webrtc_Client
  imports Http_Requests Screen_Stats Screen_Session Pcm_Playout
begin

text \<open>
  The media client, \<^verbatim>\<open>GoogleWebRtcClient\<close> of \<^verbatim>\<open>core/src/webrtc/google_webrtc_client.cpp\<close>: it keeps a
  voice and a screen session alive while they are wanted and the signaling connection is up, follows
  the server's track bindings, and applies the user's settings to the sessions. A session object is
  named by the number of its token; the messages handed to the transport, the frames shown and removed,
  and the sound submitted are logs. \<open>up\<close> is \<^verbatim>\<open>transport.connected()\<close>; results of the media library,
  the devices and the capture are arguments; \<^verbatim>\<open>float\<close> is \<^typ>\<open>real\<close>. Each function runs to its end;
  where the code gives up its lock in between, the two halves are functions of their own.
\<close>

section \<open>State\<close>

record sharing_request =
  sq_kind :: capture_kind
  sq_id :: int
  sq_max_width :: int
  sq_max_height :: int
  sq_fps :: int
  sq_share_audio :: bool
  sq_audio_target :: string

record voice_inbound =
  vi_packets_received :: u64
  vi_bytes_received :: u64
  vi_packets_lost :: int
  vi_concealed_samples :: u64

record voice_statistics =
  vt_packets_sent :: u64
  vt_bytes_sent :: u64
  vt_round_trip_time_seconds :: real
  vt_inbound :: "voice_inbound list"

datatype recovery_task = Recover_Voice nat | Recover_Screen nat

datatype frame_event = Frame_Shown peer_id | Frame_Removed peer_id

record client =
  wc_voice :: "(nat \<times> voice_session) option"
  wc_screen :: "(nat \<times> screen_session) option"
  wc_next_token :: nat
  wc_system_audio_capture :: bool
  wc_voice_bindings :: "(string \<times> peer_id) list"
  wc_screen_bindings :: "(string \<times> peer_id) list"
  wc_screen_video_mids :: "string list"
  wc_screen_audio_mids :: "string list"
  wc_watched_peers :: "peer_id list"
  wc_voice_peer_volumes :: "(peer_id \<times> real) list"
  wc_voice_peer_muted :: "(peer_id \<times> bool) list"
  wc_screen_peer_volumes :: "(peer_id \<times> real) list"
  wc_system_audio_frame :: "int list"
  wc_input_device :: string
  wc_output_device :: string
  wc_master_volume :: real
  wc_voice_requested :: bool
  wc_voice_muted :: bool
  wc_voice_deafened :: bool
  wc_screen_requested :: bool
  wc_sharing_active :: bool
  wc_sharing_request :: "sharing_request option"
  wc_local_preview_enabled :: bool
  wc_local_preview_peer :: peer_id
  wc_screen_stats :: stats_tracker
  wc_voice_stats :: "voice_statistics option"
  wc_voice_stats_in_flight :: bool
  wc_recovery_queue :: "recovery_task list"
  wc_recovery_scheduled :: "recovery_task list"
  wc_recovery_stopping :: bool
  wc_playout :: playout
  wc_on_frame :: bool
  wc_on_frame_removed :: bool
  wc_sent :: "message list"
  wc_frames :: "frame_event list"
  wc_submitted :: "int list list"

definition new_client :: "bool \<Rightarrow> bool \<Rightarrow> client" where
  "new_client on_frame on_frame_removed =
     \<lparr>wc_voice = None, wc_screen = None, wc_next_token = 0, wc_system_audio_capture = False,
      wc_voice_bindings = [], wc_screen_bindings = [], wc_screen_video_mids = [], wc_screen_audio_mids = [],
      wc_watched_peers = [], wc_voice_peer_volumes = [], wc_voice_peer_muted = [], wc_screen_peer_volumes = [],
      wc_system_audio_frame = [], wc_input_device = ''default'', wc_output_device = ''default'',
      wc_master_volume = 1, wc_voice_requested = False, wc_voice_muted = False, wc_voice_deafened = False,
      wc_screen_requested = False, wc_sharing_active = False, wc_sharing_request = None,
      wc_local_preview_enabled = False, wc_local_preview_peer = [], wc_screen_stats = new_tracker,
      wc_voice_stats = None, wc_voice_stats_in_flight = False, wc_recovery_queue = [],
      wc_recovery_scheduled = [], wc_recovery_stopping = False, wc_playout = new_playout,
      wc_on_frame = on_frame, wc_on_frame_removed = on_frame_removed, wc_sent = [], wc_frames = [],
      wc_submitted = []\<rparr>"

section \<open>Small helpers\<close>

definition clamp_volume :: "real \<Rightarrow> real" where
  "clamp_volume v = max 0 (min 2 v)"

definition stoll :: "string \<Rightarrow> (int \<times> nat) option" where
  "stoll s =
     (let body = dropWhile is_space s;
          negative = body \<noteq> [] \<and> hd body = CHR ''-'';
          rest = (if body \<noteq> [] \<and> (hd body = CHR ''-'' \<or> hd body = CHR ''+'') then tl body else body);
          ds = takeWhile is_digit rest;
          v = (if negative then - int (digits_value ds) else int (digits_value ds)) in
      if ds = [] \<or> v < - (2 ^ 63) \<or> 2 ^ 63 \<le> v then None
      else Some (v, length s - length (drop (length ds) rest)))"

text \<open>\<^verbatim>\<open>value.value("type", 0)\<close>; \<open>None\<close> where it throws.\<close>

definition target_type :: "json \<Rightarrow> int option" where
  "target_type v =
     (case json_find v ''type'' of
        None \<Rightarrow> Some 0
      | Some (JInt n) \<Rightarrow> Some (sint (word_of_int n :: 32 word))
      | Some (JBool b) \<Rightarrow> Some (if b then 1 else 0)
      | Some (JFloat r) \<Rightarrow> Some (if 0 \<le> r then \<lfloor>r\<rfloor> else \<lceil>r\<rceil>)
      | Some _ \<Rightarrow> None)"

definition capture_kind_of :: "int \<Rightarrow> capture_kind" where
  "capture_kind_of type = (if type = 0 then Screen_Capture else Window_Capture)"

definition parse_capture_selection :: "(string \<Rightarrow> json option) \<Rightarrow> string \<Rightarrow> (capture_kind \<times> int) option" where
  "parse_capture_selection parse_text target_json =
     (case parse_text target_json of
        None \<Rightarrow> None
      | Some v \<Rightarrow>
          (case json_find v ''id'' of
             Some (JString id_text) \<Rightarrow>
               (case stoll id_text of
                  None \<Rightarrow> None
                | Some (i, consumed) \<Rightarrow>
                    if consumed \<noteq> length id_text then None
                    else map_option (\<lambda>type. (capture_kind_of type, i)) (target_type v))
           | _ \<Rightarrow> None))"

definition send :: "message \<Rightarrow> client \<Rightarrow> client" where
  "send m c = c\<lparr>wc_sent := wc_sent c @ [m]\<rparr>"

definition frame_removed :: "peer_id \<Rightarrow> client \<Rightarrow> client" where
  "frame_removed p c = (if wc_on_frame_removed c then c\<lparr>wc_frames := wc_frames c @ [Frame_Removed p]\<rparr> else c)"

definition show_frame :: "peer_id \<Rightarrow> client \<Rightarrow> client" where
  "show_frame p c = (if wc_on_frame c then c\<lparr>wc_frames := wc_frames c @ [Frame_Shown p]\<rparr> else c)"

section \<open>Updates of remote tracks\<close>

definition peer_muted :: "peer_id \<Rightarrow> client \<Rightarrow> bool" where
  "peer_muted p c = (case map_of (wc_voice_peer_muted c) p of None \<Rightarrow> False | Some b \<Rightarrow> b)"

definition peer_volume :: "peer_id \<Rightarrow> client \<Rightarrow> real" where
  "peer_volume p c = (case map_of (wc_voice_peer_volumes c) p of None \<Rightarrow> 1 | Some v \<Rightarrow> v)"

definition stream_volume :: "peer_id \<Rightarrow> client \<Rightarrow> real" where
  "stream_volume p c = (case map_of (wc_screen_peer_volumes c) p of None \<Rightarrow> 1 | Some v \<Rightarrow> v)"

record track_update =
  tu_mid :: string
  tu_enabled :: bool
  tu_volume :: "real option"

definition voice_update_locked :: "client \<Rightarrow> string \<Rightarrow> track_update option" where
  "voice_update_locked c mid =
     (case wc_voice c of
        None \<Rightarrow> None
      | Some _ \<Rightarrow>
          (case map_of (wc_voice_bindings c) mid of
             None \<Rightarrow> Some \<lparr>tu_mid = mid, tu_enabled = False, tu_volume = None\<rparr>
           | Some p \<Rightarrow>
               Some \<lparr>tu_mid = mid, tu_enabled = \<not> wc_voice_deafened c \<and> \<not> peer_muted p c,
                 tu_volume = Some (wc_master_volume c * peer_volume p c)\<rparr>))"

definition all_voice_updates_locked :: "client \<Rightarrow> track_update list" where
  "all_voice_updates_locked c = List.map_filter (voice_update_locked c) (keys (wc_voice_bindings c))"

definition screen_update_locked :: "client \<Rightarrow> string \<Rightarrow> track_update option" where
  "screen_update_locked c mid =
     (if wc_screen c = None \<or> mid \<notin> set (wc_screen_audio_mids c) then None
      else
        (case map_of (wc_screen_bindings c) mid of
           None \<Rightarrow> Some \<lparr>tu_mid = mid, tu_enabled = False, tu_volume = None\<rparr>
         | Some p \<Rightarrow>
             Some \<lparr>tu_mid = mid, tu_enabled = p \<in> set (wc_watched_peers c), tu_volume = Some (stream_volume p c)\<rparr>))"

definition all_screen_updates_locked :: "client \<Rightarrow> track_update list" where
  "all_screen_updates_locked c = List.map_filter (screen_update_locked c) (wc_screen_audio_mids c)"

definition apply_voice_update :: "track_update \<Rightarrow> voice_session \<Rightarrow> voice_session" where
  "apply_voice_update u s =
     (let s1 = voice_set_track_enabled (tu_mid u) (tu_enabled u) s in
      case tu_volume u of None \<Rightarrow> s1 | Some v \<Rightarrow> snd (voice_set_track_volume (tu_mid u) v s1))"

definition apply_screen_update :: "track_update \<Rightarrow> screen_session \<Rightarrow> screen_session" where
  "apply_screen_update u s =
     (let s1 = screen_set_audio_enabled (tu_mid u) (tu_enabled u) s in
      case tu_volume u of None \<Rightarrow> s1 | Some v \<Rightarrow> snd (screen_set_audio_volume (tu_mid u) v s1))"

text \<open>The session of an update is the current one: an update is made and applied in one function.\<close>

definition apply_voice :: "track_update list \<Rightarrow> client \<Rightarrow> client" where
  "apply_voice us c = c\<lparr>wc_voice := map_option (map_prod id (fold apply_voice_update us)) (wc_voice c)\<rparr>"

definition apply_screen :: "track_update list \<Rightarrow> client \<Rightarrow> client" where
  "apply_screen us c = c\<lparr>wc_screen := map_option (map_prod id (fold apply_screen_update us)) (wc_screen c)\<rparr>"

definition refresh_voice :: "client \<Rightarrow> client" where
  "refresh_voice c = apply_voice (all_voice_updates_locked c) c"

definition refresh_screen :: "client \<Rightarrow> client" where
  "refresh_screen c = apply_screen (all_screen_updates_locked c) c"

definition to_list :: "'a option \<Rightarrow> 'a list" where
  "to_list x = (case x of None \<Rightarrow> [] | Some y \<Rightarrow> [y])"

section \<open>Recovery\<close>

definition schedule_recovery :: "recovery_task \<Rightarrow> client \<Rightarrow> client" where
  "schedule_recovery task c =
     (if wc_recovery_stopping c then c else c\<lparr>wc_recovery_queue := wc_recovery_queue c @ [task]\<rparr>)"

definition stop_recovery :: "client \<Rightarrow> client" where
  "stop_recovery c = c\<lparr>wc_recovery_stopping := True, wc_recovery_queue := []\<rparr>"

text \<open>\<^verbatim>\<open>on_state\<close> of a session: its first failure asks for its recovery, by its token.\<close>

definition session_state_changed :: "recovery_task \<Rightarrow> media_state \<Rightarrow> client \<Rightarrow> client" where
  "session_state_changed task state c =
     (if state \<noteq> Ms_Failed \<or> task \<in> set (wc_recovery_scheduled c) then c
      else schedule_recovery task (c\<lparr>wc_recovery_scheduled := task # wc_recovery_scheduled c\<rparr>))"

section \<open>The voice session\<close>

definition kVoiceReceiveSlots :: nat where
  "kVoiceReceiveSlots = 16"

definition kVoiceBitrateKbps :: int where
  "kVoiceBitrateKbps = 64"

text \<open>What the recording and the playout device say to being selected.\<close>

type_synonym devices = "(string \<Rightarrow> bool) \<times> (string \<Rightarrow> bool)"

definition apply_selected_audio_devices :: "devices \<Rightarrow> client \<Rightarrow> client" where
  "apply_selected_audio_devices dev c =
     (let c1 = (if \<not> fst dev (wc_input_device c) \<and> fst dev ''default''
                then c\<lparr>wc_input_device := ''default''\<rparr> else c) in
      if \<not> snd dev (wc_output_device c1) \<and> snd dev ''default'' then c1\<lparr>wc_output_device := ''default''\<rparr> else c1)"

text \<open>
  The start in two halves: what is read under the lock before the session is made, and what is done
  with the session that started.
\<close>

definition voice_begin :: "bool \<Rightarrow> client \<Rightarrow> bool option" where
  "voice_begin up c =
     (if \<not> wc_voice_requested c \<or> wc_voice c \<noteq> None \<or> \<not> up then None else Some (\<not> wc_voice_muted c))"

definition voice_make :: "start_results \<Rightarrow> bool \<Rightarrow> bool \<times> voice_session" where
  "voice_make r microphone =
     voice_start r (new_voice_session kVoiceReceiveSlots microphone (kVoiceBitrateKbps * 1000) False)"

definition voice_commit :: "bool \<Rightarrow> nat \<Rightarrow> voice_session \<Rightarrow> client \<Rightarrow> client" where
  "voice_commit up token s c =
     (if wc_voice_requested c \<and> wc_voice c = None \<and> up
      then refresh_voice (c\<lparr>wc_voice := Some (token, s)\<rparr>)
      else c)"

definition start_voice_if_requested :: "bool \<Rightarrow> start_results \<Rightarrow> devices \<Rightarrow> client \<Rightarrow> client" where
  "start_voice_if_requested up r dev c =
     (case voice_begin up c of
        None \<Rightarrow> c
      | Some microphone \<Rightarrow>
          let c1 = c\<lparr>wc_next_token := Suc (wc_next_token c)\<rparr> in
          (case voice_make r microphone of
             (ok, s) \<Rightarrow>
               if \<not> ok then c1
               else voice_commit up (wc_next_token c) s (apply_selected_audio_devices dev c1)))"

definition stop_voice_session :: "client \<Rightarrow> client" where
  "stop_voice_session c = c\<lparr>wc_voice := None, wc_voice_bindings := [], wc_voice_stats := None\<rparr>"

definition recover_voice_session :: "bool \<Rightarrow> start_results \<Rightarrow> devices \<Rightarrow> nat \<Rightarrow> client \<Rightarrow> client" where
  "recover_voice_session up r dev token c =
     (if \<not> wc_voice_requested c \<or> map_option fst (wc_voice c) \<noteq> Some token \<or> \<not> up then c
      else start_voice_if_requested up r dev (stop_voice_session c))"

definition start_voice :: "bool \<Rightarrow> start_results \<Rightarrow> devices \<Rightarrow> client \<Rightarrow> client" where
  "start_voice up r dev c = start_voice_if_requested up r dev (c\<lparr>wc_voice_requested := True\<rparr>)"

definition stop_voice :: "client \<Rightarrow> client" where
  "stop_voice c = stop_voice_session (c\<lparr>wc_voice_requested := False\<rparr>)"

definition set_muted :: "bool \<Rightarrow> client \<Rightarrow> client" where
  "set_muted muted c =
     c\<lparr>wc_voice_muted := muted,
       wc_voice := map_option (map_prod id (voice_set_microphone_enabled (\<not> muted))) (wc_voice c)\<rparr>"

definition set_deafened :: "bool \<Rightarrow> client \<Rightarrow> client" where
  "set_deafened deafened c =
     (let c1 = refresh_voice (c\<lparr>wc_voice_deafened := deafened\<rparr>) in
      c1\<lparr>wc_playout := playout_set_muted deafened (wc_playout c1)\<rparr>)"

definition set_master_volume :: "real \<Rightarrow> client \<Rightarrow> client" where
  "set_master_volume volume c =
     (let c1 = refresh_voice (c\<lparr>wc_master_volume := clamp_volume volume\<rparr>) in
      c1\<lparr>wc_playout := playout_set_volume (clamp_volume volume) (wc_playout c1)\<rparr>)"

definition set_peer_volume :: "peer_id \<Rightarrow> real \<Rightarrow> client \<Rightarrow> client" where
  "set_peer_volume p volume c =
     refresh_voice (c\<lparr>wc_voice_peer_volumes := AList.update p (clamp_volume volume) (wc_voice_peer_volumes c)\<rparr>)"

definition set_peer_muted :: "peer_id \<Rightarrow> bool \<Rightarrow> client \<Rightarrow> client" where
  "set_peer_muted p muted c =
     refresh_voice (c\<lparr>wc_voice_peer_muted := AList.update p muted (wc_voice_peer_muted c)\<rparr>)"

definition set_input_device :: "devices \<Rightarrow> string \<Rightarrow> client \<Rightarrow> bool \<times> client" where
  "set_input_device dev i c = (if \<not> fst dev i then (False, c) else (True, c\<lparr>wc_input_device := i\<rparr>))"

definition set_output_device :: "devices \<Rightarrow> string \<Rightarrow> client \<Rightarrow> bool \<times> client" where
  "set_output_device dev i c = (if \<not> snd dev i then (False, c) else (True, c\<lparr>wc_output_device := i\<rparr>))"

text \<open>Callbacks of the current voice session; one of a session that was closed does nothing.\<close>

definition with_voice :: "nat \<Rightarrow> (voice_session \<Rightarrow> client \<Rightarrow> client) \<Rightarrow> client \<Rightarrow> client" where
  "with_voice token f c =
     (case wc_voice c of
        None \<Rightarrow> c
      | Some (t, s) \<Rightarrow> if t = token then f s c else c)"

definition put_voice :: "voice_session \<Rightarrow> client \<Rightarrow> client" where
  "put_voice s c = c\<lparr>wc_voice := map_option (map_prod id (\<lambda>_. s)) (wc_voice c)\<rparr>"

definition voice_described :: "nat \<Rightarrow> string list \<Rightarrow> description_result \<Rightarrow> client \<Rightarrow> client" where
  "voice_described token mids result =
     with_voice token (\<lambda>s c.
       (case voice_local_description mids result s of
          (None, s') \<Rightarrow> put_voice s' c
        | (Some sdp, s') \<Rightarrow> send (Offer sdp Voice) (put_voice s' c)))"

definition voice_candidate_found :: "nat \<Rightarrow> (string \<times> string) option \<Rightarrow> client \<Rightarrow> client" where
  "voice_candidate_found token candidate =
     with_voice token (\<lambda>s c.
       (case voice_on_ice_candidate candidate s of
          None \<Rightarrow> c
        | Some (text, mid) \<Rightarrow> send (Candidate text mid Voice) c))"

definition voice_track_added :: "nat \<Rightarrow> string option \<Rightarrow> bool \<Rightarrow> client \<Rightarrow> client" where
  "voice_track_added token mid audio =
     with_voice token (\<lambda>s c.
       (case voice_on_track mid audio s of
          (None, s') \<Rightarrow> put_voice s' c
        | (Some m, s') \<Rightarrow>
            let c1 = put_voice s' c in apply_voice (to_list (voice_update_locked c1 m)) c1))"

section \<open>The screen session\<close>

definition kScreenVideoBitrateBps :: int where
  "kScreenVideoBitrateBps = 4000000"

definition kSystemAudioBitrateKbps :: int where
  "kSystemAudioBitrateKbps = 128"

definition screen_begin :: "bool \<Rightarrow> client \<Rightarrow> bool option" where
  "screen_begin up c =
     (if \<not> wc_screen_requested c \<or> wc_screen c \<noteq> None \<or> \<not> up then None else Some (wc_local_preview_enabled c))"

definition screen_make :: "screen_results \<Rightarrow> bool \<Rightarrow> bool \<times> screen_session" where
  "screen_make r preview =
     screen_start r (new_screen_session kScreenReceiveSlots False False preview kScreenVideoBitrateBps
       (kSystemAudioBitrateKbps * 1000) True True)"

definition screen_commit :: "bool \<Rightarrow> nat \<Rightarrow> screen_session \<Rightarrow> client \<Rightarrow> client" where
  "screen_commit up token s c =
     (if wc_screen_requested c \<and> wc_screen c = None \<and> up
      then fold (\<lambda>p. send (WatchStart p)) (wc_watched_peers c)
             (refresh_screen (c\<lparr>wc_screen := Some (token, s)\<rparr>))
      else c\<lparr>wc_playout := playout_stop (wc_playout c)\<rparr>)"

definition start_screen_if_requested :: "bool \<Rightarrow> bool \<Rightarrow> screen_results \<Rightarrow> client \<Rightarrow> client" where
  "start_screen_if_requested up plays r c =
     (case screen_begin up c of
        None \<Rightarrow> c
      | Some preview \<Rightarrow>
          let c1 = c\<lparr>wc_next_token := Suc (wc_next_token c), wc_playout := snd (playout_start plays (wc_playout c))\<rparr> in
          (case screen_make r preview of
             (ok, s) \<Rightarrow>
               if \<not> ok then c1\<lparr>wc_playout := playout_stop (wc_playout c1)\<rparr>
               else screen_commit up (wc_next_token c) s c1))"

definition sort_unique :: "peer_id list \<Rightarrow> peer_id list" where
  "sort_unique ps = remdups_adj (sort ps)"

definition stop_screen_session :: "client \<Rightarrow> client" where
  "stop_screen_session c =
     (let removed = sort_unique [p. (mid, p) \<leftarrow> wc_screen_bindings c, mid \<in> set (wc_screen_video_mids c)];
          preview = wc_local_preview_peer c;
          c1 = c\<lparr>wc_screen := None, wc_system_audio_capture := False, wc_screen_bindings := [],
                 wc_screen_video_mids := [], wc_screen_audio_mids := [],
                 wc_screen_stats := stats_reset_session (wc_screen_stats c), wc_sharing_active := False,
                 wc_local_preview_peer := [], wc_system_audio_frame := [],
                 wc_playout := playout_stop (wc_playout c)\<rparr>;
          c2 = fold frame_removed removed c1 in
      if preview \<noteq> [] then frame_removed preview c2 else c2)"

definition put_screen :: "screen_session \<Rightarrow> client \<Rightarrow> client" where
  "put_screen s c = c\<lparr>wc_screen := map_option (map_prod id (\<lambda>_. s)) (wc_screen c)\<rparr>"

text \<open>
  \<open>native\<close> and \<open>begins\<close>: see \<^const>\<open>start_capture\<close>; \<open>audio\<close>: the capture of the system's sound could be
  made and started.
\<close>

definition apply_sharing ::
  "bool \<Rightarrow> bool \<Rightarrow> bool \<Rightarrow> peer_id \<Rightarrow> sharing_request \<Rightarrow> client \<Rightarrow> bool \<times> client" where
  "apply_sharing native begins audio local_id q c =
     (case wc_screen c of
        None \<Rightarrow> (False, c)
      | Some (token, s) \<Rightarrow>
          if wc_sharing_active c \<or> \<not> wc_screen_requested c then (False, c)
          else
            (case start_desktop_capture native begins (sq_fps q) (sq_max_width q) (sq_max_height q) s of
               (ok, s1) \<Rightarrow>
                 if \<not> ok then (False, put_screen s1 c)
                 else if sq_share_audio q \<and> \<not> audio
                 then (False, put_screen (set_sharing_enabled False (stop_desktop_capture s1)) c)
                 else
                   (True,
                    send (StreamingStart None)
                      ((put_screen (set_system_audio_enabled (sq_share_audio q) s1) c)
                         \<lparr>wc_system_audio_capture := sq_share_audio q, wc_sharing_active := True,
                          wc_local_preview_peer := local_id\<rparr>))))"

definition start_sharing ::
  "(string \<Rightarrow> json option) \<Rightarrow> bool \<Rightarrow> bool \<Rightarrow> bool \<Rightarrow> peer_id \<Rightarrow>
   string \<Rightarrow> int \<Rightarrow> int \<Rightarrow> int \<Rightarrow> bool \<Rightarrow> string \<Rightarrow> client \<Rightarrow> bool \<times> client" where
  "start_sharing parse_text native begins audio local_id target max_width max_height fps share_audio audio_target c =
     (case parse_capture_selection parse_text target of
        None \<Rightarrow> (False, c)
      | Some (kind, i) \<Rightarrow>
          let q = \<lparr>sq_kind = kind, sq_id = i, sq_max_width = max_width, sq_max_height = max_height, sq_fps = fps,
                   sq_share_audio = share_audio, sq_audio_target = audio_target\<rparr> in
          (case apply_sharing native begins audio local_id q c of
             (ok, c1) \<Rightarrow> if \<not> ok then (False, c1) else (True, c1\<lparr>wc_sharing_request := Some q\<rparr>)))"

definition stop_sharing :: "client \<Rightarrow> client" where
  "stop_sharing c =
     (let was_sharing = wc_sharing_active c;
          preview = wc_local_preview_peer c;
          c1 = c\<lparr>wc_system_audio_capture := False, wc_sharing_active := False, wc_sharing_request := None,
                 wc_local_preview_peer := [], wc_system_audio_frame := [],
                 wc_screen := map_option (map_prod id (\<lambda>s.
                   stop_desktop_capture (set_sharing_enabled False (set_system_audio_enabled False s)))) (wc_screen c)\<rparr>;
          c2 = (if was_sharing then send (StreamingStop None) c1 else c1) in
      if preview \<noteq> [] then frame_removed preview c2 else c2)"

definition recover_screen_session ::
  "bool \<Rightarrow> bool \<Rightarrow> screen_results \<Rightarrow> bool \<Rightarrow> bool \<Rightarrow> bool \<Rightarrow> peer_id \<Rightarrow> nat \<Rightarrow> client \<Rightarrow> client" where
  "recover_screen_session up plays r native begins audio local_id token c =
     (if \<not> wc_screen_requested c \<or> map_option fst (wc_screen c) \<noteq> Some token \<or> \<not> up then c
      else
        let was_sharing = wc_sharing_active c;
            c1 = (if was_sharing then send (StreamingStop None) c else c);
            c2 = start_screen_if_requested up plays r (stop_screen_session c1) in
        (case wc_sharing_request c of
           Some q \<Rightarrow>
             if was_sharing
             then (case apply_sharing native begins audio local_id q c2 of
                     (ok, c3) \<Rightarrow> if ok then c3 else c3\<lparr>wc_sharing_request := None\<rparr>)
             else c2
         | None \<Rightarrow> c2))"

definition init_screen :: "bool \<Rightarrow> bool \<Rightarrow> screen_results \<Rightarrow> client \<Rightarrow> client" where
  "init_screen up plays r c = start_screen_if_requested up plays r (c\<lparr>wc_screen_requested := True\<rparr>)"

definition deinit_screen :: "client \<Rightarrow> client" where
  "deinit_screen c =
     (let c1 = stop_sharing (c\<lparr>wc_screen_requested := False, wc_watched_peers := [],
                               wc_screen_stats := stats_clear_watched (wc_screen_stats c)\<rparr>) in
      stop_screen_session (fold (\<lambda>p. send (WatchStop p)) (wc_watched_peers c) c1))"

section \<open>Callbacks of the screen session\<close>

definition with_screen :: "nat \<Rightarrow> (screen_session \<Rightarrow> client \<Rightarrow> client) \<Rightarrow> client \<Rightarrow> client" where
  "with_screen token f c =
     (case wc_screen c of
        None \<Rightarrow> c
      | Some (t, s) \<Rightarrow> if t = token then f s c else c)"

definition screen_described :: "nat \<Rightarrow> description_result \<Rightarrow> client \<Rightarrow> client" where
  "screen_described token result =
     with_screen token (\<lambda>s c.
       (case screen_local_description result s of
          (None, s') \<Rightarrow> put_screen s' c
        | (Some sdp, s') \<Rightarrow> send (Offer sdp Screen) (put_screen s' c)))"

definition screen_candidate_found :: "nat \<Rightarrow> (string \<times> string) option \<Rightarrow> client \<Rightarrow> client" where
  "screen_candidate_found token candidate =
     with_screen token (\<lambda>s c.
       (case screen_on_ice_candidate candidate s of
          None \<Rightarrow> c
        | Some (text, mid) \<Rightarrow> send (Candidate text mid Screen) c))"

definition screen_track_added :: "nat \<Rightarrow> string option \<Rightarrow> track_kind \<Rightarrow> audio_track \<Rightarrow> client \<Rightarrow> client" where
  "screen_track_added token mid kind track =
     with_screen token (\<lambda>s c.
       (case screen_on_track mid kind track s of
          (None, s') \<Rightarrow> put_screen s' c
        | (Some (m, True), s') \<Rightarrow>
            (put_screen s' c)\<lparr>wc_screen_video_mids := set_insert m (wc_screen_video_mids c)\<rparr>
        | (Some (m, False), s') \<Rightarrow>
            let c1 = (put_screen s' c)\<lparr>wc_screen_audio_mids := set_insert m (wc_screen_audio_mids c)\<rparr> in
            apply_screen (to_list (screen_update_locked c1 m)) c1))"

definition deliver_video :: "string \<Rightarrow> client \<Rightarrow> client" where
  "deliver_video mid c =
     (case map_of (wc_screen_bindings c) mid of
        None \<Rightarrow> c
      | Some p \<Rightarrow> if p \<notin> set (wc_watched_peers c) then c else show_frame p c)"

definition deliver_local_video :: "client \<Rightarrow> client" where
  "deliver_local_video c =
     (if \<not> wc_sharing_active c \<or> \<not> wc_local_preview_enabled c \<or> wc_local_preview_peer c = [] then c
      else show_frame (wc_local_preview_peer c) c)"

text \<open>A frame that a session decoded, or captured from the own screen.\<close>

definition screen_frame :: "nat \<Rightarrow> string \<Rightarrow> client \<Rightarrow> client" where
  "screen_frame token mid =
     with_screen token (\<lambda>s c. if screen_passes_video mid s then deliver_video mid c else c)"

definition screen_local_frame :: "nat \<Rightarrow> client \<Rightarrow> client" where
  "screen_local_frame token =
     with_screen token (\<lambda>s c. if screen_passes_local_video s then deliver_local_video c else c)"

section \<open>Messages of the server\<close>

definition on_signaling_state ::
  "bool \<Rightarrow> start_results \<Rightarrow> devices \<Rightarrow> bool \<Rightarrow> screen_results \<Rightarrow> client \<Rightarrow> client" where
  "on_signaling_state link_up r dev plays r' c =
     (if link_up then start_screen_if_requested True plays r' (start_voice_if_requested True r dev c)
      else stop_screen_session (stop_voice_session c))"

definition client_apply_answer :: "connection_id \<Rightarrow> bool \<Rightarrow> client \<Rightarrow> client" where
  "client_apply_answer connection parses c =
     (case connection of
        Voice \<Rightarrow> c\<lparr>wc_voice := map_option (map_prod id (voice_apply_answer parses)) (wc_voice c)\<rparr>
      | Screen \<Rightarrow> c\<lparr>wc_screen := map_option (map_prod id (screen_apply_answer parses)) (wc_screen c)\<rparr>)"

definition client_apply_candidate :: "connection_id \<Rightarrow> bool \<Rightarrow> client \<Rightarrow> client" where
  "client_apply_candidate connection parses c =
     (case connection of
        Voice \<Rightarrow> c\<lparr>wc_voice := map_option (map_prod id (voice_add_remote_candidate parses)) (wc_voice c)\<rparr>
      | Screen \<Rightarrow> c\<lparr>wc_screen := map_option (map_prod id (screen_add_remote_candidate parses)) (wc_screen c)\<rparr>)"

definition bind_mid :: "string \<Rightarrow> peer_id option \<Rightarrow> (string \<times> peer_id) list \<Rightarrow> (string \<times> peer_id) list" where
  "bind_mid mid peer bindings =
     (case peer of Some p \<Rightarrow> AList.update mid p bindings | None \<Rightarrow> AList.delete mid bindings)"

definition apply_binding :: "connection_id \<Rightarrow> string \<Rightarrow> peer_id option \<Rightarrow> client \<Rightarrow> client" where
  "apply_binding connection mid peer c =
     (case connection of
        Voice \<Rightarrow>
          let c1 = c\<lparr>wc_voice_bindings := bind_mid mid peer (wc_voice_bindings c)\<rparr> in
          apply_voice (to_list (voice_update_locked c1 mid)) c1
      | Screen \<Rightarrow>
          let old = map_of (wc_screen_bindings c) mid;
              changed = binding_changed old peer;
              removed = (case old of Some p \<Rightarrow> if changed \<and> mid \<in> set (wc_screen_video_mids c) then p else [] | None \<Rightarrow> []);
              c1 = (if changed then c\<lparr>wc_screen_stats := stats_set_binding mid peer (wc_screen_stats c)\<rparr> else c);
              c2 = c1\<lparr>wc_screen_bindings := bind_mid mid peer (wc_screen_bindings c)\<rparr>;
              c3 = apply_screen (to_list (screen_update_locked c2 mid)) c2 in
          if removed \<noteq> [] then frame_removed removed c3 else c3)"

definition handle_watch_rejected :: "peer_id \<Rightarrow> client \<Rightarrow> client" where
  "handle_watch_rejected p c =
     (let removed = p \<in> set (wc_watched_peers c);
          c1 = refresh_screen (c\<lparr>wc_watched_peers := set_erase p (wc_watched_peers c),
                                 wc_screen_stats := stats_set_watched p False (wc_screen_stats c)\<rparr>) in
      if removed then frame_removed p c1 else c1)"

section \<open>Streams\<close>

definition join_stream :: "peer_id \<Rightarrow> client \<Rightarrow> client" where
  "join_stream p c =
     (let inserted = p \<notin> set (wc_watched_peers c);
          c1 = c\<lparr>wc_watched_peers := set_insert p (wc_watched_peers c)\<rparr>;
          c2 = refresh_screen (if inserted then c1\<lparr>wc_screen_stats := stats_set_watched p True (wc_screen_stats c1)\<rparr> else c1) in
      if inserted then send (WatchStart p) c2 else c2)"

definition leave_streams :: "client \<Rightarrow> client" where
  "leave_streams c =
     (let removed = wc_watched_peers c;
          c1 = refresh_screen (c\<lparr>wc_watched_peers := [], wc_screen_stats := stats_clear_watched (wc_screen_stats c)\<rparr>) in
      fold frame_removed removed (fold (\<lambda>p. send (WatchStop p)) removed c1))"

definition leave_stream :: "peer_id \<Rightarrow> client \<Rightarrow> client" where
  "leave_stream p c =
     (let removed = p \<in> set (wc_watched_peers c);
          c1 = refresh_screen (c\<lparr>wc_watched_peers := set_erase p (wc_watched_peers c),
                                 wc_screen_stats := stats_set_watched p False (wc_screen_stats c)\<rparr>) in
      if \<not> removed then c1 else frame_removed p (send (WatchStop p) c1))"

definition peer_stopped_streaming :: "peer_id \<Rightarrow> client \<Rightarrow> client" where
  "peer_stopped_streaming p c =
     (let removed = p \<in> set (wc_watched_peers c);
          c1 = refresh_screen (c\<lparr>wc_watched_peers := set_erase p (wc_watched_peers c),
                                 wc_screen_stats := stats_remove_peer p (wc_screen_stats c)\<rparr>);
          c2 = (if removed then send (WatchStop p) c1 else c1) in
      if removed then frame_removed p c2 else c2)"

definition remove_peer :: "peer_id \<Rightarrow> client \<Rightarrow> client" where
  "remove_peer p c =
     peer_stopped_streaming p
       (c\<lparr>wc_voice_peer_volumes := AList.delete p (wc_voice_peer_volumes c),
          wc_voice_peer_muted := AList.delete p (wc_voice_peer_muted c),
          wc_screen_peer_volumes := AList.delete p (wc_screen_peer_volumes c)\<rparr>)"

definition set_local_preview_enabled :: "bool \<Rightarrow> client \<Rightarrow> client" where
  "set_local_preview_enabled enabled c =
     (if wc_local_preview_enabled c = enabled then c
      else
        let removed = (if \<not> enabled then wc_local_preview_peer c else []);
            c1 = c\<lparr>wc_local_preview_enabled := enabled,
                   wc_screen := map_option (map_prod id (screen_set_local_preview enabled)) (wc_screen c)\<rparr> in
        if removed \<noteq> [] then frame_removed removed c1 else c1)"

definition set_stream_volume :: "peer_id \<Rightarrow> real \<Rightarrow> client \<Rightarrow> client" where
  "set_stream_volume p volume c =
     refresh_screen (c\<lparr>wc_screen_peer_volumes := AList.update p (clamp_volume volume) (wc_screen_peer_volumes c)\<rparr>)"

section \<open>Statistics\<close>

text \<open>
  A request for voice statistics, and an answer to one made of the session with that token: the
  session passes it on only while it is open.
\<close>

definition request_voice_stats :: "client \<Rightarrow> client" where
  "request_voice_stats c =
     (if wc_voice_stats_in_flight c then c
      else
        (case wc_voice c of
           None \<Rightarrow> c\<lparr>wc_voice_stats := None\<rparr>
         | Some (token, s) \<Rightarrow> c\<lparr>wc_voice_stats_in_flight := voice_get_stats s\<rparr>))"

definition voice_stats_answered :: "nat \<Rightarrow> voice_statistics \<Rightarrow> client \<Rightarrow> client" where
  "voice_stats_answered token stats =
     with_voice token (\<lambda>s c.
       if voice_stats_delivered True s
       then c\<lparr>wc_voice_stats := Some stats, wc_voice_stats_in_flight := False\<rparr> else c)"

definition voice_stats_json :: "client \<Rightarrow> json \<times> client" where
  "voice_stats_json c =
     (let c1 = request_voice_stats c;
          state = (''connected'', JBool (wc_voice c1 \<noteq> None)) in
      (case wc_voice_stats c1 of
         None \<Rightarrow> json_object [state, (''rttMs'', JInt (-1))]
       | Some st \<Rightarrow>
           json_object [state,
             (''rttMs'', JInt (if vt_round_trip_time_seconds st < 0 then -1
                               else sint (word_of_int (llround (vt_round_trip_time_seconds st * 1000)) :: 32 word))),
             (''packetsSent'', json_counter (vt_packets_sent st)),
             (''bytesSent'', json_counter (vt_bytes_sent st)),
             (''packetsReceived'', json_counter (sum_list (map vi_packets_received (vt_inbound st)))),
             (''bytesReceived'', json_counter (sum_list (map vi_bytes_received (vt_inbound st)))),
             (''packetsLost'', JInt (sum_list (map vi_packets_lost (vt_inbound st)))),
             (''concealedSamples'', json_counter (sum_list (map vi_concealed_samples (vt_inbound st)))),
             (''remoteTracks'', json_count (length (vt_inbound st)))],
       c1))"

definition screen_stats_json :: "peer_id \<Rightarrow> client \<Rightarrow> string \<times> client" where
  "screen_stats_json p c =
     (case stats_poll p (wc_screen c \<noteq> None) (wc_screen_stats c) of
        (poll, t) \<Rightarrow>
          let asked = (case wc_screen c of Some (_, s) \<Rightarrow> screen_get_stats s | None \<Rightarrow> False) in
          (po_json poll,
           c\<lparr>wc_screen_stats :=
               if po_start_request poll \<and> \<not> asked then stats_request_failed (po_session_generation poll) t else t\<rparr>))"

definition screen_stats_answered ::
  "(json \<Rightarrow> string) \<Rightarrow> nat \<Rightarrow> u64 \<Rightarrow> screen_inbound list \<Rightarrow> int \<Rightarrow> client \<Rightarrow> client" where
  "screen_stats_answered dump token generation inbound now =
     with_screen token (\<lambda>s c.
       if screen_stats_delivered True s
       then c\<lparr>wc_screen_stats := stats_consume dump inbound generation now (wc_screen_stats c)\<rparr> else c)"

section \<open>Sound of the own system\<close>

text \<open>\<^verbatim>\<open>std::lrint\<close>: halves go to the even number.\<close>

definition lrint :: "real \<Rightarrow> int" where
  "lrint x =
     (let n = \<lfloor>x\<rfloor>; d = x - real_of_int n in
      if d < 1 / 2 then n else if 1 / 2 < d then n + 1 else if even n then n else n + 1)"

definition kSamplesPerFrame :: nat where
  "kSamplesPerFrame = kSampleRate div 100 * kChannels"

definition submit_sample :: "real \<Rightarrow> client \<Rightarrow> client" where
  "submit_sample x c =
     (let frame = wc_system_audio_frame c @ [lrint (max (-1) (min 1 x) * 32767)] in
      if length frame = kSamplesPerFrame
      then c\<lparr>wc_system_audio_frame := [], wc_submitted := wc_submitted c @ [frame]\<rparr>
      else c\<lparr>wc_system_audio_frame := frame\<rparr>)"

definition submit_system_audio :: "real list \<Rightarrow> nat \<Rightarrow> client \<Rightarrow> client" where
  "submit_system_audio samples channels c =
     (if channels \<noteq> kChannels then c else fold submit_sample samples c)"

section \<open>The recovery thread and the end\<close>

text \<open>The worker takes the oldest task.\<close>

definition run_recovery ::
  "bool \<Rightarrow> start_results \<Rightarrow> devices \<Rightarrow> bool \<Rightarrow> screen_results \<Rightarrow> bool \<Rightarrow> bool \<Rightarrow> bool \<Rightarrow> peer_id \<Rightarrow> client \<Rightarrow> client" where
  "run_recovery up r dev plays r' native begins audio local_id c =
     (case wc_recovery_queue c of
        [] \<Rightarrow> c
      | task # tasks \<Rightarrow>
          let c1 = c\<lparr>wc_recovery_queue := tasks\<rparr> in
          (case task of
             Recover_Voice token \<Rightarrow> recover_voice_session up r dev token c1
           | Recover_Screen token \<Rightarrow> recover_screen_session up plays r' native begins audio local_id token c1))"

definition client_destroy :: "client \<Rightarrow> client" where
  "client_destroy c =
     (let c1 = stop_voice_session (stop_screen_session (stop_recovery c)) in
      c1\<lparr>wc_playout := playout_stop (wc_playout c1)\<rparr>)"

end
