(* ===== verification/Webrtc_Runs.thy ===== *)
theory Webrtc_Runs
  imports Webrtc_Client
begin

text \<open>
  Runs of the media client: every call of its user, of the transport and of the sessions it made, in
  any order, each run to its end; and what each of them leaves alone.
\<close>

section \<open>Events\<close>

datatype client_event =
    Ev_Start_Voice bool start_results devices
  | Ev_Stop_Voice
  | Ev_Set_Muted bool
  | Ev_Set_Deafened bool
  | Ev_Set_Master_Volume real
  | Ev_Set_Peer_Volume peer_id real
  | Ev_Set_Peer_Muted peer_id bool
  | Ev_Set_Input_Device devices string
  | Ev_Set_Output_Device devices string
  | Ev_Voice_Described nat "string list" description_result
  | Ev_Voice_Candidate nat "(string \<times> string) option"
  | Ev_Voice_Track nat "string option" bool
  | Ev_Voice_Stats
  | Ev_Voice_Stats_Answered nat voice_statistics
  | Ev_Session_State recovery_task media_state
  | Ev_Signaling bool start_results devices bool screen_results
  | Ev_Answer connection_id bool
  | Ev_Candidate connection_id bool
  | Ev_Binding connection_id string "peer_id option"
  | Ev_Watch_Rejected peer_id
  | Ev_Init_Screen bool bool screen_results
  | Ev_Deinit_Screen
  | Ev_Join_Stream peer_id
  | Ev_Leave_Stream peer_id
  | Ev_Leave_Streams
  | Ev_Remove_Peer peer_id
  | Ev_Peer_Stopped peer_id
  | Ev_Start_Sharing bool bool bool peer_id sharing_request
  | Ev_Stop_Sharing
  | Ev_Local_Preview bool
  | Ev_Stream_Volume peer_id real
  | Ev_Screen_Described nat description_result
  | Ev_Screen_Candidate nat "(string \<times> string) option"
  | Ev_Screen_Track nat "string option" track_kind
  | Ev_Frame nat string
  | Ev_Local_Frame nat
  | Ev_Screen_Stats peer_id
  | Ev_Screen_Stats_Answered nat u64 "screen_inbound list" int
  | Ev_System_Audio "real list" nat
  | Ev_Recovery bool start_results devices bool screen_results bool bool bool peer_id
  | Ev_Destroy

text \<open>
  Sharing is given its parsed request; a receiving track comes to the client as the library makes it.
\<close>

definition share :: "bool \<Rightarrow> bool \<Rightarrow> bool \<Rightarrow> peer_id \<Rightarrow> sharing_request \<Rightarrow> client \<Rightarrow> client" where
  "share native begins audio local_id q c =
     (case apply_sharing native begins audio local_id q c of
        (ok, c1) \<Rightarrow> if ok then c1\<lparr>wc_sharing_request := Some q\<rparr> else c1)"

lemma start_sharing_share:
  "snd (start_sharing parse_text native begins audio local_id target w h fps share_audio audio_target c) =
     (case parse_capture_selection parse_text target of
        None \<Rightarrow> c
      | Some (kind, i) \<Rightarrow> share native begins audio local_id
          \<lparr>sq_kind = kind, sq_id = i, sq_max_width = w, sq_max_height = h, sq_fps = fps,
           sq_share_audio = share_audio, sq_audio_target = audio_target\<rparr> c)"
  by (auto simp: start_sharing_def share_def Let_def split: option.split prod.split)

fun client_step :: "(json \<Rightarrow> string) \<Rightarrow> client_event \<Rightarrow> client \<Rightarrow> client" where
  "client_step dump (Ev_Start_Voice up r dev) c = start_voice up r dev c"
| "client_step dump Ev_Stop_Voice c = stop_voice c"
| "client_step dump (Ev_Set_Muted b) c = set_muted b c"
| "client_step dump (Ev_Set_Deafened b) c = set_deafened b c"
| "client_step dump (Ev_Set_Master_Volume v) c = set_master_volume v c"
| "client_step dump (Ev_Set_Peer_Volume p v) c = set_peer_volume p v c"
| "client_step dump (Ev_Set_Peer_Muted p b) c = set_peer_muted p b c"
| "client_step dump (Ev_Set_Input_Device dev i) c = snd (set_input_device dev i c)"
| "client_step dump (Ev_Set_Output_Device dev i) c = snd (set_output_device dev i c)"
| "client_step dump (Ev_Voice_Described t mids result) c = voice_described t mids result c"
| "client_step dump (Ev_Voice_Candidate t x) c = voice_candidate_found t x c"
| "client_step dump (Ev_Voice_Track t mid audio) c = voice_track_added t mid audio c"
| "client_step dump Ev_Voice_Stats c = snd (voice_stats_json c)"
| "client_step dump (Ev_Voice_Stats_Answered t st) c = voice_stats_answered t st c"
| "client_step dump (Ev_Session_State task state) c = session_state_changed task state c"
| "client_step dump (Ev_Signaling b r dev plays r') c = on_signaling_state b r dev plays r' c"
| "client_step dump (Ev_Answer connection b) c = client_apply_answer connection b c"
| "client_step dump (Ev_Candidate connection b) c = client_apply_candidate connection b c"
| "client_step dump (Ev_Binding connection mid peer) c = apply_binding connection mid peer c"
| "client_step dump (Ev_Watch_Rejected p) c = handle_watch_rejected p c"
| "client_step dump (Ev_Init_Screen up plays r) c = init_screen up plays r c"
| "client_step dump Ev_Deinit_Screen c = deinit_screen c"
| "client_step dump (Ev_Join_Stream p) c = join_stream p c"
| "client_step dump (Ev_Leave_Stream p) c = leave_stream p c"
| "client_step dump Ev_Leave_Streams c = leave_streams c"
| "client_step dump (Ev_Remove_Peer p) c = remove_peer p c"
| "client_step dump (Ev_Peer_Stopped p) c = peer_stopped_streaming p c"
| "client_step dump (Ev_Start_Sharing native begins audio local_id q) c = share native begins audio local_id q c"
| "client_step dump Ev_Stop_Sharing c = stop_sharing c"
| "client_step dump (Ev_Local_Preview b) c = set_local_preview_enabled b c"
| "client_step dump (Ev_Stream_Volume p v) c = set_stream_volume p v c"
| "client_step dump (Ev_Screen_Described t result) c = screen_described t result c"
| "client_step dump (Ev_Screen_Candidate t x) c = screen_candidate_found t x c"
| "client_step dump (Ev_Screen_Track t mid kind) c = screen_track_added t mid kind new_audio_track c"
| "client_step dump (Ev_Frame t mid) c = screen_frame t mid c"
| "client_step dump (Ev_Local_Frame t) c = screen_local_frame t c"
| "client_step dump (Ev_Screen_Stats p) c = snd (screen_stats_json p c)"
| "client_step dump (Ev_Screen_Stats_Answered t g inbound now) c = screen_stats_answered dump t g inbound now c"
| "client_step dump (Ev_System_Audio xs n) c = submit_system_audio xs n c"
| "client_step dump (Ev_Recovery up r dev plays r' native begins audio local_id) c =
     run_recovery up r dev plays r' native begins audio local_id c"
| "client_step dump Ev_Destroy c = client_destroy c"

section \<open>What is left alone\<close>

text \<open>What the voice side and the screen side of the client depend on.\<close>

definition voice_part where
  "voice_part c = (wc_voice c, wc_voice_bindings c, wc_voice_peer_volumes c, wc_voice_peer_muted c,
     wc_master_volume c, wc_voice_requested c, wc_voice_muted c, wc_voice_deafened c)"

definition screen_part where
  "screen_part c = (wc_screen c, wc_screen_bindings c, wc_screen_video_mids c, wc_screen_audio_mids c,
     wc_watched_peers c, wc_screen_peer_volumes c, wc_screen_requested c, wc_sharing_active c,
     wc_local_preview_enabled c, wc_local_preview_peer c, wc_screen_stats c, wc_frames c,
     wc_on_frame c, wc_on_frame_removed c, wc_system_audio_capture c)"

lemma voice_part_fields [simp]:
  "voice_part (c\<lparr>wc_screen := x1\<rparr>) = voice_part c" "voice_part (c\<lparr>wc_next_token := x2\<rparr>) = voice_part c"
  "voice_part (c\<lparr>wc_system_audio_capture := x3\<rparr>) = voice_part c"
  "voice_part (c\<lparr>wc_screen_bindings := x4\<rparr>) = voice_part c" "voice_part (c\<lparr>wc_screen_video_mids := x5\<rparr>) = voice_part c"
  "voice_part (c\<lparr>wc_screen_audio_mids := x6\<rparr>) = voice_part c" "voice_part (c\<lparr>wc_watched_peers := x7\<rparr>) = voice_part c"
  "voice_part (c\<lparr>wc_screen_peer_volumes := x8\<rparr>) = voice_part c"
  "voice_part (c\<lparr>wc_system_audio_frame := x9\<rparr>) = voice_part c" "voice_part (c\<lparr>wc_input_device := x10\<rparr>) = voice_part c"
  "voice_part (c\<lparr>wc_output_device := x11\<rparr>) = voice_part c" "voice_part (c\<lparr>wc_screen_requested := x12\<rparr>) = voice_part c"
  "voice_part (c\<lparr>wc_sharing_active := x13\<rparr>) = voice_part c" "voice_part (c\<lparr>wc_sharing_request := x14\<rparr>) = voice_part c"
  "voice_part (c\<lparr>wc_local_preview_enabled := x15\<rparr>) = voice_part c"
  "voice_part (c\<lparr>wc_local_preview_peer := x16\<rparr>) = voice_part c" "voice_part (c\<lparr>wc_screen_stats := x17\<rparr>) = voice_part c"
  "voice_part (c\<lparr>wc_voice_stats := x18\<rparr>) = voice_part c"
  "voice_part (c\<lparr>wc_voice_stats_in_flight := x19\<rparr>) = voice_part c"
  "voice_part (c\<lparr>wc_recovery_queue := x20\<rparr>) = voice_part c"
  "voice_part (c\<lparr>wc_recovery_scheduled := x21\<rparr>) = voice_part c"
  "voice_part (c\<lparr>wc_recovery_stopping := x22\<rparr>) = voice_part c" "voice_part (c\<lparr>wc_playout := x23\<rparr>) = voice_part c"
  "voice_part (c\<lparr>wc_sent := x24\<rparr>) = voice_part c" "voice_part (c\<lparr>wc_frames := x25\<rparr>) = voice_part c"
  "voice_part (c\<lparr>wc_submitted := x26\<rparr>) = voice_part c"
  by (simp_all add: voice_part_def)

lemma screen_part_fields [simp]:
  "screen_part (c\<lparr>wc_voice := x1\<rparr>) = screen_part c" "screen_part (c\<lparr>wc_next_token := x2\<rparr>) = screen_part c"
  "screen_part (c\<lparr>wc_voice_bindings := x4\<rparr>) = screen_part c"
  "screen_part (c\<lparr>wc_voice_peer_volumes := x5\<rparr>) = screen_part c"
  "screen_part (c\<lparr>wc_voice_peer_muted := x6\<rparr>) = screen_part c"
  "screen_part (c\<lparr>wc_system_audio_frame := x9\<rparr>) = screen_part c" "screen_part (c\<lparr>wc_input_device := x10\<rparr>) = screen_part c"
  "screen_part (c\<lparr>wc_output_device := x11\<rparr>) = screen_part c" "screen_part (c\<lparr>wc_master_volume := x12\<rparr>) = screen_part c"
  "screen_part (c\<lparr>wc_voice_requested := x13\<rparr>) = screen_part c" "screen_part (c\<lparr>wc_voice_muted := x14\<rparr>) = screen_part c"
  "screen_part (c\<lparr>wc_voice_deafened := x15\<rparr>) = screen_part c" "screen_part (c\<lparr>wc_sharing_request := x16\<rparr>) = screen_part c"
  "screen_part (c\<lparr>wc_voice_stats := x18\<rparr>) = screen_part c"
  "screen_part (c\<lparr>wc_voice_stats_in_flight := x19\<rparr>) = screen_part c"
  "screen_part (c\<lparr>wc_recovery_queue := x20\<rparr>) = screen_part c"
  "screen_part (c\<lparr>wc_recovery_scheduled := x21\<rparr>) = screen_part c"
  "screen_part (c\<lparr>wc_recovery_stopping := x22\<rparr>) = screen_part c" "screen_part (c\<lparr>wc_playout := x23\<rparr>) = screen_part c"
  "screen_part (c\<lparr>wc_sent := x24\<rparr>) = screen_part c" "screen_part (c\<lparr>wc_submitted := x26\<rparr>) = screen_part c"
  by (simp_all add: screen_part_def)

lemma fold_same: "(\<And>x c. f (g x c) = f c) \<Longrightarrow> f (fold g xs c) = f c"
  by (induction xs arbitrary: c) simp_all

lemma voice_part_helpers [simp]:
  "voice_part (send m c) = voice_part c" "voice_part (frame_removed p c) = voice_part c"
  "voice_part (show_frame p c) = voice_part c" "voice_part (apply_screen us c) = voice_part c"
  "voice_part (refresh_screen c) = voice_part c" "voice_part (put_screen s c) = voice_part c"
  by (simp_all add: send_def frame_removed_def show_frame_def apply_screen_def refresh_screen_def put_screen_def)

lemma screen_part_helpers [simp]:
  "screen_part (send m c) = screen_part c" "screen_part (apply_voice us c) = screen_part c"
  "screen_part (refresh_voice c) = screen_part c" "screen_part (put_voice s c) = screen_part c"
  by (simp_all add: send_def apply_voice_def refresh_voice_def put_voice_def)

lemma voice_part_folds [simp]:
  "voice_part (fold (\<lambda>p. send (WatchStart p)) ps c) = voice_part c"
  "voice_part (fold (\<lambda>p. send (WatchStop p)) ps c) = voice_part c"
  "voice_part (fold frame_removed ps c) = voice_part c"
  "voice_part (fold submit_sample xs c) = voice_part c"
  by (rule fold_same, simp add: submit_sample_def Let_def)+

lemma screen_part_folds [simp]:
  "screen_part (fold (\<lambda>p. send (WatchStart p)) ps c) = screen_part c"
  "screen_part (fold (\<lambda>p. send (WatchStop p)) ps c) = screen_part c"
  "screen_part (fold submit_sample xs c) = screen_part c"
  by (rule fold_same, simp add: submit_sample_def Let_def)+

end
