(* ===== verification/Webrtc_Voice.thy ===== *)
theory Webrtc_Voice
  imports Webrtc_Runs
begin

text \<open>
  The voice side of the media client: in every run, what the tracks of the current session play and
  send is what the bindings and the settings ask for. At the end, what happens when the statistics of
  a session are being asked for while it is closed, and when the microphone is muted while a session
  is being made.
\<close>

section \<open>Events of the screen side\<close>

lemma with_screen_voice_part:
  "(\<And>s c. voice_part (f s c) = voice_part c) \<Longrightarrow> voice_part (with_screen t f c) = voice_part c"
  by (simp add: with_screen_def split: option.split)

lemma voice_part_screen_callbacks [simp]:
  "voice_part (screen_described t result c) = voice_part c"
  "voice_part (screen_candidate_found t x c) = voice_part c"
  "voice_part (screen_track_added t mid kind track c) = voice_part c"
  "voice_part (screen_frame t m c) = voice_part c"
  "voice_part (screen_local_frame t c) = voice_part c"
  "voice_part (screen_stats_answered dump t g inbound now c) = voice_part c"
  unfolding screen_described_def screen_candidate_found_def screen_track_added_def screen_frame_def
    screen_local_frame_def screen_stats_answered_def
  by (rule with_screen_voice_part;
      simp add: Let_def deliver_video_def deliver_local_video_def split: prod.split option.split bool.split)+

lemma voice_part_screen_session [simp]:
  "voice_part (screen_commit up t s c) = voice_part c"
  "voice_part (start_screen_if_requested up plays r c) = voice_part c"
  "voice_part (stop_screen_session c) = voice_part c"
  "voice_part (snd (apply_sharing native begins audio local_id q c)) = voice_part c"
  "voice_part (stop_sharing c) = voice_part c"
  by (simp_all add: screen_commit_def start_screen_if_requested_def stop_screen_session_def apply_sharing_def
      stop_sharing_def Let_def split: option.split prod.split)

lemma voice_part_share [simp]: "voice_part (share native begins audio local_id q c) = voice_part c"
  using voice_part_screen_session(4) [of native begins audio local_id q c]
  by (cases "apply_sharing native begins audio local_id q c") (simp add: share_def)

lemma voice_part_screen_operations [simp]:
  "voice_part (recover_screen_session up plays r native begins audio local_id t c) = voice_part c"
  "voice_part (init_screen up plays r c) = voice_part c"
  "voice_part (deinit_screen c) = voice_part c"
  "voice_part (handle_watch_rejected p c) = voice_part c"
  "voice_part (join_stream p c) = voice_part c"
  "voice_part (leave_streams c) = voice_part c"
  "voice_part (leave_stream p c) = voice_part c"
  "voice_part (peer_stopped_streaming p c) = voice_part c"
  "voice_part (set_local_preview_enabled b c) = voice_part c"
  "voice_part (set_stream_volume p v c) = voice_part c"
  "voice_part (snd (screen_stats_json p c)) = voice_part c"
  "voice_part (submit_system_audio xs n c) = voice_part c"
proof -
  have sharing: "voice_part c' = voice_part c" if "apply_sharing native begins audio local_id q c = (ok, c')" for q c ok c'
    using that voice_part_screen_session(4) [of native begins audio local_id q c] by simp
  show "voice_part (recover_screen_session up plays r native begins audio local_id t c) = voice_part c"
    by (auto simp: recover_screen_session_def Let_def dest!: sharing split: option.split prod.split)
qed (simp_all add: init_screen_def deinit_screen_def handle_watch_rejected_def join_stream_def leave_streams_def
      leave_stream_def peer_stopped_streaming_def set_local_preview_enabled_def set_stream_volume_def
      screen_stats_json_def submit_system_audio_def Let_def split: prod.split)

lemma voice_part_requests [simp]:
  "voice_part (snd (voice_stats_json c)) = voice_part c"
  "voice_part (voice_stats_answered t st c) = voice_part c"
  "voice_part (session_state_changed task state c) = voice_part c"
  "voice_part (apply_selected_audio_devices dev c) = voice_part c"
  "voice_part (snd (set_input_device dev i c)) = voice_part c"
  "voice_part (snd (set_output_device dev i c)) = voice_part c"
  "voice_part (voice_candidate_found t x c) = voice_part c"
  by (simp_all add: voice_stats_json_def request_voice_stats_def voice_stats_answered_def session_state_changed_def
      schedule_recovery_def apply_selected_audio_devices_def set_input_device_def set_output_device_def
      voice_candidate_found_def with_voice_def Let_def split: option.split prod.split)

section \<open>Tokens\<close>

lemma next_token_helpers [simp]:
  "wc_next_token (send m c) = wc_next_token c" "wc_next_token (frame_removed p c) = wc_next_token c"
  "wc_next_token (show_frame p c) = wc_next_token c" "wc_next_token (apply_screen us c) = wc_next_token c"
  "wc_next_token (refresh_screen c) = wc_next_token c" "wc_next_token (put_screen s' c) = wc_next_token c"
  "wc_next_token (apply_voice us c) = wc_next_token c" "wc_next_token (refresh_voice c) = wc_next_token c"
  "wc_next_token (put_voice s c) = wc_next_token c"
  by (simp_all add: send_def frame_removed_def show_frame_def apply_screen_def refresh_screen_def put_screen_def
      apply_voice_def refresh_voice_def put_voice_def)

lemma next_token_folds [simp]:
  "wc_next_token (fold (\<lambda>p. send (WatchStart p)) ps c) = wc_next_token c"
  "wc_next_token (fold (\<lambda>p. send (WatchStop p)) ps c) = wc_next_token c"
  "wc_next_token (fold frame_removed ps c) = wc_next_token c"
  "wc_next_token (fold submit_sample xs c) = wc_next_token c"
  by (rule fold_same, simp add: submit_sample_def Let_def)+

lemma next_token_sessions:
  "wc_next_token (stop_voice_session c) = wc_next_token c"
  "wc_next_token (stop_screen_session c) = wc_next_token c"
  "wc_next_token (stop_sharing c) = wc_next_token c"
  "wc_next_token (snd (apply_sharing native begins audio local_id q c)) = wc_next_token c"
  "wc_next_token c \<le> wc_next_token (start_voice_if_requested up r dev c)"
  "wc_next_token c \<le> wc_next_token (start_screen_if_requested up plays r' c)"
  by (simp_all add: stop_voice_session_def stop_screen_session_def stop_sharing_def apply_sharing_def
      start_voice_if_requested_def voice_commit_def apply_selected_audio_devices_def
      start_screen_if_requested_def screen_commit_def Let_def split: option.split prod.split)

lemma next_token_share [simp]: "wc_next_token (share native begins audio local_id q c) = wc_next_token c"
  using next_token_sessions(4) [of native begins audio local_id q c]
  by (cases "apply_sharing native begins audio local_id q c") (simp add: share_def)

lemma next_token_recover:
  "wc_next_token c \<le> wc_next_token (recover_voice_session up r dev t c)"
  "wc_next_token c \<le> wc_next_token (recover_screen_session up plays r' native begins audio local_id t c)"
proof -
  show "wc_next_token c \<le> wc_next_token (recover_voice_session up r dev t c)"
    using next_token_sessions(5) [of "stop_voice_session c" up r dev]
    by (cases up) (simp_all add: recover_voice_session_def next_token_sessions(1))
  have sharing: "wc_next_token c' = wc_next_token c"
    if "apply_sharing native begins audio local_id q c = (ok, c')" for q c ok c'
    using that next_token_sessions(4) [of native begins audio local_id q c] by simp
  have "wc_next_token c \<le> wc_next_token (start_screen_if_requested up plays r' (stop_screen_session c1))"
    if "wc_next_token c1 = wc_next_token c" for c1
    using next_token_sessions(6) [of "stop_screen_session c1" up plays r'] that by (simp add: next_token_sessions(2))
  then show "wc_next_token c \<le> wc_next_token (recover_screen_session up plays r' native begins audio local_id t c)"
    by (auto simp: recover_screen_session_def Let_def dest!: sharing split: option.split prod.split)
qed

lemma next_token_mono: "wc_next_token c \<le> wc_next_token (client_step dump ev c)"
proof (cases ev)
  case (Ev_Signaling b r dev plays r')
  have "wc_next_token c \<le> wc_next_token (start_screen_if_requested True plays r' (start_voice_if_requested True r dev c))"
    using next_token_sessions(5,6) le_trans by blast
  then show ?thesis by (simp add: Ev_Signaling on_signaling_state_def next_token_sessions(1,2))
next
  case (Ev_Recovery up r dev plays r' native begins audio local_id)
  then show ?thesis
    using next_token_recover [of "c\<lparr>wc_recovery_queue := tasks\<rparr>" for tasks]
    by (simp add: run_recovery_def Let_def split: list.split recovery_task.split)
next
  case (Ev_Start_Voice up r dev)
  then show ?thesis
    using next_token_sessions(5) [of "c\<lparr>wc_voice_requested := True\<rparr>" up r dev] by (simp add: start_voice_def)
next
  case (Ev_Init_Screen up plays r)
  then show ?thesis
    using next_token_sessions(6) [of "c\<lparr>wc_screen_requested := True\<rparr>" up plays r] by (simp add: init_screen_def)
qed (simp_all add: stop_voice_def next_token_sessions(1-4) set_muted_def set_deafened_def set_master_volume_def
    set_peer_volume_def set_peer_muted_def set_input_device_def set_output_device_def voice_described_def
    voice_candidate_found_def voice_track_added_def with_voice_def voice_stats_json_def request_voice_stats_def
    voice_stats_answered_def session_state_changed_def schedule_recovery_def client_apply_answer_def
    client_apply_candidate_def apply_binding_def handle_watch_rejected_def deinit_screen_def join_stream_def
    leave_stream_def leave_streams_def remove_peer_def peer_stopped_streaming_def set_local_preview_enabled_def
    set_stream_volume_def screen_described_def screen_candidate_found_def screen_track_added_def screen_frame_def
    screen_local_frame_def deliver_video_def deliver_local_video_def with_screen_def screen_stats_json_def
    screen_stats_answered_def submit_system_audio_def client_destroy_def stop_recovery_def Let_def
    split: option.split prod.split connection_id.split bool.split)

section \<open>Updates of the session's tracks\<close>

text \<open>The update of a mid without its session, and what it makes of a track.\<close>

definition voice_wanted :: "client \<Rightarrow> string \<Rightarrow> track_update" where
  "voice_wanted c mid =
     (case map_of (wc_voice_bindings c) mid of
        None \<Rightarrow> \<lparr>tu_mid = mid, tu_enabled = False, tu_volume = None\<rparr>
      | Some p \<Rightarrow> \<lparr>tu_mid = mid, tu_enabled = \<not> wc_voice_deafened c \<and> \<not> peer_muted p c,
          tu_volume = Some (wc_master_volume c * peer_volume p c)\<rparr>)"

definition track_after :: "track_update \<Rightarrow> audio_track \<Rightarrow> audio_track" where
  "track_after u tr =
     (let tr1 = tr\<lparr>at_enabled := tu_enabled u\<rparr> in
      case tu_volume u of None \<Rightarrow> tr1 | Some v \<Rightarrow> if v < 0 \<or> 10 < v then tr1 else tr1\<lparr>at_volume := v\<rparr>)"

definition follows :: "track_update \<Rightarrow> audio_track \<Rightarrow> bool" where
  "follows u tr \<longleftrightarrow> at_enabled tr = tu_enabled u \<and> (\<forall>v. tu_volume u = Some v \<longrightarrow> at_volume tr = v)"

definition sane :: "track_update \<Rightarrow> bool" where
  "sane u \<longleftrightarrow> (\<forall>v. tu_volume u = Some v \<longrightarrow> 0 \<le> v \<and> v \<le> 10)"

lemma wanted_mid [simp]: "tu_mid (voice_wanted c mid) = mid"
  by (simp add: voice_wanted_def split: option.split)

lemma voice_update_locked_wanted:
  "voice_update_locked c mid = (if wc_voice c = None then None else Some (voice_wanted c mid))"
  by (simp add: voice_update_locked_def voice_wanted_def split: option.split)

lemma track_after_follows: "sane u \<Longrightarrow> follows u (track_after u tr)"
  by (auto simp: sane_def follows_def track_after_def Let_def split: option.split)

lemma track_after_idem: "track_after u \<circ> track_after u = track_after u"
  by (auto simp: track_after_def Let_def fun_eq_iff split: option.split)

lemma all_updates_wanted:
  "all_voice_updates_locked c =
     (if wc_voice c = None then [] else map (voice_wanted c) (keys (wc_voice_bindings c)))"
proof (cases "wc_voice c")
  case None
  then have "voice_update_locked c = (\<lambda>_. None)" by (simp add: fun_eq_iff voice_update_locked_wanted)
  with None show ?thesis by (simp add: all_voice_updates_locked_def List.map_filter_def)
next
  case (Some ts)
  then have "voice_update_locked c = (\<lambda>m. Some (voice_wanted c m))" by (simp add: fun_eq_iff voice_update_locked_wanted)
  with Some show ?thesis by (simp add: all_voice_updates_locked_def List.map_filter_def)
qed

text \<open>The session but its tracks.\<close>

definition session_rest where
  "session_rest s = (vs_pc s, vs_started s, vs_microphone_track s, keys (vs_tracks s))"

lemma apply_voice_update_effect:
  assumes "vs_pc s"
  shows "map_of (vs_tracks (apply_voice_update u s)) m =
      (if m = tu_mid u then map_option (track_after u) (map_of (vs_tracks s) m) else map_of (vs_tracks s) m)"
    and "session_rest (apply_voice_update u s) = session_rest s"
  using assms
  by (auto simp: apply_voice_update_def voice_set_track_enabled_def voice_set_track_volume_def
      remote_audio_track_def track_after_def Let_def map_of_adjust session_rest_def split: option.split)

lemma apply_voice_updates_effect:
  assumes "vs_pc s" and "\<forall>u\<in>set us. u = f (tu_mid u)"
  shows "map_of (vs_tracks (fold apply_voice_update us s)) m =
      (if m \<in> tu_mid ` set us then map_option (track_after (f m)) (map_of (vs_tracks s) m)
       else map_of (vs_tracks s) m) \<and>
    session_rest (fold apply_voice_update us s) = session_rest s"
  using assms
proof (induction us arbitrary: s)
  case (Cons u us)
  have rest: "session_rest (apply_voice_update u s) = session_rest s"
    by (rule apply_voice_update_effect(2) [OF Cons.prems(1)])
  then have pc: "vs_pc (apply_voice_update u s)" using Cons.prems(1) by (simp add: session_rest_def)
  have u: "u = f (tu_mid u)" using Cons.prems(2) by simp
  show ?case
    using Cons.IH [OF pc] Cons.prems(2) rest apply_voice_update_effect(1) [OF Cons.prems(1), of u m] u
    by (auto simp: option.map_comp track_after_idem)
qed simp

section \<open>The invariant\<close>

definition volumes_ok :: "client \<Rightarrow> bool" where
  "volumes_ok c \<longleftrightarrow>
     0 \<le> wc_master_volume c \<and> wc_master_volume c \<le> 2 \<and>
     (\<forall>p. 0 \<le> peer_volume p c \<and> peer_volume p c \<le> 2)"

lemma wanted_sane: "volumes_ok c \<Longrightarrow> sane (voice_wanted c mid)"
proof (cases "map_of (wc_voice_bindings c) mid")
  case (Some p)
  assume ok: "volumes_ok c"
  then have "wc_master_volume c * peer_volume p c \<le> 2 * 2"
    by (intro mult_mono) (auto simp: volumes_ok_def)
  with ok Some show ?thesis by (simp add: sane_def voice_wanted_def volumes_ok_def)
qed (simp add: sane_def voice_wanted_def)

text \<open>
  \<open>announced\<close> are the mids of the session's tracks that the client was told of; \<open>stale\<close> are bound mids
  whose peer was removed from the settings after their track was last updated.
\<close>

definition voice_session_ok :: "client \<Rightarrow> string set \<Rightarrow> string set \<Rightarrow> bool" where
  "voice_session_ok c announced stale \<longleftrightarrow>
     (\<forall>t s. wc_voice c = Some (t, s) \<longrightarrow>
        t < wc_next_token c \<and> wc_voice_requested c \<and> vs_pc s \<and> vs_started s \<and>
        vs_microphone_track s = Some (\<not> wc_voice_muted c) \<and>
        announced \<subseteq> set (keys (vs_tracks s)) \<and> stale \<subseteq> set (keys (wc_voice_bindings c)) \<and>
        (\<forall>m\<in>announced - stale. \<forall>tr. map_of (vs_tracks s) m = Some tr \<longrightarrow> follows (voice_wanted c m) tr))"

lemma voice_ok_part:
  assumes "voice_part c' = voice_part c" and "wc_next_token c \<le> wc_next_token c'"
    and "volumes_ok c \<and> voice_session_ok c A S"
  shows "volumes_ok c' \<and> voice_session_ok c' A S"
proof -
  have "voice_wanted c' m = voice_wanted c m" for m
    using assms(1) by (simp add: voice_wanted_def voice_part_def peer_muted_def peer_volume_def split: option.split)
  moreover have "volumes_ok c' = volumes_ok c"
    using assms(1) by (simp add: volumes_ok_def voice_part_def peer_volume_def)
  ultimately show ?thesis using assms
    by (auto simp: voice_session_ok_def voice_part_def)
qed

text \<open>Settings were changed; then every bound track is updated.\<close>

lemma voice_ok_refresh:
  assumes "volumes_ok c" and "voice_session_ok c0 A S"
    and "wc_voice c = wc_voice c0" "wc_voice_bindings c = wc_voice_bindings c0" "wc_next_token c = wc_next_token c0"
      "wc_voice_requested c = wc_voice_requested c0" "wc_voice_muted c = wc_voice_muted c0"
  shows "volumes_ok (refresh_voice c) \<and> voice_session_ok (refresh_voice c) A {}"
proof -
  let ?us = "all_voice_updates_locked c"
  have fields: "volumes_ok (refresh_voice c) = volumes_ok c" "voice_wanted (refresh_voice c) m = voice_wanted c m" for m
    by (simp_all add: refresh_voice_def apply_voice_def volumes_ok_def voice_wanted_def peer_volume_def peer_muted_def
        split: option.split)
  have "voice_session_ok (refresh_voice c) A {}"
    unfolding voice_session_ok_def
  proof (intro allI impI)
    fix t s' assume after: "wc_voice (refresh_voice c) = Some (t, s')"
    then obtain s where s: "wc_voice c = Some (t, s)" "s' = fold apply_voice_update ?us s"
      by (auto simp: refresh_voice_def apply_voice_def)
    have before: "t < wc_next_token c" "wc_voice_requested c" "vs_pc s" "vs_started s"
      "vs_microphone_track s = Some (\<not> wc_voice_muted c)" "A \<subseteq> set (keys (vs_tracks s))"
      "S \<subseteq> set (keys (wc_voice_bindings c))"
      and follow: "\<forall>m\<in>A - S. \<forall>tr. map_of (vs_tracks s) m = Some tr \<longrightarrow> follows (voice_wanted c0 m) tr"
      using assms(2) s(1) assms(3-7) by (auto simp: voice_session_ok_def)
    have all: "\<forall>u\<in>set ?us. u = voice_wanted c (tu_mid u)" and mids: "tu_mid ` set ?us = set (keys (wc_voice_bindings c))"
      using s(1) by (auto simp: all_updates_wanted image_image)
    note effect = apply_voice_updates_effect [OF before(3) all]
    have rest: "session_rest s' = session_rest s" using effect s(2) by blast
    have tracks: "follows (voice_wanted c m) tr" if m: "m \<in> A" and tr: "map_of (vs_tracks s') m = Some tr" for m tr
    proof (cases "m \<in> set (keys (wc_voice_bindings c))")
      case True
      then obtain tr0 where "tr = track_after (voice_wanted c m) tr0"
        using tr effect [of m] s(2) mids by auto
      then show ?thesis using track_after_follows wanted_sane [OF assms(1)] by simp
    next
      case False
      then have "m \<notin> S" using before(7) by blast
      moreover have "map_of (vs_tracks s) m = Some tr" using False tr effect [of m] s(2) mids by simp
      moreover have "voice_wanted c m = voice_wanted c0 m"
        using False assms(4) by (simp add: voice_wanted_def map_of_eq_None_iff [THEN iffD2])
      ultimately show ?thesis using follow m by simp
    qed
    show "t < wc_next_token (refresh_voice c) \<and> wc_voice_requested (refresh_voice c) \<and> vs_pc s' \<and> vs_started s' \<and>
        vs_microphone_track s' = Some (\<not> wc_voice_muted (refresh_voice c)) \<and> A \<subseteq> set (keys (vs_tracks s')) \<and>
        {} \<subseteq> set (keys (wc_voice_bindings (refresh_voice c))) \<and>
        (\<forall>m\<in>A - {}. \<forall>tr. map_of (vs_tracks s') m = Some tr \<longrightarrow> follows (voice_wanted (refresh_voice c) m) tr)"
      using before rest tracks
      by (simp add: fields session_rest_def) (simp add: refresh_voice_def apply_voice_def)
  qed
  with fields assms(1) show ?thesis by simp
qed

text \<open>One mid was bound, released or announced; then its track is updated.\<close>

lemma voice_ok_update:
  assumes "volumes_ok c"
    and session: "\<And>t s. wc_voice c = Some (t, s) \<Longrightarrow>
      t < wc_next_token c \<and> wc_voice_requested c \<and> vs_pc s \<and> vs_started s \<and>
      vs_microphone_track s = Some (\<not> wc_voice_muted c) \<and>
      A \<subseteq> set (keys (vs_tracks s)) \<and> S - {mid} \<subseteq> set (keys (wc_voice_bindings c)) \<and>
      (\<forall>m\<in>A - S - {mid}. \<forall>tr. map_of (vs_tracks s) m = Some tr \<longrightarrow> follows (voice_wanted c m) tr)"
  shows "volumes_ok (apply_voice (to_list (voice_update_locked c mid)) c) \<and>
    voice_session_ok (apply_voice (to_list (voice_update_locked c mid)) c) A (S - {mid})"
proof -
  let ?c = "apply_voice (to_list (voice_update_locked c mid)) c"
  have fields: "volumes_ok ?c = volumes_ok c" "voice_wanted ?c m = voice_wanted c m" for m
    by (simp_all add: apply_voice_def volumes_ok_def voice_wanted_def peer_volume_def peer_muted_def split: option.split)
  have "voice_session_ok ?c A (S - {mid})"
    unfolding voice_session_ok_def
  proof (intro allI impI)
    fix t s' assume after: "wc_voice ?c = Some (t, s')"
    then obtain s where s: "wc_voice c = Some (t, s)" "s' = apply_voice_update (voice_wanted c mid) s"
      by (auto simp: apply_voice_def voice_update_locked_wanted to_list_def)
    note before = session [OF s(1)]
    have pc: "vs_pc s" using before by simp
    note effect = apply_voice_update_effect [OF pc, of "voice_wanted c mid"]
    have tracks: "follows (voice_wanted c m) tr"
      if m: "m \<in> A" "m \<notin> S - {mid}" and tr: "map_of (vs_tracks s') m = Some tr" for m tr
    proof (cases "m = mid")
      case True
      then have "map_option (track_after (voice_wanted c mid)) (map_of (vs_tracks s) mid) = Some tr"
        using tr effect(1) [of m] s(2) by simp
      then obtain tr0 where "tr = track_after (voice_wanted c mid) tr0" by auto
      then show ?thesis using True track_after_follows wanted_sane [OF assms(1)] by simp
    next
      case False
      then show ?thesis using tr effect(1) [of m] s(2) before m by simp
    qed
    show "t < wc_next_token ?c \<and> wc_voice_requested ?c \<and> vs_pc s' \<and> vs_started s' \<and>
        vs_microphone_track s' = Some (\<not> wc_voice_muted ?c) \<and> A \<subseteq> set (keys (vs_tracks s')) \<and>
        S - {mid} \<subseteq> set (keys (wc_voice_bindings ?c)) \<and>
        (\<forall>m\<in>A - (S - {mid}). \<forall>tr. map_of (vs_tracks s') m = Some tr \<longrightarrow> follows (voice_wanted ?c m) tr)"
      using before effect(2) s(2) tracks
      by (simp add: fields session_rest_def) (simp add: apply_voice_def)
  qed
  with fields assms(1) show ?thesis by simp
qed

lemma peer_volume_update:
  "peer_volume p (c\<lparr>wc_voice_peer_volumes := AList.update q v (wc_voice_peer_volumes c)\<rparr>) =
     (if p = q then v else peer_volume p c)"
  by (simp add: peer_volume_def map_of_update)

lemma clamp_range: "0 \<le> clamp_volume v \<and> clamp_volume v \<le> 2"
  by (simp add: clamp_volume_def)

lemma volumes_settings:
  "volumes_ok c \<Longrightarrow> volumes_ok (c\<lparr>wc_voice_deafened := b\<rparr>)"
  "volumes_ok c \<Longrightarrow> volumes_ok (c\<lparr>wc_master_volume := clamp_volume v\<rparr>)"
  "volumes_ok c \<Longrightarrow> volumes_ok (c\<lparr>wc_voice_peer_volumes := AList.update p (clamp_volume v) (wc_voice_peer_volumes c)\<rparr>)"
  "volumes_ok c \<Longrightarrow> volumes_ok (c\<lparr>wc_voice_peer_muted := AList.update p b (wc_voice_peer_muted c)\<rparr>)"
  using clamp_range [of v] by (simp_all add: volumes_ok_def peer_volume_update) (simp_all add: peer_volume_def)

lemma voice_settings_ok:
  assumes "volumes_ok c \<and> voice_session_ok c A S"
  shows "volumes_ok (set_deafened b c) \<and> voice_session_ok (set_deafened b c) A {}"
    and "volumes_ok (set_master_volume v c) \<and> voice_session_ok (set_master_volume v c) A {}"
    and "volumes_ok (set_peer_volume p v c) \<and> voice_session_ok (set_peer_volume p v c) A {}"
    and "volumes_ok (set_peer_muted p b c) \<and> voice_session_ok (set_peer_muted p b c) A {}"
proof -
  have vol: "volumes_ok c" and ok: "voice_session_ok c A S" using assms by simp_all
  show "volumes_ok (set_deafened b c) \<and> voice_session_ok (set_deafened b c) A {}"
    using voice_ok_part [OF _ _ voice_ok_refresh [OF volumes_settings(1) [OF vol, of b] ok]]
    by (simp add: set_deafened_def Let_def)
  show "volumes_ok (set_master_volume v c) \<and> voice_session_ok (set_master_volume v c) A {}"
    using voice_ok_part [OF _ _ voice_ok_refresh [OF volumes_settings(2) [OF vol, of v] ok]]
    by (simp add: set_master_volume_def Let_def)
  show "volumes_ok (set_peer_volume p v c) \<and> voice_session_ok (set_peer_volume p v c) A {}"
    using voice_ok_refresh [OF volumes_settings(3) [OF vol, of p v] ok] by (simp add: set_peer_volume_def)
  show "volumes_ok (set_peer_muted p b c) \<and> voice_session_ok (set_peer_muted p b c) A {}"
    using voice_ok_refresh [OF volumes_settings(4) [OF vol, of p b] ok] by (simp add: set_peer_muted_def)
qed

text \<open>The session is changed in ways that leave its tracks and its connection.\<close>

lemma voice_ok_session:
  assumes "volumes_ok c \<and> voice_session_ok c A S" and "\<And>t s. wc_voice c = Some (t, s) \<Longrightarrow>
      vs_pc (f s) = vs_pc s \<and> vs_started (f s) = vs_started s \<and>
      vs_microphone_track (f s) = (if vs_microphone_track s = None then None else Some (\<not> b)) \<and>
      set (keys (vs_tracks s)) \<subseteq> set (keys (vs_tracks (f s))) \<and>
      (\<forall>m tr. map_of (vs_tracks s) m = Some tr \<longrightarrow> map_of (vs_tracks (f s)) m = Some tr)"
  shows "volumes_ok (c\<lparr>wc_voice_muted := b, wc_voice := map_option (map_prod id f) (wc_voice c)\<rparr>) \<and>
    voice_session_ok (c\<lparr>wc_voice_muted := b, wc_voice := map_option (map_prod id f) (wc_voice c)\<rparr>) A S"
proof -
  let ?c = "c\<lparr>wc_voice_muted := b, wc_voice := map_option (map_prod id f) (wc_voice c)\<rparr>"
  have fields: "volumes_ok ?c = volumes_ok c" "voice_wanted ?c m = voice_wanted c m" for m
    by (simp_all add: volumes_ok_def voice_wanted_def peer_volume_def peer_muted_def split: option.split)
  have "voice_session_ok ?c A S"
    unfolding voice_session_ok_def
  proof (intro allI impI)
    fix t s' assume "wc_voice ?c = Some (t, s')"
    then obtain s where s: "wc_voice c = Some (t, s)" "s' = f s" by auto
    have before: "t < wc_next_token c" "wc_voice_requested c" "vs_pc s" "vs_started s"
      "vs_microphone_track s = Some (\<not> wc_voice_muted c)" "A \<subseteq> set (keys (vs_tracks s))"
      "S \<subseteq> set (keys (wc_voice_bindings c))"
      "\<forall>m\<in>A - S. \<forall>tr. map_of (vs_tracks s) m = Some tr \<longrightarrow> follows (voice_wanted c m) tr"
      using assms(1) s(1) by (auto simp: voice_session_ok_def)
    note kept = assms(2) [OF s(1)]
    have tracks: "follows (voice_wanted c m) tr" if m: "m \<in> A - S" and tr: "map_of (vs_tracks (f s)) m = Some tr" for m tr
    proof -
      have "m \<in> set (keys (vs_tracks s))" using m before(6) by blast
      then obtain tr0 where tr0: "map_of (vs_tracks s) m = Some tr0" by (metis map_of_None_keys not_None_eq)
      then have "map_of (vs_tracks (f s)) m = Some tr0" using kept by blast
      then show ?thesis using tr tr0 before(8) m by auto
    qed
    show "t < wc_next_token ?c \<and> wc_voice_requested ?c \<and> vs_pc s' \<and> vs_started s' \<and>
        vs_microphone_track s' = Some (\<not> wc_voice_muted ?c) \<and> A \<subseteq> set (keys (vs_tracks s')) \<and>
        S \<subseteq> set (keys (wc_voice_bindings ?c)) \<and>
        (\<forall>m\<in>A - S. \<forall>tr. map_of (vs_tracks s') m = Some tr \<longrightarrow> follows (voice_wanted ?c m) tr)"
      unfolding fields s(2)
    proof (intro conjI ballI allI impI)
      show "A \<subseteq> set (keys (vs_tracks (f s)))" using before(6) kept by blast
    next
      fix m tr assume "m \<in> A - S" "map_of (vs_tracks (f s)) m = Some tr"
      then show "follows (voice_wanted c m) tr" by (rule tracks)
    qed (use before kept in simp_all)
  qed
  with fields assms(1) show ?thesis by simp
qed

section \<open>Runs\<close>

definition voice_token :: "client \<Rightarrow> nat option" where
  "voice_token c = map_option fst (wc_voice c)"

text \<open>The mid of a track that is announced to the client by its current session.\<close>

definition announces :: "client_event \<Rightarrow> client \<Rightarrow> string option" where
  "announces ev c =
     (case ev of
        Ev_Voice_Track t mid audio \<Rightarrow>
          (case wc_voice c of
             Some (t', s) \<Rightarrow> if t' = t \<and> vs_started s \<and> audio then mid else None
           | None \<Rightarrow> None)
      | _ \<Rightarrow> None)"

definition announced_after :: "client_event \<Rightarrow> client \<Rightarrow> string set \<Rightarrow> string set" where
  "announced_after ev c A = (case announces ev c of Some m \<Rightarrow> insert m A | None \<Rightarrow> A)"

definition stale_after :: "client_event \<Rightarrow> client \<Rightarrow> string set \<Rightarrow> string set" where
  "stale_after ev c S =
     (case ev of
        Ev_Remove_Peer p \<Rightarrow> S \<union> {m. map_of (wc_voice_bindings c) m = Some p}
      | Ev_Binding connection mid peer \<Rightarrow> if connection = Voice then S - {mid} else S
      | Ev_Voice_Track t mid audio \<Rightarrow> (case announces ev c of Some m \<Rightarrow> S - {m} | None \<Rightarrow> S)
      | Ev_Set_Deafened b \<Rightarrow> {}
      | Ev_Set_Master_Volume v \<Rightarrow> {}
      | Ev_Set_Peer_Volume p v \<Rightarrow> {}
      | Ev_Set_Peer_Muted p b \<Rightarrow> {}
      | _ \<Rightarrow> S)"

text \<open>The library announces tracks of its transceivers only, which have their mids by then.\<close>

definition track_known :: "client_event \<Rightarrow> client \<Rightarrow> bool" where
  "track_known ev c \<longleftrightarrow>
     (case (announces ev c, wc_voice c) of
        (Some m, Some (t, s)) \<Rightarrow> m \<in> set (keys (vs_tracks s))
      | _ \<Rightarrow> True)"

text \<open>
  A run, with the tracks of the voice session that were announced, and the bound ones among them
  whose peer was removed since they were last updated; both start anew with each session.
\<close>

inductive client_run :: "(json \<Rightarrow> string) \<Rightarrow> client \<Rightarrow> string set \<Rightarrow> string set \<Rightarrow> bool" for dump where
  start: "client_run dump (new_client on_frame on_frame_removed) {} {}"
| step: "client_run dump c A S \<Longrightarrow> track_known ev c \<Longrightarrow> c' = client_step dump ev c \<Longrightarrow>
    client_run dump c'
      (if voice_token c' = voice_token c then announced_after ev c A else {})
      (if voice_token c' = voice_token c then stale_after ev c S else {})"

definition voice_good :: "client \<Rightarrow> string set \<Rightarrow> string set \<Rightarrow> bool" where
  "voice_good c A S \<longleftrightarrow> volumes_ok c \<and> voice_session_ok c A S"

text \<open>\<open>c'\<close> is good in place of \<open>c\<close>, with nothing announced when the session is another one.\<close>

definition voice_follows :: "client \<Rightarrow> client \<Rightarrow> string set \<Rightarrow> string set \<Rightarrow> bool" where
  "voice_follows c c' A S \<longleftrightarrow>
     voice_good c' (if voice_token c' = voice_token c then A else {}) (if voice_token c' = voice_token c then S else {})"

lemma voice_follows_same:
  "voice_good c A S \<Longrightarrow> voice_part c' = voice_part c \<Longrightarrow> wc_next_token c \<le> wc_next_token c' \<Longrightarrow> voice_follows c c' A S"
  using voice_ok_part [of c' c A S] by (simp add: voice_follows_def voice_good_def voice_token_def voice_part_def)

lemma voice_good_None: "wc_voice c = None \<Longrightarrow> volumes_ok c \<Longrightarrow> voice_good c A S"
  by (simp add: voice_good_def voice_session_ok_def)

lemma volumes_ok_part:
  "wc_master_volume c' = wc_master_volume c \<Longrightarrow> wc_voice_peer_volumes c' = wc_voice_peer_volumes c \<Longrightarrow>
   volumes_ok c' = volumes_ok c"
  by (simp add: volumes_ok_def peer_volume_def)

lemma voice_make_session:
  "voice_make r microphone = (True, s) \<Longrightarrow>
     vs_pc s \<and> vs_started s \<and> vs_microphone_track s = Some microphone \<and> vs_tracks s = []"
  by (auto simp: voice_make_def voice_start_def new_voice_session_def Let_def kMaxRemoteTrackSlots_def
      kVoiceReceiveSlots_def kVoiceBitrateKbps_def split: if_splits)

lemma voice_commit_good:
  assumes "volumes_ok c" and "wc_voice c = None" and "token < wc_next_token c"
    and "voice_make r (\<not> wc_voice_muted c) = (True, s)" and "wc_voice_requested c" and "up"
  shows "voice_good (voice_commit up token s c) {} {} \<and> voice_token (voice_commit up token s c) = Some token"
proof -
  let ?c = "c\<lparr>wc_voice := Some (token, s)\<rparr>"
  have "volumes_ok ?c" using assms(1) volumes_ok_part [of ?c c] by simp
  moreover have "voice_session_ok ?c {} {}"
    using voice_make_session [OF assms(4)] assms(3,5) by (simp add: voice_session_ok_def)
  ultimately have "voice_good (refresh_voice ?c) {} {}"
    using voice_ok_refresh [of ?c ?c "{}" "{}"] by (simp add: voice_good_def)
  then show ?thesis using assms(2,5,6)
    by (simp add: voice_commit_def voice_token_def refresh_voice_def apply_voice_def)
qed

lemma start_voice_follows:
  assumes "voice_good c A S"
  shows "voice_follows c (start_voice_if_requested up r dev c) A S"
proof (cases "voice_begin up c")
  case None
  then show ?thesis using assms by (simp add: start_voice_if_requested_def voice_follows_same)
next
  case (Some microphone)
  then have idle: "wc_voice_requested c" "wc_voice c = None" up "microphone = (\<not> wc_voice_muted c)"
    by (cases "wc_voice c"; auto simp: voice_begin_def split: if_splits)+
  obtain ok s where made: "voice_make r microphone = (ok, s)" by fastforce
  show ?thesis
  proof (cases ok)
    case False
    then show ?thesis using Some made assms
      by (intro voice_follows_same) (simp_all add: start_voice_if_requested_def Let_def)
  next
    case True
    let ?c = "apply_selected_audio_devices dev (c\<lparr>wc_next_token := Suc (wc_next_token c)\<rparr>)"
    have part: "voice_part ?c = voice_part c" by simp
    have tok: "wc_next_token ?c = Suc (wc_next_token c)" by (simp add: apply_selected_audio_devices_def Let_def)
    have vol: "volumes_ok ?c"
      using assms part volumes_ok_part [of ?c c] by (simp add: voice_good_def voice_part_def)
    have fields: "wc_voice ?c = None" "wc_voice_requested ?c" "wc_voice_muted ?c = wc_voice_muted c"
      using part idle by (simp_all add: voice_part_def)
    have make: "voice_make r (\<not> wc_voice_muted ?c) = (True, s)" using made True idle(4) fields(3) by simp
    note good = voice_commit_good [OF vol fields(1) _ make fields(2) idle(3), of "wc_next_token c"]
    have "start_voice_if_requested up r dev c = voice_commit up (wc_next_token c) s ?c"
      using Some made True by (simp add: start_voice_if_requested_def Let_def)
    then have "voice_good (start_voice_if_requested up r dev c) {} {}"
      and "voice_token (start_voice_if_requested up r dev c) = Some (wc_next_token c)"
      using good tok by simp_all
    moreover have "voice_token c = None" using idle(2) by (simp add: voice_token_def)
    ultimately show ?thesis by (simp add: voice_follows_def)
  qed
qed

lemma stop_voice_good: "volumes_ok c \<Longrightarrow> voice_good (stop_voice_session c) A S"
  by (rule voice_good_None) (simp_all add: stop_voice_session_def volumes_ok_def peer_volume_def)

lemma voice_follows_trans_part:
  "voice_follows c c1 A S \<Longrightarrow> voice_part c2 = voice_part c1 \<Longrightarrow> wc_next_token c1 \<le> wc_next_token c2 \<Longrightarrow>
   voice_follows c c2 A S"
proof -
  assume follows: "voice_follows c c1 A S" and part: "voice_part c2 = voice_part c1" "wc_next_token c1 \<le> wc_next_token c2"
  have "voice_token c2 = voice_token c1" using part(1) by (simp add: voice_token_def voice_part_def)
  then show ?thesis using follows voice_ok_part [OF part] unfolding voice_follows_def voice_good_def by metis
qed

lemma recover_voice_follows:
  assumes "voice_good c A S"
  shows "voice_follows c (recover_voice_session up r dev t c) A S"
proof (cases "\<not> wc_voice_requested c \<or> map_option fst (wc_voice c) \<noteq> Some t \<or> \<not> up")
  case True
  then show ?thesis using assms by (simp add: recover_voice_session_def voice_follows_same)
next
  case False
  let ?stopped = "stop_voice_session c"
  have "voice_good ?stopped {} {}" using assms stop_voice_good by (simp add: voice_good_def)
  then have "voice_follows ?stopped (start_voice_if_requested up r dev ?stopped) {} {}" by (rule start_voice_follows)
  then have good: "voice_good (start_voice_if_requested up r dev ?stopped) {} {}" by (simp add: voice_follows_def)
  have recover: "recover_voice_session up r dev t c = start_voice_if_requested up r dev ?stopped"
    using False by (auto simp: recover_voice_session_def)
  have below: "t < wc_next_token c" using False assms by (auto simp: voice_good_def voice_session_ok_def)
  have "voice_token (start_voice_if_requested up r dev ?stopped) \<noteq> Some t"
  proof (cases "voice_begin up ?stopped")
    case None
    then show ?thesis by (simp add: start_voice_if_requested_def stop_voice_session_def voice_token_def)
  next
    case (Some microphone)
    obtain ok s where made: "voice_make r microphone = (ok, s)" by fastforce
    have "voice_token (voice_commit up (wc_next_token c) s' c') = Some (wc_next_token c) \<or>
        voice_token (voice_commit up (wc_next_token c) s' c') = None" if "wc_voice c' = None" for s' c'
      using that by (simp add: voice_commit_def voice_token_def refresh_voice_def apply_voice_def)
    moreover have "wc_voice (apply_selected_audio_devices dev (?stopped\<lparr>wc_next_token := n\<rparr>)) = None" for n
      by (simp add: apply_selected_audio_devices_def stop_voice_session_def Let_def)
    ultimately have "voice_token (start_voice_if_requested up r dev ?stopped) \<in> {Some (wc_next_token c), None}"
      using Some made
      by (auto simp: start_voice_if_requested_def Let_def next_token_sessions(1)) (simp add: stop_voice_session_def voice_token_def)
    then show ?thesis using below by auto
  qed
  then have "voice_token (recover_voice_session up r dev t c) \<noteq> voice_token c"
    using False recover by (auto simp: voice_token_def)
  then show ?thesis using good recover by (simp add: voice_follows_def)
qed

text \<open>Callbacks of the current session.\<close>

lemma add_tracks_effect:
  "set (keys ts) \<subseteq> set (keys (fold (\<lambda>mid ts. if mid \<in> set (keys ts) then ts else ts @ [(mid, x)]) mids ts)) \<and>
   (\<forall>m tr. map_of ts m = Some tr \<longrightarrow>
      map_of (fold (\<lambda>mid ts. if mid \<in> set (keys ts) then ts else ts @ [(mid, x)]) mids ts) m = Some tr)"
proof (induction mids arbitrary: ts)
  case (Cons mid mids)
  let ?ts = "if mid \<in> set (keys ts) then ts else ts @ [(mid, x)]"
  have step: "set (keys ts) \<subseteq> set (keys ?ts)" "\<And>m tr. map_of ts m = Some tr \<Longrightarrow> map_of ?ts m = Some tr"
    by (auto simp: map_add_def split: option.split)
  have rest: "fold (\<lambda>mid ts. if mid \<in> set (keys ts) then ts else ts @ [(mid, x)]) (mid # mids) ts =
      fold (\<lambda>mid ts. if mid \<in> set (keys ts) then ts else ts @ [(mid, x)]) mids ?ts" by simp
  show ?case unfolding rest using Cons.IH [of ?ts] step by blast
qed simp

lemma voice_good_session:
  assumes "voice_good c A S" and "\<And>t s. wc_voice c = Some (t, s) \<Longrightarrow>
      vs_pc (f s) = vs_pc s \<and> vs_started (f s) = vs_started s \<and>
      vs_microphone_track (f s) = vs_microphone_track s \<and>
      set (keys (vs_tracks s)) \<subseteq> set (keys (vs_tracks (f s))) \<and>
      (\<forall>m tr. map_of (vs_tracks s) m = Some tr \<longrightarrow> map_of (vs_tracks (f s)) m = Some tr)"
  shows "voice_good (c\<lparr>wc_voice := map_option (map_prod id f) (wc_voice c)\<rparr>) A S"
proof -
  have mic: "vs_microphone_track s = Some (\<not> wc_voice_muted c)" if "wc_voice c = Some (t, s)" for t s
    using assms(1) that by (simp add: voice_good_def voice_session_ok_def)
  have "volumes_ok (c\<lparr>wc_voice_muted := wc_voice_muted c, wc_voice := map_option (map_prod id f) (wc_voice c)\<rparr>) \<and>
    voice_session_ok (c\<lparr>wc_voice_muted := wc_voice_muted c, wc_voice := map_option (map_prod id f) (wc_voice c)\<rparr>) A S"
    by (rule voice_ok_session) (use assms mic in \<open>auto simp: voice_good_def\<close>)
  then show ?thesis by (simp add: voice_good_def)
qed

lemma put_voice_same:
  "wc_voice c = Some (t, s) \<Longrightarrow> put_voice s' c = c\<lparr>wc_voice := map_option (map_prod id (\<lambda>_. s')) (wc_voice c)\<rparr>"
  by (simp add: put_voice_def)

lemma described_good:
  assumes "voice_good c A S"
  shows "voice_good (voice_described t mids result c) A S \<and> voice_token (voice_described t mids result c) = voice_token c"
proof (cases "\<exists>s. wc_voice c = Some (t, s)")
  case True
  then obtain s where s: "wc_voice c = Some (t, s)" by blast
  obtain x s' where result: "voice_local_description mids result s = (x, s')" by fastforce
  have kept: "vs_pc s' = vs_pc s \<and> vs_started s' = vs_started s \<and> vs_microphone_track s' = vs_microphone_track s \<and>
      set (keys (vs_tracks s)) \<subseteq> set (keys (vs_tracks s')) \<and>
      (\<forall>m tr. map_of (vs_tracks s) m = Some tr \<longrightarrow> map_of (vs_tracks s') m = Some tr)"
  proof -
    consider "s' = s" | err where "s' = voice_report err s"
      | "s' = s\<lparr>vs_tracks := fold (\<lambda>mid ts. if mid \<in> set (keys ts) then ts else ts @ [(mid, new_audio_track)])
            mids (vs_tracks s)\<rparr>"
      using result by (auto simp: voice_local_description_def split: if_splits description_result.splits)
    then show ?thesis
    proof cases
      case 3
      then show ?thesis using add_tracks_effect [of "vs_tracks s" new_audio_track mids] by simp
    qed (simp_all add: voice_report_def)
  qed
  have "voice_good (put_voice s' c) A S"
    unfolding put_voice_same [OF s] by (rule voice_good_session [OF assms]) (use kept s in auto)
  moreover have "voice_part (voice_described t mids result c) = voice_part (put_voice s' c) \<and>
      wc_next_token (voice_described t mids result c) = wc_next_token (put_voice s' c)"
    using s result by (simp add: voice_described_def with_voice_def split: option.split)
  moreover have "voice_token (put_voice s' c) = voice_token c" by (simp add: voice_token_def put_voice_def option.map_comp comp_def)
  ultimately show ?thesis
    using voice_ok_part [of "voice_described t mids result c" "put_voice s' c" A S]
    by (simp add: voice_good_def voice_token_def voice_part_def)
next
  case False
  then have "voice_described t mids result c = c"
    by (auto simp: voice_described_def with_voice_def split: option.split)
  then show ?thesis using assms by simp
qed

lemma track_added_good:
  assumes "voice_good c A S" and "track_known (Ev_Voice_Track t mid audio) c"
  shows "voice_good (voice_track_added t mid audio c) (announced_after (Ev_Voice_Track t mid audio) c A)
      (stale_after (Ev_Voice_Track t mid audio) c S) \<and>
    voice_token (voice_track_added t mid audio c) = voice_token c"
proof (cases "announces (Ev_Voice_Track t mid audio) c")
  case None
  have "voice_part (voice_track_added t mid audio c) = voice_part c \<and>
      wc_next_token (voice_track_added t mid audio c) = wc_next_token c"
    using None
    by (auto simp: voice_track_added_def with_voice_def announces_def voice_on_track_def put_voice_def voice_part_def
        split: option.split if_splits)
  then show ?thesis using assms(1) None voice_ok_part [of "voice_track_added t mid audio c" c A S]
    by (simp add: announced_after_def stale_after_def voice_good_def voice_token_def voice_part_def)
next
  case (Some m)
  then obtain s where s: "wc_voice c = Some (t, s)" "vs_started s" "audio" "mid = Some m"
    by (auto simp: announces_def split: option.splits if_splits)
  let ?s = "attach_remote_audio_sink m s"
  let ?c = "put_voice ?s c"
  have known: "m \<in> set (keys (vs_tracks s))" using assms(2) Some s(1) by (simp add: track_known_def)
  have added: "voice_track_added t mid audio c = apply_voice (to_list (voice_update_locked ?c m)) ?c"
    using s by (simp add: voice_track_added_def with_voice_def voice_on_track_def Let_def)
  have same: "vs_pc ?s = vs_pc s" "vs_started ?s = vs_started s" "vs_microphone_track ?s = vs_microphone_track s"
    "vs_tracks ?s = vs_tracks s"
    by (simp_all add: attach_remote_audio_sink_def)
  have good: "voice_good ?c A S"
    unfolding put_voice_same [OF s(1)] by (rule voice_good_session [OF assms(1)]) (use s(1) same in auto)
  have vol: "volumes_ok ?c" using good by (simp add: voice_good_def)
  have "volumes_ok (apply_voice (to_list (voice_update_locked ?c m)) ?c) \<and>
      voice_session_ok (apply_voice (to_list (voice_update_locked ?c m)) ?c) (insert m A) (S - {m})"
  proof (rule voice_ok_update [OF vol])
    fix t' s' assume session: "wc_voice ?c = Some (t', s')"
    then have s': "s' = ?s" using s(1) by (simp add: put_voice_def)
    have "m \<in> set (keys (vs_tracks s'))" using known s' same(4) by simp
    with session good show "t' < wc_next_token ?c \<and> wc_voice_requested ?c \<and> vs_pc s' \<and> vs_started s' \<and>
        vs_microphone_track s' = Some (\<not> wc_voice_muted ?c) \<and>
        insert m A \<subseteq> set (keys (vs_tracks s')) \<and> S - {m} \<subseteq> set (keys (wc_voice_bindings ?c)) \<and>
        (\<forall>k\<in>insert m A - S - {m}. \<forall>tr. map_of (vs_tracks s') k = Some tr \<longrightarrow> follows (voice_wanted ?c k) tr)"
      unfolding voice_good_def voice_session_ok_def by blast
  qed
  moreover have "voice_token (apply_voice us ?c) = voice_token c" for us
    by (simp add: voice_token_def apply_voice_def put_voice_def option.map_comp comp_def)
  ultimately show ?thesis using Some
    by (simp add: added announced_after_def stale_after_def voice_good_def)
qed

lemma binding_good:
  assumes "voice_good c A S"
  shows "voice_good (apply_binding Voice mid peer c) A (S - {mid}) \<and>
    voice_token (apply_binding Voice mid peer c) = voice_token c"
proof -
  let ?c = "c\<lparr>wc_voice_bindings := bind_mid mid peer (wc_voice_bindings c)\<rparr>"
  have vol: "volumes_ok ?c" using assms volumes_ok_part [of ?c c] by (simp add: voice_good_def)
  have other: "map_of (bind_mid mid peer (wc_voice_bindings c)) m = map_of (wc_voice_bindings c) m" if "m \<noteq> mid" for m
    using that by (simp add: bind_mid_def map_of_update map_of_delete split: option.split)
  have wanted: "voice_wanted ?c m = voice_wanted c m" if "m \<noteq> mid" for m
    using other [OF that] by (simp add: voice_wanted_def peer_muted_def peer_volume_def split: option.split)
  have bound: "m \<in> set (keys (wc_voice_bindings ?c))" if "m \<in> set (keys (wc_voice_bindings c))" "m \<noteq> mid" for m
  proof -
    have "map_of (bind_mid mid peer (wc_voice_bindings c)) m \<noteq> None"
      using that(1) other [OF that(2)] map_of_None_keys [of "wc_voice_bindings c" m] by metis
    then have "m \<in> set (keys (bind_mid mid peer (wc_voice_bindings c)))"
      using map_of_None_keys [of "bind_mid mid peer (wc_voice_bindings c)" m] by metis
    then show ?thesis by simp
  qed
  have "volumes_ok (apply_voice (to_list (voice_update_locked ?c mid)) ?c) \<and>
      voice_session_ok (apply_voice (to_list (voice_update_locked ?c mid)) ?c) A (S - {mid})"
  proof (rule voice_ok_update [OF vol])
    fix t s assume "wc_voice ?c = Some (t, s)"
    then have before: "t < wc_next_token c" "wc_voice_requested c" "vs_pc s" "vs_started s"
      "vs_microphone_track s = Some (\<not> wc_voice_muted c)" "A \<subseteq> set (keys (vs_tracks s))"
      "S \<subseteq> set (keys (wc_voice_bindings c))"
      "\<forall>m\<in>A - S. \<forall>tr. map_of (vs_tracks s) m = Some tr \<longrightarrow> follows (voice_wanted c m) tr"
      using assms by (simp_all add: voice_good_def voice_session_ok_def)
    have "S - {mid} \<subseteq> set (keys (wc_voice_bindings ?c))" using before(7) bound by blast
    moreover have "follows (voice_wanted ?c m) tr"
      if "m \<in> A - S - {mid}" "map_of (vs_tracks s) m = Some tr" for m tr
    proof -
      have m: "m \<noteq> mid" "m \<in> A - S" using that(1) by auto
      show ?thesis unfolding wanted [OF m(1)] using before(8) that(2) m(2) by blast
    qed
    moreover have "t < wc_next_token ?c" "wc_voice_requested ?c" "vs_microphone_track s = Some (\<not> wc_voice_muted ?c)"
      using before by simp_all
    ultimately show "t < wc_next_token ?c \<and> wc_voice_requested ?c \<and> vs_pc s \<and> vs_started s \<and>
        vs_microphone_track s = Some (\<not> wc_voice_muted ?c) \<and>
        A \<subseteq> set (keys (vs_tracks s)) \<and> S - {mid} \<subseteq> set (keys (wc_voice_bindings ?c)) \<and>
        (\<forall>m\<in>A - S - {mid}. \<forall>tr. map_of (vs_tracks s) m = Some tr \<longrightarrow> follows (voice_wanted ?c m) tr)"
      using before(3,4,6) by blast
  qed
  then show ?thesis
    by (simp add: apply_binding_def Let_def voice_good_def)
      (simp add: voice_token_def apply_voice_def option.map_comp comp_def)
qed

lemma remove_peer_good:
  assumes "voice_good c A S"
  shows "voice_good (remove_peer p c) A (S \<union> {m. map_of (wc_voice_bindings c) m = Some p}) \<and>
    voice_token (remove_peer p c) = voice_token c"
proof -
  let ?c = "c\<lparr>wc_voice_peer_volumes := AList.delete p (wc_voice_peer_volumes c),
          wc_voice_peer_muted := AList.delete p (wc_voice_peer_muted c),
          wc_screen_peer_volumes := AList.delete p (wc_screen_peer_volumes c)\<rparr>"
  let ?S = "S \<union> {m. map_of (wc_voice_bindings c) m = Some p}"
  have volume: "peer_volume q ?c = (if q = p then 1 else peer_volume q c)"
    and muted: "peer_muted q ?c = (if q = p then False else peer_muted q c)" for q
    by (simp_all add: peer_volume_def peer_muted_def map_of_delete)
  have vol: "volumes_ok ?c" using assms by (simp add: voice_good_def volumes_ok_def volume)
  have wanted: "voice_wanted ?c m = voice_wanted c m" if "map_of (wc_voice_bindings c) m \<noteq> Some p" for m
    using that by (auto simp: voice_wanted_def volume muted split: option.split)
  have "voice_session_ok ?c A ?S"
    unfolding voice_session_ok_def
  proof (intro allI impI)
    fix t s assume "wc_voice ?c = Some (t, s)"
    then have before: "t < wc_next_token c" "wc_voice_requested c" "vs_pc s" "vs_started s"
      "vs_microphone_track s = Some (\<not> wc_voice_muted c)" "A \<subseteq> set (keys (vs_tracks s))"
      "S \<subseteq> set (keys (wc_voice_bindings c))"
      "\<forall>m\<in>A - S. \<forall>tr. map_of (vs_tracks s) m = Some tr \<longrightarrow> follows (voice_wanted c m) tr"
      using assms by (simp_all add: voice_good_def voice_session_ok_def)
    have "?S \<subseteq> set (keys (wc_voice_bindings c))"
    proof
      fix m assume "m \<in> ?S"
      then show "m \<in> set (keys (wc_voice_bindings c))"
        using before(7) map_of_None_keys [of "wc_voice_bindings c" m] by auto
    qed
    moreover have "follows (voice_wanted ?c m) tr" if "m \<in> A - ?S" "map_of (vs_tracks s) m = Some tr" for m tr
    proof -
      have unbound: "map_of (wc_voice_bindings c) m \<noteq> Some p" and m: "m \<in> A - S" using that(1) by auto
      show ?thesis unfolding wanted [OF unbound] using before(8) that(2) m by blast
    qed
    ultimately show "t < wc_next_token ?c \<and> wc_voice_requested ?c \<and> vs_pc s \<and> vs_started s \<and>
        vs_microphone_track s = Some (\<not> wc_voice_muted ?c) \<and> A \<subseteq> set (keys (vs_tracks s)) \<and>
        ?S \<subseteq> set (keys (wc_voice_bindings ?c)) \<and>
        (\<forall>m\<in>A - ?S. \<forall>tr. map_of (vs_tracks s) m = Some tr \<longrightarrow> follows (voice_wanted ?c m) tr)"
      using before(1-6) by simp
  qed
  with vol have "voice_follows ?c (remove_peer p c) A ?S"
    by (intro voice_follows_same) (simp_all add: voice_good_def remove_peer_def peer_stopped_streaming_def Let_def)
  moreover have "voice_token (remove_peer p c) = voice_token ?c" "voice_token ?c = voice_token c"
  proof -
    have "voice_part (remove_peer p c) = voice_part ?c" by (simp add: remove_peer_def)
    then show "voice_token (remove_peer p c) = voice_token ?c" by (simp add: voice_token_def voice_part_def)
    show "voice_token ?c = voice_token c" by (simp add: voice_token_def)
  qed
  ultimately show ?thesis by (simp add: voice_follows_def)
qed

lemma set_muted_good:
  assumes "voice_good c A S"
  shows "voice_good (set_muted b c) A S \<and> voice_token (set_muted b c) = voice_token c"
proof -
  have mic: "vs_microphone_track s = Some (\<not> wc_voice_muted c)" if "wc_voice c = Some (t, s)" for t s
    using assms that unfolding voice_good_def voice_session_ok_def by blast
  have "volumes_ok (c\<lparr>wc_voice_muted := b, wc_voice := map_option (map_prod id (voice_set_microphone_enabled (\<not> b))) (wc_voice c)\<rparr>) \<and>
    voice_session_ok (c\<lparr>wc_voice_muted := b, wc_voice := map_option (map_prod id (voice_set_microphone_enabled (\<not> b))) (wc_voice c)\<rparr>) A S"
  proof (rule voice_ok_session)
    fix t s assume "wc_voice c = Some (t, s)"
    from mic [OF this] show "vs_pc (voice_set_microphone_enabled (\<not> b) s) = vs_pc s \<and>
        vs_started (voice_set_microphone_enabled (\<not> b) s) = vs_started s \<and>
        vs_microphone_track (voice_set_microphone_enabled (\<not> b) s) =
          (if vs_microphone_track s = None then None else Some (\<not> b)) \<and>
        set (keys (vs_tracks s)) \<subseteq> set (keys (vs_tracks (voice_set_microphone_enabled (\<not> b) s))) \<and>
        (\<forall>m tr. map_of (vs_tracks s) m = Some tr \<longrightarrow>
           map_of (vs_tracks (voice_set_microphone_enabled (\<not> b) s)) m = Some tr)"
      by (simp add: voice_set_microphone_enabled_def)
  qed (use assms in \<open>simp add: voice_good_def\<close>)
  then show ?thesis
    by (simp add: set_muted_def voice_good_def voice_token_def option.map_comp comp_def)
qed

lemma answer_good:
  assumes "voice_good c A S"
  shows "voice_good (client_apply_answer connection b c) A S \<and>
      voice_token (client_apply_answer connection b c) = voice_token c"
    and "voice_good (client_apply_candidate connection b c) A S \<and>
      voice_token (client_apply_candidate connection b c) = voice_token c"
proof -
  have screen: "voice_good c' A S \<and> voice_token c' = voice_token c"
    if "voice_part c' = voice_part c" "wc_next_token c' = wc_next_token c" for c'
    using that voice_ok_part [of c' c A S] assms by (simp add: voice_good_def voice_token_def voice_part_def)
  have answer: "voice_good (c\<lparr>wc_voice := map_option (map_prod id (voice_apply_answer b)) (wc_voice c)\<rparr>) A S"
    by (rule voice_good_session [OF assms]) (simp add: voice_apply_answer_def voice_report_def)
  have candidate: "voice_good (c\<lparr>wc_voice := map_option (map_prod id (voice_add_remote_candidate b)) (wc_voice c)\<rparr>) A S"
    by (rule voice_good_session [OF assms]) (simp add: voice_add_remote_candidate_def voice_report_def)
  show "voice_good (client_apply_answer connection b c) A S \<and>
      voice_token (client_apply_answer connection b c) = voice_token c"
  proof (cases connection)
    case Voice
    then show ?thesis using answer by (simp add: client_apply_answer_def voice_token_def option.map_comp comp_def)
  next
    case Screen
    show ?thesis by (rule screen) (simp_all add: Screen client_apply_answer_def)
  qed
  show "voice_good (client_apply_candidate connection b c) A S \<and>
      voice_token (client_apply_candidate connection b c) = voice_token c"
  proof (cases connection)
    case Voice
    then show ?thesis using candidate by (simp add: client_apply_candidate_def voice_token_def option.map_comp comp_def)
  next
    case Screen
    show ?thesis by (rule screen) (simp_all add: Screen client_apply_candidate_def)
  qed
qed

lemma stop_voice_follows:
  assumes "voice_good c A S" and "wc_voice c' = None" and "wc_master_volume c' = wc_master_volume c"
    and "wc_voice_peer_volumes c' = wc_voice_peer_volumes c"
  shows "voice_follows c c' A S"
  using assms volumes_ok_part [of c' c] voice_good_None [of c'] by (simp add: voice_follows_def voice_good_def)

lemma voice_follows_kept:
  "voice_good c' A S \<and> voice_token c' = voice_token c \<Longrightarrow> voice_follows c c' A S"
  by (simp add: voice_follows_def)

lemma recovery_follows:
  assumes "voice_good c A S"
  shows "voice_follows c (run_recovery up r dev plays r' native begins audio local_id c) A S"
proof (cases "wc_recovery_queue c")
  case Nil
  then show ?thesis using assms by (simp add: run_recovery_def voice_follows_same)
next
  case (Cons task tasks)
  let ?c = "c\<lparr>wc_recovery_queue := tasks\<rparr>"
  have good: "voice_good ?c A S"
    using assms voice_ok_part [of ?c c A S] by (simp add: voice_good_def)
  have token: "voice_token ?c = voice_token c" by (simp add: voice_token_def)
  show ?thesis
  proof (cases task)
    case (Recover_Voice t)
    have "voice_follows ?c (recover_voice_session up r dev t ?c) A S" by (rule recover_voice_follows [OF good])
    then show ?thesis using token by (simp add: run_recovery_def Cons Recover_Voice voice_follows_def)
  next
    case (Recover_Screen t)
    have "voice_follows ?c (recover_screen_session up plays r' native begins audio local_id t ?c) A S"
      by (rule voice_follows_same [OF good]) (simp_all add: next_token_recover(2) [of ?c, simplified])
    then show ?thesis using token by (simp add: run_recovery_def Cons Recover_Screen voice_follows_def)
  qed
qed

lemma signaling_follows:
  assumes "voice_good c A S"
  shows "voice_follows c (on_signaling_state b r dev plays r' c) A S"
proof (cases b)
  case True
  have "voice_follows c (start_voice_if_requested True r dev c) A S" by (rule start_voice_follows [OF assms])
  then show ?thesis
    using voice_follows_trans_part [of c "start_voice_if_requested True r dev c" A S
        "start_screen_if_requested True plays r' (start_voice_if_requested True r dev c)"] next_token_sessions(6)
    by (simp add: on_signaling_state_def True)
next
  case False
  have part: "voice_part (stop_screen_session (stop_voice_session c)) = voice_part (stop_voice_session c)" by simp
  show ?thesis
    by (rule stop_voice_follows [OF assms]) (use False part in \<open>simp_all add: on_signaling_state_def voice_part_def stop_voice_session_def\<close>)
qed

lemma start_event_follows:
  assumes "voice_good c A S"
  shows "voice_follows c (start_voice up r dev c) A S"
proof -
  let ?c = "c\<lparr>wc_voice_requested := True\<rparr>"
  have wanted: "voice_wanted ?c m = voice_wanted c m" for m
    by (simp add: voice_wanted_def peer_muted_def peer_volume_def split: option.split)
  have "voice_good ?c A S" using assms volumes_ok_part [of ?c c] by (simp add: voice_good_def voice_session_ok_def wanted)
  then have "voice_follows ?c (start_voice_if_requested up r dev ?c) A S" by (rule start_voice_follows)
  then show ?thesis by (simp add: voice_follows_def start_voice_def voice_token_def)
qed

text \<open>One step, by the kind of event.\<close>

definition good_after :: "(json \<Rightarrow> string) \<Rightarrow> client_event \<Rightarrow> client \<Rightarrow> string set \<Rightarrow> string set \<Rightarrow> bool" where
  "good_after dump ev c A S \<longleftrightarrow>
     voice_good (client_step dump ev c)
       (if voice_token (client_step dump ev c) = voice_token c then announced_after ev c A else {})
       (if voice_token (client_step dump ev c) = voice_token c then stale_after ev c S else {})"

lemmas ghost_defs = announced_after_def announces_def stale_after_def

lemma step_plain:
  assumes "voice_follows c (client_step dump ev c) A S" and "announces ev c = None" and "stale_after ev c S = S"
  shows "good_after dump ev c A S"
proof -
  have "announced_after ev c A = A" using assms(2) by (simp add: announced_after_def)
  with assms(1,3) show ?thesis unfolding good_after_def voice_follows_def by metis
qed

lemma step_kept:
  assumes "voice_good (client_step dump ev c) (announced_after ev c A) (stale_after ev c S) \<and>
    voice_token (client_step dump ev c) = voice_token c"
  shows "good_after dump ev c A S"
  using assms by (simp add: good_after_def)

lemma settings_token:
  "voice_token (set_deafened b c) = voice_token c" "voice_token (set_master_volume v c) = voice_token c"
  "voice_token (set_peer_volume p v c) = voice_token c" "voice_token (set_peer_muted p b c) = voice_token c"
  by (simp_all add: voice_token_def set_deafened_def set_master_volume_def set_peer_volume_def set_peer_muted_def
      refresh_voice_def apply_voice_def Let_def option.map_comp comp_def)

lemma settings_step:
  assumes "voice_good c A S"
  shows "good_after dump (Ev_Set_Deafened b) c A S" "good_after dump (Ev_Set_Master_Volume v) c A S"
    "good_after dump (Ev_Set_Peer_Volume p v) c A S" "good_after dump (Ev_Set_Peer_Muted p b) c A S"
  using voice_settings_ok [of c A S, OF assms [unfolded voice_good_def]] settings_token
  by (auto intro!: step_kept simp: voice_good_def ghost_defs)

lemma track_step:
  assumes "voice_good c A S"
  shows "track_known (Ev_Voice_Track t mid audio) c \<Longrightarrow> good_after dump (Ev_Voice_Track t mid audio) c A S"
    "good_after dump (Ev_Binding connection mid' peer) c A S" "good_after dump (Ev_Remove_Peer p) c A S"
    "good_after dump (Ev_Set_Muted b) c A S" "good_after dump (Ev_Voice_Described t mids result) c A S"
    "good_after dump (Ev_Answer connection b) c A S" "good_after dump (Ev_Candidate connection b) c A S"
proof -
  show "track_known (Ev_Voice_Track t mid audio) c \<Longrightarrow> good_after dump (Ev_Voice_Track t mid audio) c A S"
    by (rule step_kept) (simp add: track_added_good [OF assms])
  show "good_after dump (Ev_Binding connection mid' peer) c A S"
  proof (cases connection)
    case Voice
    show ?thesis by (rule step_kept) (use binding_good [OF assms] in \<open>simp add: Voice ghost_defs\<close>)
  next
    case Screen
    have "voice_follows c (client_step dump (Ev_Binding connection mid' peer) c) A S"
      by (rule voice_follows_same [OF assms _ next_token_mono]) (simp add: Screen apply_binding_def Let_def)
    then show ?thesis by (rule step_plain) (simp_all add: Screen ghost_defs)
  qed
  show "good_after dump (Ev_Remove_Peer p) c A S"
    by (rule step_kept) (use remove_peer_good [OF assms] in \<open>simp add: ghost_defs\<close>)
  show "good_after dump (Ev_Set_Muted b) c A S"
    by (rule step_kept) (use set_muted_good [OF assms] in \<open>simp add: ghost_defs\<close>)
  show "good_after dump (Ev_Voice_Described t mids result) c A S"
    by (rule step_kept) (use described_good [OF assms] in \<open>simp add: ghost_defs\<close>)
  show "good_after dump (Ev_Answer connection b) c A S"
    by (rule step_kept) (use answer_good(1) [OF assms] in \<open>simp add: ghost_defs\<close>)
  show "good_after dump (Ev_Candidate connection b) c A S"
    by (rule step_kept) (use answer_good(2) [OF assms] in \<open>simp add: ghost_defs\<close>)
qed

lemma session_step:
  assumes "voice_good c A S"
  shows "good_after dump (Ev_Start_Voice up r dev) c A S" "good_after dump Ev_Stop_Voice c A S"
    "good_after dump (Ev_Signaling b r dev plays r') c A S" "good_after dump Ev_Destroy c A S"
    "good_after dump (Ev_Recovery up r dev plays r' native begins audio local_id) c A S"
proof -
  show "good_after dump (Ev_Start_Voice up r dev) c A S"
    by (rule step_plain) (use start_event_follows [OF assms] in \<open>simp_all add: ghost_defs\<close>)
  show "good_after dump Ev_Stop_Voice c A S"
    by (rule step_plain, rule stop_voice_follows [OF assms])
      (simp_all add: ghost_defs stop_voice_def stop_voice_session_def)
  show "good_after dump (Ev_Signaling b r dev plays r') c A S"
    by (rule step_plain) (use signaling_follows [OF assms] in \<open>simp_all add: ghost_defs\<close>)
  have "voice_part (stop_screen_session x) = voice_part x" for x by simp
  from this [of "stop_recovery c"] show "good_after dump Ev_Destroy c A S"
    by (intro step_plain stop_voice_follows [OF assms])
      (simp_all add: ghost_defs client_destroy_def stop_voice_session_def Let_def voice_part_def stop_recovery_def)
  show "good_after dump (Ev_Recovery up r dev plays r' native begins audio local_id) c A S"
    by (rule step_plain) (use recovery_follows [OF assms] in \<open>simp_all add: ghost_defs\<close>)
qed

lemma part_step:
  "voice_good c A S \<Longrightarrow> voice_part (client_step dump ev c) = voice_part c \<Longrightarrow> announces ev c = None \<Longrightarrow>
   stale_after ev c S = S \<Longrightarrow> good_after dump ev c A S"
  by (rule step_plain [OF voice_follows_same [OF _ _ next_token_mono]])

lemma voice_step:
  assumes "voice_good c A S" and "track_known ev c"
  shows "good_after dump ev c A S"
  using assms(2)
  by (cases ev; hypsubst?)
    (rule settings_step [OF assms(1)] session_step [OF assms(1)] track_step(2-7) [OF assms(1)] |
     erule track_step(1) [OF assms(1)] |
     (rule part_step [OF assms(1)]; simp add: ghost_defs))+

lemma voice_good_run: "client_run dump c A S \<Longrightarrow> voice_good c A S"
proof (induction rule: client_run.induct)
  case (start on_frame on_frame_removed)
  show ?case by (rule voice_good_None) (simp_all add: new_client_def volumes_ok_def peer_volume_def)
next
  case (step c A S ev c')
  then show ?case using voice_step [of c A S ev dump] by (simp add: good_after_def)
qed


section \<open>Statistics of a closed session\<close>

text \<open>Tokens are never used again.\<close>

definition token_fresh :: "client \<Rightarrow> client \<Rightarrow> bool" where
  "token_fresh c c' \<longleftrightarrow>
     voice_token c' = voice_token c \<or> voice_token c' = None \<or> (\<exists>t\<ge>wc_next_token c. voice_token c' = Some t)"

lemma token_fresh_start: "token_fresh c (start_voice_if_requested up r dev c)"
proof (cases "voice_begin up c")
  case (Some microphone)
  obtain ok s where made: "voice_make r microphone = (ok, s)" by fastforce
  have "voice_token (voice_commit up t s c') \<in> {Some t, voice_token c'}" for t c'
    by (simp add: voice_commit_def voice_token_def refresh_voice_def apply_voice_def)
  moreover have "voice_token (apply_selected_audio_devices dev c') = voice_token c'" for c'
    using voice_part_requests(4) [of dev c'] by (simp add: voice_token_def voice_part_def)
  moreover have "voice_token (c\<lparr>wc_next_token := n\<rparr>) = voice_token c" for n by (simp add: voice_token_def)
  ultimately show ?thesis using Some made
    by (auto simp: start_voice_if_requested_def Let_def token_fresh_def) fastforce+
qed (simp add: start_voice_if_requested_def token_fresh_def)

lemma token_fresh_part: "voice_part c' = voice_part c \<Longrightarrow> token_fresh c c'"
  by (simp add: token_fresh_def voice_token_def voice_part_def)

end
