(* ===== verification/Webrtc_Voice_Faults.thy ===== *)
theory Webrtc_Voice_Faults
  imports Webrtc_Voice
begin

text \<open>
  Two things that go wrong on the voice side of the media client: statistics that are asked for while
  the session is closed, and muting while a session is being made.
\<close>

section \<open>Tokens of closed sessions\<close>

lemma token_fresh_recover: "token_fresh c (recover_voice_session up r dev t c)"
proof -
  have "token_fresh (stop_voice_session c) (start_voice_if_requested up r dev (stop_voice_session c))"
    by (rule token_fresh_start)
  then have "voice_token (start_voice_if_requested up r dev (stop_voice_session c)) = None \<or>
      (\<exists>t\<ge>wc_next_token c. voice_token (start_voice_if_requested up r dev (stop_voice_session c)) = Some t)"
    by (simp add: token_fresh_def next_token_sessions(1)) (simp add: stop_voice_session_def voice_token_def)
  then show ?thesis by (cases up) (simp_all add: recover_voice_session_def token_fresh_def)
qed

lemma token_fresh_sessions:
  "token_fresh c (start_voice up r dev c)" "token_fresh c (on_signaling_state b r dev plays r' c)"
  "token_fresh c (run_recovery up r dev plays r' native begins audio local_id c)"
proof -
  show "token_fresh c (start_voice up r dev c)"
    using token_fresh_start [of "c\<lparr>wc_voice_requested := True\<rparr>" up r dev]
    by (simp add: start_voice_def token_fresh_def voice_token_def)
  have screen: "voice_token (start_screen_if_requested up plays r' x) = voice_token x"
    "voice_token (stop_screen_session x) = voice_token x" for up x
    using voice_part_screen_session(2) [of up plays r' x] voice_part_screen_session(3) [of x]
    by (simp_all add: voice_token_def voice_part_def)
  show "token_fresh c (on_signaling_state b r dev plays r' c)"
    using token_fresh_start [of c True r dev]
    by (simp add: on_signaling_state_def token_fresh_def screen) (simp add: stop_voice_session_def voice_token_def)
  have queue: "voice_token (c\<lparr>wc_recovery_queue := tasks\<rparr>) = voice_token c" for tasks by (simp add: voice_token_def)
  show "token_fresh c (run_recovery up r dev plays r' native begins audio local_id c)"
  proof (cases "wc_recovery_queue c")
    case (Cons task tasks)
    let ?c = "c\<lparr>wc_recovery_queue := tasks\<rparr>"
    have "token_fresh ?c (recover_screen_session up plays r' native begins audio local_id t ?c)" for t
      by (rule token_fresh_part) simp
    then have "token_fresh ?c (run_recovery up r dev plays r' native begins audio local_id c)"
      using token_fresh_recover [of ?c up r dev] by (simp add: run_recovery_def Cons Let_def split: recovery_task.split)
    then show ?thesis by (simp add: token_fresh_def queue)
  qed (simp add: run_recovery_def token_fresh_def)
qed

lemma token_kept:
  "voice_token (stop_voice c) = None" "voice_token (client_destroy c) = None"
  "voice_token (set_muted b c) = voice_token c" "voice_token (voice_described t mids result c) = voice_token c"
  "voice_token (voice_track_added t mid audio c) = voice_token c"
  "voice_token (client_apply_answer connection b c) = voice_token c"
  "voice_token (client_apply_candidate connection b c) = voice_token c"
  "voice_token (apply_binding connection mid' peer c) = voice_token c"
  "voice_token (remove_peer p c) = voice_token c"
proof -
  have stop: "wc_voice (stop_voice_session x) = None" for x by (simp add: stop_voice_session_def)
  show "voice_token (stop_voice c) = None" by (simp add: stop_voice_def voice_token_def stop)
  show "voice_token (client_destroy c) = None" by (simp add: client_destroy_def voice_token_def stop Let_def)
  show "voice_token (set_muted b c) = voice_token c"
    by (simp add: set_muted_def voice_token_def option.map_comp comp_def)
  show "voice_token (voice_described t mids result c) = voice_token c"
    by (auto simp: voice_described_def with_voice_def put_voice_def send_def voice_token_def split: option.split prod.split)
  show "voice_token (voice_track_added t mid audio c) = voice_token c"
    by (auto simp: voice_track_added_def with_voice_def put_voice_def apply_voice_def voice_token_def Let_def
        split: option.split prod.split)
  show "voice_token (client_apply_answer connection b c) = voice_token c"
    by (cases connection) (simp_all add: client_apply_answer_def voice_token_def option.map_comp comp_def)
  show "voice_token (client_apply_candidate connection b c) = voice_token c"
    by (cases connection) (simp_all add: client_apply_candidate_def voice_token_def option.map_comp comp_def)
  show "voice_token (apply_binding connection mid' peer c) = voice_token c"
    by (cases connection) (simp_all add: apply_binding_def voice_token_def apply_voice_def apply_screen_def
        frame_removed_def Let_def option.map_comp comp_def)
  have "voice_part (peer_stopped_streaming p x) = voice_part x" for x by simp
  then show "voice_token (remove_peer p c) = voice_token c"
    by (simp add: remove_peer_def voice_token_def voice_part_def)
qed

lemma token_fresh_step: "token_fresh c (client_step dump ev c)"
proof -
  have kept: "token_fresh c c'" if "voice_token c' = voice_token c \<or> voice_token c' = None" for c'
    using that by (auto simp: token_fresh_def)
  show ?thesis
    by (cases ev; hypsubst?)
      (simp_all only: client_step.simps token_fresh_sessions,
       (rule kept; simp add: token_kept settings_token; fail | rule token_fresh_part; simp)+)
qed

section \<open>Statistics that are never answered\<close>

definition stats_part :: "client \<Rightarrow> voice_statistics option \<times> bool" where
  "stats_part c = (wc_voice_stats c, wc_voice_stats_in_flight c)"

lemma stats_part_fields [simp]:
  "stats_part (c\<lparr>wc_voice := x0\<rparr>) = stats_part c"
  "stats_part (c\<lparr>wc_screen := x1\<rparr>) = stats_part c"
  "stats_part (c\<lparr>wc_next_token := x2\<rparr>) = stats_part c"
  "stats_part (c\<lparr>wc_system_audio_capture := x3\<rparr>) = stats_part c"
  "stats_part (c\<lparr>wc_voice_bindings := x4\<rparr>) = stats_part c"
  "stats_part (c\<lparr>wc_screen_bindings := x5\<rparr>) = stats_part c"
  "stats_part (c\<lparr>wc_screen_video_mids := x6\<rparr>) = stats_part c"
  "stats_part (c\<lparr>wc_screen_audio_mids := x7\<rparr>) = stats_part c"
  "stats_part (c\<lparr>wc_watched_peers := x8\<rparr>) = stats_part c"
  "stats_part (c\<lparr>wc_voice_peer_volumes := x9\<rparr>) = stats_part c"
  "stats_part (c\<lparr>wc_voice_peer_muted := x10\<rparr>) = stats_part c"
  "stats_part (c\<lparr>wc_screen_peer_volumes := x11\<rparr>) = stats_part c"
  "stats_part (c\<lparr>wc_system_audio_frame := x12\<rparr>) = stats_part c"
  "stats_part (c\<lparr>wc_input_device := x13\<rparr>) = stats_part c"
  "stats_part (c\<lparr>wc_output_device := x14\<rparr>) = stats_part c"
  "stats_part (c\<lparr>wc_master_volume := x15\<rparr>) = stats_part c"
  "stats_part (c\<lparr>wc_voice_requested := x16\<rparr>) = stats_part c"
  "stats_part (c\<lparr>wc_voice_muted := x17\<rparr>) = stats_part c"
  "stats_part (c\<lparr>wc_voice_deafened := x18\<rparr>) = stats_part c"
  "stats_part (c\<lparr>wc_screen_requested := x19\<rparr>) = stats_part c"
  "stats_part (c\<lparr>wc_sharing_active := x20\<rparr>) = stats_part c"
  "stats_part (c\<lparr>wc_sharing_request := x21\<rparr>) = stats_part c"
  "stats_part (c\<lparr>wc_local_preview_enabled := x22\<rparr>) = stats_part c"
  "stats_part (c\<lparr>wc_local_preview_peer := x23\<rparr>) = stats_part c"
  "stats_part (c\<lparr>wc_screen_stats := x24\<rparr>) = stats_part c"
  "stats_part (c\<lparr>wc_recovery_queue := x25\<rparr>) = stats_part c"
  "stats_part (c\<lparr>wc_recovery_scheduled := x26\<rparr>) = stats_part c"
  "stats_part (c\<lparr>wc_recovery_stopping := x27\<rparr>) = stats_part c"
  "stats_part (c\<lparr>wc_playout := x28\<rparr>) = stats_part c"
  "stats_part (c\<lparr>wc_on_frame := x29\<rparr>) = stats_part c"
  "stats_part (c\<lparr>wc_on_frame_removed := x30\<rparr>) = stats_part c"
  "stats_part (c\<lparr>wc_sent := x31\<rparr>) = stats_part c"
  "stats_part (c\<lparr>wc_frames := x32\<rparr>) = stats_part c"
  "stats_part (c\<lparr>wc_submitted := x33\<rparr>) = stats_part c"
  by (simp_all add: stats_part_def)

lemma stats_part_helpers [simp]:
  "stats_part (send m c) = stats_part c" "stats_part (frame_removed p c) = stats_part c"
  "stats_part (show_frame p c) = stats_part c" "stats_part (apply_screen us c) = stats_part c"
  "stats_part (refresh_screen c) = stats_part c" "stats_part (put_screen s' c) = stats_part c"
  "stats_part (apply_voice us c) = stats_part c" "stats_part (refresh_voice c) = stats_part c"
  "stats_part (put_voice s c) = stats_part c"
  by (simp_all add: send_def frame_removed_def show_frame_def apply_screen_def refresh_screen_def
      put_screen_def apply_voice_def refresh_voice_def put_voice_def)

lemma stats_part_folds [simp]:
  "stats_part (fold (\<lambda>p. send (WatchStart p)) ps c) = stats_part c"
  "stats_part (fold (\<lambda>p. send (WatchStop p)) ps c) = stats_part c"
  "stats_part (fold frame_removed ps c) = stats_part c"
  "stats_part (fold submit_sample xs c) = stats_part c"
  by (rule fold_same; simp add: submit_sample_def Let_def)+

lemma stats_part_sessions:
  "stats_part (start_voice_if_requested up r dev c) = stats_part c"
  "stats_part (start_screen_if_requested up plays r' c) = stats_part c"
  "stats_part (stop_screen_session c) = stats_part c" "stats_part (stop_sharing c) = stats_part c"
  "stats_part (snd (apply_sharing native begins audio local_id q c)) = stats_part c"
  "stats_part (stop_voice_session c) = (None, wc_voice_stats_in_flight c)"
proof -
  show "stats_part (stop_voice_session c) = (None, wc_voice_stats_in_flight c)"
    by (simp add: stop_voice_session_def stats_part_def)
qed (simp_all add: stop_screen_session_def stop_sharing_def apply_sharing_def
      start_voice_if_requested_def voice_commit_def apply_selected_audio_devices_def
      start_screen_if_requested_def screen_commit_def Let_def split: option.split prod.split)

text \<open>The client waits for an answer and has no statistics to show.\<close>

definition stuck :: "client \<Rightarrow> bool" where
  "stuck c \<longleftrightarrow> stats_part c = (None, True)"

lemma stuck_part: "stuck c \<Longrightarrow> stats_part c' = stats_part c \<Longrightarrow> stuck c'"
  by (simp add: stuck_def)

lemma stuck_stop: "stuck c \<Longrightarrow> stuck (stop_voice_session c)"
  by (simp add: stuck_def stats_part_sessions(6)) (simp add: stats_part_def)

lemma stuck_share: "stuck c \<Longrightarrow> stuck (share native begins audio local_id q c)"
  using stats_part_sessions(5) [of native begins audio local_id q c]
  by (cases "apply_sharing native begins audio local_id q c") (simp add: share_def stuck_def)

lemma stuck_recover:
  assumes "stuck c"
  shows "stuck (recover_voice_session up r dev t c)"
    and "stuck (recover_screen_session up plays r' native begins audio local_id t c)"
proof -
  show "stuck (recover_voice_session up r dev t c)"
    using assms stuck_stop [OF assms] by (simp add: recover_voice_session_def stuck_def stats_part_sessions)
  have sharing: "stats_part c' = stats_part x" if "apply_sharing native begins audio local_id q x = (ok, c')" for q x ok c'
    using that stats_part_sessions(5) [of native begins audio local_id q x] by simp
  have "stats_part (recover_screen_session up plays r' native begins audio local_id t c) = stats_part c"
    by (auto simp: recover_screen_session_def Let_def stats_part_sessions dest!: sharing split: option.split prod.split)
  with assms show "stuck (recover_screen_session up plays r' native begins audio local_id t c)" by (rule stuck_part)
qed

lemma stuck_request: "stuck c \<Longrightarrow> request_voice_stats c = c"
  by (simp add: stuck_def stats_part_def request_voice_stats_def)

lemma stuck_sessions:
  assumes "stuck c"
  shows "stuck (start_voice up r dev c)" "stuck (stop_voice c)" "stuck (on_signaling_state b r dev plays r' c)"
    "stuck (run_recovery up r dev plays r' native begins audio local_id c)" "stuck (client_destroy c)"
    "stuck (snd (voice_stats_json c))" "stuck (init_screen up plays r' c)"
proof -
  have field: "stuck (c\<lparr>wc_voice_requested := x\<rparr>)" "stuck (c\<lparr>wc_recovery_queue := tasks\<rparr>)"
    "stuck (c\<lparr>wc_screen_requested := x\<rparr>)" "stuck (stop_recovery c)" for x tasks
    using assms by (simp_all add: stuck_def stop_recovery_def)
  show "stuck (start_voice up r dev c)" using field by (simp add: start_voice_def stuck_def stats_part_sessions)
  show "stuck (stop_voice c)" using field stuck_stop by (simp add: stop_voice_def)
  show "stuck (on_signaling_state b r dev plays r' c)"
    using assms stuck_stop [OF assms] by (simp add: on_signaling_state_def stuck_def stats_part_sessions)
  show "stuck (run_recovery up r dev plays r' native begins audio local_id c)"
    using assms stuck_recover [OF field(2)]
    by (simp add: run_recovery_def Let_def split: list.split recovery_task.split)
  have "stuck (stop_screen_session (stop_recovery c))" using field(4) by (simp add: stuck_def stats_part_sessions)
  from stuck_stop [OF this] show "stuck (client_destroy c)" by (simp add: client_destroy_def Let_def stuck_def)
  show "stuck (snd (voice_stats_json c))" using assms by (simp add: voice_stats_json_def Let_def stuck_request)
  show "stuck (init_screen up plays r' c)" using field(3) by (simp add: init_screen_def stuck_def stats_part_sessions)
qed

lemma stuck_answer:
  "stuck c \<Longrightarrow> voice_token c \<noteq> Some t \<Longrightarrow> stuck (voice_stats_answered t st c)"
  by (auto simp: voice_stats_answered_def with_voice_def voice_token_def split: option.split)

lemma stuck_step:
  assumes "stuck c" and "case ev of Ev_Voice_Stats_Answered t' st \<Rightarrow> t' = t | _ \<Rightarrow> True" and "voice_token c \<noteq> Some t"
  shows "stuck (client_step dump ev c)"
proof (cases ev)
  case (Ev_Voice_Stats_Answered t' st)
  with assms show ?thesis by (simp add: stuck_answer)
qed (simp_all add: stuck_sessions [OF assms(1)] stuck_share [OF assms(1)],
     (rule stuck_part [OF assms(1)]; simp add: stats_part_sessions set_muted_def set_deafened_def set_master_volume_def
    set_peer_volume_def set_peer_muted_def set_input_device_def set_output_device_def voice_described_def
    voice_candidate_found_def voice_track_added_def with_voice_def session_state_changed_def schedule_recovery_def
    client_apply_answer_def client_apply_candidate_def apply_binding_def handle_watch_rejected_def deinit_screen_def
    join_stream_def leave_stream_def leave_streams_def remove_peer_def peer_stopped_streaming_def
    set_local_preview_enabled_def set_stream_volume_def screen_described_def screen_candidate_found_def
    screen_track_added_def screen_frame_def screen_local_frame_def deliver_video_def deliver_local_video_def
    with_screen_def screen_stats_json_def screen_stats_answered_def submit_system_audio_def Let_def
    split: option.split prod.split connection_id.split bool.split)+)

lemma stuck_forever:
  assumes "stuck c" and "voice_token c \<noteq> Some t" and "t < wc_next_token c"
    and "list_all (\<lambda>ev. case ev of Ev_Voice_Stats_Answered t' st \<Rightarrow> t' = t | _ \<Rightarrow> True) evs"
  shows "stuck (fold (client_step dump) evs c)"
  using assms
proof (induction evs arbitrary: c)
  case (Cons ev evs)
  have "voice_token (client_step dump ev c) \<noteq> Some t"
    using token_fresh_step [of c dump ev] Cons.prems(2,3) by (auto simp: token_fresh_def)
  moreover have "t < wc_next_token (client_step dump ev c)"
    using Cons.prems(3) next_token_mono [of c dump ev] by simp
  moreover have "stuck (client_step dump ev c)"
    by (rule stuck_step [OF Cons.prems(1) _ Cons.prems(2)]) (use Cons.prems(4) in \<open>simp split: client_event.split\<close>)
  ultimately show ?case using Cons by simp
qed simp

text \<open>
  C29: a request for voice statistics that is under way when the user leaves voice is never answered,
  since the closed session keeps the answer to itself; and the client waits for it for ever: whatever
  happens after that (also joining voice again, and late answers of the closed session), it makes no
  further request and shows no statistics.
\<close>

theorem voice_stats_wedged:
  assumes "client_run dump c announced stale" and "wc_voice c = Some (t, s)" and "\<not> wc_voice_stats_in_flight c"
    and "list_all (\<lambda>ev. case ev of Ev_Voice_Stats_Answered t' st \<Rightarrow> t' = t | _ \<Rightarrow> True) evs"
  shows "let c' = fold (client_step dump) evs (stop_voice (snd (voice_stats_json c))) in
    wc_voice_stats c' = None \<and> wc_voice_stats_in_flight c' \<and> request_voice_stats c' = c'"
proof -
  have ok: "vs_pc s" "t < wc_next_token c"
    using voice_good_run [OF assms(1)] assms(2) unfolding voice_good_def voice_session_ok_def by blast+
  let ?c = "stop_voice (snd (voice_stats_json c))"
  have asked: "snd (voice_stats_json c) = c\<lparr>wc_voice_stats_in_flight := True\<rparr>"
    using assms(2,3) ok(1) by (simp add: voice_stats_json_def request_voice_stats_def voice_get_stats_def Let_def)
  have "stuck ?c" by (simp add: asked stop_voice_def stop_voice_session_def stuck_def stats_part_def)
  moreover have "voice_token ?c \<noteq> Some t" by (simp add: token_kept)
  moreover have "t < wc_next_token ?c" using ok(2) by (simp add: asked stop_voice_def stop_voice_session_def)
  ultimately have "stuck (fold (client_step dump) evs ?c)" using assms(4) by (rule stuck_forever)
  then show ?thesis using stuck_request by (simp add: stuck_def stats_part_def Let_def)
qed

section \<open>Muting while a session starts\<close>

text \<open>
  The wish for the microphone is read before the session is made, and muting changes the current
  session, which is not there yet. Muting in between is shown to the user and not done: the new
  session sends what the microphone hears.
\<close>

lemma mute_race:
  assumes "voice_begin True c = Some microphone" and "voice_make r microphone = (True, s)" and "\<not> wc_voice_muted c"
  shows "let c' = voice_commit True t s (set_muted True c) in
    wc_voice_muted c' \<and> map_option (vs_microphone_track \<circ> snd) (wc_voice c') = Some (Some True)"
proof -
  have c: "wc_voice_requested c" "wc_voice c = None" "microphone"
    using assms(1,3) by (cases "wc_voice c"; auto simp: voice_begin_def split: if_splits)+
  let ?c = "(set_muted True c)\<lparr>wc_voice := Some (t, s)\<rparr>"
  have made: "vs_pc s" "vs_microphone_track s = Some True" using voice_make_session [OF assms(2)] c(3) by simp_all
  have "session_rest (fold apply_voice_update (all_voice_updates_locked ?c) s) = session_rest s"
    using apply_voice_updates_effect [OF made(1), of "all_voice_updates_locked ?c" "voice_wanted ?c"]
    by (auto simp: all_updates_wanted)
  then show ?thesis using c made
    by (simp add: voice_commit_def set_muted_def Let_def refresh_voice_def apply_voice_def session_rest_def)
qed

section \<open>A run\<close>

text \<open>A client joins voice, is told of one track, which belongs to Bob, and turns Bob up.\<close>

definition good_start :: start_results where
  "good_start = \<lparr>sr_runtime = True, sr_connection = True, sr_source = True, sr_track = True, sr_sender = True,
     sr_receiver = (\<lambda>_. True), sr_closed = False\<rparr>"

definition sample_session :: voice_session where
  "sample_session = (new_voice_session 16 True 64000 False)
     \<lparr>vs_start_attempted := True, vs_pc := True, vs_microphone_track := Some True, vs_started := True\<rparr>"

definition sample_joined :: client where
  "sample_joined = (new_client True True)
     \<lparr>wc_voice_requested := True, wc_next_token := 1, wc_voice := Some (0, sample_session)\<rparr>"

lemma sample_make: "voice_make good_start True = (True, sample_session)"
  by (simp add: voice_make_def voice_start_def good_start_def sample_session_def new_voice_session_def
      kMaxRemoteTrackSlots_def kVoiceReceiveSlots_def kVoiceBitrateKbps_def Let_def list_all_iff)

lemma sample_joins:
  "client_step dump (Ev_Start_Voice True good_start (\<lambda>_. True, \<lambda>_. True)) (new_client True True) = sample_joined"
  by (simp add: start_voice_def start_voice_if_requested_def voice_begin_def new_client_def sample_make
      voice_commit_def refresh_voice_def apply_voice_def all_voice_updates_locked_def List.map_filter_def
      apply_selected_audio_devices_def sample_joined_def Let_def)

lemma sample_joined_run: "client_run dump sample_joined {} {}"
proof -
  have "voice_token sample_joined \<noteq> voice_token (new_client True True)"
    by (simp add: voice_token_def sample_joined_def new_client_def)
  then show ?thesis
    using client_run.step [OF client_run.start, of "Ev_Start_Voice True good_start (\<lambda>_. True, \<lambda>_. True)" True True
        sample_joined dump] sample_joins [of dump]
    by (simp add: track_known_def announces_def)
qed

definition sample_described :: client where
  "sample_described = sample_joined
     \<lparr>wc_voice := Some (0, sample_session\<lparr>vs_tracks := [(''1'', new_audio_track)]\<rparr>), wc_sent := [Offer ''sdp'' Voice]\<rparr>"

definition sample_bound :: client where
  "sample_bound = sample_described\<lparr>wc_voice_bindings := [(''1'', ''bob'')]\<rparr>"

definition sample_turned_up :: client where
  "sample_turned_up = sample_bound
     \<lparr>wc_voice_peer_volumes := [(''bob'', 2)],
      wc_voice := Some (0, sample_session\<lparr>vs_tracks := [(''1'', \<lparr>at_enabled = True, at_volume = 2\<rparr>)]\<rparr>)\<rparr>"

lemma sample_steps:
  "client_step dump (Ev_Voice_Described 0 [''1''] (Description ''sdp'')) sample_joined = sample_described"
  "client_step dump (Ev_Binding Voice ''1'' (Some ''bob'')) sample_described = sample_bound"
  "client_step dump (Ev_Voice_Track 0 (Some ''1'') True) sample_bound = sample_bound"
  "client_step dump (Ev_Set_Peer_Volume ''bob'' 2) sample_bound = sample_turned_up"
proof -
  note session_defs = sample_session_def new_voice_session_def new_audio_track_def sample_joined_def new_client_def
  note update_defs = voice_update_locked_def peer_muted_def peer_volume_def to_list_def apply_voice_def
    apply_voice_update_def voice_set_track_enabled_def voice_set_track_volume_def remote_audio_track_def adjust_def Let_def
  show "client_step dump (Ev_Voice_Described 0 [''1''] (Description ''sdp'')) sample_joined = sample_described"
    by (simp add: sample_described_def voice_described_def with_voice_def voice_local_description_def voice_owns_def
        put_voice_def send_def session_defs)
  show "client_step dump (Ev_Binding Voice ''1'' (Some ''bob'')) sample_described = sample_bound"
    by (simp add: sample_described_def sample_bound_def apply_binding_def bind_mid_def session_defs update_defs)
  show "client_step dump (Ev_Voice_Track 0 (Some ''1'') True) sample_bound = sample_bound"
    by (simp add: sample_described_def sample_bound_def voice_track_added_def with_voice_def voice_on_track_def
        attach_remote_audio_sink_def put_voice_def session_defs update_defs)
  show "client_step dump (Ev_Set_Peer_Volume ''bob'' 2) sample_bound = sample_turned_up"
    by (simp add: sample_described_def sample_bound_def sample_turned_up_def set_peer_volume_def refresh_voice_def
        all_voice_updates_locked_def List.map_filter_def clamp_volume_def session_defs update_defs)
qed

lemma sample_tokens:
  "voice_token sample_joined = Some 0" "voice_token sample_described = Some 0" "voice_token sample_bound = Some 0"
  "voice_token sample_turned_up = Some 0"
  by (simp_all add: voice_token_def sample_joined_def sample_described_def sample_bound_def sample_turned_up_def)

lemma sample_run: "client_run dump sample_turned_up {''1''} {}"
proof -
  note known = track_known_def announces_def
  note ghosts = sample_tokens announced_after_def announces_def stale_after_def
  have "client_run dump sample_described {} {}"
    using client_run.step [OF sample_joined_run, of "Ev_Voice_Described 0 [''1''] (Description ''sdp'')", OF _ refl]
    by (simp only: sample_steps(1)) (simp add: known ghosts)
  then have bound: "client_run dump sample_bound {} {}"
    using client_run.step [of dump sample_described "{}" "{}" "Ev_Binding Voice ''1'' (Some ''bob'')", OF _ _ refl]
    by (simp only: sample_steps(2)) (simp add: known ghosts)
  have announced: "announces (Ev_Voice_Track 0 (Some ''1'') True) sample_bound = Some ''1''"
    by (simp add: announces_def sample_bound_def sample_described_def sample_session_def)
  have "track_known (Ev_Voice_Track 0 (Some ''1'') True) sample_bound"
    unfolding track_known_def announced by (simp add: sample_bound_def sample_described_def)
  from client_run.step [OF bound this refl] have "client_run dump sample_bound {''1''} {}"
    by (simp only: sample_steps(3)) (simp add: announced_after_def stale_after_def announced)
  from client_run.step [OF this _ refl, of "Ev_Set_Peer_Volume ''bob'' 2"] show ?thesis
    by (simp only: sample_steps(4)) (simp add: known ghosts)
qed


theorem voice_stats_wedged_witness:
  "wc_voice_stats (fold (client_step (\<lambda>_. [])) [Ev_Start_Voice True good_start (\<lambda>_. True, \<lambda>_. True), Ev_Voice_Stats]
     (stop_voice (snd (voice_stats_json sample_joined)))) = None"
proof -
  have session: "wc_voice sample_joined = Some (0, sample_session)" "\<not> wc_voice_stats_in_flight sample_joined"
    by (simp_all add: sample_joined_def new_client_def)
  have later: "list_all (\<lambda>ev. case ev of Ev_Voice_Stats_Answered t' st \<Rightarrow> t' = 0 | _ \<Rightarrow> True)
      [Ev_Start_Voice True good_start (\<lambda>_. True, \<lambda>_. True), Ev_Voice_Stats]"
    by simp
  show ?thesis
    using voice_stats_wedged [OF sample_joined_run session later, of "\<lambda>_. []"] by (simp only: Let_def)
qed

end
