(* ===== verification/Webrtc_Screen.thy ===== *)
theory Webrtc_Screen
  imports Webrtc_Voice_Faults
begin

text \<open>
  The screen side of the media client, whatever the user, the server and the sessions do, in any order:
  what is shared agrees with the session that captures it, and the sound of a screen plays exactly while
  its publisher is watched.
\<close>

section \<open>Events of the voice side\<close>

lemma with_voice_screen_part:
  "(\<And>s c. screen_part (f s c) = screen_part c) \<Longrightarrow> screen_part (with_voice t f c) = screen_part c"
  by (simp add: with_voice_def split: option.split)

lemma screen_part_voice_callbacks [simp]:
  "screen_part (voice_described t mids result c) = screen_part c"
  "screen_part (voice_candidate_found t x c) = screen_part c"
  "screen_part (voice_track_added t mid audio c) = screen_part c"
  "screen_part (voice_stats_answered t st c) = screen_part c"
  unfolding voice_described_def voice_candidate_found_def voice_track_added_def voice_stats_answered_def
  by (rule with_voice_screen_part; simp add: Let_def split: prod.split option.split)+

lemma screen_part_requests [simp]:
  "screen_part (apply_selected_audio_devices dev c) = screen_part c"
  "screen_part (snd (set_input_device dev i c)) = screen_part c"
  "screen_part (snd (set_output_device dev i c)) = screen_part c"
  "screen_part (snd (voice_stats_json c)) = screen_part c"
  "screen_part (session_state_changed task state c) = screen_part c"
  "screen_part (stop_recovery c) = screen_part c"
  "screen_part (submit_system_audio xs n c) = screen_part c"
  by (simp_all add: apply_selected_audio_devices_def set_input_device_def set_output_device_def voice_stats_json_def
      request_voice_stats_def session_state_changed_def schedule_recovery_def stop_recovery_def
      submit_system_audio_def Let_def split: option.split prod.split)

lemma screen_part_voice_session [simp]:
  "screen_part (start_voice_if_requested up r dev c) = screen_part c"
  "screen_part (stop_voice_session c) = screen_part c"
  "screen_part (recover_voice_session up r dev token c) = screen_part c"
  "screen_part (start_voice up r dev c) = screen_part c"
  "screen_part (stop_voice c) = screen_part c"
proof -
  show start: "screen_part (start_voice_if_requested up r dev c) = screen_part c" for up r dev c
    by (simp add: start_voice_if_requested_def voice_commit_def Let_def split: option.split prod.split)
  show stop: "screen_part (stop_voice_session c) = screen_part c" for c
    by (simp add: stop_voice_session_def)
  show "screen_part (recover_voice_session up r dev token c) = screen_part c"
    by (simp add: recover_voice_session_def start stop Let_def)
  show "screen_part (start_voice up r dev c) = screen_part c" "screen_part (stop_voice c) = screen_part c"
    by (simp_all add: start_voice_def stop_voice_def start stop)
qed

lemma screen_part_voice_settings [simp]:
  "screen_part (set_muted b c) = screen_part c" "screen_part (set_deafened b c) = screen_part c"
  "screen_part (set_master_volume v c) = screen_part c" "screen_part (set_peer_volume p v c) = screen_part c"
  "screen_part (set_peer_muted p b c) = screen_part c"
  "screen_part (client_apply_answer Voice b c) = screen_part c"
  "screen_part (client_apply_candidate Voice b c) = screen_part c"
  "screen_part (apply_binding Voice mid peer c) = screen_part c"
  by (simp_all add: set_muted_def set_deafened_def set_master_volume_def set_peer_volume_def set_peer_muted_def
      client_apply_answer_def client_apply_candidate_def apply_binding_def Let_def)

text \<open>An event either leaves the screen side alone or is one of these.\<close>

fun screen_event :: "client_event \<Rightarrow> bool" where
  "screen_event (Ev_Signaling b r dev plays r') = True"
| "screen_event (Ev_Answer connection b) = (connection = Screen)"
| "screen_event (Ev_Candidate connection b) = (connection = Screen)"
| "screen_event (Ev_Binding connection mid peer) = (connection = Screen)"
| "screen_event (Ev_Watch_Rejected p) = True"
| "screen_event (Ev_Init_Screen up plays r) = True"
| "screen_event Ev_Deinit_Screen = True"
| "screen_event (Ev_Join_Stream p) = True"
| "screen_event (Ev_Leave_Stream p) = True"
| "screen_event Ev_Leave_Streams = True"
| "screen_event (Ev_Remove_Peer p) = True"
| "screen_event (Ev_Peer_Stopped p) = True"
| "screen_event (Ev_Start_Sharing native begins audio local_id q) = True"
| "screen_event Ev_Stop_Sharing = True"
| "screen_event (Ev_Local_Preview b) = True"
| "screen_event (Ev_Stream_Volume p v) = True"
| "screen_event (Ev_Screen_Described t result) = True"
| "screen_event (Ev_Screen_Track t mid kind) = True"
| "screen_event (Ev_Frame t mid) = True"
| "screen_event (Ev_Local_Frame t) = True"
| "screen_event (Ev_Screen_Stats p) = True"
| "screen_event (Ev_Screen_Stats_Answered t g inbound now) = True"
| "screen_event (Ev_Recovery up r dev plays r' native begins audio local_id) = True"
| "screen_event Ev_Destroy = True"
| "screen_event ev = False"

lemma screen_candidate_part: "screen_part (screen_candidate_found t x c) = screen_part c"
  by (simp add: screen_candidate_found_def with_screen_def split: option.split prod.split)

lemma screen_part_cases:
  "screen_event ev \<or> screen_part (client_step dump ev c) = screen_part c"
  by (cases ev) (auto simp: screen_candidate_part, (metis connection_id.exhaust screen_part_voice_settings(6-8))+)

section \<open>What an invariant of the screen side has to promise\<close>

text \<open>
  The operations that touch the screen side, as laws on a predicate: one that keeps them all holds after
  any events, of the user, of the server and of either session.
\<close>

locale screen_invariant =
  fixes I :: "client \<Rightarrow> bool"
  assumes part: "screen_part c' = screen_part c \<Longrightarrow> I c \<Longrightarrow> I c'"
    and fresh: "I (new_client on_frame True)"
    and requested: "I c \<Longrightarrow> I (c\<lparr>wc_screen_requested := True\<rparr>)"
    and begun: "I c \<Longrightarrow> wc_screen_requested c \<Longrightarrow> wc_screen c = None \<Longrightarrow>
      screen_make r (wc_local_preview_enabled c) = (True, s) \<Longrightarrow> I (refresh_screen (c\<lparr>wc_screen := Some (t, s)\<rparr>))"
    and stopped: "I c \<Longrightarrow> I (stop_screen_session c)"
    and deinited: "I c \<Longrightarrow> I (deinit_screen c)"
    and shared: "I c \<Longrightarrow> I (snd (apply_sharing native begins audio local_id q c))"
    and unshared: "I c \<Longrightarrow> I (stop_sharing c)"
    and reported: "I c \<Longrightarrow> wc_screen c = Some (t, s) \<Longrightarrow> I (put_screen (screen_report err s) c)"
    and tracked: "I c \<Longrightarrow> I (screen_track_added t mid kind new_audio_track c)"
    and framed: "I c \<Longrightarrow> I (screen_frame t m c)"
    and previewed: "I c \<Longrightarrow> I (screen_local_frame t c)"
    and bound: "I c \<Longrightarrow> I (apply_binding Screen m peer c)"
    and rejected: "I c \<Longrightarrow> I (handle_watch_rejected p c)"
    and joined: "I c \<Longrightarrow> I (join_stream p c)"
    and left: "I c \<Longrightarrow> I (leave_stream p c)"
    and left_all: "I c \<Longrightarrow> I (leave_streams c)"
    and gone: "I c \<Longrightarrow> I (remove_peer p c)"
    and ceased: "I c \<Longrightarrow> I (peer_stopped_streaming p c)"
    and preview: "I c \<Longrightarrow> I (set_local_preview_enabled b c)"
    and volume: "I c \<Longrightarrow> I (set_stream_volume p v c)"
    and polled: "I c \<Longrightarrow> I (snd (screen_stats_json p c))"
    and answered: "I c \<Longrightarrow> I (screen_stats_answered dump t g inbound now c)"
begin

lemma described: "I c \<Longrightarrow> I (screen_described t result c)"
proof (cases "wc_screen c")
  case (Some ts)
  assume I: "I c"
  obtain t' s where ts: "ts = (t', s)" by (cases ts)
  have same: "I (put_screen s c)" using part [OF _ I, of "put_screen s c"] Some ts by (simp add: screen_part_def put_screen_def)
  have sent: "I (send m (put_screen s c))" for m by (rule part [OF _ same]) simp
  show ?thesis
    using I Some ts same sent reported [OF I Some [unfolded ts]]
    by (auto simp: screen_described_def with_screen_def screen_local_description_def split: description_result.split)
qed (simp add: screen_described_def with_screen_def)

lemma negotiated:
  assumes "I c"
  shows "I (client_apply_answer Screen b c)" and "I (client_apply_candidate Screen b c)"
proof -
  have each: "I (c\<lparr>wc_screen := map_option (map_prod id f) (wc_screen c)\<rparr>)"
    if f: "\<And>s. f s = s \<or> (\<exists>err. f s = screen_report err s)" for f
  proof (cases "wc_screen c")
    case None
    then have "c\<lparr>wc_screen := map_option (map_prod id f) (wc_screen c)\<rparr> = c" by simp
    with assms show ?thesis by simp
  next
    case (Some ts)
    obtain t s where ts: "ts = (t, s)" by (cases ts)
    have "c\<lparr>wc_screen := Some (t, s)\<rparr> = c" using Some ts by simp
    with assms have same: "I (c\<lparr>wc_screen := Some (t, s)\<rparr>)" by simp
    show ?thesis
      using f [of s] assms reported [OF assms Some [unfolded ts]] Some ts same by (auto simp: put_screen_def)
  qed
  show "I (client_apply_answer Screen b c)" "I (client_apply_candidate Screen b c)"
    unfolding client_apply_answer_def client_apply_candidate_def connection_id.case
    by (rule each; (simp only: screen_apply_answer_def screen_add_remote_candidate_def split: if_split, blast))+
qed

lemma started:
  assumes "I c"
  shows "I (start_screen_if_requested up plays r c)"
proof -
  have commit: "I (screen_commit up t s c1)"
    if c1: "screen_part c1 = screen_part c" and made: "screen_make r (wc_local_preview_enabled c) = (True, s)"
    for c1 t s
  proof -
    have I1: "I c1" by (rule part [OF c1 assms])
    have preview: "wc_local_preview_enabled c1 = wc_local_preview_enabled c" using c1 by (simp add: screen_part_def)
    have stop: "I (c1\<lparr>wc_playout := playout_stop (wc_playout c1)\<rparr>)" by (rule part [OF _ I1]) simp
    have "I (fold (\<lambda>p. send (WatchStart p)) ps (refresh_screen (c1\<lparr>wc_screen := Some (t, s)\<rparr>)))"
      if "wc_screen_requested c1" "wc_screen c1 = None" for ps
      by (rule part [OF _ begun [OF I1 that made [folded preview]]]) simp
    with stop show ?thesis by (simp add: screen_commit_def)
  qed
  show ?thesis
    using assms part [OF _ assms] commit
    by (auto simp: start_screen_if_requested_def screen_begin_def Let_def split: option.split prod.split)
qed

lemma sharing: "I c \<Longrightarrow> I (share native begins audio local_id q c)"
  using shared [of c native begins audio local_id q] part
  by (auto simp: share_def split: prod.split)

lemma recovered:
  assumes "I c"
  shows "I (recover_screen_session up plays r native begins audio local_id t c)"
proof -
  have sent: "I (send m c)" for m by (rule part [OF _ assms]) simp
  have again: "I (start_screen_if_requested up plays r (stop_screen_session c'))" if "I c'" for c'
    by (rule started [OF stopped [OF that]])
  have reshared: "I (case apply_sharing native begins audio local_id q c' of
      (ok, c3) \<Rightarrow> if ok then c3 else c3\<lparr>wc_sharing_request := None\<rparr>)" if "I c'" for c' q
  proof (cases "apply_sharing native begins audio local_id q c'")
    case (Pair ok c3)
    then have I3: "I c3" using shared [OF that, of native begins audio local_id q] by simp
    have "I (c3\<lparr>wc_sharing_request := None\<rparr>)" by (rule part [OF _ I3]) simp
    with I3 Pair show ?thesis by simp
  qed
  show ?thesis
    using assms again [OF assms] again [OF sent] reshared [OF again [OF sent]]
    by (cases up) (simp_all add: recover_screen_session_def Let_def split: option.split)
qed

lemma initialised: "I c \<Longrightarrow> I (init_screen up plays r c)"
  by (simp add: init_screen_def started requested)

lemma worker_ran:
  assumes "I c"
  shows "I (run_recovery up r dev plays r' native begins audio local_id c)"
proof -
  have dequeued: "I (c\<lparr>wc_recovery_queue := ts\<rparr>)" for ts by (rule part [OF _ assms]) simp
  show ?thesis
    using assms part [OF _ dequeued] recovered [OF dequeued]
    by (auto simp: run_recovery_def Let_def split: list.split recovery_task.split)
qed

lemma signalled:
  assumes "I c"
  shows "I (on_signaling_state up r dev plays r' c)"
proof -
  have "I (start_voice_if_requested True r dev c)" "I (stop_voice_session c)"
    by (rule part [OF _ assms]; simp)+
  then show ?thesis by (simp add: on_signaling_state_def started stopped)
qed

lemma destroyed:
  assumes "I c"
  shows "I (client_destroy c)"
proof -
  have "I (stop_recovery c)" by (rule part [OF _ assms]) simp
  then have "I (stop_screen_session (stop_recovery c))" by (rule stopped)
  then have "I (stop_voice_session (stop_screen_session (stop_recovery c)))" by (rule part [rotated]) simp
  then show ?thesis unfolding client_destroy_def Let_def by (rule part [rotated]) simp
qed

lemmas kept = described negotiated sharing initialised worker_ran signalled destroyed deinited unshared tracked
  framed previewed bound rejected joined left left_all gone ceased preview volume polled answered

lemma step:
  assumes "I c"
  shows "I (client_step dump ev c)"
proof (cases "screen_event ev")
  case True
  with assms show ?thesis by (cases ev) (simp_all add: kept)
next
  case False
  then show ?thesis using part [OF _ assms] screen_part_cases [of ev dump c] by blast
qed

lemma always: "I (fold (client_step dump) evs (new_client on_frame True))"
proof -
  have "I c \<Longrightarrow> I (fold (client_step dump) evs c)" for c
    by (induction evs arbitrary: c) (simp_all add: step)
  then show ?thesis using fresh by blast
qed

end


section \<open>Updates of the sound of screens\<close>

definition screen_wanted :: "client \<Rightarrow> string \<Rightarrow> track_update" where
  "screen_wanted c mid =
     (case map_of (wc_screen_bindings c) mid of
        None \<Rightarrow> \<lparr>tu_mid = mid, tu_enabled = False, tu_volume = None\<rparr>
      | Some p \<Rightarrow> \<lparr>tu_mid = mid, tu_enabled = p \<in> set (wc_watched_peers c), tu_volume = Some (stream_volume p c)\<rparr>)"

lemma screen_wanted_mid [simp]: "tu_mid (screen_wanted c mid) = mid"
  by (simp add: screen_wanted_def split: option.split)

lemma screen_update_wanted:
  "screen_update_locked c mid =
     (if wc_screen c = None \<or> mid \<notin> set (wc_screen_audio_mids c) then None else Some (screen_wanted c mid))"
  by (simp add: screen_update_locked_def screen_wanted_def split: option.split)

lemma all_screen_updates_wanted:
  "all_screen_updates_locked c =
     (if wc_screen c = None then [] else map (screen_wanted c) (wc_screen_audio_mids c))"
proof -
  have "List.map_filter (screen_update_locked c) ms =
      (if wc_screen c = None then [] else map (screen_wanted c) ms)" if "set ms \<subseteq> set (wc_screen_audio_mids c)" for ms
    using that by (induction ms) (auto simp: List.map_filter_def screen_update_wanted)
  then show ?thesis by (simp add: all_screen_updates_locked_def)
qed

text \<open>An update only changes a track among the session's sinks.\<close>

definition retune :: "track_update list \<Rightarrow> (string \<times> audio_track) list \<Rightarrow> (string \<times> audio_track) list" where
  "retune us = fold (\<lambda>u. adjust (tu_mid u) (track_after u)) us"

definition retuned :: "track_update list \<Rightarrow> screen_session \<Rightarrow> screen_session" where
  "retuned us s = s\<lparr>ss_remote_sinks := map_option (rs_audio_update (retune us)) (ss_remote_sinks s)\<rparr>"

lemma adjust_adjust: "adjust k f (adjust k g m) = adjust k (f \<circ> g) m"
  by (auto simp: adjust_def)

lemma adjust_absent: "k \<notin> set (keys m) \<Longrightarrow> adjust k f m = m"
  by (induction m) (auto simp: adjust_def)

lemma adjust_eq_map: "(\<And>v. v \<in> snd ` set m \<Longrightarrow> f v = g v) \<Longrightarrow> adjust k f m = adjust k g m"
  by (auto simp: adjust_def intro!: map_cong) force

lemma track_after_None: "tu_volume u = None \<Longrightarrow> track_after u = at_enabled_update (\<lambda>_. tu_enabled u)"
  by (simp add: track_after_def fun_eq_iff)

lemma track_after_Some:
  "tu_volume u = Some v \<Longrightarrow> track_after u =
     (if v < 0 \<or> 10 < v then at_enabled_update (\<lambda>_. tu_enabled u)
      else at_volume_update (\<lambda>_. v) \<circ> at_enabled_update (\<lambda>_. tu_enabled u))"
  by (auto simp: track_after_def fun_eq_iff Let_def)

lemma set_audio_volume_eq:
  "snd (set_audio_volume mid v r) =
     (if v < 0 \<or> 10 < v then r else rs_audio_update (adjust mid (at_volume_update (\<lambda>_. v))) r)"
  by (cases r) (simp add: set_audio_volume_def adjust_absent)

lemma set_audio_enabled_eq: "set_audio_enabled mid b r = rs_audio_update (adjust mid (at_enabled_update (\<lambda>_. b))) r"
  by (cases r) (simp add: set_audio_enabled_def)

lemma screen_set_audio_volume_eq:
  "snd (screen_set_audio_volume mid v s) =
     s\<lparr>ss_remote_sinks := map_option (\<lambda>r. snd (set_audio_volume mid v r)) (ss_remote_sinks s)\<rparr>"
  by (cases s) (simp add: screen_set_audio_volume_def split: option.split prod.split)

lemma adjust_comp: "adjust k f \<circ> adjust k g = adjust k (f \<circ> g)"
  by (simp add: fun_eq_iff adjust_adjust)

lemma rs_audio_update_comp: "rs_audio_update f (rs_audio_update g r) = rs_audio_update (f \<circ> g) r"
  by (cases r) simp

lemma rs_audio_update_id: "rs_audio_update id = id"
proof
  show "rs_audio_update id r = id r" for r by (cases r) simp
qed

lemma apply_screen_update_retuned: "apply_screen_update u s = retuned [u] s"
proof (cases "tu_volume u")
  case None
  then show ?thesis
    by (simp add: apply_screen_update_def retuned_def retune_def screen_set_audio_enabled_def Let_def
        set_audio_enabled_eq [abs_def] track_after_None [OF None])
next
  case (Some v)
  then show ?thesis
    by (simp add: apply_screen_update_def retuned_def retune_def screen_set_audio_enabled_def Let_def
        set_audio_enabled_eq [abs_def] track_after_Some [OF Some] screen_set_audio_volume_eq
        set_audio_volume_eq option.map_comp comp_def rs_audio_update_comp adjust_adjust)
qed

lemma apply_screen_updates_retuned: "fold apply_screen_update us s = retuned us s"
proof (induction us arbitrary: s)
  case (Cons u us)
  have "fold apply_screen_update (u # us) s = retuned us (retuned [u] s)"
    by (simp only: fold_simps Cons apply_screen_update_retuned)
  then show ?case by (simp add: retuned_def retune_def option.map_comp comp_def rs_audio_update_comp)
qed (simp add: retuned_def retune_def rs_audio_update_id option.map_id)

lemma keys_retune [simp]: "keys (retune us ts) = keys ts"
  unfolding retune_def by (induction us arbitrary: ts) simp_all

lemma set_keys_retune [simp]: "fst ` set (retune us ts) = fst ` set ts"
  using arg_cong [OF keys_retune [of us ts], of set] by (simp del: keys_retune)

lemma map_of_retune:
  assumes "\<forall>u\<in>set us. u = f (tu_mid u)"
  shows "map_of (retune us ts) m =
    (if m \<in> tu_mid ` set us then map_option (track_after (f m)) (map_of ts m) else map_of ts m)"
  using assms
proof (induction us arbitrary: ts)
  case (Cons u us)
  have u: "u = f (tu_mid u)" using Cons.prems by simp
  have "retune (u # us) ts = retune us (adjust (tu_mid u) (track_after u) ts)" by (simp add: retune_def)
  with Cons u show ?case
    by (auto simp: map_of_adjust option.map_comp track_after_idem)
qed (simp add: retune_def)

lemma refresh_screen_eq:
  "refresh_screen c = c\<lparr>wc_screen := map_option (map_prod id (retuned (map (screen_wanted c) (wc_screen_audio_mids c)))) (wc_screen c)\<rparr>"
  by (cases "wc_screen c") (simp_all add: refresh_screen_def apply_screen_def all_screen_updates_wanted
      apply_screen_updates_retuned [abs_def] fun_eq_iff [symmetric])

section \<open>Sharing\<close>

text \<open>
  What is shared agrees with the session: it exists while something is shared, its switches are the
  client's, its capture runs exactly while the screen is shared, the preview is wired exactly while it
  is enabled, and a preview is only shown of a screen that is shared.
\<close>

definition switches :: "client \<Rightarrow> screen_session \<Rightarrow> bool" where
  "switches c s \<longleftrightarrow>
     ss_started s \<and> ss_pc s \<and> ss_takes_local_video s \<and> ss_injected_source s \<and> ss_remote_sinks s \<noteq> None \<and>
     ss_video_track s = Some (wc_sharing_active c) \<and> ss_desired_sharing_enabled s = wc_sharing_active c \<and>
     ss_audio_track s = Some (wc_system_audio_capture c) \<and>
     ss_desired_system_audio_enabled s = wc_system_audio_capture c \<and>
     map_option ds_capture_thread (ss_video_source s) = Some (wc_sharing_active c) \<and>
     map_option ls_attached (ss_local_preview_sink s) = Some (wc_local_preview_enabled c) \<and>
     ss_desired_local_preview_enabled s = wc_local_preview_enabled c"

definition sharing_ok :: "client \<Rightarrow> bool" where
  "sharing_ok c \<longleftrightarrow>
     (case wc_screen c of
        None \<Rightarrow> \<not> wc_sharing_active c
      | Some (t, s) \<Rightarrow> wc_screen_requested c \<and> switches c s) \<and>
     (wc_system_audio_capture c \<longrightarrow> wc_sharing_active c) \<and>
     (wc_local_preview_peer c \<noteq> [] \<longrightarrow> wc_sharing_active c)"

text \<open>What of a session this is about, and of a client.\<close>

definition switch_part where
  "switch_part s = (ss_started s, ss_pc s, ss_takes_local_video s, ss_injected_source s, ss_remote_sinks s = None,
     ss_video_track s, ss_desired_sharing_enabled s, ss_audio_track s, ss_desired_system_audio_enabled s,
     map_option ds_capture_thread (ss_video_source s), map_option ls_attached (ss_local_preview_sink s),
     ss_desired_local_preview_enabled s)"

definition sharing_part where
  "sharing_part c = (map_option (switch_part \<circ> snd) (wc_screen c), wc_screen_requested c, wc_sharing_active c,
     wc_system_audio_capture c, wc_local_preview_enabled c, wc_local_preview_peer c)"

lemma sharing_ok_part:
  assumes "sharing_part c' = sharing_part c"
  shows "sharing_ok c' = sharing_ok c"
proof (cases "wc_screen c")
  case None
  then show ?thesis using assms by (simp add: sharing_part_def sharing_ok_def)
next
  case (Some ts)
  then obtain t s t' s' where sessions: "wc_screen c = Some (t, s)" "wc_screen c' = Some (t', s')"
    using assms by (cases ts) (auto simp: sharing_part_def)
  then have "switches c' s' = switches c s"
    using assms by (auto simp: sharing_part_def switches_def switch_part_def)
  then show ?thesis using assms sessions by (simp add: sharing_part_def sharing_ok_def)
qed

lemma sharing_part_fields [simp]:
  "sharing_part (c\<lparr>wc_screen_bindings := x4\<rparr>) = sharing_part c"
  "sharing_part (c\<lparr>wc_screen_video_mids := x5\<rparr>) = sharing_part c"
  "sharing_part (c\<lparr>wc_screen_audio_mids := x6\<rparr>) = sharing_part c"
  "sharing_part (c\<lparr>wc_watched_peers := x7\<rparr>) = sharing_part c"
  "sharing_part (c\<lparr>wc_screen_peer_volumes := x8\<rparr>) = sharing_part c"
  "sharing_part (c\<lparr>wc_screen_stats := x17\<rparr>) = sharing_part c"
  "sharing_part (c\<lparr>wc_voice_peer_volumes := x18\<rparr>) = sharing_part c"
  "sharing_part (c\<lparr>wc_voice_peer_muted := x19\<rparr>) = sharing_part c"
  "sharing_part (c\<lparr>wc_sent := x24\<rparr>) = sharing_part c" "sharing_part (c\<lparr>wc_frames := x25\<rparr>) = sharing_part c"
  by (simp_all add: sharing_part_def)

lemma switch_part_retuned [simp]: "switch_part (retuned us s) = switch_part s"
  by (simp add: switch_part_def retuned_def)

lemma sharing_part_apply [simp]: "sharing_part (apply_screen us c) = sharing_part c"
  by (cases "wc_screen c") (auto simp: sharing_part_def apply_screen_def apply_screen_updates_retuned)

lemma sharing_part_helpers [simp]:
  "sharing_part (refresh_screen c) = sharing_part c" "sharing_part (frame_removed p c) = sharing_part c"
  "sharing_part (show_frame p c) = sharing_part c" "sharing_part (send m c) = sharing_part c"
  by (simp_all add: refresh_screen_def frame_removed_def show_frame_def send_def)

lemma sharing_part_folds [simp]:
  "sharing_part (fold (\<lambda>p. send (WatchStart p)) ps c) = sharing_part c"
  "sharing_part (fold (\<lambda>p. send (WatchStop p)) ps c) = sharing_part c"
  "sharing_part (fold frame_removed ps c) = sharing_part c"
  by (rule fold_same, simp)+

lemma screen_make_session:
  assumes "screen_make r preview = (True, s)"
  shows "s = (new_screen_session kScreenReceiveSlots False False preview kScreenVideoBitrateBps
       (kSystemAudioBitrateKbps * 1000) True True)
     \<lparr>ss_start_attempted := True, ss_pc := True, ss_video_source := Some new_desktop_source,
      ss_video_track := Some False, ss_audio_track := Some False, ss_remote_sinks := Some new_remote_sinks,
      ss_local_preview_sink := Some (if preview then local_attach True new_local_sink else new_local_sink),
      ss_started := True\<rparr>"
  using assms
  by (simp add: screen_make_def screen_start_def new_screen_session_def Let_def split: if_splits)

lemma sharing_part_stopped:
  "sharing_part (stop_screen_session c) = (None, wc_screen_requested c, False, False, wc_local_preview_enabled c, [])"
  unfolding stop_screen_session_def Let_def by simp (simp add: sharing_part_def)

lemma sharing_ok_stopped: "sharing_ok (stop_screen_session c)"
  using sharing_part_stopped [of c] by (auto simp: sharing_part_def sharing_ok_def)

lemma sharing_part_put:
  "wc_screen c = Some (t, s) \<Longrightarrow> switch_part s' = switch_part s \<Longrightarrow> sharing_part (put_screen s' c) = sharing_part c"
  by (simp add: sharing_part_def put_screen_def)

lemma switch_part_sessions [simp]:
  "switch_part (screen_report err s) = switch_part s"
  "switch_part (snd (screen_on_track mid kind track s)) = switch_part s"
  by (auto simp: switch_part_def screen_report_def screen_on_track_def split: option.split track_kind.split)

lemma sharing_part_tracked: "sharing_part (screen_track_added t mid kind track c) = sharing_part c"
proof (cases "wc_screen c")
  case (Some ts)
  obtain t' s where ts: "ts = (t', s)" by (cases ts)
  have put: "sharing_part (put_screen s' c) = sharing_part c" if "screen_on_track mid kind track s = (x, s')" for x s'
    using sharing_part_put [OF Some [unfolded ts], of s'] switch_part_sessions(2) [of mid kind track s] that by simp
  show ?thesis
    using Some ts by (auto simp: screen_track_added_def with_screen_def Let_def dest!: put
        split: prod.split option.split bool.split)
qed (simp add: screen_track_added_def with_screen_def)

lemma sharing_part_shown:
  "sharing_part (screen_frame t m c) = sharing_part c" "sharing_part (screen_local_frame t c) = sharing_part c"
  by (simp_all add: screen_frame_def screen_local_frame_def with_screen_def deliver_video_def deliver_local_video_def
      split: option.split prod.split)

lemma sharing_part_watching:
  "sharing_part (apply_binding Screen m peer c) = sharing_part c"
  "sharing_part (handle_watch_rejected p c) = sharing_part c"
  "sharing_part (join_stream p c) = sharing_part c"
  "sharing_part (leave_stream p c) = sharing_part c"
  "sharing_part (leave_streams c) = sharing_part c"
  "sharing_part (peer_stopped_streaming p c) = sharing_part c"
  "sharing_part (remove_peer p c) = sharing_part c"
  "sharing_part (set_stream_volume p v c) = sharing_part c"
  "sharing_part (snd (screen_stats_json p c)) = sharing_part c"
  by (simp_all add: apply_binding_def handle_watch_rejected_def join_stream_def leave_stream_def leave_streams_def
      peer_stopped_streaming_def remove_peer_def set_stream_volume_def screen_stats_json_def Let_def split: prod.split)

lemma sharing_part_answered: "sharing_part (screen_stats_answered dump t g inbound now c) = sharing_part c"
  by (simp add: screen_stats_answered_def with_screen_def split: option.split prod.split)

lemma sharing_ok_begun:
  assumes "sharing_ok c" and "wc_screen_requested c" and "wc_screen c = None"
    and "screen_make r (wc_local_preview_enabled c) = (True, s)"
  shows "sharing_ok (refresh_screen (c\<lparr>wc_screen := Some (t, s)\<rparr>))"
proof -
  have "sharing_ok (c\<lparr>wc_screen := Some (t, s)\<rparr>)"
    using assms(1-3)
    by (auto simp: sharing_ok_def switches_def screen_make_session [OF assms(4)] new_screen_session_def
        new_desktop_source_def local_attach_def new_local_sink_def)
  then show ?thesis using sharing_ok_part [OF sharing_part_helpers(1)] by blast
qed

lemma start_desktop_capture_switches:
  assumes "switches c s" and "start_desktop_capture native begins fps w h s = (ok, s')" and "\<not> wc_sharing_active c"
  shows "switches (c\<lparr>wc_sharing_active := ok\<rparr>) s'"
proof (cases "ss_video_source s")
  case (Some d)
  obtain ok' d' where d': "start_capture native begins fps w h d = (ok', d')" by fastforce
  then have "ds_capture_thread d' = ok'"
    using assms(1,3) Some
    by (auto simp: start_capture_def stop_capture_def switches_def Let_def split: if_splits)
  then show ?thesis
    using assms Some d'
    by (auto simp: start_desktop_capture_def switches_def set_sharing_enabled_def Let_def split: if_splits)
qed (use assms in \<open>simp add: switches_def\<close>)

lemma sharing_ok_shared:
  assumes "sharing_ok c"
  shows "sharing_ok (snd (apply_sharing native begins audio local_id q c))"
proof (cases "wc_screen c")
  case (Some ts)
  obtain t s where ts: "ts = (t, s)" by (cases ts)
  show ?thesis
  proof (cases "wc_sharing_active c \<or> \<not> wc_screen_requested c")
    case True
    then show ?thesis using assms Some ts by (simp add: apply_sharing_def)
  next
    case False
    then have before: "switches c s" "\<not> wc_sharing_active c" "wc_screen_requested c" "\<not> wc_system_audio_capture c"
      "wc_local_preview_peer c = []"
      using assms Some ts by (auto simp: sharing_ok_def)
    obtain ok s1 where s1: "start_desktop_capture native begins (sq_fps q) (sq_max_width q) (sq_max_height q) s = (ok, s1)"
      by fastforce
    have after: "switches (c\<lparr>wc_sharing_active := ok\<rparr>) s1"
      by (rule start_desktop_capture_switches [OF before(1) s1 before(2)])
    have "sharing_ok (put_screen s1 c)" if "\<not> ok"
      using that after before Some ts by (simp add: sharing_ok_def put_screen_def switches_def)
    moreover have "sharing_ok (put_screen (set_sharing_enabled False (stop_desktop_capture s1)) c)" if ok
      using that after before Some ts
      by (auto simp: sharing_ok_def put_screen_def switches_def set_sharing_enabled_def stop_desktop_capture_def stop_capture_def)
    moreover have "sharing_ok ((put_screen (set_system_audio_enabled (sq_share_audio q) s1) c)
        \<lparr>wc_system_audio_capture := sq_share_audio q, wc_sharing_active := True, wc_local_preview_peer := local_id\<rparr>)" if ok
      using that after before Some ts
      by (auto simp: sharing_ok_def put_screen_def switches_def set_system_audio_enabled_def)
    ultimately show ?thesis
      using False Some ts s1 sharing_ok_part [OF sharing_part_helpers(4)] by (simp add: apply_sharing_def)
  qed
qed (use assms in \<open>simp add: apply_sharing_def\<close>)

lemma sharing_ok_unshared:
  assumes "sharing_ok c"
  shows "sharing_ok (stop_sharing c)"
proof -
  let ?c = "c\<lparr>wc_system_audio_capture := False, wc_sharing_active := False, wc_sharing_request := None,
      wc_local_preview_peer := [], wc_system_audio_frame := [],
      wc_screen := map_option (map_prod id (\<lambda>s.
        stop_desktop_capture (set_sharing_enabled False (set_system_audio_enabled False s)))) (wc_screen c)\<rparr>"
  have "sharing_ok ?c"
    using assms
    by (cases "wc_screen c") (auto simp: sharing_ok_def switches_def set_sharing_enabled_def stop_desktop_capture_def
        stop_capture_def set_system_audio_enabled_def)
  moreover have "sharing_part (stop_sharing c) = sharing_part ?c" by (simp add: stop_sharing_def Let_def)
  ultimately show ?thesis using sharing_ok_part by blast
qed

lemma sharing_ok_preview:
  assumes "sharing_ok c"
  shows "sharing_ok (set_local_preview_enabled b c)"
proof -
  let ?c = "c\<lparr>wc_local_preview_enabled := b,
      wc_screen := map_option (map_prod id (screen_set_local_preview b)) (wc_screen c)\<rparr>"
  have "sharing_ok ?c"
    using assms
    by (cases "wc_screen c") (auto simp: sharing_ok_def switches_def screen_set_local_preview_def local_attach_def
        local_clear_def Let_def)
  then show ?thesis
    using assms sharing_ok_part [OF sharing_part_helpers(2), of _ ?c] by (simp add: set_local_preview_enabled_def Let_def)
qed

lemma sharing_ok_screen_part:
  assumes "screen_part c' = screen_part c"
  shows "sharing_ok c' = sharing_ok c"
  by (rule sharing_ok_part) (use assms in \<open>simp add: screen_part_def sharing_part_def\<close>)

interpretation sharing: screen_invariant sharing_ok
proof unfold_locales
  show "sharing_ok (new_client on_frame True)" for on_frame by (simp add: sharing_ok_def new_client_def)
  show "sharing_ok (c\<lparr>wc_screen_requested := True\<rparr>)" if "sharing_ok c" for c
    using that by (auto simp: sharing_ok_def switches_def split: option.splits)
  show "sharing_ok (deinit_screen c)" for c by (simp add: deinit_screen_def Let_def sharing_ok_stopped)
  show "sharing_ok (put_screen (screen_report err s) c)" if "sharing_ok c" "wc_screen c = Some (t, s)" for c err s t
    using sharing_part_put [OF that(2) switch_part_sessions(1)] that(1) sharing_ok_part by blast
  show "sharing_ok c'" if "screen_part c' = screen_part c" "sharing_ok c" for c c'
    using that sharing_ok_screen_part by blast
qed (simp_all add: sharing_ok_part [OF sharing_part_tracked] sharing_ok_part [OF sharing_part_answered]
    sharing_part_shown [THEN sharing_ok_part] sharing_part_watching [THEN sharing_ok_part]
    sharing_ok_begun sharing_ok_stopped sharing_ok_shared sharing_ok_unshared sharing_ok_preview)

section \<open>The sound of screens\<close>

text \<open>
  \<open>sound_shape\<close>: the audio sinks of the session are those the client knows of, and no volume is out of
  range; \<open>sound_at\<close>: the track of one sink plays as wanted.
\<close>

definition sound_shape :: "client \<Rightarrow> bool" where
  "sound_shape c \<longleftrightarrow>
     (\<forall>p. 0 \<le> stream_volume p c \<and> stream_volume p c \<le> 2) \<and>
     (case wc_screen c of
        None \<Rightarrow> wc_screen_audio_mids c = []
      | Some (t, s) \<Rightarrow> map_option (\<lambda>r. set (keys (rs_audio r))) (ss_remote_sinks s) = Some (set (wc_screen_audio_mids c)))"

definition sound_tracks :: "client \<Rightarrow> (string \<times> audio_track) list" where
  "sound_tracks c =
     (case wc_screen c of
        None \<Rightarrow> []
      | Some (t, s) \<Rightarrow> (case ss_remote_sinks s of None \<Rightarrow> [] | Some r \<Rightarrow> rs_audio r))"

definition sound_at :: "client \<Rightarrow> string \<Rightarrow> bool" where
  "sound_at c m \<longleftrightarrow> (\<forall>tr. map_of (sound_tracks c) m = Some tr \<longrightarrow> follows (screen_wanted c m) tr)"

definition sound_ok :: "client \<Rightarrow> bool" where
  "sound_ok c \<longleftrightarrow> sound_shape c \<and> (\<forall>m. sound_at c m)"

definition sound_sinks :: "client \<Rightarrow> (string \<times> audio_track) list option option" where
  "sound_sinks c = map_option (\<lambda>ts. map_option rs_audio (ss_remote_sinks (snd ts))) (wc_screen c)"

definition sound_part where
  "sound_part c = (sound_sinks c,
     wc_screen_bindings c, wc_screen_audio_mids c, wc_watched_peers c, wc_screen_peer_volumes c)"

lemma sound_tracks_alt:
  "sound_tracks c = (case sound_sinks c of Some (Some ts) \<Rightarrow> ts | _ \<Rightarrow> [])"
  by (simp add: sound_tracks_def sound_sinks_def split: option.split)

lemma sound_shape_alt:
  "sound_shape c \<longleftrightarrow>
     (\<forall>p. 0 \<le> stream_volume p c \<and> stream_volume p c \<le> 2) \<and>
     (case sound_sinks c of
        None \<Rightarrow> wc_screen_audio_mids c = []
      | Some x \<Rightarrow> map_option (\<lambda>ts. set (keys ts)) x = Some (set (wc_screen_audio_mids c)))"
  by (auto simp: sound_shape_def sound_sinks_def option.map_comp comp_def split: option.split)

lemma sound_part_cong:
  assumes "sound_part c' = sound_part c"
  shows "sound_shape c' = sound_shape c" "sound_at c' m = sound_at c m" "sound_ok c' = sound_ok c"
proof -
  have fields: "stream_volume p c' = stream_volume p c" "screen_wanted c' m = screen_wanted c m" for p m
    using assms by (simp_all add: sound_part_def stream_volume_def screen_wanted_def split: option.split)
  have parts: "sound_sinks c' = sound_sinks c" "wc_screen_audio_mids c' = wc_screen_audio_mids c"
    using assms by (simp_all add: sound_part_def)
  show shape: "sound_shape c' = sound_shape c" unfolding sound_shape_alt fields parts by (rule refl)
  show at: "sound_at c' m = sound_at c m" for m unfolding sound_at_def sound_tracks_alt fields parts by (rule refl)
  show "sound_ok c' = sound_ok c" by (simp add: sound_ok_def shape at)
qed

lemma sound_shape_mono:
  assumes "sound_shape c" and "sound_sinks c' = sound_sinks c" and "wc_screen_audio_mids c' = wc_screen_audio_mids c"
    and "\<And>p. 0 \<le> stream_volume p c' \<and> stream_volume p c' \<le> 2"
  shows "sound_shape c'"
  using assms(1,4) unfolding sound_shape_alt assms(2,3) by blast

lemma stream_volume_range: "sound_shape c \<Longrightarrow> 0 \<le> stream_volume p c \<and> stream_volume p c \<le> 2"
  by (simp add: sound_shape_def)

lemma sound_part_fields [simp]:
  "sound_part (c\<lparr>wc_screen_video_mids := x5\<rparr>) = sound_part c" "sound_part (c\<lparr>wc_screen_stats := x17\<rparr>) = sound_part c"
  "sound_part (c\<lparr>wc_sent := x24\<rparr>) = sound_part c" "sound_part (c\<lparr>wc_frames := x25\<rparr>) = sound_part c"
  by (simp_all add: sound_part_def sound_sinks_def)

lemma sound_part_helpers [simp]:
  "sound_part (frame_removed p c) = sound_part c" "sound_part (show_frame p c) = sound_part c"
  "sound_part (send m c) = sound_part c"
  by (simp_all add: frame_removed_def show_frame_def send_def)

lemma sound_part_folds [simp]:
  "sound_part (fold (\<lambda>p. send (WatchStart p)) ps c) = sound_part c"
  "sound_part (fold (\<lambda>p. send (WatchStop p)) ps c) = sound_part c"
  "sound_part (fold frame_removed ps c) = sound_part c"
  by (rule fold_same, simp)+

lemma screen_wanted_sane: "sound_shape c \<Longrightarrow> sane (screen_wanted c m)"
proof (cases "map_of (wc_screen_bindings c) m")
  case (Some p)
  assume "sound_shape c"
  then have "0 \<le> stream_volume p c" "stream_volume p c \<le> 2" by (simp_all add: sound_shape_def)
  then show ?thesis using Some by (simp add: sane_def screen_wanted_def)
qed (simp add: sane_def screen_wanted_def)

text \<open>Updates of some sinks, where the others already play as wanted.\<close>

lemma sound_sinks_apply: "sound_sinks (apply_screen us c) = map_option (map_option (retune us)) (sound_sinks c)"
  by (cases "wc_screen c")
    (auto simp: sound_sinks_def apply_screen_def apply_screen_updates_retuned retuned_def option.map_comp comp_def)

lemma sound_shape_apply: "sound_shape (apply_screen us c) = sound_shape c"
proof -
  have fields: "stream_volume p (apply_screen us c) = stream_volume p c"
    "wc_screen_audio_mids (apply_screen us c) = wc_screen_audio_mids c" for p
    by (simp_all add: apply_screen_def stream_volume_def)
  show ?thesis
    unfolding sound_shape_alt sound_sinks_apply fields
    by (cases "sound_sinks c") (simp_all add: option.map_comp comp_def)
qed

lemma sound_tracks_apply: "sound_tracks (apply_screen us c) = retune us (sound_tracks c)"
proof -
  have "retune us [] = []" using keys_retune [of us "[]"] by (simp del: keys_retune)
  then show ?thesis
    by (simp add: sound_tracks_def apply_screen_def apply_screen_updates_retuned retuned_def split: option.split prod.split)
qed

lemma sound_ok_updated:
  assumes "sound_shape c" and "us = map (screen_wanted c) ms" and others: "\<And>m. m \<notin> set ms \<Longrightarrow> sound_at c m"
  shows "sound_ok (apply_screen us c)"
proof -
  have wanted: "screen_wanted (apply_screen us c) m = screen_wanted c m" for m
    by (simp add: apply_screen_def screen_wanted_def stream_volume_def split: option.split)
  have "sound_at (apply_screen us c) m" for m
  proof (cases "m \<in> set ms")
    case True
    have "follows (screen_wanted c m) tr" if "map_of (retune us (sound_tracks c)) m = Some tr" for tr
    proof -
      have all: "\<forall>u\<in>set us. u = screen_wanted c (tu_mid u)" and m: "m \<in> tu_mid ` set us"
        using True assms(2) by (auto simp: image_image)
      have "map_option (track_after (screen_wanted c m)) (map_of (sound_tracks c) m) = Some tr"
        using that by (simp only: map_of_retune [OF all] m if_True)
      then obtain tr0 where "tr = track_after (screen_wanted c m) tr0" by auto
      then show ?thesis using track_after_follows screen_wanted_sane [OF assms(1)] by blast
    qed
    then show ?thesis by (simp add: sound_at_def sound_tracks_apply wanted)
  next
    case False
    then have "map_of (retune us (sound_tracks c)) m = map_of (sound_tracks c) m"
      using map_of_retune [of us "screen_wanted c" "sound_tracks c" m] assms(2) by (auto simp: image_image)
    then show ?thesis using others [OF False] by (simp add: sound_at_def sound_tracks_apply wanted)
  qed
  then show ?thesis using assms(1) by (simp add: sound_ok_def sound_shape_apply)
qed

lemma sound_absent: "sound_shape c \<Longrightarrow> m \<notin> set (wc_screen_audio_mids c) \<Longrightarrow> sound_at c m"
proof -
  assume "sound_shape c" and "m \<notin> set (wc_screen_audio_mids c)"
  then have "map_of (sound_tracks c) m = None"
    by (auto simp: sound_shape_def sound_tracks_def map_of_None_keys split: option.splits) (metis fst_conv image_eqI)
  then show ?thesis by (simp add: sound_at_def)
qed

lemma sound_ok_refreshed:
  assumes "sound_shape c"
  shows "sound_ok (refresh_screen c)"
proof (cases "wc_screen c = None")
  case True
  then have "wc_screen_audio_mids c = []" using assms by (simp add: sound_shape_def)
  then have "sound_at c m" for m using sound_absent [OF assms] by simp
  then show ?thesis
    using sound_ok_updated [of c "[]" "[]"] assms True by (simp add: refresh_screen_def all_screen_updates_wanted)
next
  case False
  show ?thesis
    unfolding refresh_screen_def all_screen_updates_wanted if_not_P [OF False]
    by (rule sound_ok_updated [OF assms refl sound_absent [OF assms]])
qed

lemma sound_ok_one:
  assumes "sound_shape c" and "\<And>m'. m' \<noteq> m \<Longrightarrow> sound_at c m'"
  shows "sound_ok (apply_screen (to_list (screen_update_locked c m)) c)"
proof (cases "wc_screen c = None \<or> m \<notin> set (wc_screen_audio_mids c)")
  case True
  then have "m \<notin> set (wc_screen_audio_mids c)" using assms(1) by (auto simp: sound_shape_def)
  then have "sound_at c m'" for m' using assms(2) sound_absent [OF assms(1)] by metis
  then have "sound_ok (apply_screen [] c)" using sound_ok_updated [OF assms(1), of "[]" "[]"] by simp
  moreover have "to_list (screen_update_locked c m) = []" unfolding screen_update_wanted to_list_def using True by simp
  ultimately show ?thesis by simp
next
  case False
  show ?thesis
    unfolding screen_update_wanted if_not_P [OF False] to_list_def option.case
    by (rule sound_ok_updated [OF assms(1), of _ "[m]"]) (simp_all add: assms(2))
qed

text \<open>The operations.\<close>

lemma sound_ok_screen_part:
  assumes "screen_part c' = screen_part c"
  shows "sound_ok c' = sound_ok c"
  by (rule sound_part_cong) (use assms in \<open>simp add: screen_part_def sound_part_def sound_sinks_def\<close>)

lemma sound_part_put:
  "wc_screen c = Some (t, s) \<Longrightarrow> map_option rs_audio (ss_remote_sinks s') = map_option rs_audio (ss_remote_sinks s) \<Longrightarrow>
   sound_part (put_screen s' c) = sound_part c"
  by (simp add: sound_part_def sound_sinks_def put_screen_def)

lemma sinks_kept [simp]:
  "ss_remote_sinks (screen_report err s) = ss_remote_sinks s"
  "ss_remote_sinks (snd (start_desktop_capture native begins fps w h s)) = ss_remote_sinks s"
  "ss_remote_sinks (stop_desktop_capture s) = ss_remote_sinks s"
  "ss_remote_sinks (set_sharing_enabled b s) = ss_remote_sinks s"
  "ss_remote_sinks (set_system_audio_enabled b s) = ss_remote_sinks s"
  "ss_remote_sinks (screen_set_local_preview b s) = ss_remote_sinks s"
  by (simp_all add: screen_report_def start_desktop_capture_def stop_desktop_capture_def set_sharing_enabled_def
      set_system_audio_enabled_def screen_set_local_preview_def Let_def split: option.split prod.split)

lemma sound_part_kept:
  "sound_part (snd (apply_sharing native begins audio local_id q c)) = sound_part c"
  "sound_part (stop_sharing c) = sound_part c"
  "sound_part (set_local_preview_enabled b c) = sound_part c"
  "sound_part (screen_frame t m c) = sound_part c"
  "sound_part (screen_local_frame t c) = sound_part c"
  "sound_part (snd (screen_stats_json p c)) = sound_part c"
  "sound_part (screen_stats_answered dump t g inbound now c) = sound_part c"
proof -
  have put: "sound_part (put_screen s' c\<lparr>wc_system_audio_capture := x, wc_sharing_active := y, wc_local_preview_peer := z\<rparr>) = sound_part c"
      "sound_part (put_screen s' c) = sound_part c"
    if "wc_screen c = Some (t, s)" "ss_remote_sinks s' = ss_remote_sinks s" for t s s' x y z
    using that by (simp_all add: sound_part_def sound_sinks_def put_screen_def)
  show "sound_part (snd (apply_sharing native begins audio local_id q c)) = sound_part c"
  proof (cases "wc_screen c")
    case (Some ts)
    obtain t s where ts: "ts = (t, s)" by (cases ts)
    obtain ok s1 where s1: "start_desktop_capture native begins (sq_fps q) (sq_max_width q) (sq_max_height q) s = (ok, s1)"
      by fastforce
    then have "ss_remote_sinks s1 = ss_remote_sinks s"
      using sinks_kept(2) [of native begins "sq_fps q" "sq_max_width q" "sq_max_height q" s] by simp
    then show ?thesis using Some ts s1 put [OF Some [unfolded ts]] by (simp add: apply_sharing_def)
  qed (simp add: apply_sharing_def)
  show "sound_part (stop_sharing c) = sound_part c" "sound_part (set_local_preview_enabled b c) = sound_part c"
    by (cases "wc_screen c";
        simp add: stop_sharing_def set_local_preview_enabled_def Let_def; simp add: sound_part_def sound_sinks_def)+
  show "sound_part (screen_frame t m c) = sound_part c" "sound_part (screen_local_frame t c) = sound_part c"
    by (simp_all add: screen_frame_def screen_local_frame_def with_screen_def deliver_video_def deliver_local_video_def
        split: option.split prod.split)
  show "sound_part (snd (screen_stats_json p c)) = sound_part c"
    "sound_part (screen_stats_answered dump t g inbound now c) = sound_part c"
    by (simp_all add: screen_stats_json_def screen_stats_answered_def with_screen_def Let_def
        split: option.split prod.split)
qed

lemma sound_ok_begun:
  assumes "sound_ok c" and "wc_screen c = None" and "screen_make r (wc_local_preview_enabled c) = (True, s)"
  shows "sound_ok (refresh_screen (c\<lparr>wc_screen := Some (t, s)\<rparr>))"
  by (rule sound_ok_refreshed)
    (use assms in \<open>simp add: sound_ok_def sound_shape_def screen_make_session [OF assms(3)] new_remote_sinks_def stream_volume_def\<close>)

lemma sound_ok_stopped:
  assumes "\<forall>p. 0 \<le> stream_volume p c \<and> stream_volume p c \<le> 2"
  shows "sound_ok (stop_screen_session c)"
proof -
  have part: "sound_part (stop_screen_session c) = (None, [], [], wc_watched_peers c, wc_screen_peer_volumes c)"
    unfolding stop_screen_session_def Let_def by simp (simp add: sound_part_def sound_sinks_def)
  then have shape: "sound_shape (stop_screen_session c)"
    using assms by (simp add: sound_part_def sound_sinks_def sound_shape_def stream_volume_def)
  then show ?thesis using sound_absent [OF shape] part by (simp add: sound_ok_def sound_part_def)
qed

lemma sound_ok_deinited:
  assumes "sound_ok c"
  shows "sound_ok (deinit_screen c)"
proof -
  have "wc_screen_peer_volumes (fold (\<lambda>p. send (WatchStop p)) ps (stop_sharing c')) = wc_screen_peer_volumes c'" for ps c'
  proof -
    have "sound_part (fold (\<lambda>p. send (WatchStop p)) ps (stop_sharing c')) = sound_part c'" by (simp add: sound_part_kept)
    then show ?thesis by (simp add: sound_part_def)
  qed
  then show ?thesis
    using assms unfolding deinit_screen_def Let_def
    by (intro sound_ok_stopped) (simp add: stream_volume_def sound_ok_def sound_shape_def)
qed

lemma sound_ok_watching:
  assumes "sound_ok c"
  shows "sound_ok (handle_watch_rejected p c)" "sound_ok (join_stream p c)" "sound_ok (leave_stream p c)"
    "sound_ok (leave_streams c)" "sound_ok (peer_stopped_streaming p c)"
proof -
  have shape: "sound_shape c" using assms by (simp add: sound_ok_def)
  have refreshed: "sound_ok (refresh_screen (c\<lparr>wc_watched_peers := w, wc_screen_stats := st\<rparr>))"
    "sound_ok (refresh_screen (c\<lparr>wc_watched_peers := w\<rparr>))" for w st
    by (rule sound_ok_refreshed, rule sound_shape_mono [OF shape];
        use stream_volume_range [OF shape] in \<open>simp add: sound_sinks_def stream_volume_def\<close>)+
  have helpers: "sound_ok (frame_removed p c') = sound_ok c'" "sound_ok (send m c') = sound_ok c'"
    "sound_ok (fold frame_removed ps c') = sound_ok c'" "sound_ok (fold (\<lambda>p. send (WatchStop p)) ps c') = sound_ok c'"
    for p m ps c'
    by (rule sound_part_cong(3), simp)+
  show "sound_ok (handle_watch_rejected p c)" "sound_ok (join_stream p c)" "sound_ok (leave_stream p c)"
    "sound_ok (leave_streams c)" "sound_ok (peer_stopped_streaming p c)"
    by (simp_all add: handle_watch_rejected_def join_stream_def leave_stream_def leave_streams_def
        peer_stopped_streaming_def Let_def helpers refreshed)
qed

lemma sound_ok_volumes:
  assumes "sound_ok c"
  shows "sound_ok (set_stream_volume p v c)" and "sound_ok (remove_peer p c)"
proof -
  have shape: "sound_shape c" using assms by (simp add: sound_ok_def)
  have "sound_shape (c\<lparr>wc_screen_peer_volumes := AList.update p (clamp_volume v) (wc_screen_peer_volumes c)\<rparr>)"
    by (rule sound_shape_mono [OF shape]; use stream_volume_range [OF shape] in
        \<open>simp add: sound_sinks_def stream_volume_def map_of_update clamp_volume_def\<close>)
  then show "sound_ok (set_stream_volume p v c)" unfolding set_stream_volume_def by (rule sound_ok_refreshed)
  have "sound_shape (c\<lparr>wc_voice_peer_volumes := x, wc_voice_peer_muted := y,
      wc_screen_peer_volumes := AList.delete p (wc_screen_peer_volumes c),
      wc_watched_peers := w, wc_screen_stats := st\<rparr>)" for x y w st
    by (rule sound_shape_mono [OF shape]; use stream_volume_range [OF shape] in
        \<open>simp add: sound_sinks_def stream_volume_def map_of_delete\<close>)
  then have refreshed: "sound_ok (refresh_screen (c\<lparr>wc_voice_peer_volumes := x, wc_voice_peer_muted := y,
      wc_screen_peer_volumes := AList.delete p (wc_screen_peer_volumes c),
      wc_watched_peers := w, wc_screen_stats := st\<rparr>))" for x y w st
    by (rule sound_ok_refreshed)
  have helpers: "sound_ok (frame_removed p c') = sound_ok c'" "sound_ok (send m c') = sound_ok c'" for p m c'
    by (rule sound_part_cong(3), simp)+
  show "sound_ok (remove_peer p c)"
    by (simp add: remove_peer_def peer_stopped_streaming_def Let_def helpers refreshed)
qed

lemma sound_ok_bound:
  assumes "sound_ok c"
  shows "sound_ok (apply_binding Screen m peer c)"
proof -
  have shape: "sound_shape c" using assms by (simp add: sound_ok_def)
  have one: "sound_ok (apply_screen (to_list (screen_update_locked c2 m)) c2)"
    if c2: "sound_sinks c2 = sound_sinks c" "wc_screen_audio_mids c2 = wc_screen_audio_mids c"
      "wc_watched_peers c2 = wc_watched_peers c" "wc_screen_peer_volumes c2 = wc_screen_peer_volumes c"
      "wc_screen_bindings c2 = bind_mid m peer (wc_screen_bindings c)" for c2
  proof (rule sound_ok_one)
    show "sound_shape c2"
      by (rule sound_shape_mono [OF shape c2(1,2)]) (use stream_volume_range [OF shape] c2(4) in \<open>simp add: stream_volume_def\<close>)
    fix m' assume "m' \<noteq> m"
    then have "screen_wanted c2 m' = screen_wanted c m'"
      by (simp add: screen_wanted_def c2 bind_mid_def map_of_update map_of_delete stream_volume_def split: option.split)
    then show "sound_at c2 m'"
      using assms unfolding sound_ok_def sound_at_def sound_tracks_alt c2(1) by simp
  qed
  have frame: "sound_ok (frame_removed p c') = sound_ok c'" for p c' by (rule sound_part_cong(3)) simp
  show ?thesis
    by (simp add: apply_binding_def Let_def frame) (auto intro!: one simp: sound_sinks_def)
qed

lemma screen_on_track_cases:
  assumes "ss_remote_sinks s = Some r"
  shows "screen_on_track mid kind tr s = (None, s) \<or>
    (\<exists>m. screen_on_track mid kind tr s = (Some (m, True), s\<lparr>ss_remote_sinks := Some (attach_video m r)\<rparr>)) \<or>
    (\<exists>m. screen_on_track mid kind tr s = (Some (m, False), s\<lparr>ss_remote_sinks := Some (attach_audio m tr r)\<rparr>))"
  by (cases mid; cases kind; simp add: screen_on_track_def assms)

lemma sound_ok_tracked:
  assumes "sound_ok c"
  shows "sound_ok (screen_track_added t mid kind new_audio_track c)"
proof (cases "wc_screen c")
  case (Some ts)
  obtain t' s where ts: "ts = (t', s)" by (cases ts)
  have shape: "sound_shape c" using assms by (simp add: sound_ok_def)
  then obtain r where r: "ss_remote_sinks s = Some r" "set (keys (rs_audio r)) = set (wc_screen_audio_mids c)"
    using Some ts by (auto simp: sound_shape_def)
  have put: "sound_ok (put_screen s' c)" "sound_ok (put_screen s' c\<lparr>wc_screen_video_mids := vs\<rparr>)"
    if "map_option rs_audio (ss_remote_sinks s') = map_option rs_audio (ss_remote_sinks s)" for s' vs
    using sound_part_cong(3) [OF sound_part_put [OF Some [unfolded ts] that]] assms
      sound_part_cong(3) [OF sound_part_fields(1)] by blast+
  have tuned: "sound_ok (apply_screen (to_list (screen_update_locked c1 m)) c1)"
    if c1: "c1 = (put_screen (s\<lparr>ss_remote_sinks := Some (attach_audio m new_audio_track r)\<rparr>) c)
      \<lparr>wc_screen_audio_mids := set_insert m (wc_screen_audio_mids c)\<rparr>" for m c1
  proof (rule sound_ok_one)
    have tracks: "sound_sinks c1 = Some (Some (rs_audio (attach_audio m new_audio_track r)))"
      using Some ts by (simp add: c1 sound_sinks_def put_screen_def)
    show "sound_shape c1"
      using stream_volume_range [OF shape] r(2) unfolding sound_shape_alt tracks
      by (auto simp: c1 attach_audio_def stream_volume_def put_screen_def set_insert_def)
    fix m' assume "m' \<noteq> m"
    then have "map_of (sound_tracks c1) m' = map_of (sound_tracks c) m'"
      using Some ts r unfolding sound_tracks_alt tracks
      by (simp add: sound_sinks_def attach_audio_def map_add_def split: option.split)
    moreover have "screen_wanted c1 m' = screen_wanted c m'"
      by (simp add: c1 put_screen_def screen_wanted_def stream_volume_def split: option.split)
    ultimately show "sound_at c1 m'" using assms by (simp add: sound_ok_def sound_at_def)
  qed
  let ?on_track = "screen_on_track mid kind new_audio_track s"
  consider (none) "?on_track = (None, s)"
    | (video) m where "?on_track = (Some (m, True), s\<lparr>ss_remote_sinks := Some (attach_video m r)\<rparr>)"
    | (audio) m where "?on_track = (Some (m, False), s\<lparr>ss_remote_sinks := Some (attach_audio m new_audio_track r)\<rparr>)"
    using screen_on_track_cases [OF r(1)] by blast
  then have "sound_ok (screen_track_added t' mid kind new_audio_track c)"
  proof cases
    case none
    then show ?thesis using Some ts put(1) [OF refl] by (simp add: screen_track_added_def with_screen_def)
  next
    case (video m)
    have "map_option rs_audio (ss_remote_sinks (s\<lparr>ss_remote_sinks := Some (attach_video m r)\<rparr>)) =
        map_option rs_audio (ss_remote_sinks s)"
      using r(1) by (simp add: attach_video_def)
    then show ?thesis using Some ts video put(2) by (simp add: screen_track_added_def with_screen_def)
  next
    case (audio m)
    then show ?thesis using Some ts tuned [OF refl, of m] by (simp add: screen_track_added_def with_screen_def Let_def)
  qed
  then show ?thesis using assms Some ts by (cases "t = t'") (simp_all add: screen_track_added_def with_screen_def)
qed (use assms in \<open>simp add: screen_track_added_def with_screen_def\<close>)

interpretation sound: screen_invariant sound_ok
proof unfold_locales
  show "sound_ok (new_client on_frame True)" for on_frame
    by (simp add: sound_ok_def sound_shape_def sound_at_def sound_tracks_def new_client_def stream_volume_def)
  show "sound_ok c'" if "screen_part c' = screen_part c" "sound_ok c" for c c'
    using that sound_ok_screen_part by blast
  show "sound_ok (c\<lparr>wc_screen_requested := True\<rparr>)" if "sound_ok c" for c
    by (rule sound_part_cong(3) [THEN iffD2, OF _ that]) (simp add: sound_part_def sound_sinks_def)
  show "sound_ok (put_screen (screen_report err s) c)" if "sound_ok c" "wc_screen c = Some (t, s)" for c err s t
    using sound_part_cong(3) [OF sound_part_put [OF that(2), of "screen_report err s"]] that(1) by simp
  show "sound_ok (stop_screen_session c)" if "sound_ok c" for c
    using sound_ok_stopped that by (simp add: sound_ok_def sound_shape_def)
qed ((rule sound_part_kept [THEN sound_part_cong(3), THEN iffD2] sound_ok_begun sound_ok_deinited sound_ok_watching
    sound_ok_volumes sound_ok_bound sound_ok_tracked; assumption)+)

text \<open>
  C20: in every run of the media client, what is shared agrees with the session: something is shared
  only while there is a session, the session sends video and its capture runs exactly while the screen
  is shared, it sends the sound of the system exactly while that is captured, the own screen is
  previewed only while it is shared and the preview wanted, and no session outlives the wish for one.
\<close>

theorem screen_sharing_consistent:
  "let c = fold (client_step dump) evs (new_client on_frame True) in
     (case wc_screen c of
        None \<Rightarrow> \<not> wc_sharing_active c
      | Some (t, s) \<Rightarrow> wc_screen_requested c \<and> ss_started s \<and> ss_video_track s = Some (wc_sharing_active c) \<and>
          map_option ds_capture_thread (ss_video_source s) = Some (wc_sharing_active c) \<and>
          ss_audio_track s = Some (wc_system_audio_capture c) \<and>
          map_option ls_attached (ss_local_preview_sink s) = Some (wc_local_preview_enabled c)) \<and>
     (if wc_sharing_active c then wc_screen c \<noteq> None else \<not> wc_system_audio_capture c \<and> wc_local_preview_peer c = [])"
proof -
  have "sharing_ok (fold (client_step dump) evs (new_client on_frame True))" by (rule sharing.always)
  then show ?thesis unfolding Let_def by (auto simp: sharing_ok_def switches_def split: option.splits)
qed


end
