(* ===== verification/Webrtc_Frames.thy ===== *)
theory Webrtc_Frames
  imports Webrtc_Screen
begin

text \<open>
  The frames of watched screens and of the own preview: whatever the user, the server and the sessions
  do, nothing stays on the user's screen that should not be there. At the end, a run of the screen side,
  and what a frame under way while its stream is left does.
\<close>

section \<open>What is on the screen\<close>

text \<open>The peers whose frame was shown, and not removed since.\<close>

fun shown_after :: "frame_event \<Rightarrow> peer_id set \<Rightarrow> peer_id set" where
  "shown_after (Frame_Shown p) S = insert p S"
| "shown_after (Frame_Removed p) S = S - {p}"

definition frames_on_screen :: "client \<Rightarrow> peer_id set" where
  "frames_on_screen c = fold shown_after (wc_frames c) {}"

definition bound_video :: "client \<Rightarrow> peer_id \<Rightarrow> bool" where
  "bound_video c p \<longleftrightarrow> (\<exists>m\<in>set (wc_screen_video_mids c). map_of (wc_screen_bindings c) m = Some p)"

definition may_show :: "client \<Rightarrow> peer_id \<Rightarrow> bool" where
  "may_show c p \<longleftrightarrow> p \<in> set (wc_watched_peers c) \<and> bound_video c p \<or>
     wc_sharing_active c \<and> wc_local_preview_enabled c \<and> p = wc_local_preview_peer c"

text \<open>The video sinks of the session are those the client knows of.\<close>

definition video_sinks :: "client \<Rightarrow> string set" where
  "video_sinks c =
     (case wc_screen c of
        None \<Rightarrow> {}
      | Some (t, s) \<Rightarrow> (case ss_remote_sinks s of None \<Rightarrow> {} | Some r \<Rightarrow> set (rs_video r)))"

definition frames_ok :: "client \<Rightarrow> bool" where
  "frames_ok c \<longleftrightarrow>
     wc_on_frame_removed c \<and> distinct (keys (wc_screen_bindings c)) \<and>
     video_sinks c \<subseteq> set (wc_screen_video_mids c) \<and>
     (\<forall>p\<in>frames_on_screen c. p \<noteq> [] \<longrightarrow> may_show c p)"

definition frames_part where
  "frames_part c = (wc_on_frame_removed c, wc_screen_bindings c, wc_screen_video_mids c, wc_watched_peers c,
     wc_sharing_active c, wc_local_preview_enabled c, wc_local_preview_peer c, wc_frames c, video_sinks c)"

lemma frames_part_cong: "frames_part c' = frames_part c \<Longrightarrow> frames_ok c' = frames_ok c"
  by (simp add: frames_part_def frames_ok_def frames_on_screen_def may_show_def bound_video_def)

lemma on_screen_helpers:
  "frames_on_screen (frame_removed p c) = (if wc_on_frame_removed c then frames_on_screen c - {p} else frames_on_screen c)"
  "frames_on_screen (show_frame p c) = (if wc_on_frame c then insert p (frames_on_screen c) else frames_on_screen c)"
  "frames_on_screen (send m c) = frames_on_screen c"
  by (simp_all add: frames_on_screen_def frame_removed_def show_frame_def send_def)

lemma video_sinks_helpers [simp]:
  "video_sinks (frame_removed p c) = video_sinks c" "video_sinks (show_frame p c) = video_sinks c"
  "video_sinks (send m c) = video_sinks c" "video_sinks (apply_screen us c) = video_sinks c"
  "video_sinks (refresh_screen c) = video_sinks c"
proof -
  show tuned: "video_sinks (apply_screen us c) = video_sinks c" for us
  proof (cases "wc_screen c")
    case (Some ts)
    then show ?thesis
      by (cases ts; cases "ss_remote_sinks (snd ts)")
        (simp_all add: video_sinks_def apply_screen_def apply_screen_updates_retuned retuned_def)
  qed (simp add: video_sinks_def apply_screen_def)
  show "video_sinks (refresh_screen c) = video_sinks c" by (simp add: refresh_screen_def tuned)
qed (simp_all add: video_sinks_def frame_removed_def show_frame_def send_def)

lemma frames_part_helpers [simp]:
  "frames_part (send m c) = frames_part c" "frames_part (apply_screen us c) = frames_part c"
  "frames_part (refresh_screen c) = frames_part c"
proof -
  show tuned: "frames_part (apply_screen us c) = frames_part c" for us
    using video_sinks_helpers(4) [of us c] by (simp add: frames_part_def) (simp add: apply_screen_def)
  show "frames_part (refresh_screen c) = frames_part c" by (simp add: refresh_screen_def tuned)
  show "frames_part (send m c) = frames_part c"
    using video_sinks_helpers(3) [of m c] by (simp add: frames_part_def) (simp add: send_def)
qed

lemma frames_part_folds [simp]:
  "frames_part (fold (\<lambda>p. send (WatchStart p)) ps c) = frames_part c"
  "frames_part (fold (\<lambda>p. send (WatchStop p)) ps c) = frames_part c"
  by (rule fold_same, simp)+

lemma frame_removed_fields [simp]:
  "wc_on_frame_removed (frame_removed p c) = wc_on_frame_removed c"
  "wc_screen_bindings (frame_removed p c) = wc_screen_bindings c"
  "wc_screen_video_mids (frame_removed p c) = wc_screen_video_mids c"
  "wc_watched_peers (frame_removed p c) = wc_watched_peers c"
  "wc_sharing_active (frame_removed p c) = wc_sharing_active c"
  "wc_local_preview_enabled (frame_removed p c) = wc_local_preview_enabled c"
  "wc_local_preview_peer (frame_removed p c) = wc_local_preview_peer c"
  by (simp_all add: frame_removed_def)

text \<open>A change of the tables, followed by removing some peers' frames.\<close>

lemma frames_ok_change:
  assumes "frames_ok c" and "wc_on_frame_removed c'" and "distinct (keys (wc_screen_bindings c'))"
    and "video_sinks c' \<subseteq> set (wc_screen_video_mids c')" and "frames_on_screen c' \<subseteq> frames_on_screen c"
    and "\<And>p. p \<in> frames_on_screen c' \<Longrightarrow> p \<noteq> [] \<Longrightarrow> may_show c p \<Longrightarrow> may_show c' p"
  shows "frames_ok c'"
  using assms unfolding frames_ok_def by blast

lemma frames_okD:
  assumes "frames_ok c"
  shows "wc_on_frame_removed c" "distinct (keys (wc_screen_bindings c))" "video_sinks c \<subseteq> set (wc_screen_video_mids c)"
  using assms by (simp_all add: frames_ok_def)

lemma on_screen_part: "frames_part c' = frames_part c \<Longrightarrow> frames_on_screen c' = frames_on_screen c"
  by (simp add: frames_part_def frames_on_screen_def)

lemma on_screen_remove_all:
  "wc_on_frame_removed c \<Longrightarrow> frames_on_screen (fold frame_removed ps c) = frames_on_screen c - set ps"
  by (induction ps arbitrary: c) (auto simp: on_screen_helpers)

lemma fold_frame_removed_fields [simp]:
  "wc_on_frame_removed (fold frame_removed ps c) = wc_on_frame_removed c"
  "wc_screen_bindings (fold frame_removed ps c) = wc_screen_bindings c"
  "wc_screen_video_mids (fold frame_removed ps c) = wc_screen_video_mids c"
  "wc_watched_peers (fold frame_removed ps c) = wc_watched_peers c"
  "wc_sharing_active (fold frame_removed ps c) = wc_sharing_active c"
  "wc_local_preview_enabled (fold frame_removed ps c) = wc_local_preview_enabled c"
  "wc_local_preview_peer (fold frame_removed ps c) = wc_local_preview_peer c"
  "video_sinks (fold frame_removed ps c) = video_sinks c"
  by (rule fold_same, simp)+

section \<open>The operations\<close>

lemma bound_video_mono:
  assumes "bound_video c p" and "set (wc_screen_video_mids c) \<subseteq> set (wc_screen_video_mids c')"
    and "\<And>m. map_of (wc_screen_bindings c) m = Some p \<Longrightarrow> map_of (wc_screen_bindings c') m = Some p"
  shows "bound_video c' p"
  using assms unfolding bound_video_def by blast

text \<open>Watching changed, sinks were updated, and messages sent; nothing else.\<close>

lemma frames_ok_unwatched:
  assumes "frames_ok c"
    and "frames_part c' = frames_part (c\<lparr>wc_watched_peers := w\<rparr>)" and "set (wc_watched_peers c) - set ps \<subseteq> set w"
  shows "frames_ok (fold frame_removed ps c')"
proof (rule frames_ok_change [OF assms(1)])
  have fields: "wc_on_frame_removed c' = wc_on_frame_removed c" "wc_screen_bindings c' = wc_screen_bindings c"
    "wc_screen_video_mids c' = wc_screen_video_mids c" "wc_watched_peers c' = w"
    "wc_sharing_active c' = wc_sharing_active c" "wc_local_preview_enabled c' = wc_local_preview_enabled c"
    "wc_local_preview_peer c' = wc_local_preview_peer c" "video_sinks c' = video_sinks c" "frames_on_screen c' = frames_on_screen c"
    using assms(2) by (simp_all add: frames_part_def frames_on_screen_def video_sinks_def)
  note D = frames_okD [OF assms(1)]
  have shown: "frames_on_screen (fold frame_removed ps c') = frames_on_screen c - set ps"
    using on_screen_remove_all [of c' ps] fields D(1) by simp
  then show "frames_on_screen (fold frame_removed ps c') \<subseteq> frames_on_screen c" by blast
  show "wc_on_frame_removed (fold frame_removed ps c')" "distinct (keys (wc_screen_bindings (fold frame_removed ps c')))"
    "video_sinks (fold frame_removed ps c') \<subseteq> set (wc_screen_video_mids (fold frame_removed ps c'))"
    using D by (simp_all add: fields)
  fix p assume "p \<in> frames_on_screen (fold frame_removed ps c')" and "may_show c p"
  then show "may_show (fold frame_removed ps c') p"
    using shown assms(3) by (auto simp: may_show_def bound_video_def fields)
qed

lemma frames_part_update:
  "frames_part (c\<lparr>wc_watched_peers := w, wc_screen_stats := st\<rparr>) = frames_part (c\<lparr>wc_watched_peers := w\<rparr>)"
  "frames_part (c\<lparr>wc_screen_stats := st\<rparr>) = frames_part c"
  by (simp_all add: frames_part_def video_sinks_def)

lemma frames_ok_watching:
  assumes "frames_ok c"
  shows "frames_ok (handle_watch_rejected p c)" "frames_ok (join_stream p c)" "frames_ok (leave_stream p c)"
    "frames_ok (leave_streams c)" "frames_ok (peer_stopped_streaming p c)"
proof -
  note change = frames_ok_unwatched [OF assms]
  let ?erased = "\<lambda>c'. frames_part c' = frames_part (c\<lparr>wc_watched_peers := set_erase p (wc_watched_peers c)\<rparr>)"
  have removed: "frames_ok (frame_removed p c')" if "?erased c'" for c'
    using change [OF that, of "[p]"] by simp
  have kept: "frames_ok c'" if "?erased c'" "p \<notin> set (wc_watched_peers c)" for c'
    using change [OF that(1), of "[]"] that(2) by auto
  note parts = frames_part_update removed kept
  show "frames_ok (handle_watch_rejected p c)" "frames_ok (leave_stream p c)" "frames_ok (peer_stopped_streaming p c)"
    by (simp_all add: handle_watch_rejected_def leave_stream_def peer_stopped_streaming_def Let_def parts)
  have inserted: "frames_ok c'" if "frames_part c' = frames_part (c\<lparr>wc_watched_peers := set_insert p (wc_watched_peers c)\<rparr>)" for c'
    using change [OF that, of "[]"] by auto
  have "frames_ok (refresh_screen (c\<lparr>wc_watched_peers := set_insert p (wc_watched_peers c), wc_screen_stats := st\<rparr>))"
    "frames_ok (refresh_screen (c\<lparr>wc_watched_peers := set_insert p (wc_watched_peers c)\<rparr>))" for st
    by (rule inserted, simp add: frames_part_update)+
  then show "frames_ok (join_stream p c)"
    by (simp add: join_stream_def Let_def frames_part_cong [OF frames_part_helpers(1)])
  show "frames_ok (leave_streams c)"
    unfolding leave_streams_def Let_def by (rule change [of _ "[]"]) (simp_all add: frames_part_update)
qed

lemma frames_ok_part_of:
  assumes "frames_ok c" and "frames_part c' = frames_part c"
  shows "frames_ok c'"
  using assms frames_part_cong by blast

text \<open>Removing peers without tables: what is shown is bound by a video slot or is the preview.\<close>

definition frames_weak :: "client \<Rightarrow> bool" where
  "frames_weak c \<longleftrightarrow>
     wc_on_frame_removed c \<and> distinct (keys (wc_screen_bindings c)) \<and>
     (\<forall>p\<in>frames_on_screen c. p \<noteq> [] \<longrightarrow> bound_video c p \<or> p = wc_local_preview_peer c)"

lemma frames_ok_weak: "frames_ok c \<Longrightarrow> frames_weak c"
  by (auto simp: frames_ok_def frames_weak_def may_show_def)

lemma set_sort_unique [simp]: "set (sort_unique ps) = set ps"
  by (simp add: sort_unique_def)

lemma frames_ok_stopped:
  assumes "frames_weak c"
  shows "frames_ok (stop_screen_session c)"
proof -
  define ps where "ps = sort_unique [p. (mid, p) \<leftarrow> wc_screen_bindings c, mid \<in> set (wc_screen_video_mids c)]"
  define c1 where "c1 = c\<lparr>wc_screen := None, wc_system_audio_capture := False, wc_screen_bindings := [],
      wc_screen_video_mids := [], wc_screen_audio_mids := [],
      wc_screen_stats := stats_reset_session (wc_screen_stats c), wc_sharing_active := False,
      wc_local_preview_peer := [], wc_system_audio_frame := [], wc_playout := playout_stop (wc_playout c)\<rparr>"
  define c2 where "c2 = fold frame_removed ps c1"
  have stop: "stop_screen_session c = (if wc_local_preview_peer c \<noteq> [] then frame_removed (wc_local_preview_peer c) c2 else c2)"
    by (simp add: stop_screen_session_def Let_def c1_def c2_def ps_def)
  have c1: "wc_on_frame_removed c1" "frames_on_screen c1 = frames_on_screen c"
    using assms by (simp_all add: c1_def frames_weak_def frames_on_screen_def)
  have c2: "wc_on_frame_removed c2" "wc_screen_bindings c2 = []" "wc_screen_video_mids c2 = []" "video_sinks c2 = {}"
    "frames_on_screen c2 = frames_on_screen c - set ps"
    using c1 on_screen_remove_all [OF c1(1), of ps] by (simp_all add: c2_def) (simp_all add: c1_def video_sinks_def)
  have gone: "p \<notin> frames_on_screen (stop_screen_session c)" if "p \<noteq> []" for p
  proof
    assume "p \<in> frames_on_screen (stop_screen_session c)"
    then have shown: "p \<in> frames_on_screen c" "p \<notin> set ps" "p \<noteq> wc_local_preview_peer c"
      using c2(1,5) that by (auto simp: stop on_screen_helpers split: if_splits)
    have "bound_video c p" using assms that shown(1,3) by (auto simp: frames_weak_def)
    then obtain m where m: "m \<in> set (wc_screen_video_mids c)" "map_of (wc_screen_bindings c) m = Some p"
      unfolding bound_video_def by blast
    have "p \<in> set ps" using m(1) map_of_SomeD [OF m(2)] by (auto simp: ps_def intro!: bexI [of _ "(m, p)"])
    with shown(2) show False ..
  qed
  show ?thesis
    unfolding frames_ok_def using gone c2 by (auto simp: stop)
qed

lemma frames_ok_unshared_weak:
  assumes "frames_weak c"
  shows "frames_weak (stop_sharing c)"
proof -
  define c1 where "c1 = c\<lparr>wc_system_audio_capture := False, wc_sharing_active := False, wc_sharing_request := None,
      wc_local_preview_peer := [], wc_system_audio_frame := [],
      wc_screen := map_option (map_prod id (\<lambda>s.
        stop_desktop_capture (set_sharing_enabled False (set_system_audio_enabled False s)))) (wc_screen c)\<rparr>"
  define c2 where "c2 = (if wc_sharing_active c then send (StreamingStop None) c1 else c1)"
  have stop: "stop_sharing c = (if wc_local_preview_peer c \<noteq> [] then frame_removed (wc_local_preview_peer c) c2 else c2)"
    by (simp add: stop_sharing_def Let_def c1_def c2_def)
  have c2: "wc_on_frame_removed c2" "wc_screen_bindings c2 = wc_screen_bindings c"
    "wc_screen_video_mids c2 = wc_screen_video_mids c" "frames_on_screen c2 = frames_on_screen c" "distinct (keys (wc_screen_bindings c))"
    using assms by (auto simp: c2_def c1_def frames_weak_def frames_on_screen_def send_def)
  show ?thesis
    using assms c2 by (auto simp: stop frames_weak_def bound_video_def on_screen_helpers)
qed

lemma frames_weak_part:
  assumes "wc_on_frame_removed c' = wc_on_frame_removed c" and "wc_screen_bindings c' = wc_screen_bindings c"
    and "wc_screen_video_mids c' = wc_screen_video_mids c" and "wc_local_preview_peer c' = wc_local_preview_peer c"
    and "wc_frames c' = wc_frames c" and "frames_weak c"
  shows "frames_weak c'"
  using assms(6) unfolding frames_weak_def frames_on_screen_def bound_video_def assms(1-5) .

lemma frames_ok_deinited:
  assumes "frames_ok c"
  shows "frames_ok (deinit_screen c)"
proof -
  have sent: "frames_weak (fold (\<lambda>p. send (WatchStop p)) ps c')" if "frames_weak c'" for ps c'
  proof -
    have "frames_part (fold (\<lambda>p. send (WatchStop p)) ps c') = frames_part c'" by simp
    then show ?thesis by (intro frames_weak_part [OF _ _ _ _ _ that]) (simp_all add: frames_part_def)
  qed
  have "frames_weak (c\<lparr>wc_screen_requested := False, wc_watched_peers := [], wc_screen_stats := st\<rparr>)" for st
    by (rule frames_weak_part [OF _ _ _ _ _ frames_ok_weak [OF assms]]) simp_all
  then show ?thesis
    unfolding deinit_screen_def Let_def by (intro frames_ok_stopped sent frames_ok_unshared_weak)
qed

lemma frames_ok_unshared:
  assumes "frames_ok c"
  shows "frames_ok (stop_sharing c)"
proof (rule frames_ok_change [OF assms])
  have sinks: "video_sinks (stop_sharing c) = video_sinks c"
    by (cases "wc_screen c") (auto simp: stop_sharing_def Let_def video_sinks_def frame_removed_def send_def)
  have fields: "wc_screen_bindings (stop_sharing c) = wc_screen_bindings c"
    "wc_screen_video_mids (stop_sharing c) = wc_screen_video_mids c" "wc_watched_peers (stop_sharing c) = wc_watched_peers c"
    "wc_on_frame_removed (stop_sharing c) = wc_on_frame_removed c"
    by (simp_all add: stop_sharing_def Let_def frame_removed_def send_def)
  note D = frames_okD [OF assms]
  show "wc_on_frame_removed (stop_sharing c)" "distinct (keys (wc_screen_bindings (stop_sharing c)))"
    "video_sinks (stop_sharing c) \<subseteq> set (wc_screen_video_mids (stop_sharing c))"
    using D by (simp_all add: fields sinks)
  have shown: "frames_on_screen (stop_sharing c) =
      (if wc_local_preview_peer c = [] then frames_on_screen c else frames_on_screen c - {wc_local_preview_peer c})"
    using D(1) by (simp add: stop_sharing_def Let_def on_screen_helpers) (simp add: frames_on_screen_def send_def)
  then show "frames_on_screen (stop_sharing c) \<subseteq> frames_on_screen c" by auto
  fix p assume "p \<in> frames_on_screen (stop_sharing c)" "p \<noteq> []" "may_show c p"
  then show "may_show (stop_sharing c) p"
    using shown by (auto simp: may_show_def bound_video_def fields split: if_splits)
qed

lemma frames_ok_shared:
  assumes "frames_ok c"
  shows "frames_ok (snd (apply_sharing native begins audio local_id q c))"
proof (cases "wc_screen c")
  case (Some ts)
  obtain t s where ts: "ts = (t, s)" by (cases ts)
  obtain ok s1 where s1: "start_desktop_capture native begins (sq_fps q) (sq_max_width q) (sq_max_height q) s = (ok, s1)"
    by fastforce
  then have sinks: "ss_remote_sinks s1 = ss_remote_sinks s"
    using sinks_kept(2) [of native begins "sq_fps q" "sq_max_width q" "sq_max_height q" s] by simp
  have put: "frames_ok (put_screen s' c)" if "ss_remote_sinks s' = ss_remote_sinks s" for s'
    by (rule frames_ok_part_of [OF assms]) (use Some ts that in \<open>simp add: frames_part_def video_sinks_def put_screen_def\<close>)
  have active: "frames_ok (put_screen s' c\<lparr>wc_system_audio_capture := x, wc_sharing_active := True, wc_local_preview_peer := local_id\<rparr>)"
    if sinks: "ss_remote_sinks s' = ss_remote_sinks s" and idle: "\<not> wc_sharing_active c" for s' x
  proof (rule frames_ok_change [OF put [OF sinks]])
    let ?c = "put_screen s' c\<lparr>wc_system_audio_capture := x, wc_sharing_active := True, wc_local_preview_peer := local_id\<rparr>"
    have "video_sinks ?c = video_sinks (put_screen s' c)" by (simp add: video_sinks_def)
    then show "video_sinks ?c \<subseteq> set (wc_screen_video_mids ?c)" using frames_okD(3) [OF put [OF sinks]] by simp
    show "frames_on_screen ?c \<subseteq> frames_on_screen (put_screen s' c)" by (simp add: frames_on_screen_def)
    show "may_show ?c p" if "may_show (put_screen s' c) p" for p
      using that idle by (simp add: may_show_def bound_video_def put_screen_def)
  qed (use frames_okD [OF put [OF sinks]] in simp_all)
  note sent = frames_part_cong [OF frames_part_helpers(1)]
  show ?thesis
    using assms Some ts s1 put sinks active by (simp add: apply_sharing_def sent)
qed (use assms in \<open>simp add: apply_sharing_def\<close>)

lemma frames_ok_preview:
  assumes "frames_ok c"
  shows "frames_ok (set_local_preview_enabled b c)"
proof (cases "wc_local_preview_enabled c = b")
  case False
  define c1 where "c1 = c\<lparr>wc_local_preview_enabled := b,
      wc_screen := map_option (map_prod id (screen_set_local_preview b)) (wc_screen c)\<rparr>"
  have sinks: "video_sinks c1 = video_sinks c" by (cases "wc_screen c") (auto simp: c1_def video_sinks_def)
  have set_preview: "set_local_preview_enabled b c =
      (if \<not> b \<and> wc_local_preview_peer c \<noteq> [] then frame_removed (wc_local_preview_peer c) c1 else c1)"
    using False by (simp add: set_local_preview_enabled_def Let_def c1_def)
  note D = frames_okD [OF assms]
  have c1: "frames_on_screen c1 = frames_on_screen c" "wc_on_frame_removed c1 = wc_on_frame_removed c"
    "wc_screen_bindings c1 = wc_screen_bindings c" "wc_screen_video_mids c1 = wc_screen_video_mids c"
    "wc_watched_peers c1 = wc_watched_peers c" "wc_sharing_active c1 = wc_sharing_active c"
    "wc_local_preview_enabled c1 = b" "wc_local_preview_peer c1 = wc_local_preview_peer c"
    by (simp_all add: c1_def frames_on_screen_def)
  show ?thesis
  proof (rule frames_ok_change [OF assms])
    show "wc_on_frame_removed (set_local_preview_enabled b c)"
      "distinct (keys (wc_screen_bindings (set_local_preview_enabled b c)))"
      "video_sinks (set_local_preview_enabled b c) \<subseteq> set (wc_screen_video_mids (set_local_preview_enabled b c))"
      using D sinks by (simp_all add: set_preview c1)
    show "frames_on_screen (set_local_preview_enabled b c) \<subseteq> frames_on_screen c"
      using D(1) by (auto simp: set_preview on_screen_helpers c1)
    fix p assume "p \<in> frames_on_screen (set_local_preview_enabled b c)" "p \<noteq> []" "may_show c p"
    then show "may_show (set_local_preview_enabled b c) p"
      using D(1) False by (auto simp: set_preview may_show_def bound_video_def on_screen_helpers c1 split: if_splits)
  qed
qed (use assms in \<open>simp add: set_local_preview_enabled_def\<close>)

lemma binding_unchanged: "\<not> binding_changed old peer \<Longrightarrow> peer = old"
  by (auto simp: binding_changed_def split: option.splits)

lemma map_of_bind_mid: "map_of (bind_mid m peer b) m' = (if m' = m then peer else map_of b m')"
  by (simp add: bind_mid_def map_of_update map_of_delete split: option.split)

lemma frames_ok_bound:
  assumes "frames_ok c"
  shows "frames_ok (apply_binding Screen m peer c)"
proof -
  let ?old = "map_of (wc_screen_bindings c) m"
  define removed where "removed = (case ?old of Some p \<Rightarrow>
      if binding_changed ?old peer \<and> m \<in> set (wc_screen_video_mids c) then p else [] | None \<Rightarrow> [])"
  define c1 where "c1 = (if binding_changed ?old peer
      then c\<lparr>wc_screen_stats := stats_set_binding m peer (wc_screen_stats c)\<rparr> else c)"
  define c2 where "c2 = c1\<lparr>wc_screen_bindings := bind_mid m peer (wc_screen_bindings c)\<rparr>"
  define c3 where "c3 = apply_screen (to_list (screen_update_locked c2 m)) c2"
  have apply_binding: "apply_binding Screen m peer c = (if removed \<noteq> [] then frame_removed removed c3 else c3)"
    by (simp add: apply_binding_def Let_def removed_def c1_def c2_def c3_def)
  have "frames_part c3 = frames_part c2" unfolding c3_def by (rule frames_part_helpers)
  moreover have "video_sinks c2 = video_sinks c" by (simp add: c2_def c1_def video_sinks_def)
  ultimately have c3: "wc_on_frame_removed c3 = wc_on_frame_removed c"
    "wc_screen_bindings c3 = bind_mid m peer (wc_screen_bindings c)"
    "wc_screen_video_mids c3 = wc_screen_video_mids c" "wc_watched_peers c3 = wc_watched_peers c"
    "wc_sharing_active c3 = wc_sharing_active c" "wc_local_preview_enabled c3 = wc_local_preview_enabled c"
    "wc_local_preview_peer c3 = wc_local_preview_peer c" "video_sinks c3 = video_sinks c" "frames_on_screen c3 = frames_on_screen c"
    by (simp_all add: frames_part_def frames_on_screen_def) (simp_all add: c2_def c1_def)
  note D = frames_okD [OF assms]
  have tables: "distinct (keys (bind_mid m peer (wc_screen_bindings c)))"
    using D(2) by (simp add: bind_mid_def distinct_keys_update distinct_keys_delete split: option.split)
  have bound: "bound_video c3 p" if "bound_video c p" "p \<noteq> removed" "p \<noteq> []" for p
  proof -
    obtain m' where m': "m' \<in> set (wc_screen_video_mids c)" "map_of (wc_screen_bindings c) m' = Some p"
      using \<open>bound_video c p\<close> unfolding bound_video_def by blast
    have "map_of (bind_mid m peer (wc_screen_bindings c)) m' = Some p"
    proof (cases "m' = m")
      case True
      then have "\<not> binding_changed ?old peer" using m' that(2) by (auto simp: removed_def)
      then have "peer = ?old" by (rule binding_unchanged)
      then show ?thesis using m'(2) True unfolding map_of_bind_mid by simp
    qed (use m'(2) map_of_bind_mid in metis)
    then show ?thesis unfolding bound_video_def c3 using m'(1) by blast
  qed
  show ?thesis
  proof (rule frames_ok_change [OF assms])
    show "wc_on_frame_removed (apply_binding Screen m peer c)"
      "distinct (keys (wc_screen_bindings (apply_binding Screen m peer c)))"
      "video_sinks (apply_binding Screen m peer c) \<subseteq> set (wc_screen_video_mids (apply_binding Screen m peer c))"
      using D tables by (simp_all add: apply_binding c3)
    have shown: "frames_on_screen (apply_binding Screen m peer c) = (if removed = [] then frames_on_screen c else frames_on_screen c - {removed})"
      using D(1) by (simp add: apply_binding on_screen_helpers c3)
    then show "frames_on_screen (apply_binding Screen m peer c) \<subseteq> frames_on_screen c" by auto
    fix p assume "p \<in> frames_on_screen (apply_binding Screen m peer c)" "p \<noteq> []" "may_show c p"
    moreover from this have "p \<noteq> removed" using shown by (auto split: if_splits)
    ultimately have "may_show c3 p" using bound unfolding may_show_def c3 by blast
    then show "may_show (apply_binding Screen m peer c) p"
      by (simp add: apply_binding may_show_def bound_video_def)
  qed
qed

lemma frames_ok_tracked:
  assumes "frames_ok c"
  shows "frames_ok (screen_track_added t mid kind new_audio_track c)"
proof (cases "\<exists>s r. wc_screen c = Some (t, s) \<and> ss_remote_sinks s = Some r")
  case True
  then obtain s r where session: "wc_screen c = Some (t, s)" and r: "ss_remote_sinks s = Some r" by blast
  have sinks: "video_sinks c = set (rs_video r)" using session r by (simp add: video_sinks_def)
  note D = frames_okD [OF assms]
  consider (none) "screen_on_track mid kind new_audio_track s = (None, s)"
    | (video) m where "screen_on_track mid kind new_audio_track s = (Some (m, True), s\<lparr>ss_remote_sinks := Some (attach_video m r)\<rparr>)"
    | (audio) m where "screen_on_track mid kind new_audio_track s =
        (Some (m, False), s\<lparr>ss_remote_sinks := Some (attach_audio m new_audio_track r)\<rparr>)"
    using screen_on_track_cases [OF r] by blast
  then show ?thesis
  proof cases
    case none
    then have "screen_track_added t mid kind new_audio_track c = c"
      using session by (simp add: screen_track_added_def with_screen_def put_screen_def)
    then show ?thesis using assms by simp
  next
    case (video m)
    let ?c = "(put_screen (s\<lparr>ss_remote_sinks := Some (attach_video m r)\<rparr>) c)
        \<lparr>wc_screen_video_mids := set_insert m (wc_screen_video_mids c)\<rparr>"
    have "frames_ok ?c"
    proof (rule frames_ok_change [OF assms])
      show "video_sinks ?c \<subseteq> set (wc_screen_video_mids ?c)"
        using D(3) sinks session by (auto simp: video_sinks_def put_screen_def attach_video_def)
      show "may_show ?c p" if "may_show c p" for p
        using that by (auto simp: may_show_def bound_video_def put_screen_def)
    qed (use D in \<open>simp_all add: put_screen_def frames_on_screen_def\<close>)
    then show ?thesis using video session by (simp add: screen_track_added_def with_screen_def)
  next
    case (audio m)
    let ?c = "(put_screen (s\<lparr>ss_remote_sinks := Some (attach_audio m new_audio_track r)\<rparr>) c)
        \<lparr>wc_screen_audio_mids := set_insert m (wc_screen_audio_mids c)\<rparr>"
    have "frames_part ?c = frames_part c"
      using session r by (simp add: frames_part_def video_sinks_def put_screen_def attach_audio_def)
    then have "frames_ok (apply_screen us ?c)" for us
      using frames_ok_part_of [OF assms, of "apply_screen us ?c"] by simp
    then show ?thesis using audio session by (simp add: screen_track_added_def with_screen_def Let_def)
  qed
next
  case False
  then have "screen_track_added t mid kind new_audio_track c = c"
    by (auto simp: screen_track_added_def with_screen_def screen_on_track_def put_screen_def split: option.split)
  then show ?thesis using assms by simp
qed

lemma frames_ok_shown:
  assumes "frames_ok c" and "p \<noteq> [] \<Longrightarrow> may_show c p"
  shows "frames_ok (show_frame p c)"
proof -
  have "may_show (show_frame p c) q = may_show c q" for q
    by (simp add: may_show_def bound_video_def show_frame_def)
  moreover have "wc_on_frame_removed (show_frame p c) = wc_on_frame_removed c"
    "wc_screen_bindings (show_frame p c) = wc_screen_bindings c"
    "wc_screen_video_mids (show_frame p c) = wc_screen_video_mids c"
    by (simp_all add: show_frame_def)
  ultimately show ?thesis
    using assms unfolding frames_ok_def by (auto simp: on_screen_helpers split: if_splits)
qed

lemma frames_ok_delivered:
  assumes "frames_ok c"
  shows "frames_ok (screen_frame t m c)" and "frames_ok (screen_local_frame t c)"
proof -
  have "frames_ok (deliver_video m c)" if "wc_screen c = Some (t, s)" "screen_passes_video m s" for s
  proof -
    have "m \<in> video_sinks c" using that by (auto simp: screen_passes_video_def video_sinks_def split: option.splits)
    then have "m \<in> set (wc_screen_video_mids c)" using frames_okD(3) [OF assms] by blast
    then have "may_show c p" if "map_of (wc_screen_bindings c) m = Some p" "p \<in> set (wc_watched_peers c)" for p
      using that unfolding may_show_def bound_video_def by blast
    then show ?thesis using assms frames_ok_shown [OF assms] by (simp add: deliver_video_def split: option.split)
  qed
  then show "frames_ok (screen_frame t m c)"
    using assms by (auto simp: screen_frame_def with_screen_def split: option.split)
  have "frames_ok (deliver_local_video c)"
    using assms frames_ok_shown [OF assms] by (simp add: deliver_local_video_def may_show_def)
  then show "frames_ok (screen_local_frame t c)"
    using assms by (auto simp: screen_local_frame_def with_screen_def split: option.split)
qed

lemma frames_part_kept:
  "frames_part (c\<lparr>wc_screen_requested := x\<rparr>) = frames_part c"
  "frames_part (set_stream_volume p v c) = frames_part c"
  "frames_part (c\<lparr>wc_voice_peer_volumes := x1, wc_voice_peer_muted := x2, wc_screen_peer_volumes := x3\<rparr>) = frames_part c"
  "frames_part (snd (screen_stats_json p c)) = frames_part c"
  "frames_part (screen_stats_answered dump t g inbound now c) = frames_part c"
  unfolding set_stream_volume_def frames_part_helpers
  by (auto simp: frames_part_def video_sinks_def screen_stats_json_def screen_stats_answered_def with_screen_def Let_def
      split: prod.split option.split)

interpretation frames: screen_invariant frames_ok
proof unfold_locales
  show "frames_ok (new_client on_frame True)" for on_frame
    by (simp add: frames_ok_def frames_on_screen_def video_sinks_def new_client_def)
  show kept: "frames_ok c'" if "screen_part c' = screen_part c" "frames_ok c" for c c'
    by (rule frames_ok_part_of [OF that(2)]) (use that(1) in \<open>simp add: screen_part_def frames_part_def video_sinks_def\<close>)
  show "frames_ok (put_screen (screen_report err s) c)" if "frames_ok c" "wc_screen c = Some (t, s)" for c err s t
    by (rule frames_ok_part_of [OF that(1)]) (use that(2) in \<open>simp add: frames_part_def video_sinks_def put_screen_def\<close>)
  show "frames_ok (stop_screen_session c)" if "frames_ok c" for c
    by (rule frames_ok_stopped [OF frames_ok_weak [OF that]])
  show "frames_ok (remove_peer p c)" if "frames_ok c" for p c
    unfolding remove_peer_def by (rule frames_ok_watching(5) [OF frames_ok_part_of [OF that frames_part_kept(3)]])
  show "frames_ok (refresh_screen (c\<lparr>wc_screen := Some (t, s)\<rparr>))"
    if "frames_ok c" "screen_make r (wc_local_preview_enabled c) = (True, s)" for c r s t
  proof (rule frames_ok_change [OF that(1)])
    have part: "frames_part (refresh_screen (c\<lparr>wc_screen := Some (t, s)\<rparr>)) = frames_part (c\<lparr>wc_screen := Some (t, s)\<rparr>)" by simp
    have "video_sinks (c\<lparr>wc_screen := Some (t, s)\<rparr>) = {}"
      by (simp add: video_sinks_def screen_make_session [OF that(2)] new_remote_sinks_def)
    with part show "video_sinks (refresh_screen (c\<lparr>wc_screen := Some (t, s)\<rparr>)) \<subseteq>
        set (wc_screen_video_mids (refresh_screen (c\<lparr>wc_screen := Some (t, s)\<rparr>)))"
      by (simp add: frames_part_def)
    show "wc_on_frame_removed (refresh_screen (c\<lparr>wc_screen := Some (t, s)\<rparr>))"
      "distinct (keys (wc_screen_bindings (refresh_screen (c\<lparr>wc_screen := Some (t, s)\<rparr>))))"
      "frames_on_screen (refresh_screen (c\<lparr>wc_screen := Some (t, s)\<rparr>)) \<subseteq> frames_on_screen c"
      using part frames_okD [OF that(1)] by (simp_all add: frames_part_def frames_on_screen_def)
    show "may_show (refresh_screen (c\<lparr>wc_screen := Some (t, s)\<rparr>)) p" if "may_show c p" for p
      using part that by (simp add: frames_part_def may_show_def bound_video_def)
  qed
qed ((rule frames_part_kept [THEN frames_part_cong, THEN iffD2] frames_ok_deinited frames_ok_watching frames_ok_shared
    frames_ok_unshared frames_ok_preview frames_ok_bound frames_ok_tracked frames_ok_delivered; assumption)+)


section \<open>A run\<close>

text \<open>A client opens the screen side, and watches Bob, whose video and sound are bound to two slots.\<close>

definition good_screen :: screen_results where
  "good_screen = \<lparr>tr_runtime = True, tr_connection = True, tr_video_track = True, tr_audio_track = True,
     tr_video_sender = True, tr_audio_sender = True, tr_receiver = (\<lambda>_. True), tr_closed = False\<rparr>"

definition demo_session :: screen_session where
  "demo_session = (new_screen_session 8 False False False 4000000 128000 True True)
     \<lparr>ss_start_attempted := True, ss_pc := True, ss_video_source := Some new_desktop_source,
      ss_video_track := Some False, ss_audio_track := Some False, ss_remote_sinks := Some new_remote_sinks,
      ss_local_preview_sink := Some new_local_sink, ss_started := True\<rparr>"

definition demo_tuned :: screen_session where
  "demo_tuned = demo_session\<lparr>ss_remote_sinks :=
     Some \<lparr>rs_video = [''1''], rs_audio = [(''2'', \<lparr>at_enabled = True, at_volume = 1\<rparr>)]\<rparr>\<rparr>"

definition demo :: "client_event list" where
  "demo = [Ev_Init_Screen True False good_screen, Ev_Screen_Track 0 (Some ''1'') Video_Kind,
     Ev_Screen_Track 0 (Some ''2'') Audio_Kind, Ev_Binding Screen ''1'' (Some ''bob''),
     Ev_Binding Screen ''2'' (Some ''bob''), Ev_Join_Stream ''bob'', Ev_Frame 0 ''1'']"

lemma demo_make: "screen_make good_screen False = (True, demo_session)"
  by (simp add: screen_make_def screen_start_def good_screen_def demo_session_def new_screen_session_def
      kMaxRemoteStreamSlots_def kScreenReceiveSlots_def kScreenVideoBitrateBps_def kSystemAudioBitrateKbps_def
      Let_def list_all_iff)

text \<open>The client after its tracks came, and after each of the other events.\<close>

definition demo_opened :: client where
  "demo_opened = (new_client True True)
     \<lparr>wc_screen_requested := True, wc_next_token := 1, wc_screen := Some (0, demo_session),
      wc_playout := snd (playout_start False new_playout)\<rparr>"

definition demo_tracks :: client where
  "demo_tracks = demo_opened
     \<lparr>wc_screen := Some (0, demo_session\<lparr>ss_remote_sinks :=
        Some \<lparr>rs_video = [''1''], rs_audio = [(''2'', \<lparr>at_enabled = False, at_volume = 1\<rparr>)]\<rparr>\<rparr>),
      wc_screen_video_mids := [''1''], wc_screen_audio_mids := [''2'']\<rparr>"

definition demo_bound :: client where
  "demo_bound = demo_tracks
     \<lparr>wc_screen_bindings := [(''1'', ''bob''), (''2'', ''bob'')],
      wc_screen_stats := stats_set_binding ''2'' (Some ''bob'') (stats_set_binding ''1'' (Some ''bob'') new_tracker),
      wc_screen := Some (0, demo_session\<lparr>ss_remote_sinks :=
        Some \<lparr>rs_video = [''1''], rs_audio = [(''2'', \<lparr>at_enabled = False, at_volume = 1\<rparr>)]\<rparr>\<rparr>)\<rparr>"

definition demo_watching :: client where
  "demo_watching = demo_bound
     \<lparr>wc_watched_peers := [''bob''], wc_screen_stats := stats_set_watched ''bob'' True (wc_screen_stats demo_bound),
      wc_screen := Some (0, demo_tuned), wc_sent := [WatchStart ''bob''], wc_frames := [Frame_Shown ''bob'']\<rparr>"

lemma demo_steps:
  "fold (client_step dump) [Ev_Init_Screen True False good_screen] (new_client True True) = demo_opened"
  "fold (client_step dump) [Ev_Screen_Track 0 (Some ''1'') Video_Kind, Ev_Screen_Track 0 (Some ''2'') Audio_Kind]
     demo_opened = demo_tracks"
  "fold (client_step dump) [Ev_Binding Screen ''1'' (Some ''bob''), Ev_Binding Screen ''2'' (Some ''bob'')]
     demo_tracks = demo_bound"
  "fold (client_step dump) [Ev_Join_Stream ''bob'', Ev_Frame 0 ''1''] demo_bound = demo_watching"
proof -
  note session_defs = demo_session_def new_screen_session_def new_remote_sinks_def new_client_def new_audio_track_def
    demo_opened_def
  note update_defs = apply_screen_def apply_screen_update_retuned retuned_def retune_def to_list_def adjust_def
    track_after_def screen_update_locked_def put_screen_def with_screen_def Let_def
  show "fold (client_step dump) [Ev_Init_Screen True False good_screen] (new_client True True) = demo_opened"
    by (simp add: init_screen_def start_screen_if_requested_def screen_begin_def demo_make demo_opened_def
        screen_commit_def refresh_screen_def all_screen_updates_locked_def List.map_filter_def apply_screen_def
        new_client_def Let_def)
  show "fold (client_step dump) [Ev_Screen_Track 0 (Some ''1'') Video_Kind, Ev_Screen_Track 0 (Some ''2'') Audio_Kind]
     demo_opened = demo_tracks"
    by (simp add: screen_track_added_def screen_on_track_def attach_video_def attach_audio_def
        demo_tracks_def session_defs set_insert_def update_defs)
  show "fold (client_step dump) [Ev_Binding Screen ''1'' (Some ''bob''), Ev_Binding Screen ''2'' (Some ''bob'')]
     demo_tracks = demo_bound"
    by (simp add: apply_binding_def binding_changed_def bind_mid_def demo_bound_def demo_tracks_def
        session_defs update_defs stream_volume_def del: One_nat_def)
  show "fold (client_step dump) [Ev_Join_Stream ''bob'', Ev_Frame 0 ''1''] demo_bound = demo_watching"
    by (simp add: join_stream_def screen_frame_def screen_passes_video_def deliver_video_def show_frame_def send_def
        refresh_screen_def all_screen_updates_locked_def List.map_filter_def set_insert_def demo_tuned_def
        demo_watching_def demo_bound_def demo_tracks_def session_defs update_defs stream_volume_def)
qed

lemma demo_run: "fold (client_step dump) demo (new_client True True) = demo_watching"
proof -
  have demo: "demo = [Ev_Init_Screen True False good_screen]
      @ [Ev_Screen_Track 0 (Some ''1'') Video_Kind, Ev_Screen_Track 0 (Some ''2'') Audio_Kind]
      @ [Ev_Binding Screen ''1'' (Some ''bob''), Ev_Binding Screen ''2'' (Some ''bob'')]
      @ [Ev_Join_Stream ''bob'', Ev_Frame 0 ''1'']"
    by (simp add: demo_def)
  show ?thesis unfolding demo fold_append o_apply demo_steps by (rule refl)
qed



section \<open>A frame under way\<close>

text \<open>
  \<^verbatim>\<open>deliver_video\<close> decides under the lock and calls \<^verbatim>\<open>on_frame\<close> after it. A stream that is left in between is
  removed from the screen first, and then shown again, and nothing removes it.
\<close>

definition frame_decided :: "string \<Rightarrow> client \<Rightarrow> peer_id option" where
  "frame_decided mid c =
     (case map_of (wc_screen_bindings c) mid of
        None \<Rightarrow> None
      | Some p \<Rightarrow> if p \<notin> set (wc_watched_peers c) then None else Some p)"

lemma deliver_video_halves:
  "deliver_video mid c = (case frame_decided mid c of None \<Rightarrow> c | Some p \<Rightarrow> show_frame p c)"
  by (simp add: deliver_video_def frame_decided_def split: option.split)

lemma frame_race:
  "frame_decided ''1'' demo_watching = Some ''bob'' \<and>
   ''bob'' \<in> frames_on_screen (show_frame ''bob'' (leave_stream ''bob'' demo_watching)) \<and>
   wc_watched_peers (show_frame ''bob'' (leave_stream ''bob'' demo_watching)) = []"
proof -
  have "frame_decided ''1'' demo_watching = Some ''bob''"
    by (simp add: frame_decided_def demo_watching_def demo_bound_def)
  moreover have "wc_on_frame (leave_stream ''bob'' demo_watching)"
    by (simp add: leave_stream_def frame_removed_def send_def refresh_screen_def apply_screen_def Let_def
        demo_watching_def demo_bound_def demo_tracks_def demo_opened_def new_client_def)
  then have "''bob'' \<in> frames_on_screen (show_frame ''bob'' (leave_stream ''bob'' demo_watching))"
    by (simp add: on_screen_helpers)
  moreover have "wc_watched_peers (show_frame ''bob'' (leave_stream ''bob'' demo_watching)) = []"
    by (simp add: show_frame_def leave_stream_def frame_removed_def send_def refresh_screen_def apply_screen_def Let_def
        demo_watching_def set_erase_def)
  ultimately show ?thesis by blast
qed

end
