(* ===== verification/Qt_Json.thy ===== *)
theory Qt_Json
  imports Http_Requests Signaling_Protocol
begin

text \<open>
  What the desktop client uses of Qt's JSON values, strings and lists: the readers of \<^verbatim>\<open>QJsonValue\<close> with their
  defaults (an absent value, or one of another type, reads as the default), \<^verbatim>\<open>trimmed()\<close>, and decimal
  texts of integers.
\<close>

definition qt_string :: "json option \<Rightarrow> string" where
  "qt_string v = (case v of Some (JString s) \<Rightarrow> s | _ \<Rightarrow> [])"

definition in_int :: "int \<Rightarrow> bool" where
  "in_int n \<longleftrightarrow> - (2 ^ 31) \<le> n \<and> n < 2 ^ 31"

definition qt_int :: "json option \<Rightarrow> int \<Rightarrow> int" where
  "qt_int v d =
     (case v of
        Some (JInt n) \<Rightarrow> if in_int n then n else d
      | Some (JFloat r) \<Rightarrow> if r = real_of_int \<lfloor>r\<rfloor> \<and> in_int \<lfloor>r\<rfloor> then \<lfloor>r\<rfloor> else d
      | _ \<Rightarrow> d)"

definition qt_double :: "json option \<Rightarrow> real" where
  "qt_double v = (case v of Some (JInt n) \<Rightarrow> real_of_int n | Some (JFloat r) \<Rightarrow> r | _ \<Rightarrow> 0)"

definition qt_array :: "json option \<Rightarrow> json list" where
  "qt_array v = (case v of Some (JArray vs) \<Rightarrow> vs | _ \<Rightarrow> [])"

definition qt_string_or :: "json option \<Rightarrow> string \<Rightarrow> string" where
  "qt_string_or v d = (case v of Some (JString s) \<Rightarrow> s | _ \<Rightarrow> d)"

text \<open>\<^verbatim>\<open>document.object()\<close> and \<^verbatim>\<open>value.toObject()\<close>: an empty object for anything else.\<close>

fun as_object :: "json \<Rightarrow> json" where
  "as_object (JObject members) = JObject members"
| "as_object _ = JObject []"

fun as_array :: "json \<Rightarrow> json list" where
  "as_array (JArray vs) = vs"
| "as_array _ = []"

definition trimmed :: "string \<Rightarrow> string" where
  "trimmed s = rev (dropWhile is_space (rev (dropWhile is_space s)))"

definition int_text :: "int \<Rightarrow> string" where
  "int_text i = (if i < 0 then CHR ''-'' # to_string (nat (- i)) else to_string (nat i))"

lemma json_find_as_object [simp]: "json_find (as_object v) key = json_find v key"
  by (cases v) simp_all

lemma set_int_text: "c \<in> set (int_text i) \<Longrightarrow> is_digit c \<or> c = CHR ''-''"
  using to_string_digits [of "nat (- i)"] to_string_digits [of "nat i"] by (auto simp: int_text_def split: if_splits)

lemma int_text_not_empty [simp]: "int_text i \<noteq> []"
  by (simp add: int_text_def)

section \<open>Removing by place\<close>

definition remove_at :: "nat \<Rightarrow> 'a list \<Rightarrow> 'a list" where
  "remove_at i xs = take i xs @ drop (Suc i) xs"

lemma set_remove_at: "set (remove_at i xs) \<subseteq> set xs"
  by (auto simp: remove_at_def dest: in_set_takeD in_set_dropD)

lemma map_remove_at: "map f (remove_at i xs) = remove_at i (map f xs)"
  by (simp add: remove_at_def take_map drop_map)

lemma distinct_remove_at:
  assumes "distinct xs" "i < length xs"
  shows "distinct (remove_at i xs)" "xs ! i \<notin> set (remove_at i xs)"
proof -
  have "xs = take i xs @ xs ! i # drop (Suc i) xs" using assms(2) by (rule id_take_nth_drop)
  then have "distinct (take i xs @ xs ! i # drop (Suc i) xs)" using assms(1) by simp
  then show "distinct (remove_at i xs)" "xs ! i \<notin> set (remove_at i xs)" by (auto simp: remove_at_def)
qed

end
