(* ===== verification/Client_Api.thy ===== *)
theory Client_Api
  imports Qt_Json
begin

text \<open>
  The desktop client's end of the HTTP interface, in \<^verbatim>\<open>client-qt/src/api\<close>: the requests of
  \<^verbatim>\<open>ServerRepository\<close>, \<^verbatim>\<open>UserRepository\<close> and \<^verbatim>\<open>ApiClient\<close>, the stored session (\<^verbatim>\<open>SessionStore\<close>) and
  the log-in (\<^verbatim>\<open>AuthManager\<close>). Requests under way are a list; a reply names one of them by its place. A
  generation is a natural number (the code counts in 64 bits).
\<close>

section \<open>Requests\<close>

datatype http_verb = GET | POST | PATCH | PUT

datatype http_body = No_Body | Json_Body json | Form_Body string string string string

datatype server_request =
    Get_Me
  | Get_User int
  | Lookup_User string
  | List_Users
  | Update_Profile int string
  | Upload_Avatar int string string
  | List_Servers
  | Create_Server string string
  | List_Channels int
  | Create_Channel int string string
  | Create_Invite int
  | Accept_Invite string
  | Add_Member int int

text \<open>The form part of an avatar has a field name, a file name, a content type and the bytes.\<close>

definition avatar_request :: "int \<Rightarrow> string \<Rightarrow> string \<Rightarrow> http_verb \<times> string \<times> http_body" where
  "avatar_request i bytes ext =
     (let mime = (if ext = ''png'' then ''image/png'' else ''image/jpeg'') in
      (PUT, ''/users/'' @ int_text i @ ''/avatar'', Form_Body ''file'' (''avatar.'' @ ext) mime bytes))"

definition lookup_request :: "string \<Rightarrow> http_verb \<times> string \<times> http_body" where
  "lookup_request username = (GET, ''/users/lookup?username='' @ url_escape username, No_Body)"

definition profile_request :: "int \<Rightarrow> string \<Rightarrow> http_verb \<times> string \<times> http_body" where
  "profile_request i name =
     (PATCH, ''/users/'' @ int_text i, Json_Body (JObject [(''display_name'', JString name)]))"

fun request_line :: "server_request \<Rightarrow> http_verb \<times> string \<times> http_body" where
  "request_line Get_Me = (GET, ''/users/me'', No_Body)"
| "request_line (Get_User i) = (GET, ''/users/'' @ int_text i, No_Body)"
| "request_line (Lookup_User username) = lookup_request username"
| "request_line List_Users = (GET, ''/users/'', No_Body)"
| "request_line (Update_Profile i name) = profile_request i name"
| "request_line (Upload_Avatar i bytes ext) = avatar_request i bytes ext"
| "request_line List_Servers = (GET, ''/servers/'', No_Body)"
| "request_line (Create_Server name description) =
     (POST, ''/servers/'', Json_Body (JObject [(''description'', JString description), (''name'', JString name)]))"
| "request_line (List_Channels i) = (GET, ''/servers/'' @ int_text i @ ''/channels/'', No_Body)"
| "request_line (Create_Channel i name kind) =
     (POST, ''/servers/'' @ int_text i @ ''/channels/'',
      Json_Body (JObject [(''kind'', JString kind), (''name'', JString name)]))"
| "request_line (Create_Invite i) = (POST, ''/servers/'' @ int_text i @ ''/invites/'', Json_Body (JObject []))"
| "request_line (Accept_Invite code) = (POST, ''/invites/'' @ code, Json_Body (JObject []))"
| "request_line (Add_Member i u) =
     (POST, ''/servers/'' @ int_text i @ ''/members/'' @ int_text u, Json_Body (JObject []))"

definition authorization_header :: "string \<Rightarrow> string option" where
  "authorization_header token = (if token \<noteq> [] then Some (bearer_prefix @ token) else None)"

text \<open>What a callback gets: an error, and the body where it is the JSON object or array it asked for.\<close>

definition reply_object :: "(string \<Rightarrow> json option) \<Rightarrow> bool \<Rightarrow> string \<Rightarrow> bool \<times> json" where
  "reply_object parse_text no_error body =
     (no_error,
      if no_error \<or> body \<noteq> []
      then (case parse_text body of Some v \<Rightarrow> as_object v | None \<Rightarrow> JObject []) else JObject [])"

definition reply_array :: "(string \<Rightarrow> json option) \<Rightarrow> bool \<Rightarrow> string \<Rightarrow> bool \<times> json" where
  "reply_array parse_text no_error body =
     (no_error,
      if no_error \<or> body \<noteq> []
      then JArray (case parse_text body of Some v \<Rightarrow> as_array v | None \<Rightarrow> []) else JArray [])"

section \<open>The stored session\<close>

record session_data =
  sd_refresh_token :: string
  sd_username :: string
  sd_user_id :: int

definition no_session :: session_data where
  "no_session = \<lparr>sd_refresh_token = [], sd_username = [], sd_user_id = 0\<rparr>"

definition session_load :: "session_data \<Rightarrow> session_data option" where
  "session_load stored = (if sd_refresh_token stored = [] then None else Some stored)"

section \<open>Logging in\<close>

datatype auth_request = Login string | Register string | Refresh string

datatype auth_signal =
    Auth_Pending_Changed | Auth_Changed | Login_Error string | Session_Restored | Session_Restore_Failed

record auth =
  au_access_token :: string
  au_refresh_token :: string
  au_username :: string
  au_avatar_url :: string
  au_display_name :: string
  au_user_id :: int
  au_logged_in :: bool
  au_pending :: bool
  au_generation :: nat
  au_stored :: session_data
  au_posts :: "(nat \<times> auth_request) list"
  au_signals :: "auth_signal list"

definition new_auth :: "session_data \<Rightarrow> auth" where
  "new_auth stored = \<lparr>au_access_token = [], au_refresh_token = [], au_username = [], au_avatar_url = [],
     au_display_name = [], au_user_id = 0, au_logged_in = False, au_pending = False, au_generation = 0,
     au_stored = stored, au_posts = [], au_signals = []\<rparr>"

definition display_name :: "auth \<Rightarrow> string" where
  "display_name a = (if au_display_name a = [] then au_username a else au_display_name a)"

definition emit_auth :: "auth_signal \<Rightarrow> auth \<Rightarrow> auth" where
  "emit_auth s a = a\<lparr>au_signals := au_signals a @ [s]\<rparr>"

definition set_auth_pending :: "bool \<Rightarrow> auth \<Rightarrow> auth" where
  "set_auth_pending pending a =
     (if au_pending a = pending then a else emit_auth Auth_Pending_Changed (a\<lparr>au_pending := pending\<rparr>))"

definition apply_token_response :: "json \<Rightarrow> string \<Rightarrow> auth \<Rightarrow> auth" where
  "apply_token_response json username a =
     (let access = qt_string (json_find json ''access_token'');
          refresh = qt_string (json_find json ''refresh_token'');
          uid = qt_int (json_find json ''user_id'') 0 in
      emit_auth Auth_Changed
        (a\<lparr>au_access_token := access, au_refresh_token := refresh, au_username := username, au_user_id := uid,
           au_avatar_url := trimmed (qt_string (json_find json ''avatar_url'')),
           au_display_name := qt_string (json_find json ''display_name''), au_logged_in := True,
           au_stored := \<lparr>sd_refresh_token = refresh, sd_username = username, sd_user_id = uid\<rparr>\<rparr>))"

definition post_auth :: "auth_request \<Rightarrow> auth \<Rightarrow> auth" where
  "post_auth req a =
     (let a1 = set_auth_pending True (a\<lparr>au_generation := Suc (au_generation a)\<rparr>) in
      a1\<lparr>au_posts := au_posts a1 @ [(au_generation a1, req)]\<rparr>)"

definition login :: "string \<Rightarrow> auth \<Rightarrow> auth" where
  "login username a = (if au_pending a then a else post_auth (Login username) a)"

definition register_user :: "string \<Rightarrow> auth \<Rightarrow> auth" where
  "register_user username a = (if au_pending a then a else post_auth (Register username) a)"

definition logout :: "auth \<Rightarrow> auth" where
  "logout a =
     emit_auth Auth_Changed
       ((set_auth_pending False (a\<lparr>au_generation := Suc (au_generation a)\<rparr>))
          \<lparr>au_access_token := [], au_stored := no_session, au_refresh_token := [], au_username := [],
           au_avatar_url := [], au_display_name := [], au_user_id := 0, au_logged_in := False\<rparr>)"

definition try_restore_session :: "auth \<Rightarrow> auth" where
  "try_restore_session a =
     (if au_pending a then a
      else
        (case session_load (au_stored a) of
           None \<Rightarrow> emit_auth Session_Restore_Failed a
         | Some data \<Rightarrow>
             (post_auth (Refresh (sd_username data)) a)\<lparr>au_username := sd_username data, au_user_id := sd_user_id data\<rparr>))"

definition auth_finished :: "auth_request \<Rightarrow> bool \<Rightarrow> json \<Rightarrow> auth \<Rightarrow> auth" where
  "auth_finished req ok json a =
     (case req of
        Login username \<Rightarrow>
          if \<not> ok then emit_auth (Login_Error (qt_string_or (json_find json ''detail'') ''Login failed'')) a
          else apply_token_response json username a
      | Register username \<Rightarrow>
          if \<not> ok then emit_auth (Login_Error (qt_string_or (json_find json ''detail'') ''Registration failed'')) a
          else apply_token_response json username a
      | Refresh username \<Rightarrow>
          if \<not> ok
          then emit_auth Session_Restore_Failed
                 (a\<lparr>au_stored := no_session, au_username := [], au_avatar_url := [], au_display_name := [],
                    au_user_id := 0\<rparr>)
          else emit_auth Session_Restored (apply_token_response json username a))"

definition auth_reply :: "nat \<Rightarrow> bool \<Rightarrow> json \<Rightarrow> auth \<Rightarrow> auth" where
  "auth_reply i ok json a =
     (if length (au_posts a) \<le> i then a
      else
        (case au_posts a ! i of
           (generation, req) \<Rightarrow>
             let a1 = a\<lparr>au_posts := remove_at i (au_posts a)\<rparr> in
             if generation \<noteq> au_generation a then a1
             else auth_finished req ok json (set_auth_pending False a1)))"

text \<open>The first screen restores the session; the log-in screen is shown while nobody is logged in.\<close>

datatype auth_event =
    A_Restore
  | A_Login string
  | A_Register string
  | A_Logout
  | A_Reply nat bool json

fun auth_step :: "auth_event \<Rightarrow> auth \<Rightarrow> auth" where
  "auth_step A_Restore a = (if au_logged_in a then a else try_restore_session a)"
| "auth_step (A_Login username) a = (if au_logged_in a then a else login username a)"
| "auth_step (A_Register username) a = (if au_logged_in a then a else register_user username a)"
| "auth_step A_Logout a = logout a"
| "auth_step (A_Reply i ok json) a = auth_reply i ok json a"

section \<open>The log-in is consistent\<close>

text \<open>
  At most one post is current, only while one is awaited, and nobody is logged in then; who is logged
  in is who is stored; without a log-in there is no token.
\<close>

definition auth_ok :: "auth \<Rightarrow> bool" where
  "auth_ok a \<longleftrightarrow>
     (\<forall>(g, req)\<in>set (au_posts a). g \<le> au_generation a) \<and>
     (au_generation a \<in> fst ` set (au_posts a) \<longrightarrow> au_pending a) \<and>
     distinct (map fst (au_posts a)) \<and>
     (au_pending a \<longrightarrow> \<not> au_logged_in a) \<and>
     (au_logged_in a \<longrightarrow> au_stored a =
        \<lparr>sd_refresh_token = au_refresh_token a, sd_username = au_username a, sd_user_id = au_user_id a\<rparr>) \<and>
     (\<not> au_logged_in a \<longrightarrow> au_access_token a = [] \<and> au_refresh_token a = [])"

named_theorems auth_defs "the operations of the log-in"

lemmas auth_handlers [auth_defs] =
  emit_auth_def set_auth_pending_def apply_token_response_def post_auth_def login_def register_user_def logout_def
  try_restore_session_def auth_finished_def

lemma auth_ok_new: "auth_ok (new_auth stored)"
  by (simp add: auth_ok_def new_auth_def)

lemma auth_ok_post:
  assumes "auth_ok a" "\<not> au_pending a" "\<not> au_logged_in a"
  shows "auth_ok (post_auth req a)"
  using assms by (fastforce simp: auth_ok_def auth_defs Let_def)

lemma post_auth_logged_in: "au_logged_in (post_auth req a) = au_logged_in a"
  by (simp add: post_auth_def set_auth_pending_def emit_auth_def Let_def)

lemma auth_ok_logout: "auth_ok a \<Longrightarrow> auth_ok (logout a)"
  by (fastforce simp: auth_ok_def auth_defs)

lemma auth_ok_restore: "auth_ok a \<Longrightarrow> \<not> au_logged_in a \<Longrightarrow> auth_ok (try_restore_session a)"
proof (cases "au_pending a \<or> session_load (au_stored a) = None")
  case True
  assume "auth_ok a"
  then have "auth_ok (emit_auth Session_Restore_Failed a)" by (simp add: auth_ok_def emit_auth_def)
  then show ?thesis using \<open>auth_ok a\<close> True by (auto simp: try_restore_session_def)
next
  case False
  assume ok: "auth_ok a" "\<not> au_logged_in a"
  obtain data where "session_load (au_stored a) = Some data" using False by auto
  then show ?thesis using False auth_ok_post [OF ok(1) _ ok(2)] post_auth_logged_in [of _ a] ok(2)
    by (simp add: try_restore_session_def auth_ok_def)
qed

lemma auth_ok_finished:
  "auth_ok a \<Longrightarrow> \<not> au_pending a \<Longrightarrow> \<not> au_logged_in a \<Longrightarrow> auth_ok (auth_finished req ok json a)"
  by (cases req) (simp_all add: auth_ok_def auth_defs Let_def)

lemma auth_ok_posts:
  "auth_ok a \<Longrightarrow> set posts \<subseteq> set (au_posts a) \<Longrightarrow> distinct (map fst posts) \<Longrightarrow> auth_ok (a\<lparr>au_posts := posts\<rparr>)"
  unfolding auth_ok_def by (simp, blast)

lemma auth_ok_reply:
  assumes ok: "auth_ok a"
  shows "auth_ok (auth_reply i fine json a)"
proof (cases "i < length (au_posts a)")
  case True
  obtain g req where req: "au_posts a ! i = (g, req)" by (cases "au_posts a ! i")
  define a1 where "a1 = a\<lparr>au_posts := remove_at i (au_posts a)\<rparr>"
  have sub: "set (remove_at i (au_posts a)) \<subseteq> set (au_posts a)" by (rule set_remove_at)
  have d: "distinct (map fst (remove_at i (au_posts a)))" "g \<notin> fst ` set (remove_at i (au_posts a))"
    using ok True req distinct_remove_at [of "map fst (au_posts a)" i]
    by (auto simp: auth_ok_def simp flip: map_remove_at)
  have a1: "auth_ok a1" using auth_ok_posts [OF ok sub d(1)] by (simp add: a1_def)
  have "auth_ok (set_auth_pending False a1) \<and> \<not> au_logged_in a1" if "g = au_generation a"
  proof -
    have "au_pending a" using ok that nth_mem [OF True] req by (force simp: auth_ok_def)
    then show ?thesis using a1 d(2) that by (simp add: auth_ok_def set_auth_pending_def emit_auth_def a1_def)
  qed
  then show ?thesis
    using True req a1 auth_ok_finished [of "set_auth_pending False a1"]
    by (auto simp: auth_reply_def Let_def set_auth_pending_def emit_auth_def simp flip: a1_def)
qed (simp add: auth_reply_def ok)

lemma auth_ok_step: "auth_ok a \<Longrightarrow> auth_ok (auth_step e a)"
  by (cases e) (simp_all add: auth_ok_restore auth_ok_post auth_ok_logout auth_ok_reply login_def register_user_def)

definition auth_run :: "auth_event list \<Rightarrow> session_data \<Rightarrow> auth" where
  "auth_run events stored = fold auth_step events (new_auth stored)"

interpretation login_kept: kept_by_steps auth_step auth_ok
  by unfold_locales (rule auth_ok_step)

text \<open>
  Whatever is clicked and in whatever order replies arrive, a client that is logged in is not waiting for
  a log-in, and the session it stored is the one it uses: user, name and refresh token; a client that
  is not logged in holds no token.
\<close>

theorem session_matches_login:
  "if au_logged_in (auth_run events stored)
    then \<not> au_pending (auth_run events stored) \<and> au_stored (auth_run events stored) =
      \<lparr>sd_refresh_token = au_refresh_token (auth_run events stored), sd_username = au_username (auth_run events stored),
       sd_user_id = au_user_id (auth_run events stored)\<rparr>
    else au_access_token (auth_run events stored) = [] \<and> au_refresh_token (auth_run events stored) = []"
  using login_kept.run [OF auth_ok_new, of events stored] by (auto simp: auth_ok_def auth_run_def)

section \<open>Logging out is final\<close>

lemma stale_reply:
  assumes "\<forall>(g, req)\<in>set (au_posts a). g < au_generation a"
  shows "\<exists>posts. auth_reply i ok json a = a\<lparr>au_posts := posts\<rparr> \<and> set posts \<subseteq> set (au_posts a)"
proof (cases "i < length (au_posts a)")
  case True
  have "au_posts a ! i \<in> set (au_posts a)" using True by simp
  then have "fst (au_posts a ! i) < au_generation a" using assms by auto
  then show ?thesis using True set_remove_at [of i "au_posts a"] by (auto simp: auth_reply_def Let_def split: prod.split)
next
  case False
  then show ?thesis by (intro exI [of _ "au_posts a"]) (simp add: auth_reply_def)
qed

lemma stale_replies:
  assumes "\<forall>(g, req)\<in>set (au_posts a). g < au_generation a"
  shows "\<exists>posts. fold auth_step (map (\<lambda>(i, ok, json). A_Reply i ok json) replies) a = a\<lparr>au_posts := posts\<rparr>"
  using assms
proof (induction replies arbitrary: a)
  case (Cons reply replies)
  obtain i ok json where reply: "reply = (i, ok, json)" by (cases reply)
  obtain posts where posts: "auth_reply i ok json a = a\<lparr>au_posts := posts\<rparr>" "set posts \<subseteq> set (au_posts a)"
    using stale_reply [OF Cons.prems] by blast
  have "\<forall>(g, req)\<in>set (au_posts (a\<lparr>au_posts := posts\<rparr>)). g < au_generation (a\<lparr>au_posts := posts\<rparr>)"
    using Cons.prems posts(2) by auto
  from Cons.IH [OF this] show ?case by (simp add: reply posts(1))
next
  case Nil
  show ?case by (intro exI [of _ "au_posts a"]) simp
qed

definition late_replies :: "(nat \<times> bool \<times> json) list \<Rightarrow> auth \<Rightarrow> auth" where
  "late_replies replies = fold auth_step (map (\<lambda>(i, ok, json). A_Reply i ok json) replies)"

text \<open>
  C25: once the user has logged out, the replies still under way, all of them and whatever they say, change
  nothing: nobody is logged in, there is no token, and no session is stored.
\<close>

theorem logout_is_final:
  "\<not> au_logged_in (late_replies replies (logout (auth_run events stored))) \<and> au_access_token (late_replies replies (logout (auth_run events stored))) = [] \<and>
    au_refresh_token (late_replies replies (logout (auth_run events stored))) = [] \<and> au_username (late_replies replies (logout (auth_run events stored))) = [] \<and>
    au_user_id (late_replies replies (logout (auth_run events stored))) = 0 \<and> session_load (au_stored (late_replies replies (logout (auth_run events stored)))) = None"
proof -
  define a where "a = fold auth_step events (new_auth stored)"
  have "\<forall>(g, req)\<in>set (au_posts a). g \<le> au_generation a"
    using login_kept.run [OF auth_ok_new, of events stored] by (simp add: auth_ok_def a_def)
  then have "\<forall>(g, req)\<in>set (au_posts (logout a)). g < au_generation (logout a)"
    by (auto simp: logout_def emit_auth_def set_auth_pending_def)
  then obtain posts where "late_replies replies (logout (auth_run events stored)) = (logout a)\<lparr>au_posts := posts\<rparr>"
    using stale_replies unfolding late_replies_def auth_run_def a_def by blast
  then show ?thesis by (simp add: logout_def emit_auth_def session_load_def no_session_def)
qed

end
