(* ===== verification/Client_Bridge.thy ===== *)
theory Client_Bridge
  imports Client_Transport Qt_Json
begin

text \<open>
  The desktop client's bridge to the core: \<^verbatim>\<open>DriscordBridge\<close> of
  \<^verbatim>\<open>client-qt/src/app/DriscordBridge.cpp\<close>, with the callbacks \<^verbatim>\<open>DriscordCore\<close> puts between it and the
  transport (\<^verbatim>\<open>core/src/driscord_core.cpp\<close>). What the core reports is posted to the queue of the user
  interface's thread; starting and stopping the audio are jobs of a pool with one thread. What the media
  client is told to do is a log. The settings are two names of devices.
\<close>

section \<open>State\<close>

datatype media_call =
    M_Start_Voice | M_Stop_Voice | M_Init_Screen | M_Deinit_Screen
  | M_Remove_Peer peer_id | M_Peer_Stopped peer_id
  | M_Input_Device string | M_Output_Device string
  | M_Set_Muted bool | M_Set_Deafened bool
  | M_Start_Sharing string int int int bool string | M_Stop_Sharing
  | M_Join_Stream peer_id | M_Leave_Stream peer_id

datatype posted = Told signal | Frame_Gone peer_id

datatype audio_job = Job_Start nat | Job_Stop

record video_frame =
  vf_width :: nat
  vf_height :: nat
  vf_planes :: "string list list"

record bridge =
  br_transport :: transport
  br_queue :: "posted list"
  br_media :: "media_call list"
  br_audio_generation :: nat
  br_jobs :: "audio_job list"
  br_input_setting :: string
  br_output_setting :: string
  br_sinks :: "(peer_id \<times> nat list) list"
  br_shown :: "nat \<Rightarrow> video_frame option"

definition call_media :: "media_call \<Rightarrow> bridge \<Rightarrow> bridge" where
  "call_media c b = b\<lparr>br_media := br_media b @ [c]\<rparr>"

section \<open>Reports of the core\<close>

definition core_callbacks :: "kind \<Rightarrow> bool" where
  "core_callbacks k \<longleftrightarrow>
     k \<in> {K_Connected, K_Disconnected, K_Peer_Joined, K_Peer_Left, K_Streaming_Started, K_Streaming_Stopped,
          K_Watch_Rejected, K_Peer_Identity}"

text \<open>The media client listens too: one listener each for the connection and the media messages.\<close>

definition media_listeners :: "kind \<Rightarrow> bool list" where
  "media_listeners k =
     (if k \<in> {K_Connection, K_Media_Answer, K_Media_Candidate, K_Track_Binding, K_Watch_Rejected} then [True] else [])"

definition new_bridge :: "string \<Rightarrow> string \<Rightarrow> bridge" where
  "new_bridge input output =
     \<lparr>br_transport = new_transport\<lparr>tr_callbacks := core_callbacks, tr_listeners := media_listeners\<rparr>, br_queue = [],
      br_media = [], br_audio_generation = 0, br_jobs = [], br_input_setting = input, br_output_setting = output,
      br_sinks = [], br_shown = (\<lambda>_. None)\<rparr>"

fun core_media :: "signal \<Rightarrow> media_call list" where
  "core_media (Sig_Peer_Left p) = [M_Remove_Peer p]"
| "core_media (Sig_Streaming_Stopped p) = [M_Peer_Stopped p]"
| "core_media _ = []"

definition to_bridge :: "(callee \<times> signal) list \<Rightarrow> signal list" where
  "to_bridge told = [s. (c, s) \<leftarrow> told, c = Callback]"

text \<open>The bridge after the transport did something: what it told the callbacks is handled and posted.\<close>

definition bridge_hear :: "(transport \<Rightarrow> transport) \<Rightarrow> bridge \<Rightarrow> bridge" where
  "bridge_hear f b =
     (let t = br_transport b;
          heard = to_bridge (drop (length (tr_told t)) (tr_told (f t))) in
      b\<lparr>br_transport := f t, br_media := br_media b @ concat (map core_media heard),
        br_queue := br_queue b @ map Told heard\<rparr>)"

section \<open>Connecting\<close>

definition bridge_url :: "string \<Rightarrow> string \<Rightarrow> string \<Rightarrow> string" where
  "bridge_url server_url username access_token =
     (let url = server_url @ [if CHR ''?'' \<in> set server_url then CHR ''&'' else CHR ''?''] @ ''u='' @ url_escape username in
      if access_token \<noteq> [] then url @ ''&t='' @ url_escape access_token else url)"

definition bridge_connect :: "environment \<Rightarrow> bool \<Rightarrow> string \<Rightarrow> string \<Rightarrow> string \<Rightarrow> bridge \<Rightarrow> bridge" where
  "bridge_connect env creates server_url username access_token =
     bridge_hear (\<lambda>t. snd (transport_connect env (bridge_url server_url username access_token) creates True t))"

definition bridge_disconnect :: "bridge \<Rightarrow> bridge" where
  "bridge_disconnect = bridge_hear transport_disconnect"

section \<open>Audio\<close>

definition audio_start :: "bridge \<Rightarrow> bridge" where
  "audio_start b =
     b\<lparr>br_audio_generation := Suc (br_audio_generation b),
       br_jobs := br_jobs b @ [Job_Start (Suc (br_audio_generation b))]\<rparr>"

definition audio_stop :: "bridge \<Rightarrow> bridge" where
  "audio_stop b =
     b\<lparr>br_audio_generation := Suc (br_audio_generation b), br_jobs := br_jobs b @ [Job_Stop]\<rparr>"

text \<open>Whether the media client finds the two devices of the settings is an argument.\<close>

definition run_job :: "bool \<Rightarrow> bool \<Rightarrow> audio_job \<Rightarrow> bridge \<Rightarrow> bridge" where
  "run_job has_input has_output job b =
     (case job of
        Job_Stop \<Rightarrow> call_media M_Stop_Voice b
      | Job_Start generation \<Rightarrow>
          let b1 = call_media (M_Input_Device (br_input_setting b)) b;
              b2 = (if has_input then b1
                    else (call_media (M_Input_Device ''default'') b1)\<lparr>br_input_setting := ''default''\<rparr>);
              b3 = call_media (M_Output_Device (br_output_setting b)) b2;
              b4 = (if has_output then b3
                    else (call_media (M_Output_Device ''default'') b3)\<lparr>br_output_setting := ''default''\<rparr>) in
          if br_audio_generation b4 = generation then call_media M_Start_Voice b4 else b4)"

definition run_next_job :: "bool \<Rightarrow> bool \<Rightarrow> bridge \<Rightarrow> bridge" where
  "run_next_job has_input has_output b =
     (case br_jobs b of [] \<Rightarrow> b | job # jobs \<Rightarrow> run_job has_input has_output job (b\<lparr>br_jobs := jobs\<rparr>))"

definition bridge_set_input_device :: "bool \<Rightarrow> string \<Rightarrow> bridge \<Rightarrow> bool \<times> bridge" where
  "bridge_set_input_device found i b =
     (let b1 = call_media (M_Input_Device i) b in
      if \<not> found then (False, b1) else (True, b1\<lparr>br_input_setting := i\<rparr>))"

definition bridge_set_output_device :: "bool \<Rightarrow> string \<Rightarrow> bridge \<Rightarrow> bool \<times> bridge" where
  "bridge_set_output_device found i b =
     (let b1 = call_media (M_Output_Device i) b in
      if \<not> found then (False, b1) else (True, b1\<lparr>br_output_setting := i\<rparr>))"

section \<open>Video sinks\<close>

definition sinks_of :: "peer_id \<Rightarrow> bridge \<Rightarrow> nat list" where
  "sinks_of p b = (case map_of (br_sinks b) p of None \<Rightarrow> [] | Some sinks \<Rightarrow> sinks)"

text \<open>A sink of nobody is not registered (\<open>None\<close> is the null pointer).\<close>

definition register_sink :: "peer_id \<Rightarrow> nat option \<Rightarrow> bridge \<Rightarrow> bridge" where
  "register_sink p sink b =
     (case sink of
        None \<Rightarrow> b
      | Some s \<Rightarrow>
          if p = [] then b
          else
            let sinks = sinks_of p b in
            b\<lparr>br_sinks := AList.update p (if s \<in> set sinks then sinks else sinks @ [s]) (br_sinks b)\<rparr>)"

text \<open>Also what is done when a sink is destroyed.\<close>

definition unregister_sink :: "peer_id \<Rightarrow> nat \<Rightarrow> bridge \<Rightarrow> bridge" where
  "unregister_sink p s b =
     (case map_of (br_sinks b) p of
        None \<Rightarrow> b
      | Some sinks \<Rightarrow>
          let rest = removeAll s sinks in
          b\<lparr>br_sinks := (if rest = [] then AList.delete p (br_sinks b) else AList.update p rest (br_sinks b))\<rparr>)"

text \<open>The rows of a plane, without the padding between them.\<close>

definition copy_plane :: "string \<Rightarrow> nat \<Rightarrow> nat \<Rightarrow> nat \<Rightarrow> string list" where
  "copy_plane bytes stride rows row_bytes = map (\<lambda>row. take row_bytes (drop (row * stride) bytes)) [0..<rows]"

record frame_view =
  vw_width :: nat
  vw_height :: nat
  vw_y :: string
  vw_u :: string
  vw_v :: string
  vw_y_stride :: nat
  vw_u_stride :: nat
  vw_v_stride :: nat

definition frame_of :: "frame_view \<Rightarrow> video_frame" where
  "frame_of f =
     (let chroma_width = (vw_width f + 1) div 2; chroma_height = (vw_height f + 1) div 2 in
      \<lparr>vf_width = vw_width f, vf_height = vw_height f,
       vf_planes =
         [copy_plane (vw_y f) (vw_y_stride f) (vw_height f) (vw_width f),
          copy_plane (vw_u f) (vw_u_stride f) chroma_height chroma_width,
          copy_plane (vw_v f) (vw_v_stride f) chroma_height chroma_width]\<rparr>)"

definition show_in :: "nat list \<Rightarrow> video_frame option \<Rightarrow> (nat \<Rightarrow> video_frame option) \<Rightarrow> nat \<Rightarrow> video_frame option" where
  "show_in sinks frame shown = (\<lambda>s. if s \<in> set sinks then frame else shown s)"

text \<open>\<open>maps\<close>: the frame's memory could be mapped.\<close>

definition bridge_frame :: "bool \<Rightarrow> peer_id \<Rightarrow> frame_view \<Rightarrow> bridge \<Rightarrow> bridge" where
  "bridge_frame maps p f b =
     (if sinks_of p b = [] \<or> \<not> maps then b
      else b\<lparr>br_shown := show_in (sinks_of p b) (Some (frame_of f)) (br_shown b)\<rparr>)"

definition bridge_frame_removed :: "peer_id \<Rightarrow> bridge \<Rightarrow> bridge" where
  "bridge_frame_removed p b =
     b\<lparr>br_shown := show_in (sinks_of p b) None (br_shown b), br_queue := br_queue b @ [Frame_Gone p]\<rparr>"

section \<open>Shutting down\<close>

text \<open>The pool's jobs are awaited; the devices are still found or not.\<close>

fun run_jobs :: "(bool \<times> bool) list \<Rightarrow> audio_job list \<Rightarrow> bridge \<Rightarrow> bridge" where
  "run_jobs found [] b = b"
| "run_jobs [] (job # jobs) b = run_jobs [] jobs (run_job True True job b)"
| "run_jobs ((has_input, has_output) # found) (job # jobs) b = run_jobs found jobs (run_job has_input has_output job b)"

definition bridge_shutdown :: "(bool \<times> bool) list \<Rightarrow> bridge \<Rightarrow> bridge" where
  "bridge_shutdown found b =
     (let b1 = b\<lparr>br_audio_generation := Suc (br_audio_generation b)\<rparr>;
          b2 = run_jobs found (br_jobs b1) (b1\<lparr>br_jobs := []\<rparr>) in
      (bridge_disconnect (call_media M_Stop_Voice (call_media M_Deinit_Screen b2)))\<lparr>br_sinks := []\<rparr>)"

section \<open>What the media client was last told\<close>

definition voice_on :: "media_call list \<Rightarrow> bool" where
  "voice_on calls = fold (\<lambda>c on. if c = M_Start_Voice then True else if c = M_Stop_Voice then False else on) calls False"

definition screen_on :: "media_call list \<Rightarrow> bool" where
  "screen_on calls = fold (\<lambda>c on. if c = M_Init_Screen then True else if c = M_Deinit_Screen then False else on) calls False"

lemma voice_on_append [simp]:
  "voice_on (calls @ [c]) = (if c = M_Start_Voice then True else if c = M_Stop_Voice then False else voice_on calls)"
  by (simp add: voice_on_def)

lemma screen_on_append [simp]:
  "screen_on (calls @ [c]) = (if c = M_Init_Screen then True else if c = M_Deinit_Screen then False else screen_on calls)"
  by (simp add: screen_on_def)

lemma voice_on_quiet: "M_Start_Voice \<notin> set calls \<Longrightarrow> M_Stop_Voice \<notin> set calls \<Longrightarrow> voice_on (told @ calls) = voice_on told"
  by (induction calls rule: rev_induct) (auto simp flip: append_assoc)

lemma screen_on_quiet: "M_Init_Screen \<notin> set calls \<Longrightarrow> M_Deinit_Screen \<notin> set calls \<Longrightarrow> screen_on (told @ calls) = screen_on told"
  by (induction calls rule: rev_induct) (auto simp flip: append_assoc)

lemma core_media_quiet:
  "set (concat (map core_media heard)) \<subseteq> range M_Remove_Peer \<union> range M_Peer_Stopped"
proof (induction heard)
  case (Cons s heard)
  then show ?case by (cases s) auto
qed simp

text \<open>What the transport reports does not touch the voice or the screen session.\<close>

lemma bridge_hear_media:
  "voice_on (br_media (bridge_hear f b)) = voice_on (br_media b)"
  "screen_on (br_media (bridge_hear f b)) = screen_on (br_media b)"
proof -
  define calls where
    "calls = concat (map core_media (to_bridge (drop (length (tr_told (br_transport b))) (tr_told (f (br_transport b))))))"
  have "br_media (bridge_hear f b) = br_media b @ calls" by (simp add: bridge_hear_def Let_def calls_def)
  moreover have "set calls \<subseteq> range M_Remove_Peer \<union> range M_Peer_Stopped" unfolding calls_def by (rule core_media_quiet)
  ultimately show "voice_on (br_media (bridge_hear f b)) = voice_on (br_media b)"
    "screen_on (br_media (bridge_hear f b)) = screen_on (br_media b)"
    using voice_on_quiet [of calls] screen_on_quiet [of calls] by auto
qed

section \<open>The server understands the address\<close>

lemma bridge_url_base: "CHR ''?'' \<notin> set base \<Longrightarrow> bridge_url (base @ rest) username token = base @ bridge_url rest username token"
  by (simp add: bridge_url_def Let_def)

text \<open>
  C27: the target of the address that the client connects to is read by the server as the client means it:
  the channel, the user name and the token, whatever bytes the name and the token hold.
\<close>

theorem client_url_understood:
  "parse_room_id (bridge_url (''/channels/'' @ int_text channel) username token) = int_text channel \<and>
   parse_query_param (bridge_url (''/channels/'' @ int_text channel) username token) ''u'' = username \<and>
   bearer_token [] (bridge_url (''/channels/'' @ int_text channel) username token) = token"
proof -
  define ps where "ps = (''u'', username) # (if token = [] then [] else [(''t'', token)])"
  have ps: "\<forall>(k, v)\<in>set ps. CHR ''='' \<notin> set k \<and> CHR ''&'' \<notin> set k" by (auto simp: ps_def)
  have chars: "CHR ''?'' \<notin> set (int_text channel)" "CHR ''/'' \<notin> set (int_text channel)"
    using set_int_text [of "CHR ''?''" channel] set_int_text [of "CHR ''/''" channel] by (auto simp: is_digit_def)
  have url: "bridge_url (''/channels/'' @ int_text channel) username token =
      ''/channels/'' @ int_text channel @ CHR ''?'' # encode_query ps"
    using chars by (simp add: bridge_url_def ps_def)
  have "last (int_text channel) \<noteq> CHR ''/''" using chars(2) last_in_set [OF int_text_not_empty] by metis
  then have room: "parse_room_id (''/channels/'' @ int_text channel @ CHR ''?'' # encode_query ps) = int_text channel"
    using chars by (simp add: parse_room_id_def channels_prefix_def before_append strip_slashes_id Let_def)
  have param: "parse_query_param (''/channels/'' @ int_text channel @ CHR ''?'' # encode_query ps) key =
      (case map_of ps key of Some v \<Rightarrow> v | None \<Rightarrow> [])" for key
    using query_loop_encode [OF ps] after_append [of "CHR ''?''" "''/channels/'' @ int_text channel"] chars
    by (simp add: parse_query_param_def)
  show ?thesis unfolding url using room param [of "''u''"] param [of "''t''"]
    by (simp add: bearer_token_def bearer_prefix_def ps_def)
qed

end
