(* ===== verification/Client_App.thy ===== *)
theory Client_App
  imports Client_Api Client_Bridge
begin

text \<open>
  The desktop client's state: \<^verbatim>\<open>AppState\<close> of \<^verbatim>\<open>client-qt/src/app/AppState.cpp\<close> over its log-in
  (\<open>auth\<close>), its bridge (\<open>bridge\<close>) and the requests it has under way. A request under way carries what its
  callback captures. An event is one turn of the user interface's thread, one job of the audio pool or one
  callback of the WebSocket; signals for the view are left out.
\<close>

section \<open>State\<close>

record user_card =
  us_id :: int
  us_username :: string
  us_display_name :: string
  us_avatar_url :: string

record profile = user_card +
  pf_email :: string

record server_card =
  sv_id :: int
  sv_name :: string
  sv_owner_id :: int

record channel_card =
  ch_id :: int
  ch_name :: string
  ch_kind :: string

record peer_card =
  pc_id :: peer_id
  pc_username :: string
  pc_display_name :: string
  pc_avatar_url :: string
  pc_user_id :: "int option"

datatype link = Link_Down | Link_Connecting | Link_Up

text \<open>A callback with what it captures: the user, the server, the invited user, the peer.\<close>

datatype api_callback =
    Got_Profile int
  | Got_Servers int
  | Got_Channels int int
  | Made_Server int
  | Made_Channel int int
  | Invite_Accepted int
  | Got_Users int
  | User_Invited int int int
  | Profile_Changed
  | Got_Peer int peer_id

record app =
  ap_auth :: auth
  ap_bridge :: bridge
  ap_signaling_url :: string
  ap_api_base_url :: string
  ap_profile :: "profile option"
  ap_api_error :: string
  ap_servers :: "server_card list"
  ap_selected_server :: int
  ap_channels :: "channel_card list"
  ap_users :: "user_card list"
  ap_selected_channel :: int
  ap_peers :: "peer_card list"
  ap_streaming_peers :: "peer_id list"
  ap_watched :: "peer_id list"
  ap_link :: link
  ap_stats_timer :: bool
  ap_avg_rtt :: int
  ap_last_rtt :: int
  ap_packets_lost :: int
  ap_remote_tracks :: int
  ap_rtt_history :: "(int \<times> int) list"
  ap_requests :: "(server_request \<times> api_callback) list"

definition new_app :: "string \<Rightarrow> string \<Rightarrow> session_data \<Rightarrow> string \<Rightarrow> string \<Rightarrow> app" where
  "new_app signaling_url api_base_url stored input output =
     \<lparr>ap_auth = new_auth stored, ap_bridge = new_bridge input output, ap_signaling_url = signaling_url,
      ap_api_base_url = api_base_url, ap_profile = None, ap_api_error = [], ap_servers = [],
      ap_selected_server = -1, ap_channels = [], ap_users = [], ap_selected_channel = -1, ap_peers = [],
      ap_streaming_peers = [], ap_watched = [], ap_link = Link_Down, ap_stats_timer = False, ap_avg_rtt = -1,
      ap_last_rtt = -1, ap_packets_lost = 0, ap_remote_tracks = 0, ap_rtt_history = [], ap_requests = []\<rparr>"

definition app_user :: "app \<Rightarrow> int" where
  "app_user a = au_user_id (ap_auth a)"

definition app_logged_in :: "app \<Rightarrow> bool" where
  "app_logged_in a = au_logged_in (ap_auth a)"

definition on_bridge :: "(bridge \<Rightarrow> bridge) \<Rightarrow> app \<Rightarrow> app" where
  "on_bridge f a = a\<lparr>ap_bridge := f (ap_bridge a)\<rparr>"

definition app_media :: "media_call \<Rightarrow> app \<Rightarrow> app" where
  "app_media c = on_bridge (call_media c)"

definition send_request :: "server_request \<Rightarrow> api_callback \<Rightarrow> app \<Rightarrow> app" where
  "send_request req callback a = a\<lparr>ap_requests := ap_requests a @ [(req, callback)]\<rparr>"

definition set_api_error :: "string \<Rightarrow> app \<Rightarrow> app" where
  "set_api_error e a = a\<lparr>ap_api_error := e\<rparr>"

text \<open>\<open>now\<close> is the time in milliseconds, in a text that keeps the view from showing an old picture.\<close>

definition avatar_url_for :: "json \<Rightarrow> string \<Rightarrow> int \<Rightarrow> int option \<Rightarrow> string" where
  "avatar_url_for user api_base_url user_id now =
     (case json_find user ''avatar_url'' of
        Some (JString url) \<Rightarrow>
          if trimmed url = [] then []
          else api_base_url @ ''/users/'' @ int_text user_id @ ''/avatar'' @
                 (case now of None \<Rightarrow> [] | Some t \<Rightarrow> ''?t='' @ int_text t)
      | _ \<Rightarrow> [])"

definition name_of :: "json \<Rightarrow> string" where
  "name_of user =
     (let d = qt_string (json_find user ''display_name'') in
      if d = [] then qt_string (json_find user ''username'') else d)"

section \<open>Requests\<close>

definition fetch_current_user_profile :: "app \<Rightarrow> app" where
  "fetch_current_user_profile a = (if app_user a \<le> 0 then a else send_request Get_Me (Got_Profile (app_user a)) a)"

definition reload_servers :: "app \<Rightarrow> app" where
  "reload_servers a = send_request List_Servers (Got_Servers (app_user a)) a"

definition reload_channels :: "app \<Rightarrow> app" where
  "reload_channels a =
     (if ap_selected_server a < 0 then a
      else send_request (List_Channels (ap_selected_server a)) (Got_Channels (app_user a) (ap_selected_server a)) a)"

definition load_initial_data :: "app \<Rightarrow> app" where
  "load_initial_data a =
     (let uid = app_user a;
          p = \<lparr>us_id = uid, us_username = au_username (ap_auth a), us_display_name = display_name (ap_auth a),
               us_avatar_url = (if au_avatar_url (ap_auth a) \<noteq> []
                                then ap_api_base_url a @ ''/users/'' @ int_text uid @ ''/avatar'' else []),
               pf_email = []\<rparr> in
      reload_servers (fetch_current_user_profile (a\<lparr>ap_profile := Some p\<rparr>)))"

definition reset_connection_stats :: "app \<Rightarrow> app" where
  "reset_connection_stats a =
     a\<lparr>ap_avg_rtt := -1, ap_last_rtt := -1, ap_packets_lost := 0, ap_remote_tracks := 0, ap_rtt_history := []\<rparr>"

definition create_server :: "string \<Rightarrow> string \<Rightarrow> app \<Rightarrow> app" where
  "create_server name desc a = send_request (Create_Server name desc) (Made_Server (app_user a)) a"

definition create_channel :: "string \<Rightarrow> string \<Rightarrow> app \<Rightarrow> app" where
  "create_channel name kind a =
     (if ap_selected_server a < 0 then a
      else send_request (Create_Channel (ap_selected_server a) name kind)
             (Made_Channel (app_user a) (ap_selected_server a)) a)"

definition accept_invite :: "string \<Rightarrow> app \<Rightarrow> app" where
  "accept_invite code a = send_request (Accept_Invite code) (Invite_Accepted (app_user a)) a"

definition load_users :: "app \<Rightarrow> app" where
  "load_users a = send_request List_Users (Got_Users (app_user a)) a"

definition can_manage_selected_server :: "app \<Rightarrow> bool" where
  "can_manage_selected_server a =
     (case List.find (\<lambda>s. sv_id s = ap_selected_server a) (ap_servers a) of
        None \<Rightarrow> False
      | Some s \<Rightarrow> sv_owner_id s = app_user a)"

definition invite_user :: "int \<Rightarrow> app \<Rightarrow> app" where
  "invite_user user_id a =
     (if \<not> can_manage_selected_server a then set_api_error ''Only the server owner can invite users'' a
      else send_request (Add_Member (ap_selected_server a) user_id)
             (User_Invited (app_user a) (ap_selected_server a) user_id) a)"

definition profile_id :: "app \<Rightarrow> int" where
  "profile_id a = (case ap_profile a of None \<Rightarrow> 0 | Some p \<Rightarrow> us_id p)"

definition update_display_name :: "string \<Rightarrow> app \<Rightarrow> app" where
  "update_display_name name a = send_request (Update_Profile (profile_id a) name) Profile_Changed a"

definition upload_avatar :: "string \<Rightarrow> string \<Rightarrow> app \<Rightarrow> app" where
  "upload_avatar bytes ext a = send_request (Upload_Avatar (profile_id a) bytes ext) Profile_Changed a"

section \<open>Voice\<close>

definition leave_voice_channel :: "app \<Rightarrow> app" where
  "leave_voice_channel a =
     reset_connection_stats
       ((on_bridge bridge_disconnect (app_media M_Deinit_Screen (on_bridge audio_stop (a\<lparr>ap_stats_timer := False\<rparr>))))
          \<lparr>ap_link := Link_Down, ap_peers := [], ap_streaming_peers := [], ap_watched := []\<rparr>)"

definition voice_channel :: "int \<Rightarrow> channel_card \<Rightarrow> bool" where
  "voice_channel channel_id c \<longleftrightarrow> ch_id c = channel_id \<and> ch_kind c = ''voice''"

text \<open>\<open>creates\<close>: the WebSocket could be made. Its opening does not throw.\<close>

definition start_session :: "environment \<Rightarrow> bool \<Rightarrow> int \<Rightarrow> app \<Rightarrow> app" where
  "start_session env creates channel_id a =
     on_bridge audio_start
       (on_bridge (bridge_connect env creates (ap_signaling_url a @ ''/channels/'' @ int_text channel_id)
                     (au_username (ap_auth a)) (au_access_token (ap_auth a)))
          (app_media M_Init_Screen (a\<lparr>ap_selected_channel := channel_id, ap_link := Link_Connecting\<rparr>)))"

definition join_voice_channel :: "environment \<Rightarrow> bool \<Rightarrow> int \<Rightarrow> app \<Rightarrow> app" where
  "join_voice_channel env creates channel_id a =
     (if \<not> list_ex (voice_channel channel_id) (ap_channels a)
      then set_api_error ''The selected voice channel is no longer available.'' a
      else
        let a1 = (if ap_link a \<noteq> Link_Down then leave_voice_channel a else a) in
        start_session env creates channel_id a1)"

definition select_server :: "int \<Rightarrow> app \<Rightarrow> app" where
  "select_server i a =
     (let a1 = (if i \<noteq> ap_selected_server a \<and> ap_link a \<noteq> Link_Down then leave_voice_channel a else a) in
      reload_channels (a1\<lparr>ap_selected_server := i, ap_selected_channel := -1, ap_channels := []\<rparr>))"

definition select_channel :: "int \<Rightarrow> app \<Rightarrow> app" where
  "select_channel i a = a\<lparr>ap_selected_channel := i\<rparr>"

definition app_join_stream :: "peer_id \<Rightarrow> app \<Rightarrow> app" where
  "app_join_stream p a =
     (if p \<in> set (ap_watched a) then a
      else (app_media (M_Join_Stream p) a)\<lparr>ap_watched := ap_watched a @ [p]\<rparr>)"

definition app_leave_stream :: "peer_id \<Rightarrow> app \<Rightarrow> app" where
  "app_leave_stream p a =
     (if p \<in> set (ap_watched a) then app_media (M_Leave_Stream p) (a\<lparr>ap_watched := removeAll p (ap_watched a)\<rparr>) else a)"

text \<open>\<open>ok\<close>: what the media client answered to the call.\<close>

definition app_start_sharing :: "bool \<Rightarrow> string \<Rightarrow> int \<Rightarrow> int \<Rightarrow> int \<Rightarrow> bool \<Rightarrow> string \<Rightarrow> app \<Rightarrow> app" where
  "app_start_sharing ok target w h fps audio audio_target a =
     (let a1 = app_media (M_Start_Sharing target w h fps audio audio_target) a in
      if \<not> ok then set_api_error
        ''Failed to start screen sharing. The selected source may no longer be available.'' a1
      else a1)"

section \<open>Reports of the bridge\<close>

definition ws_connected :: "app \<Rightarrow> app" where
  "ws_connected a =
     (if \<not> app_logged_in a \<or> ap_selected_channel a < 0 then on_bridge bridge_disconnect a
      else a\<lparr>ap_link := Link_Up, ap_stats_timer := True\<rparr>)"

definition ws_disconnected :: "app \<Rightarrow> app" where
  "ws_disconnected a =
     (let a1 = a\<lparr>ap_link := Link_Down, ap_stats_timer := False\<rparr>;
          a2 = (if ap_link a \<noteq> Link_Down then app_media M_Deinit_Screen (on_bridge audio_stop a1) else a1) in
      (reset_connection_stats a2)\<lparr>ap_peers := [], ap_streaming_peers := [], ap_watched := []\<rparr>)"

definition app_add_peer :: "peer_id \<Rightarrow> app \<Rightarrow> app" where
  "app_add_peer p a = a\<lparr>ap_peers := ap_peers a @ [\<lparr>pc_id = p, pc_username = [], pc_display_name = [], pc_avatar_url = [],
     pc_user_id = None\<rparr>]\<rparr>"

definition app_remove_peer :: "peer_id \<Rightarrow> app \<Rightarrow> app" where
  "app_remove_peer p a =
     a\<lparr>ap_peers := filter (\<lambda>c. pc_id c \<noteq> p) (ap_peers a), ap_streaming_peers := removeAll p (ap_streaming_peers a),
       ap_watched := removeAll p (ap_watched a)\<rparr>"

text \<open>The first card of that peer.\<close>

fun change_card :: "peer_id \<Rightarrow> (peer_card \<Rightarrow> peer_card) \<Rightarrow> peer_card list \<Rightarrow> peer_card list" where
  "change_card p f [] = []"
| "change_card p f (c # cs) = (if pc_id c = p then f c # cs else c # change_card p f cs)"

definition peer_identity_received :: "peer_id \<Rightarrow> string \<Rightarrow> app \<Rightarrow> app" where
  "peer_identity_received p username a =
     (if p \<in> pc_id ` set (ap_peers a)
      then send_request (Lookup_User username) (Got_Peer (app_user a) p)
             (a\<lparr>ap_peers := change_card p (\<lambda>c. c\<lparr>pc_username := username\<rparr>) (ap_peers a)\<rparr>)
      else a)"

definition app_add_streaming_peer :: "peer_id \<Rightarrow> app \<Rightarrow> app" where
  "app_add_streaming_peer p a =
     (if p \<in> set (ap_streaming_peers a) then a else a\<lparr>ap_streaming_peers := ap_streaming_peers a @ [p]\<rparr>)"

definition app_remove_streaming_peer :: "peer_id \<Rightarrow> app \<Rightarrow> app" where
  "app_remove_streaming_peer p a =
     (if p \<notin> set (ap_streaming_peers a) then a
      else a\<lparr>ap_streaming_peers := removeAll p (ap_streaming_peers a), ap_watched := removeAll p (ap_watched a)\<rparr>)"

definition stream_watch_rejected :: "peer_id \<Rightarrow> watch_reject_reason \<Rightarrow> app \<Rightarrow> app" where
  "stream_watch_rejected p reason a =
     set_api_error
       (case reason of
          Capacity \<Rightarrow> ''No free screen-stream slot. Stop watching another stream and try again.''
        | NotStreaming \<Rightarrow> ''This stream has already stopped.''
        | UnknownPeer \<Rightarrow> ''This stream is no longer available.'')
       (a\<lparr>ap_watched := removeAll p (ap_watched a)\<rparr>)"

fun bridge_told :: "signal \<Rightarrow> app \<Rightarrow> app" where
  "bridge_told Sig_Connected a = ws_connected a"
| "bridge_told Sig_Disconnected a = ws_disconnected a"
| "bridge_told (Sig_Peer_Joined p) a = app_add_peer p a"
| "bridge_told (Sig_Peer_Left p) a = app_remove_peer p a"
| "bridge_told (Sig_Peer_Identity p u) a = peer_identity_received p u a"
| "bridge_told (Sig_Streaming_Started p) a = app_add_streaming_peer p a"
| "bridge_told (Sig_Streaming_Stopped p) a = app_remove_streaming_peer p a"
| "bridge_told (Sig_Watch_Rejected p reason) a = stream_watch_rejected p reason a"
| "bridge_told _ a = a"

definition dispatch_posted :: "app \<Rightarrow> app" where
  "dispatch_posted a =
     (case br_queue (ap_bridge a) of
        [] \<Rightarrow> a
      | m # queue \<Rightarrow>
          let a1 = on_bridge (\<lambda>b. b\<lparr>br_queue := queue\<rparr>) a in
          (case m of Told s \<Rightarrow> bridge_told s a1 | Frame_Gone p \<Rightarrow> a1))"

section \<open>Reports of the log-in\<close>

definition auth_changed :: "app \<Rightarrow> app" where
  "auth_changed a =
     (if app_logged_in a then load_initial_data a
      else (leave_voice_channel a)
        \<lparr>ap_profile := None, ap_servers := [], ap_channels := [], ap_users := [], ap_peers := [],
         ap_streaming_peers := [], ap_watched := [], ap_selected_server := -1, ap_selected_channel := -1\<rparr>)"

definition on_auth_signal :: "auth_signal \<Rightarrow> app \<Rightarrow> app" where
  "on_auth_signal s a =
     (case s of Auth_Changed \<Rightarrow> auth_changed a | Login_Error msg \<Rightarrow> set_api_error msg a | _ \<Rightarrow> a)"

definition app_auth :: "auth_event \<Rightarrow> app \<Rightarrow> app" where
  "app_auth e a =
     (let auth = auth_step e (ap_auth a) in
      fold on_auth_signal (drop (length (au_signals (ap_auth a))) (au_signals auth)) (a\<lparr>ap_auth := auth\<rparr>))"

section \<open>Replies\<close>

definition server_of :: "json \<Rightarrow> server_card" where
  "server_of v = \<lparr>sv_id = qt_int (json_find v ''id'') 0, sv_name = qt_string (json_find v ''name''),
     sv_owner_id = qt_int (json_find v ''owner_id'') 0\<rparr>"

definition channel_of :: "json \<Rightarrow> channel_card" where
  "channel_of v = \<lparr>ch_id = qt_int (json_find v ''id'') 0, ch_name = qt_string (json_find v ''name''),
     ch_kind = qt_string (json_find v ''kind'')\<rparr>"

definition user_of :: "string \<Rightarrow> json \<Rightarrow> user_card" where
  "user_of api_base_url v =
     (let uid = qt_int (json_find v ''id'') 0 in
      \<lparr>us_id = uid, us_username = qt_string (json_find v ''username''), us_display_name = name_of v,
       us_avatar_url = avatar_url_for v api_base_url uid None\<rparr>)"

definition profile_of :: "string \<Rightarrow> int \<Rightarrow> json \<Rightarrow> profile" where
  "profile_of api_base_url now v =
     (let uid = qt_int (json_find v ''id'') 0 in
      \<lparr>us_id = uid, us_username = qt_string (json_find v ''username''), us_display_name = name_of v,
       us_avatar_url = avatar_url_for v api_base_url uid (Some now), pf_email = qt_string (json_find v ''email'')\<rparr>)"

definition still_user :: "int \<Rightarrow> app \<Rightarrow> bool" where
  "still_user requested a \<longleftrightarrow> app_logged_in a \<and> app_user a = requested"

fun api_finished :: "bool \<Rightarrow> json \<Rightarrow> int \<Rightarrow> api_callback \<Rightarrow> app \<Rightarrow> app" where
  "api_finished ok json now (Got_Profile u) a =
     (if \<not> ok \<or> \<not> still_user u a then a else a\<lparr>ap_profile := Some (profile_of (ap_api_base_url a) now json)\<rparr>)"
| "api_finished ok json now (Got_Servers u) a =
     (if \<not> ok \<or> \<not> still_user u a then a else a\<lparr>ap_servers := map server_of (as_array json)\<rparr>)"
| "api_finished ok json now (Got_Channels u i) a =
     (if \<not> ok \<or> \<not> still_user u a \<or> ap_selected_server a \<noteq> i then a
      else a\<lparr>ap_channels := map channel_of (as_array json)\<rparr>)"
| "api_finished ok json now (Made_Server u) a =
     (if \<not> still_user u a then a
      else if ok then reload_servers a else set_api_error ''Failed to create server'' a)"
| "api_finished ok json now (Made_Channel u i) a =
     (if \<not> still_user u a then a
      else if ok then (if ap_selected_server a = i then reload_channels a else a)
      else set_api_error ''Failed to create channel'' a)"
| "api_finished ok json now (Invite_Accepted u) a =
     (if \<not> still_user u a then a
      else if ok then select_server (qt_int (json_find json ''server_id'') 0) (reload_servers a)
      else set_api_error ''Invalid invite code'' a)"
| "api_finished ok json now (Got_Users u) a =
     (if \<not> still_user u a then a
      else if \<not> ok then set_api_error ''Failed to load users'' a
      else a\<lparr>ap_users := filter (\<lambda>c. us_id c \<noteq> app_user a) (map (user_of (ap_api_base_url a)) (as_array json))\<rparr>)"
| "api_finished ok json now (User_Invited u i invited) a =
     (if \<not> still_user u a \<or> ap_selected_server a \<noteq> i then a
      else if \<not> ok then set_api_error ''Failed to add user; they may already be a member'' a
      else a\<lparr>ap_users := filter (\<lambda>c. us_id c \<noteq> invited) (ap_users a)\<rparr>)"
| "api_finished ok json now Profile_Changed a = (if ok then fetch_current_user_profile a else a)"
| "api_finished ok json now (Got_Peer u p) a =
     (if \<not> ok \<or> \<not> still_user u a then a
      else
        let uid = qt_int (json_find json ''id'') 0 in
        a\<lparr>ap_peers := change_card p
            (\<lambda>c. c\<lparr>pc_user_id := Some uid, pc_avatar_url := avatar_url_for json (ap_api_base_url a) uid None,
                   pc_display_name := name_of json\<rparr>) (ap_peers a)\<rparr>)"

definition app_reply :: "nat \<Rightarrow> bool \<Rightarrow> json \<Rightarrow> int \<Rightarrow> app \<Rightarrow> app" where
  "app_reply i ok json now a =
     (if length (ap_requests a) \<le> i then a
      else api_finished ok json now (snd (ap_requests a ! i)) (a\<lparr>ap_requests := remove_at i (ap_requests a)\<rparr>))"

section \<open>Statistics\<close>

definition kMaxSamples :: nat where "kMaxSamples = 60"

definition poll_connection_stats :: "int \<Rightarrow> json \<Rightarrow> app \<Rightarrow> app" where
  "poll_connection_stats now stats a =
     (let rtt = qt_int (json_find stats ''rttMs'') (-1);
          all = ap_rtt_history a @ [(now, rtt)];
          history = drop (length all - kMaxSamples) all;
          measured = filter (\<lambda>r. 0 \<le> r) (map snd history) in
      a\<lparr>ap_last_rtt := rtt, ap_packets_lost := qt_int (json_find stats ''packetsLost'') 0,
        ap_remote_tracks := qt_int (json_find stats ''remoteTracks'') 0, ap_rtt_history := history,
        ap_avg_rtt := (if measured \<noteq> [] then sum_list measured div int (length measured) else -1)\<rparr>)"

section \<open>Events\<close>

datatype app_event =
    App_Auth auth_event
  | App_Reply nat bool json int
  | App_Posted
  | App_Job bool bool
  | App_Socket_Open nat
  | App_Socket_Closed nat
  | App_Socket_Error nat
  | App_Socket_Text nat "string option"
  | App_Frame bool peer_id frame_view
  | App_Frame_Removed peer_id
  | App_Poll int json
  | App_Select_Server int
  | App_Select_Channel int
  | App_Join_Voice bool int
  | App_Leave_Voice
  | App_Set_Muted bool
  | App_Set_Deafened bool
  | App_Start_Sharing bool string int int int bool string
  | App_Stop_Sharing
  | App_Join_Stream peer_id
  | App_Leave_Stream peer_id
  | App_Create_Server string string
  | App_Create_Channel string string
  | App_Accept_Invite string
  | App_Load_Users
  | App_Invite_User int
  | App_Display_Name string
  | App_Avatar string string
  | App_Input_Device bool string
  | App_Output_Device bool string
  | App_Register_Sink peer_id "nat option"
  | App_Unregister_Sink peer_id nat

fun app_step :: "environment \<Rightarrow> (string \<Rightarrow> json option) \<Rightarrow> app_event \<Rightarrow> app \<Rightarrow> app" where
  "app_step env parse_text (App_Auth e) a = app_auth e a"
| "app_step env parse_text (App_Reply i ok json now) a = app_reply i ok json now a"
| "app_step env parse_text App_Posted a = dispatch_posted a"
| "app_step env parse_text (App_Job has_input has_output) a = on_bridge (run_next_job has_input has_output) a"
| "app_step env parse_text (App_Socket_Open n) a = on_bridge (bridge_hear (on_open n)) a"
| "app_step env parse_text (App_Socket_Closed n) a = on_bridge (bridge_hear (on_closed n)) a"
| "app_step env parse_text (App_Socket_Error n) a = on_bridge (bridge_hear (on_error n)) a"
| "app_step env parse_text (App_Socket_Text n text) a = on_bridge (bridge_hear (on_message parse_text n text)) a"
| "app_step env parse_text (App_Frame maps p f) a = on_bridge (bridge_frame maps p f) a"
| "app_step env parse_text (App_Frame_Removed p) a = on_bridge (bridge_frame_removed p) a"
| "app_step env parse_text (App_Poll now stats) a = (if ap_stats_timer a then poll_connection_stats now stats a else a)"
| "app_step env parse_text (App_Select_Server i) a = select_server i a"
| "app_step env parse_text (App_Select_Channel i) a = select_channel i a"
| "app_step env parse_text (App_Join_Voice creates i) a = join_voice_channel env creates i a"
| "app_step env parse_text App_Leave_Voice a = leave_voice_channel a"
| "app_step env parse_text (App_Set_Muted m) a = app_media (M_Set_Muted m) a"
| "app_step env parse_text (App_Set_Deafened d) a = app_media (M_Set_Deafened d) a"
| "app_step env parse_text (App_Start_Sharing ok target w h fps audio audio_target) a =
     app_start_sharing ok target w h fps audio audio_target a"
| "app_step env parse_text App_Stop_Sharing a = app_media M_Stop_Sharing a"
| "app_step env parse_text (App_Join_Stream p) a = app_join_stream p a"
| "app_step env parse_text (App_Leave_Stream p) a = app_leave_stream p a"
| "app_step env parse_text (App_Create_Server name desc) a = create_server name desc a"
| "app_step env parse_text (App_Create_Channel name kind) a = create_channel name kind a"
| "app_step env parse_text (App_Accept_Invite code) a = accept_invite code a"
| "app_step env parse_text App_Load_Users a = load_users a"
| "app_step env parse_text (App_Invite_User i) a = invite_user i a"
| "app_step env parse_text (App_Display_Name name) a = update_display_name name a"
| "app_step env parse_text (App_Avatar bytes ext) a = upload_avatar bytes ext a"
| "app_step env parse_text (App_Input_Device found i) a = on_bridge (\<lambda>b. snd (bridge_set_input_device found i b)) a"
| "app_step env parse_text (App_Output_Device found i) a = on_bridge (\<lambda>b. snd (bridge_set_output_device found i b)) a"
| "app_step env parse_text (App_Register_Sink p s) a = on_bridge (register_sink p s) a"
| "app_step env parse_text (App_Unregister_Sink p s) a = on_bridge (unregister_sink p s) a"

end
