(* ===== verification/Client_Voice_Runs.thy ===== *)
theory Client_Voice_Runs
  imports Client_App
begin

text \<open>
  What joining a voice channel does in the end, after the WebSocket has opened, the posted reports were
  handled and the audio jobs have run: from no channel it works; from another channel the report
  of the old connection's end arrives late and takes down what was just set up.
\<close>

section \<open>What the bridge hears\<close>

lemma to_bridge_listeners: "to_bridge [(Listener i, s). i \<leftarrow> is, P i] = []"
  by (induction "is") (simp_all add: to_bridge_def)

lemma to_bridge_append: "to_bridge (xs @ ys) = to_bridge xs @ to_bridge ys"
  by (simp add: to_bridge_def)

definition wired :: "bridge \<Rightarrow> bool" where
  "wired b \<longleftrightarrow> tr_callbacks (br_transport b) = core_callbacks"

lemma tr_told_simps [simp]:
  "tr_told (clear_peers t) = tr_told t" "tr_told (update_state st t) = tr_told t" "tr_told (note_call c t) = tr_told t"
  by (simp_all add: clear_peers_def update_state_def note_call_def)

lemma transport_same [simp]:
  "tr_callbacks (clear_peers t) = tr_callbacks t" "tr_callbacks (update_state st t) = tr_callbacks t"
  "tr_callbacks (note_call c t) = tr_callbacks t"
  "tr_next_socket (clear_peers t) = tr_next_socket t" "tr_next_socket (update_state st t) = tr_next_socket t"
  "tr_next_socket (note_call c t) = tr_next_socket t"
  "tr_ws_connected (clear_peers t) = tr_ws_connected t" "tr_ws_connected (update_state st t) = tr_ws_connected t"
  "tr_ws_connected (note_call c t) = tr_ws_connected t"
  "tr_ws (clear_peers t) = tr_ws t" "tr_ws (update_state st t) = tr_ws t" "tr_ws (note_call c t) = tr_ws t"
  by (simp_all add: clear_peers_def update_state_def note_call_def)

lemma announced:
  assumes "tr_callbacks t = core_callbacks"
  shows "\<exists>told. tr_told (announce_state up t) = tr_told t @ told \<and>
    to_bridge told = [if up then Sig_Connected else Sig_Disconnected]"
proof -
  have "to_bridge ([(Listener i, Sig_Connection up). i \<leftarrow> [0..<n], present ! i] @ [(Callback, s)]) = [s]" for n present s
    by (simp add: to_bridge_append to_bridge_listeners) (simp add: to_bridge_def)
  then show ?thesis using assms by (simp add: announce_state_def tell_listeners_def tell_def core_callbacks_def Let_def)
qed

lemma bridge_hear_eq:
  "tr_told (f (br_transport b)) = tr_told (br_transport b) @ told \<Longrightarrow>
   bridge_hear f b = b\<lparr>br_transport := f (br_transport b), br_media := br_media b @ concat (map core_media (to_bridge told)),
     br_queue := br_queue b @ map Told (to_bridge told)\<rparr>"
  by (simp add: bridge_hear_def Let_def)

lemma transport_disconnect_fields [simp]:
  "tr_callbacks (transport_disconnect t) = tr_callbacks t" "tr_ws_connected (transport_disconnect t) = False"
  "tr_next_socket (transport_disconnect t) = tr_next_socket t" "tr_ws (transport_disconnect t) = None"
  by (simp_all add: transport_disconnect_def Let_def split: option.split)

lemma hear_disconnect:
  assumes "wired b"
  shows "bridge_disconnect b = b\<lparr>br_transport := transport_disconnect (br_transport b),
    br_queue := br_queue b @ (if tr_ws_connected (br_transport b) then [Told Sig_Disconnected] else [])\<rparr>"
proof -
  define t where "t = br_transport b"
  have "\<exists>told. tr_told (transport_disconnect t) = tr_told t @ told \<and>
      to_bridge told = (if tr_ws_connected t then [Sig_Disconnected] else [])"
  proof -
    define t1 where "t1 = clear_peers (t\<lparr>tr_ws_connected := False, tr_ws := None, tr_local_id := []\<rparr>)"
    define t3 where "t3 = update_state Closed (case tr_ws t of Some n \<Rightarrow> note_call (Ws_Close n) t1 | None \<Rightarrow> t1)"
    have t3: "transport_disconnect t = (if tr_ws_connected t then announce_state False t3 else t3)"
      unfolding transport_disconnect_def t1_def t3_def by (simp add: Let_def split: option.split)
    have same: "tr_told t3 = tr_told t" "tr_callbacks t3 = core_callbacks"
      using assms by (simp_all add: t3_def t1_def wired_def t_def split: option.split)
    obtain told where "tr_told (announce_state False t3) = tr_told t @ told" "to_bridge told = [Sig_Disconnected]"
      using announced [OF same(2), of False] same(1) by auto
    then show ?thesis using same(1) by (simp add: t3) (simp add: to_bridge_def)
  qed
  then show ?thesis using bridge_hear_eq [of transport_disconnect b]
    by (force simp: bridge_disconnect_def t_def)
qed

lemma hear_connect:
  assumes "wired b" "\<not> tr_ws_connected (br_transport b)" "socket_proxy env (bridge_url url username token) \<noteq> None"
  shows "\<exists>t. bridge_connect env True url username token b = b\<lparr>br_transport := t\<rparr> \<and> tr_callbacks t = core_callbacks \<and>
    tr_ws t = Some (tr_next_socket (br_transport b)) \<and> \<not> tr_ws_connected t"
proof -
  obtain proxy where proxy: "socket_proxy env (bridge_url url username token) = Some proxy" using assms(3) by auto
  define t where "t = snd (transport_connect env (bridge_url url username token) True True (br_transport b))"
  have "tr_told t = tr_told (br_transport b)"
    using assms(2) proxy
    by (simp add: t_def transport_connect_def transport_disconnect_def Let_def split: option.split)
  then have "bridge_connect env True url username token b = b\<lparr>br_transport := t\<rparr>"
    unfolding bridge_connect_def by (subst bridge_hear_eq [of _ _ "[]"]) (simp_all add: t_def to_bridge_def)
  moreover have "tr_callbacks t = core_callbacks \<and> tr_ws t = Some (tr_next_socket (br_transport b)) \<and> \<not> tr_ws_connected t"
    using assms proxy by (simp add: t_def transport_connect_def wired_def Let_def)
  ultimately show ?thesis by blast
qed

lemma hear_open:
  assumes "wired b" "tr_ws (br_transport b) = Some n"
  shows "\<exists>t. bridge_hear (on_open n) b = b\<lparr>br_transport := t, br_queue := br_queue b @ [Told Sig_Connected]\<rparr> \<and>
    tr_callbacks t = core_callbacks \<and> tr_ws_connected t"
proof -
  obtain told where "tr_told (on_open n (br_transport b)) = tr_told (br_transport b) @ told" "to_bridge told = [Sig_Connected]"
    using announced [of "update_state Connected ((br_transport b)\<lparr>tr_ws_connected := True\<rparr>)" True] assms
    by (auto simp: on_open_def is_current_socket_def opened_now_def wired_def)
  moreover have "tr_callbacks (on_open n (br_transport b)) = core_callbacks" "tr_ws_connected (on_open n (br_transport b))"
    using assms by (simp_all add: on_open_def is_current_socket_def opened_now_def wired_def)
  ultimately show ?thesis using bridge_hear_eq [of "on_open n" b told] by auto
qed

section \<open>Joining\<close>

text \<open>
  A user who is logged in and sees a voice channel, with nothing left to handle; the WebSocket of that
  channel can be made.
\<close>

definition may_join :: "environment \<Rightarrow> int \<Rightarrow> app \<Rightarrow> bool" where
  "may_join env channel a \<longleftrightarrow>
     app_logged_in a \<and> 0 \<le> channel \<and> list_ex (voice_channel channel) (ap_channels a) \<and> wired (ap_bridge a) \<and>
     br_queue (ap_bridge a) = [] \<and> br_jobs (ap_bridge a) = [] \<and>
     socket_proxy env (bridge_url (ap_signaling_url a @ ''/channels/'' @ int_text channel)
       (au_username (ap_auth a)) (au_access_token (ap_auth a))) \<noteq> None"

text \<open>The new socket opens, and everything that is left to handle is handled, in order.\<close>

definition settle :: "nat \<Rightarrow> nat \<Rightarrow> nat \<Rightarrow> app_event list" where
  "settle n reports jobs = App_Socket_Open n # replicate reports App_Posted @ replicate jobs (App_Job True True)"

lemma call_media_append:
  "voice_on (br_media (call_media c b)) = voice_on (br_media b @ [c])"
  "screen_on (br_media (call_media c b)) = screen_on (br_media b @ [c])"
  by (simp_all add: call_media_def)

named_theorems app_ops "the operations of the client that touch the connection"

lemmas app_connection_ops [app_ops] =
  start_session_def on_bridge_def app_media_def call_media_def audio_start_def audio_stop_def
  leave_voice_channel_def reset_connection_stats_def

lemma started_session:
  assumes "wired (ap_bridge a)" "\<not> tr_ws_connected (br_transport (ap_bridge a))"
    "socket_proxy env (bridge_url (ap_signaling_url a @ ''/channels/'' @ int_text channel)
       (au_username (ap_auth a)) (au_access_token (ap_auth a))) \<noteq> None"
  defines "b \<equiv> ap_bridge a"
  defines "g \<equiv> Suc (br_audio_generation b)"
  shows "\<exists>t. tr_callbacks t = core_callbacks \<and> tr_ws t = Some (tr_next_socket (br_transport b)) \<and> \<not> tr_ws_connected t \<and>
    start_session env True channel a = a\<lparr>ap_selected_channel := channel, ap_link := Link_Connecting,
      ap_bridge := b\<lparr>br_transport := t, br_media := br_media b @ [M_Init_Screen], br_audio_generation := g,
        br_jobs := br_jobs b @ [Job_Start g]\<rparr>\<rparr>"
proof -
  have "wired (call_media M_Init_Screen b)" "\<not> tr_ws_connected (br_transport (call_media M_Init_Screen b))"
    using assms by (simp_all add: wired_def call_media_def)
  from hear_connect [OF this assms(3)] show ?thesis
    by (auto simp: app_ops b_def g_def)
qed

lemma posted_told:
  "br_queue (ap_bridge a) = Told s # queue \<Longrightarrow>
   dispatch_posted a = bridge_told s (on_bridge (\<lambda>b. b\<lparr>br_queue := queue\<rparr>) a)"
  by (simp add: dispatch_posted_def)

lemma join_settles:
  assumes "may_join env channel a" "ap_link a = Link_Down" "\<not> tr_ws_connected (br_transport (ap_bridge a))"
  shows "let a' = fold (app_step env parse_text)
      (App_Join_Voice True channel # settle (tr_next_socket (br_transport (ap_bridge a))) 1 1) a in
    (ap_link a' = Link_Up \<and> ap_selected_channel a' = channel \<and> ap_stats_timer a' \<and>
     voice_on (br_media (ap_bridge a')) \<and> screen_on (br_media (ap_bridge a')) \<and>
     br_queue (ap_bridge a') = [] \<and> br_jobs (ap_bridge a') = []) \<and>
    wired (ap_bridge a') \<and> tr_ws_connected (br_transport (ap_bridge a')) \<and> ap_auth a' = ap_auth a \<and>
    ap_channels a' = ap_channels a \<and> ap_signaling_url a' = ap_signaling_url a"
proof -
  define b where "b = ap_bridge a"
  define g where "g = Suc (br_audio_generation b)"
  have j: "app_logged_in a" "0 \<le> channel" "list_ex (voice_channel channel) (ap_channels a)" "wired b"
      "br_queue b = []" "br_jobs b = []"
    using assms(1) by (simp_all add: may_join_def b_def)
  obtain t where t: "tr_callbacks t = core_callbacks" "tr_ws t = Some (tr_next_socket (br_transport b))" "\<not> tr_ws_connected t"
    and start: "start_session env True channel a = a\<lparr>ap_selected_channel := channel, ap_link := Link_Connecting,
      ap_bridge := b\<lparr>br_transport := t, br_media := br_media b @ [M_Init_Screen], br_audio_generation := g,
        br_jobs := [Job_Start g]\<rparr>\<rparr>"
    using started_session [of a env channel] assms j by (auto simp: may_join_def b_def g_def)
  define b1 where "b1 = b\<lparr>br_transport := t, br_media := br_media b @ [M_Init_Screen], br_audio_generation := g,
        br_jobs := [Job_Start g]\<rparr>"
  obtain t' where opened: "bridge_hear (on_open (tr_next_socket (br_transport b))) b1 =
      b1\<lparr>br_transport := t', br_queue := [Told Sig_Connected]\<rparr>" "tr_callbacks t' = core_callbacks" "tr_ws_connected t'"
    using hear_open [of b1 "tr_next_socket (br_transport b)"] t j by (auto simp: wired_def b1_def)
  have "join_voice_channel env True channel a = start_session env True channel a"
    using j assms(2) by (simp add: join_voice_channel_def)
  then show ?thesis
    using start opened j(1,2)
    by (simp add: settle_def b_def [symmetric] b1_def [symmetric])
      (simp add: b1_def on_bridge_def dispatch_posted_def ws_connected_def app_logged_in_def run_next_job_def
        run_job_def call_media_def voice_on_def screen_on_def wired_def Let_def)
qed

text \<open>
  C26: from no channel, joining works: when the socket has opened, its report was handled and the audio job
  has run, the client is connected to that channel, with its voice started and its screen session there.
\<close>

theorem join_from_idle_works:
  assumes "may_join env channel a" "ap_link a = Link_Down" "\<not> tr_ws_connected (br_transport (ap_bridge a))"
  shows "let a' = fold (app_step env parse_text)
      (App_Join_Voice True channel # settle (tr_next_socket (br_transport (ap_bridge a))) 1 1) a in
    ap_link a' = Link_Up \<and> ap_selected_channel a' = channel \<and> ap_stats_timer a' \<and>
    voice_on (br_media (ap_bridge a')) \<and> screen_on (br_media (ap_bridge a')) \<and>
    br_queue (ap_bridge a') = [] \<and> br_jobs (ap_bridge a') = []"
  using join_settles [OF assms] by (simp only: Let_def)

section \<open>Switching\<close>

lemma left_bridge:
  assumes "wired (ap_bridge a)" "tr_ws_connected (br_transport (ap_bridge a))" "br_queue (ap_bridge a) = []"
  defines "b \<equiv> ap_bridge a"
  shows "ap_bridge (leave_voice_channel a) = b\<lparr>br_audio_generation := Suc (br_audio_generation b),
      br_jobs := br_jobs b @ [Job_Stop], br_media := br_media b @ [M_Deinit_Screen],
      br_transport := transport_disconnect (br_transport b), br_queue := [Told Sig_Disconnected]\<rparr>"
proof -
  have "wired (call_media M_Deinit_Screen (audio_stop b))" using assms(1) by (simp add: wired_def call_media_def audio_stop_def b_def)
  from hear_disconnect [OF this] show ?thesis
    using assms(2,3) by (simp add: app_ops b_def)
qed

text \<open>
  C14: from another channel, joining fails silently: the report that the old connection has ended is posted by
  the disconnect and handled after the new session was set up, and it stops the voice and
  drops the screen session of the new one. Once the new socket is open the client shows itself connected to the
  new channel, with its voice stopped and no screen session.
\<close>

theorem channel_switch_silences:
  assumes "may_join env channel a" "ap_link a = Link_Up" "tr_ws_connected (br_transport (ap_bridge a))"
  shows "let a' = fold (app_step env parse_text)
      (App_Join_Voice True channel # App_Posted # settle (tr_next_socket (br_transport (ap_bridge a))) 1 3) a in
    ap_link a' = Link_Up \<and> ap_selected_channel a' = channel \<and> ap_stats_timer a' \<and>
    \<not> voice_on (br_media (ap_bridge a')) \<and> \<not> screen_on (br_media (ap_bridge a')) \<and>
    br_queue (ap_bridge a') = [] \<and> br_jobs (ap_bridge a') = []"
proof -
  define l where "l = leave_voice_channel a"
  define b where "b = ap_bridge l"
  define g where "g = Suc (br_audio_generation b)"
  define n where "n = tr_next_socket (br_transport (ap_bridge a))"
  have j: "app_logged_in a" "0 \<le> channel" "list_ex (voice_channel channel) (ap_channels a)" "wired (ap_bridge a)"
      "br_queue (ap_bridge a) = []" "br_jobs (ap_bridge a) = []"
    using assms(1) by (simp_all add: may_join_def)
  have b: "wired b" "\<not> tr_ws_connected (br_transport b)" "br_queue b = [Told Sig_Disconnected]" "br_jobs b = [Job_Stop]"
      "tr_next_socket (br_transport b) = n"
    using left_bridge [OF j(4) assms(3) j(5)] j by (simp_all add: b_def l_def n_def wired_def)
  have l: "ap_auth l = ap_auth a" "ap_signaling_url l = ap_signaling_url a"
    by (simp_all add: l_def app_ops bridge_disconnect_def)
  obtain t where t: "tr_callbacks t = core_callbacks" "tr_ws t = Some n" "\<not> tr_ws_connected t"
    and start: "start_session env True channel l = l\<lparr>ap_selected_channel := channel, ap_link := Link_Connecting,
      ap_bridge := b\<lparr>br_transport := t, br_media := br_media b @ [M_Init_Screen], br_audio_generation := g,
        br_jobs := [Job_Stop, Job_Start g]\<rparr>\<rparr>"
    using started_session [of l env channel] assms(1) b l by (auto simp: may_join_def b_def [symmetric] g_def)
  define b2 where "b2 = b\<lparr>br_transport := t, br_media := br_media b @ [M_Init_Screen, M_Deinit_Screen],
    br_audio_generation := Suc g, br_jobs := [Job_Stop, Job_Start g, Job_Stop], br_queue := []\<rparr>"
  obtain t' where opened: "bridge_hear (on_open n) b2 = b2\<lparr>br_transport := t', br_queue := [Told Sig_Connected]\<rparr>"
    using hear_open [of b2 n] t by (auto simp: wired_def b2_def)
  define c where "c = dispatch_posted (join_voice_channel env True channel a)"
  have join: "join_voice_channel env True channel a = start_session env True channel l"
    using j assms(2) by (simp add: join_voice_channel_def l_def)
  have c: "ap_bridge c = b2" "ap_auth c = ap_auth a" "ap_selected_channel c = channel"
    using l(1) b(3) by (simp_all add: c_def join start b2_def dispatch_posted_def ws_disconnected_def on_bridge_def
        app_media_def call_media_def audio_stop_def reset_connection_stats_def Let_def)
  have "ap_link (dispatch_posted (on_bridge (bridge_hear (on_open n)) c)) = Link_Up \<and>
      ap_selected_channel (dispatch_posted (on_bridge (bridge_hear (on_open n)) c)) = channel \<and>
      ap_stats_timer (dispatch_posted (on_bridge (bridge_hear (on_open n)) c)) \<and>
      ap_bridge (dispatch_posted (on_bridge (bridge_hear (on_open n)) c)) = b2\<lparr>br_transport := t'\<rparr>"
    using c opened j(1,2) by (simp add: on_bridge_def dispatch_posted_def ws_connected_def app_logged_in_def b2_def)
  then show ?thesis
    by (simp add: settle_def n_def [symmetric] c_def [symmetric] numeral_3_eq_3)
      (simp add: on_bridge_def run_next_job_def run_job_def call_media_def voice_on_def screen_on_def b2_def Let_def)
qed

section \<open>An example\<close>

definition no_env :: environment where
  "no_env = (\<lambda>_. None)"

lemma no_env_direct: "socket_proxy no_env url = Some None"
proof -
  have "first_proxy no_env names = None" for names
    by (induction names) (auto simp: proxy_variable_def environment_value_def no_env_def)
  then have "proxy_for_url no_env url = None"
    by (auto simp: proxy_for_url_def proxy_from_environment_def Let_def split: option.split)
  then show ?thesis by (simp add: socket_proxy_def)
qed

definition voice_json :: "int \<Rightarrow> json" where
  "voice_json i = JObject [(''id'', JInt i), (''kind'', JString ''voice''), (''name'', JString ''talk'')]"

text \<open>Bob logs in, selects server 5 and sees its two voice channels; then he joins the first.\<close>

definition bob_looks :: app where
  "bob_looks = fold (app_step no_env (\<lambda>_. None))
     [App_Auth (A_Login ''bob''),
      App_Auth (A_Reply 0 True (JObject [(''access_token'', JString ''t''), (''user_id'', JInt 1)])),
      App_Select_Server 5, App_Reply 2 True (JArray [voice_json 7, voice_json 8]) 0]
     (new_app ''wss://chat'' ''https://api'' no_session ''default'' ''default'')"

definition bob_talks :: app where
  "bob_talks = fold (app_step no_env (\<lambda>_. None)) (App_Join_Voice True 7 # settle 0 1 1) bob_looks"

lemmas app_eval =
  new_app_def app_auth_def login_def post_auth_def set_auth_pending_def emit_auth_def auth_reply_def auth_finished_def
  apply_token_response_def remove_at_def on_auth_signal_def auth_changed_def app_logged_in_def app_user_def new_auth_def
  load_initial_data_def reload_servers_def fetch_current_user_profile_def send_request_def select_server_def
  reload_channels_def app_reply_def still_user_def channel_of_def voice_json_def qt_int_def in_int_def qt_string_def
  new_bridge_def new_transport_def voice_channel_def

lemma bob_looks_fields:
  "ap_link bob_looks = Link_Down" "app_logged_in bob_looks" "ap_signaling_url bob_looks = ''wss://chat''"
  "ap_channels bob_looks = map channel_of [voice_json 7, voice_json 8]"
  "ap_bridge bob_looks = new_bridge ''default'' ''default''"
  by (simp_all add: bob_looks_def app_eval Let_def)

lemma bob_may_join: "may_join no_env 7 bob_looks"
  by (simp add: may_join_def bob_looks_fields no_env_direct)
    (simp add: voice_channel_def channel_of_def voice_json_def qt_int_def in_int_def qt_string_def wired_def new_bridge_def)

lemma join_from_idle_works_witness:
  "ap_link bob_talks = Link_Up \<and> voice_on (br_media (ap_bridge bob_talks)) \<and> screen_on (br_media (ap_bridge bob_talks))"
  using join_from_idle_works [OF bob_may_join bob_looks_fields(1), of "\<lambda>_. None"]
  by (simp add: bob_looks_fields(5) Let_def bob_talks_def new_bridge_def new_transport_def)

lemma bob_talks_fields:
  "ap_link bob_talks = Link_Up" "tr_ws_connected (br_transport (ap_bridge bob_talks))" "may_join no_env 8 bob_talks"
proof -
  have new: "\<not> tr_ws_connected (br_transport (ap_bridge bob_looks))" "tr_next_socket (br_transport (ap_bridge bob_looks)) = 0"
    by (simp_all add: bob_looks_fields(5) new_bridge_def new_transport_def)
  note joined = join_settles [OF bob_may_join bob_looks_fields(1) new(1), of "\<lambda>_. None", unfolded new(2), folded bob_talks_def, unfolded Let_def]
  then show "ap_link bob_talks = Link_Up" "tr_ws_connected (br_transport (ap_bridge bob_talks))" by blast+
  show "may_join no_env 8 bob_talks"
    using joined bob_looks_fields(2,4)
    by (simp add: may_join_def no_env_direct app_logged_in_def)
      (simp add: voice_channel_def channel_of_def voice_json_def qt_int_def in_int_def qt_string_def)
qed

text \<open>Then he clicks the second.\<close>

definition bob_switches :: app where
  "bob_switches = fold (app_step no_env (\<lambda>_. None))
     (App_Join_Voice True 8 # App_Posted # settle (tr_next_socket (br_transport (ap_bridge bob_talks))) 1 3) bob_talks"

lemma channel_switch_silences_witness:
  "ap_link bob_switches = Link_Up \<and> ap_selected_channel bob_switches = 8 \<and>
   \<not> voice_on (br_media (ap_bridge bob_switches)) \<and> \<not> screen_on (br_media (ap_bridge bob_switches))"
  using channel_switch_silences [OF bob_talks_fields(3) bob_talks_fields(1,2), of "\<lambda>_. None"]
  unfolding bob_switches_def Let_def by blast

end
