(* ===== verification/Client_App_Runs.thy ===== *)
theory Client_App_Runs
  imports Client_Voice_Runs
begin

text \<open>
  Whose data the desktop client shows: runs of \<^verbatim>\<open>AppState\<close> against a server, in which the replies to the
  requests under way come in any order and at any time, between any clicks, log-ins and log-outs.
\<close>

section \<open>Runs\<close>

fun callback_user :: "api_callback \<Rightarrow> int option" where
  "callback_user (Got_Profile u) = Some u"
| "callback_user (Got_Servers u) = Some u"
| "callback_user (Got_Channels u i) = Some u"
| "callback_user (Made_Server u) = Some u"
| "callback_user (Made_Channel u i) = Some u"
| "callback_user (Invite_Accepted u) = Some u"
| "callback_user (Got_Users u) = Some u"
| "callback_user (User_Invited u i invited) = Some u"
| "callback_user Profile_Changed = None"
| "callback_user (Got_Peer u p) = Some u"

text \<open>
  \<open>says u req json\<close>: the server may answer that to a request of user \<open>u\<close>. A reply without an error to a
  request that was made for a user is such an answer; any other reply may hold anything.
\<close>

inductive app_run ::
  "environment \<Rightarrow> (string \<Rightarrow> json option) \<Rightarrow> (int \<Rightarrow> server_request \<Rightarrow> json \<Rightarrow> bool) \<Rightarrow> app \<Rightarrow> bool"
  for env parse_text says where
  start: "app_run env parse_text says (new_app signaling_url api_base_url stored input output)"
| reply: "app_run env parse_text says a \<Longrightarrow>
    (\<And>req callback u. i < length (ap_requests a) \<Longrightarrow> ap_requests a ! i = (req, callback) \<Longrightarrow>
      callback_user callback = Some u \<Longrightarrow> ok \<Longrightarrow> says u req json) \<Longrightarrow>
    app_run env parse_text says (app_reply i ok json now a)"
| other: "app_run env parse_text says a \<Longrightarrow> (\<And>i ok json now. e \<noteq> App_Reply i ok json now) \<Longrightarrow>
    app_run env parse_text says (app_step env parse_text e a)"

section \<open>What is shown\<close>

text \<open>A callback is sent with the request it handles.\<close>

fun call_ok :: "server_request \<times> api_callback \<Rightarrow> bool" where
  "call_ok (req, Got_Servers u) \<longleftrightarrow> req = List_Servers"
| "call_ok (req, Got_Channels u i) \<longleftrightarrow> req = List_Channels i"
| "call_ok (req, Got_Users u) \<longleftrightarrow> req = List_Users"
| "call_ok (req, callback) \<longleftrightarrow> True"

definition answered :: "(int \<Rightarrow> server_request \<Rightarrow> json \<Rightarrow> bool) \<Rightarrow> int \<Rightarrow> server_request \<Rightarrow> (json \<Rightarrow> 'a) \<Rightarrow> 'a list \<Rightarrow> bool" where
  "answered says u req f shown \<longleftrightarrow> shown = [] \<or> (\<exists>json. says u req json \<and> shown = map f (as_array json))"

definition lists_empty :: "app \<Rightarrow> bool" where
  "lists_empty a \<longleftrightarrow> ap_profile a = None \<and> ap_servers a = [] \<and> ap_channels a = [] \<and> ap_users a = []"

definition lists_ok :: "(int \<Rightarrow> server_request \<Rightarrow> json \<Rightarrow> bool) \<Rightarrow> app \<Rightarrow> bool" where
  "lists_ok says a \<longleftrightarrow>
     answered says (app_user a) List_Servers server_of (ap_servers a) \<and>
     answered says (app_user a) (List_Channels (ap_selected_server a)) channel_of (ap_channels a)"

definition app_ok :: "(int \<Rightarrow> server_request \<Rightarrow> json \<Rightarrow> bool) \<Rightarrow> app \<Rightarrow> bool" where
  "app_ok says a \<longleftrightarrow>
     auth_ok (ap_auth a) \<and> list_all call_ok (ap_requests a) \<and> lists_ok says a \<and>
     (\<not> app_logged_in a \<longrightarrow> lists_empty a \<and> ap_link a = Link_Down)"

text \<open>The part of the state that this is about.\<close>

definition app_shown :: "app \<Rightarrow> auth \<times> (server_request \<times> api_callback) list \<times> profile option \<times> server_card list \<times> int \<times>
    channel_card list \<times> user_card list \<times> link" where
  "app_shown a = (ap_auth a, ap_requests a, ap_profile a, ap_servers a, ap_selected_server a, ap_channels a, ap_users a, ap_link a)"

lemma app_ok_shown: "app_shown a' = app_shown a \<Longrightarrow> app_ok says a' = app_ok says a"
  by (simp add: app_shown_def app_ok_def lists_ok_def lists_empty_def app_logged_in_def app_user_def)

lemma app_ok_same: "app_ok says a \<Longrightarrow> app_shown a' = app_shown a \<Longrightarrow> app_ok says a'"
  using app_ok_shown by blast

lemma shown_bridge [simp]: "app_shown (on_bridge f a) = app_shown a"
  by (simp add: app_shown_def on_bridge_def)

lemma shown_media [simp]: "app_shown (app_media c a) = app_shown a"
  by (simp add: app_media_def)

lemma shown_error [simp]: "app_shown (set_api_error e a) = app_shown a"
  by (simp add: app_shown_def set_api_error_def)

lemma shown_reset [simp]: "app_shown (reset_connection_stats a) = app_shown a"
  by (simp add: app_shown_def reset_connection_stats_def)

lemma app_ok_request: "app_ok says a \<Longrightarrow> call_ok (req, callback) \<Longrightarrow> app_ok says (send_request req callback a)"
  by (simp add: send_request_def app_ok_def lists_ok_def lists_empty_def app_logged_in_def app_user_def)

lemma app_ok_error: "app_ok says a \<Longrightarrow> app_ok says (set_api_error e a)"
  by (erule app_ok_same) simp

lemma app_ok_bridge: "app_ok says a \<Longrightarrow> app_ok says (on_bridge f a)"
  by (erule app_ok_same) simp

lemma app_ok_media: "app_ok says a \<Longrightarrow> app_ok says (app_media c a)"
  by (erule app_ok_same) simp

lemma app_ok_down: "app_ok says a \<Longrightarrow> app_ok says (a\<lparr>ap_link := Link_Down\<rparr>)"
  by (simp add: app_ok_def lists_ok_def lists_empty_def app_logged_in_def app_user_def)

lemma shown_leave: "app_shown (leave_voice_channel a) = app_shown (a\<lparr>ap_link := Link_Down\<rparr>)"
  by (simp add: leave_voice_channel_def app_shown_def on_bridge_def app_media_def reset_connection_stats_def)

lemma app_ok_leave: "app_ok says a \<Longrightarrow> app_ok says (leave_voice_channel a)"
  using app_ok_same [OF app_ok_down shown_leave] .

lemma app_ok_link: "app_ok says a \<Longrightarrow> app_logged_in a \<Longrightarrow> app_ok says (a\<lparr>ap_link := l\<rparr>)"
  by (simp add: app_ok_def lists_ok_def app_logged_in_def app_user_def)

lemma app_ok_reload_channels: "app_ok says a \<Longrightarrow> app_ok says (reload_channels a)"
  by (simp add: reload_channels_def app_ok_request)

lemma app_ok_reload_servers: "app_ok says a \<Longrightarrow> app_ok says (reload_servers a)"
  by (simp add: reload_servers_def app_ok_request)

lemma app_ok_fetch: "app_ok says a \<Longrightarrow> app_ok says (fetch_current_user_profile a)"
  by (simp add: fetch_current_user_profile_def app_ok_request)

lemma app_ok_selected:
  "app_ok says a \<Longrightarrow> app_ok says (a\<lparr>ap_selected_server := i, ap_selected_channel := c, ap_channels := []\<rparr>)"
  by (simp add: app_ok_def lists_ok_def lists_empty_def answered_def app_logged_in_def app_user_def)

lemma app_ok_select_server: "app_ok says a \<Longrightarrow> app_ok says (select_server i a)"
  using app_ok_leave by (simp add: select_server_def app_ok_reload_channels app_ok_selected Let_def)

lemma no_channels: "app_ok says a \<Longrightarrow> list_ex P (ap_channels a) \<Longrightarrow> app_logged_in a"
  by (auto simp: app_ok_def lists_empty_def)

lemma app_ok_start:
  "app_ok says a \<Longrightarrow> app_logged_in a \<Longrightarrow> app_ok says (start_session env creates channel a)"
  using app_ok_same [OF app_ok_link, of says a "start_session env creates channel a" Link_Connecting]
  by (simp add: start_session_def app_shown_def on_bridge_def app_media_def)

lemma app_ok_join: "app_ok says a \<Longrightarrow> app_ok says (join_voice_channel env creates channel a)"
proof -
  assume ok: "app_ok says a"
  have "app_logged_in (leave_voice_channel a) = app_logged_in a"
    using shown_leave [of a] by (simp add: app_shown_def app_logged_in_def)
  then show ?thesis
    using ok no_channels [OF ok] app_ok_start [OF ok] app_ok_start [OF app_ok_leave [OF ok]]
    by (simp add: join_voice_channel_def app_ok_error Let_def)
qed

section \<open>Reports of the bridge\<close>

lemma app_ok_told: "app_ok says a \<Longrightarrow> app_ok says (bridge_told s a)"
proof -
  assume ok: "app_ok says a"
  have connected: "app_ok says (ws_connected a)"
    using ok app_ok_same [OF app_ok_link [OF ok], of "ws_connected a" Link_Up]
    by (auto simp: ws_connected_def app_ok_bridge app_shown_def)
  have disconnected: "app_ok says (ws_disconnected a)"
    by (rule app_ok_same [OF app_ok_down [OF ok]])
      (simp add: ws_disconnected_def app_shown_def on_bridge_def app_media_def reset_connection_stats_def Let_def)
  have identity: "app_ok says (peer_identity_received p u a)" for p u
  proof -
    have "app_ok says (a\<lparr>ap_peers := cards\<rparr>)" for cards using app_ok_same [OF ok] by (simp add: app_shown_def)
    then show ?thesis by (simp add: peer_identity_received_def app_ok_request ok)
  qed
  show ?thesis
    using ok connected disconnected identity
    by (cases s) (auto intro!: app_ok_same [OF ok] simp: app_shown_def app_add_peer_def app_remove_peer_def app_add_streaming_peer_def
        app_remove_streaming_peer_def stream_watch_rejected_def set_api_error_def)
qed

lemma app_ok_posted: "app_ok says a \<Longrightarrow> app_ok says (dispatch_posted a)"
  by (simp add: dispatch_posted_def app_ok_told app_ok_bridge Let_def split: list.split posted.split)

section \<open>Reports of the log-in\<close>

text \<open>The signals of a log-in that starts with nobody logged in, and of a log-out.\<close>

definition before_signals :: "app \<Rightarrow> bool" where
  "before_signals a \<longleftrightarrow> auth_ok (ap_auth a) \<and> list_all call_ok (ap_requests a) \<and> ap_servers a = [] \<and> ap_channels a = [] \<and>
     (\<not> app_logged_in a \<longrightarrow> lists_empty a \<and> ap_link a = Link_Down)"

lemma before_signals_ok: "before_signals a \<Longrightarrow> app_ok says a"
  by (simp add: before_signals_def app_ok_def lists_ok_def answered_def)

lemma cleared:
  assumes "auth_ok (ap_auth a)" "list_all call_ok (ap_requests a)" "\<not> app_logged_in a"
  shows "before_signals (auth_changed a)"
proof -
  have "ap_auth (leave_voice_channel a) = ap_auth a" "ap_requests (leave_voice_channel a) = ap_requests a"
    "ap_link (leave_voice_channel a) = Link_Down"
    using shown_leave [of a] by (simp_all add: app_shown_def)
  then show ?thesis using assms by (simp add: auth_changed_def before_signals_def lists_empty_def app_logged_in_def)
qed

lemma before_signals_signal: "before_signals a \<Longrightarrow> before_signals (on_auth_signal s a)"
proof -
  assume ok: "before_signals a"
  have "before_signals (load_initial_data a)" if "app_logged_in a"
    using ok that
    by (simp add: before_signals_def load_initial_data_def reload_servers_def fetch_current_user_profile_def
        send_request_def app_logged_in_def app_user_def Let_def)
  moreover have "before_signals (auth_changed a)" if "\<not> app_logged_in a"
    using ok cleared that by (simp add: before_signals_def)
  ultimately have "before_signals (auth_changed a)" by (auto simp: auth_changed_def)
  then show ?thesis
    using ok
    by (cases s) (simp_all add: on_auth_signal_def before_signals_def set_api_error_def lists_empty_def app_logged_in_def)
qed

interpretation signals_kept: kept_by_steps on_auth_signal before_signals
  by unfold_locales (rule before_signals_signal)

text \<open>While somebody is logged in, only the log-out does anything.\<close>

lemma logged_in_step:
  assumes "auth_ok a" "au_logged_in a" "e \<noteq> A_Logout"
  shows "\<exists>posts. auth_step e a = a\<lparr>au_posts := posts\<rparr>"
proof -
  have stale: "\<forall>(g, req)\<in>set (au_posts a). g < au_generation a"
  proof -
    have "au_generation a \<notin> fst ` set (au_posts a)" using assms by (auto simp: auth_ok_def)
    moreover have "\<forall>(g, req)\<in>set (au_posts a). g \<le> au_generation a" using assms(1) by (simp add: auth_ok_def)
    ultimately show ?thesis by (force simp: order_less_le)
  qed
  have same: "\<exists>posts. a = a\<lparr>au_posts := posts\<rparr>" by (rule exI [of _ "au_posts a"]) simp
  have reply: "\<exists>posts. auth_reply i ok json a = a\<lparr>au_posts := posts\<rparr>" for i ok json
    using stale_reply [OF stale] by blast
  show ?thesis
    using assms(2,3) same reply by (cases e) simp_all
qed

lemma app_ok_auth: "app_ok says a \<Longrightarrow> app_ok says (app_auth e a)"
proof -
  assume ok: "app_ok says a"
  have auth: "auth_ok (ap_auth a)" "auth_ok (auth_step e (ap_auth a))" using ok auth_ok_step by (auto simp: app_ok_def)
  consider (out) "\<not> app_logged_in a" | (leaves) "app_logged_in a" "e = A_Logout" | (stays) "app_logged_in a" "e \<noteq> A_Logout"
    by blast
  then show ?thesis
  proof cases
    case out
    have "before_signals (a\<lparr>ap_auth := auth_step e (ap_auth a)\<rparr>)"
      using ok out auth(2) by (simp add: app_ok_def before_signals_def lists_empty_def)
    then show ?thesis unfolding app_auth_def Let_def by (rule before_signals_ok [OF signals_kept.run])
  next
    case leaves
    define a1 where "a1 = a\<lparr>ap_auth := logout (ap_auth a)\<rparr>"
    have "\<not> au_pending (ap_auth a)" using auth(1) leaves(1) by (auto simp: auth_ok_def app_logged_in_def)
    then have "app_auth e a = auth_changed a1"
      using leaves(2) by (simp add: app_auth_def a1_def on_auth_signal_def logout_def emit_auth_def set_auth_pending_def)
    moreover have "before_signals (auth_changed a1)"
      using ok auth(2) leaves(2) by (intro cleared) (simp_all add: a1_def app_ok_def app_logged_in_def logout_def emit_auth_def)
    ultimately show ?thesis by (simp add: before_signals_ok)
  next
    case stays
    obtain posts where "auth_step e (ap_auth a) = (ap_auth a)\<lparr>au_posts := posts\<rparr>"
      using logged_in_step [OF auth(1)] stays by (auto simp: app_logged_in_def)
    then show ?thesis using ok auth(2)
      by (simp add: app_auth_def app_ok_def lists_ok_def lists_empty_def app_logged_in_def app_user_def)
  qed
qed

section \<open>Replies\<close>

lemma app_ok_drop: "app_ok says a \<Longrightarrow> app_ok says (a\<lparr>ap_requests := remove_at i (ap_requests a)\<rparr>)"
  using set_remove_at [of i "ap_requests a"]
  by (auto simp: app_ok_def lists_ok_def lists_empty_def app_logged_in_def app_user_def list_all_iff)

lemma app_ok_finished:
  assumes ok: "app_ok says a" and call: "call_ok (req, callback)"
    and says: "\<And>u. callback_user callback = Some u \<Longrightarrow> fine \<Longrightarrow> says u req json"
  shows "app_ok says (api_finished fine json now callback a)"
proof -
  have server: "app_ok says (a\<lparr>ap_servers := map server_of (as_array json)\<rparr>)"
    if "says (app_user a) List_Servers json" "app_logged_in a"
    using ok that by (auto simp: app_ok_def lists_ok_def answered_def app_logged_in_def app_user_def)
  have channel: "app_ok says (a\<lparr>ap_channels := map channel_of (as_array json)\<rparr>)"
    if "says (app_user a) (List_Channels (ap_selected_server a)) json" "app_logged_in a"
    using ok that by (auto simp: app_ok_def lists_ok_def answered_def app_logged_in_def app_user_def)
  have profile: "app_ok says (a\<lparr>ap_profile := p\<rparr>)" if "app_logged_in a" for p
    using ok that by (simp add: app_ok_def lists_ok_def app_logged_in_def app_user_def)
  have users: "app_ok says (a\<lparr>ap_users := us\<rparr>)" if "app_logged_in a" for us
    using ok that by (simp add: app_ok_def lists_ok_def app_logged_in_def app_user_def)
  have peers: "app_ok says (a\<lparr>ap_peers := ps\<rparr>)" for ps
    using app_ok_same [OF ok] by (simp add: app_shown_def)
  show ?thesis
    using ok call says server channel profile users peers
    by (cases callback)
      (auto simp: still_user_def app_ok_error app_ok_reload_servers app_ok_reload_channels app_ok_select_server app_ok_fetch
        Let_def)
qed

lemma app_ok_reply:
  assumes ok: "app_ok says a"
    and says: "\<And>req callback u. i < length (ap_requests a) \<Longrightarrow> ap_requests a ! i = (req, callback) \<Longrightarrow>
      callback_user callback = Some u \<Longrightarrow> fine \<Longrightarrow> says u req json"
  shows "app_ok says (app_reply i fine json now a)"
proof (cases "i < length (ap_requests a)")
  case True
  obtain req callback where req: "ap_requests a ! i = (req, callback)" by (cases "ap_requests a ! i")
  have "call_ok (req, callback)" using ok True req nth_mem [OF True] by (auto simp: app_ok_def list_all_iff)
  then have "app_ok says (api_finished fine json now callback (a\<lparr>ap_requests := remove_at i (ap_requests a)\<rparr>))"
    using says [OF True req] by (intro app_ok_finished [OF app_ok_drop [OF ok], of req]) auto
  then show ?thesis using True by (simp add: app_reply_def req)
qed (simp add: app_reply_def ok)

section \<open>Every run\<close>

lemma app_ok_clicks:
  assumes ok: "app_ok says a"
  shows "app_ok says (app_join_stream p a)" "app_ok says (app_leave_stream p a)"
    "app_ok says (app_start_sharing fine target w h fps audio audio_target a)"
    "app_ok says (select_channel i a)" "app_ok says (poll_connection_stats now stats a)"
    "app_ok says (create_server name desc a)" "app_ok says (create_channel name kind a)"
    "app_ok says (accept_invite code a)" "app_ok says (load_users a)" "app_ok says (invite_user i a)"
    "app_ok says (update_display_name name a)" "app_ok says (upload_avatar bytes ext a)"
  using app_ok_same [OF ok]
  by (simp_all add: app_shown_def app_join_stream_def app_leave_stream_def app_media_def on_bridge_def app_start_sharing_def ok app_ok_error
      select_channel_def poll_connection_stats_def create_server_def create_channel_def accept_invite_def load_users_def
      invite_user_def update_display_name_def upload_avatar_def app_ok_request Let_def)

lemma app_ok_run: "app_run env parse_text says a \<Longrightarrow> app_ok says a"
proof (induction rule: app_run.induct)
  case start
  then show ?case by (simp add: app_ok_def new_app_def auth_ok_new lists_ok_def answered_def lists_empty_def)
next
  case (reply a i ok json now)
  then show ?case using app_ok_reply by blast
next
  case (other a e)
  show ?case
  proof (cases e)
    case (App_Reply i ok json now)
    then show ?thesis using other.hyps(2) by blast
  qed (simp_all add: other.IH app_ok_auth app_ok_posted app_ok_bridge app_ok_media app_ok_select_server app_ok_join
        app_ok_leave app_ok_clicks)
qed

text \<open>
  C7: whatever order replies come in, the servers and channels that are shown are ones the server gave to the
  user who is logged in now, and the channels are those of the server that is selected now; and
  while nobody is logged in the client shows no profile, no servers, no channels and no users, and has no voice
  session.
\<close>

theorem shows_only_own_data:
  assumes "app_run env parse_text says a"
  shows "(ap_servers a = [] \<or> (\<exists>json. says (app_user a) List_Servers json \<and> ap_servers a = map server_of (as_array json))) \<and>
    (ap_channels a = [] \<or> (\<exists>json. says (app_user a) (List_Channels (ap_selected_server a)) json \<and>
       ap_channels a = map channel_of (as_array json))) \<and>
    (app_logged_in a \<or> ap_profile a = None \<and> ap_servers a = [] \<and> ap_channels a = [] \<and> ap_users a = [] \<and> ap_link a = Link_Down)"
  using app_ok_run [OF assms] by (auto simp: app_ok_def lists_ok_def answered_def lists_empty_def)

section \<open>An example\<close>

definition bob_says :: "int \<Rightarrow> server_request \<Rightarrow> json \<Rightarrow> bool" where
  "bob_says u req json \<longleftrightarrow> u = 1 \<and> req = List_Channels 5 \<and> json = JArray [voice_json 7, voice_json 8]"

definition bob_waits :: app where
  "bob_waits = fold (app_step no_env (\<lambda>_. None))
     [App_Auth (A_Login ''bob''),
      App_Auth (A_Reply 0 True (JObject [(''access_token'', JString ''t''), (''user_id'', JInt 1)])),
      App_Select_Server 5]
     (new_app ''wss://chat'' ''https://api'' no_session ''default'' ''default'')"

lemma bob_looks_reply: "bob_looks = app_reply 2 True (JArray [voice_json 7, voice_json 8]) 0 bob_waits"
  by (simp add: bob_looks_def bob_waits_def)

lemma bob_waits_requests:
  "ap_requests bob_waits = [(Get_Me, Got_Profile 1), (List_Servers, Got_Servers 1), (List_Channels 5, Got_Channels 1 5)]"
  by (simp add: bob_waits_def app_eval Let_def)

lemma bob_run: "app_run no_env (\<lambda>_. None) bob_says bob_looks"
proof -
  have "app_run no_env (\<lambda>_. None) bob_says bob_waits"
    unfolding bob_waits_def by (simp only: fold.simps comp_def id_apply) (intro app_run.other app_run.start; simp)
  then show ?thesis
    unfolding bob_looks_reply by (rule app_run.reply) (simp add: bob_waits_requests bob_says_def)
qed

lemma shows_only_own_data_witness:
  "\<exists>json. bob_says (app_user bob_looks) (List_Channels (ap_selected_server bob_looks)) json \<and>
     map channel_of [voice_json 7, voice_json 8] = map channel_of (as_array json)"
  using shows_only_own_data [OF bob_run] by (simp add: bob_looks_fields(4))

section \<open>The queue of reports drains\<close>

text \<open>What is still to handle: the queue, and the end of a connection that was not reported yet.\<close>

definition pending_reports :: "bridge \<Rightarrow> nat" where
  "pending_reports b = length (br_queue b) + (if tr_ws_connected (br_transport b) then 1 else 0)"

lemma pending_same:
  "br_queue b' = br_queue b \<Longrightarrow> br_transport b' = br_transport b \<Longrightarrow> pending_reports b' = pending_reports b"
  by (simp add: pending_reports_def)

lemma pending_media [simp]: "pending_reports (call_media c b) = pending_reports b"
  by (rule pending_same) (simp_all add: call_media_def)

lemma pending_audio_stop [simp]: "pending_reports (audio_stop b) = pending_reports b"
  by (rule pending_same) (simp_all add: audio_stop_def)

lemma told_once: "length (to_bridge (drop (length (tr_told t)) (tr_told (announce_state up t)))) \<le> 1"
  by (simp add: announce_state_def tell_def tell_listeners_def to_bridge_append to_bridge_listeners Let_def)
    (simp add: to_bridge_def)

lemma pending_disconnect: "pending_reports (bridge_disconnect b) \<le> pending_reports b"
proof -
  define t where "t = br_transport b"
  define t1 where "t1 = clear_peers (t\<lparr>tr_ws_connected := False, tr_ws := None, tr_local_id := []\<rparr>)"
  define t3 where "t3 = update_state Closed (case tr_ws t of Some n \<Rightarrow> note_call (Ws_Close n) t1 | None \<Rightarrow> t1)"
  have t3: "transport_disconnect t = (if tr_ws_connected t then announce_state False t3 else t3)"
    unfolding transport_disconnect_def t1_def t3_def by (simp add: Let_def split: option.split)
  have "tr_told t3 = tr_told t" by (simp add: t3_def t1_def split: option.split)
  then have "length (to_bridge (drop (length (tr_told t)) (tr_told (transport_disconnect t)))) \<le> (if tr_ws_connected t then 1 else 0)"
    using told_once [of t3 False] by (simp add: t3 to_bridge_def)
  then show ?thesis by (simp add: pending_reports_def bridge_disconnect_def bridge_hear_def t_def Let_def)
qed

lemma pending_told: "pending_reports (ap_bridge (bridge_told s a)) \<le> pending_reports (ap_bridge a)"
  using pending_disconnect
  by (cases s) (simp_all add: ws_connected_def ws_disconnected_def on_bridge_def app_media_def reset_connection_stats_def
      app_add_peer_def app_remove_peer_def peer_identity_received_def send_request_def app_add_streaming_peer_def
      app_remove_streaming_peer_def stream_watch_rejected_def set_api_error_def Let_def)

lemma pending_dispatch:
  assumes "br_queue (ap_bridge a) \<noteq> []"
  shows "pending_reports (ap_bridge (dispatch_posted a)) < pending_reports (ap_bridge a)"
proof -
  obtain m queue where queue: "br_queue (ap_bridge a) = m # queue" using assms by (cases "br_queue (ap_bridge a)") auto
  define a1 where "a1 = on_bridge (\<lambda>b. b\<lparr>br_queue := queue\<rparr>) a"
  have "pending_reports (ap_bridge a1) < pending_reports (ap_bridge a)"
    by (simp add: a1_def on_bridge_def pending_reports_def queue)
  then show ?thesis
    using pending_told [of _ a1] order_le_less_trans by (simp add: dispatch_posted_def queue a1_def [symmetric] split: posted.split) blast
qed


section \<open>Statistics\<close>

lemma average_between:
  assumes "xs \<noteq> []"
  shows "Min (set xs) \<le> sum_list xs div int (length xs)" "sum_list xs div int (length xs) \<le> Max (set xs)"
proof -
  have n: "0 < int (length xs)" using assms by simp
  have "int (length xs) * Min (set xs) \<le> sum_list xs"
    using sum_list_mono [of xs "\<lambda>_. Min (set xs)" "\<lambda>x. x"] by (simp add: sum_list_triv)
  then show "Min (set xs) \<le> sum_list xs div int (length xs)" using n zdiv_mono1 [of "int (length xs) * Min (set xs)" "sum_list xs" "int (length xs)"] by simp
  have "sum_list xs \<le> int (length xs) * Max (set xs)"
    using sum_list_mono [of xs "\<lambda>x. x" "\<lambda>_. Max (set xs)"] by (simp add: sum_list_triv)
  then show "sum_list xs div int (length xs) \<le> Max (set xs)" using n zdiv_mono1 [of "sum_list xs" "int (length xs) * Max (set xs)" "int (length xs)"] by simp
qed

text \<open>
  After a poll the history holds at most 60 samples, and the average lies between the least and the greatest
  round-trip time that was measured; with none measured it is minus one.
\<close>

theorem rtt_average_bounds:
  "length (ap_rtt_history (poll_connection_stats now stats a)) \<le> 60 \<and>
   (let measured = filter (\<lambda>r. 0 \<le> r) (map snd (ap_rtt_history (poll_connection_stats now stats a))) in
    if measured = [] then ap_avg_rtt (poll_connection_stats now stats a) = -1
    else Min (set measured) \<le> ap_avg_rtt (poll_connection_stats now stats a) \<and>
         ap_avg_rtt (poll_connection_stats now stats a) \<le> Max (set measured))"
proof -
  define a' where "a' = poll_connection_stats now stats a"
  define measured where "measured = filter (\<lambda>r. 0 \<le> r) (map snd (ap_rtt_history a'))"
  have "length (ap_rtt_history a') \<le> 60" by (simp add: a'_def poll_connection_stats_def kMaxSamples_def Let_def)
  moreover have "ap_avg_rtt a' = (if measured \<noteq> [] then sum_list measured div int (length measured) else -1)"
    by (simp add: a'_def measured_def poll_connection_stats_def Let_def)
  ultimately show ?thesis
    using average_between [of measured] unfolding a'_def [symmetric] measured_def [symmetric] Let_def by simp
qed

end
