(* ===== verification/Install_Swap.thy ===== *)
theory Install_Swap
  imports Prelude
begin

text \<open>
  The swap of an update into the installation: \<^verbatim>\<open>client-qt/src/update/InstallSwap.cpp\<close>. A directory is a
  list of names and what they stand for, a symbolic link counting as a file. Whether an attempt to
  rename succeeds is the head of a list, and \<open>True\<close> when the list is used up; making a directory fails
  where a file is in its place. The three directories are apart from each other.
\<close>

section \<open>Moving\<close>

datatype node = Leaf string | Folder "(string \<times> node) list"

type_synonym directory = "(string \<times> node) list"

definition attempt :: "bool list \<Rightarrow> bool \<times> bool list" where
  "attempt tries = (case tries of [] \<Rightarrow> (True, []) | t # ts \<Rightarrow> (t, ts))"

definition rename_with_retry :: "bool list \<Rightarrow> bool \<times> bool list" where
  "rename_with_retry tries =
     (case attempt tries of
        (True, t1) \<Rightarrow> (True, t1)
      | (False, t1) \<Rightarrow>
          (case attempt t1 of
             (True, t2) \<Rightarrow> (True, t2)
           | (False, t2) \<Rightarrow> attempt t2))"

fun content :: "node option \<Rightarrow> directory" where
  "content (Some (Folder entries)) = entries"
| "content _ = []"

definition put :: "string \<Rightarrow> node option \<Rightarrow> directory \<Rightarrow> directory" where
  "put name n d = (case n of None \<Rightarrow> d | Some x \<Rightarrow> AList.update name x d)"

text \<open>Whether it worked, what is left at the source, what is at the target, and the attempts left.\<close>

fun move_entry :: "node \<Rightarrow> node option \<Rightarrow> bool list \<Rightarrow> bool \<times> node option \<times> node option \<times> bool list"
  and move_entries :: "directory \<Rightarrow> directory \<Rightarrow> bool list \<Rightarrow> bool \<times> directory \<times> directory \<times> bool list" where
  "move_entry (Leaf c) target tries =
     (if target \<noteq> None then (False, Some (Leaf c), target, tries)
      else (case rename_with_retry tries of
              (True, ts) \<Rightarrow> (True, None, Some (Leaf c), ts)
            | (False, ts) \<Rightarrow> (False, Some (Leaf c), None, ts)))"
| "move_entry (Folder entries) target tries =
     (case target of
        Some (Leaf c) \<Rightarrow> (False, Some (Folder entries), target, tries)
      | _ \<Rightarrow>
          (case move_entries entries (content target) tries of
             (ok, left, there, ts) \<Rightarrow> (ok, if ok then None else Some (Folder left), Some (Folder there), ts)))"
| "move_entries [] there tries = (True, [], there, tries)"
| "move_entries ((name, n) # rest) there tries =
     (case move_entry n (map_of there name) tries of
        (ok, left, target, ts) \<Rightarrow>
          if \<not> ok then (False, put name left rest, put name target there, ts)
          else move_entries rest (put name target there) ts)"

text \<open>Moving a name from one directory to the same name in another.\<close>

definition move_name :: "string \<Rightarrow> directory \<Rightarrow> directory \<Rightarrow> bool list \<Rightarrow> bool \<times> directory \<times> directory \<times> bool list" where
  "move_name name from_dir to_dir tries =
     (case map_of from_dir name of
        None \<Rightarrow> (False, from_dir, to_dir, tries)
      | Some n \<Rightarrow>
          (case move_entry n (map_of to_dir name) tries of
             (ok, left, target, ts) \<Rightarrow>
               (ok, (case left of None \<Rightarrow> AList.delete name from_dir | Some l \<Rightarrow> AList.update name l from_dir),
                put name target to_dir, ts)))"

section \<open>Applying a payload\<close>

record disk =
  dk_root :: directory
  dk_payload :: directory
  dk_backup :: directory
  dk_tries :: "bool list"

definition back_up :: "string \<Rightarrow> disk \<Rightarrow> bool \<times> disk" where
  "back_up name d =
     (case move_name name (dk_root d) (dk_backup d) (dk_tries d) of
        (ok, rt, backup, ts) \<Rightarrow> (ok, d\<lparr>dk_root := rt, dk_backup := backup, dk_tries := ts\<rparr>))"

definition restore :: "string \<Rightarrow> disk \<Rightarrow> disk" where
  "restore name d =
     (case move_name name (dk_backup d) (dk_root d) (dk_tries d) of
        (ok, backup, rt, ts) \<Rightarrow> d\<lparr>dk_root := rt, dk_backup := backup, dk_tries := ts\<rparr>)"

definition install :: "string \<Rightarrow> disk \<Rightarrow> bool \<times> disk" where
  "install name d =
     (case move_name name (dk_payload d) (dk_root d) (dk_tries d) of
        (ok, payload, rt, ts) \<Rightarrow> (ok, d\<lparr>dk_payload := payload, dk_root := rt, dk_tries := ts\<rparr>))"

definition uninstall :: "string \<Rightarrow> disk \<Rightarrow> disk" where
  "uninstall name d =
     (case move_name name (dk_root d) (dk_payload d) (dk_tries d) of
        (ok, rt, payload, ts) \<Rightarrow> d\<lparr>dk_payload := payload, dk_root := rt, dk_tries := ts\<rparr>)"

text \<open>The names that were backed up and installed, in order.\<close>

definition rollback :: "string list \<Rightarrow> string list \<Rightarrow> disk \<Rightarrow> disk" where
  "rollback backed_up installed d = fold restore (rev backed_up) (fold uninstall (rev installed) d)"

fun apply_names :: "string list \<Rightarrow> string list \<Rightarrow> string list \<Rightarrow> disk \<Rightarrow> bool \<times> disk" where
  "apply_names [] backed_up installed d = (True, d)"
| "apply_names (name # names) backed_up installed d =
     (let exists = map_of (dk_root d) name \<noteq> None;
          (saved, d1) = (if exists then back_up name d else (True, d)) in
      if \<not> saved then (False, rollback backed_up installed d1)
      else
        let backed_up1 = (if exists then backed_up @ [name] else backed_up);
            (placed, d2) = install name d1 in
        if \<not> placed then (False, rollback backed_up1 installed d2)
        else apply_names names backed_up1 (installed @ [name]) d2)"

text \<open>\<open>present\<close>: the payload is there; \<open>mkpath\<close>: the backup directory could be made.\<close>

definition apply_payload :: "bool \<Rightarrow> bool \<Rightarrow> disk \<Rightarrow> bool \<times> disk" where
  "apply_payload present mkpath d =
     (if \<not> present then (False, d)
      else if \<not> mkpath then (False, d)
      else apply_names (map fst (dk_payload d)) [] [] d)"

section \<open>Applying an image\<close>

text \<open>The files at the three paths.\<close>

record images =
  im_image :: "string option"
  im_downloaded :: "string option"
  im_backup :: "string option"

definition apply_image_file :: "bool \<Rightarrow> images \<Rightarrow> bool list \<Rightarrow> bool \<times> images" where
  "apply_image_file mkpath i tries =
     (if im_image i = None then (False, i)
      else if im_downloaded i = None then (False, i)
      else if \<not> mkpath then (False, i)
      else
        let i1 = i\<lparr>im_backup := None\<rparr>;
            (aside, t1) = rename_with_retry tries in
        if \<not> aside then (False, i1)
        else
          let i2 = i1\<lparr>im_backup := im_image i, im_image := None\<rparr>;
              (placed, t2) = rename_with_retry t1 in
          if \<not> placed
          then (False, if fst (rename_with_retry t2) then i2\<lparr>im_image := im_image i, im_backup := None\<rparr> else i2)
          else (True, i2\<lparr>im_image := im_downloaded i, im_downloaded := None\<rparr>))"

section \<open>A move that nothing stops\<close>

text \<open>Names are distinct in every directory.\<close>

fun wf_node :: "node \<Rightarrow> bool" and wf_directory :: "directory \<Rightarrow> bool" where
  "wf_node (Leaf c) \<longleftrightarrow> True"
| "wf_node (Folder entries) \<longleftrightarrow> distinct (map fst entries) \<and> wf_directory entries"
| "wf_directory [] \<longleftrightarrow> True"
| "wf_directory ((name, n) # rest) \<longleftrightarrow> wf_node n \<and> wf_directory rest"

lemma update_new: "name \<notin> fst ` set d \<Longrightarrow> AList.update name n d = d @ [(name, n)]"
  by (induction d) auto

lemma move_free:
  "wf_node n \<Longrightarrow> move_entry n None [] = (True, None, Some n, [])"
  "distinct (map fst d) \<Longrightarrow> wf_directory d \<Longrightarrow> fst ` set d \<inter> fst ` set there = {} \<Longrightarrow>
     move_entries d there [] = (True, [], there @ d, [])"
proof (induction n and d arbitrary: and there rule: wf_node_wf_directory.induct)
  case (4 name n rest)
  then have "name \<notin> fst ` set there" by auto
  then have "map_of there name = None" by (simp add: map_of_eq_None_iff)
  then show ?case using 4 by (simp add: put_def update_new)
qed (simp_all add: rename_with_retry_def attempt_def)

lemma wf_map_of: "wf_directory d \<Longrightarrow> map_of d name = Some n \<Longrightarrow> wf_node n"
  by (induction d) (auto split: if_splits)

lemma wf_delete: "wf_directory d \<Longrightarrow> wf_directory (AList.delete name d)"
  by (induction d) (auto simp: AList.delete_eq)

lemma wf_update: "wf_directory d \<Longrightarrow> wf_node n \<Longrightarrow> wf_directory (AList.update name n d)"
  by (induction d) auto

lemma move_name_free:
  "map_of from_dir name = Some n \<Longrightarrow> wf_directory from_dir \<Longrightarrow> map_of to_dir name = None \<Longrightarrow>
   move_name name from_dir to_dir [] = (True, AList.delete name from_dir, AList.update name n to_dir, [])"
  by (simp add: move_name_def move_free wf_map_of put_def)

lemma delete_first: "name \<notin> fst ` set d \<Longrightarrow> AList.delete name ((name, n) # d) = d"
  by (simp add: AList.delete_eq filter_id_conv) force

lemma apply_names_free:
  assumes "distinct (map fst (dk_payload d))" "wf_directory (dk_payload d)" "wf_directory (dk_root d)"
    "dk_tries d = []" "fst ` set (dk_payload d) \<inter> dom (map_of (dk_backup d)) = {}"
  shows "\<exists>d'. apply_names (map fst (dk_payload d)) saved placed d = (True, d') \<and> dk_payload d' = [] \<and>
    map_of (dk_root d') = map_of (dk_root d) ++ map_of (dk_payload d) \<and>
    map_of (dk_backup d') = map_of (dk_backup d) ++ (map_of (dk_root d) |` (fst ` set (dk_payload d)))"
  using assms
proof (induction "dk_payload d" arbitrary: d saved placed)
  case Nil
  then show ?case by (intro exI [of _ d]) (simp add: restrict_map_def flip: Nil(1))
next
  case (Cons entry rest)
  obtain name n where entry: "entry = (name, n)" by (cases entry)
  have payload: "dk_payload d = (name, n) # rest" using Cons.hyps(2) entry by simp
  have fresh: "name \<notin> fst ` set rest" "distinct (map fst rest)" "wf_node n" "wf_directory rest"
    "map_of (dk_backup d) name = None" "fst ` set rest \<inter> dom (map_of (dk_backup d)) = {}"
    using Cons.prems(1,2,5) by (auto simp: payload)
  define root1 where "root1 = AList.delete name (dk_root d)"
  define backup1 where
    "backup1 = (case map_of (dk_root d) name of None \<Rightarrow> dk_backup d | Some m \<Rightarrow> AList.update name m (dk_backup d))"
  define d2 where "d2 = d\<lparr>dk_root := AList.update name n root1, dk_backup := backup1, dk_payload := rest\<rparr>"
  have wf: "wf_directory root1" "map_of root1 name = None"
    using wf_delete [OF Cons.prems(3)] by (simp_all add: root1_def delete_conv')
  have root1: "root1 = dk_root d" if "map_of (dk_root d) name = None"
    using that by (auto simp: root1_def AList.delete_eq filter_id_conv map_of_eq_None_iff) (metis fst_conv image_eqI)
  have saved: "back_up name d = (True, d\<lparr>dk_root := root1, dk_backup := backup1\<rparr>)" if "map_of (dk_root d) name = Some m" for m
    using move_name_free [OF that Cons.prems(3) fresh(5)] Cons.prems(4) that
    by (simp add: back_up_def root1_def backup1_def)
  have placed: "install name (d\<lparr>dk_root := root1, dk_backup := backup1\<rparr>) = (True, d2)"
    using move_name_free [of "dk_payload d" name n root1] Cons.prems(2,4) wf fresh(1) delete_first [of name rest n]
    by (simp add: install_def payload d2_def)
  have step: "apply_names (map fst (dk_payload d)) saved placed d =
      apply_names (map fst rest) (if map_of (dk_root d) name \<noteq> None then saved @ [name] else saved) (placed @ [name]) d2"
  proof (cases "map_of (dk_root d) name")
    case None
    then have "d\<lparr>dk_root := root1, dk_backup := backup1\<rparr> = d" using root1 by (simp add: backup1_def)
    then show ?thesis using None placed by (simp add: payload)
  next
    case (Some m)
    then show ?thesis using saved [OF Some] placed by (simp add: payload Let_def)
  qed
  have "\<exists>d'. apply_names (map fst (dk_payload d2)) saved' placed' d2 = (True, d') \<and> dk_payload d' = [] \<and>
    map_of (dk_root d') = map_of (dk_root d2) ++ map_of (dk_payload d2) \<and>
    map_of (dk_backup d') = map_of (dk_backup d2) ++ (map_of (dk_root d2) |` (fst ` set (dk_payload d2)))" for saved' placed'
  proof (rule Cons.hyps(1))
    show "rest = dk_payload d2" "distinct (map fst (dk_payload d2))" "wf_directory (dk_payload d2)" "dk_tries d2 = []"
      using fresh Cons.prems(4) by (simp_all add: d2_def)
    show "wf_directory (dk_root d2)" using wf_update [OF wf(1) fresh(3)] by (simp add: d2_def)
    show "fst ` set (dk_payload d2) \<inter> dom (map_of (dk_backup d2)) = {}"
      using fresh(1,6) by (auto simp: d2_def backup1_def update_conv' split: option.splits if_splits)
  qed
  then obtain d' where d': "apply_names (map fst (dk_payload d)) saved placed d = (True, d')" "dk_payload d' = []"
      "map_of (dk_root d') = map_of (dk_root d2) ++ map_of rest"
      "map_of (dk_backup d') = map_of (dk_backup d2) ++ (map_of (dk_root d2) |` (fst ` set rest))"
    unfolding step by (force simp: d2_def)
  have "map_of (dk_root d2) ++ map_of rest = map_of (dk_root d) ++ map_of (dk_payload d)"
  proof
    fix k
    have "k = name \<Longrightarrow> map_of rest k = None" using fresh(1) by (simp add: map_of_eq_None_iff)
    then show "(map_of (dk_root d2) ++ map_of rest) k = (map_of (dk_root d) ++ map_of (dk_payload d)) k"
      by (auto simp: d2_def payload root1_def map_add_def update_conv' delete_conv' split: option.split)
  qed
  moreover have "map_of (dk_backup d2) ++ (map_of (dk_root d2) |` (fst ` set rest)) =
      map_of (dk_backup d) ++ (map_of (dk_root d) |` (fst ` set (dk_payload d)))"
  proof
    fix k
    show "(map_of (dk_backup d2) ++ (map_of (dk_root d2) |` (fst ` set rest))) k =
        (map_of (dk_backup d) ++ (map_of (dk_root d) |` (fst ` set (dk_payload d)))) k"
      using fresh(1)
      by (cases "k = name") (auto simp: d2_def payload root1_def backup1_def map_add_def restrict_map_def update_conv'
          delete_conv' split: option.split)
  qed
  ultimately show ?case using d' by (intro exI [of _ d']) simp
qed


definition two_versions :: disk where
  "two_versions =
     \<lparr>dk_root = [(''bin'', Folder [(''client'', Leaf ''old client''), (''lib'', Leaf ''old lib'')]), (''data'', Leaf ''mine'')],
      dk_payload = [(''bin'', Folder [(''client'', Leaf ''new client''), (''lib'', Leaf ''new lib'')])],
      dk_backup = [], dk_tries = []\<rparr>"


section \<open>What a rollback forgets\<close>

text \<open>
  The second file of a directory cannot be renamed: the first, already moved to the backup, stays there. Every
  rename after that would succeed, but the directory is neither among the names backed up nor among those
  installed, so the rollback does not touch it.
\<close>

theorem rollback_forgets_part:
  "apply_payload True True (two_versions\<lparr>dk_tries := [True, False, False, False]\<rparr>) =
     (False, two_versions
       \<lparr>dk_root := [(''bin'', Folder [(''lib'', Leaf ''old lib'')]), (''data'', Leaf ''mine'')],
        dk_backup := [(''bin'', Folder [(''client'', Leaf ''old client'')])]\<rparr>)"
  by (simp add: two_versions_def apply_payload_def back_up_def move_name_def rename_with_retry_def attempt_def put_def
      rollback_def)

end
