(* ===== verification/Update_Manifest.thy ===== *)
theory Update_Manifest
  imports Qt_Json
begin

text \<open>
  What the updater of the client trusts: \<^verbatim>\<open>client-qt/src/update/UpdateManifest.cpp\<close> (versions and the
  manifest) and \<^verbatim>\<open>client-qt/src/update/Minisign.cpp\<close> (detached signatures). Byte arrays and texts are lists
  of characters; the parser of JSON, base64, BLAKE2b and Ed25519 are parameters. A cast of a number that
  does not fit, which C++ leaves undefined, is a result of its own.
\<close>

section \<open>Texts\<close>

text \<open>\<^verbatim>\<open>split(c)\<close>: the empty text has one empty part.\<close>

fun split_on :: "char \<Rightarrow> string \<Rightarrow> string list" where
  "split_on c [] = [[]]"
| "split_on c (x # s) =
     (if x = c then [] # split_on c s
      else (case split_on c s of [] \<Rightarrow> [[x]] | part # parts \<Rightarrow> (x # part) # parts))"

lemma split_on_not_empty [simp]: "split_on c s \<noteq> []"
  by (induction s) (auto split: list.split)

lemma split_on_id: "c \<notin> set s \<Longrightarrow> split_on c s = [s]"
  by (induction s) auto

lemma split_on_append: "c \<notin> set s \<Longrightarrow> split_on c (s @ c # t) = s # split_on c t"
  by (induction s) auto

definition starts_with :: "string \<Rightarrow> string \<Rightarrow> bool" where
  "starts_with p s \<longleftrightarrow> take (length p) s = p"

definition ends_with :: "string \<Rightarrow> string \<Rightarrow> bool" where
  "ends_with p s \<longleftrightarrow> starts_with (rev p) (rev s)"

text \<open>The dollar sign of a pattern also matches before a newline that ends the text.\<close>

definition before_newline :: "string \<Rightarrow> string" where
  "before_newline s = (if s \<noteq> [] \<and> last s = CHR 0x0A then butlast s else s)"

section \<open>Versions\<close>

record version_triple =
  vn_major :: nat
  vn_minor :: nat
  vn_patch :: nat

definition no_version :: version_triple where
  "no_version = \<lparr>vn_major = 0, vn_minor = 0, vn_patch = 0\<rparr>"

definition version_number :: "string \<Rightarrow> nat option" where
  "version_number s =
     (if s = ''0'' \<or> s \<noteq> [] \<and> hd s \<noteq> CHR ''0'' \<and> list_all is_digit s \<and> length s \<le> 9
      then Some (digits_value s) else None)"

definition parse_version :: "string \<Rightarrow> version_triple option" where
  "parse_version text =
     (case split_on CHR ''.'' (before_newline text) of
        [a, b, c] \<Rightarrow>
          (case (version_number a, version_number b, version_number c) of
             (Some x, Some y, Some z) \<Rightarrow> Some \<lparr>vn_major = x, vn_minor = y, vn_patch = z\<rparr>
           | _ \<Rightarrow> None)
      | _ \<Rightarrow> None)"

definition version_text :: "version_triple \<Rightarrow> string" where
  "version_text v = to_string (vn_major v) @ ''.'' @ to_string (vn_minor v) @ ''.'' @ to_string (vn_patch v)"

definition newer :: "version_triple \<Rightarrow> version_triple \<Rightarrow> bool" where
  "newer v w \<longleftrightarrow>
     vn_major w < vn_major v \<or>
     vn_major w = vn_major v \<and>
       (vn_minor w < vn_minor v \<or> vn_minor w = vn_minor v \<and> vn_patch w < vn_patch v)"

section \<open>The manifest\<close>

record file_entry =
  fe_name :: string
  fe_sha256 :: string
  fe_size :: int
  fe_url :: string

record manifest =
  mf_version :: version_triple
  mf_channel :: string
  mf_target :: string
  mf_file :: file_entry

datatype manifest_error =
    Not_An_Object | Unsupported_Schema | Other_Project | Channel_Mismatch | Target_Mismatch | Bad_Version
  | Bad_Sha256 | Bad_Size | Bad_Url | No_Archive

datatype manifest_result = Accepted manifest | Refused manifest_error | Undefined_Cast

definition kMaxArchiveBytes :: int where
  "kMaxArchiveBytes = 2 ^ 30"

definition is_relative_url :: "string \<Rightarrow> bool" where
  "is_relative_url url \<longleftrightarrow>
     url \<noteq> [] \<and> hd url \<noteq> CHR ''/'' \<and> CHR 0x5C \<notin> set url \<and> CHR '':'' \<notin> set url \<and>
     list_all (\<lambda>segment. segment \<noteq> [] \<and> segment \<noteq> ''..'') (split_on CHR ''/'' url)"

definition is_sha256 :: "string \<Rightarrow> bool" where
  "is_sha256 s \<longleftrightarrow>
     (let t = before_newline s in
      length t = 64 \<and> list_all (\<lambda>c. is_digit c \<or> 97 \<le> (of_char c :: nat) \<and> (of_char c :: nat) \<le> 102) t)"

definition to_qint64 :: "real \<Rightarrow> int option" where
  "to_qint64 r =
     (let n = (if 0 \<le> r then \<lfloor>r\<rfloor> else \<lceil>r\<rceil>) in if - (2 ^ 63) \<le> n \<and> n < 2 ^ 63 then Some n else None)"

fun find_archive :: "string \<Rightarrow> (file_entry \<Rightarrow> manifest) \<Rightarrow> json list \<Rightarrow> manifest_result" where
  "find_archive suffix with_file [] = Refused No_Archive"
| "find_archive suffix with_file (v # vs) =
     (case to_qint64 (qt_double (json_find v ''size'')) of
        None \<Rightarrow> Undefined_Cast
      | Some bytes \<Rightarrow>
          let file = \<lparr>fe_name = qt_string (json_find v ''name''), fe_sha256 = qt_string (json_find v ''sha256''),
                      fe_size = bytes, fe_url = qt_string (json_find v ''url'')\<rparr> in
          if \<not> ends_with suffix (fe_name file) then find_archive suffix with_file vs
          else if \<not> is_sha256 (fe_sha256 file) then Refused Bad_Sha256
          else if fe_size file \<le> 0 \<or> kMaxArchiveBytes < fe_size file then Refused Bad_Size
          else if \<not> is_relative_url (fe_url file) then Refused Bad_Url
          else Accepted (with_file file))"

definition parse_update_manifest ::
  "(string \<Rightarrow> json option) \<Rightarrow> string \<Rightarrow> string \<Rightarrow> string \<Rightarrow> string \<Rightarrow> manifest_result" where
  "parse_update_manifest parse_text bytes expected_channel expected_target suffix =
     (case parse_text bytes of
        None \<Rightarrow> Refused Not_An_Object
      | Some v \<Rightarrow>
          if \<not> is_object v then Refused Not_An_Object
          else if qt_int (json_find v ''schema'') 0 \<noteq> 1 then Refused Unsupported_Schema
          else if qt_string (json_find v ''project'') \<noteq> ''driscord'' then Refused Other_Project
          else if qt_string (json_find v ''channel'') \<noteq> expected_channel then Refused Channel_Mismatch
          else if qt_string (json_find v ''target'') \<noteq> expected_target then Refused Target_Mismatch
          else
            (case parse_version (qt_string (json_find v ''version'')) of
               None \<Rightarrow> Refused Bad_Version
             | Some version \<Rightarrow>
                 find_archive suffix
                   (\<lambda>file. \<lparr>mf_version = version, mf_channel = qt_string (json_find v ''channel''),
                     mf_target = qt_string (json_find v ''target''), mf_file = file\<rparr>)
                   (qt_array (json_find v ''files''))))"

section \<open>Signatures\<close>

text \<open>The libraries: strict base64, BLAKE2b-512 and Ed25519 (message, signature, key).\<close>

record crypto =
  cr_base64 :: "string \<Rightarrow> string option"
  cr_blake2b :: "string \<Rightarrow> string"
  cr_ed25519 :: "string \<Rightarrow> string \<Rightarrow> string \<Rightarrow> bool"
  cr_sha256 :: "string \<Rightarrow> string"

record public_key =
  pk_id :: string
  pk_key :: string

definition kKeyIdBytes :: nat where "kKeyIdBytes = 8"
definition kPublicKeyBytes :: nat where "kPublicKeyBytes = 32"
definition kSignatureBytes :: nat where "kSignatureBytes = 64"
definition kSignatureAlgorithm :: string where "kSignatureAlgorithm = ''ED''"
definition kKeyAlgorithm :: string where "kKeyAlgorithm = ''Ed''"
definition kTrustedCommentPrefix :: string where "kTrustedCommentPrefix = ''trusted comment: ''"

definition decode_base64_strict :: "crypto \<Rightarrow> string \<Rightarrow> string" where
  "decode_base64_strict cr line = (case cr_base64 cr line of None \<Rightarrow> [] | Some raw \<Rightarrow> raw)"

text \<open>The one line that is neither empty nor a comment; \<open>None\<close> if there are two.\<close>

fun key_line :: "string \<Rightarrow> string list \<Rightarrow> string option" where
  "key_line found [] = Some found"
| "key_line found (line # lines) =
     (let t = trimmed line in
      if t = [] \<or> starts_with ''untrusted comment:'' t then key_line found lines
      else if found \<noteq> [] then None
      else key_line t lines)"

definition parse_public_key :: "crypto \<Rightarrow> string \<Rightarrow> public_key option" where
  "parse_public_key cr text =
     (case key_line [] (split_on CHR 0x0A text) of
        None \<Rightarrow> None
      | Some line \<Rightarrow>
          let raw = decode_base64_strict cr line in
          if length raw \<noteq> 2 + kKeyIdBytes + kPublicKeyBytes \<or> \<not> starts_with kKeyAlgorithm raw then None
          else Some \<lparr>pk_id = take kKeyIdBytes (drop 2 raw), pk_key = drop (2 + kKeyIdBytes) raw\<rparr>)"

datatype verify_error =
    Malformed_Signature | Unsupported_Algorithm | Untrusted_Key | Malformed_Global_Signature
  | Comment_Fails | Content_Fails

datatype verdict = Verified string | Rejected verify_error

definition signature_lines :: "string \<Rightarrow> string list" where
  "signature_lines text = rev (dropWhile (\<lambda>line. line = []) (rev (split_on CHR 0x0A text)))"

definition trusted_key :: "string \<Rightarrow> public_key list \<Rightarrow> public_key option" where
  "trusted_key key_id ring = List.find (\<lambda>k. pk_id k = key_id \<and> length (pk_key k) = kPublicKeyBytes) ring"

definition verify_detached :: "crypto \<Rightarrow> string \<Rightarrow> string \<Rightarrow> public_key list \<Rightarrow> verdict" where
  "verify_detached cr content signature_text ring =
     (case signature_lines signature_text of
        [l0, l1, l2, l3] \<Rightarrow>
          if \<not> starts_with kTrustedCommentPrefix l2 then Rejected Malformed_Signature
          else
            let raw = decode_base64_strict cr l1 in
            if length raw \<noteq> 2 + kKeyIdBytes + kSignatureBytes \<or> \<not> starts_with kSignatureAlgorithm raw
            then Rejected Unsupported_Algorithm
            else
              let signature = drop (2 + kKeyIdBytes) raw in
              (case trusted_key (take kKeyIdBytes (drop 2 raw)) ring of
                 None \<Rightarrow> Rejected Untrusted_Key
               | Some key \<Rightarrow>
                   let global = decode_base64_strict cr l3;
                       comment = drop (length kTrustedCommentPrefix) l2 in
                   if length global \<noteq> kSignatureBytes then Rejected Malformed_Global_Signature
                   else if \<not> cr_ed25519 cr (signature @ comment) global (pk_key key) then Rejected Comment_Fails
                   else if \<not> cr_ed25519 cr (cr_blake2b cr content) signature (pk_key key) then Rejected Content_Fails
                   else Verified comment)
      | _ \<Rightarrow> Rejected Malformed_Signature)"

section \<open>What is accepted\<close>

lemma length_to_string_le: "n < 10 ^ Suc k \<Longrightarrow> length (to_string n) \<le> Suc k"
proof (induction k arbitrary: n)
  case 0
  then show ?case by (subst to_string.simps) simp
next
  case (Suc k)
  have "n div 10 < 10 ^ Suc k" using Suc.prems by (simp add: less_mult_imp_div_less mult.commute)
  then show ?case using Suc.IH [of "n div 10"] by (subst to_string.simps) simp
qed

lemma hd_to_string: "0 < n \<Longrightarrow> hd (to_string n) \<noteq> CHR ''0''"
proof (induction n rule: to_string.induct)
  case (1 n)
  show ?case
  proof (cases "n < 10")
    case True
    then have "of_char (digit_char n) = 48 + n" using is_digit_digit_char by blast
    then have "digit_char n \<noteq> CHR ''0''" using 1(2) by auto
    then show ?thesis using True by (subst to_string.simps) simp
  next
    case False
    then show ?thesis using 1 by (subst to_string.simps) (simp add: hd_append)
  qed
qed

lemma version_number_to_string: "n < 10 ^ 9 \<Longrightarrow> version_number (to_string n) = Some n"
proof -
  assume n: "n < 10 ^ 9"
  have "to_string 0 = ''0''" by code_simp
  moreover have "length (to_string n) \<le> 9" using length_to_string_le [of n 8] n by simp
  ultimately show ?thesis
    using hd_to_string [of n] to_string_digits [of n] digits_value_to_string [of 0]
    by (cases "n = 0") (auto simp: version_number_def digits_value_to_string list_all_iff)
qed

lemma is_space_newline: "is_space CHR 0x0A"
  by (simp add: is_space_def)

text \<open>A version that is written is read back, with each of its numbers below a thousand million.\<close>

theorem version_round_trip:
  assumes "vn_major v < 10 ^ 9" "vn_minor v < 10 ^ 9" "vn_patch v < 10 ^ 9"
  shows "parse_version (version_text v) = Some v"
proof -
  have dot: "CHR ''.'' \<notin> set (to_string n)" for n
    using to_string_digits [of n] by (auto simp: is_digit_def)
  have "is_digit (last (to_string n))" for n using to_string_digits [of n] last_in_set [of "to_string n"] by simp
  then have last: "last (to_string n) \<noteq> CHR 0x0A" for n by (metis digit_no_sign is_space_newline)
  have "before_newline (version_text v) = version_text v"
    using last [of "vn_patch v"] by (simp add: before_newline_def version_text_def)
  then have "split_on CHR ''.'' (before_newline (version_text v)) = [to_string (vn_major v), to_string (vn_minor v), to_string (vn_patch v)]"
    using dot by (simp add: version_text_def split_on_append split_on_id)
  then show ?thesis using assms by (simp add: parse_version_def version_number_to_string)
qed

lemma newer_iff: "newer v w \<longleftrightarrow>
    (vn_major v, vn_minor v, vn_patch v) \<noteq> (vn_major w, vn_minor w, vn_patch w) \<and> \<not> newer w v"
  by (auto simp: newer_def)

lemma find_archive_Accepted:
  assumes "find_archive suffix with_file vs = Accepted m"
  shows "\<exists>file. m = with_file file \<and> ends_with suffix (fe_name file) \<and> is_sha256 (fe_sha256 file) \<and>
    0 < fe_size file \<and> fe_size file \<le> kMaxArchiveBytes \<and> is_relative_url (fe_url file)"
  using assms
proof (induction vs)
  case (Cons v vs)
  then show ?case
    by (auto simp: Let_def not_le not_less split: option.splits if_splits)
qed simp


lemma version_round_trip_witness:
  "parse_version (version_text \<lparr>vn_major = 1, vn_minor = 20, vn_patch = 0\<rparr>) = Some \<lparr>vn_major = 1, vn_minor = 20, vn_patch = 0\<rparr>"
  by (rule version_round_trip) simp_all

text \<open>A verified text was signed, and its signature with the comment was, with a key of the list.\<close>

lemma verified_signed:
  assumes "verify_detached cr content signature_text ring = Verified comment"
  shows "\<exists>key\<in>set ring. \<exists>signature global. length (pk_key key) = kPublicKeyBytes \<and> length signature = kSignatureBytes \<and>
    cr_ed25519 cr (cr_blake2b cr content) signature (pk_key key) \<and>
    cr_ed25519 cr (signature @ comment) global (pk_key key)"
proof -
  obtain l0 l1 l2 l3 where lines: "signature_lines signature_text = [l0, l1, l2, l3]"
    using assms by (auto simp: verify_detached_def split: list.splits)
  define raw where "raw = decode_base64_strict cr l1"
  define signature where "signature = drop (2 + kKeyIdBytes) raw"
  obtain key where key: "trusted_key (take kKeyIdBytes (drop 2 raw)) ring = Some key"
    and ok: "length raw = 2 + kKeyIdBytes + kSignatureBytes" "cr_ed25519 cr (signature @ comment) (decode_base64_strict cr l3) (pk_key key)"
      "cr_ed25519 cr (cr_blake2b cr content) signature (pk_key key)"
    using assms unfolding signature_def raw_def
    by (auto simp: verify_detached_def lines Let_def split: if_splits option.splits)
  have "key \<in> set ring" "length (pk_key key) = kPublicKeyBytes"
    using key by (auto simp: trusted_key_def find_Some_iff)
  moreover have "length signature = kSignatureBytes" using ok(1) by (simp add: signature_def)
  ultimately show ?thesis using ok(2,3) by blast
qed

end
