(* ===== verification/Update_Manager.thy ===== *)
theory Update_Manager
  imports Update_Manifest
begin

text \<open>
  \<^verbatim>\<open>UpdateManager\<close> of \<^verbatim>\<open>client-qt/src/update/UpdateManager.cpp\<close>: it checks for a signed manifest, downloads
  the archive it names, verifies and extracts it, and swaps it into the installation. Replies under way,
  and archives being extracted, are lists; what the network, the disk and the swap answer comes with an
  event. A file is its content; the payload is known by the archive it was made from.
\<close>

section \<open>State\<close>

datatype updater_state =
    Disabled | Idle | Checking | Up_To_Date | Update_Available | Downloading | Verifying | Extracting
  | Ready_To_Apply | Applying | Update_Error

datatype update_error =
    No_Error | Check_Failed | Oversized | Signature_Rejected verify_error | Manifest_Rejected manifest_error
  | Leaves_Origin | No_Directory | No_Space | Cannot_Write | Download_Failed | Size_Mismatch | Sha256_Mismatch
  | Cannot_Finalize | Cannot_Reopen | Not_An_AppImage | No_Tar | Extraction_Failed | Not_A_Package
  | Apply_Failed | Restart_Failed

datatype apply_hint = No_Hint | Not_Writable | Not_Self_Updating

datatype layout_kind = Layout_None | Windows_Flat | App_Image | Mac_Bundle

record update_config =
  uc_has_base_url :: bool
  uc_channel :: string
  uc_manifest_target :: string
  uc_archive_suffix :: string
  uc_single_file_artifact :: bool
  uc_current_version_core :: string
  uc_trusted_keys :: "public_key list"
  uc_allow_automatic_checks :: bool
  uc_layout_kind :: layout_kind
  uc_portable :: bool

datatype small_request = Get_Manifest | Get_Signature string

record manager =
  um_state :: updater_state
  um_error :: update_error
  um_latest_version :: string
  um_download_progress :: real
  um_can_apply :: bool
  um_apply_hint :: apply_hint
  um_notice_visible :: bool
  um_dismissed :: string
  um_generation :: nat
  um_active :: "nat option"
  um_small :: "(nat \<times> small_request) list"
  um_artifacts :: "nat list"
  um_manifest :: "manifest option"
  um_part :: string
  um_hashed :: string
  um_downloaded :: int
  um_extracting :: "string list"
  um_payload :: "string option"
  um_installed :: "string list"
  um_quit :: bool

definition new_manager :: "update_config \<Rightarrow> string \<Rightarrow> manager" where
  "new_manager cfg dismissed =
     \<lparr>um_state = (if \<not> uc_has_base_url cfg \<or> uc_trusted_keys cfg = [] then Disabled else Idle),
      um_error = No_Error, um_latest_version = [], um_download_progress = 0, um_can_apply = False,
      um_apply_hint = No_Hint, um_notice_visible = False, um_dismissed = dismissed, um_generation = 0,
      um_active = None, um_small = [], um_artifacts = [], um_manifest = None, um_part = [], um_hashed = [],
      um_downloaded = 0, um_extracting = [], um_payload = None, um_installed = [], um_quit = False\<rparr>"

definition current_version :: "update_config \<Rightarrow> version_triple" where
  "current_version cfg =
     (case parse_version (uc_current_version_core cfg) of None \<Rightarrow> no_version | Some v \<Rightarrow> v)"

definition kMaxManifestBytes :: nat where "kMaxManifestBytes = 64 * 1024"
definition kMaxSignatureBytes :: nat where "kMaxSignatureBytes = 4 * 1024"

definition update_fail :: "update_error \<Rightarrow> manager \<Rightarrow> manager" where
  "update_fail err m = m\<lparr>um_error := err, um_state := Update_Error\<rparr>"

section \<open>Checking\<close>

definition fetch_small :: "small_request \<Rightarrow> manager \<Rightarrow> manager" where
  "fetch_small req m = m\<lparr>um_small := um_small m @ [(um_generation m, req)], um_active := Some (um_generation m)\<rparr>"

definition check_for_updates :: "manager \<Rightarrow> manager" where
  "check_for_updates m =
     (if um_state m \<in> {Disabled, Checking, Downloading, Verifying, Extracting, Applying} then m
      else fetch_small Get_Manifest
             (m\<lparr>um_generation := Suc (um_generation m), um_error := No_Error, um_manifest := None,
                um_latest_version := [], um_payload := None, um_can_apply := False, um_apply_hint := No_Hint,
                um_state := Checking\<rparr>))"

definition on_manifest_verified :: "update_config \<Rightarrow> (string \<Rightarrow> json option) \<Rightarrow> string \<Rightarrow> manager \<Rightarrow> manager" where
  "on_manifest_verified cfg parse_text bytes m =
     (case parse_update_manifest parse_text bytes (uc_channel cfg) (uc_manifest_target cfg) (uc_archive_suffix cfg) of
        Refused err \<Rightarrow> update_fail (Manifest_Rejected err) m
      | Undefined_Cast \<Rightarrow> update_fail (Manifest_Rejected Bad_Size) m
      | Accepted mf \<Rightarrow>
          let m1 = m\<lparr>um_manifest := Some mf, um_latest_version := version_text (mf_version mf)\<rparr> in
          if \<not> newer (mf_version mf) (current_version cfg) then m1\<lparr>um_state := Up_To_Date\<rparr>
          else m1\<lparr>um_notice_visible := (um_latest_version m1 \<noteq> um_dismissed m), um_state := Update_Available\<rparr>)"

text \<open>A reply to a small request: \<open>ok\<close> if it has no error and status 200.\<close>

definition small_finished ::
  "update_config \<Rightarrow> crypto \<Rightarrow> (string \<Rightarrow> json option) \<Rightarrow> nat \<Rightarrow> bool \<Rightarrow> string \<Rightarrow> manager \<Rightarrow> manager" where
  "small_finished cfg cr parse_text i ok body m =
     (if length (um_small m) \<le> i then m
      else
        (case um_small m ! i of
           (generation, req) \<Rightarrow>
             let m1 = m\<lparr>um_small := remove_at i (um_small m)\<rparr> in
             if generation \<noteq> um_generation m then m1
             else
               let m2 = m1\<lparr>um_active := None\<rparr> in
               if \<not> ok then update_fail Check_Failed m2
               else
                 (case req of
                    Get_Manifest \<Rightarrow>
                      if kMaxManifestBytes < length body then update_fail Oversized m2
                      else fetch_small (Get_Signature body) m2
                  | Get_Signature manifest_bytes \<Rightarrow>
                      if kMaxSignatureBytes < length body then update_fail Oversized m2
                      else
                        (case verify_detached cr manifest_bytes body (uc_trusted_keys cfg) of
                           Rejected err \<Rightarrow> update_fail (Signature_Rejected err) m2
                         | Verified _ \<Rightarrow> on_manifest_verified cfg parse_text manifest_bytes m2))))"

section \<open>Downloading\<close>

text \<open>Whether the artifact's URL stays at the origin, and what the disk allows.\<close>

record download_answers =
  da_same_origin :: bool
  da_mkpath :: bool
  da_available :: "int option"
  da_open :: bool

definition begin_download :: "manager \<Rightarrow> manager" where
  "begin_download m =
     m\<lparr>um_generation := Suc (um_generation m), um_artifacts := um_artifacts m @ [Suc (um_generation m)],
       um_active := Some (Suc (um_generation m))\<rparr>"

definition download_update :: "download_answers \<Rightarrow> manager \<Rightarrow> manager" where
  "download_update a m =
     (case um_manifest m of
        None \<Rightarrow> m
      | Some mf \<Rightarrow>
          if um_state m \<noteq> Update_Available then m
          else if \<not> da_same_origin a then update_fail Leaves_Origin m
          else if \<not> da_mkpath a then update_fail No_Directory m
          else if (case da_available a of None \<Rightarrow> False | Some n \<Rightarrow> n < 2 * fe_size (mf_file mf)) then update_fail No_Space m
          else if \<not> da_open a then update_fail Cannot_Write m
          else begin_download (m\<lparr>um_part := [], um_hashed := [], um_downloaded := 0, um_download_progress := 0,
                                 um_state := Downloading\<rparr>))"

definition is_app_image :: "string \<Rightarrow> bool" where
  "is_app_image content \<longleftrightarrow>
     (let header = take 11 content in
      starts_with [CHR 0x7F, CHR ''E'', CHR ''L'', CHR ''F''] header \<and>
      take 3 (drop 8 header) = [CHR ''A'', CHR ''I'', CHR 0x02])"

text \<open>What the disk does with the finished file; \<open>writable\<close>: the root of the installation is.\<close>

record finish_answers =
  fa_rename :: bool
  fa_reopen :: bool
  fa_tar :: bool
  fa_mkpath :: bool
  fa_writable :: bool

definition staging_inside_root :: "update_config \<Rightarrow> bool \<Rightarrow> bool" where
  "staging_inside_root cfg writable \<longleftrightarrow> uc_portable cfg \<and> writable"

definition ready_to_apply :: "string \<Rightarrow> bool \<Rightarrow> apply_hint \<Rightarrow> manager \<Rightarrow> manager" where
  "ready_to_apply content can hint m =
     m\<lparr>um_payload := Some content, um_can_apply := can, um_apply_hint := (if can then No_Hint else hint),
       um_state := Ready_To_Apply\<rparr>"

definition on_image_downloaded :: "update_config \<Rightarrow> finish_answers \<Rightarrow> string \<Rightarrow> manager \<Rightarrow> manager" where
  "on_image_downloaded cfg a content m =
     (if \<not> fa_reopen a then update_fail Cannot_Reopen m
      else if \<not> is_app_image content then update_fail Not_An_AppImage m
      else ready_to_apply content (uc_layout_kind cfg = App_Image \<and> staging_inside_root cfg (fa_writable a))
             (if uc_layout_kind cfg = App_Image then Not_Writable else Not_Self_Updating) m)"

definition begin_extraction :: "finish_answers \<Rightarrow> string \<Rightarrow> manager \<Rightarrow> manager" where
  "begin_extraction a content m =
     (if \<not> fa_tar a then update_fail No_Tar m
      else if \<not> fa_mkpath a then update_fail No_Directory m
      else m\<lparr>um_state := Extracting, um_extracting := um_extracting m @ [content]\<rparr>)"

definition to_hex :: "string \<Rightarrow> string" where
  "to_hex bytes = concat (map (\<lambda>c. [''0123456789abcdef'' ! (of_char c div 16), ''0123456789abcdef'' ! (of_char c mod 16)]) bytes)"

definition on_download_finished ::
  "update_config \<Rightarrow> crypto \<Rightarrow> bool \<Rightarrow> finish_answers \<Rightarrow> manager \<Rightarrow> manager" where
  "on_download_finished cfg cr ok a m =
     (case um_manifest m of
        None \<Rightarrow> m
      | Some mf \<Rightarrow>
          if \<not> ok then update_fail Download_Failed m
          else
            let m1 = m\<lparr>um_state := Verifying\<rparr> in
            if um_downloaded m1 \<noteq> fe_size (mf_file mf) then update_fail Size_Mismatch m1
            else if to_hex (cr_sha256 cr (um_hashed m1)) \<noteq> fe_sha256 (mf_file mf) then update_fail Sha256_Mismatch m1
            else if \<not> fa_rename a then update_fail Cannot_Finalize m1
            else if uc_single_file_artifact cfg then on_image_downloaded cfg a (um_part m1) m1
            else begin_extraction a (um_part m1) m1)"

text \<open>The reply of that generation ends; an aborted one ends at once, with an error.\<close>

definition artifact_finished ::
  "update_config \<Rightarrow> crypto \<Rightarrow> nat \<Rightarrow> bool \<Rightarrow> finish_answers \<Rightarrow> manager \<Rightarrow> manager" where
  "artifact_finished cfg cr generation ok a m =
     (if generation \<notin> set (um_artifacts m) then m
      else
        let m1 = m\<lparr>um_artifacts := set_erase generation (um_artifacts m)\<rparr> in
        if generation \<noteq> um_generation m then m1
        else on_download_finished cfg cr ok a (m1\<lparr>um_active := None\<rparr>))"

definition artifact_chunk ::
  "update_config \<Rightarrow> crypto \<Rightarrow> nat \<Rightarrow> string \<Rightarrow> bool \<Rightarrow> finish_answers \<Rightarrow> manager \<Rightarrow> manager" where
  "artifact_chunk cfg cr generation chunk written a m =
     (if generation \<notin> set (um_artifacts m) \<or> generation \<noteq> um_generation m then m
      else
        (case um_manifest m of
           None \<Rightarrow> m
         | Some mf \<Rightarrow>
             let m1 = m\<lparr>um_hashed := um_hashed m @ chunk, um_downloaded := um_downloaded m + int (length chunk)\<rparr> in
             if fe_size (mf_file mf) < um_downloaded m1 then artifact_finished cfg cr generation False a m1
             else if \<not> written then artifact_finished cfg cr generation False a m1
             else
               let m2 = m1\<lparr>um_part := um_part m1 @ chunk\<rparr>;
                   progress = real_of_int (um_downloaded m2) / real_of_int (fe_size (mf_file mf)) in
               if 1 / 100 \<le> progress - um_download_progress m2 then m2\<lparr>um_download_progress := progress\<rparr> else m2))"

text \<open>Nothing arrived for a while.\<close>

definition watchdog :: "update_config \<Rightarrow> crypto \<Rightarrow> finish_answers \<Rightarrow> manager \<Rightarrow> manager" where
  "watchdog cfg cr a m =
     (case um_active m of
        None \<Rightarrow> m
      | Some generation \<Rightarrow> if um_state m \<noteq> Downloading then m else artifact_finished cfg cr generation False a m)"

section \<open>Extracting and applying\<close>

text \<open>The \<open>i\<close>th extraction ends: \<open>ok\<close> if tar ran to its end with no error; \<open>client\<close>: the archive has the program.\<close>

definition extraction_finished :: "update_config \<Rightarrow> nat \<Rightarrow> bool \<Rightarrow> bool \<Rightarrow> bool \<Rightarrow> manager \<Rightarrow> manager" where
  "extraction_finished cfg i ok client writable m =
     (if length (um_extracting m) \<le> i then m
      else
        let content = um_extracting m ! i;
            m1 = m\<lparr>um_extracting := remove_at i (um_extracting m)\<rparr> in
        if \<not> ok then update_fail Extraction_Failed m1
        else if \<not> client then update_fail Not_A_Package m1
        else ready_to_apply content (staging_inside_root cfg writable)
               (if uc_portable cfg then Not_Writable else Not_Self_Updating) m1)"

definition apply_and_restart :: "bool \<Rightarrow> bool \<Rightarrow> manager \<Rightarrow> manager" where
  "apply_and_restart swapped restarted m =
     (case um_payload m of
        None \<Rightarrow> m
      | Some content \<Rightarrow>
          if um_state m \<noteq> Ready_To_Apply \<or> \<not> um_can_apply m then m
          else
            let m1 = m\<lparr>um_state := Applying\<rparr> in
            if \<not> swapped then update_fail Apply_Failed m1
            else
              let m2 = m1\<lparr>um_installed := um_installed m1 @ [content]\<rparr> in
              if \<not> restarted then update_fail Restart_Failed m2 else m2\<lparr>um_quit := True\<rparr>)"

definition dismiss_notice :: "manager \<Rightarrow> manager" where
  "dismiss_notice m =
     (let m1 = (if um_latest_version m \<noteq> [] then m\<lparr>um_dismissed := um_latest_version m\<rparr> else m) in
      m1\<lparr>um_notice_visible := False\<rparr>)"

definition periodic_check :: "manager \<Rightarrow> manager" where
  "periodic_check m = (if um_state m \<in> {Idle, Up_To_Date, Update_Error} then check_for_updates m else m)"

definition startup_check :: "update_config \<Rightarrow> manager \<Rightarrow> manager" where
  "startup_check cfg m =
     (if uc_allow_automatic_checks cfg \<and> um_state m = Idle then check_for_updates m else m)"

section \<open>Runs\<close>

datatype update_event =
    U_Check | U_Periodic | U_Startup | U_Dismiss
  | U_Small nat bool string
  | U_Download download_answers
  | U_Chunk nat string bool finish_answers
  | U_Artifact nat bool finish_answers
  | U_Watchdog finish_answers
  | U_Extracted nat bool bool bool
  | U_Apply bool bool

fun update_step :: "update_config \<Rightarrow> crypto \<Rightarrow> (string \<Rightarrow> json option) \<Rightarrow> update_event \<Rightarrow> manager \<Rightarrow> manager" where
  "update_step cfg cr parse_text U_Check m = check_for_updates m"
| "update_step cfg cr parse_text U_Periodic m = periodic_check m"
| "update_step cfg cr parse_text U_Startup m = startup_check cfg m"
| "update_step cfg cr parse_text U_Dismiss m = dismiss_notice m"
| "update_step cfg cr parse_text (U_Small i ok body) m = small_finished cfg cr parse_text i ok body m"
| "update_step cfg cr parse_text (U_Download a) m = download_update a m"
| "update_step cfg cr parse_text (U_Chunk g chunk written a) m = artifact_chunk cfg cr g chunk written a m"
| "update_step cfg cr parse_text (U_Artifact g ok a) m = artifact_finished cfg cr g ok a m"
| "update_step cfg cr parse_text (U_Watchdog a) m = watchdog cfg cr a m"
| "update_step cfg cr parse_text (U_Extracted i ok client writable) m = extraction_finished cfg i ok client writable m"
| "update_step cfg cr parse_text (U_Apply swapped restarted) m = apply_and_restart swapped restarted m"

section \<open>Trust\<close>

text \<open>
  Bytes that may be installed: a manifest for this program, channel and target that a trusted key signed
  names them, by size and hash, as a version newer than this one.
\<close>

definition signed_manifest :: "update_config \<Rightarrow> crypto \<Rightarrow> (string \<Rightarrow> json option) \<Rightarrow> manifest \<Rightarrow> bool" where
  "signed_manifest cfg cr parse_text mf \<longleftrightarrow>
     (\<exists>bytes signature comment.
        verify_detached cr bytes signature (uc_trusted_keys cfg) = Verified comment \<and>
        parse_update_manifest parse_text bytes (uc_channel cfg) (uc_manifest_target cfg) (uc_archive_suffix cfg) = Accepted mf)"

definition trusted_update :: "update_config \<Rightarrow> crypto \<Rightarrow> (string \<Rightarrow> json option) \<Rightarrow> string \<Rightarrow> bool" where
  "trusted_update cfg cr parse_text content \<longleftrightarrow>
     (\<exists>mf. signed_manifest cfg cr parse_text mf \<and> newer (mf_version mf) (current_version cfg) \<and>
        int (length content) = fe_size (mf_file mf) \<and> to_hex (cr_sha256 cr content) = fe_sha256 (mf_file mf))"

definition update_ok :: "update_config \<Rightarrow> crypto \<Rightarrow> (string \<Rightarrow> json option) \<Rightarrow> manager \<Rightarrow> bool" where
  "update_ok cfg cr parse_text m \<longleftrightarrow>
     (\<forall>mf. um_manifest m = Some mf \<longrightarrow> signed_manifest cfg cr parse_text mf) \<and>
     (um_state m = Update_Available \<longrightarrow> (\<exists>mf. um_manifest m = Some mf \<and> newer (mf_version mf) (current_version cfg))) \<and>
     (\<forall>(g, req)\<in>set (um_small m). g \<le> um_generation m) \<and> (\<forall>g\<in>set (um_artifacts m). g \<le> um_generation m) \<and>
     (um_generation m \<in> set (um_artifacts m) \<longrightarrow>
        (\<exists>mf. um_manifest m = Some mf \<and> newer (mf_version mf) (current_version cfg)) \<and>
        um_part m = um_hashed m \<and> um_downloaded m = int (length (um_hashed m)) \<and>
        (\<forall>(g, req)\<in>set (um_small m). g \<noteq> um_generation m)) \<and>
     (\<forall>content\<in>set (um_extracting m) \<union> set_option (um_payload m) \<union> set (um_installed m).
        trusted_update cfg cr parse_text content)"

named_theorems manager_defs "the operations of the update manager"

lemmas manager_handlers [manager_defs] =
  check_for_updates_def periodic_check_def startup_check_def dismiss_notice_def download_update_def begin_download_def
  apply_and_restart_def extraction_finished_def fetch_small_def update_fail_def ready_to_apply_def
  on_image_downloaded_def begin_extraction_def

lemma update_ok_new: "update_ok cfg cr parse_text (new_manager cfg dismissed)"
  by (simp add: update_ok_def new_manager_def)

lemma update_ok_check: "update_ok cfg cr parse_text m \<Longrightarrow> update_ok cfg cr parse_text (check_for_updates m)"
  by (fastforce simp: update_ok_def manager_defs)

lemma update_ok_fail: "update_ok cfg cr parse_text m \<Longrightarrow> update_ok cfg cr parse_text (update_fail err m)"
  by (simp add: update_ok_def update_fail_def)

lemma update_ok_dismiss: "update_ok cfg cr parse_text m \<Longrightarrow> update_ok cfg cr parse_text (dismiss_notice m)"
  by (simp add: update_ok_def dismiss_notice_def Let_def)

lemma update_ok_manifest:
  assumes ok: "update_ok cfg cr parse_text m"
    and quiet: "um_generation m \<notin> set (um_artifacts m)"
    and signed: "verify_detached cr bytes signature (uc_trusted_keys cfg) = Verified comment"
  shows "update_ok cfg cr parse_text (on_manifest_verified cfg parse_text bytes m)"
proof (cases "parse_update_manifest parse_text bytes (uc_channel cfg) (uc_manifest_target cfg) (uc_archive_suffix cfg)")
  case (Accepted mf)
  then have "signed_manifest cfg cr parse_text mf" unfolding signed_manifest_def using signed by blast
  then show ?thesis using ok quiet Accepted by (simp add: on_manifest_verified_def update_ok_def Let_def)
qed (simp_all add: on_manifest_verified_def update_ok_fail ok)

lemma update_ok_fetch:
  "update_ok cfg cr parse_text m \<Longrightarrow> um_generation m \<notin> set (um_artifacts m) \<Longrightarrow>
   update_ok cfg cr parse_text (fetch_small req m)"
  by (auto simp: update_ok_def fetch_small_def)

lemma update_ok_drop_small:
  "update_ok cfg cr parse_text m \<Longrightarrow> update_ok cfg cr parse_text (m\<lparr>um_small := remove_at i (um_small m)\<rparr>)"
  using set_remove_at [of i "um_small m"] by (fastforce simp: update_ok_def)

lemma update_ok_active:
  "update_ok cfg cr parse_text m \<Longrightarrow> update_ok cfg cr parse_text (m\<lparr>um_active := a\<rparr>)"
  by (simp add: update_ok_def)

lemma update_ok_small:
  assumes ok: "update_ok cfg cr parse_text m"
  shows "update_ok cfg cr parse_text (small_finished cfg cr parse_text i fine body m)"
proof (cases "i < length (um_small m)")
  case True
  obtain g req where req: "um_small m ! i = (g, req)" by (cases "um_small m ! i")
  define m1 where "m1 = m\<lparr>um_small := remove_at i (um_small m), um_active := None\<rparr>"
  have m1: "update_ok cfg cr parse_text m1" using update_ok_active [OF update_ok_drop_small [OF ok]] by (simp add: m1_def)
  have quiet: "um_generation m1 \<notin> set (um_artifacts m1)" if "g = um_generation m"
    using ok nth_mem [OF True] req that by (fastforce simp: update_ok_def m1_def)
  show ?thesis
  proof (cases "g = um_generation m")
    case False
    then show ?thesis using True req update_ok_drop_small [OF ok] by (simp add: small_finished_def Let_def)
  next
    case current: True
    have "small_finished cfg cr parse_text i fine body m =
      (if \<not> fine then update_fail Check_Failed m1
       else case req of
           Get_Manifest \<Rightarrow> if kMaxManifestBytes < length body then update_fail Oversized m1 else fetch_small (Get_Signature body) m1
         | Get_Signature bytes \<Rightarrow>
             if kMaxSignatureBytes < length body then update_fail Oversized m1
             else case verify_detached cr bytes body (uc_trusted_keys cfg) of
                 Rejected err \<Rightarrow> update_fail (Signature_Rejected err) m1
               | Verified _ \<Rightarrow> on_manifest_verified cfg parse_text bytes m1)"
      unfolding small_finished_def m1_def using True req current by (simp add: Let_def split: small_request.split verdict.split)
    then show ?thesis
      using update_ok_fail [OF m1] update_ok_fetch [OF m1 quiet [OF current]] update_ok_manifest [OF m1 quiet [OF current]]
      by (simp split: small_request.split verdict.split)
  qed
qed (simp add: small_finished_def ok)

lemma update_ok_download: "update_ok cfg cr parse_text m \<Longrightarrow> update_ok cfg cr parse_text (download_update a m)"
  by (cases "um_manifest m") (fastforce simp: update_ok_def manager_defs)+

lemma update_ok_ready:
  "update_ok cfg cr parse_text m \<Longrightarrow> trusted_update cfg cr parse_text content \<Longrightarrow>
   update_ok cfg cr parse_text (ready_to_apply content can hint m)"
  by (auto simp: update_ok_def ready_to_apply_def)

lemma update_ok_finished:
  assumes ok: "update_ok cfg cr parse_text m"
    and trusted: "um_downloaded m = fe_size (mf_file mf) \<Longrightarrow>
      to_hex (cr_sha256 cr (um_hashed m)) = fe_sha256 (mf_file mf) \<Longrightarrow> fine \<Longrightarrow>
      trusted_update cfg cr parse_text (um_part m)"
    and mf: "um_manifest m = Some mf"
  shows "update_ok cfg cr parse_text (on_download_finished cfg cr fine a m)"
proof -
  have v: "update_ok cfg cr parse_text (m\<lparr>um_state := Verifying\<rparr>)" using ok by (simp add: update_ok_def)
  have "update_ok cfg cr parse_text (m\<lparr>um_state := Extracting, um_extracting := um_extracting m @ [um_part m]\<rparr>)"
    if "trusted_update cfg cr parse_text (um_part m)"
    using ok that by (auto simp: update_ok_def)
  then show ?thesis
    using trusted mf update_ok_fail [OF ok] update_ok_fail [OF v] update_ok_ready [OF v]
    by (simp add: on_download_finished_def on_image_downloaded_def begin_extraction_def Let_def)
qed

lemma update_ok_artifact:
  assumes ok: "update_ok cfg cr parse_text m"
  shows "update_ok cfg cr parse_text (artifact_finished cfg cr g fine a m)"
proof (cases "g \<in> set (um_artifacts m) \<and> g = um_generation m")
  case True
  then obtain mf where mf: "um_manifest m = Some mf" "newer (mf_version mf) (current_version cfg)"
      "signed_manifest cfg cr parse_text mf"
    and part: "um_part m = um_hashed m" "um_downloaded m = int (length (um_hashed m))"
    using ok by (auto simp: update_ok_def)
  define m1 where "m1 = m\<lparr>um_artifacts := set_erase g (um_artifacts m), um_active := None\<rparr>"
  have m1: "update_ok cfg cr parse_text m1" using ok True by (auto simp: update_ok_def m1_def set_erase_def)
  have "update_ok cfg cr parse_text (on_download_finished cfg cr fine a m1)"
    using mf part by (intro update_ok_finished [OF m1, of mf]) (auto simp: m1_def trusted_update_def)
  then show ?thesis using True by (auto simp: artifact_finished_def Let_def m1_def)
next
  case False
  have "update_ok cfg cr parse_text (m\<lparr>um_artifacts := set_erase g (um_artifacts m)\<rparr>)"
    using ok by (auto simp: update_ok_def set_erase_def)
  then show ?thesis using False ok by (auto simp: artifact_finished_def Let_def)
qed

lemma update_ok_chunk:
  assumes ok: "update_ok cfg cr parse_text m"
  shows "update_ok cfg cr parse_text (artifact_chunk cfg cr g chunk written a m)"
proof (cases "g \<in> set (um_artifacts m) \<and> g = um_generation m")
  case True
  then obtain mf where mf: "um_manifest m = Some mf" using ok by (auto simp: update_ok_def)
  define m1 where "m1 = m\<lparr>um_hashed := um_hashed m @ chunk, um_downloaded := um_downloaded m + int (length chunk)\<rparr>"
  have cut: "update_ok cfg cr parse_text (artifact_finished cfg cr g False a m1)"
    using ok True mf by (auto simp: update_ok_def artifact_finished_def on_download_finished_def update_fail_def m1_def)
  have written: "update_ok cfg cr parse_text (m1\<lparr>um_part := um_part m1 @ chunk, um_download_progress := p\<rparr>)" for p
    using ok True by (simp add: update_ok_def m1_def)
  show ?thesis
    using True mf cut written [of "um_download_progress m"] written
    by (auto simp: artifact_chunk_def Let_def m1_def)
qed (auto simp: artifact_chunk_def ok)

lemma update_ok_extracted:
  assumes ok: "update_ok cfg cr parse_text m"
  shows "update_ok cfg cr parse_text (extraction_finished cfg i fine client writable m)"
proof (cases "i < length (um_extracting m)")
  case True
  have m1: "update_ok cfg cr parse_text (m\<lparr>um_extracting := remove_at i (um_extracting m)\<rparr>)"
    using ok set_remove_at [of i "um_extracting m"] by (auto simp: update_ok_def)
  have "trusted_update cfg cr parse_text (um_extracting m ! i)"
    using ok True by (simp add: update_ok_def)
  then show ?thesis using True update_ok_fail [OF m1] update_ok_ready [OF m1] by (simp add: extraction_finished_def Let_def)
qed (simp add: extraction_finished_def ok)

lemma update_ok_apply:
  "update_ok cfg cr parse_text m \<Longrightarrow> update_ok cfg cr parse_text (apply_and_restart swapped restarted m)"
  by (auto simp: apply_and_restart_def update_fail_def update_ok_def Let_def split: option.split)

lemma update_ok_watchdog: "update_ok cfg cr parse_text m \<Longrightarrow> update_ok cfg cr parse_text (watchdog cfg cr a m)"
  by (simp add: watchdog_def update_ok_artifact split: option.split)

lemma update_ok_step: "update_ok cfg cr parse_text m \<Longrightarrow> update_ok cfg cr parse_text (update_step cfg cr parse_text e m)"
  by (cases e)
    (simp_all add: periodic_check_def startup_check_def update_ok_check update_ok_dismiss update_ok_small
      update_ok_download update_ok_chunk update_ok_artifact update_ok_watchdog update_ok_extracted update_ok_apply)

interpretation update_kept: kept_by_steps "update_step cfg cr parse_text" "update_ok cfg cr parse_text" for cfg cr parse_text
  by unfold_locales (rule update_ok_step)

section \<open>Only verified updates\<close>

text \<open>
  C4: whatever the server sends, whenever replies, chunks, timers and clicks come, and whatever the disk
  answers, the bytes that are swapped into the installation are exactly those that a manifest signed with
  a trusted key names by size and SHA-256, for this channel and target, with a version newer than the one
  that runs.
\<close>

theorem updates_installed_only_verified:
  assumes "content \<in> set (um_installed (fold (update_step cfg cr parse_text) events (new_manager cfg dismissed)))"
  shows "\<exists>mf bytes signature. \<exists>key\<in>set (uc_trusted_keys cfg).
    cr_ed25519 cr (cr_blake2b cr bytes) signature (pk_key key) \<and>
    parse_update_manifest parse_text bytes (uc_channel cfg) (uc_manifest_target cfg) (uc_archive_suffix cfg) = Accepted mf \<and>
    newer (mf_version mf) (current_version cfg) \<and>
    int (length content) = fe_size (mf_file mf) \<and> to_hex (cr_sha256 cr content) = fe_sha256 (mf_file mf)"
proof -
  have "trusted_update cfg cr parse_text content"
    using update_kept.run [OF update_ok_new, of cfg cr parse_text events dismissed] assms
    unfolding update_ok_def by blast
  then obtain mf bytes signature_text comment where
      "verify_detached cr bytes signature_text (uc_trusted_keys cfg) = Verified comment"
      "parse_update_manifest parse_text bytes (uc_channel cfg) (uc_manifest_target cfg) (uc_archive_suffix cfg) = Accepted mf"
      "newer (mf_version mf) (current_version cfg)"
      "int (length content) = fe_size (mf_file mf)" "to_hex (cr_sha256 cr content) = fe_sha256 (mf_file mf)"
    unfolding trusted_update_def signed_manifest_def by blast
  then show ?thesis using verified_signed by meson
qed

definition toy_crypto :: crypto where
  "toy_crypto = \<lparr>cr_base64 = Some, cr_blake2b = (\<lambda>content. content), cr_ed25519 = (\<lambda>_ _ _. True),
     cr_sha256 = (\<lambda>content. replicate 32 (hd content))\<rparr>"

definition demo_config :: update_config where
  "demo_config = \<lparr>uc_has_base_url = True, uc_channel = ''stable'', uc_manifest_target = ''linux'',
     uc_archive_suffix = ''.gz'', uc_single_file_artifact = False, uc_current_version_core = ''1.0.0'',
     uc_trusted_keys = [\<lparr>pk_id = replicate 8 CHR ''k'', pk_key = replicate 32 CHR ''K''\<rparr>],
     uc_allow_automatic_checks = True, uc_layout_kind = Layout_None, uc_portable = True\<rparr>"

definition demo_parse :: "string \<Rightarrow> json option" where
  "demo_parse _ = Some (JObject [(''channel'', JString ''stable''),
     (''files'', JArray [JObject [(''name'', JString ''a.gz''), (''sha256'', JString (replicate 64 CHR ''1'')),
        (''size'', JInt 1), (''url'', JString ''a.gz'')]]),
     (''project'', JString ''driscord''), (''schema'', JInt 1), (''target'', JString ''linux''),
     (''version'', JString ''1.0.1'')])"

definition demo_signature :: string where
  "demo_signature = ''u'' @ [CHR 0x0A] @ ''ED'' @ replicate 8 CHR ''k'' @ replicate 64 CHR ''s'' @ [CHR 0x0A] @
     ''trusted comment: c'' @ [CHR 0x0A] @ replicate 64 CHR ''g''"

definition demo_events :: "update_event list" where
  "demo_events =
     [U_Startup, U_Small 0 True ''m'', U_Small 0 True demo_signature,
      U_Download \<lparr>da_same_origin = True, da_mkpath = True, da_available = None, da_open = True\<rparr>,
      U_Chunk 2 [CHR 0x11] True \<lparr>fa_rename = True, fa_reopen = True, fa_tar = True, fa_mkpath = True, fa_writable = True\<rparr>,
      U_Artifact 2 True \<lparr>fa_rename = True, fa_reopen = True, fa_tar = True, fa_mkpath = True, fa_writable = True\<rparr>,
      U_Extracted 0 True True True, U_Apply True True]"

definition demo_manifest :: manifest where
  "demo_manifest = \<lparr>mf_version = \<lparr>vn_major = 1, vn_minor = 0, vn_patch = 1\<rparr>, mf_channel = ''stable'', mf_target = ''linux'',
     mf_file = \<lparr>fe_name = ''a.gz'', fe_sha256 = replicate 64 CHR ''1'', fe_size = 1, fe_url = ''a.gz''\<rparr>\<rparr>"

lemma demo_version: "parse_version ''1.0.1'' = Some \<lparr>vn_major = 1, vn_minor = 0, vn_patch = 1\<rparr>"
  by code_simp

lemma demo_current: "current_version demo_config = \<lparr>vn_major = 1, vn_minor = 0, vn_patch = 0\<rparr>"
  by code_simp

lemma demo_accepted: "parse_update_manifest demo_parse ''m'' ''stable'' ''linux'' ''.gz'' = Accepted demo_manifest"
proof -
  have "is_sha256 (replicate 64 CHR ''1'')" "is_relative_url ''a.gz''" "ends_with ''.gz'' ''a.gz''" by code_simp+
  then show ?thesis
    by (simp add: parse_update_manifest_def demo_parse_def demo_version demo_manifest_def
      qt_int_def in_int_def qt_string_def qt_array_def qt_double_def to_qint64_def kMaxArchiveBytes_def)
qed


lemma demo_verified: "verify_detached toy_crypto ''m'' demo_signature (uc_trusted_keys demo_config) = Verified ''c''"
  by code_simp

lemma demo_hash: "to_hex (replicate 32 CHR 0x11) = replicate 64 CHR ''1''"
  by code_simp

lemma demo_config_fields:
  "uc_has_base_url demo_config" "uc_trusted_keys demo_config \<noteq> []" "uc_channel demo_config = ''stable''"
  "uc_manifest_target demo_config = ''linux''" "uc_archive_suffix demo_config = ''.gz''"
  "\<not> uc_single_file_artifact demo_config" "uc_allow_automatic_checks demo_config" "uc_portable demo_config"
  by (simp_all add: demo_config_def)

lemma demo_hashed: "cr_sha256 toy_crypto [CHR 0x11] = replicate 32 CHR 0x11"
  by (simp add: toy_crypto_def)

lemma demo_small: "kMaxManifestBytes \<noteq> 0" "\<not> kMaxSignatureBytes < length demo_signature"
  by (simp_all add: kMaxManifestBytes_def kMaxSignatureBytes_def demo_signature_def)

lemma demo_newer: "newer (mf_version demo_manifest) (current_version demo_config)"
  by (simp add: newer_def demo_manifest_def demo_current)

lemma demo_file: "fe_size (mf_file demo_manifest) = 1" "fe_sha256 (mf_file demo_manifest) = replicate 64 CHR ''1''"
  by (simp_all add: demo_manifest_def)

lemma demo_available:
  "fold (update_step demo_config toy_crypto demo_parse) (take 3 demo_events) (new_manager demo_config []) =
   (new_manager demo_config [])\<lparr>um_state := Update_Available, um_manifest := Some demo_manifest,
      um_latest_version := version_text (mf_version demo_manifest), um_notice_visible := True, um_generation := 1\<rparr>"
proof -
  have "version_text (mf_version demo_manifest) \<noteq> []" by (simp add: version_text_def)
  then show ?thesis
    by (simp add: demo_events_def new_manager_def startup_check_def check_for_updates_def fetch_small_def
        small_finished_def remove_at_def on_manifest_verified_def demo_config_fields demo_small demo_verified
        demo_accepted demo_newer Let_def del: One_nat_def)
qed

lemma demo_installs:
  "um_installed (fold (update_step demo_config toy_crypto demo_parse) demo_events (new_manager demo_config [])) = [[CHR 0x11]]"
proof -
  have "fold (update_step demo_config toy_crypto demo_parse) demo_events m =
    fold (update_step demo_config toy_crypto demo_parse) (drop 3 demo_events)
      (fold (update_step demo_config toy_crypto demo_parse) (take 3 demo_events) m)" for m
    by (simp flip: fold_append [THEN fun_cong, simplified comp_def])
  then show ?thesis
    by (simp add: demo_available)
      (simp add: demo_events_def download_update_def begin_download_def artifact_chunk_def artifact_finished_def
        on_download_finished_def begin_extraction_def extraction_finished_def ready_to_apply_def staging_inside_root_def
        apply_and_restart_def new_manager_def demo_file demo_config_fields demo_hash demo_hashed remove_at_def
        set_erase_def Let_def)
qed

lemma updates_installed_only_verified_witness:
  "\<exists>mf bytes signature. \<exists>key\<in>set (uc_trusted_keys demo_config).
    cr_ed25519 toy_crypto (cr_blake2b toy_crypto bytes) signature (pk_key key) \<and>
    parse_update_manifest demo_parse bytes (uc_channel demo_config) (uc_manifest_target demo_config)
      (uc_archive_suffix demo_config) = Accepted mf \<and>
    newer (mf_version mf) (current_version demo_config) \<and>
    int (length [CHR 0x11]) = fe_size (mf_file mf) \<and> to_hex (cr_sha256 toy_crypto [CHR 0x11]) = fe_sha256 (mf_file mf)"
  by (rule updates_installed_only_verified [where events = demo_events and dismissed = "[]"]) (simp add: demo_installs)

end
