(* ===== verification/Client_Config.thy ===== *)
theory Client_Config
  imports Update_Manager Proxy_Config
begin

text \<open>
  How the desktop client is set up: its configuration file (\<^verbatim>\<open>AppConfig\<close> of
  \<^verbatim>\<open>client-qt/src/app/AppConfig.cpp\<close>), the proxy of its requests (\<^verbatim>\<open>NetworkProxy.cpp\<close>) and the
  configuration of its updater (\<^verbatim>\<open>makeUpdateConfig\<close> of \<^verbatim>\<open>client-qt/src/main.cpp\<close>). What the build
  fixes is a record; which files exist is an argument.
\<close>

section \<open>The configuration file\<close>

record ice_server_setting =
  is_url :: string
  is_username :: string
  is_password :: string

record app_config =
  ac_screen_fps :: int
  ac_ice_servers :: "ice_server_setting list"
  ac_update_url :: string
  ac_update_channel :: string
  ac_update_public_key :: string

definition default_config :: app_config where
  "default_config = \<lparr>ac_screen_fps = 60, ac_ice_servers = [], ac_update_url = [], ac_update_channel = [],
     ac_update_public_key = []\<rparr>"

datatype platform = Windows | Mac | Linux

text \<open>The directories are those of the environment; \<open>None\<close> is no configuration file.\<close>

definition find_config_file ::
  "(string \<Rightarrow> bool) \<Rightarrow> platform \<Rightarrow> string \<Rightarrow> string \<Rightarrow> string \<Rightarrow> string \<Rightarrow> string option" where
  "find_config_file exists platform app_data xdg home current =
     (let user =
        (if platform = Windows
         then (if app_data = [] then [] else [app_data @ ''/driscord/config.json''])
         else [(if xdg = [] then home @ ''/.config'' else xdg) @ ''/driscord/config.json'']) in
      List.find exists (user @ [current @ ''/config.json'', current @ ''/driscord.json'']))"

definition ice_entry :: "json \<Rightarrow> ice_server_setting" where
  "ice_entry v =
     (case v of
        JString s \<Rightarrow> \<lparr>is_url = s, is_username = [], is_password = []\<rparr>
      | _ \<Rightarrow> \<lparr>is_url = qt_string (json_find v ''url''), is_username = qt_string (json_find v ''user''),
             is_password = qt_string (json_find v ''pass'')\<rparr>)"

definition read_config :: "json \<Rightarrow> app_config" where
  "read_config obj =
     (let fps = (case json_find obj ''screen_fps'' of
                   None \<Rightarrow> ac_screen_fps default_config
                 | Some v \<Rightarrow> let configured = qt_int (Some v) 60 in
                     if configured = 30 \<or> configured = 60 then configured else 60);
          configured = filter (\<lambda>s. is_url s \<noteq> [])
            (map ice_entry (qt_array (json_find obj ''turn_servers'') @ qt_array (json_find obj ''stun_servers''))) in
      \<lparr>ac_screen_fps = fps, ac_ice_servers = (if configured \<noteq> [] then configured else ac_ice_servers default_config),
       ac_update_url = qt_string (json_find obj ''update_url''),
       ac_update_channel = qt_string (json_find obj ''update_channel''),
       ac_update_public_key = qt_string (json_find obj ''update_public_key'')\<rparr>)"

text \<open>\<open>text\<close>: the file's, \<open>None\<close> where there is none or it cannot be read.\<close>

definition load_config :: "(string \<Rightarrow> json option) \<Rightarrow> string option \<Rightarrow> app_config" where
  "load_config parse_text content =
     (case content of
        None \<Rightarrow> default_config
      | Some bytes \<Rightarrow> read_config (case parse_text bytes of Some v \<Rightarrow> as_object v | None \<Rightarrow> JObject []))"

section \<open>The proxy of the requests\<close>

datatype qt_proxy_type = Qt_No_Proxy | Qt_Socks5 | Qt_Http

record qt_proxy =
  qp_type :: qt_proxy_type
  qp_host :: string
  qp_port :: nat
  qp_user :: string
  qp_password :: string

definition to_qt_proxy :: "proxy_config \<Rightarrow> qt_proxy" where
  "to_qt_proxy p =
     \<lparr>qp_type = (if px_scheme p = Socks5 then Qt_Socks5 else Qt_Http), qp_host = px_host p, qp_port = px_port p,
      qp_user = (if authenticated p then px_username p else []),
      qp_password = (if authenticated p then px_password p else [])\<rparr>"

definition query_proxy :: "environment \<Rightarrow> string \<Rightarrow> string \<Rightarrow> string \<Rightarrow> qt_proxy" where
  "query_proxy env url_scheme protocol_tag host =
     (case proxy_from_environment env (if url_scheme = [] then protocol_tag else url_scheme) host of
        None \<Rightarrow> \<lparr>qp_type = Qt_No_Proxy, qp_host = [], qp_port = 0, qp_user = [], qp_password = []\<rparr>
      | Some p \<Rightarrow> to_qt_proxy p)"

section \<open>The configuration of the updater\<close>

record build_config =
  bd_platform :: platform
  bd_release :: bool
  bd_update_base_url :: string
  bd_update_channel :: string
  bd_version_core :: string

definition built_in_key :: string where
  "built_in_key = ''RWQRKanqjc6QBQqzMopoiyl0ZJ0I7X5dwnEx1JSOO9gjgEyo4EIWboYw''"

definition detect_install_layout :: "string \<Rightarrow> bool \<Rightarrow> layout_kind \<Rightarrow> layout_kind" where
  "detect_install_layout app_image_path absolute_file packaged =
     (if app_image_path \<noteq> [] then (if absolute_file then App_Image else Layout_None) else packaged)"

definition make_update_config :: "crypto \<Rightarrow> build_config \<Rightarrow> layout_kind \<Rightarrow> app_config \<Rightarrow> update_config" where
  "make_update_config cr build layout cfg =
     (let target = (case bd_platform build of
              Windows \<Rightarrow> (''windows/amd64'', ''.zip'', False)
            | Mac \<Rightarrow> (''macos/arm64'', ''.zip'', False)
            | Linux \<Rightarrow> (''linux/amd64'', ''.AppImage'', True));
          base = \<lparr>uc_has_base_url = (bd_update_base_url build \<noteq> []), uc_channel = bd_update_channel build,
            uc_manifest_target = fst target, uc_archive_suffix = fst (snd target),
            uc_single_file_artifact = snd (snd target), uc_current_version_core = bd_version_core build,
            uc_trusted_keys = (case parse_public_key cr built_in_key of Some k \<Rightarrow> [k] | None \<Rightarrow> []),
            uc_allow_automatic_checks = bd_release build, uc_layout_kind = layout,
            uc_portable = (layout \<noteq> Layout_None)\<rparr> in
      if bd_release build then base
      else
        base\<lparr>uc_has_base_url := (ac_update_url cfg \<noteq> [] \<or> uc_has_base_url base),
             uc_channel := (if ac_update_channel cfg \<noteq> [] then ac_update_channel cfg else uc_channel base),
             uc_trusted_keys :=
               (if ac_update_public_key cfg \<noteq> []
                then (case parse_public_key cr (ac_update_public_key cfg) of
                        Some k \<Rightarrow> [k] | None \<Rightarrow> uc_trusted_keys base)
                else uc_trusted_keys base),
             uc_allow_automatic_checks := (ac_update_url cfg \<noteq> [] \<or> uc_allow_automatic_checks base)\<rparr>)"

section \<open>Properties\<close>

lemma config_well_formed:
  "ac_screen_fps (load_config parse_text content) \<in> {30, 60} \<and>
   (\<forall>s\<in>set (ac_ice_servers (load_config parse_text content)). is_url s \<noteq> [])"
  by (auto simp: load_config_def read_config_def default_config_def Let_def split: option.split)

text \<open>
  In a release build the configuration file has no influence on the updater, and the updater of a release
  trusts no key but the one that is built in.
\<close>

theorem release_ignores_config:
  "make_update_config cr (build\<lparr>bd_release := True\<rparr>) layout (load_config parse_text content) =
     make_update_config cr (build\<lparr>bd_release := True\<rparr>) layout default_config \<and>
   set (uc_trusted_keys (make_update_config cr (build\<lparr>bd_release := True\<rparr>) layout (load_config parse_text content))) =
     set_option (parse_public_key cr built_in_key)"
  by (cases "parse_public_key cr built_in_key") (simp_all add: make_update_config_def Let_def)

end
