(* ===== verification/Audio_Devices.thy ===== *)
theory Audio_Devices
  imports Http_Requests
begin

text \<open>
  The audio devices of the client: \<^verbatim>\<open>core/src/webrtc/google_webrtc_audio_devices.cpp\<close>, and what
  \<^verbatim>\<open>google_webrtc_runtime.cpp\<close> adds for the devices and for audio that is injected. The audio device module
  of the WebRTC library is what it lists (\<open>None\<close> for a device it cannot name) and a state: the device selected
  and whether it streams. Whether one of its calls succeeds is the head of a list, \<open>True\<close> when it is used up.
  It counts its devices with 16 bits, so the index of a device and the ordinals of names fit their types.
\<close>

section \<open>Listing\<close>

record audio_device_info =
  ad_id :: string
  ad_name :: string

type_synonym enumerated = "audio_device_info \<times> nat"

definition kDefaultAudioDeviceId :: string where
  "kDefaultAudioDeviceId = ''default''"

definition make_audio_device_id :: "string \<Rightarrow> string \<Rightarrow> nat \<Rightarrow> string" where
  "make_audio_device_id guid name name_ordinal =
     (if guid \<noteq> [] then ''guid:'' @ guid else ''name:'' @ name @ ''#'' @ to_string name_ordinal)"

definition shown_name :: "nat \<Rightarrow> string \<Rightarrow> string" where
  "shown_name index name =
     (if name = [] then (if index = 0 then ''System default'' else ''Unnamed audio device'') else name)"

text \<open>The devices from \<open>index\<close> on; \<open>ordinals\<close>: how often each name was seen.\<close>

fun enumerate_from :: "nat \<Rightarrow> (string \<Rightarrow> nat) \<Rightarrow> (string \<times> string) option list \<Rightarrow> enumerated list" where
  "enumerate_from index ordinals [] = []"
| "enumerate_from index ordinals (None # devices) = enumerate_from (Suc index) ordinals devices"
| "enumerate_from index ordinals (Some (name, guid) # devices) =
     (let display = shown_name index name in
      if index = 0
      then (\<lparr>ad_id = kDefaultAudioDeviceId,
             ad_name = (if display = ''System default'' then display else ''System default ('' @ display @ '')'')\<rparr>, 0)
           # enumerate_from (Suc index) ordinals devices
      else (\<lparr>ad_id = make_audio_device_id guid display (ordinals display), ad_name = display\<rparr>, index)
           # enumerate_from (Suc index) (ordinals(display := Suc (ordinals display))) devices)"

definition enumerate_audio_devices :: "(string \<times> string) option list \<Rightarrow> enumerated list" where
  "enumerate_audio_devices devices = enumerate_from 0 (\<lambda>_. 0) devices"

section \<open>Selecting\<close>

record device_module =
  dm_initialized :: bool
  dm_devices :: "(string \<times> string) option list"
  dm_selected :: nat
  dm_active :: bool
  dm_answers :: "bool list"

definition answer :: "device_module \<Rightarrow> bool \<times> device_module" where
  "answer d = (case dm_answers d of [] \<Rightarrow> (True, d) | a # as \<Rightarrow> (a, d\<lparr>dm_answers := as\<rparr>))"

definition ensure_initialized :: "device_module \<Rightarrow> bool \<times> device_module" where
  "ensure_initialized d =
     (if dm_initialized d then (True, d)
      else (case answer d of (ok, d1) \<Rightarrow> (ok, if ok then d1\<lparr>dm_initialized := True\<rparr> else d1)))"

definition stop_stream :: "device_module \<Rightarrow> bool \<times> device_module" where
  "stop_stream d = (case answer d of (ok, d1) \<Rightarrow> (ok, if ok then d1\<lparr>dm_active := False\<rparr> else d1))"

definition select_index :: "nat \<Rightarrow> device_module \<Rightarrow> bool \<times> device_module" where
  "select_index index d = (case answer d of (ok, d1) \<Rightarrow> (ok, if ok then d1\<lparr>dm_selected := index\<rparr> else d1))"

definition initialize_endpoint :: "device_module \<Rightarrow> bool \<times> device_module" where
  "initialize_endpoint d = answer d"

definition start_stream :: "device_module \<Rightarrow> bool \<times> device_module" where
  "start_stream d =
     (case answer d of
        (False, d1) \<Rightarrow> (False, d1)
      | (True, d1) \<Rightarrow> (case answer d1 of (ok, d2) \<Rightarrow> (ok, if ok then d2\<lparr>dm_active := True\<rparr> else d2)))"

definition restore_default :: "bool \<Rightarrow> device_module \<Rightarrow> bool \<times> device_module" where
  "restore_default was_active d =
     (case select_index 0 (snd (stop_stream d)) of
        (False, d1) \<Rightarrow> (False, d1)
      | (True, d1) \<Rightarrow>
          (case initialize_endpoint d1 of
             (False, d2) \<Rightarrow> (False, d2)
           | (True, d2) \<Rightarrow> if \<not> was_active then (True, d2) else start_stream d2))"

definition restart_selected :: "bool \<Rightarrow> nat \<Rightarrow> device_module \<Rightarrow> bool \<times> device_module" where
  "restart_selected was_active index d =
     (case select_index index d of
        (False, d1) \<Rightarrow> (False, if was_active then snd (start_stream d1) else d1)
      | (True, d1) \<Rightarrow>
          (case initialize_endpoint d1 of
             (False, d2) \<Rightarrow> (False, snd (restore_default was_active d2))
           | (True, d2) \<Rightarrow>
               if \<not> was_active then (True, d2)
               else
                 (case start_stream d2 of
                    (True, d3) \<Rightarrow> (True, d3)
                  | (False, d3) \<Rightarrow> (False, snd (restore_default was_active d3)))))"

definition restart_on_device :: "nat \<Rightarrow> device_module \<Rightarrow> bool \<times> device_module" where
  "restart_on_device index d =
     (let was_active = dm_active d in
      if was_active
      then (case stop_stream d of
              (False, d1) \<Rightarrow> (False, d1)
            | (True, d1) \<Rightarrow> restart_selected was_active index d1)
      else restart_selected was_active index d)"

definition list_audio_devices :: "device_module \<Rightarrow> audio_device_info list \<times> device_module" where
  "list_audio_devices d =
     (case ensure_initialized d of
        (False, d1) \<Rightarrow> ([], d1)
      | (True, d1) \<Rightarrow> (map fst (enumerate_audio_devices (dm_devices d1)), d1))"

definition select_audio_device :: "string \<Rightarrow> device_module \<Rightarrow> bool \<times> device_module" where
  "select_audio_device i d =
     (if i = [] then (False, d)
      else
        (case ensure_initialized d of
           (False, d1) \<Rightarrow> (False, d1)
         | (True, d1) \<Rightarrow>
             (case List.find (\<lambda>e. ad_id (fst e) = i) (enumerate_audio_devices (dm_devices d1)) of
                None \<Rightarrow> (False, d1)
              | Some e \<Rightarrow> restart_on_device (snd e) d1)))"

section \<open>Injected audio\<close>

record injected_config =
  ij_sample_rate_hz :: int
  ij_channels :: nat
  ij_max_buffered_frames :: nat

definition is_supported_sample_rate :: "int \<Rightarrow> bool" where
  "is_supported_sample_rate hz \<longleftrightarrow> hz \<in> {8000, 16000, 24000, 32000, 44100, 48000}"

text \<open>\<open>False\<close> where the code throws.\<close>

definition validate_injected :: "injected_config \<Rightarrow> bool" where
  "validate_injected c \<longleftrightarrow>
     is_supported_sample_rate (ij_sample_rate_hz c) \<and> \<not> (ij_channels c = 0 \<or> 2 < ij_channels c) \<and>
     ij_max_buffered_frames c \<noteq> 0"

definition samples_per_frame :: "injected_config \<Rightarrow> nat" where
  "samples_per_frame c = nat (ij_sample_rate_hz c div 100) * ij_channels c"

definition injected_submit :: "injected_config \<Rightarrow> int list \<Rightarrow> int list list \<Rightarrow> bool \<times> int list list" where
  "injected_submit c samples frames =
     (if length samples \<noteq> samples_per_frame c then (False, frames)
      else if ij_max_buffered_frames c \<le> length frames then (False, frames)
      else (True, frames @ [samples]))"

definition next_frame :: "int list list \<Rightarrow> (int list \<times> int list list) option" where
  "next_frame frames = (case frames of [] \<Rightarrow> None | f # fs \<Rightarrow> Some (f, fs))"

definition injected_capture :: "injected_config \<Rightarrow> int list list \<Rightarrow> int list \<times> int list list" where
  "injected_capture c frames =
     (case next_frame frames of
        None \<Rightarrow> (replicate (samples_per_frame c) 0, frames)
      | Some (f, fs) \<Rightarrow> (f, fs))"

section \<open>The runtime\<close>

record audio_runtime =
  ar_module :: "device_module option"
  ar_injected :: bool
  ar_worker :: bool

definition runtime_audio_devices :: "audio_runtime \<Rightarrow> audio_device_info list \<times> audio_runtime" where
  "runtime_audio_devices r =
     (case ar_module r of
        None \<Rightarrow> ([], r)
      | Some d \<Rightarrow>
          if ar_injected r \<or> \<not> ar_worker r then ([], r)
          else (case list_audio_devices d of (infos, d1) \<Rightarrow> (infos, r\<lparr>ar_module := Some d1\<rparr>)))"

definition runtime_set_audio_device :: "string \<Rightarrow> audio_runtime \<Rightarrow> bool \<times> audio_runtime" where
  "runtime_set_audio_device i r =
     (case ar_module r of
        None \<Rightarrow> (False, r)
      | Some d \<Rightarrow>
          if ar_injected r \<or> \<not> ar_worker r \<or> i = [] then (False, r)
          else (case select_audio_device i d of (ok, d1) \<Rightarrow> (ok, r\<lparr>ar_module := Some d1\<rparr>)))"

section \<open>Every listed device can be told from the others\<close>

text \<open>The devices without a name are as if they had the name they are shown with.\<close>

lemma to_string_inject: "to_string m = to_string n \<longleftrightarrow> m = n"
  by (metis digits_value_to_string)

lemma hash_not_digit: "CHR ''#'' \<notin> set (to_string n)"
  using to_string_digits [of n] by (auto simp: is_digit_def)

lemma split_at_last:
  fixes c :: char
  shows "c \<notin> set s \<Longrightarrow> c \<notin> set t \<Longrightarrow> a @ c # s = b @ c # t \<longleftrightarrow> a = b \<and> s = t"
proof
  assume c: "c \<notin> set s" "c \<notin> set t" and eq: "a @ c # s = b @ c # t"
  have "rev s @ c # rev a = rev t @ c # rev b" using arg_cong [OF eq, of rev] by simp
  then have "before c (rev s @ c # rev a) = before c (rev t @ c # rev b)" by simp
  then have "rev s = rev t" using c by (simp add: before_append)
  then show "a = b \<and> s = t" using eq by simp
qed auto

lemma device_ids:
  "make_audio_device_id g n k = make_audio_device_id g' n' k' \<longleftrightarrow>
     (if g = [] \<and> g' = [] then n = n' \<and> k = k' else g = g')"
  "make_audio_device_id g n k \<noteq> kDefaultAudioDeviceId"
  using split_at_last [of "CHR ''#''" "to_string k" "to_string k'" n n'] hash_not_digit
  by (auto simp: make_audio_device_id_def kDefaultAudioDeviceId_def to_string_inject)

definition guids :: "(string \<times> string) option list \<Rightarrow> string list" where
  "guids devices = filter (\<lambda>g. g \<noteq> []) (map snd (List.map_filter id devices))"

lemma guids_simps [simp]:
  "guids [] = []" "guids (None # devices) = guids devices"
  "guids (Some (name, guid) # devices) = (if guid = [] then guids devices else guid # guids devices)"
  by (simp_all add: guids_def map_filter_simps)

definition device_id_from :: "(string \<Rightarrow> nat) \<Rightarrow> (string \<times> string) option list \<Rightarrow> string \<Rightarrow> bool" where
  "device_id_from ordinals devices i \<longleftrightarrow>
     (\<exists>g n k. i = make_audio_device_id g n k \<and> (if g = [] then ordinals n \<le> k else g \<in> set (guids devices)))"

lemma enumerated_ids:
  "e \<in> set (enumerate_from index ordinals devices) \<Longrightarrow> 0 < index \<Longrightarrow> device_id_from ordinals devices (ad_id (fst e))"
proof (induction index ordinals devices rule: enumerate_from.induct)
  case (3 index ordinals name guid devices)
  define display where "display = shown_name index name"
  consider "ad_id (fst e) = make_audio_device_id guid display (ordinals display)"
    | "e \<in> set (enumerate_from (Suc index) (ordinals(display := Suc (ordinals display))) devices)"
    using "3.prems" by (auto simp: Let_def display_def)
  then show ?case
  proof cases
    case 1
    then show ?thesis unfolding device_id_from_def by (intro exI [of _ guid] exI [of _ display] exI [of _ "ordinals display"]) simp
  next
    case 2
    then have "device_id_from (ordinals(display := Suc (ordinals display))) devices (ad_id (fst e))"
      using "3.IH"(2) "3.prems"(2) by (simp add: display_def Let_def fun_upd_def)
    then obtain g n k where "ad_id (fst e) = make_audio_device_id g n k"
        "if g = [] then (ordinals(display := Suc (ordinals display))) n \<le> k else g \<in> set (guids devices)"
      unfolding device_id_from_def by blast
    then show ?thesis unfolding device_id_from_def
      by (intro exI [of _ g] exI [of _ n] exI [of _ k]) (auto split: if_splits)
  qed
next
  case (2 index ordinals devices)
  then show ?case unfolding device_id_from_def by (simp only: enumerate_from.simps guids_simps)
qed simp

lemma distinct_enumerated:
  "0 < index \<Longrightarrow> distinct (guids devices) \<Longrightarrow> distinct (map (\<lambda>e. ad_id (fst e)) (enumerate_from index ordinals devices))"
proof (induction index ordinals devices rule: enumerate_from.induct)
  case (3 index ordinals name guid devices)
  define display where "display = shown_name index name"
  define later where "later = enumerate_from (Suc index) (ordinals(display := Suc (ordinals display))) devices"
  have "distinct (map (\<lambda>e. ad_id (fst e)) later)"
    using "3.IH" "3.prems" by (simp add: later_def display_def Let_def fun_upd_def split: if_splits)
  moreover have "ad_id (fst e) \<noteq> make_audio_device_id guid display (ordinals display)" if mem: "e \<in> set later" for e
  proof
    assume same: "ad_id (fst e) = make_audio_device_id guid display (ordinals display)"
    obtain g n k where "ad_id (fst e) = make_audio_device_id g n k"
        "if g = [] then (ordinals(display := Suc (ordinals display))) n \<le> k else g \<in> set (guids devices)"
      using enumerated_ids [OF mem [unfolded later_def]] unfolding device_id_from_def by auto
    then show False using same "3.prems"(2) by (auto simp: device_ids split: if_splits)
  qed
  then have "make_audio_device_id guid display (ordinals display) \<notin> (\<lambda>e. ad_id (fst e)) ` set later" by (metis imageE)
  ultimately show ?case using "3.prems"(1) unfolding later_def display_def by (simp add: Let_def)
qed simp_all

lemma distinct_devices:
  assumes "distinct (guids devices)"
  shows "distinct (map (\<lambda>e. ad_id (fst e)) (enumerate_audio_devices devices))"
proof (cases devices)
  case (Cons device rest)
  show ?thesis
  proof (cases device)
    case None
    then show ?thesis using Cons assms distinct_enumerated by (simp add: enumerate_audio_devices_def)
  next
    case (Some named)
    obtain name guid where named: "named = (name, guid)" by (cases named)
    have "distinct (guids rest)" using assms Cons Some named by (simp split: if_splits)
    moreover have "kDefaultAudioDeviceId \<noteq> ad_id (fst e)" if "e \<in> set (enumerate_from 1 (\<lambda>_. 0) rest)" for e
      using enumerated_ids [OF that] device_ids(2) unfolding device_id_from_def by (metis zero_less_one)
    ultimately show ?thesis
      using Cons Some named distinct_enumerated [of 1 rest "\<lambda>_. 0"] by (force simp: enumerate_audio_devices_def Let_def)
  qed
qed (simp add: enumerate_audio_devices_def)

lemma find_distinct:
  "distinct (map f xs) \<Longrightarrow> x \<in> set xs \<Longrightarrow> List.find (\<lambda>y. f y = f x) xs = Some x"
  by (induction xs) force+

section \<open>Selecting a listed device\<close>

lemma restart_answered:
  "dm_answers d = [] \<Longrightarrow> restart_on_device index d = (True, d\<lparr>dm_selected := index\<rparr>)"
  by (cases "dm_active d")
    (simp_all add: restart_on_device_def restart_selected_def stop_stream_def select_index_def initialize_endpoint_def
      start_stream_def answer_def Let_def)

text \<open>
  The identifiers of the devices that are listed are different, as long as the devices that have a GUID have
  different ones, also when devices share a name or have none; so asking for the identifier of a listed device
  selects that very device.
\<close>

theorem listed_device_selected:
  assumes "distinct (guids (dm_devices d))" "dm_initialized d"
    and "(info, index) \<in> set (enumerate_audio_devices (dm_devices d))"
  shows "distinct (map (\<lambda>e. ad_id (fst e)) (enumerate_audio_devices (dm_devices d))) \<and>
    select_audio_device (ad_id info) d = restart_on_device index d"
proof -
  note distinct = distinct_devices [OF assms(1)]
  have "List.find (\<lambda>e. ad_id (fst e) = ad_id (fst (info, index))) (enumerate_audio_devices (dm_devices d)) = Some (info, index)"
    using find_distinct [OF distinct assms(3)] .
  moreover have "ad_id info \<noteq> []"
  proof -
    have "ad_id (fst e) \<noteq> []" if "e \<in> set (enumerate_from i ordinals devices)" for e i ordinals devices
      using that by (induction i ordinals devices rule: enumerate_from.induct)
        (auto simp: Let_def kDefaultAudioDeviceId_def make_audio_device_id_def split: if_splits)
    then show ?thesis using assms(3) by (fastforce simp: enumerate_audio_devices_def)
  qed
  ultimately show ?thesis
    using assms(2) distinct by (simp add: select_audio_device_def ensure_initialized_def)
qed

definition two_headsets :: device_module where
  "two_headsets = \<lparr>dm_initialized = True,
     dm_devices = [Some (''Speakers'', []), Some (''Headset'', []), None, Some (''Headset'', [])],
     dm_selected = 0, dm_active = True, dm_answers = []\<rparr>"

lemma two_headsets_listed:
  "enumerate_audio_devices (dm_devices two_headsets) =
     [(\<lparr>ad_id = ''default'', ad_name = ''System default (Speakers)''\<rparr>, 0),
      (\<lparr>ad_id = ''name:Headset#0'', ad_name = ''Headset''\<rparr>, 1),
      (\<lparr>ad_id = ''name:Headset#1'', ad_name = ''Headset''\<rparr>, 3)]"
  by code_simp

lemma listed_device_selected_witness:
  "select_audio_device ''name:Headset#1'' two_headsets = (True, two_headsets\<lparr>dm_selected := 3\<rparr>)"
proof -
  have "distinct (map (\<lambda>e. ad_id (fst e)) (enumerate_audio_devices (dm_devices two_headsets))) \<and>
      select_audio_device (ad_id \<lparr>ad_id = ''name:Headset#1'', ad_name = ''Headset''\<rparr>) two_headsets = restart_on_device 3 two_headsets"
    by (rule listed_device_selected) (simp_all add: two_headsets_listed, simp_all add: two_headsets_def)
  moreover have "dm_answers two_headsets = []" by (simp add: two_headsets_def)
  ultimately show ?thesis using restart_answered [of two_headsets 3] by simp
qed

section \<open>When a call fails\<close>

lemma answered_fields: "answer d = (ok, d') \<Longrightarrow> dm_selected d' = dm_selected d \<and> dm_active d' = dm_active d"
  by (cases "dm_answers d") (auto simp: answer_def)

lemma stop_fields: "stop_stream d = (ok, d') \<Longrightarrow> dm_selected d' = dm_selected d \<and> dm_active d' = (dm_active d \<and> \<not> ok)"
  by (cases "answer d") (auto simp: stop_stream_def dest!: answered_fields split: if_splits)

lemma select_fields: "select_index i d = (ok, d') \<Longrightarrow> dm_selected d' = (if ok then i else dm_selected d) \<and> dm_active d' = dm_active d"
  by (cases "answer d") (auto simp: select_index_def dest!: answered_fields split: if_splits)

lemma start_fields: "start_stream d = (ok, d') \<Longrightarrow> dm_selected d' = dm_selected d \<and> (\<not> ok \<longrightarrow> dm_active d' = dm_active d)"
  by (auto simp: start_stream_def dest!: answered_fields split: prod.splits bool.splits)

lemma restore_fields:
  assumes "\<not> dm_active d"
  shows "dm_selected (snd (restore_default w d)) = 0 \<or>
    dm_selected (snd (restore_default w d)) = dm_selected d \<and> \<not> dm_active (snd (restore_default w d))"
proof -
  obtain ok d1 where d1: "select_index 0 (snd (stop_stream d)) = (ok, d1)" by fastforce
  obtain stopped d0 where d0: "stop_stream d = (stopped, d0)" by fastforce
  obtain good d2 where d2: "initialize_endpoint d1 = (good, d2)" by fastforce
  obtain up d3 where d3: "start_stream d2 = (up, d3)" by fastforce
  show ?thesis
    using stop_fields [OF d0] select_fields [OF d1] answered_fields [OF d2 [unfolded initialize_endpoint_def]] start_fields [OF d3]
      d0 d1 d2 d3 assms
    by (cases ok; cases good) (simp_all add: restore_default_def)
qed

lemma refused_selected:
  assumes refused: "restart_selected w index d = (False, d')" and idle: "\<not> dm_active d"
  shows "dm_selected d' = dm_selected d \<or> dm_selected d' = 0 \<or> dm_selected d' = index \<and> \<not> dm_active d'"
proof -
  obtain ok d1 where d1: "select_index index d = (ok, d1)" by fastforce
  obtain good d2 where d2: "initialize_endpoint d1 = (good, d2)" by fastforce
  obtain up d3 where d3: "start_stream d2 = (up, d3)" by fastforce
  obtain up' d4 where d4: "start_stream d1 = (up', d4)" by fastforce
  note fields = select_fields [OF d1] answered_fields [OF d2 [unfolded initialize_endpoint_def]] start_fields [OF d3] start_fields [OF d4]
  show ?thesis
    using refused fields idle d1 d2 d3 d4 restore_fields [of d2 w] restore_fields [of d3 w]
    by (cases ok; cases good; cases w; cases up) (auto simp: restart_selected_def)
qed

text \<open>
  A change of device that is refused leaves the old device selected, or the default one, or a device that
  does not stream: never does the stream go on at a device that was reported as refused.
\<close>

theorem refused_change:
  assumes "restart_on_device index d = (False, d')"
  shows "dm_selected d' = dm_selected d \<or> dm_selected d' = 0 \<or> dm_selected d' = index \<and> \<not> dm_active d'"
proof (cases "dm_active d")
  case True
  obtain stopped d1 where d1: "stop_stream d = (stopped, d1)" by fastforce
  then show ?thesis
    using assms True stop_fields [OF d1] refused_selected [of True index d1 d']
    by (cases stopped) (simp_all add: restart_on_device_def Let_def)
next
  case False
  then show ?thesis using assms refused_selected [of False index d d'] by (simp add: restart_on_device_def Let_def)
qed

lemma refused_change_witness:
  "dm_selected (snd (restart_on_device 3 (two_headsets\<lparr>dm_selected := 1, dm_answers := [True, True, False]\<rparr>))) = 0"
proof -
  define d where "d = two_headsets\<lparr>dm_selected := 1, dm_answers := [True, True, False]\<rparr>"
  have run: "restart_on_device 3 d = (False, two_headsets\<lparr>dm_selected := 0\<rparr>)"
    by (simp add: d_def two_headsets_def restart_on_device_def restart_selected_def restore_default_def stop_stream_def
        select_index_def initialize_endpoint_def start_stream_def answer_def)
  from refused_change [OF run] show ?thesis unfolding d_def [symmetric] by (simp add: run)
qed

end
